(* ===== verification/Prelude.thy ===== *)
theory Prelude
  imports Complex_Main "HOL-Library.AList" "HOL-Library.Char_ord" "HOL-Library.List_Lexorder"
    "HOL-Library.Product_Lexorder" "HOL-Library.Sublist" "HOL-Library.Multiset"
begin

text \<open>
  Shared vocabulary of the development: Go strings as byte lists with the functions of the
  \<open>strings\<close> package that the program calls, times as nanoseconds, tables as association lists,
  and the collections of rewrite rules the component theories add to.
\<close>

named_theorems store_simps "unfolding rules of the storage operations"
named_theorems worker_simps "unfolding rules of the delivery workers"
named_theorems mqtt_simps "unfolding rules of the MQTT receiver"

section \<open>Go strings\<close>

text \<open>
  A Go string is a sequence of bytes; \<open>string\<close> is a list of 8-bit characters, so \<open>length\<close>
  is Go's \<open>len\<close> and the lexicographic order is Go's \<open><\<close>.
\<close>

definition byte_range :: "nat \<Rightarrow> nat \<Rightarrow> char \<Rightarrow> bool" where
  "byte_range lo hi c \<longleftrightarrow> lo \<le> of_char c \<and> of_char c \<le> hi"

definition is_digit :: "char \<Rightarrow> bool" where
  "is_digit = byte_range 48 57"

definition is_upper_ascii :: "char \<Rightarrow> bool" where
  "is_upper_ascii = byte_range 65 90"

definition is_lower_ascii :: "char \<Rightarrow> bool" where
  "is_lower_ascii = byte_range 97 122"

definition lower_char :: "char \<Rightarrow> char" where
  "lower_char c = (if is_upper_ascii c then char_of (of_char c + 32 :: nat) else c)"

definition upper_char :: "char \<Rightarrow> char" where
  "upper_char c = (if is_lower_ascii c then char_of (of_char c - 32 :: nat) else c)"

text \<open>\<open>strings.ToLower\<close> and \<open>strings.ToUpper\<close> on the ASCII letters; other bytes are kept.\<close>

definition to_lower :: "string \<Rightarrow> string" where
  "to_lower = map lower_char"

definition to_upper :: "string \<Rightarrow> string" where
  "to_upper = map upper_char"

text \<open>The UTF-8 encodings of the runes that \<open>unicode.IsSpace\<close> accepts.\<close>

definition space_codes :: "nat list list" where
  "space_codes =
     [[9], [10], [11], [12], [13], [32],
      [0xC2, 0x85], [0xC2, 0xA0], [0xE1, 0x9A, 0x80],
      [0xE2, 0x80, 0x80], [0xE2, 0x80, 0x81], [0xE2, 0x80, 0x82], [0xE2, 0x80, 0x83],
      [0xE2, 0x80, 0x84], [0xE2, 0x80, 0x85], [0xE2, 0x80, 0x86], [0xE2, 0x80, 0x87],
      [0xE2, 0x80, 0x88], [0xE2, 0x80, 0x89], [0xE2, 0x80, 0x8A], [0xE2, 0x80, 0xA8],
      [0xE2, 0x80, 0xA9], [0xE2, 0x80, 0xAF], [0xE2, 0x81, 0x9F], [0xE3, 0x80, 0x80]]"

definition space_runes :: "string list" where
  "space_runes = map (map char_of) space_codes"

text \<open>Length in bytes of the member of \<open>es\<close> at the front of \<open>s\<close>, or 0.\<close>

fun match_len :: "string list \<Rightarrow> string \<Rightarrow> nat" where
  "match_len [] s = 0"
| "match_len (e # es) s =
     (if e \<noteq> [] \<and> take (length e) s = e then length e else match_len es s)"

lemma match_len_le: "match_len es s \<le> length s"
proof (induction es)
  case (Cons e es)
  have "take (length e) s = e \<Longrightarrow> length e \<le> length s"
    by (metis length_take min.cobounded1)
  with Cons show ?case by auto
qed simp

lemma match_len_0_take: "match_len es s = 0 \<Longrightarrow> match_len es (take n s) = 0"
proof (induction es)
  case (Cons e es)
  have "take (length e) (take n s) = e \<Longrightarrow> take (length e) s = e"
    by (metis length_take min.cobounded2 min.commute min_def take_take)
  with Cons show ?case by (auto split: if_splits)
qed simp

function trim_by :: "string list \<Rightarrow> string \<Rightarrow> string" where
  "trim_by es s =
     (if match_len es s = 0 then s else trim_by es (drop (match_len es s) s))"
  by pat_completeness auto
termination
proof (relation "measure (\<lambda>(es, s). length s)", goal_cases)
  case (2 es s)
  with match_len_le [of es s] show ?case by auto
qed simp

declare trim_by.simps [simp del]

lemma trim_by_fixed [simp]: "match_len es (trim_by es s) = 0"
proof (induction es s rule: trim_by.induct)
  case (1 es s)
  then show ?case by (subst trim_by.simps) auto
qed

lemma trim_by_id: "match_len es s = 0 \<Longrightarrow> trim_by es s = s"
  by (subst trim_by.simps) simp

lemma trim_by_idem [simp]: "trim_by es (trim_by es s) = trim_by es s"
  by (simp add: trim_by_id)

lemma trim_by_drop: "\<exists>n. trim_by es s = drop n s"
proof (induction es s rule: trim_by.induct)
  case (1 es s)
  show ?case
  proof (cases "match_len es s = 0")
    case True
    then show ?thesis by (metis drop_0 trim_by_id)
  next
    case False
    with 1 show ?thesis by (subst trim_by.simps) (metis drop_drop)
  qed
qed

text \<open>\<open>strings.TrimSpace\<close>.\<close>

definition trim_space :: "string \<Rightarrow> string" where
  "trim_space s = rev (trim_by (map rev space_runes) (rev (trim_by space_runes s)))"

lemma trim_space_idem [simp]: "trim_space (trim_space s) = trim_space s"
proof -
  let ?u = "trim_by space_runes s"
  obtain n where n: "trim_by (map rev space_runes) (rev ?u) = drop n (rev ?u)"
    using trim_by_drop by blast
  then have t: "trim_space s = take (length ?u - n) ?u"
    by (simp add: trim_space_def rev_drop)
  then have "match_len space_runes (trim_space s) = 0"
    by (simp add: match_len_0_take)
  then have "trim_by space_runes (trim_space s) = trim_space s"
    by (rule trim_by_id)
  then show ?thesis by (simp add: trim_space_def)
qed

lemma length_trim_by: "length (trim_by es s) \<le> length s"
  by (metis diff_le_self length_drop trim_by_drop)

lemma length_trim_space: "length (trim_space s) \<le> length s"
  by (metis length_rev length_trim_by order_trans trim_space_def)

lemma trim_space_Nil [simp]: "trim_space [] = []"
  using length_trim_space [of "[]"] by simp

lemma to_lower_Nil [simp]: "to_lower [] = []"
  by (simp add: to_lower_def)

lemma length_to_lower [simp]: "length (to_lower s) = length s"
  by (simp add: to_lower_def)

lemma lower_char_idem [simp]: "lower_char (lower_char c) = lower_char c"
proof (cases "is_upper_ascii c")
  case True
  then have b: "65 \<le> (of_char c :: nat)" "(of_char c :: nat) \<le> 90"
    by (auto simp: is_upper_ascii_def byte_range_def)
  then have "(of_char (char_of (of_char c + 32 :: nat) :: char) :: nat) = of_char c + 32"
    by (simp add: of_char_mod_256 take_bit_eq_mod)
  with True b show ?thesis
    by (simp add: lower_char_def is_upper_ascii_def byte_range_def)
qed (simp add: lower_char_def)

lemma to_lower_idem [simp]: "to_lower (to_lower s) = to_lower s"
  by (simp add: to_lower_def comp_def)

text \<open>Trimming commutes with lowercasing: no white-space rune holds a letter.\<close>

lemma map_eq_stable:
  "\<forall>c\<in>set e. \<forall>x. f x = c \<longleftrightarrow> x = c \<Longrightarrow> map f t = e \<longleftrightarrow> t = e"
proof (induction e arbitrary: t)
  case (Cons c e)
  then show ?case by (cases t) auto
qed simp

definition case_free :: "string list \<Rightarrow> bool" where
  "case_free es \<longleftrightarrow>
     list_all (list_all (\<lambda>c. \<not> is_upper_ascii c \<and> \<not> is_lower_ascii c)) es"

lemma lower_char_eq_iff:
  assumes "\<not> is_upper_ascii c" "\<not> is_lower_ascii c"
  shows "lower_char x = c \<longleftrightarrow> x = c"
proof (cases "is_upper_ascii x")
  case True
  then have "65 \<le> (of_char x :: nat)" "(of_char x :: nat) \<le> 90"
    by (auto simp: is_upper_ascii_def byte_range_def)
  then have "is_lower_ascii (lower_char x)"
    using True by (simp add: lower_char_def is_lower_ascii_def byte_range_def of_char_mod_256
        take_bit_eq_mod)
  with assms True show ?thesis by auto
next
  case False
  then show ?thesis by (simp add: lower_char_def)
qed

lemma match_len_lower: "case_free es \<Longrightarrow> match_len es (to_lower s) = match_len es s"
proof (induction es)
  case (Cons e es)
  then have "to_lower (take (length e) s) = e \<longleftrightarrow> take (length e) s = e"
    unfolding to_lower_def
    by (intro map_eq_stable) (auto simp: case_free_def list_all_iff lower_char_eq_iff)
  with Cons show ?case by (auto simp: case_free_def to_lower_def take_map)
qed simp

lemma trim_by_lower: "case_free es \<Longrightarrow> trim_by es (to_lower s) = to_lower (trim_by es s)"
proof (induction es s rule: trim_by.induct)
  case (1 es s)
  show ?case
  proof (cases "match_len es s = 0")
    case True
    with 1 show ?thesis by (simp add: trim_by_id match_len_lower)
  next
    case False
    then have "trim_by es (to_lower s) = trim_by es (drop (match_len es s) (to_lower s))"
      using 1 by (subst trim_by.simps) (simp add: match_len_lower)
    also have "\<dots> = to_lower (trim_by es (drop (match_len es s) s))"
      using 1 False by (simp add: to_lower_def drop_map)
    also have "\<dots> = to_lower (trim_by es s)"
      using False by (subst (2) trim_by.simps) simp
    finally show ?thesis .
  qed
qed

lemma case_free_space: "case_free space_runes" "case_free (map rev space_runes)"
  by (simp_all add: case_free_def space_runes_def space_codes_def is_upper_ascii_def
      is_lower_ascii_def byte_range_def)

lemma trim_space_to_lower: "trim_space (to_lower s) = to_lower (trim_space s)"
proof -
  have "rev (to_lower t) = to_lower (rev t)" for t
    by (simp add: to_lower_def rev_map)
  then show ?thesis
    by (simp add: trim_space_def trim_by_lower case_free_space)
qed

text \<open>A string that starts and ends with a printable character is already trimmed.\<close>

definition plain_char :: "char \<Rightarrow> bool" where
  "plain_char = byte_range 33 126"

definition head_free :: "string list \<Rightarrow> bool" where
  "head_free es \<longleftrightarrow> list_all (\<lambda>e. e \<noteq> [] \<longrightarrow> \<not> plain_char (hd e)) es"

lemma match_len_plain: "head_free es \<Longrightarrow> plain_char c \<Longrightarrow> match_len es (c # s) = 0"
proof (induction es)
  case (Cons e es)
  then show ?case by (cases e) (auto simp: head_free_def)
qed simp

lemma head_free_space: "head_free space_runes" "head_free (map rev space_runes)"
  by (simp_all add: head_free_def space_runes_def space_codes_def plain_char_def byte_range_def)

lemma trim_space_plain:
  assumes "s = [] \<or> plain_char (hd s) \<and> plain_char (last s)"
  shows "trim_space s = s"
proof (cases s)
  case (Cons c cs)
  with assms have h: "match_len space_runes s = 0"
    by (simp add: match_len_plain head_free_space)
  from assms Cons obtain d ds where "rev s = d # ds" "plain_char d"
    by (metis hd_rev list.collapse list.discI rev_is_Nil_conv)
  then have "match_len (map rev space_runes) (rev s) = 0"
    by (simp add: match_len_plain head_free_space)
  with h show ?thesis by (simp add: trim_space_def trim_by_id)
qed simp

text \<open>The pattern \<open>^[a-z0-9][a-z0-9._-]{0,63}$\<close> that source names and topic segments share.\<close>

definition slug_char :: "char \<Rightarrow> bool" where
  "slug_char c \<longleftrightarrow> is_lower_ascii c \<or> is_digit c \<or> c \<in> set ''._-''"

definition slug_match :: "string \<Rightarrow> bool" where
  "slug_match s =
     (case s of
        [] \<Rightarrow> False
      | c # cs \<Rightarrow>
          (is_lower_ascii c \<or> is_digit c) \<and> length cs \<le> 63 \<and> list_all slug_char cs)"

lemma slug_match_chars: "slug_match s \<Longrightarrow> c \<in> set s \<Longrightarrow> slug_char c"
  by (auto simp: slug_match_def slug_char_def list_all_iff split: list.splits)

lemma slug_match_nonempty: "slug_match s \<Longrightarrow> s \<noteq> []"
  by (auto simp: slug_match_def)

lemma slug_char_free: "\<not> slug_char (CHR '':'')" "\<not> slug_char (CHR ''/'')"
  by (simp_all add: slug_char_def is_lower_ascii_def is_digit_def byte_range_def)

lemma slug_match_free: "slug_match s \<Longrightarrow> CHR '':'' \<notin> set s" "slug_match s \<Longrightarrow> CHR ''/'' \<notin> set s"
  using slug_match_chars slug_char_free by blast+

lemma slug_match_length: "slug_match s \<Longrightarrow> length s \<le> 64"
  by (auto simp: slug_match_def split: list.splits)

lemma slug_match_ascii: "slug_match s \<Longrightarrow> c \<in> set s \<Longrightarrow> (of_char c :: nat) < 128"
  by (drule (1) slug_match_chars)
    (auto simp: slug_char_def is_lower_ascii_def is_digit_def byte_range_def)

lemma append_sep_eq:
  "x \<notin> set a \<Longrightarrow> x \<notin> set c \<Longrightarrow> a @ x # b = c @ x # d \<longleftrightarrow> a = c \<and> b = d"
proof (induction a arbitrary: c)
  case Nil
  then show ?case by (cases c) auto
next
  case (Cons y ys)
  then show ?case by (cases c) auto
qed

text \<open>\<open>strings.Split\<close> on a one-byte separator; the result is never empty.\<close>

fun split_on :: "char \<Rightarrow> string \<Rightarrow> string list" where
  "split_on d [] = [[]]"
| "split_on d (c # cs) =
     (case split_on d cs of
        [] \<Rightarrow> [[c]]
      | w # ws \<Rightarrow> if c = d then [] # w # ws else (c # w) # ws)"

lemma split_on_not_Nil [simp]: "split_on d s \<noteq> []"
  by (cases s) (auto split: list.splits)

text \<open>\<open>strings.Join\<close>.\<close>

fun join_with :: "string \<Rightarrow> string list \<Rightarrow> string" where
  "join_with sep [] = []"
| "join_with sep [w] = w"
| "join_with sep (w # v # ws) = w @ sep @ join_with sep (v # ws)"

lemma join_split: "join_with [d] (split_on d s) = s"
proof (induction s)
  case (Cons c cs)
  obtain w ws where "split_on d cs = w # ws"
    by (metis neq_Nil_conv split_on_not_Nil)
  with Cons show ?case by (cases ws) auto
qed simp

lemma split_on_append:
  "d \<notin> set s \<Longrightarrow> split_on d (s @ d # t) = s # split_on d t"
proof (induction s)
  case Nil
  obtain w ws where "split_on d t = w # ws"
    by (metis neq_Nil_conv split_on_not_Nil)
  then show ?case by simp
qed auto

lemma split_on_no_sep: "d \<notin> set s \<Longrightarrow> split_on d s = [s]"
  by (induction s) auto

lemma split_on_sep_free: "w \<in> set (split_on d s) \<Longrightarrow> d \<notin> set w"
proof (induction s arbitrary: w)
  case (Cons c cs)
  obtain v vs where "split_on d cs = v # vs"
    by (metis neq_Nil_conv split_on_not_Nil)
  with Cons show ?case by (auto split: if_splits)
qed simp

lemma split_join:
  "ws \<noteq> [] \<Longrightarrow> \<forall>w\<in>set ws. d \<notin> set w \<Longrightarrow> split_on d (join_with [d] ws) = ws"
  by (induction ws rule: induct_list012) (auto simp: split_on_no_sep split_on_append)

text \<open>\<open>strings.Fields\<close>: the maximal runs of bytes outside white-space runes.\<close>

fun emit_field :: "string \<Rightarrow> string list" where
  "emit_field [] = []"
| "emit_field w = [w]"

function fields_from :: "string \<Rightarrow> string \<Rightarrow> string list" where
  "fields_from w s =
     (case s of
        [] \<Rightarrow> emit_field w
      | c # cs \<Rightarrow>
          if match_len space_runes s = 0 then fields_from (w @ [c]) cs
          else emit_field w @ fields_from [] (drop (match_len space_runes s) s))"
  by pat_completeness auto
termination
proof (relation "measure (\<lambda>(w, s). length s)", goal_cases)
  case (3 w s c cs)
  with match_len_le [of space_runes s] show ?case by auto
qed auto

declare fields_from.simps [simp del]

definition fields :: "string \<Rightarrow> string list" where
  "fields s = fields_from [] s"

text \<open>\<open>strings.CutPrefix\<close>: the rest after the prefix, or \<open>None\<close>.\<close>

fun cut_prefix :: "string \<Rightarrow> string \<Rightarrow> string option" where
  "cut_prefix [] s = Some s"
| "cut_prefix (p # ps) [] = None"
| "cut_prefix (p # ps) (c # cs) = (if p = c then cut_prefix ps cs else None)"

lemma cut_prefix_Some_iff: "cut_prefix p s = Some r \<longleftrightarrow> s = p @ r"
  by (induction p s rule: cut_prefix.induct) auto

lemma cut_prefix_append [simp]: "cut_prefix p (p @ r) = Some r"
  by (simp add: cut_prefix_Some_iff)

text \<open>\<open>strings.Cut\<close> at the first separator byte.\<close>

fun cut_at :: "char \<Rightarrow> string \<Rightarrow> (string \<times> string) option" where
  "cut_at d [] = None"
| "cut_at d (c # cs) =
     (if c = d then Some ([], cs)
      else (case cut_at d cs of None \<Rightarrow> None | Some (a, b) \<Rightarrow> Some (c # a, b)))"

lemma cut_at_SomeD: "cut_at d s = Some (a, b) \<Longrightarrow> s = a @ d # b \<and> d \<notin> set a"
  by (induction s arbitrary: a) (auto split: if_splits option.splits)

lemma cut_at_append [simp]: "d \<notin> set a \<Longrightarrow> cut_at d (a @ d # b) = Some (a, b)"
  by (induction a) auto

lemma cut_at_Some: "cut_at d s = Some (a, b) \<longleftrightarrow> s = a @ d # b \<and> d \<notin> set a"
  by (auto dest: cut_at_SomeD)

section \<open>Times\<close>

text \<open>
  A \<open>time.Time\<close> is the number of nanoseconds since the Unix epoch; the zero value of Go is
  1 January of year 1. \<open>UnixMilli\<close> rounds towards minus infinity.
\<close>

type_synonym time = int

definition zero_time :: time where
  "zero_time = -62135596800000000000"

definition unix_milli :: "time \<Rightarrow> int" where
  "unix_milli t = t div 1000000"

definition of_unix_milli :: "int \<Rightarrow> time" where
  "of_unix_milli ms = ms * 1000000"

lemma unix_milli_of_unix_milli [simp]: "unix_milli (of_unix_milli ms) = ms"
  by (simp add: unix_milli_def of_unix_milli_def)

lemma unix_milli_mono: "s \<le> t \<Longrightarrow> unix_milli s \<le> unix_milli t"
  by (simp add: unix_milli_def zdiv_mono1)

section \<open>Tables\<close>

text \<open>
  A table with a primary key is an association list without duplicate keys. \<open>AList.update\<close>
  replaces a row in place or appends it, \<open>AList.delete\<close> removes it.
\<close>

definition table_ok :: "('k \<times> 'r) list \<Rightarrow> bool" where
  "table_ok t \<longleftrightarrow> distinct (map fst t)"

lemma table_ok_Nil [simp]: "table_ok []"
  by (simp add: table_ok_def)

lemma table_ok_update [simp]: "table_ok t \<Longrightarrow> table_ok (AList.update k v t)"
  by (simp add: table_ok_def distinct_update)

lemma table_ok_filter [simp]: "table_ok t \<Longrightarrow> table_ok (filter P t)"
  by (simp add: table_ok_def distinct_map_filter)

lemma table_lookup_iff: "table_ok t \<Longrightarrow> map_of t k = Some v \<longleftrightarrow> (k, v) \<in> set t"
  by (simp add: table_ok_def)

lemma map_of_update [simp]: "map_of (AList.update k v t) = (map_of t)(k \<mapsto> v)"
  by (simp add: update_conv')

lemma table_all_iff:
  "table_ok t \<Longrightarrow> (\<forall>(k, v)\<in>set t. P k v) \<longleftrightarrow> (\<forall>k v. map_of t k = Some v \<longrightarrow> P k v)"
  by (auto simp: table_lookup_iff)

lemma table_all_update:
  "table_ok t \<Longrightarrow> \<forall>(k, v)\<in>set t. P k v \<Longrightarrow> P k v \<Longrightarrow> \<forall>(k, v)\<in>set (AList.update k v t). P k v"
  using table_all_iff [of t P] table_all_iff [of "AList.update k v t" P] by auto

lemma map_of_filter_table:
  assumes "table_ok t"
  shows "map_of (filter P t) k =
    (case map_of t k of None \<Rightarrow> None | Some v \<Rightarrow> if P (k, v) then Some v else None)"
proof (cases "map_of t k")
  case None
  then have "k \<notin> fst ` set (filter P t)"
    by (auto simp: map_of_eq_None_iff)
  then have "map_of (filter P t) k = None"
    by (simp only: map_of_eq_None_iff not_False_eq_True)
  with None show ?thesis by simp
next
  case (Some v)
  with assms have kv: "(k, v) \<in> set t" by (simp add: table_lookup_iff)
  show ?thesis
  proof (cases "P (k, v)")
    case True
    with kv have "(k, v) \<in> set (filter P t)" by simp
    with assms have "map_of (filter P t) k = Some v"
      using table_lookup_iff [of "filter P t"] by simp
    with Some True show ?thesis by simp
  next
    case False
    have "k \<notin> fst ` set (filter P t)"
    proof
      assume "k \<in> fst ` set (filter P t)"
      then obtain w where "(k, w) \<in> set t" "P (k, w)" by auto
      with assms Some have "w = v" by (simp flip: table_lookup_iff)
      with \<open>P (k, w)\<close> False show False by simp
    qed
    then have "map_of (filter P t) k = None"
      by (simp only: map_of_eq_None_iff not_False_eq_True)
    with Some False show ?thesis by simp
  qed
qed

end
