(* ===== verification/Severity.thy ===== *)
theory Severity
  imports Prelude
begin

text \<open>
  The canonical severity scale (\<open>internal/severity/severity.go\<close>): the five values in their
  routing order, the rank table, and the lenient normalization of provider text.
\<close>

datatype severity = Unknown | Minor | Moderate | Severe | Extreme

fun sev_text :: "severity \<Rightarrow> string" where
  "sev_text Unknown = ''unknown''"
| "sev_text Minor = ''minor''"
| "sev_text Moderate = ''moderate''"
| "sev_text Severe = ''severe''"
| "sev_text Extreme = ''extreme''"

fun sev_rank :: "severity \<Rightarrow> nat" where
  "sev_rank Unknown = 0"
| "sev_rank Minor = 1"
| "sev_rank Moderate = 2"
| "sev_rank Severe = 3"
| "sev_rank Extreme = 4"

instantiation severity :: linorder
begin

definition less_eq_severity :: "severity \<Rightarrow> severity \<Rightarrow> bool" where
  "less_eq_severity a b \<longleftrightarrow> sev_rank a \<le> sev_rank b"

definition less_severity :: "severity \<Rightarrow> severity \<Rightarrow> bool" where
  "less_severity a b \<longleftrightarrow> sev_rank a < sev_rank b"

lemma sev_rank_inj: "sev_rank a = sev_rank b \<Longrightarrow> a = b"
  by (cases a; cases b) auto

instance
  by standard (auto simp: less_eq_severity_def less_severity_def intro: sev_rank_inj)

end

text \<open>The map \<open>rank\<close>, keyed by the canonical texts.\<close>

definition severity_of :: "string \<Rightarrow> severity option" where
  "severity_of s = map_of (map (\<lambda>v. (sev_text v, v)) [Unknown, Minor, Moderate, Severe, Extreme]) s"

definition severity_valid :: "string \<Rightarrow> bool" where
  "severity_valid s \<longleftrightarrow> severity_of s \<noteq> None"

text \<open>\<open>Rank\<close>: the rank and whether the value is canonical; invalid strings give 0, false.\<close>

definition severity_rank :: "string \<Rightarrow> nat \<times> bool" where
  "severity_rank s = (case severity_of s of None \<Rightarrow> (0, False) | Some v \<Rightarrow> (sev_rank v, True))"

definition severity_normalize :: "string \<Rightarrow> string \<times> bool" where
  "severity_normalize s = (let t = to_lower (trim_space s) in (t, severity_valid t))"

lemma severity_of_text [simp]: "severity_of (sev_text v) = Some v"
  by (cases v) (simp_all add: severity_of_def)

lemma severity_of_Some: "severity_of s = Some v \<longleftrightarrow> s = sev_text v"
proof
  assume "severity_of s = Some v"
  then show "s = sev_text v"
    by (auto simp: severity_of_def split: if_splits)
qed simp

lemma severity_valid_iff: "severity_valid s \<longleftrightarrow> (\<exists>v. s = sev_text v)"
  by (auto simp: severity_valid_def severity_of_Some)

lemma severity_rank_text [simp]: "severity_rank (sev_text v) = (sev_rank v, True)"
  by (simp add: severity_rank_def)

lemma severity_rank_bound: "fst (severity_rank s) \<le> 4"
proof (cases "severity_of s")
  case (Some v)
  then show ?thesis by (cases v) (simp_all add: severity_rank_def)
qed (simp add: severity_rank_def)

lemma sev_text_nonempty [simp]: "sev_text v \<noteq> []"
  by (cases v) simp_all

end
