(* ===== verification/Utf8.thy ===== *)
theory Utf8
  imports Prelude
begin

text \<open>
  The UTF-8 decoding of Go's \<open>unicode/utf8\<close>, as far as the program depends on it: the width of
  the rune at the front of a string, and the replacement of invalid bytes by U+FFFD that
  \<open>encoding/json\<close> performs when it marshals a string.
\<close>

definition codes :: "string \<Rightarrow> nat list" where
  "codes = map of_char"

text \<open>Length of the sequence a first byte announces; 0 for a byte that starts no rune.\<close>

definition seq_len :: "nat \<Rightarrow> nat" where
  "seq_len b =
     (if b < 0x80 then 1
      else if 0xC2 \<le> b \<and> b \<le> 0xDF then 2
      else if 0xE0 \<le> b \<and> b \<le> 0xEF then 3
      else if 0xF0 \<le> b \<and> b \<le> 0xF4 then 4
      else 0)"

text \<open>The accept range of the second byte.\<close>

definition second_ok :: "nat \<Rightarrow> nat \<Rightarrow> bool" where
  "second_ok b0 b1 \<longleftrightarrow>
     (if b0 = 0xE0 then 0xA0 \<le> b1 \<and> b1 \<le> 0xBF
      else if b0 = 0xED then 0x80 \<le> b1 \<and> b1 \<le> 0x9F
      else if b0 = 0xF0 then 0x90 \<le> b1 \<and> b1 \<le> 0xBF
      else if b0 = 0xF4 then 0x80 \<le> b1 \<and> b1 \<le> 0x8F
      else 0x80 \<le> b1 \<and> b1 \<le> 0xBF)"

definition cont_byte :: "nat \<Rightarrow> bool" where
  "cont_byte b \<longleftrightarrow> 0x80 \<le> b \<and> b \<le> 0xBF"

fun width_of :: "nat list \<Rightarrow> nat" where
  "width_of [] = 0"
| "width_of (b0 # bs) =
     (let n = seq_len b0 in
      if n \<le> 1 then n
      else (case bs of
        [] \<Rightarrow> 0
      | b1 # rest \<Rightarrow>
          if n - 1 \<le> length bs \<and> second_ok b0 b1 \<and> list_all cont_byte (take (n - 2) rest)
          then n else 0))"

definition rune_width :: "string \<Rightarrow> nat" where
  "rune_width s = width_of (codes s)"

lemma seq_len_le: "seq_len b \<le> 4"
  by (simp add: seq_len_def)

lemma width_of_le: "width_of bs \<le> length bs"
  by (cases bs) (auto simp: Let_def split: list.splits)

lemma rune_width_le: "rune_width s \<le> length s"
  using width_of_le [of "codes s"] by (simp add: rune_width_def codes_def)

lemma width_of_append:
  "width_of bs \<noteq> 0 \<Longrightarrow> width_of (take (width_of bs) bs @ cs) = width_of bs"
proof (cases bs)
  case (Cons b0 rest)
  moreover assume w: "width_of bs \<noteq> 0"
  ultimately show ?thesis
  proof (cases "seq_len b0 \<le> 1")
    case True
    with w Cons have "seq_len b0 = 1" by (simp add: Let_def)
    with Cons show ?thesis by simp
  next
    case False
    with w Cons obtain b1 tl where r: "rest = b1 # tl" and s: "second_ok b0 b1"
      and a: "list_all cont_byte (take (seq_len b0 - 2) tl)" and l: "seq_len b0 - 1 \<le> length rest"
      by (auto simp: Let_def split: list.splits if_splits)
    obtain m where m: "seq_len b0 = Suc (Suc m)" using False
      by (metis Suc_leI less_eq_Suc_le not_less_eq_eq One_nat_def old.nat.exhaust le0)
    with r s a l Cons show ?thesis by (simp add: Let_def)
  qed
qed simp

lemma rune_width_append:
  "rune_width s \<noteq> 0 \<Longrightarrow> rune_width (take (rune_width s) s @ t) = rune_width s"
  using width_of_append [of "codes s" "codes t"]
  by (simp add: rune_width_def codes_def take_map)

text \<open>\<open>utf8.ValidString\<close>.\<close>

function valid_utf8 :: "string \<Rightarrow> bool" where
  "valid_utf8 s =
     (if s = [] then True
      else if rune_width s = 0 then False
      else valid_utf8 (drop (rune_width s) s))"
  by pat_completeness auto
termination
proof (relation "measure length", goal_cases)
  case (2 s)
  with rune_width_le [of s] show ?case by auto
qed simp

declare valid_utf8.simps [simp del]

definition replacement_rune :: string where
  "replacement_rune = map char_of [0xEF, 0xBF, 0xBD :: nat]"

text \<open>What a string reads as after a trip through JSON: every invalid byte is U+FFFD.\<close>

function json_coerce :: "string \<Rightarrow> string" where
  "json_coerce s =
     (case s of
        [] \<Rightarrow> []
      | c # cs \<Rightarrow>
          if rune_width s = 0 then replacement_rune @ json_coerce cs
          else take (rune_width s) s @ json_coerce (drop (rune_width s) s))"
  by pat_completeness auto
termination
proof (relation "measure length", goal_cases)
  case (3 s c cs)
  with rune_width_le [of s] show ?case by auto
qed auto

declare json_coerce.simps [simp del]

lemma json_coerce_valid: "valid_utf8 s \<Longrightarrow> json_coerce s = s"
proof (induction s rule: valid_utf8.induct)
  case (1 s)
  show ?case
  proof (cases s)
    case Nil
    then show ?thesis by (subst json_coerce.simps) simp
  next
    case (Cons c cs)
    from "1.prems" have "s = [] \<or> rune_width s \<noteq> 0 \<and> valid_utf8 (drop (rune_width s) s)"
      by (subst (asm) valid_utf8.simps) (simp split: if_splits)
    with Cons have w: "rune_width s \<noteq> 0" and v: "valid_utf8 (drop (rune_width s) s)"
      by auto
    with "1.IH" Cons have "json_coerce (drop (rune_width s) s) = drop (rune_width s) s"
      by blast
    then have "take (rune_width s) s @ json_coerce (drop (rune_width s) s) = s"
      by simp
    with Cons w show ?thesis by (subst json_coerce.simps) (simp only: list.case if_False)
  qed
qed

lemma valid_utf8_rune: "rune_width s \<noteq> 0 \<Longrightarrow> valid_utf8 t \<Longrightarrow> valid_utf8 (take (rune_width s) s @ t)"
  by (subst valid_utf8.simps) (use rune_width_le [of s] in \<open>simp add: rune_width_append\<close>)

lemma rune_width_replacement: "rune_width (replacement_rune @ s) = 3"
  by (simp add: rune_width_def codes_def replacement_rune_def Let_def seq_len_def second_ok_def
      cont_byte_def)

lemma valid_json_coerce: "valid_utf8 (json_coerce s)"
proof (induction s rule: json_coerce.induct)
  case (1 s)
  show ?case
  proof (cases s)
    case Nil
    then show ?thesis by (subst json_coerce.simps) (simp add: valid_utf8.simps)
  next
    case (Cons c cs)
    show ?thesis
    proof (cases "rune_width s = 0")
      case True
      have "valid_utf8 (replacement_rune @ json_coerce cs)"
        using 1(1) [OF Cons True]
        by (subst valid_utf8.simps)
          (simp add: rune_width_replacement, simp add: replacement_rune_def)
      with True Cons show ?thesis by (subst json_coerce.simps) simp
    next
      case False
      with 1(2) [OF Cons False] have "valid_utf8 (take (rune_width s) s @ json_coerce (drop (rune_width s) s))"
        by (rule_tac valid_utf8_rune)
      with False Cons show ?thesis by (subst json_coerce.simps) (simp only: list.case if_False)
    qed
  qed
qed

lemma json_coerce_idem [simp]: "json_coerce (json_coerce s) = json_coerce s"
  by (simp add: json_coerce_valid valid_json_coerce)

lemma json_coerce_eq_iff: "json_coerce s = s \<longleftrightarrow> valid_utf8 s"
  by (metis json_coerce_valid valid_json_coerce)

lemma valid_utf8_ascii: "\<forall>c\<in>set s. (of_char c :: nat) < 128 \<Longrightarrow> valid_utf8 s"
proof (induction s)
  case Nil
  show ?case by (simp add: valid_utf8.simps)
next
  case (Cons c cs)
  then have "rune_width (c # cs) = 1"
    by (simp add: rune_width_def codes_def seq_len_def)
  with Cons show ?case by (subst valid_utf8.simps) simp
qed

lemma valid_utf8_append [simp]: "valid_utf8 s \<Longrightarrow> valid_utf8 t \<Longrightarrow> valid_utf8 (s @ t)"
proof (induction s rule: valid_utf8.induct)
  case (1 s)
  show ?case
  proof (cases "s = []")
    case False
    with "1.prems"(1) have "rune_width s \<noteq> 0" "valid_utf8 (drop (rune_width s) s)"
      by (subst (asm) valid_utf8.simps; simp split: if_splits)+
    with "1.IH" [OF False] "1.prems"(2) have "valid_utf8 (take (rune_width s) s @ drop (rune_width s) s @ t)"
      by (intro valid_utf8_rune) auto
    then show ?thesis by (simp only: append_take_drop_id flip: append_assoc)
  qed (use "1.prems" in simp)
qed

section \<open>Trimming and folding keep UTF-8\<close>

lemma width_of_cont:
  assumes "0 < i" "i < width_of bs"
  shows "cont_byte (bs ! i)"
proof (cases bs)
  case (Cons b0 rest)
  with assms have w: "width_of bs = seq_len b0" "1 < seq_len b0"
    by (auto simp: Let_def split: if_splits list.splits)
  with assms Cons obtain b1 tl where r: "rest = b1 # tl" and s: "second_ok b0 b1"
    and a: "list_all cont_byte (take (seq_len b0 - 2) tl)" and l: "seq_len b0 - 1 \<le> length rest"
    by (auto simp: Let_def split: list.splits if_splits)
  show ?thesis
  proof (cases i)
    case (Suc j)
    show ?thesis
    proof (cases j)
      case 0
      with Suc Cons r s show ?thesis by (auto simp: second_ok_def cont_byte_def split: if_splits)
    next
      case (Suc k)
      with \<open>i = Suc j\<close> assms(2) w have "k < seq_len b0 - 2" by simp
      with a l r have "cont_byte (tl ! k)"
        by (simp add: list_all_length)
      with Suc \<open>i = Suc j\<close> Cons r show ?thesis by simp
    qed
  qed (use assms in simp)
qed (use assms in simp)

text \<open>The front of a valid string is valid when the rest begins with the first byte of a rune.\<close>

lemma valid_utf8_prefix:
  assumes "valid_utf8 (u @ e)" "e = [] \<or> \<not> cont_byte (of_char (hd e))"
  shows "valid_utf8 u"
  using assms
proof (induction "length u" arbitrary: u rule: less_induct)
  case less
  show ?case
  proof (cases "u = []")
    case True
    then show ?thesis by (simp add: valid_utf8.simps)
  next
    case False
    let ?w = "rune_width (u @ e)"
    from less.prems(1) False have w: "?w \<noteq> 0" and v: "valid_utf8 (drop ?w (u @ e))"
      by (subst (asm) valid_utf8.simps; simp split: if_splits)+
    have le: "?w \<le> length u"
    proof (rule ccontr)
      assume "\<not> ?w \<le> length u"
      then have l: "length u < ?w" by simp
      with rune_width_le [of "u @ e"] have "e \<noteq> []" by auto
      have "cont_byte (codes (u @ e) ! length u)"
        using l False by (intro width_of_cont) (simp_all add: rune_width_def)
      with \<open>e \<noteq> []\<close> less.prems(2) show False
        by (simp add: codes_def nth_append hd_conv_nth)
    qed
    then have "take ?w (u @ e) @ drop ?w u = u" by simp
    then have same: "rune_width u = ?w"
      using rune_width_append [OF w, of "drop ?w u"] by (simp only:)
    have "valid_utf8 (drop ?w u @ e)" using v le by simp
    then have "valid_utf8 (drop ?w u)"
      using less.hyps [of "drop ?w u"] less.prems(2) w False by simp
    then show ?thesis using False w same by (subst valid_utf8.simps) simp
  qed
qed

lemma valid_utf8_drop:
  "valid_utf8 (e @ s) \<Longrightarrow> rune_width e = length e \<Longrightarrow> e \<noteq> [] \<Longrightarrow> valid_utf8 s"
  by (subst (asm) valid_utf8.simps) (use rune_width_append [of e s] in \<open>simp split: if_splits\<close>)

lemma match_len_member:
  "match_len es s \<noteq> 0 \<Longrightarrow> \<exists>e\<in>set es. e \<noteq> [] \<and> s = e @ drop (match_len es s) s"
  by (induction es) (auto split: if_splits, metis append_take_drop_id)

lemma space_rune_shape:
  assumes "e \<in> set space_runes"
  shows "rune_width e = length e \<and> e \<noteq> [] \<and> \<not> cont_byte (of_char (hd e))"
  using assms
  by (auto simp: space_runes_def space_codes_def rune_width_def codes_def Let_def seq_len_def
      second_ok_def cont_byte_def)

lemma valid_utf8_trim_left: "valid_utf8 s \<Longrightarrow> valid_utf8 (trim_by space_runes s)"
proof (induction space_runes s rule: trim_by.induct)
  case (1 s)
  show ?case
  proof (cases "match_len space_runes s = 0")
    case True
    with 1 show ?thesis by (simp add: trim_by_id)
  next
    case False
    then obtain e where "e \<in> set space_runes" "s = e @ drop (match_len space_runes s) s"
      using match_len_member by blast
    then have "valid_utf8 (drop (match_len space_runes s) s)"
      using 1(2) valid_utf8_drop [of e] space_rune_shape by metis
    with 1(1) [OF False] False show ?thesis by (subst trim_by.simps) simp
  qed
qed

lemma valid_utf8_trim_right:
  "valid_utf8 (rev s) \<Longrightarrow> valid_utf8 (rev (trim_by (map rev space_runes) s))"
proof (induction "map rev space_runes" s rule: trim_by.induct)
  case (1 s)
  let ?n = "match_len (map rev space_runes) s"
  show ?case
  proof (cases "?n = 0")
    case True
    with 1 show ?thesis by (simp add: trim_by_id)
  next
    case False
    then obtain e where "e \<in> set space_runes" "s = rev e @ drop ?n s"
      using match_len_member [of "map rev space_runes" s] by auto
    then have "rev s = rev (drop ?n s) @ e" by (metis rev_append rev_rev_ident)
    then have "valid_utf8 (rev (drop ?n s))"
      using 1(2) valid_utf8_prefix [of _ e] space_rune_shape [OF \<open>e \<in> set space_runes\<close>] by metis
    with 1(1) [OF False] False show ?thesis by (subst trim_by.simps) simp
  qed
qed

lemma valid_utf8_trim_space [simp]: "valid_utf8 s \<Longrightarrow> valid_utf8 (trim_space s)"
  unfolding trim_space_def by (intro valid_utf8_trim_right) (simp add: valid_utf8_trim_left)

lemma code_lower_char:
  "(of_char (lower_char c) :: nat) =
     (if 65 \<le> (of_char c :: nat) \<and> (of_char c :: nat) \<le> 90 then of_char c + 32 else of_char c)"
  by (simp add: lower_char_def is_upper_ascii_def byte_range_def of_char_mod_256 take_bit_eq_mod)

definition low_code :: "nat \<Rightarrow> nat" where
  "low_code b = (if 65 \<le> b \<and> b \<le> 90 then b + 32 else b)"

lemma codes_to_lower: "codes (to_lower s) = map low_code (codes s)"
  by (simp add: codes_def to_lower_def low_code_def code_lower_char)

lemma low_code_bytes [simp]:
  "seq_len (low_code b) = seq_len b" "cont_byte (low_code b) = cont_byte b"
  by (auto simp: low_code_def seq_len_def cont_byte_def)

lemma second_ok_low [simp]:
  "seq_len b0 > 1 \<Longrightarrow> second_ok (low_code b0) (low_code b1) = second_ok b0 b1"
  by (auto simp: low_code_def seq_len_def second_ok_def split: if_splits)

lemma width_of_low: "width_of (map low_code bs) = width_of bs"
proof (cases bs)
  case (Cons b0 rest)
  show ?thesis
  proof (cases rest)
    case (Cons b1 tl)
    then show ?thesis using \<open>bs = b0 # rest\<close>
      by (simp add: Let_def take_map list_all_length)
  qed (use Cons in \<open>simp add: Let_def\<close>)
qed simp

lemma rune_width_lower [simp]: "rune_width (to_lower s) = rune_width s"
  by (simp add: rune_width_def codes_to_lower width_of_low)

lemma valid_utf8_to_lower [simp]: "valid_utf8 (to_lower s) = valid_utf8 s"
proof (induction s rule: valid_utf8.induct)
  case (1 s)
  have "drop (rune_width s) (to_lower s) = to_lower (drop (rune_width s) s)"
    by (simp add: to_lower_def drop_map)
  moreover have "to_lower s = [] \<longleftrightarrow> s = []" by (simp add: to_lower_def)
  ultimately show ?case
    using 1 by (subst (1 2) valid_utf8.simps) simp
qed

end
