(* ===== verification/Hazard_Event.thy ===== *)
theory Hazard_Event
  imports Severity Utf8
begin

text \<open>
  The normalized hazard event (\<open>internal/core/event.go\<close>), its change types and the frozen
  journal validator (\<open>change.go\<close>) and the content fingerprint (\<open>fingerprint.go\<close>).
\<close>

section \<open>Data\<close>

text \<open>An IEEE double: the finite ones are rationals.\<close>

datatype float64 = NaN | PosInf | NegInf | Fin rat

datatype event_status =
  StatusEmpty | StatusActive | StatusCancelled | StatusExpired | StatusOther string

record hazard_event =
  he_source :: string
  he_source_id :: string
  he_category :: string
  he_event :: string
  he_severity :: string
  he_provider_severity :: string
  he_urgency :: string
  he_certainty :: string
  he_headline :: string
  he_description :: string
  he_instruction :: string
  he_effective_at :: "time option"
  he_expires_at :: "time option"
  he_latitude :: "float64 option"
  he_longitude :: "float64 option"
  he_areas :: "string list"
  he_status :: event_status
  he_source_url :: string
  he_received_at :: time
  he_updated_at :: time

definition event_key :: "string \<Rightarrow> string \<Rightarrow> string" where
  "event_key source source_id = source @ '':'' @ source_id"

definition he_key :: "hazard_event \<Rightarrow> string" where
  "he_key e = event_key (he_source e) (he_source_id e)"

section \<open>Normalization\<close>

definition maxAreas :: nat where
  "maxAreas = 512"

text \<open>The loop of \<open>normalizeAreas\<close>: \<open>seen\<close> holds the labels kept so far.\<close>

fun dedupe_areas :: "string set \<Rightarrow> string list \<Rightarrow> string list" where
  "dedupe_areas seen [] = []"
| "dedupe_areas seen (a # as) =
     (let t = trim_space a in
      if t = [] \<or> t \<in> seen then dedupe_areas seen as
      else t # dedupe_areas (insert t seen) as)"

definition normalizeAreas :: "string list \<Rightarrow> string list" where
  "normalizeAreas as =
     (if as = [] then []
      else if length as > maxAreas then as
      else dedupe_areas {} as)"

definition drop_zero_time :: "time option \<Rightarrow> time option" where
  "drop_zero_time t = (if t = Some zero_time then None else t)"

definition normalize :: "hazard_event \<Rightarrow> hazard_event" where
  "normalize e = e
     \<lparr> he_source := to_lower (trim_space (he_source e)),
       he_source_id := trim_space (he_source_id e),
       he_severity := to_lower (trim_space (he_severity e)),
       he_status := (if he_status e = StatusEmpty then StatusActive else he_status e),
       he_effective_at := drop_zero_time (he_effective_at e),
       he_expires_at := drop_zero_time (he_expires_at e),
       he_areas := normalizeAreas (he_areas e) \<rparr>"

lemma dedupe_areas_set:
  "set (dedupe_areas seen as) = {t \<in> trim_space ` set as. t \<noteq> [] \<and> t \<notin> seen}"
  by (induction seen as rule: dedupe_areas.induct) (auto simp: Let_def)

lemma dedupe_areas_distinct: "distinct (dedupe_areas seen as)"
  by (induction seen as rule: dedupe_areas.induct) (auto simp: Let_def dedupe_areas_set)

lemma length_dedupe_areas: "length (dedupe_areas seen as) \<le> length as"
  by (induction seen as rule: dedupe_areas.induct) (auto simp: Let_def)

lemma dedupe_areas_id:
  "distinct as \<Longrightarrow> \<forall>a\<in>set as. trim_space a = a \<and> a \<noteq> [] \<Longrightarrow> set as \<inter> seen = {}
    \<Longrightarrow> dedupe_areas seen as = as"
  by (induction as arbitrary: seen) (auto simp: Let_def)

lemma dedupe_areas_idem: "dedupe_areas {} (dedupe_areas seen as) = dedupe_areas seen as"
  by (rule dedupe_areas_id) (auto simp: dedupe_areas_distinct dedupe_areas_set)

lemma normalizeAreas_idem [simp]: "normalizeAreas (normalizeAreas as) = normalizeAreas as"
proof (cases "as = [] \<or> length as > maxAreas")
  case False
  then have "length (dedupe_areas {} as) \<le> maxAreas"
    using length_dedupe_areas [of "{}" as] by linarith
  with False show ?thesis
    by (auto simp: normalizeAreas_def dedupe_areas_idem)
qed (auto simp: normalizeAreas_def)

lemma drop_zero_time_idem [simp]: "drop_zero_time (drop_zero_time t) = drop_zero_time t"
  by (simp add: drop_zero_time_def)

section \<open>Validation\<close>

datatype event_error =
    SourceRequired | SourcePattern string
  | SourceIdRequired | SourceIdTooLong
  | EventTypeRequired
  | FieldTooLong string nat nat
  | SeverityNotCanonical string
  | TooManyAreas nat
  | AreaTooLong nat nat
  | InvalidStatus event_status
  | LatLonMismatch
  | LatitudeNotFinite | LatitudeOutOfRange
  | LongitudeNotFinite | LongitudeOutOfRange

text \<open>A Go \<open>error\<close>: \<open>None\<close> is \<open>nil\<close>.\<close>

definition maxSourceIDLength :: nat where
  "maxSourceIDLength = 512"

definition ValidateSource :: "string \<Rightarrow> event_error option" where
  "ValidateSource source =
     (if trim_space source = [] then Some SourceRequired
      else if \<not> slug_match source then Some (SourcePattern source)
      else None)"

definition ValidateSourceID :: "string \<Rightarrow> event_error option" where
  "ValidateSourceID source_id =
     (if trim_space source_id = [] then Some SourceIdRequired
      else if length source_id > maxSourceIDLength then Some SourceIdTooLong
      else None)"

definition field_limits :: "hazard_event \<Rightarrow> (string \<times> string \<times> nat) list" where
  "field_limits e =
     [(''category'', he_category e, 256),
      (''event type'', he_event e, 256),
      (''severity'', he_severity e, 256),
      (''provider severity'', he_provider_severity e, 256),
      (''urgency'', he_urgency e, 256),
      (''certainty'', he_certainty e, 256),
      (''headline'', he_headline e, 2048),
      (''description'', he_description e, 32768),
      (''instruction'', he_instruction e, 8192),
      (''source url'', he_source_url e, 2048)]"

fun check_fields :: "(string \<times> string \<times> nat) list \<Rightarrow> event_error option" where
  "check_fields [] = None"
| "check_fields ((n, v, mx) # fs) =
     (if length v > mx then Some (FieldTooLong n (length v) mx) else check_fields fs)"

definition maxAreaLen :: nat where
  "maxAreaLen = 2048"

fun check_areas :: "nat \<Rightarrow> string list \<Rightarrow> event_error option" where
  "check_areas i [] = None"
| "check_areas i (a # as) =
     (if length a > maxAreaLen then Some (AreaTooLong i (length a)) else check_areas (Suc i) as)"

fun float_finite :: "float64 \<Rightarrow> bool" where
  "float_finite (Fin q) = True"
| "float_finite _ = False"

fun float_within :: "rat \<Rightarrow> float64 \<Rightarrow> bool" where
  "float_within m (Fin q) = (- m \<le> q \<and> q \<le> m)"
| "float_within m _ = False"

definition check_coord ::
    "rat \<Rightarrow> event_error \<Rightarrow> event_error \<Rightarrow> float64 option \<Rightarrow> event_error option" where
  "check_coord m not_finite out_of_range c =
     (case c of
        None \<Rightarrow> None
      | Some x \<Rightarrow>
          if \<not> float_finite x then Some not_finite
          else if \<not> float_within m x then Some out_of_range
          else None)"

text \<open>The first error of a chain of checks.\<close>

fun first_error :: "event_error option list \<Rightarrow> event_error option" where
  "first_error [] = None"
| "first_error (Some e # cs) = Some e"
| "first_error (None # cs) = first_error cs"

definition validate :: "hazard_event \<Rightarrow> event_error option" where
  "validate e = first_error
     [ValidateSource (he_source e),
      ValidateSourceID (he_source_id e),
      if trim_space (he_event e) = [] then Some EventTypeRequired else None,
      check_fields (field_limits e),
      if \<not> severity_valid (he_severity e) then Some (SeverityNotCanonical (he_severity e)) else None,
      if length (he_areas e) > maxAreas then Some (TooManyAreas (length (he_areas e))) else None,
      check_areas 0 (he_areas e),
      (case he_status e of
         StatusEmpty \<Rightarrow> None | StatusActive \<Rightarrow> None | StatusCancelled \<Rightarrow> None
       | st \<Rightarrow> Some (InvalidStatus st)),
      if (he_latitude e = None) \<noteq> (he_longitude e = None) then Some LatLonMismatch else None,
      check_coord 90 LatitudeNotFinite LatitudeOutOfRange (he_latitude e),
      check_coord 180 LongitudeNotFinite LongitudeOutOfRange (he_longitude e)]"

lemma first_error_None: "first_error cs = None \<longleftrightarrow> (\<forall>c\<in>set cs. c = None)"
  by (induction cs rule: first_error.induct) auto

lemma check_fields_None: "check_fields fs = None \<longleftrightarrow> (\<forall>(n, v, mx)\<in>set fs. length v \<le> mx)"
  by (induction fs rule: check_fields.induct) auto

lemma check_areas_None: "check_areas i as = None \<longleftrightarrow> (\<forall>a\<in>set as. length a \<le> maxAreaLen)"
  by (induction i as rule: check_areas.induct) auto

lemma check_coord_None:
  "check_coord m a b c = None \<longleftrightarrow> (\<forall>x. c = Some x \<longrightarrow> float_within m x)"
  by (cases c; cases "the c") (auto simp: check_coord_def)

text \<open>What acceptance gives the components downstream.\<close>

lemma validate_NoneD:
  assumes "validate e = None"
  shows "slug_match (he_source e)"
    and "he_source_id e \<noteq> []"
    and "length (he_source_id e) \<le> maxSourceIDLength"
    and "he_event e \<noteq> []"
    and "severity_valid (he_severity e)"
    and "length (he_areas e) \<le> maxAreas"
    and "he_status e \<in> {StatusEmpty, StatusActive, StatusCancelled}"
    and "(he_latitude e = None) = (he_longitude e = None)"
    and "\<And>x. he_latitude e = Some x \<Longrightarrow> float_within 90 x"
    and "\<And>x. he_longitude e = Some x \<Longrightarrow> float_within 180 x"
  using assms
  by (auto simp: validate_def first_error_None ValidateSource_def ValidateSourceID_def
      check_coord_None split: if_splits event_status.splits)

section \<open>Changes and the journal validator\<close>

datatype change_type = ChangeNew | ChangeUpdated | ChangeCancelled | ChangeExpired

fun change_text :: "change_type \<Rightarrow> string" where
  "change_text ChangeNew = ''new''"
| "change_text ChangeUpdated = ''updated''"
| "change_text ChangeCancelled = ''cancelled''"
| "change_text ChangeExpired = ''expired''"

definition ChangeTypeOf :: "string \<Rightarrow> change_type option" where
  "ChangeTypeOf s =
     (if s = ''new'' then Some ChangeNew
      else if s = ''updated'' then Some ChangeUpdated
      else if s = ''cancelled'' then Some ChangeCancelled
      else if s = ''expired'' then Some ChangeExpired
      else None)"

lemma ChangeTypeOf_text [simp]: "ChangeTypeOf (change_text ct) = Some ct"
  by (cases ct) (simp_all add: ChangeTypeOf_def)

datatype journal_error =
    EmptySource | EmptySourceId | EmptyEvent | BadStatus event_status | CoordsMismatch
  | LatOutOfRange | LonOutOfRange | CancelledCarries event_status | ExpiredCarries event_status

definition ValidateJournalChange :: "change_type \<Rightarrow> hazard_event \<Rightarrow> journal_error option" where
  "ValidateJournalChange ct e =
     (if he_source e = [] then Some EmptySource
      else if he_source_id e = [] then Some EmptySourceId
      else if he_event e = [] then Some EmptyEvent
      else if he_status e \<notin> {StatusActive, StatusCancelled, StatusExpired}
        then Some (BadStatus (he_status e))
      else if (he_latitude e \<noteq> None) \<noteq> (he_longitude e \<noteq> None) then Some CoordsMismatch
      else if he_latitude e \<noteq> None \<and> \<not> float_within 90 (the (he_latitude e))
        then Some LatOutOfRange
      else if he_latitude e \<noteq> None \<and> \<not> float_within 180 (the (he_longitude e))
        then Some LonOutOfRange
      else (case ct of
          ChangeCancelled \<Rightarrow>
            if he_status e \<noteq> StatusCancelled then Some (CancelledCarries (he_status e)) else None
        | ChangeExpired \<Rightarrow>
            if he_status e \<noteq> StatusExpired then Some (ExpiredCarries (he_status e)) else None
        | _ \<Rightarrow> None))"

text \<open>The status a change of each type carries in the journal.\<close>

definition status_fits :: "change_type \<Rightarrow> event_status \<Rightarrow> bool" where
  "status_fits ct st \<longleftrightarrow>
     st \<in> {StatusActive, StatusCancelled, StatusExpired} \<and>
     (ct = ChangeCancelled \<longrightarrow> st = StatusCancelled) \<and> (ct = ChangeExpired \<longrightarrow> st = StatusExpired)"

text \<open>The part of the journal validator that no lifecycle transition touches.\<close>

definition journal_body_ok :: "hazard_event \<Rightarrow> bool" where
  "journal_body_ok e \<longleftrightarrow>
     he_source e \<noteq> [] \<and> he_source_id e \<noteq> [] \<and> he_event e \<noteq> [] \<and>
     (he_latitude e = None) = (he_longitude e = None) \<and>
     (\<forall>x. he_latitude e = Some x \<longrightarrow> float_within 90 x) \<and>
     (\<forall>x. he_longitude e = Some x \<longrightarrow> float_within 180 x)"

lemma ValidateJournalChange_None_iff:
  "ValidateJournalChange ct e = None \<longleftrightarrow> journal_body_ok e \<and> status_fits ct (he_status e)"
  by (cases ct; cases "he_latitude e"; cases "he_longitude e")
    (auto simp: ValidateJournalChange_def journal_body_ok_def status_fits_def)

lemma validate_journal_body: "validate e = None \<Longrightarrow> journal_body_ok e"
  using validate_NoneD [of e] slug_match_nonempty [of "he_source e"]
  by (auto simp: journal_body_ok_def)

section \<open>Fingerprint\<close>

text \<open>The canonical content record that \<open>Fingerprint\<close> marshals and hashes.\<close>

record fingerprint_payload =
  fp_category :: string
  fp_event :: string
  fp_severity :: string
  fp_urgency :: string
  fp_certainty :: string
  fp_headline :: string
  fp_description :: string
  fp_instruction :: string
  fp_effective_at :: "time option"
  fp_expires_at :: "time option"
  fp_latitude :: "float64 option"
  fp_longitude :: "float64 option"
  fp_areas :: "string list"
  fp_source_url :: string

definition payload_of :: "hazard_event \<Rightarrow> fingerprint_payload" where
  "payload_of e =
     \<lparr> fp_category = he_category e, fp_event = he_event e, fp_severity = he_severity e,
       fp_urgency = he_urgency e, fp_certainty = he_certainty e, fp_headline = he_headline e,
       fp_description = he_description e, fp_instruction = he_instruction e,
       fp_effective_at = drop_zero_time (he_effective_at e),
       fp_expires_at = drop_zero_time (he_expires_at e),
       fp_latitude = he_latitude e, fp_longitude = he_longitude e,
       fp_areas = sort (he_areas e), fp_source_url = he_source_url e \<rparr>"

text \<open>\<open>digest\<close> is the hex SHA-256 of the JSON text of the payload.\<close>

definition Fingerprint :: "(fingerprint_payload \<Rightarrow> string) \<Rightarrow> hazard_event \<Rightarrow> string" where
  "Fingerprint digest e = digest (payload_of e)"

section \<open>Properties\<close>

lemma event_key_eq_iff:
  assumes "CHR '':'' \<notin> set s" "CHR '':'' \<notin> set s'"
  shows "event_key s i = event_key s' i' \<longleftrightarrow> s = s' \<and> i = i'"
proof
  assume "event_key s i = event_key s' i'"
  then have "cut_at (CHR '':'') (s @ CHR '':'' # i) = cut_at (CHR '':'') (s' @ CHR '':'' # i')"
    by (simp add: event_key_def)
  with assms show "s = s' \<and> i = i'" by simp
qed simp

text \<open>
  two events that pass validation have the same key only when both their source and their
  source ID agree, so the primary key of the events table never merges two provider events.
\<close>

theorem key_identifies_event:
  assumes "validate e = None" "validate f = None" "he_key e = he_key f"
  shows "he_source e = he_source f \<and> he_source_id e = he_source_id f"
  using assms validate_NoneD(1) slug_match_free(1) event_key_eq_iff
  unfolding he_key_def by meson

definition sample_event :: hazard_event where
  "sample_event =
     \<lparr> he_source = ''imgw'', he_source_id = ''w:1'', he_category = ''met'', he_event = ''storm'',
       he_severity = ''severe'', he_provider_severity = ''2'', he_urgency = [], he_certainty = [],
       he_headline = ''Storm'', he_description = [], he_instruction = [],
       he_effective_at = None, he_expires_at = Some 5000000, he_latitude = None,
       he_longitude = None, he_areas = [''A''], he_status = StatusActive, he_source_url = [],
       he_received_at = 0, he_updated_at = 0 \<rparr>"

lemma sample_event_valid: "validate sample_event = None"
  by (simp add: validate_def sample_event_def ValidateSource_def ValidateSourceID_def
      trim_space_plain plain_char_def byte_range_def slug_match_def slug_char_def is_lower_ascii_def
      is_digit_def maxSourceIDLength_def field_limits_def severity_valid_def severity_of_def
      maxAreas_def maxAreaLen_def check_coord_def)

theorem key_identifies_event_witness:
  "he_source sample_event = ''imgw'' \<and> he_source_id sample_event = ''w:1''"
  using key_identifies_event [OF sample_event_valid sample_event_valid refl]
  by (simp add: sample_event_def)

text \<open>
  normalization is idempotent: a second pass over a normalized event changes nothing
  (so re-ingesting what the store returned cannot alter its identity or content).
\<close>

theorem normalize_idempotent: "normalize (normalize e) = normalize e"
  by (simp add: normalize_def trim_space_to_lower)

text \<open>
  the fingerprint ignores ingestion metadata, lifecycle status, the provider severity and
  the order of the areas: two events that agree on the content fields get the same fingerprint.
\<close>

theorem fingerprint_ignores_metadata:
  assumes "mset areas = mset (he_areas e)"
  shows "Fingerprint digest
      (e\<lparr>he_received_at := r, he_updated_at := u, he_status := st,
         he_provider_severity := ps, he_areas := areas\<rparr>) = Fingerprint digest e"
proof -
  have "sort areas = sort (he_areas e)"
    using assms by (metis properties_for_sort sorted_sort mset_sort)
  then show ?thesis by (simp add: Fingerprint_def payload_of_def)
qed

theorem fingerprint_ignores_metadata_witness:
  "Fingerprint fp_headline
     (sample_event\<lparr>he_received_at := 7, he_updated_at := 8, he_status := StatusExpired,
        he_provider_severity := ''3'', he_areas := [''A'']\<rparr>) = ''Storm''"
proof -
  have "mset [''A''] = mset (he_areas sample_event)"
    by (simp add: sample_event_def)
  from fingerprint_ignores_metadata [OF this, where digest = fp_headline and r = 7 and u = 8
      and st = StatusExpired and ps = "''3''"]
  show ?thesis by (simp add: Fingerprint_def payload_of_def sample_event_def)
qed

end
