(* ===== verification/Event_Store.thy ===== *)
theory Event_Store
  imports Hazard_Event
begin

text \<open>
  The SQLite event store (\<open>internal/storage/sqlite/sqlite.go\<close>, \<open>internal/storage/snapshot.go\<close>):
  the current-state table \<open>events\<close>, the change journal \<open>changes\<close> and the delivery cursors
  \<open>output_cursors\<close>, with one definition per operation of the store. Every operation is one
  transaction on a single connection, so it maps a state to a state or fails and leaves it.
\<close>

section \<open>State\<close>

text \<open>
  A row of \<open>events\<close>. The human-readable time columns hold the time they print; the expiry is
  compared and read back through its millisecond column.
\<close>

record event_row =
  er_event :: hazard_event
  er_fingerprint :: string
  er_expires_ms :: "int option"
  er_first_seen :: time
  er_last_seen :: time
  er_last_seen_ms :: int

text \<open>
  The snapshot column holds JSON text: either one that unmarshals to a snapshot or one that does
  not. \<open>SnapshotOf\<close> and \<open>ToEvent\<close> copy all fields, so a snapshot is an event value.
\<close>

datatype snapshot_text = SnapshotJson hazard_event | CorruptText string

record change_row =
  ch_id :: int
  ch_type :: string
  ch_key :: string
  ch_snapshot :: snapshot_text
  ch_created_ms :: int

record cursor_row =
  cu_type :: string
  cu_acked :: int

text \<open>\<open>st_seq\<close> is the \<open>AUTOINCREMENT\<close> counter: the largest journal ID ever handed out.\<close>

record store =
  st_events :: "(string \<times> event_row) list"
  st_changes :: "change_row list"
  st_seq :: int
  st_cursors :: "(string \<times> cursor_row) list"

definition empty_store :: store where
  "empty_store = \<lparr> st_events = [], st_changes = [], st_seq = 0, st_cursors = [] \<rparr>"

record change =
  c_id :: int
  c_type :: change_type
  c_event :: hazard_event

datatype outcome = OutcomeNew | OutcomeDuplicate | OutcomeUpdated | OutcomeCancelled

datatype store_error = MarshalSnapshot string | NotFound

section \<open>Columns\<close>

text \<open>\<open>time.Time\<close> marshals to JSON only in the years 0 to 9999.\<close>

definition json_time_ok :: "time \<Rightarrow> bool" where
  "json_time_ok t \<longleftrightarrow> -62167219200000000000 \<le> t \<and> t < 253402300800000000000"

definition opt_time_ok :: "time option \<Rightarrow> bool" where
  "opt_time_ok t = (case t of None \<Rightarrow> True | Some x \<Rightarrow> json_time_ok x)"

text \<open>Every text field of a snapshot after marshalling: invalid UTF-8 becomes U+FFFD.\<close>

definition coerce_status :: "event_status \<Rightarrow> event_status" where
  "coerce_status st = (case st of StatusOther s \<Rightarrow> StatusOther (json_coerce s) | _ \<Rightarrow> st)"

definition coerce_event :: "hazard_event \<Rightarrow> hazard_event" where
  "coerce_event e = e
     \<lparr> he_source := json_coerce (he_source e),
       he_source_id := json_coerce (he_source_id e),
       he_category := json_coerce (he_category e),
       he_event := json_coerce (he_event e),
       he_severity := json_coerce (he_severity e),
       he_provider_severity := json_coerce (he_provider_severity e),
       he_urgency := json_coerce (he_urgency e),
       he_certainty := json_coerce (he_certainty e),
       he_headline := json_coerce (he_headline e),
       he_description := json_coerce (he_description e),
       he_instruction := json_coerce (he_instruction e),
       he_areas := map json_coerce (he_areas e),
       he_status := coerce_status (he_status e),
       he_source_url := json_coerce (he_source_url e) \<rparr>"

definition marshal_snapshot :: "hazard_event \<Rightarrow> snapshot_text option" where
  "marshal_snapshot e =
     (if opt_time_ok (he_effective_at e) \<and> opt_time_ok (he_expires_at e) \<and>
         json_time_ok (he_received_at e) \<and> json_time_ok (he_updated_at e)
      then Some (SnapshotJson (coerce_event e)) else None)"

definition decodeSnapshot :: "snapshot_text \<Rightarrow> hazard_event option" where
  "decodeSnapshot t = (case t of SnapshotJson e \<Rightarrow> Some e | CorruptText _ \<Rightarrow> None)"

definition expiryMs :: "hazard_event \<Rightarrow> int" where
  "expiryMs e = (case he_expires_at e of None \<Rightarrow> 0 | Some t \<Rightarrow> unix_milli t)"

definition nullableInt64 :: "int \<Rightarrow> int option" where
  "nullableInt64 ms = (if ms = 0 then None else Some ms)"

definition expiryLive :: "hazard_event \<Rightarrow> int \<Rightarrow> bool" where
  "expiryLive e nowMs =
     (case he_expires_at e of None \<Rightarrow> True | Some t \<Rightarrow> unix_milli t > nowMs)"

definition orNow :: "time \<Rightarrow> time \<Rightarrow> time" where
  "orNow t fallback = (if t = zero_time then fallback else t)"

text \<open>The column values of \<open>insertArgs\<close> and of \<open>updateArgs\<close> (which keeps \<open>first_seen_at\<close>).\<close>

definition insert_row :: "hazard_event \<Rightarrow> string \<Rightarrow> time \<Rightarrow> event_row" where
  "insert_row e fp now =
     \<lparr> er_event = e\<lparr>he_areas := map json_coerce (he_areas e),
                    he_received_at := orNow (he_received_at e) (he_updated_at e)\<rparr>,
       er_fingerprint = fp,
       er_expires_ms = nullableInt64 (expiryMs e),
       er_first_seen = now, er_last_seen = now, er_last_seen_ms = unix_milli now \<rparr>"

definition update_row :: "event_row \<Rightarrow> hazard_event \<Rightarrow> string \<Rightarrow> time \<Rightarrow> event_row" where
  "update_row r e fp now =
     \<lparr> er_event = e\<lparr>he_areas := map json_coerce (he_areas e),
                    he_received_at := orNow (he_received_at e) now,
                    he_updated_at := orNow (he_updated_at e) now\<rparr>,
       er_fingerprint = fp,
       er_expires_ms = nullableInt64 (expiryMs e),
       er_first_seen = er_first_seen r, er_last_seen = now, er_last_seen_ms = unix_milli now \<rparr>"

text \<open>\<open>scanEventRow\<close>: the expiry is read from the millisecond column.\<close>

definition scan_event :: "event_row \<Rightarrow> hazard_event" where
  "scan_event r = (er_event r)\<lparr>he_expires_at := map_option of_unix_milli (er_expires_ms r)\<rparr>"

section \<open>Ingestion and expiry\<close>

definition insertChange ::
    "store \<Rightarrow> change_type \<Rightarrow> string \<Rightarrow> int \<Rightarrow> hazard_event \<Rightarrow> store_error + store \<times> int" where
  "insertChange s ct key nowMs snapshot =
     (case marshal_snapshot snapshot of
        None \<Rightarrow> Inl (MarshalSnapshot key)
      | Some text \<Rightarrow>
          Inr (s\<lparr> st_changes := st_changes s @
                    [\<lparr> ch_id = st_seq s + 1, ch_type = change_text ct, ch_key = key,
                       ch_snapshot = text, ch_created_ms = nowMs \<rparr>],
                  st_seq := st_seq s + 1 \<rparr>, st_seq s + 1))"

definition is_duplicate :: "event_row \<Rightarrow> hazard_event \<Rightarrow> string \<Rightarrow> int \<Rightarrow> bool" where
  "is_duplicate r e fp nowMs =
     (let storedStatus = he_status (er_event r); contentSame = (er_fingerprint r = fp) in
      if he_status e = StatusCancelled then storedStatus = StatusCancelled \<and> contentSame
      else if storedStatus = StatusActive then contentSame
      else if storedStatus = StatusExpired then contentSame \<and> \<not> expiryLive e nowMs
      else False)"

definition ingest_new ::
    "time \<Rightarrow> hazard_event \<Rightarrow> string \<Rightarrow> store \<Rightarrow> store_error + store \<times> outcome \<times> change option" where
  "ingest_new now e fp s =
     (let (oc, ct) = (if he_status e = StatusCancelled then (OutcomeCancelled, ChangeCancelled)
                      else (OutcomeNew, ChangeNew));
          e' = e\<lparr>he_received_at := now, he_updated_at := now\<rparr>;
          s' = s\<lparr>st_events := AList.update (he_key e) (insert_row e' fp now) (st_events s)\<rparr>
      in case insertChange s' ct (he_key e) (unix_milli now) e' of
           Inl err \<Rightarrow> Inl err
         | Inr (s'', i) \<Rightarrow> Inr (s'', oc, Some \<lparr>c_id = i, c_type = ct, c_event = e'\<rparr>))"

definition touch_row :: "event_row \<Rightarrow> time \<Rightarrow> event_row" where
  "touch_row r now = r\<lparr>er_last_seen := now, er_last_seen_ms := unix_milli now\<rparr>"

text \<open>The event as it is persisted by an update, and the type of the change.\<close>

definition updated_event :: "time \<Rightarrow> event_row \<Rightarrow> hazard_event \<Rightarrow> hazard_event \<times> change_type" where
  "updated_event now r e =
     (let e' = e\<lparr>he_received_at := he_received_at (er_event r), he_updated_at := now\<rparr> in
      if he_status e = StatusCancelled then (e', ChangeCancelled)
      else if he_status (er_event r) = StatusExpired \<and> \<not> expiryLive e (unix_milli now)
        then (e'\<lparr>he_status := StatusExpired\<rparr>, ChangeUpdated)
      else (e', ChangeUpdated))"

definition ingest_existing ::
    "time \<Rightarrow> event_row \<Rightarrow> hazard_event \<Rightarrow> string \<Rightarrow> store \<Rightarrow>
      store_error + store \<times> outcome \<times> change option" where
  "ingest_existing now r e fp s =
     (if is_duplicate r e fp (unix_milli now)
      then Inr (s\<lparr>st_events := AList.update (he_key e) (touch_row r now) (st_events s)\<rparr>,
                OutcomeDuplicate, None)
      else
        let (e', ct) = updated_event now r e;
            s' = s\<lparr>st_events := AList.update (he_key e) (update_row r e' fp now) (st_events s)\<rparr>
        in case insertChange s' ct (he_key e) (unix_milli now) e' of
             Inl err \<Rightarrow> Inl err
           | Inr (s'', i) \<Rightarrow>
               Inr (s'', if ct = ChangeCancelled then OutcomeCancelled else OutcomeUpdated,
                    Some \<lparr>c_id = i, c_type = ct, c_event = e'\<rparr>))"

definition Ingest ::
    "time \<Rightarrow> hazard_event \<Rightarrow> string \<Rightarrow> store \<Rightarrow> store_error + store \<times> outcome \<times> change option" where
  "Ingest now e fp s =
     (case map_of (st_events s) (he_key e) of
        None \<Rightarrow> ingest_new now e fp s
      | Some r \<Rightarrow> ingest_existing now r e fp s)"

definition row_due :: "int \<Rightarrow> event_row \<Rightarrow> bool" where
  "row_due nowMs r \<longleftrightarrow>
     he_status (er_event r) = StatusActive \<and>
     (case er_expires_ms r of None \<Rightarrow> False | Some ms \<Rightarrow> ms \<le> nowMs)"

definition expire_row :: "time \<Rightarrow> event_row \<Rightarrow> event_row" where
  "expire_row now r =
     r\<lparr>er_event := (er_event r)\<lparr>he_status := StatusExpired, he_updated_at := now\<rparr>\<rparr>"

fun expire_keys ::
    "time \<Rightarrow> string list \<Rightarrow> store \<Rightarrow> store_error + store \<times> change list" where
  "expire_keys now [] s = Inr (s, [])"
| "expire_keys now (k # ks) s =
     (case map_of (st_events s) k of
        None \<Rightarrow> Inl NotFound
      | Some r \<Rightarrow>
          let r' = expire_row now r;
              s' = s\<lparr>st_events := AList.update k r' (st_events s)\<rparr>
          in case insertChange s' ChangeExpired k (unix_milli now) (scan_event r') of
               Inl err \<Rightarrow> Inl err
             | Inr (s'', i) \<Rightarrow>
                 (case expire_keys now ks s'' of
                    Inl err \<Rightarrow> Inl err
                  | Inr (s''', cs) \<Rightarrow>
                      Inr (s''', \<lparr>c_id = i, c_type = ChangeExpired, c_event = scan_event r'\<rparr> # cs)))"

definition due_keys :: "int \<Rightarrow> store \<Rightarrow> string list" where
  "due_keys nowMs s = map fst (filter (\<lambda>(k, r). row_due nowMs r) (st_events s))"

definition Expire :: "time \<Rightarrow> store \<Rightarrow> store_error + store \<times> change list" where
  "Expire now s = expire_keys now (due_keys (unix_milli now) s) s"

section \<open>Journal delivery\<close>

datatype poll_error =
    UnknownChangeType int string
  | BadSnapshot int
  | KeyMismatch int string string
  | SemanticallyInvalid int journal_error

definition cursor_of :: "store \<Rightarrow> string \<Rightarrow> int" where
  "cursor_of s out =
     (case map_of (st_cursors s) out of
        None \<Rightarrow> 0
      | Some c \<Rightarrow> if cu_acked c < 0 then 0 else cu_acked c)"

definition decode_row :: "change_row \<Rightarrow> poll_error + change" where
  "decode_row r =
     (case ChangeTypeOf (ch_type r) of
        None \<Rightarrow> Inl (UnknownChangeType (ch_id r) (ch_type r))
      | Some ct \<Rightarrow>
          (case decodeSnapshot (ch_snapshot r) of
             None \<Rightarrow> Inl (BadSnapshot (ch_id r))
           | Some e \<Rightarrow>
               if he_key e \<noteq> ch_key r then Inl (KeyMismatch (ch_id r) (he_key e) (ch_key r))
               else (case ValidateJournalChange ct e of
                       Some err \<Rightarrow> Inl (SemanticallyInvalid (ch_id r) err)
                     | None \<Rightarrow> Inr \<lparr>c_id = ch_id r, c_type = ct, c_event = e\<rparr>)))"

fun decode_rows :: "change_row list \<Rightarrow> poll_error + change list" where
  "decode_rows [] = Inr []"
| "decode_rows (r # rs) =
     (case decode_row r of
        Inl err \<Rightarrow> Inl err
      | Inr c \<Rightarrow> (case decode_rows rs of Inl err \<Rightarrow> Inl err | Inr cs \<Rightarrow> Inr (c # cs)))"

definition poll_limit :: "int \<Rightarrow> nat" where
  "poll_limit limit = (if limit \<le> 0 \<or> limit > 256 then 256 else nat limit)"

definition pending_rows :: "store \<Rightarrow> string \<Rightarrow> change_row list" where
  "pending_rows s out = sort_key ch_id (filter (\<lambda>r. ch_id r > cursor_of s out) (st_changes s))"

definition PollChanges :: "store \<Rightarrow> string \<Rightarrow> int \<Rightarrow> poll_error + change list" where
  "PollChanges s out limit = decode_rows (take (poll_limit limit) (pending_rows s out))"

datatype ack_error = AckNonPositive int | AckBeyondJournal int int

definition max_change_id :: "store \<Rightarrow> int" where
  "max_change_id s = fold max (map ch_id (st_changes s)) 0"

definition AckChanges :: "store \<Rightarrow> string \<Rightarrow> int \<Rightarrow> ack_error + store" where
  "AckChanges s out i =
     (if i \<le> 0 then Inl (AckNonPositive i)
      else if i > max_change_id s then Inl (AckBeyondJournal i (max_change_id s))
      else Inr (s\<lparr>st_cursors := AList.update out
             (case map_of (st_cursors s) out of
                None \<Rightarrow> \<lparr>cu_type = [], cu_acked = i\<rparr>
              | Some c \<Rightarrow> c\<lparr>cu_acked := max (cu_acked c) i\<rparr>)
             (st_cursors s)\<rparr>))"

text \<open>One enabled output (ID and plugin type): create its cursor or reset it on a type change.\<close>

definition sync_one :: "string \<times> string \<Rightarrow> (string \<times> cursor_row) list \<Rightarrow> (string \<times> cursor_row) list"
  where
  "sync_one out cs =
     (case map_of cs (fst out) of
        None \<Rightarrow> AList.update (fst out) \<lparr>cu_type = snd out, cu_acked = 0\<rparr> cs
      | Some c \<Rightarrow>
          if cu_type c \<noteq> snd out
          then AList.update (fst out) \<lparr>cu_type = snd out, cu_acked = 0\<rparr> cs else cs)"

definition SyncOutputs :: "(string \<times> string) list \<Rightarrow> store \<Rightarrow> store" where
  "SyncOutputs enabled s =
     s\<lparr>st_cursors := filter (\<lambda>(k, c). k \<in> set (map fst enabled))
          (fold sync_one enabled (st_cursors s))\<rparr>"

text \<open>\<open>COALESCE(MIN(last_acked_id), MAX(id), 0)\<close>: what every consumer has acknowledged.\<close>

definition acked_by_all :: "store \<Rightarrow> int" where
  "acked_by_all s =
     (case map (cu_acked \<circ> snd) (st_cursors s) of
        a # as \<Rightarrow> fold min as a
      | [] \<Rightarrow> (case map ch_id (st_changes s) of i # is \<Rightarrow> fold max is i | [] \<Rightarrow> 0))"

definition CleanupChanges :: "time \<Rightarrow> store \<Rightarrow> store \<times> nat" where
  "CleanupChanges olderThan s =
     (let cutoff = unix_milli olderThan;
          gone = (\<lambda>r. ch_created_ms r < cutoff \<and> ch_id r \<le> acked_by_all s)
      in (s\<lparr>st_changes := filter (\<lambda>r. \<not> gone r) (st_changes s)\<rparr>,
          length (filter gone (st_changes s))))"

definition row_stale :: "int \<Rightarrow> event_row \<Rightarrow> bool" where
  "row_stale cutoff r \<longleftrightarrow>
     he_status (er_event r) \<in> {StatusCancelled, StatusExpired} \<and> er_last_seen_ms r < cutoff"

definition CleanupEvents :: "time \<Rightarrow> store \<Rightarrow> store \<times> nat" where
  "CleanupEvents olderThan s =
     (s\<lparr>st_events := filter (\<lambda>(k, r). \<not> row_stale (unix_milli olderThan) r) (st_events s)\<rparr>,
      length (filter (\<lambda>(k, r). row_stale (unix_milli olderThan) r) (st_events s)))"

text \<open>\<open>PendingStats\<close>: the number of undelivered changes and the age of the oldest, not below 0.\<close>

definition PendingStats :: "time \<Rightarrow> store \<Rightarrow> nat \<times> time" where
  "PendingStats now s =
     (let rows = filter (\<lambda>r. ch_id r > acked_by_all s) (st_changes s) in
      (length rows,
       case map ch_created_ms rows of
         [] \<Rightarrow> 0
       | m # ms \<Rightarrow> max 0 (now - of_unix_milli (fold min ms m))))"

section \<open>Queries\<close>

record stored_event =
  se_event :: hazard_event
  se_fingerprint :: string
  se_first_seen :: time
  se_last_seen :: time

definition scan_stored :: "event_row \<Rightarrow> stored_event" where
  "scan_stored r =
     \<lparr> se_event = scan_event r, se_fingerprint = er_fingerprint r,
       se_first_seen = er_first_seen r, se_last_seen = er_last_seen r \<rparr>"

definition Get :: "store \<Rightarrow> string \<Rightarrow> store_error + stored_event" where
  "Get s key =
     (case map_of (st_events s) key of None \<Rightarrow> Inl NotFound | Some r \<Rightarrow> Inr (scan_stored r))"

definition Count :: "store \<Rightarrow> nat" where
  "Count s = length (st_events s)"

definition row_active :: "event_row \<Rightarrow> bool" where
  "row_active r \<longleftrightarrow> he_status (er_event r) = StatusActive"

definition CountActive :: "store \<Rightarrow> nat" where
  "CountActive s = length (filter (row_active \<circ> snd) (st_events s))"

text \<open>\<open>None\<close> is the error for a limit that is not positive.\<close>

definition ListActiveEvents :: "store \<Rightarrow> string \<Rightarrow> int \<Rightarrow> hazard_event list option" where
  "ListActiveEvents s afterKey limit =
     (if limit \<le> 0 then None
      else Some (map (scan_event \<circ> snd)
        (take (nat limit)
          (sort_key fst (filter (\<lambda>(k, r). row_active r \<and> afterKey < k) (st_events s))))))"

definition seen_since :: "int \<Rightarrow> string \<times> event_row \<Rightarrow> bool" where
  "seen_since sinceMs kr \<longleftrightarrow> er_last_seen_ms (snd kr) \<ge> sinceMs"

definition ListArchiveEvents :: "store \<Rightarrow> time \<Rightarrow> nat \<Rightarrow> int \<Rightarrow> stored_event list option" where
  "ListArchiveEvents s since offset limit =
     (if limit \<le> 0 then None
      else Some (map (scan_stored \<circ> snd)
        (take (nat limit) (drop offset
          (sort_key (\<lambda>(k, r). (- er_last_seen_ms r, k))
            (filter (seen_since (unix_milli since)) (st_events s)))))))"

definition CountArchiveEvents :: "store \<Rightarrow> time \<Rightarrow> nat" where
  "CountArchiveEvents s since = length (filter (seen_since (unix_milli since)) (st_events s))"

lemmas ingest_simps [store_simps] =
  Ingest_def ingest_new_def ingest_existing_def insertChange_def updated_event_def

end
