(* ===== verification/Store_Invariant.thy ===== *)
theory Store_Invariant
  imports Event_Store
begin

text \<open>
  The invariant of the event store, what every successful operation does to the tables, and the
  preservation of the invariant by all operations that change state.
\<close>

section \<open>The invariant\<close>

definition row_ok :: "string \<Rightarrow> event_row \<Rightarrow> bool" where
  "row_ok k r \<longleftrightarrow>
     he_key (er_event r) = k \<and> journal_body_ok (er_event r) \<and>
     he_status (er_event r) \<in> {StatusActive, StatusCancelled, StatusExpired}"

definition events_ok :: "store \<Rightarrow> bool" where
  "events_ok s \<longleftrightarrow> table_ok (st_events s) \<and> (\<forall>(k, r)\<in>set (st_events s). row_ok k r)"

definition journal_ok :: "store \<Rightarrow> bool" where
  "journal_ok s \<longleftrightarrow>
     0 \<le> st_seq s \<and> sorted_wrt (<) (map ch_id (st_changes s)) \<and>
     (\<forall>r\<in>set (st_changes s). 0 < ch_id r \<and> ch_id r \<le> st_seq s)"

definition cursors_ok :: "store \<Rightarrow> bool" where
  "cursors_ok s \<longleftrightarrow>
     table_ok (st_cursors s) \<and>
     (\<forall>(k, c)\<in>set (st_cursors s). 0 \<le> cu_acked c \<and> cu_acked c \<le> st_seq s)"

definition store_inv :: "store \<Rightarrow> bool" where
  "store_inv s \<longleftrightarrow> events_ok s \<and> journal_ok s \<and> cursors_ok s"

text \<open>No journal row is one that a poll refuses, and no event row would produce one.\<close>

definition key_utf8 :: "hazard_event \<Rightarrow> bool" where
  "key_utf8 e \<longleftrightarrow> valid_utf8 (he_source e) \<and> valid_utf8 (he_source_id e)"

definition row_decodes :: "change_row \<Rightarrow> bool" where
  "row_decodes r \<longleftrightarrow> (\<exists>c. decode_row r = Inr c)"

definition journal_clean :: "store \<Rightarrow> bool" where
  "journal_clean s \<longleftrightarrow>
     (\<forall>r\<in>set (st_changes s). row_decodes r) \<and>
     (\<forall>(k, r)\<in>set (st_events s). key_utf8 (er_event r))"

lemma store_inv_empty: "store_inv empty_store"
  by (simp add: store_inv_def events_ok_def journal_ok_def cursors_ok_def empty_store_def)

lemma journal_clean_empty: "journal_clean empty_store"
  by (simp add: journal_clean_def empty_store_def)

section \<open>What an operation writes\<close>

text \<open>A state with row \<open>r\<close> under key \<open>k\<close> and one more journal row.\<close>

definition put_event :: "string \<Rightarrow> event_row \<Rightarrow> store \<Rightarrow> store" where
  "put_event k r s = s\<lparr>st_events := AList.update k r (st_events s)\<rparr>"

definition journal_append :: "change_type \<Rightarrow> string \<Rightarrow> int \<Rightarrow> hazard_event \<Rightarrow> store \<Rightarrow> store" where
  "journal_append ct key ms e s =
     s\<lparr>st_changes := st_changes s @
         [\<lparr>ch_id = st_seq s + 1, ch_type = change_text ct, ch_key = key,
           ch_snapshot = SnapshotJson (coerce_event e), ch_created_ms = ms\<rparr>],
       st_seq := st_seq s + 1\<rparr>"

lemma insertChange_Inr_iff:
  "insertChange s ct key ms e = Inr (s', i) \<longleftrightarrow>
     marshal_snapshot e \<noteq> None \<and> s' = journal_append ct key ms e s \<and> i = st_seq s + 1"
  by (auto simp: insertChange_def journal_append_def marshal_snapshot_def split: if_splits)

lemma insertChange_Inl_iff:
  "insertChange s ct key ms e = Inl err \<longleftrightarrow> marshal_snapshot e = None \<and> err = MarshalSnapshot key"
  by (auto simp: insertChange_def split: option.splits)

lemma put_event_sel [simp]:
  "st_events (put_event k r s) = AList.update k r (st_events s)"
  "st_changes (put_event k r s) = st_changes s"
  "st_seq (put_event k r s) = st_seq s"
  "st_cursors (put_event k r s) = st_cursors s"
  by (simp_all add: put_event_def)

lemma journal_append_sel [simp]:
  "st_events (journal_append ct k ms e s) = st_events s"
  "st_changes (journal_append ct k ms e s) = st_changes s @
     [\<lparr>ch_id = st_seq s + 1, ch_type = change_text ct, ch_key = k,
       ch_snapshot = SnapshotJson (coerce_event e), ch_created_ms = ms\<rparr>]"
  "st_seq (journal_append ct k ms e s) = st_seq s + 1"
  "st_cursors (journal_append ct k ms e s) = st_cursors s"
  by (simp_all add: journal_append_def)

lemma journal_body_cong:
  "he_source e = he_source f \<Longrightarrow> he_source_id e = he_source_id f \<Longrightarrow> he_event e = he_event f \<Longrightarrow>
   he_latitude e = he_latitude f \<Longrightarrow> he_longitude e = he_longitude f \<Longrightarrow>
   journal_body_ok e = journal_body_ok f"
  by (simp add: journal_body_ok_def)

text \<open>Two events that differ in lifecycle and bookkeeping fields only.\<close>

definition same_body :: "hazard_event \<Rightarrow> hazard_event \<Rightarrow> bool" where
  "same_body e f \<longleftrightarrow>
     he_source e = he_source f \<and> he_source_id e = he_source_id f \<and> he_event e = he_event f \<and>
     he_latitude e = he_latitude f \<and> he_longitude e = he_longitude f"

lemma same_bodyD:
  assumes "same_body e f"
  shows "he_key e = he_key f" "journal_body_ok e = journal_body_ok f" "key_utf8 e = key_utf8 f"
  using assms by (auto simp: same_body_def he_key_def key_utf8_def journal_body_ok_def)

text \<open>The three shapes of a successful ingestion.\<close>

lemma Ingest_InrE:
  assumes "Ingest now e fp s = Inr (s', oc, ch)"
  obtains
    (first) e' ct where "map_of (st_events s) (he_key e) = None"
      "e' = e\<lparr>he_received_at := now, he_updated_at := now\<rparr>"
      "ct = (if he_status e = StatusCancelled then ChangeCancelled else ChangeNew)"
      "oc = (if he_status e = StatusCancelled then OutcomeCancelled else OutcomeNew)"
      "s' = journal_append ct (he_key e) (unix_milli now) e'
              (put_event (he_key e) (insert_row e' fp now) s)"
      "ch = Some \<lparr>c_id = st_seq s + 1, c_type = ct, c_event = e'\<rparr>" "marshal_snapshot e' \<noteq> None"
  | (duplicate) r where "map_of (st_events s) (he_key e) = Some r"
      "is_duplicate r e fp (unix_milli now)"
      "s' = put_event (he_key e) (touch_row r now) s" "oc = OutcomeDuplicate" "ch = None"
  | (changed) r e' ct where "map_of (st_events s) (he_key e) = Some r"
      "\<not> is_duplicate r e fp (unix_milli now)" "updated_event now r e = (e', ct)"
      "oc = (if ct = ChangeCancelled then OutcomeCancelled else OutcomeUpdated)"
      "s' = journal_append ct (he_key e) (unix_milli now) e'
              (put_event (he_key e) (update_row r e' fp now) s)"
      "ch = Some \<lparr>c_id = st_seq s + 1, c_type = ct, c_event = e'\<rparr>" "marshal_snapshot e' \<noteq> None"
proof (cases "map_of (st_events s) (he_key e)")
  case None
  with assms show ?thesis
    by (auto simp: Ingest_def ingest_new_def Let_def put_event_def [symmetric]
        insertChange_Inr_iff split: sum.splits if_splits intro!: first)
next
  case (Some r)
  show ?thesis
  proof (cases "is_duplicate r e fp (unix_milli now)")
    case True
    with assms Some show ?thesis
      by (auto simp: Ingest_def ingest_existing_def put_event_def intro!: duplicate)
  next
    case False
    obtain e' ct where u: "updated_event now r e = (e', ct)" by fastforce
    with assms Some False show ?thesis
      by (auto simp: Ingest_def ingest_existing_def Let_def put_event_def [symmetric]
          insertChange_Inr_iff split: sum.splits intro!: changed)
  qed
qed

lemma same_body_simps [simp]:
  "same_body e e"
  "same_body (e\<lparr>he_received_at := x\<rparr>) f = same_body e f"
  "same_body (e\<lparr>he_updated_at := x\<rparr>) f = same_body e f"
  "same_body (e\<lparr>he_received_at := x, he_updated_at := y\<rparr>) f = same_body e f"
  by (simp_all add: same_body_def)

lemma updated_event_body: "updated_event now r e = (e', ct) \<Longrightarrow> same_body e' e"
  by (auto simp: updated_event_def same_body_def Let_def split: if_splits)

lemma updated_event_fits:
  "updated_event now r e = (e', ct) \<Longrightarrow> he_status e \<in> {StatusActive, StatusCancelled} \<Longrightarrow>
    status_fits ct (he_status e')"
  by (auto simp: updated_event_def status_fits_def Let_def split: if_splits)

lemma row_event_body [simp]:
  "same_body (er_event (insert_row e fp now)) f = same_body e f"
  "same_body (er_event (update_row r e fp now)) f = same_body e f"
  "same_body (er_event (expire_row now r)) f = same_body (er_event r) f"
  "same_body (er_event (touch_row r now)) f = same_body (er_event r) f"
  "same_body (scan_event r) f = same_body (er_event r) f"
  by (simp_all add: same_body_def insert_row_def update_row_def expire_row_def touch_row_def
      scan_event_def)

lemma row_event_status [simp]:
  "he_status (er_event (insert_row e fp now)) = he_status e"
  "he_status (er_event (update_row r e fp now)) = he_status e"
  "he_status (er_event (expire_row now r)) = StatusExpired"
  "er_event (touch_row r now) = er_event r"
  "he_status (scan_event r) = he_status (er_event r)"
  by (simp_all add: insert_row_def update_row_def expire_row_def touch_row_def scan_event_def)

section \<open>Preservation\<close>

lemma events_ok_put: "events_ok s \<Longrightarrow> row_ok k r \<Longrightarrow> events_ok (put_event k r s)"
  using table_all_update [of "st_events s" row_ok k r] by (auto simp: events_ok_def)

lemma events_ok_cong: "st_events s' = st_events s \<Longrightarrow> events_ok s' = events_ok s"
  by (simp add: events_ok_def)

lemma events_ok_lookup: "events_ok s \<Longrightarrow> map_of (st_events s) k = Some r \<Longrightarrow> row_ok k r"
  by (auto simp: events_ok_def dest: map_of_SomeD)

lemma journal_ok_cong:
  "st_changes s' = st_changes s \<Longrightarrow> st_seq s' = st_seq s \<Longrightarrow> journal_ok s' = journal_ok s"
  by (simp add: journal_ok_def)

lemma cursors_ok_cong:
  "st_cursors s' = st_cursors s \<Longrightarrow> st_seq s' = st_seq s \<Longrightarrow> cursors_ok s' = cursors_ok s"
  by (simp add: cursors_ok_def)

lemma journal_ok_append: "journal_ok s \<Longrightarrow> journal_ok (journal_append ct k ms e s)"
  by (fastforce simp: journal_ok_def sorted_wrt_append)

lemma cursors_ok_append: "cursors_ok s \<Longrightarrow> cursors_ok (journal_append ct k ms e s)"
  by (fastforce simp: cursors_ok_def)

lemma store_inv_put: "store_inv s \<Longrightarrow> row_ok k r \<Longrightarrow> store_inv (put_event k r s)"
  using journal_ok_cong [of "put_event k r s" s] cursors_ok_cong [of "put_event k r s" s]
  by (simp add: store_inv_def events_ok_put)

lemma store_inv_append: "store_inv s \<Longrightarrow> store_inv (journal_append ct k ms e s)"
  using events_ok_cong [of "journal_append ct k ms e s" s]
  by (simp add: store_inv_def journal_ok_append cursors_ok_append)

text \<open>Which events the ingester hands to the store: normalized and accepted ones.\<close>

definition ingestible :: "hazard_event \<Rightarrow> bool" where
  "ingestible e \<longleftrightarrow> validate e = None \<and> he_status e \<noteq> StatusEmpty"

lemma ingestible_status: "ingestible e \<Longrightarrow> he_status e \<in> {StatusActive, StatusCancelled}"
  using validate_NoneD(7) [of e] by (auto simp: ingestible_def)

lemma ingestible_body: "ingestible e \<Longrightarrow> journal_body_ok e"
  by (simp add: ingestible_def validate_journal_body)

lemma row_okI:
  assumes "same_body (er_event r) e" "journal_body_ok e" "he_key e = k"
    and "he_status (er_event r) \<in> {StatusActive, StatusCancelled, StatusExpired}"
  shows "row_ok k r"
  using assms same_bodyD [of "er_event r" e] by (simp add: row_ok_def)

lemma Ingest_inv:
  assumes "Ingest now e fp s = Inr (s', oc, ch)" "ingestible e" "store_inv s"
  shows "store_inv s'"
  using assms(1)
proof (cases rule: Ingest_InrE)
  case (first e' ct)
  have "row_ok (he_key e) (insert_row e' fp now)"
    using ingestible_body [OF assms(2)] ingestible_status [OF assms(2)] first(2)
    by (intro row_okI [of _ e]) auto
  with first assms(3) show ?thesis by (simp add: store_inv_put store_inv_append)
next
  case (duplicate r)
  then have "row_ok (he_key e) (touch_row r now)"
    using assms(3) events_ok_lookup [of s "he_key e" r] by (simp add: row_ok_def store_inv_def)
  with duplicate assms(3) show ?thesis by (simp add: store_inv_put)
next
  case (changed r e' ct)
  have "row_ok (he_key e) (update_row r e' fp now)"
    using ingestible_body [OF assms(2)] updated_event_body [OF changed(3)]
      updated_event_fits [OF changed(3) ingestible_status [OF assms(2)]]
    by (intro row_okI [of _ e]) (auto simp: status_fits_def)
  with changed assms(3) show ?thesis by (simp add: store_inv_put store_inv_append)
qed

text \<open>One step of the expiration loop.\<close>

definition expire_one :: "time \<Rightarrow> string \<Rightarrow> event_row \<Rightarrow> store \<Rightarrow> store" where
  "expire_one now k r s =
     journal_append ChangeExpired k (unix_milli now) (scan_event (expire_row now r))
       (put_event k (expire_row now r) s)"

lemma expire_keys_ConsE:
  assumes "expire_keys now (k # ks) s = Inr (s', cs)"
  obtains r cs' where "map_of (st_events s) k = Some r"
    "marshal_snapshot (scan_event (expire_row now r)) \<noteq> None"
    "expire_keys now ks (expire_one now k r s) = Inr (s', cs')"
    "cs = \<lparr>c_id = st_seq s + 1, c_type = ChangeExpired,
            c_event = scan_event (expire_row now r)\<rparr> # cs'"
  using assms
  by (auto simp: insertChange_Inr_iff Let_def expire_one_def put_event_def [symmetric]
      split: option.splits sum.splits)

lemma expire_one_inv:
  assumes "store_inv s" "map_of (st_events s) k = Some r"
  shows "store_inv (expire_one now k r s)"
proof -
  have "row_ok k r" using assms events_ok_lookup by (auto simp: store_inv_def)
  then have "row_ok k (expire_row now r)"
    by (intro row_okI [of _ "er_event r"]) (auto simp: row_ok_def)
  with assms show ?thesis by (simp add: expire_one_def store_inv_append store_inv_put)
qed

lemma expire_keys_inv: "expire_keys now ks s = Inr (s', cs) \<Longrightarrow> store_inv s \<Longrightarrow> store_inv s'"
proof (induction ks arbitrary: s cs)
  case (Cons k ks)
  from Cons.prems(1) show ?case
    by (rule expire_keys_ConsE) (use Cons expire_one_inv in blast)
qed simp

lemma Expire_inv: "Expire now s = Inr (s', cs) \<Longrightarrow> store_inv s \<Longrightarrow> store_inv s'"
  by (simp add: Expire_def expire_keys_inv)

lemma fold_max_le: "fold max xs (a :: int) \<le> b \<longleftrightarrow> a \<le> b \<and> (\<forall>x\<in>set xs. x \<le> b)"
  by (induction xs arbitrary: a) auto

lemma fold_max_ge: "x \<in> set xs \<Longrightarrow> x \<le> fold max xs (a :: int)" "a \<le> fold max xs a"
  using fold_max_le [of xs a "fold max xs a"] by auto

lemma max_change_id_le: "journal_ok s \<Longrightarrow> max_change_id s \<le> st_seq s"
  by (auto simp: max_change_id_def fold_max_le journal_ok_def)

lemma AckChanges_inv: "AckChanges out_s out i = Inr s' \<Longrightarrow> store_inv out_s \<Longrightarrow> store_inv s'"
proof -
  let ?s = out_s
  assume a: "AckChanges ?s out i = Inr s'" and inv: "store_inv ?s"
  define c where "c = (case map_of (st_cursors ?s) out of None \<Rightarrow> \<lparr>cu_type = [], cu_acked = i\<rparr>
    | Some c \<Rightarrow> c\<lparr>cu_acked := max (cu_acked c) i\<rparr>)"
  from a have i: "0 < i" "i \<le> max_change_id ?s"
    and s': "s' = ?s\<lparr>st_cursors := AList.update out c (st_cursors ?s)\<rparr>"
    by (auto simp: AckChanges_def c_def split: if_splits)
  have "i \<le> st_seq ?s" using i inv max_change_id_le by (force simp: store_inv_def)
  then have "0 \<le> cu_acked c \<and> cu_acked c \<le> st_seq ?s"
    using i inv by (auto simp: c_def store_inv_def cursors_ok_def dest: map_of_SomeD split: option.splits)
  then show ?thesis
    using inv s' table_all_update [of "st_cursors ?s" "\<lambda>k c. 0 \<le> cu_acked c \<and> cu_acked c \<le> st_seq ?s" out c]
    by (auto simp: store_inv_def cursors_ok_def events_ok_def journal_ok_def)
qed

lemma sync_one_ok:
  assumes "table_ok cs" "\<forall>(k, c)\<in>set cs. 0 \<le> cu_acked c \<and> cu_acked c \<le> n" "0 \<le> n"
  shows "table_ok (sync_one out cs) \<and>
    (\<forall>(k, c)\<in>set (sync_one out cs). 0 \<le> cu_acked c \<and> cu_acked c \<le> n)"
  using assms
    table_all_update [of cs "\<lambda>k c. 0 \<le> cu_acked c \<and> cu_acked c \<le> n" "fst out"
      "\<lparr>cu_type = snd out, cu_acked = 0\<rparr>"]
  by (auto simp: sync_one_def split: option.splits)

lemma fold_sync_ok:
  assumes "table_ok cs" "\<forall>(k, c)\<in>set cs. 0 \<le> cu_acked c \<and> cu_acked c \<le> n" "0 \<le> n"
  shows "table_ok (fold sync_one outs cs) \<and>
    (\<forall>(k, c)\<in>set (fold sync_one outs cs). 0 \<le> cu_acked c \<and> cu_acked c \<le> n)"
  using assms(1,2)
proof (induction outs arbitrary: cs)
  case (Cons out outs)
  from sync_one_ok [OF Cons.prems assms(3)] have "table_ok (sync_one out cs)"
    and "\<forall>(k, c)\<in>set (sync_one out cs). 0 \<le> cu_acked c \<and> cu_acked c \<le> n"
    by blast+
  from Cons.IH [OF this] show ?case by simp
qed simp

lemma SyncOutputs_inv: "store_inv s \<Longrightarrow> store_inv (SyncOutputs enabled s)"
  using fold_sync_ok [of "st_cursors s" "st_seq s" enabled]
  by (auto simp: store_inv_def cursors_ok_def journal_ok_def events_ok_def SyncOutputs_def)

lemma CleanupChanges_inv: "store_inv s \<Longrightarrow> store_inv (fst (CleanupChanges t s))"
  by (auto simp: store_inv_def cursors_ok_def journal_ok_def events_ok_def CleanupChanges_def
      Let_def sorted_wrt_map sorted_wrt_filter)

lemma CleanupEvents_inv: "store_inv s \<Longrightarrow> store_inv (fst (CleanupEvents t s))"
  by (auto simp: store_inv_def cursors_ok_def journal_ok_def events_ok_def CleanupEvents_def)

lemmas store_inv_intros =
  Ingest_inv Expire_inv AckChanges_inv SyncOutputs_inv CleanupChanges_inv CleanupEvents_inv

end
