(* ===== verification/Store_Lifecycle.thy ===== *)
theory Store_Lifecycle
  imports Store_Invariant
begin

text \<open>
  What the store promises about events: the lifecycle automaton its transactions refine, the
  classification of incoming events, and the expiry pass.
\<close>

section \<open>The abstract lifecycle\<close>

text \<open>
  The abstract state maps each known key to its status; a label is the change a transition
  journals, if any.
\<close>

type_synonym lifecycle = "string \<rightharpoonup> event_status"

definition lifecycle_of :: "store \<Rightarrow> lifecycle" where
  "lifecycle_of s = (\<lambda>k. map_option (\<lambda>r. he_status (er_event r)) (map_of (st_events s) k))"

inductive life_step :: "lifecycle \<Rightarrow> (change_type \<times> string) option \<Rightarrow> lifecycle \<Rightarrow> bool" where
  seen_again: "m k = Some st \<Longrightarrow> life_step m None m"
| appear: "m k = None \<Longrightarrow> life_step m (Some (ChangeNew, k)) (m(k \<mapsto> StatusActive))"
| update: "m k = Some st \<Longrightarrow> life_step m (Some (ChangeUpdated, k)) (m(k \<mapsto> StatusActive))"
| update_expired: "m k = Some StatusExpired \<Longrightarrow> life_step m (Some (ChangeUpdated, k)) m"
| cancel: "life_step m (Some (ChangeCancelled, k)) (m(k \<mapsto> StatusCancelled))"
| lapse: "m k = Some StatusActive \<Longrightarrow>
    life_step m (Some (ChangeExpired, k)) (m(k \<mapsto> StatusExpired))"

inductive_cases life_step_expiredE: "life_step m (Some (ChangeExpired, k)) m'"
inductive_cases life_step_newE: "life_step m (Some (ChangeNew, k)) m'"

inductive life_steps :: "lifecycle \<Rightarrow> (change_type \<times> string) list \<Rightarrow> lifecycle \<Rightarrow> bool" where
  stop: "life_steps m [] m"
| quiet: "life_step m None m' \<Longrightarrow> life_steps m' ls m'' \<Longrightarrow> life_steps m ls m''"
| loud: "life_step m (Some l) m' \<Longrightarrow> life_steps m' ls m'' \<Longrightarrow> life_steps m (l # ls) m''"

lemma lifecycle_put [simp]:
  "lifecycle_of (put_event k r s) = (lifecycle_of s)(k \<mapsto> he_status (er_event r))"
  by (auto simp: lifecycle_of_def)

lemma lifecycle_append [simp]: "lifecycle_of (journal_append ct k ms e s) = lifecycle_of s"
  by (simp add: lifecycle_of_def)

lemma lifecycle_of_lookup:
  "map_of (st_events s) k = Some r \<Longrightarrow> lifecycle_of s k = Some (he_status (er_event r))"
  "map_of (st_events s) k = None \<Longrightarrow> lifecycle_of s k = None"
  by (simp_all add: lifecycle_of_def)

text \<open>The journal rows beyond those of an earlier state, as labels.\<close>

definition journaled :: "store \<Rightarrow> store \<Rightarrow> (string \<times> string) list" where
  "journaled s s' =
     map (\<lambda>r. (ch_type r, ch_key r)) (drop (length (st_changes s)) (st_changes s'))"

definition label_text :: "change_type \<times> string \<Rightarrow> string \<times> string" where
  "label_text l = (change_text (fst l), snd l)"

lemma updated_event_step:
  assumes "updated_event now r e = (e', ct)" "he_status e \<in> {StatusActive, StatusCancelled}"
    and "m k = Some (he_status (er_event r))"
  shows "life_step m (Some (ct, k)) (m(k \<mapsto> he_status e'))"
proof -
  consider (c) "he_status e = StatusCancelled" "ct = ChangeCancelled" "he_status e' = StatusCancelled"
    | (x) "he_status (er_event r) = StatusExpired" "ct = ChangeUpdated" "he_status e' = StatusExpired"
    | (u) "ct = ChangeUpdated" "he_status e' = StatusActive"
    using assms(1,2) by (auto simp: updated_event_def Let_def split: if_splits)
  then show ?thesis
  proof cases
    case c
    then show ?thesis by (simp add: life_step.cancel)
  next
    case x
    with assms(3) have "m(k \<mapsto> he_status e') = m" by auto
    with x assms(3) show ?thesis by (simp add: life_step.update_expired)
  next
    case u
    with assms(3) show ?thesis by (simp add: life_step.update)
  qed
qed

text \<open>
  C2: every successful ingestion is one transition of the lifecycle automaton, and the row it
  appends to the journal (none for a duplicate) is exactly the label of that transition.
\<close>

theorem ingest_refines_lifecycle:
  assumes "Ingest now e fp s = Inr (s', oc, ch)" "ingestible e"
  shows "\<exists>l. life_step (lifecycle_of s) l (lifecycle_of s') \<and>
    journaled s s' = map label_text (case l of None \<Rightarrow> [] | Some x \<Rightarrow> [x]) \<and>
    (oc = OutcomeDuplicate \<longleftrightarrow> l = None)"
  using assms(1)
proof (cases rule: Ingest_InrE)
  case (first e' ct)
  have "life_step (lifecycle_of s) (Some (ct, he_key e)) (lifecycle_of s')"
    using first ingestible_status [OF assms(2)] lifecycle_of_lookup(2) [OF first(1)]
    by (auto intro: life_step.appear life_step.cancel)
  with first show ?thesis by (auto simp: journaled_def label_text_def)
next
  case (duplicate r)
  then have "lifecycle_of s' = lifecycle_of s"
    using lifecycle_of_lookup(1) [OF duplicate(1)] by auto
  with duplicate lifecycle_of_lookup(1) [OF duplicate(1)] show ?thesis
    by (auto simp: journaled_def intro: life_step.seen_again)
next
  case (changed r e' ct)
  have "life_step (lifecycle_of s) (Some (ct, he_key e)) (lifecycle_of s')"
    using updated_event_step [where m = "lifecycle_of s" and k = "he_key e", OF changed(3)
        ingestible_status [OF assms(2)] lifecycle_of_lookup(1) [OF changed(1)]] changed(5)
    by simp
  with changed show ?thesis by (auto simp: journaled_def label_text_def)
qed

section \<open>The expiry pass\<close>

lemma expire_one_lookup [simp]:
  "map_of (st_events (expire_one now k r s)) = (map_of (st_events s))(k \<mapsto> expire_row now r)"
  by (simp add: expire_one_def)

lemma expire_one_sel [simp]:
  "st_seq (expire_one now k r s) = st_seq s + 1"
  "st_cursors (expire_one now k r s) = st_cursors s"
  "length (st_changes (expire_one now k r s)) = Suc (length (st_changes s))"
  by (simp_all add: expire_one_def)

lemma expire_keys_lookup:
  assumes "expire_keys now ks s = Inr (s', cs)" "distinct ks"
  shows "map_of (st_events s') k =
    (if k \<in> set ks then map_option (expire_row now) (map_of (st_events s) k)
     else map_of (st_events s) k)"
  using assms
proof (induction ks arbitrary: s cs)
  case (Cons x ks)
  from Cons.prems(1) show ?case
  proof (rule expire_keys_ConsE)
    fix r cs'
    assume r: "map_of (st_events s) x = Some r"
      and e: "expire_keys now ks (expire_one now x r s) = Inr (s', cs')"
    from Cons.IH [OF e] Cons.prems(2) r show ?thesis by auto
  qed
qed simp

lemma expire_keys_changes:
  "expire_keys now ks s = Inr (s', cs) \<Longrightarrow>
    (\<exists>rows. st_changes s' = st_changes s @ rows \<and>
       map (\<lambda>r. (ch_type r, ch_key r)) rows = map (\<lambda>k. (''expired'', k)) ks) \<and>
    length cs = length ks \<and> map c_id cs = map (\<lambda>i. st_seq s + 1 + int i) [0..<length ks]"
proof (induction ks arbitrary: s cs)
  case (Cons k ks)
  from Cons.prems show ?case
  proof (rule expire_keys_ConsE)
    fix r cs'
    assume e: "expire_keys now ks (expire_one now k r s) = Inr (s', cs')"
      and cs: "cs = \<lparr>c_id = st_seq s + 1, c_type = ChangeExpired,
        c_event = scan_event (expire_row now r)\<rparr> # cs'"
    from Cons.IH [OF e] obtain rows where rows:
        "st_changes s' = st_changes (expire_one now k r s) @ rows"
        "map (\<lambda>r. (ch_type r, ch_key r)) rows = map (\<lambda>k. (''expired'', k)) ks"
        "length cs' = length ks" "map c_id cs' = map (\<lambda>i. st_seq s + 2 + int i) [0..<length ks]"
      by (auto simp: add.commute)
    have "[0..<length (k # ks)] = 0 # map Suc [0..<length ks]"
      by (simp add: map_Suc_upt upt_conv_Cons del: upt_Suc)
    then show ?thesis using rows cs by (auto simp: expire_one_def)
  qed
qed simp

lemma map_of_table_mem: "table_ok t \<Longrightarrow> (k, r) \<in> set t \<Longrightarrow> map_of t k = Some r"
  by (simp add: table_lookup_iff)

lemma due_keys_distinct: "events_ok s \<Longrightarrow> distinct (due_keys ms s)"
  by (auto simp: due_keys_def events_ok_def table_ok_def distinct_map_filter)

lemma due_keys_set:
  "events_ok s \<Longrightarrow> k \<in> set (due_keys ms s) \<longleftrightarrow> (\<exists>r. map_of (st_events s) k = Some r \<and> row_due ms r)"
  by (force simp: due_keys_def events_ok_def table_lookup_iff)

lemma Expire_lookup:
  assumes "Expire now s = Inr (s', cs)" "store_inv s"
  shows "map_of (st_events s') k =
    map_option (\<lambda>r. if row_due (unix_milli now) r then expire_row now r else r)
      (map_of (st_events s) k)"
proof -
  have ok: "events_ok s" using assms(2) by (simp add: store_inv_def)
  have "expire_keys now (due_keys (unix_milli now) s) s = Inr (s', cs)"
    using assms(1) by (simp add: Expire_def)
  from expire_keys_lookup [OF this due_keys_distinct [OF ok], of k] due_keys_set [OF ok]
  show ?thesis by (cases "map_of (st_events s) k") auto
qed

text \<open>
  C7: a successful expiry pass turns exactly the due active rows into expired ones and leaves
  every other row as it was; it journals one \<open>expired\<close> change per due key and nothing else; and
  a second pass at the same instant finds nothing to do.
\<close>

theorem expire_exact:
  assumes "Expire now s = Inr (s', cs)" "store_inv s"
  shows "(\<forall>k. map_of (st_events s') k =
      map_option (\<lambda>r. if row_due (unix_milli now) r then expire_row now r else r)
        (map_of (st_events s) k)) \<and>
    journaled s s' = map (\<lambda>k. (''expired'', k)) (due_keys (unix_milli now) s) \<and>
    Expire now s' = Inr (s', [])"
proof -
  let ?ms = "unix_milli now" and ?ks = "due_keys (unix_milli now) s"
  have ek: "expire_keys now ?ks s = Inr (s', cs)"
    using assms(1) by (simp add: Expire_def)
  note look = Expire_lookup [OF assms]
  have new: "journaled s s' = map (\<lambda>k. (''expired'', k)) ?ks"
    using expire_keys_changes [OF ek] by (auto simp: journaled_def)
  have ok': "events_ok s'" using Expire_inv [OF assms] by (simp add: store_inv_def)
  have "\<not> row_due ?ms (expire_row now r)" for r
    by (simp add: row_due_def)
  then have "\<not> row_due ?ms r" if "map_of (st_events s') k = Some r" for k r
    using that look [of k] by (cases "map_of (st_events s) k") (auto split: if_splits)
  then have "k \<notin> set (due_keys ?ms s')" for k
    by (simp add: due_keys_set [OF ok'])
  then have "due_keys ?ms s' = []"
    by (metis list.set_intros(1) neq_Nil_conv)
  then have "Expire now s' = Inr (s', [])" by (simp add: Expire_def)
  with look new show ?thesis by simp
qed

definition sample_store :: store where
  "sample_store =
     \<lparr> st_events = [(''imgw:w:1'', insert_row sample_event ''f'' 1000000)],
       st_changes = [\<lparr>ch_id = 1, ch_type = ''new'', ch_key = ''imgw:w:1'',
                      ch_snapshot = SnapshotJson sample_event, ch_created_ms = 1\<rparr>],
       st_seq = 1, st_cursors = [(''mqtt'', \<lparr>cu_type = ''mqtt'', cu_acked = 0\<rparr>)] \<rparr>"

lemma sample_store_inv: "store_inv sample_store"
  by (simp add: store_inv_def events_ok_def journal_ok_def cursors_ok_def sample_store_def
      table_ok_def row_ok_def insert_row_def sample_event_def he_key_def event_key_def
      journal_body_ok_def)

lemma sample_ingestible: "ingestible sample_event"
  by (simp add: ingestible_def sample_event_valid) (simp add: sample_event_def)

lemma sample_ingest_ok:
  "\<exists>s' oc ch. Ingest 2000000 sample_event ''f'' empty_store = Inr (s', oc, ch)"
  by (simp add: store_simps Let_def empty_store_def marshal_snapshot_def opt_time_ok_def json_time_ok_def
      sample_event_def)

theorem ingest_refines_lifecycle_witness:
  "\<exists>s' oc ch l. Ingest 2000000 sample_event ''f'' empty_store = Inr (s', oc, ch) \<and>
     life_step (lifecycle_of empty_store) l (lifecycle_of s')"
  using sample_ingest_ok ingest_refines_lifecycle [OF _ sample_ingestible] by blast

lemma sample_expire_ok: "\<exists>s' cs. Expire 6000000 sample_store = Inr (s', cs)"
  by (simp add: Expire_def due_keys_def sample_store_def row_due_def insert_row_def sample_event_def
      expiryMs_def nullableInt64_def unix_milli_def insertChange_def marshal_snapshot_def
      opt_time_ok_def json_time_ok_def scan_event_def expire_row_def of_unix_milli_def orNow_def)

theorem expire_exact_witness:
  "\<exists>s' cs. Expire 6000000 sample_store = Inr (s', cs) \<and> Expire 6000000 s' = Inr (s', [])"
  using sample_expire_ok expire_exact [OF _ sample_store_inv] by blast

section \<open>No flapping\<close>

text \<open>The provider repeats the same event at a sequence of times.\<close>

fun reingest :: "time list \<Rightarrow> hazard_event \<Rightarrow> string \<Rightarrow> store \<Rightarrow> store_error + store" where
  "reingest [] e fp s = Inr s"
| "reingest (t # ts) e fp s =
     (case Ingest t e fp s of Inl err \<Rightarrow> Inl err | Inr (s', _, _) \<Rightarrow> reingest ts e fp s')"

lemma reingest_expired:
  assumes "map_of (st_events s) (he_key e) = Some r" "he_status (er_event r) = StatusExpired"
    and "er_fingerprint r = fp" "he_status e = StatusActive"
    and "\<forall>t\<in>set ts. \<not> expiryLive e (unix_milli t)"
  shows "\<exists>s'. reingest ts e fp s = Inr s' \<and> st_changes s' = st_changes s \<and>
    lifecycle_of s' = lifecycle_of s"
  using assms
proof (induction ts arbitrary: s r)
  case (Cons t ts)
  let ?s1 = "put_event (he_key e) (touch_row r t) s"
  have "is_duplicate r e fp (unix_milli t)"
    using Cons.prems by (simp add: is_duplicate_def)
  with Cons.prems have i: "Ingest t e fp s = Inr (?s1, OutcomeDuplicate, None)"
    by (simp add: Ingest_def ingest_existing_def put_event_def)
  have "lifecycle_of ?s1 = lifecycle_of s"
    using lifecycle_of_lookup(1) [OF Cons.prems(1)] by auto
  moreover have "\<exists>s'. reingest ts e fp ?s1 = Inr s' \<and> st_changes s' = st_changes ?s1 \<and>
      lifecycle_of s' = lifecycle_of ?s1"
    using Cons.prems by (intro Cons.IH [of _ "touch_row r t"]) (auto simp: touch_row_def)
  ultimately show ?case using i by auto
qed simp

text \<open>
  C8: a stale provider event cannot flap. Once the expiry pass has expired an event, repeating
  the same content with the same lapsed expiry any number of times always succeeds, journals
  nothing and leaves the event expired.
\<close>

theorem stale_event_never_flaps:
  assumes "store_inv s" "Expire now s = Inr (s', cs)"
    and "map_of (st_events s) (he_key e) = Some r" "row_due (unix_milli now) r"
    and "er_fingerprint r = fp" "he_status e = StatusActive"
    and "\<forall>t\<in>set ts. \<not> expiryLive e (unix_milli t)"
  shows "\<exists>s''. reingest ts e fp s' = Inr s'' \<and> st_changes s'' = st_changes s' \<and>
    lifecycle_of s'' (he_key e) = Some StatusExpired"
proof -
  let ?r = "expire_row now r"
  have r': "map_of (st_events s') (he_key e) = Some ?r"
    using Expire_lookup [OF assms(2,1), of "he_key e"] assms(3,4) by simp
  then have "lifecycle_of s' (he_key e) = Some StatusExpired"
    by (simp add: lifecycle_of_lookup)
  moreover have "er_fingerprint ?r = fp" using assms(5) by (simp add: expire_row_def)
  ultimately show ?thesis
    using reingest_expired [OF r' _ _ assms(6,7)] by fastforce
qed

theorem stale_event_never_flaps_witness:
  "\<exists>s' cs s''. Expire 6000000 sample_store = Inr (s', cs) \<and>
     reingest [7000000, 8000000] sample_event ''f'' s' = Inr s'' \<and>
     st_changes s'' = st_changes s' \<and> lifecycle_of s'' ''imgw:w:1'' = Some StatusExpired"
proof -
  obtain s' cs where x: "Expire 6000000 sample_store = Inr (s', cs)"
    using sample_expire_ok by blast
  have k: "he_key sample_event = ''imgw:w:1''"
    by (simp add: he_key_def event_key_def sample_event_def)
  have r: "map_of (st_events sample_store) (he_key sample_event) =
      Some (insert_row sample_event ''f'' 1000000)"
    by (simp add: k sample_store_def)
  have "row_due (unix_milli 6000000) (insert_row sample_event ''f'' 1000000)"
    by (simp add: row_due_def insert_row_def sample_event_def expiryMs_def nullableInt64_def
        unix_milli_def)
  moreover have "er_fingerprint (insert_row sample_event ''f'' 1000000) = ''f''"
    by (simp add: insert_row_def)
  moreover have "he_status sample_event = StatusActive" by (simp add: sample_event_def)
  moreover have "\<forall>t\<in>set [7000000, 8000000]. \<not> expiryLive sample_event (unix_milli t)"
    by (simp add: expiryLive_def sample_event_def unix_milli_def)
  ultimately obtain s'' where "reingest [7000000, 8000000] sample_event ''f'' s' = Inr s''"
      "st_changes s'' = st_changes s'" "lifecycle_of s'' (he_key sample_event) = Some StatusExpired"
    using stale_event_never_flaps [OF sample_store_inv x r] by blast
  with x k show ?thesis by auto
qed

section \<open>An expiry at the epoch\<close>

text \<open>
  an expiry that falls into the first millisecond of 1970 is stored as \<open>NULL\<close>, so the row
  is never due although \<open>expiryLive\<close> counts the event as lapsed at every later time.
\<close>

theorem epoch_expiry_never_due:
  assumes "he_expires_at e = Some t" "unix_milli t = 0" "0 < unix_milli now"
  shows "\<not> expiryLive e (unix_milli now) \<and>
    (\<forall>nowMs. \<not> row_due nowMs (insert_row e fp now))"
  using assms
  by (simp add: expiryLive_def row_due_def insert_row_def expiryMs_def nullableInt64_def)

theorem epoch_expiry_never_due_witness:
  "\<not> row_due 99 (insert_row (sample_event\<lparr>he_expires_at := Some 0\<rparr>) ''f'' 2000000)"
  using epoch_expiry_never_due [of "sample_event\<lparr>he_expires_at := Some 0\<rparr>" 0 2000000]
  by (simp add: unix_milli_def)

end
