(* ===== verification/Delivery_Contract.thy ===== *)
theory Delivery_Contract
  imports Prelude
begin

text \<open>
  The contract between the durable journal and the output workers: what a worker may rely on
  when it acknowledges deliveries in journal order, and what journal retention may not touch.
\<close>

text \<open>Acknowledge a list of delivered items one after the other.\<close>

fun ack_run ::
    "('s \<Rightarrow> 'q \<Rightarrow> int \<Rightarrow> 's option) \<Rightarrow> ('c \<Rightarrow> int) \<Rightarrow> 's \<Rightarrow> 'q \<Rightarrow> 'c list \<Rightarrow> 's option" where
  "ack_run ack ident s out [] = Some s"
| "ack_run ack ident s out (c # cs) =
     (case ack s out (ident c) of None \<Rightarrow> None | Some s' \<Rightarrow> ack_run ack ident s' out cs)"

locale durable_journal =
  fixes inv :: "'s \<Rightarrow> bool"
    and pending :: "'s \<Rightarrow> 'q \<Rightarrow> 'c list"
    and ident :: "'c \<Rightarrow> int"
    and ack :: "'s \<Rightarrow> 'q \<Rightarrow> int \<Rightarrow> 's option"
  assumes ack_head: "inv s \<Longrightarrow> pending s out = c # cs \<Longrightarrow>
      \<exists>s'. ack s out (ident c) = Some s' \<and> inv s' \<and> pending s' out = cs"
    and ack_other: "inv s \<Longrightarrow> ack s out i = Some s' \<Longrightarrow> other \<noteq> out \<Longrightarrow>
      pending s' other = pending s other"
begin

text \<open>Acknowledging a prefix of what is pending removes exactly that prefix.\<close>

lemma ack_run_prefix:
  assumes "inv s" "pending s out = xs @ ys"
  shows "\<exists>s'. ack_run ack ident s out xs = Some s' \<and> inv s' \<and> pending s' out = ys \<and>
    (\<forall>other. other \<noteq> out \<longrightarrow> pending s' other = pending s other)"
  using assms
proof (induction xs arbitrary: s)
  case (Cons x xs)
  then obtain s1 where s1: "ack s out (ident x) = Some s1" "inv s1" "pending s1 out = xs @ ys"
    using ack_head [of s out x "xs @ ys"] by auto
  with Cons.IH [of s1] ack_other [OF Cons.prems(1) s1(1)] show ?case by fastforce
qed simp

lemma ack_run_all:
  assumes "inv s"
  shows "\<exists>s'. ack_run ack ident s out (pending s out) = Some s' \<and> pending s' out = []"
  using ack_run_prefix [OF assms, of out "pending s out" "[]"] by auto

end

text \<open>A journal with retention: registered consumers lose nothing they have not acknowledged.\<close>

locale retained_journal = durable_journal +
  fixes registered :: "'s \<Rightarrow> 'q \<Rightarrow> bool"
    and cleanup :: "'t \<Rightarrow> 's \<Rightarrow> 's"
  assumes cleanup_inv: "inv s \<Longrightarrow> inv (cleanup t s)"
    and cleanup_pending: "inv s \<Longrightarrow> registered s out \<Longrightarrow>
      pending (cleanup t s) out = pending s out"
    and cleanup_registered: "registered (cleanup t s) out = registered s out"
begin

text \<open>Any number of retention passes before the acknowledgements makes no difference.\<close>

lemma cleanups_pending:
  assumes "inv s" "registered s out"
  shows "inv (fold cleanup ts s) \<and> registered (fold cleanup ts s) out \<and>
    pending (fold cleanup ts s) out = pending s out"
  using assms
  by (induction ts arbitrary: s) (simp_all add: cleanup_inv cleanup_pending cleanup_registered)

lemma ack_after_cleanups:
  assumes "inv s" "registered s out" "pending s out = xs @ ys"
  shows "\<exists>s'. ack_run ack ident (fold cleanup ts s) out xs = Some s' \<and> pending s' out = ys"
  using cleanups_pending [OF assms(1,2)] ack_run_prefix [of "fold cleanup ts s" out xs ys] assms(3)
  by auto

end

end
