(* ===== verification/Store_Journal.thy ===== *)
theory Store_Journal
  imports Store_Lifecycle Delivery_Contract
begin

text \<open>
  The journal side of the store: polls, acknowledgements, cursor synchronization and retention,
  and the proof that the store provides the delivery contract of \<open>Delivery_Contract\<close>.
\<close>

section \<open>Pending rows\<close>

lemma pending_rows_filter:
  assumes "journal_ok s"
  shows "pending_rows s out = filter (\<lambda>r. ch_id r > cursor_of s out) (st_changes s)"
proof -
  have "sorted_wrt (<) (map ch_id (filter (\<lambda>r. ch_id r > cursor_of s out) (st_changes s)))"
    using assms by (simp add: journal_ok_def sorted_wrt_map sorted_wrt_filter)
  then have "sorted (map ch_id (filter (\<lambda>r. ch_id r > cursor_of s out) (st_changes s)))"
    using strict_sorted_imp_sorted by blast
  then show ?thesis by (simp add: pending_rows_def sort_key_id_if_sorted)
qed

lemma cursor_of_ge0: "0 \<le> cursor_of s out"
  by (simp add: cursor_of_def split: option.split)

lemma cursor_of_cong: "st_cursors s' = st_cursors s \<Longrightarrow> cursor_of s' = cursor_of s"
  by (simp add: cursor_of_def fun_eq_iff)

lemma cursors_ok_lookup:
  "cursors_ok s \<Longrightarrow> map_of (st_cursors s) out = Some c \<Longrightarrow> 0 \<le> cu_acked c \<and> cu_acked c \<le> st_seq s"
  by (drule map_of_SomeD) (auto simp: cursors_ok_def)

lemma cursor_of_acked:
  "cursors_ok s \<Longrightarrow> map_of (st_cursors s) out = Some c \<Longrightarrow> cursor_of s out = cu_acked c"
  by (drule (1) cursors_ok_lookup) (simp add: cursor_of_def)

text \<open>A successful acknowledgement moves one cursor, never backwards.\<close>

lemma AckChanges_cursor:
  assumes "AckChanges s out i = Inr s'" "store_inv s"
  shows "cursor_of s' out = max (cursor_of s out) i"
    and "other \<noteq> out \<Longrightarrow> cursor_of s' other = cursor_of s other"
    and "st_changes s' = st_changes s" "st_seq s' = st_seq s" "st_events s' = st_events s"
proof -
  define c where "c = (case map_of (st_cursors s) out of None \<Rightarrow> \<lparr>cu_type = [], cu_acked = i\<rparr>
    | Some c \<Rightarrow> c\<lparr>cu_acked := max (cu_acked c) i\<rparr>)"
  from assms(1) have i: "0 < i" and s': "s' = s\<lparr>st_cursors := AList.update out c (st_cursors s)\<rparr>"
    by (auto simp: AckChanges_def c_def split: if_splits)
  have "0 \<le> cu_acked d" if "map_of (st_cursors s) out = Some d" for d
    using that assms(2) cursors_ok_lookup by (auto simp: store_inv_def)
  with i s' show "cursor_of s' out = max (cursor_of s out) i"
    by (auto simp: cursor_of_def c_def split: option.splits)
  show "other \<noteq> out \<Longrightarrow> cursor_of s' other = cursor_of s other"
    "st_changes s' = st_changes s" "st_seq s' = st_seq s" "st_events s' = st_events s"
    using s' by (simp_all add: cursor_of_def)
qed

lemma max_change_id_ge: "r \<in> set (st_changes s) \<Longrightarrow> ch_id r \<le> max_change_id s"
  by (auto simp: max_change_id_def intro: fold_max_ge(1))

text \<open>The acknowledgement as the worker sees it: the new state, or an error.\<close>

definition ack_opt :: "store \<Rightarrow> string \<Rightarrow> int \<Rightarrow> store option" where
  "ack_opt s out i = (case AckChanges s out i of Inl _ \<Rightarrow> None | Inr s' \<Rightarrow> Some s')"

lemma ack_opt_Some: "ack_opt s out i = Some s' \<longleftrightarrow> AckChanges s out i = Inr s'"
  by (auto simp: ack_opt_def split: sum.splits)

lemma ack_opt_head:
  assumes inv: "store_inv s" and p: "pending_rows s out = r # rs"
  shows "\<exists>s'. ack_opt s out (ch_id r) = Some s' \<and> store_inv s' \<and> pending_rows s' out = rs"
proof -
  have j: "journal_ok s" using inv by (simp add: store_inv_def)
  have f: "filter (\<lambda>x. ch_id x > cursor_of s out) (st_changes s) = r # rs"
    using p pending_rows_filter [OF j] by simp
  have "r \<in> set (filter (\<lambda>x. ch_id x > cursor_of s out) (st_changes s))"
    by (simp only: f list.set_intros)
  then have r: "r \<in> set (st_changes s)" "cursor_of s out < ch_id r"
    by simp_all
  then have "0 < ch_id r" using cursor_of_ge0 [of s out] by linarith
  with max_change_id_ge [OF r(1)] obtain s' where a: "AckChanges s out (ch_id r) = Inr s'"
    by (force simp: AckChanges_def)
  have c: "cursor_of s' out = ch_id r"
    using AckChanges_cursor(1) [OF a inv] r(2) by simp
  have "sorted_wrt (<) (map ch_id (r # rs))"
    using j by (simp add: f [symmetric] journal_ok_def sorted_wrt_map sorted_wrt_filter)
  then have above: "\<forall>x\<in>set rs. ch_id r < ch_id x" by auto
  have "filter (\<lambda>x. ch_id x > ch_id r) (st_changes s) =
      filter (\<lambda>x. ch_id x > ch_id r) (filter (\<lambda>x. ch_id x > cursor_of s out) (st_changes s))"
    using r(2) by (auto intro!: filter_cong)
  also have "\<dots> = rs" using above by (simp add: f filter_id_conv)
  finally have "pending_rows s' out = rs"
    using pending_rows_filter [of s' out] AckChanges_inv [OF a inv] AckChanges_cursor(3) [OF a inv] c
    by (simp add: store_inv_def)
  with a AckChanges_inv [OF a inv] show ?thesis by (auto simp: ack_opt_Some)
qed

lemma ack_opt_other:
  assumes "store_inv s" "ack_opt s out i = Some s'" "other \<noteq> out"
  shows "pending_rows s' other = pending_rows s other"
  using AckChanges_cursor [of s out i s'] assms by (simp add: ack_opt_Some pending_rows_def)

section \<open>Retention\<close>

lemma fold_min_ge: "b \<le> fold min xs (a :: int) \<longleftrightarrow> b \<le> a \<and> (\<forall>x\<in>set xs. b \<le> x)"
  by (induction xs arbitrary: a) auto

lemma fold_min_le: "x \<in> set xs \<Longrightarrow> fold min xs (a :: int) \<le> x" "fold min xs a \<le> a"
  using fold_min_ge [of "fold min xs a" xs a] by auto

lemma acked_by_all_le:
  assumes "map_of (st_cursors s) out = Some c"
  shows "acked_by_all s \<le> cu_acked c"
proof -
  let ?as = "map (cu_acked \<circ> snd) (st_cursors s)"
  have "cu_acked c \<in> set ?as" using map_of_SomeD [OF assms] by force
  then obtain a as where "?as = a # as" "cu_acked c \<in> set (a # as)"
    by (metis list.set_cases)
  then show ?thesis using fold_min_le(1) [of "cu_acked c" as a] fold_min_le(2) [of as a]
    by (auto simp: acked_by_all_def)
qed

definition has_cursor :: "store \<Rightarrow> string \<Rightarrow> bool" where
  "has_cursor s out \<longleftrightarrow> map_of (st_cursors s) out \<noteq> None"

definition cleanup_changes :: "time \<Rightarrow> store \<Rightarrow> store" where
  "cleanup_changes t s = fst (CleanupChanges t s)"

lemma cleanup_changes_sel [simp]:
  "st_cursors (cleanup_changes t s) = st_cursors s"
  "st_events (cleanup_changes t s) = st_events s"
  "st_seq (cleanup_changes t s) = st_seq s"
  by (simp_all add: cleanup_changes_def CleanupChanges_def Let_def)

lemma cleanup_changes_inv: "store_inv s \<Longrightarrow> store_inv (cleanup_changes t s)"
  by (simp add: cleanup_changes_def CleanupChanges_inv)

lemma cleanup_changes_pending:
  assumes inv: "store_inv s" and c: "has_cursor s out"
  shows "pending_rows (cleanup_changes t s) out = pending_rows s out"
proof -
  obtain cu where cu: "map_of (st_cursors s) out = Some cu"
    using c by (auto simp: has_cursor_def)
  have "acked_by_all s \<le> cursor_of s out"
    using acked_by_all_le [OF cu] cursor_of_acked [OF _ cu] inv by (simp add: store_inv_def)
  moreover have "cursor_of (cleanup_changes t s) = cursor_of s"
    by (rule cursor_of_cong) simp
  ultimately show ?thesis
    using pending_rows_filter [of s out] pending_rows_filter [of "cleanup_changes t s" out]
      inv cleanup_changes_inv [OF inv, of t]
    by (auto simp: store_inv_def cleanup_changes_def CleanupChanges_def Let_def intro!: filter_cong)
qed

interpretation sj: retained_journal store_inv pending_rows ch_id ack_opt has_cursor cleanup_changes
proof unfold_locales
  show "\<exists>s'. ack_opt s out (ch_id c) = Some s' \<and> store_inv s' \<and> pending_rows s' out = cs"
    if "store_inv s" "pending_rows s out = c # cs" for s out c cs
    using that by (rule ack_opt_head)
qed (auto simp: ack_opt_other cleanup_changes_inv cleanup_changes_pending has_cursor_def)

section \<open>Polls\<close>

lemma json_coerce_Nil_iff [simp]: "json_coerce s = [] \<longleftrightarrow> s = []"
proof (cases s)
  case (Cons c cs)
  then have "json_coerce s \<noteq> []"
    by (subst json_coerce.simps) (simp add: replacement_rune_def)
  with Cons show ?thesis by simp
qed (simp add: json_coerce.simps)

lemma coerce_event_body: "journal_body_ok e \<Longrightarrow> journal_body_ok (coerce_event e)"
  by (simp add: journal_body_ok_def coerce_event_def)

lemma coerce_event_status:
  "status_fits ct (he_status e) \<Longrightarrow> he_status (coerce_event e) = he_status e"
  by (auto simp: status_fits_def coerce_event_def coerce_status_def)

lemma coerce_event_key: "key_utf8 e \<Longrightarrow> he_key (coerce_event e) = he_key e"
  by (simp add: he_key_def key_utf8_def coerce_event_def json_coerce_valid)

lemma decode_appended:
  assumes "journal_body_ok e" "status_fits ct (he_status e)" "key_utf8 e" "he_key e = k"
  shows "decode_row \<lparr>ch_id = i, ch_type = change_text ct, ch_key = k,
      ch_snapshot = SnapshotJson (coerce_event e), ch_created_ms = ms\<rparr> =
    Inr \<lparr>c_id = i, c_type = ct, c_event = coerce_event e\<rparr>"
proof -
  have "ValidateJournalChange ct (coerce_event e) = None"
    using coerce_event_body [OF assms(1)] coerce_event_status [OF assms(2)] assms(2)
    by (simp add: ValidateJournalChange_None_iff)
  with coerce_event_key [OF assms(3)] assms(4) show ?thesis
    by (simp add: decode_row_def decodeSnapshot_def)
qed

lemma journal_clean_append:
  assumes "journal_clean s" "journal_body_ok e" "status_fits ct (he_status e)" "key_utf8 e"
    "he_key e = k"
  shows "journal_clean (journal_append ct k ms e s)"
  using assms decode_appended [OF assms(2-5)] by (auto simp: journal_clean_def row_decodes_def)

lemma journal_clean_put:
  "journal_clean s \<Longrightarrow> table_ok (st_events s) \<Longrightarrow> key_utf8 (er_event r) \<Longrightarrow>
    journal_clean (put_event k r s)"
  using table_all_update [of "st_events s" "\<lambda>k r. key_utf8 (er_event r)" k r]
  by (auto simp: journal_clean_def)

lemma journal_clean_lookup:
  "journal_clean s \<Longrightarrow> map_of (st_events s) k = Some r \<Longrightarrow> key_utf8 (er_event r)"
  by (auto simp: journal_clean_def dest: map_of_SomeD)

lemma Ingest_clean:
  assumes "Ingest now e fp s = Inr (s', oc, ch)" "ingestible e" "key_utf8 e"
    and "store_inv s" "journal_clean s"
  shows "journal_clean s'"
proof -
  have t: "table_ok (st_events s)" using assms(4) by (simp add: store_inv_def events_ok_def)
  have b: "journal_body_ok e" and st: "he_status e \<in> {StatusActive, StatusCancelled}"
    using assms(2) ingestible_body ingestible_status by auto
  show ?thesis
    using assms(1)
  proof (cases rule: Ingest_InrE)
    case (first e' ct)
    then have sb: "same_body e' e" by simp
    have "same_body (er_event (insert_row e' fp now)) e" using sb by simp
    then have "journal_clean (put_event (he_key e) (insert_row e' fp now) s)"
      using assms(3,5) t same_bodyD(3) by (intro journal_clean_put) auto
    moreover have "status_fits ct (he_status e')" using first(2,3) st by (auto simp: status_fits_def)
    ultimately show ?thesis
      using first(5) same_bodyD [OF sb] b assms(3) by (simp add: journal_clean_append)
  next
    case (duplicate r)
    then show ?thesis using assms(5) t journal_clean_lookup by (simp add: journal_clean_put)
  next
    case (changed r e' ct)
    have sb: "same_body e' e" using updated_event_body [OF changed(3)] .
    have "same_body (er_event (update_row r e' fp now)) e" using sb by simp
    then have "journal_clean (put_event (he_key e) (update_row r e' fp now) s)"
      using assms(3,5) t same_bodyD(3) by (intro journal_clean_put) auto
    then show ?thesis
      using changed(5) same_bodyD [OF sb] b assms(3) updated_event_fits [OF changed(3) st]
      by (simp add: journal_clean_append)
  qed
qed

lemma expire_one_clean:
  assumes "store_inv s" "journal_clean s" "map_of (st_events s) k = Some r"
  shows "journal_clean (expire_one now k r s)"
proof -
  let ?r = "expire_row now r"
  have ok: "row_ok k r" using assms events_ok_lookup by (auto simp: store_inv_def)
  have sb: "same_body (scan_event ?r) (er_event r)" "same_body (er_event ?r) (er_event r)" by simp_all
  have u: "key_utf8 (er_event r)" using journal_clean_lookup [OF assms(2,3)] .
  have "journal_clean (put_event k ?r s)"
    using assms(1,2) u same_bodyD(3) [OF sb(2)]
    by (intro journal_clean_put) (auto simp: store_inv_def events_ok_def)
  then show ?thesis
    using u ok same_bodyD [OF sb(1)]
    by (auto simp: expire_one_def row_ok_def status_fits_def intro!: journal_clean_append)
qed

lemma expire_keys_clean:
  "expire_keys now ks s = Inr (s', cs) \<Longrightarrow> store_inv s \<Longrightarrow> journal_clean s \<Longrightarrow> journal_clean s'"
proof (induction ks arbitrary: s cs)
  case (Cons k ks)
  from Cons.prems(1) show ?case
    by (rule expire_keys_ConsE) (use Cons expire_one_inv expire_one_clean in blast)
qed simp

lemma Expire_clean:
  "Expire now s = Inr (s', cs) \<Longrightarrow> store_inv s \<Longrightarrow> journal_clean s \<Longrightarrow> journal_clean s'"
  by (simp add: Expire_def expire_keys_clean)

lemma journal_clean_mono:
  "journal_clean s \<Longrightarrow> set (st_changes s') \<subseteq> set (st_changes s) \<Longrightarrow>
    set (st_events s') \<subseteq> set (st_events s) \<Longrightarrow> journal_clean s'"
  unfolding journal_clean_def by blast

lemma AckChanges_clean:
  "AckChanges s out i = Inr s' \<Longrightarrow> store_inv s \<Longrightarrow> journal_clean s \<Longrightarrow> journal_clean s'"
  using AckChanges_cursor(3,5) [of s out i s'] journal_clean_mono [of s s'] by auto

lemma cleanup_changes_clean: "journal_clean s \<Longrightarrow> journal_clean (cleanup_changes t s)"
  by (rule journal_clean_mono) (auto simp: cleanup_changes_def CleanupChanges_def Let_def)

text \<open>A clean batch decodes completely, in order.\<close>

lemma decode_row_id: "decode_row r = Inr c \<Longrightarrow> c_id c = ch_id r"
  by (auto simp: decode_row_def split: option.splits if_splits)

lemma decoded_ids: "list_all2 (\<lambda>r c. decode_row r = Inr c) rs cs \<Longrightarrow> map ch_id rs = map c_id cs"
  by (induction rule: list_all2_induct) (simp_all add: decode_row_id)

lemma decode_rows_clean:
  "\<forall>r\<in>set rs. row_decodes r \<Longrightarrow>
    \<exists>cs. decode_rows rs = Inr cs \<and> list_all2 (\<lambda>r c. decode_row r = Inr c) rs cs"
  by (induction rs) (auto simp: row_decodes_def)

lemma pending_rows_subset: "journal_ok s \<Longrightarrow> set (pending_rows s out) \<subseteq> set (st_changes s)"
  by (auto simp: pending_rows_filter)

lemma poll_clean:
  assumes "store_inv s" "journal_clean s"
  shows "\<exists>cs. PollChanges s out limit = Inr cs \<and>
    list_all2 (\<lambda>r c. decode_row r = Inr c) (take (poll_limit limit) (pending_rows s out)) cs"
proof -
  have "\<forall>r\<in>set (take (poll_limit limit) (pending_rows s out)). row_decodes r"
    using assms pending_rows_subset [of s out]
    by (auto simp: journal_clean_def store_inv_def dest!: in_set_takeD)
  then show ?thesis unfolding PollChanges_def by (rule decode_rows_clean)
qed

section \<open>Reachable stores\<close>

text \<open>One transaction of a running instance, with the events the ingester hands down.\<close>

inductive store_step :: "store \<Rightarrow> store \<Rightarrow> bool" where
  ingest: "Ingest now e fp s = Inr (s', oc, ch) \<Longrightarrow> ingestible e \<Longrightarrow> key_utf8 e \<Longrightarrow> store_step s s'"
| expire: "Expire now s = Inr (s', cs) \<Longrightarrow> store_step s s'"
| ack: "AckChanges s out i = Inr s' \<Longrightarrow> store_step s s'"
| sync: "store_step s (SyncOutputs enabled s)"
| cleanup_journal: "store_step s (cleanup_changes t s)"
| cleanup_state: "store_step s (fst (CleanupEvents t s))"

inductive store_reachable :: "store \<Rightarrow> bool" where
  start: "store_reachable empty_store"
| step: "store_reachable s \<Longrightarrow> store_step s s' \<Longrightarrow> store_reachable s'"

lemma store_step_inv: "store_step s s' \<Longrightarrow> store_inv s \<Longrightarrow> store_inv s'"
  by (induction rule: store_step.induct)
    (auto simp: cleanup_changes_inv SyncOutputs_inv CleanupEvents_inv
      intro: Ingest_inv Expire_inv AckChanges_inv)

lemma store_step_clean: "store_step s s' \<Longrightarrow> store_inv s \<Longrightarrow> journal_clean s \<Longrightarrow> journal_clean s'"
proof (induction rule: store_step.induct)
  case (ingest now e fp s s' oc ch)
  then show ?case by (blast intro: Ingest_clean)
next
  case (expire now s s' cs)
  then show ?case by (blast intro: Expire_clean)
next
  case (ack s out i s')
  then show ?case by (blast intro: AckChanges_clean)
next
  case (sync s enabled)
  then show ?case by (rule_tac journal_clean_mono [of s]) (auto simp: SyncOutputs_def)
next
  case (cleanup_state s t)
  then show ?case by (rule_tac journal_clean_mono [of s]) (auto simp: CleanupEvents_def)
qed (simp add: cleanup_changes_clean)

lemma store_reachable_inv: "store_reachable s \<Longrightarrow> store_inv s \<and> journal_clean s"
proof (induction rule: store_reachable.induct)
  case (step s s')
  then show ?case using store_step_inv store_step_clean by blast
qed (simp add: store_inv_empty journal_clean_empty)


lemma sample_key_utf8: "key_utf8 sample_event"
  by (auto simp: key_utf8_def sample_event_def intro!: valid_utf8_ascii)

lemma sample_reachable: "\<exists>s. store_reachable s \<and> (\<exists>oc ch. Ingest 2000000 sample_event ''f'' empty_store = Inr (s, oc, ch))"
  using sample_ingest_ok store_reachable.step [OF store_reachable.start store_step.ingest]
    sample_ingestible sample_key_utf8 by blast


section \<open>Cursors and retention\<close>

text \<open>
  C10: journal retention is safe: whatever its age limit and however often it runs, an output that
  has a cursor keeps exactly its undelivered changes, and acknowledging any prefix of them
  afterwards still succeeds and leaves the rest pending.
\<close>

theorem retention_keeps_undelivered:
  assumes "store_inv s" "has_cursor s out" "pending_rows s out = xs @ ys"
  shows "pending_rows (fold cleanup_changes ts s) out = xs @ ys \<and>
    (\<exists>s'. ack_run ack_opt ch_id (fold cleanup_changes ts s) out xs = Some s' \<and>
       pending_rows s' out = ys)"
  using sj.cleanups_pending [OF assms(1,2), of ts] sj.ack_after_cleanups [OF assms, of ts] assms(3)
  by simp

lemma sample_store_pending: "pending_rows sample_store ''mqtt'' = st_changes sample_store"
  by (simp add: pending_rows_def sample_store_def cursor_of_def)

theorem retention_keeps_undelivered_witness:
  "pending_rows (fold cleanup_changes [10 ^ 18, 10 ^ 19] sample_store) ''mqtt'' =
    st_changes sample_store"
proof -
  have "has_cursor sample_store ''mqtt''" by (simp add: has_cursor_def sample_store_def)
  from retention_keeps_undelivered [OF sample_store_inv this, of "st_changes sample_store" "[]"
      "[10 ^ 18, 10 ^ 19]"]
  show ?thesis by (simp add: sample_store_pending)
qed

lemma sync_one_lookup:
  "map_of (sync_one out cs) k =
    (if k = fst out
     then (case map_of cs k of
             Some c \<Rightarrow> if cu_type c = snd out then Some c else Some \<lparr>cu_type = snd out, cu_acked = 0\<rparr>
           | None \<Rightarrow> Some \<lparr>cu_type = snd out, cu_acked = 0\<rparr>)
     else map_of cs k)"
  by (auto simp: sync_one_def split: option.split)

lemma fold_sync_lookup:
  assumes "distinct (map fst outs)"
  shows "map_of (fold sync_one outs cs) k =
    (case map_of outs k of
       None \<Rightarrow> map_of cs k
     | Some t \<Rightarrow> map_of (sync_one (k, t) cs) k)"
  using assms
proof (induction outs arbitrary: cs)
  case (Cons out outs)
  then have "map_of outs (fst out) = None" by (simp add: map_of_eq_None_iff)
  with Cons show ?case by (cases out) (auto simp: sync_one_lookup split: option.split)
qed simp

lemma SyncOutputs_lookup:
  assumes "distinct (map fst enabled)" "cursors_ok s"
  shows "map_of (st_cursors (SyncOutputs enabled s)) k =
    (case map_of enabled k of
       None \<Rightarrow> None
     | Some t \<Rightarrow>
         (case map_of (st_cursors s) k of
            None \<Rightarrow> Some \<lparr>cu_type = t, cu_acked = 0\<rparr>
          | Some c \<Rightarrow> Some (if cu_type c = t then c else \<lparr>cu_type = t, cu_acked = 0\<rparr>)))"
proof -
  let ?cs = "fold sync_one enabled (st_cursors s)"
  have "table_ok ?cs"
  proof -
    have "table_ok (st_cursors s)" using assms(2) by (simp add: cursors_ok_def)
    then show ?thesis
      by (induction enabled arbitrary: s rule: rev_induct)
        (auto simp: sync_one_def split: option.split)
  qed
  then have "map_of (st_cursors (SyncOutputs enabled s)) k =
      (if k \<in> set (map fst enabled) then map_of ?cs k else None)"
    by (auto simp: SyncOutputs_def map_of_filter_table split: option.split)
  moreover have "k \<in> set (map fst enabled) \<longleftrightarrow> map_of enabled k \<noteq> None"
    by (simp add: map_of_eq_None_iff)
  ultimately show ?thesis
    using fold_sync_lookup [OF assms(1), of "st_cursors s" k]
    by (simp add: sync_one_lookup split: option.split)
qed

text \<open>
  after \<open>SyncOutputs\<close> with distinct IDs there is a cursor for exactly the enabled outputs; it
  keeps its position when the plugin type is the one it was created for and starts at 0 otherwise.
\<close>

theorem sync_outputs_exact:
  assumes "distinct (map fst enabled)" "cursors_ok s"
  shows "map_of (st_cursors (SyncOutputs enabled s)) k =
    (case map_of enabled k of
       None \<Rightarrow> None
     | Some t \<Rightarrow>
         (case map_of (st_cursors s) k of
            None \<Rightarrow> Some \<lparr>cu_type = t, cu_acked = 0\<rparr>
          | Some c \<Rightarrow> Some (if cu_type c = t then c else \<lparr>cu_type = t, cu_acked = 0\<rparr>)))"
  using assms by (rule SyncOutputs_lookup)

theorem sync_outputs_exact_witness:
  "map_of (st_cursors (SyncOutputs [(''mqtt'', ''smtp'')] sample_store)) ''mqtt'' =
    Some \<lparr>cu_type = ''smtp'', cu_acked = 0\<rparr>"
proof -
  have "cursors_ok sample_store" using sample_store_inv by (simp add: store_inv_def)
  moreover have "distinct (map fst [(''mqtt'', ''smtp'')])" by simp
  ultimately show ?thesis
    using sync_outputs_exact [of "[(''mqtt'', ''smtp'')]" sample_store "''mqtt''"]
    by (simp add: sample_store_def)
qed

section \<open>A source ID that is not UTF-8\<close>

definition bad_utf8_event :: hazard_event where
  "bad_utf8_event = sample_event\<lparr>he_source_id := [CHR 0xFF]\<rparr>"

lemma json_coerce_ff: "json_coerce [CHR 0xFF] = replacement_rune"
  by (simp add: json_coerce.simps rune_width_def codes_def seq_len_def)

lemma json_coerce_imgw: "json_coerce ''imgw'' = ''imgw''"
  by (rule json_coerce_valid) (rule valid_utf8_ascii, simp)

lemma bad_utf8_fields:
  "he_source bad_utf8_event = ''imgw''" "he_source_id bad_utf8_event = [CHR 0xFF]"
  "he_status bad_utf8_event = StatusActive" "he_key bad_utf8_event = ''imgw:'' @ [CHR 0xFF]"
  by (simp_all add: bad_utf8_event_def sample_event_def he_key_def event_key_def)

lemma coerce_bad_key:
  "same_body e bad_utf8_event \<Longrightarrow> he_key (coerce_event e) = ''imgw:'' @ replacement_rune"
  by (simp add: same_body_def bad_utf8_fields he_key_def event_key_def coerce_event_def
      json_coerce_ff json_coerce_imgw)

lemma poll_limit_pos: "0 < poll_limit limit"
  by (simp add: poll_limit_def)

lemma replacement_neq_ff: "replacement_rune \<noteq> [CHR 0xFF]"
  by (simp add: replacement_rune_def)

lemma ChangeTypeOf_new: "ChangeTypeOf ''new'' = Some ChangeNew"
  and change_text_new: "change_text ChangeNew = ''new''"
  by (simp_all add: ChangeTypeOf_def)

lemma key_mismatch_poll:
  assumes "Ingest now bad_utf8_event fp empty_store = Inr (s, oc, ch)"
  shows "PollChanges s out limit =
    Inl (KeyMismatch 1 (''imgw:'' @ replacement_rune) (''imgw:'' @ [CHR 0xFF]))"
  using assms
proof (cases rule: Ingest_InrE)
  case (first e' ct)
  let ?row = "\<lparr>ch_id = 1, ch_type = ''new'', ch_key = ''imgw:'' @ [CHR 0xFF],
    ch_snapshot = SnapshotJson (coerce_event e'), ch_created_ms = unix_milli now\<rparr>"
  have k: "he_key (coerce_event e') = ''imgw:'' @ replacement_rune"
    using first(2) by (intro coerce_bad_key) simp
  have d: "decode_row ?row =
    Inl (KeyMismatch 1 (''imgw:'' @ replacement_rune) (''imgw:'' @ [CHR 0xFF]))"
    by (simp add: decode_row_def ChangeTypeOf_new decodeSnapshot_def k replacement_neq_ff)
  have "st_changes s = [?row]" "st_cursors s = []"
    using first(3,5) by (simp_all add: bad_utf8_fields empty_store_def change_text_new)
  then have p: "pending_rows s out = [?row]"
    by (simp add: pending_rows_def cursor_of_def)
  have "decode_rows [?row] = Inl (KeyMismatch 1 (''imgw:'' @ replacement_rune) (''imgw:'' @ [CHR 0xFF]))"
    unfolding decode_rows.simps(2) d by simp
  moreover obtain n where "poll_limit limit = Suc n"
    by (metis not0_implies_Suc poll_limit_pos less_irrefl)
  ultimately show ?thesis unfolding PollChanges_def p by (simp only: take_Suc_Cons take_Nil)
qed (simp_all add: empty_store_def)

text \<open>
  an event whose source ID is not valid UTF-8 passes normalization and validation, is
  journaled, and then makes every poll of every output fail, because the journaled key and the
  key of the snapshot that JSON returns differ.
\<close>

theorem invalid_utf8_id_blocks_outputs:
  "ingestible (normalize bad_utf8_event) \<and>
   (\<exists>s oc ch. Ingest 2000000 bad_utf8_event ''f'' empty_store = Inr (s, oc, ch) \<and>
     (\<forall>out limit. \<exists>err. PollChanges s out limit = Inl err))"
proof -
  have "trim_space [CHR 0xFF] = [CHR 0xFF]"
  proof -
    have "match_len space_runes [CHR 0xFF] = 0" "match_len (map rev space_runes) [CHR 0xFF] = 0"
      by code_simp+
    then show ?thesis by (simp add: trim_space_def trim_by_id)
  qed
  then have "ingestible (normalize bad_utf8_event)"
    by (simp add: ingestible_def validate_def normalize_def bad_utf8_event_def sample_event_def
        ValidateSource_def ValidateSourceID_def trim_space_plain plain_char_def byte_range_def
        slug_match_def slug_char_def is_lower_ascii_def is_digit_def maxSourceIDLength_def
        field_limits_def severity_valid_def severity_of_def maxAreas_def maxAreaLen_def
        check_coord_def to_lower_def lower_char_def is_upper_ascii_def normalizeAreas_def Let_def)
  moreover have "\<exists>s oc ch. Ingest 2000000 bad_utf8_event ''f'' empty_store = Inr (s, oc, ch)"
    by (simp add: store_simps Let_def empty_store_def marshal_snapshot_def opt_time_ok_def
        json_time_ok_def bad_utf8_event_def sample_event_def)
  ultimately show ?thesis using key_mismatch_poll by blast
qed

end
