(* ===== verification/Ingest_Pipeline.thy ===== *)
theory Ingest_Pipeline
  imports Store_Journal
begin

text \<open>
  The ingestion pipeline (\<open>internal/ingest/ingest.go\<close>): normalization, time stamps, validation,
  fingerprint and the store's transaction, and the results reported to the source.
\<close>

datatype ingest_result = ResultNew | ResultDuplicate | ResultUpdated | ResultCancelled

definition result_text :: "ingest_result \<Rightarrow> string" where
  "result_text r =
     (case r of ResultNew \<Rightarrow> ''new'' | ResultDuplicate \<Rightarrow> ''duplicate''
      | ResultUpdated \<Rightarrow> ''updated'' | ResultCancelled \<Rightarrow> ''cancelled'')"

record event_change =
  ec_id :: int
  ec_type :: change_type
  ec_event :: hazard_event

datatype pipeline_error = InvalidEvent event_error | StoreFailed store_error

text \<open>The store and the two metric counters of the ingester.\<close>

record ingester =
  ig_store :: store
  ig_ingested :: nat
  ig_duplicates :: nat

definition storageChangeToEventChange :: "change \<Rightarrow> event_change" where
  "storageChangeToEventChange c = \<lparr>ec_id = c_id c, ec_type = c_type c, ec_event = c_event c\<rparr>"

text \<open>The zero \<open>EventChange\<close> of a duplicate is \<open>None\<close>.\<close>

definition changeToEventChange :: "change option \<Rightarrow> event_change option" where
  "changeToEventChange c = map_option storageChangeToEventChange c"

text \<open>The event as it is handed to validation: \<open>now\<close> is read once for each of the two stamps.\<close>

definition stamped :: "time \<Rightarrow> time \<Rightarrow> hazard_event \<Rightarrow> hazard_event" where
  "stamped now1 now2 event =
     (let e = normalize event;
          e1 = (if he_received_at e = zero_time then e\<lparr>he_received_at := now1\<rparr> else e)
      in e1\<lparr>he_updated_at := now2\<rparr>)"

definition IngestEvent ::
    "(fingerprint_payload \<Rightarrow> string) \<Rightarrow> time \<Rightarrow> time \<Rightarrow> time \<Rightarrow> hazard_event \<Rightarrow> ingester \<Rightarrow>
      pipeline_error + ingester \<times> ingest_result \<times> event_change option" where
  "IngestEvent digest now1 now2 storeNow event g =
     (let e = stamped now1 now2 event in
      case validate e of
        Some err \<Rightarrow> Inl (InvalidEvent err)
      | None \<Rightarrow>
          (case Ingest storeNow e (Fingerprint digest e) (ig_store g) of
             Inl err \<Rightarrow> Inl (StoreFailed err)
           | Inr (s, oc, ch) \<Rightarrow>
               let g' = g\<lparr>ig_store := s\<rparr>;
                   counted = g'\<lparr>ig_ingested := ig_ingested g + 1\<rparr>
               in (case oc of
                     OutcomeNew \<Rightarrow> Inr (counted, ResultNew, changeToEventChange ch)
                   | OutcomeDuplicate \<Rightarrow>
                       Inr (g'\<lparr>ig_duplicates := ig_duplicates g + 1\<rparr>, ResultDuplicate, None)
                   | OutcomeUpdated \<Rightarrow> Inr (counted, ResultUpdated, changeToEventChange ch)
                   | OutcomeCancelled \<Rightarrow> Inr (counted, ResultCancelled, changeToEventChange ch))))"

definition ExpireEvents ::
    "time \<Rightarrow> ingester \<Rightarrow> store_error + ingester \<times> event_change list" where
  "ExpireEvents now g =
     (case Expire now (ig_store g) of
        Inl err \<Rightarrow> Inl err
      | Inr (s, cs) \<Rightarrow> Inr (g\<lparr>ig_store := s\<rparr>, map storageChangeToEventChange cs))"

section \<open>Properties\<close>

lemma stamped_body [simp]:
  "he_key (stamped a b e) = he_key (normalize e)"
  "he_status (stamped a b e) = he_status (normalize e)"
  "he_expires_at (stamped a b e) = he_expires_at (normalize e)"
  "payload_of (stamped a b e) = payload_of (normalize e)"
  "key_utf8 (stamped a b e) = key_utf8 (normalize e)"
  by (simp_all add: stamped_def Let_def he_key_def payload_of_def key_utf8_def)

lemma validate_times [simp]:
  "validate (e\<lparr>he_updated_at := u\<rparr>) = validate e"
  "validate (e\<lparr>he_received_at := r\<rparr>) = validate e"
  by (cases e; simp only: validate_def field_limits_def hazard_event.select_convs
      hazard_event.update_convs)+

lemma validate_stamped: "validate (stamped a b e) = validate (normalize e)"
  by (simp add: stamped_def Let_def)

lemma normalize_status: "he_status (normalize e) \<noteq> StatusEmpty"
  by (simp add: normalize_def Let_def)

lemma accepted_ingestible: "validate (stamped a b e) = None \<Longrightarrow> ingestible (stamped a b e)"
  by (simp add: ingestible_def normalize_status)

lemma IngestEvent_Inr:
  assumes "IngestEvent digest now1 now2 storeNow event g = Inr (g', res, ch)"
  obtains oc ch0 where
    "Ingest storeNow (stamped now1 now2 event) (Fingerprint digest (stamped now1 now2 event))
      (ig_store g) = Inr (ig_store g', oc, ch0)"
    "validate (stamped now1 now2 event) = None"
    "res = (case oc of OutcomeNew \<Rightarrow> ResultNew | OutcomeDuplicate \<Rightarrow> ResultDuplicate
      | OutcomeUpdated \<Rightarrow> ResultUpdated | OutcomeCancelled \<Rightarrow> ResultCancelled)"
    "ch = (if oc = OutcomeDuplicate then None else changeToEventChange ch0)"
    "ig_ingested g' + ig_duplicates g' = ig_ingested g + ig_duplicates g + 1"
  using assms
  by (auto simp: IngestEvent_def Let_def split: option.splits sum.splits outcome.splits)

lemma Ingest_change_iff:
  assumes "Ingest now e fp s = Inr (s', oc, ch)"
  shows "(ch = None \<longleftrightarrow> oc = OutcomeDuplicate) \<and>
    st_seq s' = st_seq s + (if oc = OutcomeDuplicate then 0 else 1) \<and>
    (\<forall>c. ch = Some c \<longrightarrow> c_id c = st_seq s')"
  using assms by (cases rule: Ingest_InrE) auto

text \<open>
  every accepted event leaves the store in good order and journals exactly one change,
  reported with its journal ID, unless it is a duplicate, which journals and reports none; each
  accepted event is counted once.
\<close>

theorem pipeline_sound:
  assumes "IngestEvent digest now1 now2 storeNow event g = Inr (g', res, ch)" "store_inv (ig_store g)"
  shows "store_inv (ig_store g') \<and>
    (ch = None \<longleftrightarrow> res = ResultDuplicate) \<and>
    st_seq (ig_store g') = st_seq (ig_store g) + (if res = ResultDuplicate then 0 else 1) \<and>
    (\<forall>c. ch = Some c \<longrightarrow> ec_id c = st_seq (ig_store g')) \<and>
    ig_ingested g' + ig_duplicates g' = ig_ingested g + ig_duplicates g + 1"
  using assms(1)
proof (rule IngestEvent_Inr)
  fix oc ch0
  assume i: "Ingest storeNow (stamped now1 now2 event)
      (Fingerprint digest (stamped now1 now2 event)) (ig_store g) = Inr (ig_store g', oc, ch0)"
    and v: "validate (stamped now1 now2 event) = None"
    and res: "res = (case oc of OutcomeNew \<Rightarrow> ResultNew | OutcomeDuplicate \<Rightarrow> ResultDuplicate
      | OutcomeUpdated \<Rightarrow> ResultUpdated | OutcomeCancelled \<Rightarrow> ResultCancelled)"
    and ch: "ch = (if oc = OutcomeDuplicate then None else changeToEventChange ch0)"
    and n: "ig_ingested g' + ig_duplicates g' = ig_ingested g + ig_duplicates g + 1"
  have "res = ResultDuplicate \<longleftrightarrow> oc = OutcomeDuplicate" by (simp add: res split: outcome.split)
  then show ?thesis
    using Ingest_inv [OF i accepted_ingestible [OF v] assms(2)] Ingest_change_iff [OF i] ch n
    by (auto simp: changeToEventChange_def storageChangeToEventChange_def)
qed

text \<open>What a first ingestion leaves behind makes the second one a duplicate.\<close>

lemma Ingest_leaves:
  assumes "Ingest now e fp s = Inr (s', oc, ch)" "he_status e \<in> {StatusActive, StatusCancelled}"
  shows "\<exists>r. map_of (st_events s') (he_key e) = Some r \<and> er_fingerprint r = fp \<and>
    (he_status (er_event r) = he_status e \<or>
     he_status e = StatusActive \<and> he_status (er_event r) = StatusExpired \<and>
       \<not> expiryLive e (unix_milli now))"
  using assms(1)
proof (cases rule: Ingest_InrE)
  case (first e' ct)
  then show ?thesis by (simp add: insert_row_def)
next
  case (duplicate r)
  then show ?thesis
    using assms(2) by (auto simp: is_duplicate_def touch_row_def Let_def split: if_splits)
next
  case (changed r e' ct)
  then show ?thesis
    using assms(2) by (auto simp: updated_event_def update_row_def Let_def split: if_splits)
qed

lemma expiryLive_mono: "\<not> expiryLive e m \<Longrightarrow> m \<le> n \<Longrightarrow> \<not> expiryLive e n"
  by (auto simp: expiryLive_def split: option.splits)

text \<open>
  ingestion is idempotent: repeating an event that was just accepted, at any later time and
  whatever its expiry, is a duplicate that journals nothing.
\<close>

theorem reingest_is_duplicate:
  assumes "IngestEvent digest a1 a2 now event g = Inr (g', res, ch)" "now \<le> later"
  shows "\<exists>g''. IngestEvent digest b1 b2 later event g' = Inr (g'', ResultDuplicate, None) \<and>
    st_changes (ig_store g'') = st_changes (ig_store g')"
proof -
  from assms(1) obtain oc ch0 where
    i: "Ingest now (stamped a1 a2 event) (Fingerprint digest (stamped a1 a2 event)) (ig_store g) =
      Inr (ig_store g', oc, ch0)" "validate (stamped a1 a2 event) = None"
    by (rule IngestEvent_Inr)
  let ?e = "stamped b1 b2 event"
  have v: "validate ?e = None" using i(2) by (simp add: validate_stamped)
  have st: "he_status (stamped a1 a2 event) \<in> {StatusActive, StatusCancelled}"
    using ingestible_status [OF accepted_ingestible [OF i(2)]] .
  have fp: "Fingerprint digest (stamped a1 a2 event) = Fingerprint digest ?e"
    by (simp add: Fingerprint_def)
  from Ingest_leaves [OF i(1) st] obtain r where
    r: "map_of (st_events (ig_store g')) (he_key ?e) = Some r"
      "er_fingerprint r = Fingerprint digest ?e"
      "he_status (er_event r) = he_status ?e \<or> he_status ?e = StatusActive \<and>
        he_status (er_event r) = StatusExpired \<and> \<not> expiryLive ?e (unix_milli now)"
    by (auto simp: fp expiryLive_def)
  have "unix_milli now \<le> unix_milli later" using assms(2) by (rule unix_milli_mono)
  then have "is_duplicate r ?e (Fingerprint digest ?e) (unix_milli later)"
    using r(2,3) st expiryLive_mono by (auto simp: is_duplicate_def Let_def)
  then have "Ingest later ?e (Fingerprint digest ?e) (ig_store g') =
      Inr ((ig_store g')\<lparr>st_events := AList.update (he_key ?e) (touch_row r later) (st_events (ig_store g'))\<rparr>,
        OutcomeDuplicate, None)"
    using r(1) by (simp add: Ingest_def ingest_existing_def)
  then show ?thesis
    using v unfolding IngestEvent_def by (simp add: Let_def del: stamped_body)
qed

definition sample_ingester :: ingester where
  "sample_ingester = \<lparr>ig_store = empty_store, ig_ingested = 0, ig_duplicates = 0\<rparr>"

lemma sample_normalized: "normalize sample_event = sample_event"
  by (simp add: normalize_def sample_event_def trim_space_plain plain_char_def byte_range_def
      to_lower_def lower_char_def is_upper_ascii_def normalizeAreas_def dedupe_areas.simps
      drop_zero_time_def zero_time_def Let_def)

lemma sample_pipeline_ok:
  "\<exists>g' res ch. IngestEvent (\<lambda>_. ''f'') 1 1 1000000 sample_event sample_ingester = Inr (g', res, ch)"
proof -
  have "validate (stamped 1 1 sample_event) = None"
    by (simp add: validate_stamped sample_normalized sample_event_valid)
  moreover have "\<exists>s oc ch. Ingest 1000000 (stamped 1 1 sample_event) ''f'' empty_store = Inr (s, oc, ch)"
  proof -
    have e: "stamped 1 1 sample_event = sample_event\<lparr>he_updated_at := 1\<rparr>"
      by (simp add: stamped_def Let_def sample_normalized) (simp add: sample_event_def zero_time_def)
    show ?thesis
      unfolding e by (simp add: store_simps Let_def empty_store_def marshal_snapshot_def
          opt_time_ok_def json_time_ok_def sample_event_def)
  qed
  ultimately show ?thesis
    unfolding IngestEvent_def Fingerprint_def sample_ingester_def
    by (auto simp: Let_def split: outcome.split)
qed

theorem pipeline_sound_witness:
  "\<exists>g' res ch. IngestEvent (\<lambda>_. ''f'') 1 1 1000000 sample_event sample_ingester = Inr (g', res, ch) \<and>
    store_inv (ig_store g')"
proof -
  have "store_inv (ig_store sample_ingester)" by (simp add: sample_ingester_def store_inv_empty)
  with sample_pipeline_ok pipeline_sound show ?thesis by blast
qed

theorem reingest_is_duplicate_witness:
  "\<exists>g' res ch g''. IngestEvent (\<lambda>_. ''f'') 1 1 1000000 sample_event sample_ingester = Inr (g', res, ch) \<and>
    IngestEvent (\<lambda>_. ''f'') 2 2 9000000 sample_event g' = Inr (g'', ResultDuplicate, None)"
proof -
  obtain g' res ch where
    i: "IngestEvent (\<lambda>_. ''f'') 1 1 1000000 sample_event sample_ingester = Inr (g', res, ch)"
    using sample_pipeline_ok by blast
  from reingest_is_duplicate [OF i, of 9000000 2 2] i show ?thesis by auto
qed

end
