(* ===== verification/Plugin_Status.thy ===== *)
theory Plugin_Status
  imports Utf8
begin

text \<open>
  The runtime status of a plugin instance (\<open>internal/plugin/status.go\<close>): the counters and the
  health state that successes and failures drive, and the bounded error text.
\<close>

datatype plugin_kind = KindSource | KindOutput

datatype plugin_state =
  StateDisabled | StateStarting | StateRunning | StateDegraded | StateSuspended
| StateStopping | StateStopped

record plugin_status =
  ps_id :: string
  ps_type :: string
  ps_kind :: plugin_kind
  ps_state :: plugin_state
  ps_started_at :: time
  ps_last_success_at :: "time option"
  ps_last_error_at :: "time option"
  ps_last_error :: string
  ps_last_summary :: string
  ps_polls :: int
  ps_errors :: int
  ps_filtered :: int
  ps_consecutive_failures :: int
  ps_restart_count :: int

definition new_status_tracker :: "string \<Rightarrow> string \<Rightarrow> plugin_kind \<Rightarrow> plugin_status" where
  "new_status_tracker i kind kindValue =
     \<lparr> ps_id = i, ps_type = kind, ps_kind = kindValue, ps_state = StateStopped,
       ps_started_at = zero_time, ps_last_success_at = None, ps_last_error_at = None,
       ps_last_error = [], ps_last_summary = [], ps_polls = 0, ps_errors = 0, ps_filtered = 0,
       ps_consecutive_failures = 0, ps_restart_count = 0 \<rparr>"

definition set_state :: "plugin_state \<Rightarrow> plugin_status \<Rightarrow> plugin_status" where
  "set_state st t = t\<lparr>ps_state := st\<rparr>"

definition set_summary :: "string \<Rightarrow> plugin_status \<Rightarrow> plugin_status" where
  "set_summary summary t = t\<lparr>ps_last_summary := summary\<rparr>"

definition count_poll :: "plugin_status \<Rightarrow> plugin_status" where
  "count_poll t = t\<lparr>ps_polls := ps_polls t + 1\<rparr>"

definition count_poll_error :: "plugin_status \<Rightarrow> plugin_status" where
  "count_poll_error t = t\<lparr>ps_errors := ps_errors t + 1\<rparr>"

definition count_filtered :: "int \<Rightarrow> plugin_status \<Rightarrow> plugin_status" where
  "count_filtered n t = t\<lparr>ps_filtered := ps_filtered t + n\<rparr>"

definition mark_started :: "time \<Rightarrow> plugin_status \<Rightarrow> plugin_status" where
  "mark_started now t = t\<lparr>ps_started_at := now, ps_state := StateStarting\<rparr>"

definition tracker_success :: "time \<Rightarrow> plugin_status \<Rightarrow> plugin_status" where
  "tracker_success now t =
     t\<lparr>ps_consecutive_failures := 0, ps_last_success_at := Some now, ps_state := StateRunning\<rparr>"

definition maxStatusErrorBytes :: nat where
  "maxStatusErrorBytes = 2048"

definition truncation_marker :: string where
  "truncation_marker = '' [... truncated]''"

definition rune_start :: "char \<Rightarrow> bool" where
  "rune_start c \<longleftrightarrow> \<not> cont_byte (of_char c)"

text \<open>The loop that backs up to the start of a rune.\<close>

fun back_to_rune :: "string \<Rightarrow> nat \<Rightarrow> nat" where
  "back_to_rune s 0 = 0"
| "back_to_rune s (Suc n) = (if rune_start (s ! Suc n) then Suc n else back_to_rune s n)"

definition truncateStatusError :: "string \<Rightarrow> string" where
  "truncateStatusError s =
     (if length s \<le> maxStatusErrorBytes then s
      else take (back_to_rune s (maxStatusErrorBytes - length truncation_marker)) s
             @ truncation_marker)"

text \<open>\<open>failure\<close>: the new status and whether the threshold was reached.\<close>

definition tracker_failure ::
    "string \<Rightarrow> int \<Rightarrow> time \<Rightarrow> plugin_status \<Rightarrow> plugin_status \<times> bool" where
  "tracker_failure err threshold now t =
     (let t' = t\<lparr>ps_consecutive_failures := ps_consecutive_failures t + 1,
                 ps_last_error_at := Some now,
                 ps_last_error := truncateStatusError err\<rparr>
      in if threshold > 0 \<and> ps_consecutive_failures t' \<ge> threshold
         then (t'\<lparr>ps_state := StateSuspended\<rparr>, True)
         else (t'\<lparr>ps_state := StateDegraded\<rparr>, False))"

definition tracker_restart :: "plugin_status \<Rightarrow> plugin_status" where
  "tracker_restart t = t\<lparr>ps_restart_count := ps_restart_count t + 1\<rparr>"

section \<open>The registry\<close>

record status_registry =
  sr_trackers :: "(string \<times> plugin_status) list"
  sr_order :: "string list"

definition registry_add ::
    "string \<Rightarrow> string \<Rightarrow> plugin_kind \<Rightarrow> status_registry \<Rightarrow> status_registry" where
  "registry_add i kind kindValue r =
     \<lparr> sr_trackers = AList.update i (new_status_tracker i kind kindValue) (sr_trackers r),
       sr_order = sr_order r @ [i] \<rparr>"

definition registry_snapshot :: "status_registry \<Rightarrow> plugin_status list" where
  "registry_snapshot r = map (\<lambda>i. the (map_of (sr_trackers r) i)) (sr_order r)"

text \<open>Every ID in the order has a tracker, so the snapshot never reads a missing one.\<close>

definition registry_ok :: "status_registry \<Rightarrow> bool" where
  "registry_ok r \<longleftrightarrow> (\<forall>i\<in>set (sr_order r). map_of (sr_trackers r) i \<noteq> None)"

lemma registry_add_ok: "registry_ok r \<Longrightarrow> registry_ok (registry_add i kind kv r)"
  by (auto simp: registry_ok_def registry_add_def)

section \<open>The error text\<close>

lemma back_to_rune_le: "back_to_rune s n \<le> n"
  by (induction n) auto

lemma length_truncateStatusError: "length (truncateStatusError s) \<le> maxStatusErrorBytes"
proof (cases "length s \<le> maxStatusErrorBytes")
  case False
  have "back_to_rune s 2032 \<le> 2032" by (rule back_to_rune_le)
  with False show ?thesis
    by (simp add: truncateStatusError_def maxStatusErrorBytes_def truncation_marker_def)
qed (simp add: truncateStatusError_def)

lemma back_to_rune_start: "0 < back_to_rune s n \<Longrightarrow> rune_start (s ! back_to_rune s n)"
  by (induction n) (auto split: if_splits)

lemma second_ok_cont: "second_ok b0 b1 \<Longrightarrow> cont_byte b1"
  by (auto simp: second_ok_def cont_byte_def split: if_splits)

text \<open>Inside a rune every byte but the first is a continuation byte.\<close>

lemma rune_tail_cont:
  assumes "0 < i" "i < rune_width s"
  shows "\<not> rune_start (s ! i)"
proof (cases s)
  case Nil
  with assms show ?thesis by (simp add: rune_width_def codes_def)
next
  case (Cons c cs)
  let ?n = "seq_len (of_char c)"
  from assms Cons have n: "1 < ?n" and w: "rune_width s = ?n"
    by (auto simp: rune_width_def codes_def Let_def split: if_splits list.splits)
  obtain d ds where cs: "cs = d # ds" and d: "second_ok (of_char c) (of_char d)"
    and ds: "list_all cont_byte (take (?n - 2) (map of_char ds))" and l: "?n - 1 \<le> length cs"
    using assms Cons n
    by (cases cs) (auto simp: rune_width_def codes_def Let_def split: if_splits)
  show ?thesis
  proof (cases "i = 1")
    case True
    with Cons cs second_ok_cont [OF d] show ?thesis by (simp add: rune_start_def)
  next
    case False
    with assms have "s ! i = ds ! (i - 2)" "i - 2 < ?n - 2" using Cons cs w
      by (auto simp: nth_Cons' numeral_2_eq_2)
    with ds l cs show ?thesis by (auto simp: rune_start_def list_all_length)
  qed
qed

text \<open>A valid string cut in front of the start of a rune stays valid.\<close>

lemma valid_utf8_take:
  "valid_utf8 s \<Longrightarrow> n < length s \<Longrightarrow> n = 0 \<or> rune_start (s ! n) \<Longrightarrow> valid_utf8 (take n s)"
proof (induction s arbitrary: n rule: valid_utf8.induct)
  case (1 s)
  let ?w = "rune_width s"
  show ?case
  proof (cases "n = 0")
    case False
    with "1.prems" have ne: "s \<noteq> []" and st: "rune_start (s ! n)" by auto
    from "1.prems"(1) ne have w: "?w \<noteq> 0" "valid_utf8 (drop ?w s)"
      by (simp_all add: valid_utf8.simps [of s] split: if_splits)
    have le: "?w \<le> n" using rune_tail_cont [of n s] st False by force
    then have "drop ?w s ! (n - ?w) = s ! n" using "1.prems"(2) by simp
    then have "valid_utf8 (take (n - ?w) (drop ?w s))"
      using "1.IH" [OF ne w(1,2), of "n - ?w"] st "1.prems"(2) le by simp
    from valid_utf8_rune [OF w(1) this] have "valid_utf8 (take ?w s @ take (n - ?w) (drop ?w s))" .
    moreover have "take ?w s @ take (n - ?w) (drop ?w s) = take n s"
      using le by (metis le_add_diff_inverse take_add)
    ultimately show ?thesis by simp
  qed (simp add: valid_utf8.simps)
qed

text \<open>
  the recorded error text never exceeds 2048 bytes, and truncating a valid UTF-8 text
  yields valid UTF-8: the cut never splits a rune.
\<close>

theorem truncate_bounded_valid:
  "length (truncateStatusError s) \<le> 2048 \<and>
    (valid_utf8 s \<longrightarrow> valid_utf8 (truncateStatusError s))"
proof -
  have "valid_utf8 (truncateStatusError s)" if v: "valid_utf8 s"
  proof (cases "length s \<le> maxStatusErrorBytes")
    case False
    let ?m = "maxStatusErrorBytes - length truncation_marker"
    have "valid_utf8 (take (back_to_rune s ?m) s)"
      using v back_to_rune_start [of s ?m] back_to_rune_le [of s ?m] False
      by (intro valid_utf8_take) (auto simp: maxStatusErrorBytes_def truncation_marker_def)
    moreover have "valid_utf8 truncation_marker"
      by (rule valid_utf8_ascii) (simp add: truncation_marker_def)
    ultimately show ?thesis
      using False by (simp add: truncateStatusError_def valid_utf8_append)
  qed (use v in \<open>simp add: truncateStatusError_def\<close>)
  then show ?thesis
    using length_truncateStatusError [of s] by (simp add: maxStatusErrorBytes_def)
qed

theorem truncate_bounded_valid_witness:
  "valid_utf8 ''ok'' \<and> length (truncateStatusError ''ok'') \<le> 2048 \<and>
    valid_utf8 (truncateStatusError ''ok'')"
proof -
  have "valid_utf8 ''ok''" by (rule valid_utf8_ascii) simp
  with truncate_bounded_valid [of "''ok''"] show ?thesis by blast
qed

end
