(* ===== verification/Source_Supervisor.thy ===== *)
theory Source_Supervisor
  imports Plugin_Status
begin

text \<open>
  The supervisor of one source plugin (\<open>internal/plugin/source_supervisor.go\<close>): the goroutine
  that runs the plugin, restarts it with bounded exponential backoff and stops with the
  application.  Each rule of \<open>sup_step\<close> is one branch of a \<open>select\<close> or of the loop body, so a
  sequence of rules is one interleaving of the plugin, the timers and the cancellation.
\<close>

section \<open>Backoff\<close>

definition defaultBackoffBase :: time where
  "defaultBackoffBase = 1000000000"

definition defaultBackoffMax :: time where
  "defaultBackoffMax = 60000000000"

text \<open>The loop of \<open>backoffDelay\<close>: at most \<open>n\<close> doublings, saturating at the maximum.\<close>

fun backoff_loop :: "time \<Rightarrow> nat \<Rightarrow> time \<Rightarrow> time" where
  "backoff_loop mx 0 delay = delay"
| "backoff_loop mx (Suc n) delay =
     (if delay < mx
      then backoff_loop mx n (if delay > mx div 2 then mx else delay * 2)
      else delay)"

definition backoffDelay :: "time \<Rightarrow> time \<Rightarrow> int \<Rightarrow> time" where
  "backoffDelay base mx attempt = backoff_loop mx (nat attempt) base"

lemma backoff_loop_eq: "0 < d \<Longrightarrow> d \<le> mx \<Longrightarrow> backoff_loop mx n d = min mx (d * 2 ^ n)"
proof (induction n arbitrary: d)
  case (Suc n)
  have one: "(1::int) \<le> 2 ^ n" by simp
  have big: "d * (2 * 2 ^ n) \<ge> mx" if "mx \<le> 2 * d"
  proof -
    have "2 * d * 1 \<le> 2 * d * 2 ^ n" using one Suc.prems(1) by (intro mult_left_mono) auto
    then show ?thesis using that by (simp add: algebra_simps)
  qed
  consider "d = mx" | "d < mx" "mx div 2 < d" | "d < mx" "d \<le> mx div 2" using Suc.prems by linarith
  then show ?case
  proof cases
    case 1
    with big Suc.prems show ?thesis by (simp add: min_def)
  next
    case 2
    have "mx \<le> mx * 2 ^ n" using one Suc.prems mult_left_mono [of 1 "2 ^ n" mx] by simp
    with 2 Suc.IH [of mx] Suc.prems big show ?thesis by (simp add: min_def)
  next
    case 3
    then show ?thesis using Suc.IH [of "d * 2"] Suc.prems by (simp add: algebra_simps)
  qed
qed (simp add: min_def)

section \<open>The loop\<close>

text \<open>\<open>runResult\<close>: the error of \<open>Run\<close>, or a recovered panic (\<open>panicStack\<close> is set).\<close>

datatype run_result = RunOk | RunError string | RunPanic string

datatype sup_phase =
  Launching | Running | Exited | BackingOff time | Finished

record supervisor =
  ss_restart :: bool
  ss_base :: time
  ss_max :: time
  ss_phase :: sup_phase
  ss_attempt :: int
  ss_reset_armed :: bool
  ss_cancelled :: bool
  ss_invocations :: nat
  ss_tracker :: plugin_status

definition recordExit :: "time \<Rightarrow> run_result \<Rightarrow> plugin_status \<Rightarrow> plugin_status" where
  "recordExit now res t =
     (case res of
        RunPanic v \<Rightarrow> fst (tracker_failure (''plugin panic: '' @ v) 0 now t)
      | RunError err \<Rightarrow> fst (tracker_failure err 0 now t)
      | RunOk \<Rightarrow> tracker_success now t)"

definition new_supervisor :: "time \<Rightarrow> bool \<Rightarrow> plugin_status \<Rightarrow> supervisor" where
  "new_supervisor now rst t =
     \<lparr> ss_restart = rst, ss_base = defaultBackoffBase, ss_max = defaultBackoffMax,
       ss_phase = Launching, ss_attempt = 0,
       ss_reset_armed = False, ss_cancelled = False, ss_invocations = 0,
       ss_tracker = mark_started now t \<rparr>"

text \<open>
  The top of the loop: the plugin goroutine is launched and counts as running.  With restart
  enabled the timer of \<open>waitForExit\<close> is armed; it fires at most once per run.
\<close>

definition launch :: "time \<Rightarrow> supervisor \<Rightarrow> supervisor" where
  "launch now s =
     s\<lparr> ss_phase := Running, ss_reset_armed := ss_restart s,
        ss_invocations := ss_invocations s + 1,
        ss_tracker := tracker_success now (set_state StateRunning
          (set_state StateStarting (ss_tracker s))) \<rparr>"

definition sup_shutdown :: "supervisor \<Rightarrow> supervisor" where
  "sup_shutdown s =
     s\<lparr>ss_phase := Finished,
       ss_tracker := set_state StateStopped (set_state StateStopping (ss_tracker s))\<rparr>"

text \<open>The plugin returned: the result is recorded; without restart the supervisor is done.\<close>

definition plugin_exit :: "time \<Rightarrow> run_result \<Rightarrow> supervisor \<Rightarrow> supervisor" where
  "plugin_exit now res s =
     s\<lparr>ss_phase := (if ss_restart s then Exited else Finished),
       ss_tracker := set_state StateStopped (recordExit now res (ss_tracker s))\<rparr>"

definition sup_stop :: "supervisor \<Rightarrow> supervisor" where
  "sup_stop s = s\<lparr>ss_phase := Finished, ss_tracker := set_state StateStopped (ss_tracker s)\<rparr>"

text \<open>\<open>restart\<close> up to its wait, and the healthy stretch that resets the backoff.\<close>

definition begin_backoff :: "supervisor \<Rightarrow> supervisor" where
  "begin_backoff s =
     s\<lparr>ss_phase := BackingOff (backoffDelay (ss_base s) (ss_max s) (ss_attempt s)),
       ss_attempt := ss_attempt s + 1, ss_tracker := tracker_restart (ss_tracker s)\<rparr>"

definition healthy_stretch :: "time \<Rightarrow> supervisor \<Rightarrow> supervisor" where
  "healthy_stretch now s =
     s\<lparr>ss_attempt := 0, ss_reset_armed := False, ss_tracker := tracker_success now (ss_tracker s)\<rparr>"

text \<open>
  \<open>select\<close> chooses among the ready channels at random, so a rule only needs its own channel to
  be ready: the backoff timer may win although the context is cancelled too.
\<close>

inductive sup_step :: "supervisor \<Rightarrow> supervisor \<Rightarrow> bool" where
  cancel: "sup_step s (s\<lparr>ss_cancelled := True\<rparr>)"
| launch: "ss_phase s = Launching \<Longrightarrow> sup_step s (launch now s)"
| run_done: "ss_phase s = Running \<Longrightarrow> sup_step s (plugin_exit now res s)"
| run_cancelled: "ss_phase s = Running \<Longrightarrow> ss_cancelled s \<Longrightarrow> sup_step s (sup_shutdown s)"
| run_healthy: "ss_phase s = Running \<Longrightarrow> ss_reset_armed s \<Longrightarrow> sup_step s (healthy_stretch now s)"
| exit_cancelled: "ss_phase s = Exited \<Longrightarrow> ss_cancelled s \<Longrightarrow> sup_step s (sup_stop s)"
| exit_backoff: "ss_phase s = Exited \<Longrightarrow> \<not> ss_cancelled s \<Longrightarrow> sup_step s (begin_backoff s)"
| backoff_over: "ss_phase s = BackingOff d \<Longrightarrow> sup_step s (s\<lparr>ss_phase := Launching\<rparr>)"
| backoff_cancelled: "ss_phase s = BackingOff d \<Longrightarrow> ss_cancelled s \<Longrightarrow> sup_step s (sup_stop s)"

inductive sup_steps :: "supervisor \<Rightarrow> supervisor \<Rightarrow> bool" where
  none: "sup_steps s s"
| more: "sup_steps s s' \<Longrightarrow> sup_step s' s'' \<Longrightarrow> sup_steps s s''"

lemmas sup_defs = launch_def plugin_exit_def sup_shutdown_def healthy_stretch_def sup_stop_def
  begin_backoff_def

text \<open>The configuration and the shape of the state that every step keeps.\<close>

definition sup_ok :: "supervisor \<Rightarrow> bool" where
  "sup_ok s \<longleftrightarrow>
     0 < ss_base s \<and> ss_base s \<le> ss_max s \<and> 0 \<le> ss_attempt s \<and>
     (\<forall>d. ss_phase s = BackingOff d \<longrightarrow>
        0 < ss_attempt s \<and> d = backoffDelay (ss_base s) (ss_max s) (ss_attempt s - 1)) \<and>
     (ss_phase s = Exited \<longrightarrow> ss_restart s)"

lemma sup_step_ok: "sup_step s s' \<Longrightarrow> sup_ok s \<Longrightarrow> sup_ok s'"
  by (induction rule: sup_step.induct) (auto simp: sup_ok_def sup_defs)

lemma sup_steps_ok: "sup_steps s s' \<Longrightarrow> sup_ok s \<Longrightarrow> sup_ok s'"
  by (induction rule: sup_steps.induct) (auto intro: sup_step_ok)

lemma new_supervisor_ok: "sup_ok (new_supervisor now rst t)"
  by (simp add: sup_ok_def new_supervisor_def defaultBackoffBase_def defaultBackoffMax_def)

text \<open>How often \<open>Run\<close> can still be invoked once the context is cancelled.\<close>

definition runs_left :: "supervisor \<Rightarrow> nat" where
  "runs_left s = (case ss_phase s of Launching \<Rightarrow> 1 | BackingOff d \<Rightarrow> 1 | _ \<Rightarrow> 0)"

lemma sup_step_cancelled:
  "sup_step s s' \<Longrightarrow> ss_cancelled s \<Longrightarrow>
    ss_cancelled s' \<and> ss_invocations s' + runs_left s' \<le> ss_invocations s + runs_left s"
  by (induction rule: sup_step.induct)
    (auto simp: runs_left_def sup_defs split: sup_phase.splits)

lemma sup_steps_cancelled:
  "sup_steps s s' \<Longrightarrow> ss_cancelled s \<Longrightarrow>
    ss_cancelled s' \<and> ss_invocations s' + runs_left s' \<le> ss_invocations s + runs_left s"
  by (induction rule: sup_steps.induct) (use sup_step_cancelled in force)+

text \<open>
  the delay before restart number \<open>n\<close> (from 0) is the base delay doubled \<open>n\<close> times, cut
  at the maximum: it is positive, never exceeds the maximum and never decreases.
\<close>

theorem backoff_exact:
  assumes "0 < base" "base \<le> mx"
  shows "backoffDelay base mx n = min mx (base * 2 ^ nat n) \<and>
    base \<le> backoffDelay base mx n \<and> backoffDelay base mx n \<le> mx \<and>
    (\<forall>m\<ge>n. backoffDelay base mx n \<le> backoffDelay base mx m)"
proof -
  have eq: "backoffDelay base mx k = min mx (base * 2 ^ nat k)" for k
    using backoff_loop_eq assms by (simp add: backoffDelay_def)
  have le: "base \<le> base * 2 ^ k" for k :: nat
    using assms(1) mult_left_mono [of 1 "2 ^ k" base] by simp
  have "backoffDelay base mx n \<le> backoffDelay base mx m" if "n \<le> m" for m
  proof -
    have "base * 2 ^ nat n \<le> base * 2 ^ nat m"
      using that assms(1) by (intro mult_left_mono power_increasing) (auto simp: nat_mono)
    then show ?thesis by (simp add: eq min_def)
  qed
  then show ?thesis using le [of "nat n"] assms(2) by (simp add: eq)
qed

theorem backoff_exact_witness:
  "backoffDelay defaultBackoffBase defaultBackoffMax 3 = 8000000000 \<and>
   backoffDelay defaultBackoffBase defaultBackoffMax 1000 \<le> defaultBackoffMax"
  using backoff_exact [of defaultBackoffBase defaultBackoffMax 3]
    backoff_exact [of defaultBackoffBase defaultBackoffMax 1000]
  by (simp add: defaultBackoffBase_def defaultBackoffMax_def)

text \<open>
  once the root context is cancelled, the plugin is invoked at most once more, and not at
  all when it was running or had just exited.
\<close>

theorem no_runs_after_cancel:
  assumes "sup_steps s s'" "ss_cancelled s"
  shows "ss_invocations s' \<le> ss_invocations s + 1 \<and>
    (ss_phase s \<in> {Running, Exited, Finished} \<longrightarrow> ss_invocations s' = ss_invocations s)"
proof -
  have "ss_invocations s \<le> ss_invocations s'"
    using assms(1) by (induction rule: sup_steps.induct)
      (auto elim!: sup_step.cases simp: sup_defs)
  moreover have "runs_left s \<le> 1" by (simp add: runs_left_def split: sup_phase.split)
  moreover have "ss_phase s \<in> {Running, Exited, Finished} \<Longrightarrow> runs_left s = 0"
    by (auto simp: runs_left_def)
  ultimately show ?thesis using sup_steps_cancelled [OF assms] by linarith
qed

definition sample_supervisor :: supervisor where
  "sample_supervisor =
     new_supervisor 0 True (new_status_tracker ''imgw'' ''imgw'' KindSource)"

theorem no_runs_after_cancel_witness:
  "\<exists>s. ss_phase s = Running \<and> ss_cancelled s \<and> ss_invocations (sup_shutdown s) = ss_invocations s"
proof -
  let ?s = "(launch 0 sample_supervisor)\<lparr>ss_cancelled := True\<rparr>"
  have p: "ss_phase ?s = Running" "ss_cancelled ?s" by (simp_all add: launch_def)
  then have "sup_steps ?s (sup_shutdown ?s)"
    by (meson sup_step.run_cancelled sup_steps.intros)
  from no_runs_after_cancel [OF this] p show ?thesis by (intro exI [of _ ?s]) simp
qed

text \<open>
  the one invocation a cancellation leaves room for is real: when the backoff timer and the
  cancellation are both ready, the wait may report the timer, and the loop then runs the plugin
  again under a context that is already cancelled.
\<close>

theorem run_after_cancel_possible:
  "\<exists>s s'. sup_steps (new_supervisor now True t) s \<and> ss_cancelled s \<and>
     sup_steps s s' \<and> ss_invocations s' = ss_invocations s + 1"
proof -
  let ?a = "launch now (new_supervisor now True t)"
  let ?b = "begin_backoff (plugin_exit now (RunError ''down'') ?a)"
  let ?c = "?b\<lparr>ss_cancelled := True\<rparr>"
  let ?d = "launch now (?c\<lparr>ss_phase := Launching\<rparr>)"
  have "sup_steps (new_supervisor now True t) ?a"
    by (intro sup_steps.more [OF sup_steps.none] sup_step.launch) (simp add: new_supervisor_def)
  then have "sup_steps (new_supervisor now True t) (plugin_exit now (RunError ''down'') ?a)"
    by (rule sup_steps.more) (intro sup_step.run_done, simp add: launch_def)
  then have "sup_steps (new_supervisor now True t) ?b"
    by (rule sup_steps.more)
      (intro sup_step.exit_backoff, simp_all add: launch_def plugin_exit_def new_supervisor_def)
  then have "sup_steps (new_supervisor now True t) ?c"
    by (rule sup_steps.more) (rule sup_step.cancel)
  moreover have "sup_step ?c (?c\<lparr>ss_phase := Launching\<rparr>)"
    by (rule sup_step.backoff_over) (simp add: begin_backoff_def)
  then have "sup_steps ?c ?d"
    by (rule sup_steps.more [OF sup_steps.more [OF sup_steps.none]])
      (rule sup_step.launch, simp)
  ultimately show ?thesis
    by (intro exI [of _ ?c] exI [of _ ?d]) (simp add: launch_def)
qed

text \<open>Without restart the plugin runs at most once, whatever happens.\<close>

lemma no_restart_invocations:
  "sup_steps s s' \<Longrightarrow> \<not> ss_restart s \<Longrightarrow> sup_ok s \<Longrightarrow>
    (\<forall>d. ss_phase s \<noteq> BackingOff d) \<Longrightarrow>
    \<not> ss_restart s' \<and> (\<forall>d. ss_phase s' \<noteq> BackingOff d) \<and> ss_phase s' \<noteq> Exited \<and>
    ss_invocations s' + runs_left s' = ss_invocations s + runs_left s"
  by (induction rule: sup_steps.induct)
    (auto elim!: sup_step.cases simp: sup_defs sup_ok_def runs_left_def)

end
