(* ===== verification/Bounded_Contract.thy ===== *)
theory Bounded_Contract
  imports Prelude
begin

text \<open>
  Two interfaces the program uses again and again: a keyed table that refuses new keys at its
  capacity but always accepts a new value for a known key, and a FIFO queue that refuses an
  element instead of blocking.
\<close>

section \<open>Bounded tables\<close>

definition table_put :: "nat \<Rightarrow> 'k \<Rightarrow> 'v \<Rightarrow> ('k \<times> 'v) list \<Rightarrow> ('k \<times> 'v) list option" where
  "table_put cap k v m =
     (if map_of m k = None \<and> cap \<le> length m then None else Some (AList.update k v m))"

lemma length_update: "length (AList.update k v m) =
    (if map_of m k = None then Suc (length m) else length m)"
  by (induction m) auto

lemma table_put_Some: "table_put cap k v m = Some m' \<longleftrightarrow>
    (map_of m k \<noteq> None \<or> length m < cap) \<and> m' = AList.update k v m"
  by (auto simp: table_put_def)

locale bounded_table =
  fixes tab :: "'s \<Rightarrow> ('k \<times> 'v) list"
    and key :: "'i \<Rightarrow> 'k"
    and val :: "'i \<Rightarrow> 'v"
    and put :: "'i \<Rightarrow> 's \<Rightarrow> 's option"
    and cap :: nat
    and ready :: "'s \<Rightarrow> bool"
  assumes put_tab: "put x s = Some s' \<Longrightarrow> table_put cap (key x) (val x) (tab s) = Some (tab s')"
    and put_refused: "ready s \<Longrightarrow> put x s = None \<Longrightarrow> table_put cap (key x) (val x) (tab s) = None"
begin

definition fits :: "'s \<Rightarrow> bool" where
  "fits s \<longleftrightarrow> table_ok (tab s) \<and> length (tab s) \<le> cap"

text \<open>Every accepted write keeps the bound, and a write is only refused for a new key.\<close>

lemma put_fits: "fits s \<Longrightarrow> put x s = Some s' \<Longrightarrow> fits s'"
  by (drule put_tab)
    (auto simp: fits_def table_put_Some table_ok_def length_update distinct_update)

lemma put_lookup: "put x s = Some s' \<Longrightarrow> map_of (tab s') = (map_of (tab s))(key x \<mapsto> val x)"
  by (drule put_tab) (auto simp: table_put_Some update_conv')

lemma put_known: "ready s \<Longrightarrow> map_of (tab s) (key x) = Some w \<Longrightarrow> \<exists>s'. put x s = Some s'"
  by (cases "put x s") (auto dest: put_refused simp: table_put_def)

lemma put_None_iff: "ready s \<Longrightarrow> fits s \<Longrightarrow> put x s = None \<longleftrightarrow>
    map_of (tab s) (key x) = None \<and> length (tab s) = cap"
  using put_refused [of s x] put_tab [of x s]
  by (cases "put x s") (auto simp: fits_def table_put_def split: if_splits)

text \<open>Offer a list of items one after the other, ignoring refusals.\<close>

definition offer :: "'i \<Rightarrow> 's \<Rightarrow> 's" where
  "offer x s = (case put x s of None \<Rightarrow> s | Some s' \<Rightarrow> s')"

lemma offers_fit: "fits s \<Longrightarrow> fits (fold offer xs s)"
  by (induction xs arbitrary: s) (auto simp: offer_def put_fits split: option.split)

end

section \<open>Bounded queues\<close>

locale bounded_queue =
  fixes items :: "'s \<Rightarrow> 'a list"
    and enq :: "'a \<Rightarrow> 's \<Rightarrow> 's \<times> bool"
    and deq :: "'s \<Rightarrow> ('a \<times> 's) option"
    and cap :: "'s \<Rightarrow> nat"
  assumes enq_accepted: "enq x s = (s', True) \<Longrightarrow>
      items s' = items s @ [x] \<and> cap s' = cap s \<and> length (items s) < cap s"
    and enq_refused: "enq x s = (s', False) \<Longrightarrow> items s' = items s \<and> cap s' = cap s"
    and deq_items: "deq s = Some (x, s') \<Longrightarrow> items s = x # items s' \<and> cap s' = cap s"
    and deq_None: "deq s = None \<longleftrightarrow> items s = []"
begin

text \<open>A run of offers and takes: the final state, what was accepted and what was taken.\<close>

fun play :: "'a option list \<Rightarrow> 's \<Rightarrow> 's \<times> 'a list \<times> 'a list" where
  "play [] s = (s, [], [])"
| "play (Some x # ops) s =
     (case enq x s of (s1, ok) \<Rightarrow>
       (case play ops s1 of (s2, ins, outs) \<Rightarrow> (s2, (if ok then x # ins else ins), outs)))"
| "play (None # ops) s =
     (case deq s of
        None \<Rightarrow> play ops s
      | Some (x, s1) \<Rightarrow> (case play ops s1 of (s2, ins, outs) \<Rightarrow> (s2, ins, x # outs)))"

text \<open>First in, first out, with nothing lost or invented, and the capacity never exceeded.\<close>

definition good :: "'s \<Rightarrow> bool" where
  "good s \<longleftrightarrow> length (items s) \<le> cap s"

lemma enq_good: "enq x s = (s', ok) \<Longrightarrow> good s \<Longrightarrow>
    good s' \<and> cap s' = cap s \<and> items s' = items s @ (if ok then [x] else [])"
  by (cases ok) (auto simp: good_def dest: enq_accepted enq_refused)

lemma deq_good: "deq s = Some (x, s') \<Longrightarrow> good s \<Longrightarrow>
    good s' \<and> cap s' = cap s \<and> items s = x # items s'"
  using deq_items [of s x s'] unfolding good_def by (metis Suc_leD length_Cons)

lemma play_fifo:
  assumes "play ops s = (s', ins, outs)" "good s"
  shows "items s @ ins = outs @ items s' \<and> good s' \<and> cap s' = cap s"
  using assms
proof (induction ops arbitrary: s ins outs)
  case (Cons op ops)
  show ?case
  proof (cases op)
    case None
    show ?thesis
    proof (cases "deq s")
      case (Some p)
      obtain x s1 where d: "deq s = Some (x, s1)" using Some by (cases p) simp
      obtain i o' where p: "play ops s1 = (s', i, o')" "ins = i" "outs = x # o'"
        using Cons.prems(1) by (auto simp: None d split: prod.splits)
      from Cons.IH [OF p(1)] deq_good [OF d Cons.prems(2)] p(2,3) show ?thesis by force
    qed (use Cons None in auto)
  next
    case (Some x)
    obtain s1 ok where e: "enq x s = (s1, ok)" by fastforce
    obtain i where p: "play ops s1 = (s', i, outs)" "ins = (if ok then x # i else i)"
      using Cons.prems(1) by (auto simp: Some e split: prod.splits)
    from Cons.IH [OF p(1)] enq_good [OF e Cons.prems(2)] p(2) show ?thesis
      by (auto split: if_splits)
  qed
qed simp

end

end
