(* ===== verification/Messages.thy ===== *)
theory Messages
  imports Prelude
begin

text \<open>
  Latest-state information messages (\<open>internal/core/information.go\<close>).  Whether a payload is JSON
  is decided by \<open>encoding/json\<close> and is a parameter.
\<close>

record info_message =
  im_source :: string
  im_producer :: string
  im_key :: string
  im_kind :: string
  im_generated :: time
  im_valid_until :: "time option"
  im_payload :: string

datatype info_error =
  BadInfoSource | BadInfoProducer | BadInfoKey | BadInfoKind | GeneratedZero | ValidUntilBefore
| PayloadTooLarge | PayloadNotJson

definition MaxInformationPayloadBytes :: nat where
  "MaxInformationPayloadBytes = 262144"

definition validate_info :: "(string \<Rightarrow> bool) \<Rightarrow> info_message \<Rightarrow> info_error option" where
  "validate_info json_valid m =
     (if \<not> slug_match (im_source m) then Some BadInfoSource
      else if \<not> slug_match (im_producer m) then Some BadInfoProducer
      else if \<not> slug_match (im_key m) then Some BadInfoKey
      else if \<not> slug_match (im_kind m) then Some BadInfoKind
      else if im_generated m = zero_time then Some GeneratedZero
      else if (case im_valid_until m of
                 None \<Rightarrow> False | Some t \<Rightarrow> \<not> t > im_generated m \<or> t = zero_time)
        then Some ValidUntilBefore
      else if length (im_payload m) > MaxInformationPayloadBytes then Some PayloadTooLarge
      else if \<not> json_valid (im_payload m) then Some PayloadNotJson
      else None)"

text \<open>\<open>infoKey\<close> of \<open>internal/plugin/output_worker.go\<close>: the coalescing key.\<close>

definition infoKey :: "info_message \<Rightarrow> string" where
  "infoKey m =
     im_source m @ CHR 0x00 # im_producer m @ CHR 0x00 # im_key m @ CHR 0x00 # im_kind m"

lemma slug_match_no_nul: "slug_match s \<Longrightarrow> CHR 0x00 \<notin> set s"
proof
  assume "slug_match s" "CHR 0x00 \<in> set s"
  then have "slug_char (CHR 0x00)" by (rule slug_match_chars)
  then show False
    by (simp add: slug_char_def is_lower_ascii_def is_digit_def byte_range_def)
qed

text \<open>
  two valid messages share a queue slot exactly when source, producer, key and kind are
  equal, so a snapshot never replaces one of another information object.
\<close>

theorem info_key_identifies:
  assumes "validate_info jv m = None" "validate_info jv n = None"
  shows "infoKey m = infoKey n \<longleftrightarrow>
    im_source m = im_source n \<and> im_producer m = im_producer n \<and> im_key m = im_key n \<and>
    im_kind m = im_kind n"
proof -
  have "slug_match (im_source m)" "slug_match (im_producer m)" "slug_match (im_key m)"
    "slug_match (im_source n)" "slug_match (im_producer n)" "slug_match (im_key n)"
    using assms by (auto simp: validate_info_def split: if_splits)
  then show ?thesis
    unfolding infoKey_def by (simp add: append_sep_eq slug_match_no_nul)
qed

definition sample_info :: info_message where
  "sample_info =
     \<lparr> im_source = ''openmeteo'', im_producer = ''weather-home'', im_key = ''home'',
       im_kind = ''weather'', im_generated = 1, im_valid_until = None, im_payload = ''{}'' \<rparr>"

lemma sample_info_valid:
  "validate_info (\<lambda>s. s = ''{}'') sample_info = None"
  "validate_info (\<lambda>s. s = ''{}'') (sample_info\<lparr>im_key := ''cabin''\<rparr>) = None"
  by (simp_all add: validate_info_def sample_info_def slug_match_def slug_char_def
      is_lower_ascii_def is_digit_def byte_range_def zero_time_def
      MaxInformationPayloadBytes_def)

theorem info_key_identifies_witness:
  "infoKey sample_info \<noteq> infoKey (sample_info\<lparr>im_key := ''cabin''\<rparr>)"
  using info_key_identifies [OF sample_info_valid] by (simp add: sample_info_def)

end
