(* ===== verification/Output_Worker.thy ===== *)
theory Output_Worker
  imports Store_Journal Plugin_Status Messages Bounded_Contract
begin

text \<open>
  The worker of one output plugin (\<open>internal/plugin/output_worker.go\<close>): journal delivery with
  suspension and recovery probes, the coalescing information queue, the status heartbeat and
  the seeding of the active view at startup.  What a plugin call does is an argument: it returns
  in time, returns an error (a recovered panic is one) or violates its timeout.
\<close>

section \<open>The worker\<close>

record output_worker =
  ow_id :: string
  ow_threshold :: int
  ow_recovery_interval :: time
  ow_suspended :: bool
  ow_next_probe_at :: time
  ow_status_disabled :: bool
  ow_info_capable :: bool
  ow_info_pending :: "(string \<times> info_message) list"
  ow_info_notify :: bool
  ow_info_disabled :: bool
  ow_tracker :: plugin_status

definition pollBatchSize :: int where "pollBatchSize = 32"
definition maxInfoPending :: nat where "maxInfoPending = 128"
definition activeSyncPageSize :: int where "activeSyncPageSize = 256"
definition defaultRecoveryInterval :: time where "defaultRecoveryInterval = 30000000000"

definition newOutputWorker :: "string \<Rightarrow> int \<Rightarrow> bool \<Rightarrow> plugin_status \<Rightarrow> output_worker" where
  "newOutputWorker i threshold info_publisher tracker =
     \<lparr> ow_id = i, ow_threshold = threshold, ow_recovery_interval = defaultRecoveryInterval,
       ow_suspended = False, ow_next_probe_at = zero_time, ow_status_disabled = False,
       ow_info_capable = info_publisher, ow_info_pending = [], ow_info_notify = False,
       ow_info_disabled = False, ow_tracker = tracker \<rparr>"

datatype call_result = CallOk | CallError string | CallTimeout

text \<open>Whether the database carries out a statement; an error leaves it unchanged.\<close>

datatype db_call = DbOk | DbFails string

datatype worker_error =
  PollJournal poll_error | PollIo string | HandlerError string | TimedOut
| AckChange int ack_error | AckIo int string

section \<open>Suspension\<close>

definition setSuspended :: "time \<Rightarrow> bool \<Rightarrow> output_worker \<Rightarrow> output_worker" where
  "setSuspended now v w =
     (let w' = w\<lparr>ow_suspended := v\<rparr> in
      if v then w'\<lparr>ow_next_probe_at := now + ow_recovery_interval w\<rparr> else w')"

text \<open>\<open>probeDue\<close>: a due probe reschedules the next one.\<close>

definition probeDue :: "time \<Rightarrow> output_worker \<Rightarrow> output_worker \<times> bool" where
  "probeDue now w =
     (if now < ow_next_probe_at w then (w, False)
      else (w\<lparr>ow_next_probe_at := now + ow_recovery_interval w\<rparr>, True))"

text \<open>The text of an error is whatever \<open>fmt\<close> makes of it.\<close>

definition onFailure ::
    "(worker_error \<Rightarrow> string) \<Rightarrow> worker_error \<Rightarrow> time \<Rightarrow> output_worker \<Rightarrow> output_worker" where
  "onFailure show_err err now w =
     (let (t, suspended) = tracker_failure (show_err err) (ow_threshold w) now (ow_tracker w);
          w' = w\<lparr>ow_tracker := t\<rparr>
      in if suspended \<and> \<not> ow_suspended w' then setSuspended now True w' else w')"

definition onSuccess :: "time \<Rightarrow> output_worker \<Rightarrow> output_worker" where
  "onSuccess now w =
     (let w' = w\<lparr>ow_tracker := tracker_success now (ow_tracker w)\<rparr> in
      if ow_suspended w then setSuspended now False w' else w')"

section \<open>Delivery\<close>

text \<open>
  \<open>deliver\<close>: the handler runs first; only a success in time is acknowledged.  The result says
  whether the next change of the batch may be delivered.
\<close>

definition deliver ::
    "(worker_error \<Rightarrow> string) \<Rightarrow> call_result \<Rightarrow> db_call \<Rightarrow> time \<Rightarrow> change \<Rightarrow>
      output_worker \<Rightarrow> store \<Rightarrow> output_worker \<times> store \<times> bool" where
  "deliver show_err call db now c w s =
     (case call of
        CallTimeout \<Rightarrow> (onFailure show_err TimedOut now w, s, False)
      | CallError e \<Rightarrow> (onFailure show_err (HandlerError e) now w, s, False)
      | CallOk \<Rightarrow>
          (case db of
             DbFails e \<Rightarrow> (onFailure show_err (AckIo (c_id c) e) now w, s, False)
           | DbOk \<Rightarrow>
               (case AckChanges s (ow_id w) (c_id c) of
                  Inl e \<Rightarrow> (onFailure show_err (AckChange (c_id c) e) now w, s, False)
                | Inr s' \<Rightarrow> (onSuccess now w, s', True))))"

text \<open>What happens at one call: the result, the acknowledgement's database and the clock.\<close>

type_synonym call_script = "change \<Rightarrow> call_result \<times> db_call \<times> time"

text \<open>The delivery loop; the last component collects the changes that were handed to the plugin.\<close>

fun deliver_all ::
    "(worker_error \<Rightarrow> string) \<Rightarrow> call_script \<Rightarrow> change list \<Rightarrow> output_worker \<Rightarrow> store \<Rightarrow>
      output_worker \<times> store \<times> change list" where
  "deliver_all show_err script [] w s = (w, s, [])"
| "deliver_all show_err script (c # cs) w s =
     (case script c of (call, db, now) \<Rightarrow>
       (case deliver show_err call db now c w s of (w', s', go_on) \<Rightarrow>
          if \<not> go_on then (w', s', [c])
          else (case deliver_all show_err script cs w' s' of (w'', s'', called) \<Rightarrow>
                  (w'', s'', c # called))))"

definition poll_gate :: "time \<Rightarrow> output_worker \<Rightarrow> output_worker \<times> bool" where
  "poll_gate now w = (if ow_suspended w then probeDue now w else (w, True))"

definition pollDeliveries ::
    "(worker_error \<Rightarrow> string) \<Rightarrow> db_call \<Rightarrow> time \<Rightarrow> call_script \<Rightarrow> output_worker \<Rightarrow> store \<Rightarrow>
      output_worker \<times> store \<times> change list" where
  "pollDeliveries show_err db now script w s =
     (case poll_gate now w of (w1, go_on) \<Rightarrow>
        if \<not> go_on then (w1, s, [])
        else (case db of
                DbFails e \<Rightarrow> (onFailure show_err (PollIo e) now w1, s, [])
              | DbOk \<Rightarrow>
                  (case PollChanges s (ow_id w1) pollBatchSize of
                     Inl e \<Rightarrow> (onFailure show_err (PollJournal e) now w1, s, [])
                   | Inr cs \<Rightarrow> deliver_all show_err script cs w1 s)))"

section \<open>Information messages\<close>

datatype enqueue_error = InfoUnsupported | InfoDisabled | InfoQueueFull

definition enqueueInfo :: "info_message \<Rightarrow> output_worker \<Rightarrow> enqueue_error + output_worker" where
  "enqueueInfo m w =
     (if \<not> ow_info_capable w then Inl InfoUnsupported
      else if ow_info_disabled w then Inl InfoDisabled
      else if map_of (ow_info_pending w) (infoKey m) = None \<and>
              length (ow_info_pending w) \<ge> maxInfoPending then Inl InfoQueueFull
      else Inr (w\<lparr>ow_info_pending := AList.update (infoKey m) m (ow_info_pending w),
                  ow_info_notify := True\<rparr>))"

text \<open>
  One wakeup of \<open>deliverPendingInfo\<close>: \<open>pick\<close> is the entry that the iteration over the map
  yields first.  The last component is the message handed to the plugin.
\<close>

definition deliverPendingInfo ::
    "nat \<Rightarrow> call_result \<Rightarrow> output_worker \<Rightarrow> output_worker \<times> info_message option" where
  "deliverPendingInfo pick call w =
     (let w0 = w\<lparr>ow_info_notify := False\<rparr> in
      if ow_info_disabled w0 then (w0, None)
      else if ow_info_pending w0 = [] then (w0, None)
      else
        let (k, m) = ow_info_pending w0 ! (pick mod length (ow_info_pending w0));
            w1 = w0\<lparr>ow_info_pending := AList.delete k (ow_info_pending w0)\<rparr>
        in if \<not> ow_info_capable w1 then (w1, None)
           else (case call of
                   CallTimeout \<Rightarrow> (w1\<lparr>ow_info_disabled := True\<rparr>, Some m)
                 | _ \<Rightarrow> (w1\<lparr>ow_info_notify := (ow_info_pending w1 \<noteq> [])\<rparr>, Some m)))"

section \<open>Status heartbeat\<close>

text \<open>\<open>publishStatus\<close>: the flag says whether the callback was started.\<close>

definition publishStatus :: "bool \<Rightarrow> call_result \<Rightarrow> output_worker \<Rightarrow> output_worker \<times> bool" where
  "publishStatus has_health call w =
     (if \<not> has_health then (w, False)
      else (case call of
              CallTimeout \<Rightarrow> (w\<lparr>ow_status_disabled := True\<rparr>, True)
            | _ \<Rightarrow> (w, True)))"

text \<open>One status turn of the loop: never for a worker whose status publishing is disabled.\<close>

definition status_turn :: "bool \<Rightarrow> call_result \<Rightarrow> output_worker \<Rightarrow> output_worker \<times> bool" where
  "status_turn has_health call w =
     (if ow_status_disabled w then (w, False) else publishStatus has_health call w)"

section \<open>Seeding\<close>

text \<open>The seed calls of one page, up to and including one that violates its timeout.\<close>

fun seed_page :: "(hazard_event \<Rightarrow> call_result) \<Rightarrow> hazard_event list \<Rightarrow> hazard_event list \<times> bool"
  where
  "seed_page seeder [] = ([], False)"
| "seed_page seeder (e # es) =
     (if seeder e = CallTimeout then ([e], True)
      else (case seed_page seeder es of (called, disabled) \<Rightarrow> (e # called, disabled)))"

text \<open>
  The page loop of \<open>seedActiveState\<close> over a database that does not change meanwhile, with fuel
  for the pages; \<open>None\<close> is fuel that ran out.  After a seed call that violates its timeout no
  further one is started.
\<close>

fun seed_pages ::
    "nat \<Rightarrow> (hazard_event \<Rightarrow> call_result) \<Rightarrow> store \<Rightarrow> string \<Rightarrow> hazard_event list option" where
  "seed_pages 0 seeder s after = None"
| "seed_pages (Suc fuel) seeder s after =
     (case ListActiveEvents s after activeSyncPageSize of
        None \<Rightarrow> Some []
      | Some events \<Rightarrow>
          (case seed_page seeder events of (called, disabled) \<Rightarrow>
             if int (length events) < activeSyncPageSize then Some called
             else if disabled then Some called
             else (case seed_pages fuel seeder s (he_key (last events)) of
                     None \<Rightarrow> None
                   | Some rest \<Rightarrow> Some (called @ rest))))"

definition seedActiveState :: "(hazard_event \<Rightarrow> call_result) \<Rightarrow> store \<Rightarrow> hazard_event list option"
  where
  "seedActiveState seeder s = seed_pages (Suc (length (st_events s))) seeder s []"

section \<open>Information queue\<close>

definition queue_info :: "info_message \<Rightarrow> output_worker \<Rightarrow> output_worker option" where
  "queue_info m w = (case enqueueInfo m w of Inl _ \<Rightarrow> None | Inr w' \<Rightarrow> Some w')"

definition info_ready :: "output_worker \<Rightarrow> bool" where
  "info_ready w \<longleftrightarrow> ow_info_capable w \<and> \<not> ow_info_disabled w"

interpretation iq: bounded_table ow_info_pending infoKey "\<lambda>m. m" queue_info maxInfoPending info_ready
  by unfold_locales
    (auto simp: queue_info_def enqueueInfo_def table_put_def info_ready_def split: if_splits)

lemma deliverPendingInfo_fits:
  "iq.fits w \<Longrightarrow> iq.fits (fst (deliverPendingInfo pick call w))"
  by (auto simp: deliverPendingInfo_def iq.fits_def Let_def table_ok_def distinct_delete
      length_delete_le le_trans [OF length_delete_le] split: prod.split call_result.split)

text \<open>
  the information queue never holds more than 128 entries and one per message identity; a
  message is refused only when the queue is full of other identities, an accepted message
  replaces the pending one of its identity, and messages for known identities are always
  accepted.
\<close>

theorem info_queue_bounded:
  assumes "info_ready w" "iq.fits w"
  shows "(case enqueueInfo m w of
      Inl e \<Rightarrow> e = InfoQueueFull \<and> map_of (ow_info_pending w) (infoKey m) = None \<and>
        length (ow_info_pending w) = 128
    | Inr w' \<Rightarrow> iq.fits w' \<and> info_ready w' \<and> ow_info_notify w' \<and>
        map_of (ow_info_pending w') = (map_of (ow_info_pending w))(infoKey m \<mapsto> m))"
proof (cases "enqueueInfo m w")
  case (Inl e)
  then have "queue_info m w = None" by (simp add: queue_info_def)
  with iq.put_None_iff [OF assms, of m] Inl assms(1) show ?thesis
    by (auto simp: maxInfoPending_def enqueueInfo_def info_ready_def split: if_splits)
next
  case (Inr w')
  then have "queue_info m w = Some w'" by (simp add: queue_info_def)
  with iq.put_fits [OF assms(2) this] iq.put_lookup [OF this] Inr assms(1) show ?thesis
    by (auto simp: enqueueInfo_def info_ready_def split: if_splits)
qed

definition sample_worker :: output_worker where
  "sample_worker =
     newOutputWorker ''mqtt'' 3 True (new_status_tracker ''mqtt'' ''mqtt'' KindOutput)"

lemma sample_worker_fits: "info_ready sample_worker" "iq.fits sample_worker"
  by (simp_all add: sample_worker_def newOutputWorker_def info_ready_def iq.fits_def table_ok_def)

theorem info_queue_bounded_witness:
  "\<exists>w'. enqueueInfo sample_info sample_worker = Inr w' \<and>
    map_of (ow_info_pending w') (infoKey sample_info) = Some sample_info"
proof -
  obtain w' where w': "enqueueInfo sample_info sample_worker = Inr w'"
    by (auto simp: enqueueInfo_def sample_worker_def newOutputWorker_def maxInfoPending_def)
  with info_queue_bounded [OF sample_worker_fits, of sample_info] show ?thesis by simp
qed

section \<open>Seeding the active view\<close>

definition active_rows :: "store \<Rightarrow> (string \<times> event_row) list" where
  "active_rows s = sort_key fst (filter (\<lambda>(k, r). row_active r) (st_events s))"

lemma active_rows_strict:
  assumes "table_ok (st_events s)"
  shows "sorted_wrt (<) (map fst (active_rows s))"
proof -
  have "distinct (map fst (filter (\<lambda>(k, r). row_active r) (st_events s)))"
    using assms by (simp add: table_ok_def distinct_map_filter)
  then have "distinct (map fst (active_rows s))"
    by (simp add: active_rows_def distinct_map)
  then show ?thesis by (simp add: active_rows_def strict_sorted_iff)
qed

lemma ListActive_rows:
  "ListActiveEvents s after limit =
    (if limit \<le> 0 then None
     else Some (map (scan_event \<circ> snd) (take (nat limit) (filter (\<lambda>x. after < fst x) (active_rows s)))))"
  by (simp add: ListActiveEvents_def active_rows_def filter_sort case_prod_beta')

lemma strict_drop:
  "sorted_wrt (<) (map f xs) \<Longrightarrow> n < length xs \<Longrightarrow>
    filter (\<lambda>x. f (xs ! n) < (f x :: 'k :: linorder)) xs = drop (Suc n) xs"
proof (induction xs arbitrary: n)
  case (Cons y ys)
  show ?case
  proof (cases n)
    case 0
    with Cons.prems show ?thesis by (simp add: filter_id_conv)
  next
    case (Suc m)
    with Cons.prems have "f y < f (ys ! m)" by simp
    with Cons Suc show ?thesis by (simp add: less_not_sym)
  qed
qed simp

lemma seed_page_ok: "\<forall>e\<in>set es. seeder e \<noteq> CallTimeout \<Longrightarrow> seed_page seeder es = (es, False)"
  by (induction es) auto

lemma scan_event_key [simp]: "he_key (scan_event r) = he_key (er_event r)"
  by (simp add: scan_event_def he_key_def)

lemma active_rows_key:
  "events_ok s \<Longrightarrow> x \<in> set (active_rows s) \<Longrightarrow> he_key (er_event (snd x)) = fst x"
  by (auto simp: active_rows_def events_ok_def row_ok_def)

lemma next_page:
  assumes "sorted_wrt (<) (map fst L)" "P = filter (\<lambda>x. after < fst x) L" "n < length P"
  shows "filter (\<lambda>x. fst (P ! n) < fst x) L = drop (Suc n) (P :: (string \<times> 'b) list)"
proof -
  have lt: "after < fst (P ! n)" using assms(2,3) nth_mem [of n P] by auto
  have "sorted_wrt (<) (map fst P)"
    using assms(1,2) by (simp add: sorted_wrt_map sorted_wrt_filter)
  from strict_drop [OF this assms(3)]
  have "filter (\<lambda>x. fst (P ! n) < fst x) P = drop (Suc n) P" .
  moreover have "filter (\<lambda>x. fst (P ! n) < fst x) P = filter (\<lambda>x. fst (P ! n) < fst x) L"
    using lt unfolding assms(2) filter_filter by (intro filter_cong) auto
  ultimately show ?thesis by simp
qed

lemma seed_pages_all:
  assumes ok: "events_ok s" and call: "\<forall>x\<in>set (active_rows s). seeder (scan_event (snd x)) \<noteq> CallTimeout"
  shows "length (filter (\<lambda>x. after < fst x) (active_rows s)) < fuel \<Longrightarrow>
    seed_pages fuel seeder s after =
      Some (map (scan_event \<circ> snd) (filter (\<lambda>x. after < fst x) (active_rows s)))"
proof (induction fuel arbitrary: after)
  case (Suc fuel)
  define P where "P = filter (\<lambda>x. after < fst x) (active_rows s)"
  define page where "page = map (scan_event \<circ> snd) (take 256 P)"
  have la: "ListActiveEvents s after activeSyncPageSize = Some page"
    by (simp add: ListActive_rows activeSyncPageSize_def P_def page_def)
  have "seed_page seeder page = (page, False)"
    using call by (intro seed_page_ok) (auto simp: page_def P_def dest!: in_set_takeD)
  moreover have len: "(int (length page) < 256) = (length P < 256)" by (auto simp: page_def)
  ultimately have unf: "seed_pages (Suc fuel) seeder s after =
     (if length P < 256 then Some page
      else (case seed_pages fuel seeder s (he_key (last page)) of
              None \<Rightarrow> None | Some rest \<Rightarrow> Some (page @ rest)))"
    using la len by (simp add: activeSyncPageSize_def)
  show ?case
  proof (cases "length P < 256")
    case False
    then have "take 256 P \<noteq> []" by auto
    then have "last page = scan_event (snd (P ! 255))"
      using False by (simp add: page_def last_map last_conv_nth)
    moreover have "P ! 255 \<in> set (active_rows s)"
      using False nth_mem [of 255 P] by (auto simp: P_def)
    ultimately have k: "he_key (last page) = fst (P ! 255)"
      using active_rows_key [OF ok] by simp
    have rest: "filter (\<lambda>x. fst (P ! 255) < fst x) (active_rows s) = drop 256 P"
      using next_page [OF active_rows_strict P_def, of 255] ok False by (simp add: events_ok_def)
    have "seed_pages fuel seeder s (fst (P ! 255)) = Some (map (scan_event \<circ> snd) (drop 256 P))"
      using Suc.IH [of "fst (P ! 255)"] Suc.prems False
      unfolding rest P_def [symmetric] by simp
    then show ?thesis
      using False k unfolding unf P_def [symmetric]
      by (simp add: page_def flip: map_append)
  qed (use unf in \<open>simp add: page_def P_def\<close>)
qed simp

text \<open>
  seeding at startup always ends and, when no seed call violates its timeout, hands every
  active event of the store to the plugin exactly once, in key order, however many pages the
  table takes.
\<close>

theorem seeding_complete:
  assumes "events_ok s" "\<forall>x\<in>set (active_rows s). seeder (scan_event (snd x)) \<noteq> CallTimeout"
  shows "seedActiveState seeder s = Some (map (scan_event \<circ> snd) (active_rows s)) \<and>
    sorted_wrt (<) (map fst (active_rows s)) \<and>
    set (active_rows s) = {(k, r) \<in> set (st_events s). row_active r}"
proof -
  have "[] < fst x" if "x \<in> set (active_rows s)" for x
    using active_rows_key [OF assms(1) that] by (cases "fst x") (auto simp: he_key_def event_key_def)
  then have "filter (\<lambda>x. [] < fst x) (active_rows s) = active_rows s"
    by (simp add: filter_id_conv)
  moreover have "length (active_rows s) \<le> length (st_events s)"
    by (simp add: active_rows_def)
  ultimately have "seedActiveState seeder s = Some (map (scan_event \<circ> snd) (active_rows s))"
    using seed_pages_all [OF assms, of "[]" "Suc (length (st_events s))"]
    by (simp only: seedActiveState_def less_Suc_eq_le simp_thms)
  moreover have "set (active_rows s) = {(k, r) \<in> set (st_events s). row_active r}"
    by (auto simp: active_rows_def)
  ultimately show ?thesis using active_rows_strict assms(1) by (simp add: events_ok_def)
qed

theorem seeding_complete_witness:
  "seedActiveState (\<lambda>_. CallOk) sample_store =
    Some (map (scan_event \<circ> snd) (active_rows sample_store))"
  using seeding_complete [of sample_store "\<lambda>_. CallOk"] sample_store_inv
  by (simp add: store_inv_def)

section \<open>Suspension\<close>

lemmas worker_defs [worker_simps] =
  onFailure_def onSuccess_def setSuspended_def probeDue_def tracker_failure_def
  tracker_success_def poll_gate_def Let_def

text \<open>A poll of a suspended worker before its probe is due does nothing at all.\<close>

lemma suspended_poll_idle:
  "ow_suspended w \<Longrightarrow> now < ow_next_probe_at w \<Longrightarrow>
    pollDeliveries show_err db now script w s = (w, s, [])"
  by (simp add: pollDeliveries_def worker_simps)

lemma onFailure_sel [simp]:
  "ow_id (onFailure f e now w) = ow_id w"
  "ow_threshold (onFailure f e now w) = ow_threshold w"
  "ow_recovery_interval (onFailure f e now w) = ow_recovery_interval w"
  "ps_consecutive_failures (ow_tracker (onFailure f e now w)) =
    ps_consecutive_failures (ow_tracker w) + 1"
  "ow_suspended (onFailure f e now w) \<longleftrightarrow> ow_suspended w \<or>
    (0 < ow_threshold w \<and> ow_threshold w \<le> ps_consecutive_failures (ow_tracker w) + 1)"
  by (auto simp: worker_simps)

lemma onSuccess_sel [simp]:
  "ow_id (onSuccess now w) = ow_id w"
  "ow_threshold (onSuccess now w) = ow_threshold w"
  "ow_suspended (onSuccess now w) = False"
  "ps_consecutive_failures (ow_tracker (onSuccess now w)) = 0"
  "ps_state (ow_tracker (onSuccess now w)) = StateRunning"
  by (auto simp: worker_simps)

text \<open>
  the circuit breaker.  Failing deliveries in a row suspend a running worker exactly when
  their number reaches a positive threshold; a suspended worker polls nothing and calls nothing
  before the probe time that the suspension set; and one successful delivery clears the
  suspension and the counter.
\<close>

theorem suspension_exact:
  assumes "\<not> ow_suspended w" "ps_consecutive_failures (ow_tracker w) = 0" "0 < ow_threshold w"
  shows "(ow_suspended (fold (\<lambda>(e, t). onFailure f e t) fs w) \<longleftrightarrow>
      ow_threshold w \<le> int (length fs)) \<and>
    (ow_suspended v \<and> now < ow_next_probe_at v \<longrightarrow>
      pollDeliveries f db now script v s = (v, s, [])) \<and>
    \<not> ow_suspended (onSuccess now v) \<and>
    ps_consecutive_failures (ow_tracker (onSuccess now v)) = 0"
proof -
  have gen: "(ow_suspended (fold (\<lambda>(e, t). onFailure f e t) fs w) \<longleftrightarrow>
      ow_suspended w \<or> fs \<noteq> [] \<and>
        ow_threshold w \<le> ps_consecutive_failures (ow_tracker w) + int (length fs))"
    if "0 < ow_threshold w" for w
    using that by (induction fs arbitrary: w) auto
  from gen [OF assms(3)] assms have
    "ow_suspended (fold (\<lambda>(e, t). onFailure f e t) fs w) \<longleftrightarrow> ow_threshold w \<le> int (length fs)"
    by (cases fs) auto
  then show ?thesis by (simp add: suspended_poll_idle)
qed

theorem suspension_exact_witness:
  "\<not> ow_suspended (fold (\<lambda>(e, t). onFailure (\<lambda>_. []) e t) (replicate 2 (TimedOut, 0)) sample_worker) \<and>
   ow_suspended (fold (\<lambda>(e, t). onFailure (\<lambda>_. []) e t) (replicate 3 (TimedOut, 0)) sample_worker)"
proof -
  have w: "\<not> ow_suspended sample_worker" "ps_consecutive_failures (ow_tracker sample_worker) = 0"
    "0 < ow_threshold sample_worker" "ow_threshold sample_worker = 3"
    by (simp_all add: sample_worker_def newOutputWorker_def new_status_tracker_def)
  show ?thesis
    using suspension_exact [OF w(1-3), of "\<lambda>_. []" "replicate 2 (TimedOut, 0)"]
      suspension_exact [OF w(1-3), of "\<lambda>_. []" "replicate 3 (TimedOut, 0)"] w(4) by simp
qed

end
