(* ===== verification/Delivery_System.thy ===== *)
theory Delivery_System
  imports Output_Worker
begin

text \<open>
  One output worker running beside everything else that writes the store: ingestion, expiry,
  the acknowledgements of the other outputs, both cleanups, and restarts of the process with
  \<open>SyncOutputs\<close>.  A step of the system is one transaction or one plugin call, so a batch in
  flight is interleaved with all of them.
\<close>

section \<open>The system\<close>

text \<open>What the other goroutines do to the store, one transaction at a time.\<close>

inductive env_step :: "string \<Rightarrow> store \<Rightarrow> store \<Rightarrow> bool" for out :: string where
  ingest: "Ingest now e fp s = Inr (s', oc, ch) \<Longrightarrow> ingestible e \<Longrightarrow> env_step out s s'"
| expire: "Expire now s = Inr (s', cs) \<Longrightarrow> env_step out s s'"
| ack: "AckChanges s other i = Inr s' \<Longrightarrow> other \<noteq> out \<Longrightarrow> env_step out s s'"
| cleanup_journal: "env_step out s (cleanup_changes t s)"
| cleanup_state: "env_step out s (fst (CleanupEvents t s))"

text \<open>
  \<open>sy_handled\<close> records the IDs of the changes whose \<open>Handle\<close> call returned success in time, in
  the order of the calls and across restarts.
\<close>

record system =
  sy_store :: store
  sy_worker :: output_worker
  sy_batch :: "change list"
  sy_handled :: "int list"

inductive sys_step :: "(worker_error \<Rightarrow> string) \<Rightarrow> string \<Rightarrow> string \<Rightarrow> system \<Rightarrow> system \<Rightarrow> bool"
  for show_err :: "worker_error \<Rightarrow> string" and out :: string and ptype :: string where
  env: "env_step out (sy_store y) s' \<Longrightarrow> sys_step show_err out ptype y (y\<lparr>sy_store := s'\<rparr>)"
| poll_idle: "sy_batch y = [] \<Longrightarrow> poll_gate now (sy_worker y) = (w, False) \<Longrightarrow>
    sys_step show_err out ptype y (y\<lparr>sy_worker := w\<rparr>)"
| poll_io: "sy_batch y = [] \<Longrightarrow> poll_gate now (sy_worker y) = (w, True) \<Longrightarrow>
    sys_step show_err out ptype y (y\<lparr>sy_worker := onFailure show_err (PollIo e) now w\<rparr>)"
| poll_error: "sy_batch y = [] \<Longrightarrow> poll_gate now (sy_worker y) = (w, True) \<Longrightarrow>
    PollChanges (sy_store y) (ow_id w) pollBatchSize = Inl err \<Longrightarrow>
    sys_step show_err out ptype y (y\<lparr>sy_worker := onFailure show_err (PollJournal err) now w\<rparr>)"
| poll: "sy_batch y = [] \<Longrightarrow> poll_gate now (sy_worker y) = (w, True) \<Longrightarrow>
    PollChanges (sy_store y) (ow_id w) pollBatchSize = Inr cs \<Longrightarrow>
    sys_step show_err out ptype y (y\<lparr>sy_worker := w, sy_batch := cs\<rparr>)"
| deliver: "sy_batch y = c # cs \<Longrightarrow>
    deliver show_err call db now c (sy_worker y) (sy_store y) = (w, s', go_on) \<Longrightarrow>
    sys_step show_err out ptype y
      (y\<lparr>sy_worker := w, sy_store := s', sy_batch := (if go_on then cs else []),
         sy_handled := sy_handled y @ (if call = CallOk then [c_id c] else [])\<rparr>)"
| restart: "distinct (map fst enabled) \<Longrightarrow> map_of enabled out = Some ptype \<Longrightarrow>
    sys_step show_err out ptype y
      (y\<lparr>sy_store := SyncOutputs enabled (sy_store y),
         sy_worker := newOutputWorker out threshold info tracker, sy_batch := []\<rparr>)"

inductive sys_steps :: "(worker_error \<Rightarrow> string) \<Rightarrow> string \<Rightarrow> string \<Rightarrow> system \<Rightarrow> system \<Rightarrow> bool"
  for show_err :: "worker_error \<Rightarrow> string" and out :: string and ptype :: string where
  none: "sys_steps show_err out ptype y y"
| more: "sys_steps show_err out ptype y y' \<Longrightarrow> sys_step show_err out ptype y' y'' \<Longrightarrow>
    sys_steps show_err out ptype y y''"

section \<open>The journal as the worker sees it\<close>

text \<open>The pending IDs of an output are the unbroken range above its cursor.\<close>

definition unbroken :: "string \<Rightarrow> store \<Rightarrow> bool" where
  "unbroken out s \<longleftrightarrow>
     map ch_id (pending_rows s out) = [cursor_of s out + 1..st_seq s]"

definition cursor_typed :: "string \<Rightarrow> string \<Rightarrow> store \<Rightarrow> bool" where
  "cursor_typed out ptype s \<longleftrightarrow> (\<exists>c. map_of (st_cursors s) out = Some c \<and> cu_type c = ptype)"

lemma cursor_typed_has: "cursor_typed out ptype s \<Longrightarrow> has_cursor s out"
  by (auto simp: cursor_typed_def has_cursor_def)

text \<open>A transaction that only appends journal rows with the next IDs.\<close>

definition appends :: "store \<Rightarrow> store \<Rightarrow> bool" where
  "appends s s' \<longleftrightarrow> st_cursors s' = st_cursors s \<and> st_seq s \<le> st_seq s' \<and>
     (\<exists>new. st_changes s' = st_changes s @ new \<and> map ch_id new = [st_seq s + 1..st_seq s'])"

lemma appends_refl: "st_cursors s' = st_cursors s \<Longrightarrow> st_seq s' = st_seq s \<Longrightarrow>
    st_changes s' = st_changes s \<Longrightarrow> appends s s'"
  by (simp add: appends_def)

lemma upto_append: "a \<le> b + 1 \<Longrightarrow> b \<le> c \<Longrightarrow> [a..b] @ [b + 1..c] = [a..c]"
proof (induction "nat (b + 1 - a)" arbitrary: a)
  case (Suc n)
  then show ?case by (subst (1 3) upto.simps) auto
qed auto

lemma appends_trans: "appends s t \<Longrightarrow> appends t u \<Longrightarrow> appends s u"
  by (auto simp: appends_def upto_append)

lemma Ingest_appends: "Ingest now e fp s = Inr (s', oc, ch) \<Longrightarrow> appends s s'"
  by (erule Ingest_InrE) (auto simp: appends_def)

lemma expire_one_appends: "appends s (expire_one now k r s)"
  by (auto simp: expire_one_def appends_def)

lemma expire_keys_appends: "expire_keys now ks s = Inr (s', cs) \<Longrightarrow> appends s s'"
proof (induction ks arbitrary: s cs)
  case Nil
  then show ?case by (simp add: appends_refl)
next
  case (Cons k ks)
  from Cons.prems show ?case
    by (rule expire_keys_ConsE) (use Cons.IH appends_trans expire_one_appends in blast)
qed

lemma cursor_le_seq: "store_inv s \<Longrightarrow> cursor_of s out \<le> st_seq s"
proof (cases "map_of (st_cursors s) out")
  case (Some c)
  assume "store_inv s"
  then have "cu_acked c \<le> st_seq s" "0 \<le> st_seq s"
    using Some cursors_ok_lookup [of s out c] by (auto simp: store_inv_def journal_ok_def)
  with Some show ?thesis by (simp add: cursor_of_def)
qed (simp add: cursor_of_def store_inv_def journal_ok_def)

lemma appends_pending:
  assumes "appends s s'" "store_inv s" "store_inv s'"
  shows "\<exists>new. pending_rows s' out = pending_rows s out @ new \<and>
    map ch_id new = [st_seq s + 1..st_seq s']"
proof -
  from assms(1) obtain new where new: "st_changes s' = st_changes s @ new"
    "map ch_id new = [st_seq s + 1..st_seq s']" and c: "st_cursors s' = st_cursors s"
    by (auto simp: appends_def)
  have "cursor_of s' out = cursor_of s out" using cursor_of_cong [OF c] by simp
  moreover have "filter (\<lambda>r. cursor_of s out < ch_id r) new = new"
  proof -
    have "cursor_of s out < ch_id r" if "r \<in> set new" for r
    proof -
      have "ch_id r \<in> set (map ch_id new)" using that by simp
      then show ?thesis using cursor_le_seq [OF assms(2), of out] by (simp only: new(2)) auto
    qed
    then show ?thesis by (simp add: filter_id_conv)
  qed
  ultimately show ?thesis
    using new assms(2,3) by (simp add: store_inv_def pending_rows_filter)
qed

lemma appends_unbroken:
  assumes "appends s s'" "store_inv s" "store_inv s'" "unbroken out s"
  shows "unbroken out s' \<and> prefix (pending_rows s out) (pending_rows s' out)"
proof -
  have "cursor_of s' out = cursor_of s out" "st_seq s \<le> st_seq s'"
    using assms(1) cursor_of_cong [of s' s] by (auto simp: appends_def)
  with appends_pending [OF assms(1-3), of out] assms(4) cursor_le_seq [OF assms(2), of out]
  show ?thesis by (auto simp: unbroken_def upto_append)
qed

text \<open>What no transaction of another goroutine takes from the worker.\<close>

definition keeps :: "string \<Rightarrow> string \<Rightarrow> store \<Rightarrow> store \<Rightarrow> bool" where
  "keeps out ptype s s' \<longleftrightarrow>
     store_inv s' \<and> unbroken out s' \<and> cursor_typed out ptype s' \<and>
     cursor_of s' out = cursor_of s out \<and>
     prefix (map ch_id (pending_rows s out)) (map ch_id (pending_rows s' out))"

lemma keeps_appends:
  assumes "appends s s'" "store_inv s" "store_inv s'" "unbroken out s" "cursor_typed out ptype s"
  shows "keeps out ptype s s'"
proof -
  have "st_cursors s' = st_cursors s" using assms(1) by (simp add: appends_def)
  moreover obtain zs where "pending_rows s' out = pending_rows s out @ zs"
    using appends_unbroken [OF assms(1-4)] by (auto simp: prefix_def)
  ultimately show ?thesis
    using assms appends_unbroken [OF assms(1-4)] cursor_of_cong [of s' s]
    by (simp add: keeps_def cursor_typed_def)
qed

lemma keeps_same_pending:
  assumes "store_inv s'" "pending_rows s' out = pending_rows s out" "st_seq s' = st_seq s"
    "cursor_of s' out = cursor_of s out" "cursor_typed out ptype s'" "unbroken out s"
  shows "keeps out ptype s s'"
  using assms by (simp add: keeps_def unbroken_def)

lemma env_step_keeps:
  assumes "env_step out s s'" "store_inv s" "unbroken out s" "cursor_typed out ptype s"
  shows "keeps out ptype s s'"
  using assms
proof (induction rule: env_step.induct)
  case (ingest now e fp s s' oc ch)
  then show ?case using keeps_appends Ingest_appends Ingest_inv by blast
next
  case (expire now s s' cs)
  then show ?case
    using keeps_appends expire_keys_appends Expire_inv unfolding Expire_def by blast
next
  case (ack s other i s')
  note a = AckChanges_cursor [OF ack(1,3)]
  have "cursor_typed out ptype s'"
    using ack by (auto simp: AckChanges_def cursor_typed_def split: if_splits)
  then show ?case
    using a ack AckChanges_inv [OF ack(1,3)]
    by (intro keeps_same_pending) (auto simp: pending_rows_def)
next
  case (cleanup_journal s t)
  have "cursor_of (cleanup_changes t s) = cursor_of s" by (rule cursor_of_cong) simp
  then show ?case
    using cleanup_journal cleanup_changes_inv cleanup_changes_pending [OF _ cursor_typed_has]
    by (intro keeps_same_pending) (auto simp: cursor_typed_def)
next
  case (cleanup_state s t)
  have c: "st_cursors (fst (CleanupEvents t s)) = st_cursors s"
    "st_changes (fst (CleanupEvents t s)) = st_changes s"
    "st_seq (fst (CleanupEvents t s)) = st_seq s"
    by (simp_all add: CleanupEvents_def)
  then show ?case
    using cleanup_state CleanupEvents_inv cursor_of_cong [OF c(1)]
    by (intro keeps_same_pending) (auto simp: cursor_typed_def pending_rows_def)
qed

lemma sync_keeps:
  assumes "distinct (map fst enabled)" "map_of enabled out = Some ptype"
    and "store_inv s" "unbroken out s" "cursor_typed out ptype s"
  shows "keeps out ptype s (SyncOutputs enabled s)"
proof -
  let ?s = "SyncOutputs enabled s"
  have l: "map_of (st_cursors ?s) out = map_of (st_cursors s) out"
    using SyncOutputs_lookup [OF assms(1), of s out] assms(2,3,5)
    by (auto simp: store_inv_def cursor_typed_def)
  then have "cursor_of ?s out = cursor_of s out" by (simp add: cursor_of_def)
  moreover have "st_changes ?s = st_changes s" "st_seq ?s = st_seq s"
    by (simp_all add: SyncOutputs_def)
  ultimately show ?thesis
    using assms l SyncOutputs_inv [OF assms(3)]
    by (intro keeps_same_pending) (auto simp: cursor_typed_def pending_rows_def)
qed

section \<open>The invariant\<close>

text \<open>Every entry is preceded by all the IDs between the base and itself.\<close>

definition in_order :: "int \<Rightarrow> int list \<Rightarrow> bool" where
  "in_order b hs \<longleftrightarrow> (\<forall>n<length hs. b < hs ! n \<and> {b<..<hs ! n} \<subseteq> set (take n hs))"

lemma in_order_append:
  "in_order b hs \<Longrightarrow> b < i \<Longrightarrow> {b<..<i} \<subseteq> set hs \<Longrightarrow> in_order b (hs @ [i])"
  by (auto simp: in_order_def nth_append less_Suc_eq)

definition sys_inv :: "string \<Rightarrow> string \<Rightarrow> int \<Rightarrow> system \<Rightarrow> bool" where
  "sys_inv out ptype b y \<longleftrightarrow>
     store_inv (sy_store y) \<and> ow_id (sy_worker y) = out \<and>
     cursor_typed out ptype (sy_store y) \<and> unbroken out (sy_store y) \<and>
     b \<le> cursor_of (sy_store y) out \<and>
     prefix (map c_id (sy_batch y)) (map ch_id (pending_rows (sy_store y) out)) \<and>
     {b<..cursor_of (sy_store y) out} \<subseteq> set (sy_handled y) \<and> in_order b (sy_handled y)"

lemma sys_inv_store:
  assumes "sys_inv out ptype b y" "keeps out ptype (sy_store y) s'"
  shows "sys_inv out ptype b (y\<lparr>sy_store := s'\<rparr>)"
  using assms prefix_order.trans by (auto simp: sys_inv_def keeps_def)

lemma poll_gate_id: "poll_gate now w = (w', g) \<Longrightarrow> ow_id w' = ow_id w"
  by (auto simp: poll_gate_def probeDue_def split: if_splits)

lemma sys_inv_worker:
  "sys_inv out ptype b y \<Longrightarrow> ow_id w = out \<Longrightarrow> sys_inv out ptype b (y\<lparr>sy_worker := w\<rparr>)"
  by (simp add: sys_inv_def)

lemma sys_inv_batch_Nil:
  "sys_inv out ptype b y \<Longrightarrow> sys_inv out ptype b (y\<lparr>sy_batch := []\<rparr>)"
  by (simp add: sys_inv_def)

lemma decode_rows_ids: "decode_rows rs = Inr cs \<Longrightarrow> map c_id cs = map ch_id rs"
  by (induction rs arbitrary: cs) (auto split: sum.splits dest: decode_row_id)

lemma PollChanges_prefix:
  "PollChanges s out limit = Inr cs \<Longrightarrow> prefix (map c_id cs) (map ch_id (pending_rows s out))"
  unfolding PollChanges_def by (drule decode_rows_ids) (simp add: take_is_prefix flip: take_map)

lemma upto_ConsD: "[a..b] = x # xs \<Longrightarrow> x = a \<and> xs = [a + 1..b]"
  by (cases "a \<le> b") (auto simp: upto_rec1)

text \<open>The head of a batch is the change right above the cursor.\<close>

lemma batch_head:
  assumes "sys_inv out ptype b y" "sy_batch y = c # cs"
  shows "c_id c = cursor_of (sy_store y) out + 1"
    and "\<exists>r rs. pending_rows (sy_store y) out = r # rs \<and> ch_id r = c_id c \<and>
      prefix (map c_id cs) (map ch_id rs)"
proof -
  from assms obtain r rs where p: "pending_rows (sy_store y) out = r # rs" "ch_id r = c_id c"
    "prefix (map c_id cs) (map ch_id rs)"
    by (cases "pending_rows (sy_store y) out") (auto simp: sys_inv_def)
  have u: "[cursor_of (sy_store y) out + 1..st_seq (sy_store y)] = c_id c # map ch_id rs"
    using assms(1) p by (simp add: sys_inv_def unbroken_def)
  then show "c_id c = cursor_of (sy_store y) out + 1" by (auto dest: upto_ConsD)
  from p show "\<exists>r rs. pending_rows (sy_store y) out = r # rs \<and> ch_id r = c_id c \<and>
      prefix (map c_id cs) (map ch_id rs)" by blast
qed

lemma ack_keeps_unbroken:
  assumes "store_inv s" "unbroken out s" "pending_rows s out = r # rs" "AckChanges s out (ch_id r) = Inr s'"
  shows "unbroken out s' \<and> pending_rows s' out = rs \<and> store_inv s' \<and> cursor_of s' out = ch_id r"
proof -
  have p: "pending_rows s' out = rs" "store_inv s'"
    using ack_opt_head [OF assms(1,3)] assms(4) by (auto simp: ack_opt_def)
  have u: "[cursor_of s out + 1..st_seq s] = ch_id r # map ch_id rs"
    using assms(2,3) by (simp add: unbroken_def)
  then have r: "ch_id r = cursor_of s out + 1" "map ch_id rs = [ch_id r + 1..st_seq s]"
    by (auto dest: upto_ConsD)
  moreover have "cursor_of s' out = ch_id r"
    using AckChanges_cursor(1) [OF assms(4,1)] r(1) by simp
  ultimately show ?thesis
    using p AckChanges_cursor(4) [OF assms(4,1)] by (simp add: unbroken_def)
qed

lemma AckChanges_typed:
  "AckChanges s out i = Inr s' \<Longrightarrow> cursor_typed out ptype s \<Longrightarrow> cursor_typed out ptype s'"
  by (auto simp: AckChanges_def cursor_typed_def split: if_splits)

lemma sys_inv_deliver:
  assumes inv: "sys_inv out ptype b y" and batch: "sy_batch y = c # cs"
    and d: "deliver show_err call db now c (sy_worker y) (sy_store y) = (w, s', go_on)"
  shows "sys_inv out ptype b
    (y\<lparr>sy_worker := w, sy_store := s', sy_batch := (if go_on then cs else []),
       sy_handled := sy_handled y @ (if call = CallOk then [c_id c] else [])\<rparr>)"
proof -
  let ?s = "sy_store y" and ?hs = "sy_handled y"
  from batch_head [OF inv batch] obtain r rs where c: "c_id c = cursor_of ?s out + 1"
    and p: "pending_rows ?s out = r # rs" "ch_id r = c_id c" "prefix (map c_id cs) (map ch_id rs)"
    by blast
  have id: "ow_id (sy_worker y) = out" and hs: "{b<..cursor_of ?s out} \<subseteq> set ?hs"
    and o: "in_order b ?hs" and b: "b \<le> cursor_of ?s out"
    and si: "store_inv ?s" "unbroken out ?s" "cursor_typed out ptype ?s"
    using inv by (auto simp: sys_inv_def)
  have "{b<..<c_id c} \<subseteq> set ?hs" using hs c by auto
  then have o': "in_order b (?hs @ [c_id c])" using o b c by (intro in_order_append) auto
  show ?thesis
  proof (cases "go_on")
    case False
    then have "ow_id w = out" "s' = ?s"
      using d id by (auto simp: deliver_def split: call_result.splits db_call.splits sum.splits)
    with False inv o' hs show ?thesis by (auto simp: sys_inv_def)
  next
    case True
    then have call: "call = CallOk" and a: "AckChanges ?s out (c_id c) = Inr s'"
      and w: "ow_id w = out"
      using d id by (auto simp: deliver_def split: call_result.splits db_call.splits sum.splits)
    note k = ack_keeps_unbroken [OF si(1,2) p(1)] AckChanges_typed [OF a si(3)]
    have "{b<..c_id c} = insert (c_id c) {b<..cursor_of ?s out}" using c b by auto
    then have "{b<..c_id c} \<subseteq> set (?hs @ [c_id c])" using hs by auto
    with True call w k o' a p b c show ?thesis by (simp add: sys_inv_def)
  qed
qed

lemma sys_step_inv: "sys_step show_err out ptype y y' \<Longrightarrow> sys_inv out ptype b y \<Longrightarrow> sys_inv out ptype b y'"
proof (induction rule: sys_step.induct)
  case (env y s')
  then have "keeps out ptype (sy_store y) s'" by (simp add: sys_inv_def env_step_keeps)
  with env(2) show ?case by (rule sys_inv_store)
next
  case (poll_idle y now w)
  then show ?case using poll_gate_id by (simp add: sys_inv_def)
next
  case (poll_io y now w e)
  then show ?case using poll_gate_id by (simp add: sys_inv_def)
next
  case (poll_error y now w err)
  then show ?case using poll_gate_id by (simp add: sys_inv_def)
next
  case (poll y now w cs)
  have "ow_id w = out" using poll(2,4) poll_gate_id by (simp add: sys_inv_def)
  with poll PollChanges_prefix show ?case by (simp add: sys_inv_def)
next
  case (deliver y c cs call db now w s' go_on)
  then show ?case by (intro sys_inv_deliver)
next
  case (restart enabled y threshold info tracker)
  then have "keeps out ptype (sy_store y) (SyncOutputs enabled (sy_store y))"
    by (intro sync_keeps) (auto simp: sys_inv_def)
  with restart(3) have "sys_inv out ptype b (y\<lparr>sy_store := SyncOutputs enabled (sy_store y)\<rparr>)"
    by (rule sys_inv_store)
  then show ?case by (simp add: sys_inv_def newOutputWorker_def)
qed

lemma sys_steps_inv: "sys_steps show_err out ptype y y' \<Longrightarrow> sys_inv out ptype b y \<Longrightarrow> sys_inv out ptype b y'"
  by (induction rule: sys_steps.induct) (auto intro: sys_step_inv)

text \<open>A start: a store in good order in which the output is registered, nothing handled yet.\<close>

definition sys_start :: "string \<Rightarrow> string \<Rightarrow> system \<Rightarrow> bool" where
  "sys_start out ptype y \<longleftrightarrow>
     store_inv (sy_store y) \<and> cursor_typed out ptype (sy_store y) \<and> unbroken out (sy_store y) \<and>
     ow_id (sy_worker y) = out \<and> sy_batch y = [] \<and> sy_handled y = []"

lemma sys_start_inv: "sys_start out ptype y \<Longrightarrow> sys_inv out ptype (cursor_of (sy_store y) out) y"
  by (simp add: sys_start_def sys_inv_def in_order_def)

lemma in_order_split:
  "in_order b hs \<Longrightarrow> hs = xs @ i # ys \<Longrightarrow> b < i \<and> (\<forall>j. b < j \<and> j < i \<longrightarrow> j \<in> set xs)"
  unfolding in_order_def by (drule spec [of _ "length xs"]) (auto simp: subset_iff)

text \<open>
  C1: at-least-once delivery in journal order.  However the worker of an output (its polls,
  timeouts, failed and successful calls, suspensions) is interleaved with ingestion, expiry,
  other outputs' acknowledgements, both retention passes and restarts, every journaled change
  since the start has either been handled successfully by the plugin or is still in the journal
  above the output's cursor; and a change is only ever handled successfully after all earlier
  ones.
\<close>

theorem at_least_once_in_order:
  assumes "sys_start out ptype y" "sys_steps show_err out ptype y y'"
    and "cursor_of (sy_store y) out < i" "i \<le> st_seq (sy_store y')"
  shows "(i \<in> set (sy_handled y') \<or>
      cursor_of (sy_store y') out < i \<and> i \<in> ch_id ` set (pending_rows (sy_store y') out)) \<and>
    (\<forall>xs ys. sy_handled y' = xs @ i # ys \<longrightarrow>
      (\<forall>j. cursor_of (sy_store y) out < j \<and> j < i \<longrightarrow> j \<in> set xs))"
proof -
  let ?b = "cursor_of (sy_store y) out" and ?s = "sy_store y'"
  have inv: "sys_inv out ptype ?b y'"
    using sys_steps_inv [OF assms(2)] sys_start_inv [OF assms(1)] by blast
  then have u: "map ch_id (pending_rows ?s out) = [cursor_of ?s out + 1..st_seq ?s]"
    and h: "{?b<..cursor_of ?s out} \<subseteq> set (sy_handled y')" and o: "in_order ?b (sy_handled y')"
    by (simp_all add: sys_inv_def unbroken_def)
  have "i \<in> ch_id ` set (pending_rows ?s out)" if "cursor_of ?s out < i"
  proof -
    have "i \<in> set (map ch_id (pending_rows ?s out))" using that assms(4) by (simp add: u)
    then show ?thesis by simp
  qed
  with h assms(3) in_order_split [OF o] show ?thesis by (meson greaterThanAtMost_iff leI subsetD)
qed

lemma start_after_sync:
  "sys_start ''mqtt'' ''mqtt''
    \<lparr>sy_store = SyncOutputs [(''mqtt'', ''mqtt'')] empty_store, sy_worker = sample_worker,
     sy_batch = [], sy_handled = []\<rparr>"
proof -
  let ?s = "SyncOutputs [(''mqtt'', ''mqtt'')] empty_store"
  have "map_of (st_cursors ?s) ''mqtt'' = Some \<lparr>cu_type = ''mqtt'', cu_acked = 0\<rparr>"
    using store_inv_empty SyncOutputs_lookup [of "[(''mqtt'', ''mqtt'')]" empty_store "''mqtt''"]
    by (simp add: store_inv_def empty_store_def)
  moreover have "st_changes ?s = []" "st_seq ?s = 0"
    by (simp_all add: SyncOutputs_def empty_store_def)
  ultimately show ?thesis
    using SyncOutputs_inv [OF store_inv_empty]
    by (auto simp: sys_start_def cursor_typed_def unbroken_def pending_rows_def cursor_of_def
        sample_worker_def newOutputWorker_def)
qed

theorem at_least_once_in_order_witness:
  "\<exists>s' oc ch. Ingest 2000000 sample_event ''f'' (SyncOutputs [(''mqtt'', ''mqtt'')] empty_store) =
      Inr (s', oc, ch) \<and> (1::int) \<in> ch_id ` set (pending_rows s' ''mqtt'')"
proof -
  let ?s = "SyncOutputs [(''mqtt'', ''mqtt'')] empty_store"
  let ?y = "\<lparr>sy_store = ?s, sy_worker = sample_worker, sy_batch = [], sy_handled = []\<rparr>"
  have e: "st_events ?s = []" "st_seq ?s = 0" by (simp_all add: SyncOutputs_def empty_store_def)
  obtain s' oc ch where s': "Ingest 2000000 sample_event ''f'' ?s = Inr (s', oc, ch)"
    by (auto simp: store_simps Let_def e marshal_snapshot_def opt_time_ok_def json_time_ok_def
        sample_event_def)
  then have "env_step ''mqtt'' ?s s'" using sample_ingestible by (rule env_step.ingest)
  then have "sys_step (\<lambda>_. []) ''mqtt'' ''mqtt'' ?y (?y\<lparr>sy_store := s'\<rparr>)"
    by (intro sys_step.env) simp
  then have st: "sys_steps (\<lambda>_. []) ''mqtt'' ''mqtt'' ?y (?y\<lparr>sy_store := s'\<rparr>)"
    by (rule sys_steps.more [OF sys_steps.none])
  have "st_seq s' = 1" using s' by (auto elim!: Ingest_InrE simp: e)
  moreover have "cursor_of ?s ''mqtt'' = 0"
    by (simp add: SyncOutputs_def sync_one_def empty_store_def cursor_of_def)
  ultimately show ?thesis
    using at_least_once_in_order [OF start_after_sync st, of 1] s' by auto
qed

section \<open>Healthy polls\<close>

definition healthy_script :: "call_script \<Rightarrow> bool" where
  "healthy_script script \<longleftrightarrow> (\<forall>c. fst (script c) = CallOk \<and> fst (snd (script c)) = DbOk)"

text \<open>The polls at a list of ticks and all the changes they hand to the plugin.\<close>

fun poll_ticks ::
    "(worker_error \<Rightarrow> string) \<Rightarrow> call_script \<Rightarrow> time list \<Rightarrow> output_worker \<Rightarrow> store \<Rightarrow>
      output_worker \<times> store \<times> change list" where
  "poll_ticks show_err script [] w s = (w, s, [])"
| "poll_ticks show_err script (t # ts) w s =
     (case pollDeliveries show_err DbOk t script w s of (w', s', called) \<Rightarrow>
       (case poll_ticks show_err script ts w' s' of (w'', s'', called') \<Rightarrow>
          (w'', s'', called @ called')))"

lemma deliver_all_healthy:
  "healthy_script script \<Longrightarrow> map c_id cs = map ch_id rows \<Longrightarrow>
    ack_run ack_opt ch_id s out rows = Some s' \<Longrightarrow> ow_id w = out \<Longrightarrow> \<not> ow_suspended w \<Longrightarrow>
    \<exists>w'. deliver_all show_err script cs w s = (w', s', cs) \<and> ow_id w' = out \<and> \<not> ow_suspended w'"
proof (induction cs arbitrary: rows w s)
  case (Cons c cs)
  then obtain r rs where rows: "rows = r # rs" "ch_id r = c_id c" "map c_id cs = map ch_id rs"
    by (cases rows) auto
  with Cons.prems obtain s1 where s1: "AckChanges s out (c_id c) = Inr s1"
    "ack_run ack_opt ch_id s1 out rs = Some s'"
    by (auto simp: ack_opt_Some split: option.splits)
  obtain t where t: "script c = (CallOk, DbOk, t)"
    using Cons.prems(1) by (metis healthy_script_def prod.collapse)
  have "deliver show_err CallOk DbOk t c w s = (onSuccess t w, s1, True)"
    using s1(1) Cons.prems(4) by (simp add: deliver_def)
  with Cons.IH [OF Cons.prems(1) rows(3) s1(2), of "onSuccess t w"] Cons.prems(4) t
  show ?case by auto
qed auto

lemma ack_run_changes:
  "ack_run ack_opt ch_id s out rows = Some s' \<Longrightarrow> store_inv s \<Longrightarrow>
    store_inv s' \<and> st_changes s' = st_changes s \<and> st_events s' = st_events s"
proof (induction rows arbitrary: s)
  case (Cons r rs)
  then obtain s1 where s1: "AckChanges s out (ch_id r) = Inr s1"
    "ack_run ack_opt ch_id s1 out rs = Some s'"
    by (auto simp: ack_opt_Some split: option.splits)
  with Cons.IH [OF s1(2)] AckChanges_cursor(3,5) [OF s1(1) Cons.prems(2)]
    AckChanges_inv [OF s1(1) Cons.prems(2)] show ?case by simp
qed simp

lemma poll_healthy:
  assumes "healthy_script script" "store_inv s" "journal_clean s" "\<not> ow_suspended w" "ow_id w = out"
  shows "\<exists>w' s' called. pollDeliveries show_err DbOk t script w s = (w', s', called) \<and>
    ow_id w' = out \<and> \<not> ow_suspended w' \<and> store_inv s' \<and> journal_clean s' \<and>
    pending_rows s' out = drop 32 (pending_rows s out) \<and>
    map c_id called = map ch_id (take 32 (pending_rows s out))"
proof -
  let ?p = "pending_rows s out"
  from poll_clean [OF assms(2,3), of out 32] obtain cs where
    cs: "PollChanges s out 32 = Inr cs" "map ch_id (take 32 ?p) = map c_id cs"
    by (auto simp: poll_limit_def dest: decoded_ids)
  from sj.ack_run_prefix [OF assms(2), of out "take 32 ?p" "drop 32 ?p"] obtain s' where
    s': "ack_run ack_opt ch_id s out (take 32 ?p) = Some s'" "store_inv s'"
      "pending_rows s' out = drop 32 ?p" by auto
  from deliver_all_healthy [OF assms(1) cs(2) [symmetric] s'(1) assms(5,4)] obtain w' where
    "deliver_all show_err script cs w s = (w', s', cs)" "ow_id w' = out" "\<not> ow_suspended w'"
    by blast
  moreover have "journal_clean s'"
    using ack_run_changes [OF s'(1) assms(2)] assms(3) by (auto intro: journal_clean_mono)
  ultimately show ?thesis
    using cs s' assms(4,5) by (simp add: pollDeliveries_def poll_gate_def pollBatchSize_def)
qed

text \<open>
  C25: liveness of delivery: while the plugin and the database succeed, \<open>n\<close> poll ticks deliver
  and acknowledge the first \<open>32 n\<close> pending changes, each once and in order, so a backlog of any
  length is drained after finitely many ticks.
\<close>

theorem healthy_polls_drain:
  assumes "healthy_script script" "store_inv s" "journal_clean s" "\<not> ow_suspended w" "ow_id w = out"
  shows "\<exists>w' s' called. poll_ticks show_err script ts w s = (w', s', called) \<and>
    pending_rows s' out = drop (32 * length ts) (pending_rows s out) \<and>
    map c_id called = map ch_id (take (32 * length ts) (pending_rows s out)) \<and>
    \<not> ow_suspended w'"
  using assms(2-)
proof (induction ts arbitrary: w s)
  case (Cons t ts)
  from poll_healthy [OF assms(1) Cons.prems, of show_err t] obtain w1 s1 called1 where
    1: "pollDeliveries show_err DbOk t script w s = (w1, s1, called1)" "ow_id w1 = out"
      "\<not> ow_suspended w1" "store_inv s1" "journal_clean s1"
      "pending_rows s1 out = drop 32 (pending_rows s out)"
      "map c_id called1 = map ch_id (take 32 (pending_rows s out))" by blast
  from Cons.IH [OF 1(4,5,3,2)] obtain w2 s2 called2 where
    2: "poll_ticks show_err script ts w1 s1 = (w2, s2, called2)"
      "pending_rows s2 out = drop (32 * length ts) (drop 32 (pending_rows s out))"
      "map c_id called2 = map ch_id (take (32 * length ts) (drop 32 (pending_rows s out)))"
      "\<not> ow_suspended w2" by (auto simp: 1(6))
  show ?case using 1 2 by (simp add: take_add add.commute)
qed simp

theorem healthy_polls_drain_witness:
  "\<exists>s w' s' called. map ch_id (pending_rows s ''mqtt'') = [1] \<and>
    poll_ticks (\<lambda>_. []) (\<lambda>_. (CallOk, DbOk, 0)) [1] sample_worker s = (w', s', called) \<and>
    map c_id called = [1] \<and> pending_rows s' ''mqtt'' = []"
proof -
  obtain s oc ch where s: "store_reachable s"
      "Ingest 2000000 sample_event ''f'' empty_store = Inr (s, oc, ch)"
    using sample_reachable by blast
  have "map ch_id (st_changes s) = [1]" "st_cursors s = []"
    using s(2) by (auto elim!: Ingest_InrE simp: empty_store_def)
  moreover have inv: "store_inv s" "journal_clean s" using store_reachable_inv [OF s(1)] by auto
  ultimately have p: "map ch_id (pending_rows s ''mqtt'') = [1]"
    by (cases "st_changes s") (auto simp: pending_rows_def cursor_of_def)
  have "healthy_script (\<lambda>_. (CallOk, DbOk, 0))" by (simp add: healthy_script_def)
  moreover have "\<not> ow_suspended sample_worker" "ow_id sample_worker = ''mqtt''"
    by (simp_all add: sample_worker_def newOutputWorker_def)
  ultimately obtain w' s' called where
    "poll_ticks (\<lambda>_. []) (\<lambda>_. (CallOk, DbOk, 0)) [1] sample_worker s = (w', s', called)"
    "pending_rows s' ''mqtt'' = drop 32 (pending_rows s ''mqtt'')"
    "map c_id called = map ch_id (take 32 (pending_rows s ''mqtt''))"
    using healthy_polls_drain [OF _ inv,
        of "\<lambda>_. (CallOk, DbOk, 0)" sample_worker "''mqtt''" "\<lambda>_. []" "[1]"] by auto
  moreover have "length (pending_rows s ''mqtt'') = 1"
    using arg_cong [OF p, of length] by simp
  ultimately show ?thesis using p
    by (intro exI [of _ s] exI [of _ w'] exI [of _ s'] exI [of _ called]) simp
qed

end
