(* ===== verification/Dispatch.thy ===== *)
theory Dispatch
  imports Hazard_Event Bounded_Contract
begin

text \<open>
  The canonical dispatch events (\<open>internal/dispatch/event.go\<close>) and the bounded ingress every
  MQTT receiver feeds (\<open>internal/dispatch/ingress.go\<close>).  \<open>Enqueue\<close> and \<open>StopIntake\<close> hold the
  same mutex, so each is one step.
\<close>

section \<open>Events\<close>

datatype transition_type =
  TransitionNew | TransitionUpdated | TransitionCancelled | TransitionExpired
| TransitionOther string

record hazard_block =
  hz_event_key :: string
  hz_source :: string
  hz_source_id :: string
  hz_event :: string
  hz_severity :: string
  hz_provider_severity :: string
  hz_urgency :: string
  hz_certainty :: string
  hz_headline :: string
  hz_areas :: "string list"
  hz_description :: string
  hz_instruction :: string
  hz_latitude :: "float64 option"
  hz_longitude :: "float64 option"
  hz_effective_at :: "time option"
  hz_expires_at :: "time option"
  hz_received_at :: time
  hz_updated_at :: time

record hazard_transition =
  ht_type :: transition_type
  ht_key :: string
  ht_source :: string
  ht_change_id :: int
  ht_timestamp :: time
  ht_hazard :: hazard_block

record mqtt_message =
  mm_topic :: string
  mm_qos :: nat
  mm_retained :: bool
  mm_duplicate :: bool
  mm_payload :: string

datatype event_kind = EventHazardTransition | EventMQTTMessage

record dispatch_event =
  de_kind :: event_kind
  de_received_at :: time
  de_origin_type :: string
  de_receiver_id :: string
  de_hazard :: "hazard_transition option"
  de_mqtt :: "mqtt_message option"

section \<open>Ingress\<close>

record ingress =
  ig_queue :: "dispatch_event list"
  ig_cap :: nat
  ig_closed :: bool
  ig_received :: nat
  ig_dropped_full :: nat
  ig_dropped_late :: nat

definition DefaultQueueSize :: int where
  "DefaultQueueSize = 1024"

definition NewIngress :: "int \<Rightarrow> ingress" where
  "NewIngress sz =
     \<lparr> ig_queue = [], ig_cap = nat (if sz < 1 then DefaultQueueSize else sz),
       ig_closed = False, ig_received = 0, ig_dropped_full = 0, ig_dropped_late = 0 \<rparr>"

definition Enqueue :: "dispatch_event \<Rightarrow> ingress \<Rightarrow> ingress \<times> bool" where
  "Enqueue e g =
     (if ig_closed g then (g\<lparr>ig_dropped_late := ig_dropped_late g + 1\<rparr>, False)
      else if length (ig_queue g) < ig_cap g
        then (g\<lparr>ig_queue := ig_queue g @ [e], ig_received := ig_received g + 1\<rparr>, True)
      else (g\<lparr>ig_dropped_full := ig_dropped_full g + 1\<rparr>, False))"

text \<open>A receive on \<open>Events()\<close>: \<open>None\<close> when no event is queued.\<close>

definition take_event :: "ingress \<Rightarrow> (dispatch_event \<times> ingress) option" where
  "take_event g =
     (case ig_queue g of [] \<Rightarrow> None | e # es \<Rightarrow> Some (e, g\<lparr>ig_queue := es\<rparr>))"

definition StopIntake :: "ingress \<Rightarrow> ingress" where
  "StopIntake g = (if ig_closed g then g else g\<lparr>ig_closed := True\<rparr>)"

text \<open>\<open>Drain\<close> before a deadline that lets \<open>n\<close> iterations of the loop run.\<close>

fun Drain :: "nat \<Rightarrow> ingress \<Rightarrow> ingress \<times> nat" where
  "Drain 0 g = (g, 0)"
| "Drain (Suc n) g =
     (case take_event g of
        None \<Rightarrow> (g, 0)
      | Some (e, g') \<Rightarrow> (case Drain n g' of (g'', k) \<Rightarrow> (g'', Suc k)))"

definition ingress_stats :: "ingress \<Rightarrow> nat \<times> nat \<times> nat \<times> nat \<times> nat" where
  "ingress_stats g =
     (ig_received g, ig_dropped_full g, ig_dropped_late g, length (ig_queue g), ig_cap g)"

interpretation ing: bounded_queue ig_queue Enqueue take_event ig_cap
  by unfold_locales
    (auto simp: Enqueue_def take_event_def split: if_splits list.splits)

text \<open>The operations of producers, consumers and shutdown as one history.\<close>

datatype ingress_op = OpEnqueue dispatch_event | OpTake | OpStop

fun ingress_run :: "ingress_op list \<Rightarrow> ingress \<Rightarrow> ingress \<times> dispatch_event list" where
  "ingress_run [] g = (g, [])"
| "ingress_run (OpEnqueue e # ops) g = ingress_run ops (fst (Enqueue e g))"
| "ingress_run (OpStop # ops) g = ingress_run ops (StopIntake g)"
| "ingress_run (OpTake # ops) g =
     (case take_event g of
        None \<Rightarrow> ingress_run ops g
      | Some (e, g') \<Rightarrow> (case ingress_run ops g' of (g'', es) \<Rightarrow> (g'', e # es)))"

definition offers :: "ingress_op list \<Rightarrow> dispatch_event list" where
  "offers ops = List.map_filter (\<lambda>op. case op of OpEnqueue e \<Rightarrow> Some e | _ \<Rightarrow> None) ops"

lemma offers_simps [simp]:
  "offers [] = []" "offers (OpEnqueue e # ops) = e # offers ops"
  "offers (OpTake # ops) = offers ops" "offers (OpStop # ops) = offers ops"
  by (simp_all add: offers_def List.map_filter_simps)

lemma ingress_run_counts:
  "ingress_run ops g = (g', es) \<Longrightarrow> length (ig_queue g) \<le> ig_cap g \<Longrightarrow>
    ig_received g' + length (ig_queue g) = ig_received g + length es + length (ig_queue g') \<and>
    ig_received g' + ig_dropped_full g' + ig_dropped_late g' =
      ig_received g + ig_dropped_full g + ig_dropped_late g + length (offers ops) \<and>
    length (ig_queue g') \<le> ig_cap g' \<and> ig_cap g' = ig_cap g"
proof (induction ops g arbitrary: g' es rule: ingress_run.induct)
  case (2 e ops g)
  show ?case using "2.IH" [of g' es] "2.prems" by (auto simp: Enqueue_def split: if_splits)
next
  case (3 ops g)
  show ?case using "3.IH" [of g' es] "3.prems" by (simp add: StopIntake_def split: if_splits)
next
  case (4 ops g)
  show ?case
  proof (cases "ig_queue g")
    case Nil
    with "4.IH"(1) [of g' es] "4.prems" show ?thesis by (simp add: take_event_def)
  next
    case (Cons e q)
    let ?g1 = "g\<lparr>ig_queue := q\<rparr>"
    have t: "take_event g = Some (e, ?g1)" using Cons by (simp add: take_event_def)
    with "4.prems"(1) obtain es' where es': "ingress_run ops ?g1 = (g', es')" "es = e # es'"
      by (auto split: prod.splits)
    from "4.IH"(2) [OF t refl es'(1)] "4.prems"(2) es'(2) Cons show ?thesis by simp
  qed
qed simp

text \<open>Among the taken and queued events nothing is out of order or invented.\<close>

lemma ingress_run_subseq:
  "ingress_run ops g = (g', es) \<Longrightarrow> subseq (es @ ig_queue g') (ig_queue g @ offers ops)"
proof (induction ops g arbitrary: g' es rule: ingress_run.induct)
  case (2 e ops g)
  from "2.IH" [of g' es] "2.prems"
  have s: "subseq (es @ ig_queue g') (ig_queue (fst (Enqueue e g)) @ offers ops)" by simp
  have "subseq (ig_queue (fst (Enqueue e g)) @ offers ops) (ig_queue g @ offers (OpEnqueue e # ops))"
    by (auto simp: Enqueue_def intro: list_emb_append_mono)
  with s show ?case by (rule subseq_order.trans)
next
  case (3 ops g)
  then show ?case by (auto simp: StopIntake_def split: if_splits)
next
  case (4 ops g)
  then show ?case by (auto simp: take_event_def split: list.splits prod.splits)
qed simp

text \<open>
  C28: whatever the interleaving of producers, the consumer and the shutdown, every offered
  event is counted exactly once as received, dropped on a full queue or dropped after the stop;
  every received event has been taken or is still queued; the events are taken in the order in
  which they were offered; and the queue never exceeds its capacity.
\<close>

theorem ingress_conserves:
  assumes "ingress_run ops (NewIngress sz) = (g', es)"
  shows "ig_received g' + ig_dropped_full g' + ig_dropped_late g' = length (offers ops) \<and>
    ig_received g' = length es + length (ig_queue g') \<and>
    subseq (es @ ig_queue g') (offers ops) \<and>
    length (ig_queue g') \<le> ig_cap g' \<and> 0 < ig_cap g'"
proof -
  have "length (ig_queue (NewIngress sz)) \<le> ig_cap (NewIngress sz)"
    by (simp add: NewIngress_def)
  from ingress_run_counts [OF assms this] ingress_run_subseq [OF assms]
  show ?thesis by (auto simp: NewIngress_def DefaultQueueSize_def)
qed

definition sample_mqtt_event :: dispatch_event where
  "sample_mqtt_event =
     \<lparr> de_kind = EventMQTTMessage, de_received_at = 1, de_origin_type = ''mqtt'',
       de_receiver_id = ''home'', de_hazard = None,
       de_mqtt = Some \<lparr> mm_topic = ''a/b'', mm_qos = 0, mm_retained = False,
         mm_duplicate = False, mm_payload = [] \<rparr> \<rparr>"

theorem ingress_conserves_witness:
  "\<exists>g' es. ingress_run [OpEnqueue sample_mqtt_event, OpEnqueue sample_mqtt_event, OpStop,
      OpEnqueue sample_mqtt_event, OpTake] (NewIngress 1) = (g', es) \<and>
    ig_received g' + ig_dropped_full g' + ig_dropped_late g' = 3"
proof -
  obtain g' es where r: "ingress_run [OpEnqueue sample_mqtt_event, OpEnqueue sample_mqtt_event,
      OpStop, OpEnqueue sample_mqtt_event, OpTake] (NewIngress 1) = (g', es)"
    by fastforce
  from ingress_conserves [OF r] r show ?thesis by auto
qed

text \<open>Draining a stopped ingress with enough time removes every accepted event.\<close>

lemma Drain_all:
  "length (ig_queue g) \<le> n \<Longrightarrow>
    Drain n g = (g\<lparr>ig_queue := []\<rparr>, length (ig_queue g))"
proof (induction n arbitrary: g)
  case (Suc n)
  then show ?case by (cases "ig_queue g") (auto simp: take_event_def)
qed simp

end
