(* ===== verification/Mirror_State.thy ===== *)
theory Mirror_State
  imports Dispatch Messages
begin

text \<open>
  The in-memory mirror of the retained MQTT state (\<open>internal/dispatch/state/state.go\<close>): active
  hazards and informational entries keyed by receiver and topic, bounded, and the sorted
  snapshot for rendering.  Map iteration order is the order of the association list.
\<close>

definition MaxActiveHazards :: nat where "MaxActiveHazards = 10000"
definition MaxInfoEntries :: nat where "MaxInfoEntries = 10000"

text \<open>\<open>SeverityRank\<close>: lower is more severe.\<close>

definition SeverityRank :: "string \<Rightarrow> nat" where
  "SeverityRank s =
     (if s = ''extreme'' then 0 else if s = ''severe'' then 1 else if s = ''moderate'' then 2
      else if s = ''minor'' then 3 else if s = ''unknown'' then 4 else 5)"

record mirror_hazard =
  mh_receiver :: string
  mh_topic :: string
  mh_event_key :: string
  mh_source :: string
  mh_source_id :: string
  mh_category :: string
  mh_event :: string
  mh_severity :: string
  mh_urgency :: string
  mh_certainty :: string
  mh_headline :: string
  mh_description :: string
  mh_instruction :: string
  mh_effective_at :: "time option"
  mh_expires_at :: "time option"
  mh_areas :: "string list"
  mh_status :: string
  mh_latitude :: "float64 option"
  mh_longitude :: "float64 option"
  mh_received_at :: time
  mh_updated_at :: time

record daily_weather =
  dw_date :: string
  dw_condition :: string
  dw_temperature_max :: "float64 option"
  dw_temperature_min :: "float64 option"
  dw_precipitation :: "float64 option"
  dw_wind_max :: "float64 option"

record weather =
  we_generated_at :: time
  we_valid_until :: "time option"
  we_provider :: string
  we_location_id :: string
  we_location_name :: string
  we_latitude :: float64
  we_longitude :: float64
  we_temperature :: "float64 option"
  we_condition :: string
  we_humidity :: "float64 option"
  we_wind_speed :: "float64 option"
  we_wind_direction :: "float64 option"
  we_wind_gusts :: "float64 option"
  we_pressure :: "float64 option"
  we_radiation_usv :: "float64 option"
  we_radiation_cpm :: "float64 option"
  we_daily :: "daily_weather list"

record info_entry =
  ie_receiver :: string
  ie_topic :: string
  ie_source :: string
  ie_producer :: string
  ie_key :: string
  ie_kind :: string
  ie_received_at :: time
  ie_weather :: "weather option"
  ie_payload :: string

record router_status =
  rs_valid :: bool
  rs_received_at :: time
  rs_service :: string
  rs_state :: string
  rs_generated_at :: time
  rs_version :: string
  rs_uptime :: int
  rs_db_healthy :: bool
  rs_pending :: int

definition RouterHealth :: "router_status \<Rightarrow> string" where
  "RouterHealth r =
     (if \<not> rs_valid r then ''unknown''
      else if rs_state r = ''running''
        then (if rs_db_healthy r then ''healthy'' else ''degraded'')
      else if rs_state r = ''offline'' then ''degraded''
      else ''unknown'')"

record mirror =
  mi_active :: "(string \<times> mirror_hazard) list"
  mi_info :: "(string \<times> info_entry) list"
  mi_router :: "(string \<times> router_status) list"
  mi_dropped_active :: nat
  mi_dropped_info :: nat

definition new_mirror :: mirror where
  "new_mirror = \<lparr>mi_active = [], mi_info = [], mi_router = [], mi_dropped_active = 0,
     mi_dropped_info = 0\<rparr>"

definition entryKey :: "string \<Rightarrow> string \<Rightarrow> string" where
  "entryKey receiver topic = receiver @ CHR 0x00 # topic"

text \<open>The updates return whether the entry was stored (otherwise Go returns an error).\<close>

definition AddOrUpdateActive ::
    "string \<Rightarrow> string \<Rightarrow> mirror_hazard \<Rightarrow> mirror \<Rightarrow> mirror \<times> bool" where
  "AddOrUpdateActive receiver topic h m =
     (let key = entryKey receiver topic in
      if map_of (mi_active m) key = None \<and> length (mi_active m) \<ge> MaxActiveHazards
      then (m\<lparr>mi_dropped_active := mi_dropped_active m + 1\<rparr>, False)
      else (m\<lparr>mi_active := AList.update key (h\<lparr>mh_receiver := receiver, mh_topic := topic\<rparr>)
                (mi_active m)\<rparr>, True))"

definition DeleteActive :: "string \<Rightarrow> string \<Rightarrow> mirror \<Rightarrow> mirror" where
  "DeleteActive receiver topic m =
     m\<lparr>mi_active := AList.delete (entryKey receiver topic) (mi_active m)\<rparr>"

definition AddOrUpdateInfo ::
    "string \<Rightarrow> string \<Rightarrow> info_entry \<Rightarrow> mirror \<Rightarrow> mirror \<times> bool" where
  "AddOrUpdateInfo receiver topic e m =
     (let key = entryKey receiver topic in
      if map_of (mi_info m) key = None \<and> length (mi_info m) \<ge> MaxInfoEntries
      then (m\<lparr>mi_dropped_info := mi_dropped_info m + 1\<rparr>, False)
      else (m\<lparr>mi_info := AList.update key (e\<lparr>ie_receiver := receiver, ie_topic := topic\<rparr>)
                (mi_info m)\<rparr>, True))"

definition SetRouterStatus :: "string \<Rightarrow> router_status \<Rightarrow> mirror \<Rightarrow> mirror" where
  "SetRouterStatus receiver rs m = m\<lparr>mi_router := AList.update receiver rs (mi_router m)\<rparr>"

section \<open>Snapshot\<close>

definition hazardSortKey :: "mirror_hazard \<Rightarrow> time" where
  "hazardSortKey h =
     (if mh_updated_at h \<noteq> zero_time then mh_updated_at h
      else case mh_effective_at h of
             None \<Rightarrow> mh_received_at h
           | Some t \<Rightarrow> if t \<noteq> zero_time then t else mh_received_at h)"

definition lapsed :: "time \<Rightarrow> mirror_hazard \<Rightarrow> bool" where
  "lapsed now h \<longleftrightarrow>
     mh_status h = ''active'' \<and>
     (case mh_expires_at h of None \<Rightarrow> False | Some t \<Rightarrow> \<not> t > now)"

record snapshot =
  sn_hazards :: "mirror_hazard list"
  sn_weather :: "info_entry list"
  sn_info :: "info_entry list"
  sn_active_count :: nat
  sn_info_count :: nat
  sn_router :: "(string \<times> router_status) list"

text \<open>
  The comparison functions of \<open>sort.Slice\<close> as sort keys: severity first, then newest first, then
  the name of the entry.
\<close>

definition hazard_order :: "mirror_hazard \<Rightarrow> nat \<times> time \<times> string" where
  "hazard_order h =
     (SeverityRank (mh_severity h), - hazardSortKey h, entryKey (mh_receiver h) (mh_topic h))"

definition weather_order :: "info_entry \<Rightarrow> time \<times> string" where
  "weather_order e =
     (case ie_weather e of
        None \<Rightarrow> (0, [])
      | Some w \<Rightarrow> (- we_generated_at w, entryKey (ie_receiver e) (ie_topic e)))"

definition Snapshot :: "time \<Rightarrow> mirror \<Rightarrow> mirror \<times> snapshot" where
  "Snapshot now m =
     (let m' = m\<lparr>mi_active := filter (\<lambda>(k, h). \<not> lapsed now h) (mi_active m)\<rparr> in
      (m', \<lparr> sn_hazards = sort_key hazard_order (map snd (mi_active m')),
             sn_weather = sort_key weather_order
               (filter (\<lambda>e. ie_weather e \<noteq> None) (map snd (mi_info m'))),
             sn_info = sort_key (\<lambda>e. - ie_received_at e) (map snd (mi_info m')),
             sn_active_count = length (mi_active m'),
             sn_info_count = length (mi_info m'),
             sn_router = mi_router m' \<rparr>))"

section \<open>Bounds\<close>

definition put_active :: "string \<times> string \<times> mirror_hazard \<Rightarrow> mirror \<Rightarrow> mirror option" where
  "put_active x m =
     (case AddOrUpdateActive (fst x) (fst (snd x)) (snd (snd x)) m of
        (m', ok) \<Rightarrow> if ok then Some m' else None)"

definition put_info :: "string \<times> string \<times> info_entry \<Rightarrow> mirror \<Rightarrow> mirror option" where
  "put_info x m =
     (case AddOrUpdateInfo (fst x) (fst (snd x)) (snd (snd x)) m of
        (m', ok) \<Rightarrow> if ok then Some m' else None)"

interpretation ma: bounded_table mi_active "\<lambda>(r, t, h). entryKey r t"
    "\<lambda>(r, t, h). h\<lparr>mh_receiver := r, mh_topic := t\<rparr>" put_active MaxActiveHazards "\<lambda>_. True"
  by unfold_locales
    (auto simp: put_active_def AddOrUpdateActive_def table_put_def Let_def split: if_splits)

interpretation mn: bounded_table mi_info "\<lambda>(r, t, e). entryKey r t"
    "\<lambda>(r, t, e). e\<lparr>ie_receiver := r, ie_topic := t\<rparr>" put_info MaxInfoEntries "\<lambda>_. True"
  by unfold_locales
    (auto simp: put_info_def AddOrUpdateInfo_def table_put_def Let_def split: if_splits)

text \<open>Every entry sits under the key of its own receiver and topic.\<close>

definition mirror_ok :: "mirror \<Rightarrow> bool" where
  "mirror_ok m \<longleftrightarrow>
     ma.fits m \<and> mn.fits m \<and>
     (\<forall>(k, h)\<in>set (mi_active m). k = entryKey (mh_receiver h) (mh_topic h)) \<and>
     (\<forall>(k, e)\<in>set (mi_info m). k = entryKey (ie_receiver e) (ie_topic e))"

lemma new_mirror_ok: "mirror_ok new_mirror"
  by (simp add: mirror_ok_def new_mirror_def ma.fits_def mn.fits_def table_ok_def)

lemma AddOrUpdateActive_ok:
  assumes "mirror_ok m"
  shows "mirror_ok (fst (AddOrUpdateActive r t h m))"
proof (cases "put_active (r, t, h) m")
  case None
  then have "mi_active (fst (AddOrUpdateActive r t h m)) = mi_active m"
    "mi_info (fst (AddOrUpdateActive r t h m)) = mi_info m"
    by (auto simp: put_active_def AddOrUpdateActive_def Let_def split: if_splits)
  with assms show ?thesis by (simp add: mirror_ok_def ma.fits_def mn.fits_def)
next
  case (Some m')
  then have m': "fst (AddOrUpdateActive r t h m) = m'" "mi_info m' = mi_info m"
    "mi_active m' = AList.update (entryKey r t) (h\<lparr>mh_receiver := r, mh_topic := t\<rparr>) (mi_active m)"
    by (auto simp: put_active_def AddOrUpdateActive_def Let_def split: if_splits)
  have "table_ok (mi_active m)" using assms by (simp add: mirror_ok_def ma.fits_def)
  then have "\<forall>(k, h)\<in>set (mi_active m'). k = entryKey (mh_receiver h) (mh_topic h)"
    unfolding m'(3) using assms by (intro table_all_update) (auto simp: mirror_ok_def)
  then show ?thesis
    using assms ma.put_fits [OF _ Some] m' by (simp add: mirror_ok_def mn.fits_def)
qed

lemma AddOrUpdateInfo_ok:
  assumes "mirror_ok m"
  shows "mirror_ok (fst (AddOrUpdateInfo r t e m))"
proof (cases "put_info (r, t, e) m")
  case None
  then have "mi_active (fst (AddOrUpdateInfo r t e m)) = mi_active m"
    "mi_info (fst (AddOrUpdateInfo r t e m)) = mi_info m"
    by (auto simp: put_info_def AddOrUpdateInfo_def Let_def split: if_splits)
  with assms show ?thesis by (simp add: mirror_ok_def ma.fits_def mn.fits_def)
next
  case (Some m')
  then have m': "fst (AddOrUpdateInfo r t e m) = m'" "mi_active m' = mi_active m"
    "mi_info m' = AList.update (entryKey r t) (e\<lparr>ie_receiver := r, ie_topic := t\<rparr>) (mi_info m)"
    by (auto simp: put_info_def AddOrUpdateInfo_def Let_def split: if_splits)
  have "table_ok (mi_info m)" using assms by (simp add: mirror_ok_def mn.fits_def)
  then have "\<forall>(k, e)\<in>set (mi_info m'). k = entryKey (ie_receiver e) (ie_topic e)"
    unfolding m'(3) using assms by (intro table_all_update) (auto simp: mirror_ok_def)
  then show ?thesis
    using assms mn.put_fits [OF _ Some] m' by (simp add: mirror_ok_def ma.fits_def)
qed

lemma delete_filter: "AList.delete k al = filter (\<lambda>(k', _). k \<noteq> k') al"
  by (induction al) auto

lemma mirror_ok_filter:
  assumes "mirror_ok m"
  shows "mirror_ok (m\<lparr>mi_active := filter P (mi_active m)\<rparr>)"
proof -
  have "length (filter P (mi_active m)) \<le> length (mi_active m)" by simp
  with assms show ?thesis
    by (auto simp: mirror_ok_def ma.fits_def mn.fits_def table_ok_def distinct_map_filter
        simp del: length_filter_le)
qed

lemma DeleteActive_ok: "mirror_ok m \<Longrightarrow> mirror_ok (DeleteActive r t m)"
  by (simp add: DeleteActive_def delete_filter mirror_ok_filter)

lemma Snapshot_ok: "mirror_ok m \<Longrightarrow> mirror_ok (fst (Snapshot now m))"
  by (simp add: Snapshot_def Let_def mirror_ok_filter)

text \<open>Everything that receivers and the dashboard do to the mirror.\<close>

datatype mirror_op =
  PutActive string string mirror_hazard | DropActive string string
| PutInfo string string info_entry | PutRouter string router_status | Render time

definition mirror_step :: "mirror_op \<Rightarrow> mirror \<Rightarrow> mirror" where
  "mirror_step op m =
     (case op of
        PutActive r t h \<Rightarrow> fst (AddOrUpdateActive r t h m)
      | DropActive r t \<Rightarrow> DeleteActive r t m
      | PutInfo r t e \<Rightarrow> fst (AddOrUpdateInfo r t e m)
      | PutRouter r rs \<Rightarrow> SetRouterStatus r rs m
      | Render now \<Rightarrow> fst (Snapshot now m))"

lemma SetRouterStatus_ok: "mirror_ok m \<Longrightarrow> mirror_ok (SetRouterStatus r rs m)"
  by (simp add: SetRouterStatus_def mirror_ok_def ma.fits_def mn.fits_def)

lemma mirror_step_ok: "mirror_ok m \<Longrightarrow> mirror_ok (mirror_step op m)"
  by (cases op)
    (simp_all add: mirror_step_def AddOrUpdateActive_ok AddOrUpdateInfo_ok DeleteActive_ok
      Snapshot_ok SetRouterStatus_ok)

lemma mirror_run_ok: "mirror_ok m \<Longrightarrow> mirror_ok (fold mirror_step ops m)"
  by (induction ops arbitrary: m) (simp_all add: mirror_step_ok)

text \<open>
  whatever receivers send, the mirror holds at most 10000 hazards and 10000 entries, one
  per receiver and topic; and a snapshot shows exactly the hazards that have not lapsed, most
  severe first and newest first within a severity.
\<close>

theorem snapshot_exact:
  assumes "m = fold mirror_step ops new_mirror" "Snapshot now m = (m', snap)"
  shows "length (mi_active m) \<le> 10000 \<and> length (mi_info m) \<le> 10000 \<and>
    distinct (map fst (mi_active m)) \<and>
    mset (sn_hazards snap) = mset (filter (\<lambda>h. \<not> lapsed now h) (map snd (mi_active m))) \<and>
    sorted (map hazard_order (sn_hazards snap)) \<and>
    sn_active_count snap = length (sn_hazards snap)"
proof -
  have ok: "mirror_ok m" unfolding assms(1) by (rule mirror_run_ok [OF new_mirror_ok])
  have f: "map snd (filter (\<lambda>(k, h). \<not> lapsed now h) xs) = filter (\<lambda>h. \<not> lapsed now h) (map snd xs)"
    for xs :: "(string \<times> mirror_hazard) list"
    by (induction xs) auto
  from assms(2) have snap: "sn_hazards snap =
      sort_key hazard_order (filter (\<lambda>h. \<not> lapsed now h) (map snd (mi_active m)))"
    "sn_active_count snap = length (filter (\<lambda>(k, h). \<not> lapsed now h) (mi_active m))"
    by (auto simp: Snapshot_def Let_def f)
  have "length (filter (\<lambda>(k, h). \<not> lapsed now h) (mi_active m)) =
      length (filter (\<lambda>h. \<not> lapsed now h) (map snd (mi_active m)))"
    using f [of "mi_active m"] by (metis length_map)
  moreover have "length (mi_active m) \<le> MaxActiveHazards" "length (mi_info m) \<le> MaxInfoEntries"
      "distinct (map fst (mi_active m))"
    using ok by (simp_all add: mirror_ok_def ma.fits_def mn.fits_def table_ok_def)
  then have "length (mi_active m) \<le> 10000" "length (mi_info m) \<le> 10000"
      "distinct (map fst (mi_active m))"
    by (simp_all add: MaxActiveHazards_def MaxInfoEntries_def)
  ultimately show ?thesis using snap by simp
qed

definition sample_mirror_hazard :: mirror_hazard where
  "sample_mirror_hazard =
     \<lparr> mh_receiver = [], mh_topic = [], mh_event_key = ''imgw:1'', mh_source = ''imgw'',
       mh_source_id = ''1'', mh_category = [], mh_event = ''storm'', mh_severity = ''severe'',
       mh_urgency = [], mh_certainty = [], mh_headline = [], mh_description = [],
       mh_instruction = [], mh_effective_at = None, mh_expires_at = Some 10, mh_areas = [],
       mh_status = ''active'', mh_latitude = None, mh_longitude = None, mh_received_at = 1,
       mh_updated_at = 2 \<rparr>"

theorem snapshot_exact_witness:
  "sn_hazards (snd (Snapshot 10 (fold mirror_step [PutActive ''r'' ''t'' sample_mirror_hazard]
      new_mirror))) = []"
proof -
  let ?m = "fold mirror_step [PutActive ''r'' ''t'' sample_mirror_hazard] new_mirror"
  have "mi_active ?m = [(entryKey ''r'' ''t'',
      sample_mirror_hazard\<lparr>mh_receiver := ''r'', mh_topic := ''t''\<rparr>)]"
    by (simp add: mirror_step_def AddOrUpdateActive_def new_mirror_def Let_def
        MaxActiveHazards_def)
  then show ?thesis
    using snapshot_exact [OF refl, of 10 "[PutActive ''r'' ''t'' sample_mirror_hazard]"
        "fst (Snapshot 10 ?m)" "snd (Snapshot 10 ?m)"]
    by (simp add: lapsed_def sample_mirror_hazard_def)
qed

text \<open>
  Two receivers never collide, because a receiver ID is a slug and has no NUL byte.
\<close>

lemma entryKey_inj:
  "slug_match r \<Longrightarrow> slug_match r' \<Longrightarrow> entryKey r t = entryKey r' t' \<longleftrightarrow> r = r' \<and> t = t'"
  by (simp add: entryKey_def append_sep_eq slug_match_no_nul)

end
