(* ===== verification/Action_Instance.thy ===== *)
theory Action_Instance
  imports Dispatch Utf8
begin

text \<open>
  Action instances (\<open>internal/action/instance.go\<close>): a bounded queue, one sequential worker,
  retries, and permanent disabling of a plugin that ignores cancellation; and the manager that
  routes submissions (\<open>manager.go\<close>).  What a plugin call does is an argument.
\<close>

section \<open>Instances\<close>

record app_info =
  ai_version :: string
  ai_header :: string
  ai_domain :: string
  ai_repo :: string

record action_request =
  ar_id :: string
  ar_created_at :: time
  ar_event :: dispatch_event
  ar_bcc :: "string list"
  ar_callsigns :: "string list"
  ar_handles :: "string list"
  ar_app :: app_info

datatype instance_state = StateHealthy | StateDegradedA | StateDisabledA

record action_status =
  as_id :: string
  as_type :: string
  as_enabled :: bool
  as_state :: instance_state
  as_reason :: string
  as_queue_depth :: nat
  as_queue_capacity :: nat
  as_handled :: nat
  as_failures :: nat
  as_last_success :: time
  as_last_error :: time
  as_last_error_text :: string

record action_instance =
  in_id :: string
  in_typ :: string
  in_queue :: "action_request list"
  in_cap :: nat
  in_close_timeout :: time
  in_retries :: nat
  in_status :: action_status
  in_disabled :: bool
  in_handled :: nat
  in_failures :: nat

definition NewInstance :: "string \<Rightarrow> string \<Rightarrow> nat \<Rightarrow> time \<Rightarrow> int \<Rightarrow> action_instance" where
  "NewInstance i t queueSize closeTO retries =
     \<lparr> in_id = i, in_typ = t, in_queue = [], in_cap = queueSize, in_close_timeout = closeTO,
       in_retries = nat (if retries < 0 then 0 else retries),
       in_status = \<lparr> as_id = i, as_type = t, as_enabled = True, as_state = StateHealthy,
         as_reason = [], as_queue_depth = 0, as_queue_capacity = queueSize, as_handled = 0,
         as_failures = 0, as_last_success = zero_time, as_last_error = zero_time,
         as_last_error_text = [] \<rparr>,
       in_disabled = False, in_handled = 0, in_failures = 0 \<rparr>"

text \<open>
  One plugin call: it returns in time (a panic is an error), it returns after the deadline but
  within the grace period, with or without an error, or it is hung.
\<close>

datatype exec_outcome = ExecOk | ExecError string | ExecLate "string option" | ExecHung

text \<open>The texts that \<open>fmt\<close> produces for a late and for a hung call.\<close>

record exec_texts =
  et_late :: "string option \<Rightarrow> string"
  et_hung :: string

definition recordResult :: "time \<Rightarrow> string option \<Rightarrow> action_instance \<Rightarrow> action_instance" where
  "recordResult now err i =
     (case err of
        Some e \<Rightarrow>
          i\<lparr>in_failures := in_failures i + 1,
            in_status := (in_status i)\<lparr>as_state := StateDegradedA, as_failures := in_failures i + 1,
              as_last_error := now, as_last_error_text := e\<rparr>\<rparr>
      | None \<Rightarrow>
          i\<lparr>in_failures := 0,
            in_status := (in_status i)\<lparr>as_state := StateHealthy, as_failures := 0,
              as_last_success := now, as_last_error_text := []\<rparr>\<rparr>)"

definition disable_instance :: "string \<Rightarrow> action_instance \<Rightarrow> action_instance" where
  "disable_instance reason i =
     i\<lparr>in_disabled := True,
       in_status := (in_status i)\<lparr>as_state := StateDisabledA, as_reason := reason\<rparr>\<rparr>"

text \<open>\<open>executeOnce\<close>: the error of the attempt (\<open>None\<close> is success).\<close>

definition executeOnce ::
    "exec_texts \<Rightarrow> time \<Rightarrow> exec_outcome \<Rightarrow> action_instance \<Rightarrow> action_instance \<times> string option" where
  "executeOnce tx now out i =
     (case out of
        ExecOk \<Rightarrow> (recordResult now None i, None)
      | ExecError e \<Rightarrow> (recordResult now (Some e) i, Some e)
      | ExecLate e \<Rightarrow> (recordResult now (Some (et_late tx e)) i, Some (et_late tx e))
      | ExecHung \<Rightarrow> (disable_instance (et_hung tx) i, Some (et_hung tx)))"

text \<open>What one request leaves in the audit trail.\<close>

datatype trail_note =
  NoteDelivered nat | NoteFailed nat nat string | NoteRetry

datatype trail_outcome = OutcomeDelivered | OutcomeFailed

text \<open>
  The attempt loop of \<open>handle\<close>: \<open>left\<close> retries remain after attempt \<open>n\<close>; \<open>script n\<close> is what
  attempt \<open>n\<close> does and when it is recorded.  The last component counts the plugin calls.
\<close>

fun attempts ::
    "exec_texts \<Rightarrow> (nat \<Rightarrow> exec_outcome \<times> time) \<Rightarrow> nat \<Rightarrow> nat \<Rightarrow> action_instance \<Rightarrow>
      action_instance \<times> trail_note list \<times> trail_outcome \<times> nat" where
  "attempts tx script n left i =
     (case script n of (out, now) \<Rightarrow>
       (case executeOnce tx now out i of
          (i', None) \<Rightarrow> (i', [NoteDelivered n], OutcomeDelivered, 1)
        | (i', Some e) \<Rightarrow>
            let note = NoteFailed (n + 1) (in_retries i + 1) e in
            if in_disabled i' then (i', [note], OutcomeFailed, 1)
            else (case left of
                    0 \<Rightarrow> (i', [note], OutcomeFailed, 1)
                  | Suc l \<Rightarrow>
                      (case attempts tx script (n + 1) l i' of
                         (i'', logs, oc, calls) \<Rightarrow>
                           (i'', note # NoteRetry # logs, oc, Suc calls)))))"

declare attempts.simps [simp del]

definition handle_request ::
    "exec_texts \<Rightarrow> (nat \<Rightarrow> exec_outcome \<times> time) \<Rightarrow> action_instance \<Rightarrow>
      action_instance \<times> trail_note list \<times> trail_outcome \<times> nat" where
  "handle_request tx script i =
     attempts tx script 0 (in_retries i) (i\<lparr>in_handled := in_handled i + 1\<rparr>)"

text \<open>
  The worker loop and the drain at shutdown take requests alike: a request of a disabled
  instance is dropped.  \<open>script r n\<close> is attempt \<open>n\<close> of request \<open>r\<close>; the result counts the calls.
\<close>

definition take_request :: "action_instance \<Rightarrow> (action_request \<times> action_instance) option" where
  "take_request i =
     (case in_queue i of [] \<Rightarrow> None | r # rs \<Rightarrow> Some (r, i\<lparr>in_queue := rs\<rparr>))"

fun work ::
    "exec_texts \<Rightarrow> (action_request \<Rightarrow> nat \<Rightarrow> exec_outcome \<times> time) \<Rightarrow> nat \<Rightarrow> action_instance \<Rightarrow>
      action_instance \<times> nat" where
  "work tx script 0 i = (i, 0)"
| "work tx script (Suc n) i =
     (case take_request i of
        None \<Rightarrow> (i, 0)
      | Some (r, i1) \<Rightarrow>
          if in_disabled i1 then work tx script n i1
          else (case handle_request tx (script r) i1 of (i2, _, _, calls) \<Rightarrow>
                  (case work tx script n i2 of (i3, rest) \<Rightarrow> (i3, calls + rest))))"

definition instance_status :: "action_instance \<Rightarrow> action_status" where
  "instance_status i =
     (let s = (in_status i)\<lparr>as_queue_depth := length (in_queue i), as_handled := in_handled i\<rparr> in
      if as_state s \<noteq> StateDisabledA then s\<lparr>as_failures := in_failures i\<rparr> else s)"

definition DisabledInstanceStatus :: "string \<Rightarrow> string \<Rightarrow> nat \<Rightarrow> action_status" where
  "DisabledInstanceStatus i t queueSize =
     \<lparr> as_id = i, as_type = t, as_enabled = False, as_state = StateDisabledA,
       as_reason = ''disabled in configuration'', as_queue_depth = 0,
       as_queue_capacity = queueSize, as_handled = 0, as_failures = 0,
       as_last_success = zero_time, as_last_error = zero_time, as_last_error_text = [] \<rparr>"

section \<open>The manager\<close>

record action_config =
  ac_id :: string
  ac_type :: string
  ac_enabled :: bool
  ac_queue_size :: int
  ac_call_timeout :: time
  ac_shutdown_timeout :: time
  ac_retries :: int

record action_manager =
  am_instances :: "action_instance list"
  am_disabled :: "action_config list"

datatype manager_error = TypeNotRegistered string string | CreateFailed string string

definition action_defaults :: "action_config \<Rightarrow> action_config" where
  "action_defaults c =
     c\<lparr>ac_queue_size := (if ac_queue_size c < 1 then 128 else ac_queue_size c),
       ac_call_timeout := (if ac_call_timeout c \<le> 0 then 10000000000 else ac_call_timeout c),
       ac_shutdown_timeout :=
         (if ac_shutdown_timeout c \<le> 0 then 10000000000 else ac_shutdown_timeout c)\<rparr>"

definition config_instance :: "action_config \<Rightarrow> action_instance" where
  "config_instance c =
     NewInstance (ac_id c) (ac_type c) (nat (ac_queue_size c)) (ac_shutdown_timeout c) (ac_retries c)"

text \<open>\<open>known\<close> and \<open>create\<close> are the registry: the registered types and the factories' errors.\<close>

fun NewManager ::
    "(string \<Rightarrow> bool) \<Rightarrow> (action_config \<Rightarrow> string option) \<Rightarrow> action_config list \<Rightarrow>
      manager_error + action_manager" where
  "NewManager known create [] = Inr \<lparr>am_instances = [], am_disabled = []\<rparr>"
| "NewManager known create (c # cs) =
     (if \<not> known (ac_type c) then Inl (TypeNotRegistered (ac_id c) (ac_type c))
      else let c' = action_defaults c in
        if \<not> ac_enabled c'
        then (case NewManager known create cs of
                Inl e \<Rightarrow> Inl e
              | Inr m \<Rightarrow> Inr (m\<lparr>am_disabled := c' # am_disabled m\<rparr>))
        else (case create c' of
                Some e \<Rightarrow> Inl (CreateFailed (ac_id c) e)
              | None \<Rightarrow>
                  (case NewManager known create cs of
                     Inl e \<Rightarrow> Inl e
                   | Inr m \<Rightarrow> Inr (m\<lparr>am_instances := config_instance c' # am_instances m\<rparr>))))"

datatype submit_error = NotConfigured string | ActionDisabled string string | QueueFull string nat

definition try_enqueue :: "action_request \<Rightarrow> action_instance \<Rightarrow> action_instance \<times> bool" where
  "try_enqueue r i =
     (if length (in_queue i) < in_cap i then (i\<lparr>in_queue := in_queue i @ [r]\<rparr>, True)
      else (i, False))"

text \<open>\<open>byID\<close> holds the last instance of an ID; the submission updates that instance.\<close>

definition by_id :: "action_manager \<Rightarrow> string \<Rightarrow> action_instance option" where
  "by_id m i = find (\<lambda>inst. in_id inst = i) (rev (am_instances m))"

fun replace_last :: "string \<Rightarrow> action_instance \<Rightarrow> action_instance list \<Rightarrow> action_instance list" where
  "replace_last i inst [] = []"
| "replace_last i inst (x # xs) =
     (if in_id x = i \<and> i \<notin> in_id ` set xs then inst # xs else x # replace_last i inst xs)"

definition Submit ::
    "string \<Rightarrow> action_request \<Rightarrow> action_manager \<Rightarrow> submit_error + action_manager" where
  "Submit i req m =
     (case by_id m i of
        None \<Rightarrow> Inl (NotConfigured i)
      | Some inst \<Rightarrow>
          if in_disabled inst then Inl (ActionDisabled i (as_reason (instance_status inst)))
          else (case try_enqueue req inst of
                  (inst', True) \<Rightarrow>
                    Inr (m\<lparr>am_instances := replace_last i inst' (am_instances m)\<rparr>)
                | (_, False) \<Rightarrow> Inl (QueueFull i (in_cap inst))))"

definition Statuses :: "action_manager \<Rightarrow> action_status list" where
  "Statuses m =
     sort_key as_id (map instance_status (am_instances m) @
       map (\<lambda>c. DisabledInstanceStatus (ac_id c) (ac_type c) (nat (ac_queue_size c))) (am_disabled m))"

definition MaxShutdownTimeout :: "action_manager \<Rightarrow> time" where
  "MaxShutdownTimeout m = fold max (map in_close_timeout (am_instances m)) 0 + 2000000000"

interpretation aq: bounded_queue in_queue try_enqueue take_request in_cap
  by unfold_locales (auto simp: try_enqueue_def take_request_def split: if_splits list.splits)

section \<open>Attempts\<close>

lemma executeOnce_sel [simp]:
  "in_queue (fst (executeOnce tx now out i)) = in_queue i"
  "in_cap (fst (executeOnce tx now out i)) = in_cap i"
  "in_retries (fst (executeOnce tx now out i)) = in_retries i"
  "in_disabled (fst (executeOnce tx now out i)) \<longleftrightarrow> in_disabled i \<or> out = ExecHung"
  "snd (executeOnce tx now out i) = None \<longleftrightarrow> out = ExecOk"
  by (auto simp: executeOnce_def recordResult_def disable_instance_def split: exec_outcome.split)

definition final_outcome :: "exec_outcome \<Rightarrow> bool" where
  "final_outcome out \<longleftrightarrow> out = ExecOk \<or> out = ExecHung"

lemma attempts_result:
  assumes "attempts tx script n left i = (i', logs, oc, calls)" "\<not> in_disabled i"
  shows "1 \<le> calls \<and> calls \<le> left + 1 \<and>
    (\<forall>k<calls - 1. \<not> final_outcome (fst (script (n + k)))) \<and>
    (final_outcome (fst (script (n + (calls - 1)))) \<or> calls = left + 1) \<and>
    (oc = OutcomeDelivered \<longleftrightarrow> fst (script (n + (calls - 1))) = ExecOk) \<and>
    (in_disabled i' \<longleftrightarrow> fst (script (n + (calls - 1))) = ExecHung) \<and>
    in_queue i' = in_queue i \<and> in_retries i' = in_retries i"
  using assms
proof (induction left arbitrary: n i i' logs oc calls)
  case 0
  obtain out now where s: "script n = (out, now)" by fastforce
  obtain i1 e where x: "executeOnce tx now out i = (i1, e)" by fastforce
  with executeOnce_sel [of tx now out i] 0 s show ?case
    by (subst (asm) attempts.simps)
      (auto simp: Let_def final_outcome_def split: option.splits if_splits)
next
  case (Suc left)
  obtain out now where s: "script n = (out, now)" by fastforce
  obtain i1 e where x: "executeOnce tx now out i = (i1, e)" by fastforce
  note sel = executeOnce_sel [of tx now out i, unfolded x fst_conv snd_conv]
  show ?case
  proof (cases "final_outcome out")
    case True
    with Suc.prems sel s x show ?thesis
      by (subst (asm) attempts.simps)
        (auto simp: Let_def final_outcome_def split: option.splits)
  next
    case False
    then obtain err where e: "e = Some err" "\<not> in_disabled i1"
      using sel Suc.prems(2) by (cases e) (auto simp: final_outcome_def)
    obtain i2 logs2 oc2 calls2 where r: "attempts tx script (n + 1) left i1 = (i2, logs2, oc2, calls2)"
      by (cases "attempts tx script (n + 1) left i1") auto
    with Suc.prems(1) s x e have eq: "i' = i2" "oc = oc2" "calls = Suc calls2"
      by (subst (asm) attempts.simps, simp add: Let_def)+
    from Suc.IH [OF r e(2)] have ih: "1 \<le> calls2" "calls2 \<le> left + 1"
      "\<forall>k<calls2 - 1. \<not> final_outcome (fst (script (n + 1 + k)))"
      "final_outcome (fst (script (n + 1 + (calls2 - 1)))) \<or> calls2 = left + 1"
      "oc2 = OutcomeDelivered \<longleftrightarrow> fst (script (n + 1 + (calls2 - 1))) = ExecOk"
      "in_disabled i2 \<longleftrightarrow> fst (script (n + 1 + (calls2 - 1))) = ExecHung"
      "in_queue i2 = in_queue i1" "in_retries i2 = in_retries i1" by auto
    have idx: "n + 1 + (calls2 - 1) = n + (calls - 1)" using ih(1) eq(3) by simp
    have "\<not> final_outcome (fst (script (n + k)))" if "k < calls - 1" for k
    proof (cases k)
      case 0
      with False s show ?thesis by simp
    next
      case (Suc l)
      with ih(3) that eq(3) show ?thesis by (auto simp: less_diff_conv)
    qed
    with ih idx eq sel show ?thesis by simp
  qed
qed

text \<open>
  C27: one request costs at least one and at most \<open>retries + 1\<close> plugin calls; the calls stop
  with the first success or the first hung call, and otherwise all attempts are used; the
  request counts as delivered exactly when its last call succeeded in time; and the instance is
  disabled exactly when that call was hung.
\<close>

theorem handle_exact:
  assumes "handle_request tx script i = (i', logs, oc, calls)" "\<not> in_disabled i"
  shows "1 \<le> calls \<and> calls \<le> in_retries i + 1 \<and>
    (\<forall>k<calls - 1. \<not> final_outcome (fst (script k))) \<and>
    (final_outcome (fst (script (calls - 1))) \<or> calls = in_retries i + 1) \<and>
    (oc = OutcomeDelivered \<longleftrightarrow> fst (script (calls - 1)) = ExecOk) \<and>
    (in_disabled i' \<longleftrightarrow> fst (script (calls - 1)) = ExecHung)"
  using attempts_result [of tx script 0 "in_retries i" "i\<lparr>in_handled := in_handled i + 1\<rparr>"] assms
  by (simp add: handle_request_def)

definition sample_instance :: action_instance where
  "sample_instance = NewInstance ''mail'' ''smtp'' 1 10000000000 2"

definition sample_texts :: exec_texts where
  "sample_texts = \<lparr>et_late = (\<lambda>_. ''late''), et_hung = ''hung''\<rparr>"

theorem handle_exact_witness:
  "\<exists>i' logs calls. handle_request sample_texts
      (\<lambda>n. (if n = 0 then ExecError ''down'' else ExecOk, 1)) sample_instance =
      (i', logs, OutcomeDelivered, calls) \<and> calls = 2"
proof -
  let ?script = "\<lambda>n::nat. (if n = 0 then ExecError ''down'' else ExecOk, 1 :: time)"
  obtain i' logs oc calls where r:
    "handle_request sample_texts ?script sample_instance = (i', logs, oc, calls)"
    by (cases "handle_request sample_texts ?script sample_instance") auto
  have "\<not> in_disabled sample_instance" "in_retries sample_instance = 2"
    by (simp_all add: sample_instance_def NewInstance_def)
  with handle_exact [OF r] have c: "1 \<le> calls" "\<forall>k<calls - 1. \<not> final_outcome (fst (?script k))"
      "final_outcome (fst (?script (calls - 1))) \<or> calls = 3"
      "oc = OutcomeDelivered \<longleftrightarrow> fst (?script (calls - 1)) = ExecOk" by auto
  then have "calls \<noteq> 1" "\<not> 2 < calls"
    by (auto simp: final_outcome_def dest: spec [of _ 1])
  with c have "calls = 2" "oc = OutcomeDelivered" by auto
  with r show ?thesis by blast
qed

section \<open>Disabled instances\<close>

lemma work_disabled: "in_disabled i \<Longrightarrow> snd (work tx script n i) = 0 \<and> in_disabled (fst (work tx script n i))"
proof (induction n arbitrary: i)
  case (Suc n)
  then show ?case by (auto simp: take_request_def split: list.splits)
qed simp

text \<open>
  a hung plugin is never invoked again: once an instance is disabled, its worker and the
  shutdown drain call the plugin for none of the queued requests, and every later submission is
  an error.
\<close>

theorem disabled_never_invoked:
  assumes "in_disabled i"
  shows "snd (work tx script n i) = 0 \<and>
    (by_id m a = Some i \<longrightarrow>
      Submit a req m = Inl (ActionDisabled a (as_reason (in_status i))))"
  using assms work_disabled by (simp add: Submit_def instance_status_def Let_def)

theorem disabled_never_invoked_witness:
  "snd (work sample_texts (\<lambda>_ _. (ExecOk, 1)) 5 (disable_instance ''hung'' sample_instance)) = 0"
  using disabled_never_invoked [of "disable_instance ''hung'' sample_instance"]
  by (simp add: disable_instance_def)

text \<open>
  a call that succeeds after its deadline but within the grace period counts as a failure
  and is repeated when retries are configured: the plugin delivers twice.
\<close>

theorem late_success_repeated:
  "in_retries i = 1 \<Longrightarrow> \<not> in_disabled i \<Longrightarrow>
    (case handle_request tx (\<lambda>n. (if n = 0 then ExecLate None else ExecOk, t)) i of
       (i', logs, oc, calls) \<Rightarrow> calls = 2 \<and> oc = OutcomeDelivered)"
  by (simp add: handle_request_def attempts.simps executeOnce_def recordResult_def Let_def)

theorem late_success_repeated_witness:
  "\<exists>i' logs oc. handle_request sample_texts (\<lambda>n. (if n = 0 then ExecLate None else ExecOk, 7))
      (NewInstance ''mail'' ''smtp'' 1 1 1) = (i', logs, oc, 2)"
proof -
  have "in_retries (NewInstance ''mail'' ''smtp'' 1 1 1) = 1"
    "\<not> in_disabled (NewInstance ''mail'' ''smtp'' 1 1 1)" by (simp_all add: NewInstance_def)
  from late_success_repeated [OF this, of sample_texts 7] show ?thesis
    by (auto split: prod.splits)
qed

end
