(* ===== verification/Directory.thy ===== *)
theory Directory
  imports Severity
begin

text \<open>
  The part of the SQLite store that routing reads: groups and their memberships
  (\<open>internal/storage/sqlite/groups.go\<close>), the routing matrix, the recipients and the ledger of
  fired actions (\<open>routing.go\<close>).  \<open>COLLATE NOCASE\<close> and \<open>strings.ToLower\<close> fold ASCII letters.
\<close>

section \<open>Tables\<close>

record assignment =
  asg_source :: string
  asg_id :: string
  asg_min :: string

record group_row =
  gw_name :: string
  gw_created_ms :: int
  gw_updated_ms :: int

record fire_row =
  fr_group :: int
  fr_action :: string
  fr_event_key :: string
  fr_dedup :: string
  fr_at_ms :: int

record contact_row =
  ct_email :: string
  ct_discord :: string

record directory =
  dr_groups :: "(int \<times> group_row) list"
  dr_group_seq :: int
  dr_users :: "(int \<times> contact_row) list"
  dr_members :: "(int \<times> int) list"
  dr_cells :: "(int \<times> assignment) list"
  dr_fires :: "fire_row list"
  dr_callsigns :: "(int \<times> string) list"
  dr_optouts :: "(int \<times> string) list"

datatype directory_error =
  GroupNotFound | GroupNameTaken | InvalidSeverity | ForeignKey | DuplicateMember

section \<open>Groups\<close>

record group_view =
  gv_id :: int
  gv_name :: string
  gv_created_ms :: int
  gv_updated_ms :: int
  gv_members :: nat

definition group_members :: "directory \<Rightarrow> int \<Rightarrow> int list" where
  "group_members d g = map fst (filter (\<lambda>(u, h). h = g) (dr_members d))"

definition view_group :: "directory \<Rightarrow> int \<times> group_row \<Rightarrow> group_view" where
  "view_group d x =
     \<lparr> gv_id = fst x, gv_name = gw_name (snd x), gv_created_ms = gw_created_ms (snd x),
       gv_updated_ms = gw_updated_ms (snd x), gv_members = length (group_members d (fst x)) \<rparr>"

definition groups_by_name :: "directory \<Rightarrow> (int \<times> group_row) list" where
  "groups_by_name d = sort_key (\<lambda>x. to_lower (gw_name (snd x))) (dr_groups d)"

definition GetGroup :: "directory \<Rightarrow> int \<Rightarrow> directory_error + group_view" where
  "GetGroup d g =
     (case map_of (dr_groups d) g of
        None \<Rightarrow> Inl GroupNotFound | Some r \<Rightarrow> Inr (view_group d (g, r)))"

definition ListAllGroups :: "directory \<Rightarrow> group_view list" where
  "ListAllGroups d = map (view_group d) (groups_by_name d)"

text \<open>\<open>ListGroups\<close>: the clamped page and the total.\<close>

definition page_count :: "nat \<Rightarrow> int \<Rightarrow> int" where
  "page_count tot perPage = max 1 ((int tot + perPage - 1) div perPage)"

definition clamp_page :: "int \<Rightarrow> int \<Rightarrow> int" where
  "clamp_page page pages =
     (let p = (if page < 1 then 1 else page) in if p > pages then pages else p)"

definition ListGroups :: "directory \<Rightarrow> int \<Rightarrow> int \<Rightarrow> group_view list \<times> nat" where
  "ListGroups d page perPage =
     (let pp = (if perPage < 1 then 1 else perPage);
          tot = length (dr_groups d);
          p = clamp_page page (page_count tot pp)
      in (map (view_group d) (take (nat pp) (drop (nat ((p - 1) * pp)) (groups_by_name d))), tot))"

definition groupNameTaken :: "directory \<Rightarrow> string \<Rightarrow> int \<Rightarrow> bool" where
  "groupNameTaken d name excludeID \<longleftrightarrow>
     (\<exists>x\<in>set (dr_groups d). to_lower (gw_name (snd x)) = to_lower name \<and> fst x \<noteq> excludeID)"

definition CreateGroup :: "time \<Rightarrow> string \<Rightarrow> directory \<Rightarrow> directory_error + directory \<times> group_view"
  where
  "CreateGroup now name d =
     (if groupNameTaken d name 0 then Inl GroupNameTaken
      else let g = dr_group_seq d + 1;
               r = \<lparr>gw_name = name, gw_created_ms = unix_milli now, gw_updated_ms = unix_milli now\<rparr>;
               d' = d\<lparr>dr_groups := dr_groups d @ [(g, r)], dr_group_seq := g\<rparr>
           in Inr (d', view_group d' (g, r)))"

definition UpdateGroup :: "time \<Rightarrow> int \<Rightarrow> string \<Rightarrow> directory \<Rightarrow> directory_error + directory \<times> group_view"
  where
  "UpdateGroup now g name d =
     (if groupNameTaken d name g then Inl GroupNameTaken
      else (case map_of (dr_groups d) g of
              None \<Rightarrow> Inl GroupNotFound
            | Some r \<Rightarrow>
                let r' = r\<lparr>gw_name := name, gw_updated_ms := unix_milli now\<rparr>;
                    d' = d\<lparr>dr_groups := AList.update g r' (dr_groups d)\<rparr>
                in Inr (d', view_group d' (g, r'))))"

text \<open>The foreign keys cascade to memberships, routing cells and ledger rows.\<close>

definition DeleteGroup :: "int \<Rightarrow> directory \<Rightarrow> directory_error + directory" where
  "DeleteGroup g d =
     (if map_of (dr_groups d) g = None then Inl GroupNotFound
      else Inr (d\<lparr>dr_groups := AList.delete g (dr_groups d),
                  dr_members := filter (\<lambda>(u, h). h \<noteq> g) (dr_members d),
                  dr_cells := filter (\<lambda>(h, a). h \<noteq> g) (dr_cells d),
                  dr_fires := filter (\<lambda>f. fr_group f \<noteq> g) (dr_fires d)\<rparr>))"

definition GroupIDsForUser :: "directory \<Rightarrow> int \<Rightarrow> int list" where
  "GroupIDsForUser d u = sort (map snd (filter (\<lambda>(v, g). v = u) (dr_members d)))"

definition SetUserGroups :: "int \<Rightarrow> int list \<Rightarrow> directory \<Rightarrow> directory_error + directory" where
  "SetUserGroups u gs d =
     (if \<exists>g\<in>set gs. map_of (dr_groups d) g = None \<or> map_of (dr_users d) u = None
      then Inl ForeignKey
      else if \<not> distinct gs then Inl DuplicateMember
      else Inr (d\<lparr>dr_members := filter (\<lambda>(v, g). v \<noteq> u) (dr_members d) @ map (Pair u) gs\<rparr>))"

section \<open>Routing matrix\<close>

record group_routing =
  gr_id :: int
  gr_name :: string
  gr_actions :: "assignment list"

definition groupActions :: "directory \<Rightarrow> int \<Rightarrow> assignment list" where
  "groupActions d g =
     sort_key (\<lambda>a. (asg_source a, asg_id a)) (map snd (filter (\<lambda>(h, a). h = g) (dr_cells d)))"

definition GroupRouting :: "directory \<Rightarrow> int \<Rightarrow> directory_error + group_routing" where
  "GroupRouting d g =
     (case map_of (dr_groups d) g of
        None \<Rightarrow> Inl GroupNotFound
      | Some r \<Rightarrow> Inr \<lparr>gr_id = g, gr_name = gw_name r, gr_actions = groupActions d g\<rparr>)"

definition ListGroupRoutings :: "directory \<Rightarrow> group_routing list" where
  "ListGroupRoutings d =
     map (\<lambda>x. \<lparr>gr_id = fst x, gr_name = gw_name (snd x), gr_actions = groupActions d (fst x)\<rparr>)
       (groups_by_name d)"

definition cell_key :: "assignment \<Rightarrow> string" where
  "cell_key a = asg_source a @ CHR 0x00 # asg_id a"

text \<open>\<open>dedupeAssignments\<close>: the loop with its \<open>seen\<close> set.\<close>

fun dedupe_from :: "string list \<Rightarrow> assignment list \<Rightarrow> assignment list" where
  "dedupe_from seen [] = []"
| "dedupe_from seen (a # as) =
     (if asg_id a = [] then dedupe_from seen as
      else if cell_key a \<in> set seen then dedupe_from seen as
      else a # dedupe_from (cell_key a # seen) as)"

definition dedupeAssignments :: "assignment list \<Rightarrow> assignment list" where
  "dedupeAssignments as = dedupe_from [] as"

definition SetGroupRouting ::
    "time \<Rightarrow> int \<Rightarrow> assignment list \<Rightarrow> directory \<Rightarrow> directory_error + directory" where
  "SetGroupRouting now g actions d =
     (if \<exists>a\<in>set actions. \<not> severity_valid (asg_min a) then Inl InvalidSeverity
      else (case map_of (dr_groups d) g of
              None \<Rightarrow> Inl GroupNotFound
            | Some r \<Rightarrow>
                Inr (d\<lparr>dr_groups := AList.update g (r\<lparr>gw_updated_ms := unix_milli now\<rparr>) (dr_groups d),
                       dr_cells := filter (\<lambda>(h, a). h \<noteq> g) (dr_cells d) @
                         map (Pair g) (dedupeAssignments actions)\<rparr>)))"

section \<open>The ledger\<close>

definition fire_key :: "fire_row \<Rightarrow> int \<times> string \<times> string" where
  "fire_key f = (fr_group f, fr_action f, fr_dedup f)"

text \<open>\<open>INSERT OR IGNORE\<close>: a missing group violates the foreign key, which is an error.\<close>

definition ClaimActionFire ::
    "int \<Rightarrow> string \<Rightarrow> string \<Rightarrow> string \<Rightarrow> time \<Rightarrow> directory \<Rightarrow> directory_error + directory \<times> bool"
  where
  "ClaimActionFire g action eventKey dedupKey now d =
     (if (g, action, dedupKey) \<in> fire_key ` set (dr_fires d) then Inr (d, False)
      else if map_of (dr_groups d) g = None then Inl ForeignKey
      else Inr (d\<lparr>dr_fires := dr_fires d @
             [\<lparr>fr_group = g, fr_action = action, fr_event_key = eventKey, fr_dedup = dedupKey,
               fr_at_ms = unix_milli now\<rparr>]\<rparr>, True))"

definition PruneActionFires :: "time \<Rightarrow> directory \<Rightarrow> directory \<times> nat" where
  "PruneActionFires cutoff d =
     (d\<lparr>dr_fires := filter (\<lambda>f. \<not> fr_at_ms f < unix_milli cutoff) (dr_fires d)\<rparr>,
      length (filter (\<lambda>f. fr_at_ms f < unix_milli cutoff) (dr_fires d)))"

section \<open>Recipients\<close>

text \<open>The loops that keep the first spelling of every address.\<close>

fun dedupe_nocase :: "string list \<Rightarrow> string list \<Rightarrow> string list" where
  "dedupe_nocase seen [] = []"
| "dedupe_nocase seen (x # xs) =
     (if to_lower x \<in> set seen then dedupe_nocase seen xs
      else x # dedupe_nocase (to_lower x # seen) xs)"

definition opted_out :: "directory \<Rightarrow> int \<Rightarrow> string \<Rightarrow> bool" where
  "opted_out d u channel \<longleftrightarrow> (u, channel) \<in> set (dr_optouts d)"

definition member_contacts :: "directory \<Rightarrow> int \<Rightarrow> string \<Rightarrow> (contact_row \<Rightarrow> string) \<Rightarrow> string list" where
  "member_contacts d g channel field =
     sort_key to_lower
       (filter (\<lambda>x. x \<noteq> [])
         (map (field \<circ> snd)
           (filter (\<lambda>(u, c). (u, g) \<in> set (dr_members d) \<and> \<not> opted_out d u channel) (dr_users d))))"

definition GroupRecipientEmails :: "directory \<Rightarrow> int \<Rightarrow> string list" where
  "GroupRecipientEmails d g = dedupe_nocase [] (member_contacts d g ''smtp'' ct_email)"

definition GroupRecipientDiscord :: "directory \<Rightarrow> int \<Rightarrow> string list" where
  "GroupRecipientDiscord d g = dedupe_nocase [] (member_contacts d g ''discord'' ct_discord)"

text \<open>\<open>SELECT DISTINCT\<close> on a \<open>NOCASE\<close> column keeps one row per folded call sign.\<close>

definition GroupRecipientAPRS :: "directory \<Rightarrow> int \<Rightarrow> string list" where
  "GroupRecipientAPRS d g =
     dedupe_nocase [] (sort_key to_lower
       (map snd (filter (\<lambda>(u, c). (u, g) \<in> set (dr_members d) \<and> \<not> opted_out d u ''aprs'')
         (dr_callsigns d))))"

section \<open>Correctness of the tables\<close>

lemma dedupe_from_set:
  "a \<in> set (dedupe_from seen as) \<Longrightarrow> a \<in> set as \<and> asg_id a \<noteq> [] \<and> cell_key a \<notin> set seen"
  by (induction seen as rule: dedupe_from.induct) (auto split: if_splits)

lemma dedupe_from_distinct: "distinct (map cell_key (dedupe_from seen as))"
proof (induction seen as rule: dedupe_from.induct)
  case (2 seen a as)
  have "cell_key a \<notin> cell_key ` set (dedupe_from (cell_key a # seen) as)"
    using dedupe_from_set by fastforce
  with 2 show ?case by simp
qed simp

lemma dedupe_from_complete:
  "a \<in> set as \<Longrightarrow> asg_id a \<noteq> [] \<Longrightarrow>
    cell_key a \<in> set seen \<or> cell_key a \<in> cell_key ` set (dedupe_from seen as)"
  by (induction seen as rule: dedupe_from.induct) (auto split: if_splits)

definition cells_of :: "directory \<Rightarrow> int \<Rightarrow> assignment set" where
  "cells_of d g = {a. (g, a) \<in> set (dr_cells d)}"

lemma set_groupActions: "set (groupActions d g) = cells_of d g"
  by (force simp: groupActions_def cells_of_def)

text \<open>
  storing a routing matrix and reading it back gives its cells with a non-empty action ID,
  one per (source, action), sorted, with the first threshold of each kept; other groups' cells
  do not change; and an unknown group or an invalid threshold changes nothing.
\<close>

theorem routing_roundtrip:
  assumes "SetGroupRouting now g actions d = Inr d'"
  shows "(\<exists>r. GroupRouting d' g = Inr r \<and>
      gr_actions r = sort_key (\<lambda>a. (asg_source a, asg_id a)) (dedupeAssignments actions) \<and>
      distinct (map cell_key (gr_actions r)) \<and>
      cell_key ` set (gr_actions r) = cell_key ` {a \<in> set actions. asg_id a \<noteq> []} \<and>
      (\<forall>a\<in>set (gr_actions r). severity_valid (asg_min a))) \<and>
    (\<forall>h. h \<noteq> g \<longrightarrow> groupActions d' h = groupActions d h)"
proof -
  from assms obtain r where r: "map_of (dr_groups d) g = Some r"
    and valid: "\<forall>a\<in>set actions. severity_valid (asg_min a)"
    and d': "d' = d\<lparr>dr_groups := AList.update g (r\<lparr>gw_updated_ms := unix_milli now\<rparr>) (dr_groups d),
      dr_cells := filter (\<lambda>(h, a). h \<noteq> g) (dr_cells d) @ map (Pair g) (dedupeAssignments actions)\<rparr>"
    by (auto simp: SetGroupRouting_def split: if_splits option.splits)
  let ?as = "dedupeAssignments actions"
  have own: "map snd (filter (\<lambda>(h, a). h = g)
      (filter (\<lambda>(h, a). h \<noteq> g) xs @ map (Pair g) as)) = as" for xs and as :: "assignment list"
  proof -
    have "filter (\<lambda>(h, a). h = g) (filter (\<lambda>(h, a). h \<noteq> g) xs) = []" by (induction xs) auto
    moreover have "map snd (filter (\<lambda>(h, a). h = g) (map (Pair g) as)) = as" by (induction as) auto
    ultimately show ?thesis by (simp only: filter_append map_append) simp
  qed
  have fo: "filter (\<lambda>(h, a). h = k) (filter (\<lambda>(h, a). h \<noteq> g) xs @ map (Pair g) as) =
      filter (\<lambda>(h, a). h = k) xs" if "k \<noteq> g" for k xs and as :: "assignment list"
    using that by (induction xs) (auto simp: filter_empty_conv)
  have act: "groupActions d' g = sort_key (\<lambda>a. (asg_source a, asg_id a)) ?as"
  proof -
    have "dr_cells d' = filter (\<lambda>(h, a). h \<noteq> g) (dr_cells d) @ map (Pair g) ?as"
      by (simp add: d')
    then show ?thesis unfolding groupActions_def by (simp only: own)
  qed
  have "distinct (map cell_key ?as)" by (simp add: dedupeAssignments_def dedupe_from_distinct)
  then have "distinct (map cell_key (groupActions d' g))"
    by (simp add: act distinct_map)
  moreover have "cell_key ` set ?as = cell_key ` {a \<in> set actions. asg_id a \<noteq> []}"
    using dedupe_from_complete [of _ actions "[]"] dedupe_from_set [of _ "[]" actions]
    by (fastforce simp: dedupeAssignments_def)
  moreover have "\<forall>a\<in>set ?as. severity_valid (asg_min a)"
    using valid dedupe_from_set [of _ "[]" actions] by (auto simp: dedupeAssignments_def)
  moreover have "GroupRouting d' g = Inr \<lparr>gr_id = g, gr_name = gw_name r, gr_actions = groupActions d' g\<rparr>"
    by (simp add: GroupRouting_def d')
  moreover have "groupActions d' h = groupActions d h" if "h \<noteq> g" for h
    using fo [OF that] by (simp add: groupActions_def d')
  ultimately show ?thesis by (simp add: act)
qed

definition sample_directory :: directory where
  "sample_directory =
     \<lparr> dr_groups = [(1, \<lparr>gw_name = ''ops'', gw_created_ms = 0, gw_updated_ms = 0\<rparr>)],
       dr_group_seq = 1, dr_users = [(1, \<lparr>ct_email = ''a@b.c'', ct_discord = []\<rparr>)],
       dr_members = [(1, 1)], dr_cells = [], dr_fires = [], dr_callsigns = [], dr_optouts = [] \<rparr>"

definition sample_cell :: assignment where
  "sample_cell = \<lparr>asg_source = ''imgw'', asg_id = ''mail'', asg_min = ''minor''\<rparr>"

lemma sample_set_routing:
  "\<exists>d'. SetGroupRouting 5 1 [sample_cell, sample_cell] sample_directory = Inr d'"
proof -
  have "severity_valid (asg_min sample_cell)"
    using severity_valid_iff by (force simp: sample_cell_def intro: exI [of _ Minor])
  then show ?thesis by (simp add: SetGroupRouting_def sample_directory_def)
qed

theorem routing_roundtrip_witness:
  "\<exists>d' r. SetGroupRouting 5 1 [sample_cell, sample_cell] sample_directory = Inr d' \<and>
    GroupRouting d' 1 = Inr r \<and> gr_actions r = [sample_cell]"
proof -
  obtain d' where d': "SetGroupRouting 5 1 [sample_cell, sample_cell] sample_directory = Inr d'"
    using sample_set_routing by blast
  have "dedupeAssignments [sample_cell, sample_cell] = [sample_cell]"
    by (simp add: dedupeAssignments_def sample_cell_def)
  with routing_roundtrip [OF d'] d' show ?thesis by auto
qed

end
