(* ===== verification/Decimal.thy ===== *)
theory Decimal
  imports Prelude
begin

text \<open>
  Decimal integers as \<open>fmt\<close> and \<open>strconv\<close> write and read them (\<open>%d\<close>, \<open>strconv.Itoa\<close>,
  \<open>strconv.Atoi\<close> on 64-bit integers).
\<close>

definition digit_char :: "nat \<Rightarrow> char" where
  "digit_char n = char_of (48 + n)"

definition digit_value :: "char \<Rightarrow> nat" where
  "digit_value c = of_char c - 48"

fun dec_nat :: "nat \<Rightarrow> string" where
  "dec_nat n = (if n < 10 then [digit_char n] else dec_nat (n div 10) @ [digit_char (n mod 10)])"

declare dec_nat.simps [simp del]

definition dec_int :: "int \<Rightarrow> string" where
  "dec_int i = (if i < 0 then CHR ''-'' # dec_nat (nat (- i)) else dec_nat (nat i))"

definition digits_value :: "string \<Rightarrow> nat" where
  "digits_value s = foldl (\<lambda>n c. 10 * n + digit_value c) 0 s"

text \<open>\<open>strconv.Atoi\<close>: an optional sign and at least one digit, in the range of \<open>int64\<close>.\<close>

definition atoi_digits :: "string \<Rightarrow> nat option" where
  "atoi_digits s = (if s \<noteq> [] \<and> list_all is_digit s then Some (digits_value s) else None)"

definition Atoi :: "string \<Rightarrow> int option" where
  "Atoi s =
     (case s of
        [] \<Rightarrow> None
      | c # cs \<Rightarrow>
          let neg = (c = CHR ''-''); body = (if c = CHR ''-'' \<or> c = CHR ''+'' then cs else s) in
          (case atoi_digits body of
             None \<Rightarrow> None
           | Some n \<Rightarrow>
               let v = (if neg then - int n else int n) in
               if - (2 ^ 63) \<le> v \<and> v < 2 ^ 63 then Some v else None))"

lemma digit_char_value [simp]: "n < 10 \<Longrightarrow> digit_value (digit_char n) = n"
  by (simp add: digit_char_def digit_value_def)

lemma is_digit_char [simp]: "n < 10 \<Longrightarrow> is_digit (digit_char n)"
  by (simp add: digit_char_def is_digit_def byte_range_def)

lemma dec_nat_not_Nil [simp]: "dec_nat n \<noteq> []"
  by (subst dec_nat.simps) simp

lemma dec_nat_digits: "list_all is_digit (dec_nat n)"
proof (induction n rule: dec_nat.induct)
  case (1 n)
  then show ?case by (subst dec_nat.simps) simp
qed

lemma digits_value_dec [simp]: "digits_value (dec_nat n) = n"
proof (induction n rule: dec_nat.induct)
  case (1 n)
  then show ?case by (subst dec_nat.simps) (simp add: digits_value_def)
qed

lemma dec_nat_inj: "dec_nat m = dec_nat n \<longleftrightarrow> m = n"
  by (metis digits_value_dec)

lemma not_digit: "\<not> is_digit (CHR '':'')" "\<not> is_digit (CHR ''-'')" "\<not> is_digit (CHR ''+'')"
  by (simp_all add: is_digit_def byte_range_def)

lemma dec_nat_free: "c \<in> set (dec_nat n) \<Longrightarrow> is_digit c"
  using dec_nat_digits by (auto simp: list_all_iff)

lemma dec_int_free: "CHR '':'' \<notin> set (dec_int i)"
  using dec_nat_free not_digit by (auto simp: dec_int_def)

lemma dec_int_inj: "dec_int i = dec_int j \<longleftrightarrow> i = j"
proof
  have hd: "hd (dec_nat n) \<noteq> CHR ''-''" for n
    using dec_nat_free [of "hd (dec_nat n)" n] not_digit by auto
  then have neq: "CHR ''-'' # s \<noteq> dec_nat n" for s n by (metis list.sel(1))
  assume "dec_int i = dec_int j"
  then show "i = j"
    using neq neq [THEN not_sym] by (auto simp: dec_int_def dec_nat_inj split: if_splits)
qed simp

lemma Atoi_dec_int:
  assumes "- (2 ^ 63) \<le> i" "i < 2 ^ 63"
  shows "Atoi (dec_int i) = Some i"
proof -
  have d: "atoi_digits (dec_nat n) = Some n" for n
    by (simp add: atoi_digits_def dec_nat_digits)
  show ?thesis
  proof (cases "i < 0")
    case True
    then show ?thesis using assms d by (simp add: dec_int_def Atoi_def Let_def)
  next
    case False
    obtain c cs where s: "dec_nat (nat i) = c # cs" by (cases "dec_nat (nat i)") auto
    then have "is_digit c" using dec_nat_free [of c "nat i"] by simp
    then have "c \<noteq> CHR ''-''" "c \<noteq> CHR ''+''" using not_digit by auto
    then show ?thesis
      using False assms d [of "nat i"] s by (simp add: dec_int_def Atoi_def Let_def)
  qed
qed

end
