(* ===== verification/Ledger_Contract.thy ===== *)
theory Ledger_Contract
  imports Prelude
begin

text \<open>
  The contract of a ledger of claims: the first claim of a key wins, every later one is told so.
  A claim that cannot be recorded changes nothing.
\<close>

locale claim_ledger =
  fixes claimed :: "'s \<Rightarrow> 'k set"
    and claim :: "'i \<Rightarrow> 'k \<Rightarrow> 's \<Rightarrow> ('s \<times> bool) option"
  assumes claim_won: "claim i k s = Some (s', True) \<Longrightarrow> k \<notin> claimed s \<and> claimed s' = insert k (claimed s)"
    and claim_lost: "claim i k s = Some (s', False) \<Longrightarrow> k \<in> claimed s \<and> claimed s' = claimed s"
begin

text \<open>A sequence of claims and the keys that won, in order.\<close>

fun claims :: "('i \<times> 'k) list \<Rightarrow> 's \<Rightarrow> 's \<times> 'k list" where
  "claims [] s = (s, [])"
| "claims ((i, k) # xs) s =
     (case claim i k s of
        None \<Rightarrow> claims xs s
      | Some (s1, ok) \<Rightarrow>
          (case claims xs s1 of (s2, won) \<Rightarrow> (s2, if ok then k # won else won)))"

lemma claim_grows: "claim i k s = Some (s', ok) \<Longrightarrow> claimed s' = insert k (claimed s)"
  by (cases ok) (auto dest: claim_won claim_lost)

lemma claims_once:
  "claims xs s = (s', won) \<Longrightarrow>
    distinct won \<and> set won \<inter> claimed s = {} \<and> claimed s' = claimed s \<union> set won"
proof (induction xs arbitrary: s won)
  case (Cons x xs)
  obtain i k where x: "x = (i, k)" by fastforce
  show ?case
  proof (cases "claim i k s")
    case None
    with Cons x show ?thesis by simp
  next
    case (Some p)
    obtain s1 ok where p: "claim i k s = Some (s1, ok)" using Some by (cases p) simp
    obtain won1 where w: "claims xs s1 = (s', won1)" "won = (if ok then k # won1 else won1)"
      using Cons.prems p x by (auto split: prod.splits)
    from Cons.IH [OF w(1)] w(2) claim_won [of i k s s1] claim_lost [of i k s s1] p show ?thesis
      by (cases ok) auto
  qed
qed simp

end

end
