(* ===== verification/Routing.thy ===== *)
theory Routing
  imports Directory Action_Instance Decimal Ledger_Contract Messages
begin

text \<open>
  The rule engine (\<open>internal/routing/engine.go\<close>): it takes hazard transitions from the ingress,
  picks the best cell of every group for every action, claims the delivery in the durable ledger
  and submits the action.  Audit notes and metric counters are left out; they are written at the
  same places and decide nothing.
\<close>

section \<open>The engine\<close>

record engine =
  en_rules :: "group_routing list"
  en_bcc :: "(int \<times> string list) list"
  en_aprs :: "(int \<times> string list) list"
  en_discord :: "(int \<times> string list) list"
  en_app :: app_info
  en_seen :: nat
  en_skipped :: nat
  en_matched :: nat
  en_fired :: nat
  en_failed :: nat
  en_deduped :: nat
  en_load_errors :: nat

definition new_engine :: "app_info \<Rightarrow> engine" where
  "new_engine app =
     \<lparr> en_rules = [], en_bcc = [], en_aprs = [], en_discord = [], en_app = app, en_seen = 0,
       en_skipped = 0, en_matched = 0, en_fired = 0, en_failed = 0, en_deduped = 0,
       en_load_errors = 0 \<rparr>"

text \<open>
  \<open>refresh\<close>.  \<open>list_ok\<close> says whether the rules could be read, \<open>who_ok g\<close> whether the recipients
  of group \<open>g\<close> could; a group whose recipients fail keeps its rule without recipients.
\<close>

definition refresh :: "bool \<Rightarrow> (int \<Rightarrow> bool) \<Rightarrow> directory \<Rightarrow> engine \<Rightarrow> engine" where
  "refresh list_ok who_ok d e =
     (if \<not> list_ok then e\<lparr>en_load_errors := en_load_errors e + 1\<rparr>
      else
        let rules = ListGroupRoutings d;
            gs = map gr_id (filter (\<lambda>r. gr_actions r \<noteq> [] \<and> who_ok (gr_id r)) rules)
        in e\<lparr> en_rules := rules,
              en_bcc := map (\<lambda>g. (g, GroupRecipientEmails d g)) gs,
              en_aprs := map (\<lambda>g. (g, GroupRecipientAPRS d g)) gs,
              en_discord := map (\<lambda>g. (g, GroupRecipientDiscord d g)) gs \<rparr>)"

definition recipients :: "(int \<times> string list) list \<Rightarrow> int \<Rightarrow> string list" where
  "recipients m g = (case map_of m g of None \<Rightarrow> [] | Some xs \<Rightarrow> xs)"

definition meetsThreshold :: "nat \<Rightarrow> string \<Rightarrow> bool" where
  "meetsThreshold rank minSeverity =
     (let (threshold, ok) = severity_rank minSeverity in
      rank \<ge> (if ok then threshold else 0))"

definition transition_text :: "transition_type \<Rightarrow> string" where
  "transition_text t =
     (case t of
        TransitionNew \<Rightarrow> ''hazard_new'' | TransitionUpdated \<Rightarrow> ''hazard_updated''
      | TransitionCancelled \<Rightarrow> ''hazard_cancelled'' | TransitionExpired \<Rightarrow> ''hazard_expired''
      | TransitionOther s \<Rightarrow> s)"

text \<open>
  \<open>hash\<close> is the first 16 bytes of SHA-256 in hex; \<open>UnixNano\<close> is exact for the years 1678 to 2262.
\<close>

definition dedup_content :: "hazard_transition \<Rightarrow> string" where
  "dedup_content h =
     join_with ''|'' [transition_text (ht_type h), ht_key h, ht_source h, dec_int (ht_timestamp h),
       hz_event_key (ht_hazard h), hz_severity (ht_hazard h), hz_urgency (ht_hazard h),
       hz_certainty (ht_hazard h), hz_headline (ht_hazard h)]"

definition fireDedupKey :: "(string \<Rightarrow> string) \<Rightarrow> hazard_transition \<Rightarrow> string" where
  "fireDedupKey hash h =
     (if ht_change_id h \<noteq> 0
      then ''c:'' @ ht_source h @ '':'' @ ht_key h @ '':'' @ dec_int (ht_change_id h)
      else ''h:'' @ hash (dedup_content h))"

section \<open>Cells\<close>

definition better_cell :: "string \<Rightarrow> (string \<times> assignment) list \<Rightarrow> assignment \<Rightarrow>
    (string \<times> assignment) list" where
  "better_cell src best a =
     (if asg_source a \<noteq> [] \<and> asg_source a \<noteq> src then best
      else (case map_of best (asg_id a) of
              None \<Rightarrow> AList.update (asg_id a) a best
            | Some cur \<Rightarrow>
                if length (asg_source a) > length (asg_source cur)
                then AList.update (asg_id a) a best else best))"

text \<open>The map \<open>best\<close> of the most specific matching cell per action.\<close>

definition best_cells :: "string \<Rightarrow> assignment list \<Rightarrow> (string \<times> assignment) list" where
  "best_cells src cells = foldl (better_cell src) [] cells"

section \<open>Events\<close>

text \<open>
  The state an event is handled in, and the submissions it made: group, action, deduplication
  key.
\<close>

record route_state =
  ro_engine :: engine
  ro_dir :: directory
  ro_mgr :: action_manager
  ro_fires :: "(int \<times> string \<times> string) list"

definition build_request :: "engine \<Rightarrow> time \<Rightarrow> dispatch_event \<Rightarrow> hazard_transition \<Rightarrow> int \<Rightarrow> string \<Rightarrow>
    action_request" where
  "build_request e now ev h g a =
     \<lparr> ar_id = ht_key h @ ''/'' @ a, ar_created_at = now, ar_event = ev,
       ar_bcc = recipients (en_bcc e) g, ar_callsigns = recipients (en_aprs e) g,
       ar_handles = recipients (en_discord e) g, ar_app = en_app e \<rparr>"

definition submit_fire ::
    "time \<Rightarrow> dispatch_event \<Rightarrow> hazard_transition \<Rightarrow> string \<Rightarrow> int \<Rightarrow> assignment \<Rightarrow> route_state \<Rightarrow>
      route_state" where
  "submit_fire now ev h key g a s =
     (let e = ro_engine s; s' = s\<lparr>ro_fires := ro_fires s @ [(g, asg_id a, key)]\<rparr> in
      case Submit (asg_id a) (build_request e now ev h g (asg_id a)) (ro_mgr s) of
        Inl _ \<Rightarrow> s'\<lparr>ro_engine := e\<lparr>en_failed := en_failed e + 1\<rparr>\<rparr>
      | Inr m \<Rightarrow> s'\<lparr>ro_engine := e\<lparr>en_fired := en_fired e + 1\<rparr>, ro_mgr := m\<rparr>)"

text \<open>
  One cell of \<open>best\<close>; \<open>db\<close> says whether the ledger's statement is carried out.  A ledger failure
  never suppresses the alert.
\<close>

definition fire_cell ::
    "(int \<Rightarrow> string \<Rightarrow> bool) \<Rightarrow> (string \<Rightarrow> string) \<Rightarrow> time \<Rightarrow> dispatch_event \<Rightarrow> hazard_transition \<Rightarrow>
      nat \<Rightarrow> int \<Rightarrow> assignment \<Rightarrow> route_state \<Rightarrow> route_state" where
  "fire_cell db hash now ev h rank g a s =
     (if \<not> meetsThreshold rank (asg_min a) then s
      else
        let key = fireDedupKey hash h in
        if \<not> db g (asg_id a) then submit_fire now ev h key g a s
        else (case ClaimActionFire g (asg_id a) (ht_key h) key now (ro_dir s) of
                Inl _ \<Rightarrow> submit_fire now ev h key g a s
              | Inr (d, claimed) \<Rightarrow>
                  if claimed then submit_fire now ev h key g a (s\<lparr>ro_dir := d\<rparr>)
                  else s\<lparr>ro_engine := (ro_engine s)\<lparr>en_deduped := en_deduped (ro_engine s) + 1\<rparr>\<rparr>))"

definition route_group ::
    "(int \<Rightarrow> string \<Rightarrow> bool) \<Rightarrow> (string \<Rightarrow> string) \<Rightarrow> time \<Rightarrow> dispatch_event \<Rightarrow> hazard_transition \<Rightarrow>
      nat \<Rightarrow> string \<Rightarrow> group_routing \<Rightarrow> route_state \<Rightarrow> route_state" where
  "route_group db hash now ev h rank src rule s =
     (if gr_actions rule = [] then s
      else
        let s' = fold (fire_cell db hash now ev h rank (gr_id rule))
                   (map snd (best_cells src (gr_actions rule))) s;
            e = ro_engine s'
        in if en_fired e > en_fired (ro_engine s)
           then s'\<lparr>ro_engine := e\<lparr>en_matched := en_matched e + 1\<rparr>\<rparr> else s')"

definition event_rank :: "hazard_transition \<Rightarrow> nat" where
  "event_rank h =
     (let (rank, ok) = severity_rank (to_lower (trim_space (hz_severity (ht_hazard h)))) in
      if ok then rank else 0)"

definition event_source :: "hazard_transition \<Rightarrow> string" where
  "event_source h = to_lower (trim_space (hz_source (ht_hazard h)))"

definition handle_event ::
    "(int \<Rightarrow> string \<Rightarrow> bool) \<Rightarrow> (string \<Rightarrow> string) \<Rightarrow> time \<Rightarrow> dispatch_event \<Rightarrow> route_state \<Rightarrow>
      route_state" where
  "handle_event db hash now ev s =
     (case (de_kind ev, de_hazard ev) of
        (EventHazardTransition, Some h) \<Rightarrow>
          let e = ro_engine s; s1 = s\<lparr>ro_engine := e\<lparr>en_seen := en_seen e + 1\<rparr>\<rparr> in
          if ht_type h = TransitionCancelled \<or> ht_type h = TransitionExpired
          then s1\<lparr>ro_engine := (ro_engine s1)\<lparr>en_skipped := en_skipped (ro_engine s1) + 1\<rparr>\<rparr>
          else fold (route_group db hash now ev h (event_rank h) (event_source h))
                 (en_rules (ro_engine s1)) s1
      | _ \<Rightarrow> s)"

section \<open>The best cell\<close>

text \<open>
  What the loop should pick for an action: the first cell for exactly this source, else the
  first cell for any source.
\<close>

definition best_spec :: "string \<Rightarrow> assignment list \<Rightarrow> string \<Rightarrow> assignment option" where
  "best_spec src cells a =
     (case find (\<lambda>c. asg_id c = a \<and> asg_source c = src \<and> src \<noteq> []) cells of
        Some c \<Rightarrow> Some c
      | None \<Rightarrow> find (\<lambda>c. asg_id c = a \<and> asg_source c = []) cells)"

lemma find_snoc:
  "find P (xs @ [x]) = (case find P xs of None \<Rightarrow> if P x then Some x else None | Some y \<Rightarrow> Some y)"
  by (induction xs) auto

lemma best_spec_source:
  "best_spec src cells a = Some c \<Longrightarrow> asg_id c = a \<and> (asg_source c = src \<or> asg_source c = [])"
  by (auto simp: best_spec_def find_Some_iff split: option.splits)

lemma better_cell_lookup:
  "map_of (better_cell src b c) a =
    (if asg_id c \<noteq> a \<or> asg_source c \<noteq> [] \<and> asg_source c \<noteq> src then map_of b a
     else (case map_of b a of
             None \<Rightarrow> Some c
           | Some cur \<Rightarrow> if length (asg_source cur) < length (asg_source c) then Some c else Some cur))"
  by (auto simp: better_cell_def split: option.split)

lemma best_spec_snoc:
  "best_spec src (cells @ [c]) a =
    (if asg_id c \<noteq> a \<or> asg_source c \<noteq> [] \<and> asg_source c \<noteq> src then best_spec src cells a
     else (case best_spec src cells a of
             None \<Rightarrow> Some c
           | Some cur \<Rightarrow> if length (asg_source cur) < length (asg_source c) then Some c else Some cur))"
proof -
  have S: "asg_source d = src" if "find (\<lambda>c. asg_id c = a \<and> asg_source c = src \<and> src \<noteq> []) cells = Some d" for d
    using that by (auto simp: find_Some_iff)
  have T: "asg_source d = []" if "find (\<lambda>c. asg_id c = a \<and> asg_source c = []) cells = Some d" for d
    using that by (auto simp: find_Some_iff)
  show ?thesis
  proof (cases "find (\<lambda>c. asg_id c = a \<and> asg_source c = src \<and> src \<noteq> []) cells")
    case (Some d)
    with S [OF Some] show ?thesis unfolding best_spec_def find_snoc by auto
  next
    case None
    show ?thesis
    proof (cases "find (\<lambda>c. asg_id c = a \<and> asg_source c = []) cells")
      case (Some d)
      with T [OF Some] None show ?thesis unfolding best_spec_def find_snoc by auto
    next
      case none: None
      with None show ?thesis unfolding best_spec_def find_snoc by auto
    qed
  qed
qed

lemma best_cells_exact: "map_of (best_cells src cells) a = best_spec src cells a"
proof (induction cells rule: rev_induct)
  case Nil
  then show ?case by (simp add: best_cells_def best_spec_def)
next
  case (snoc c cells)
  have "best_cells src (cells @ [c]) = better_cell src (best_cells src cells) c"
    by (simp add: best_cells_def)
  with snoc show ?case by (simp only: better_cell_lookup best_spec_snoc)
qed

lemma best_cells_ids:
  "distinct (map fst (best_cells src cells)) \<and> (\<forall>(a, c)\<in>set (best_cells src cells). asg_id c = a)"
proof (induction cells rule: rev_induct)
  case (snoc c cells)
  have step: "best_cells src (cells @ [c]) = better_cell src (best_cells src cells) c"
    by (simp add: best_cells_def)
  have u: "(\<forall>(a, c)\<in>set (AList.update (asg_id c) c b). asg_id c = a)"
    if "distinct (map fst b)" "\<forall>(a, c)\<in>set b. asg_id c = a" for b
    using that by (intro table_all_update) (auto simp: table_ok_def)
  from snoc u show ?case
    unfolding step better_cell_def by (auto simp: distinct_update split: option.split)
qed (simp add: best_cells_def)

lemma best_cells_set:
  "c \<in> set (map snd (best_cells src cells)) \<longleftrightarrow> best_spec src cells (asg_id c) = Some c"
proof
  assume "c \<in> set (map snd (best_cells src cells))"
  then obtain a where "(a, c) \<in> set (best_cells src cells)" by auto
  with best_cells_ids [of src cells] have "map_of (best_cells src cells) (asg_id c) = Some c" by auto
  then show "best_spec src cells (asg_id c) = Some c" by (simp add: best_cells_exact)
next
  assume "best_spec src cells (asg_id c) = Some c"
  then have "map_of (best_cells src cells) (asg_id c) = Some c" by (simp add: best_cells_exact)
  then show "c \<in> set (map snd (best_cells src cells))" by (force dest: map_of_SomeD)
qed

section \<open>Claims\<close>

definition ledger :: "directory \<Rightarrow> (int \<times> string \<times> string) set" where
  "ledger d = fire_key ` set (dr_fires d)"

definition claim_opt ::
    "string \<times> time \<Rightarrow> int \<times> string \<times> string \<Rightarrow> directory \<Rightarrow> (directory \<times> bool) option" where
  "claim_opt i k d =
     (case ClaimActionFire (fst k) (fst (snd k)) (fst i) (snd (snd k)) (snd i) d of
        Inl _ \<Rightarrow> None | Inr x \<Rightarrow> Some x)"

interpretation cl: claim_ledger ledger claim_opt
  by unfold_locales
    (auto simp: claim_opt_def ClaimActionFire_def ledger_def fire_key_def split: if_splits)

lemma ClaimActionFire_Inr:
  "ClaimActionFire g a ek key now d = Inr (d', ok) \<Longrightarrow>
    claim_opt (ek, now) (g, a, key) d = Some (d', ok) \<and> dr_groups d' = dr_groups d \<and>
    dr_cells d' = dr_cells d"
  by (auto simp: claim_opt_def ClaimActionFire_def split: if_splits)

text \<open>What handling adds: the wanted keys that are not in the ledger.\<close>

definition adv :: "(int \<times> string \<times> string) set \<Rightarrow> route_state \<Rightarrow> route_state \<Rightarrow> bool" where
  "adv W s t \<longleftrightarrow>
     set (ro_fires t) = set (ro_fires s) \<union> (W - ledger (ro_dir s)) \<and>
     ledger (ro_dir s) \<subseteq> ledger (ro_dir t) \<and> ledger (ro_dir t) \<subseteq> ledger (ro_dir s) \<union> W \<and>
     en_rules (ro_engine t) = en_rules (ro_engine s) \<and>
     dr_groups (ro_dir t) = dr_groups (ro_dir s)"

lemma adv_trans: "adv W s t \<Longrightarrow> adv V t u \<Longrightarrow> adv (W \<union> V) s u"
  unfolding adv_def by auto

lemma adv_refl: "adv {} s s"
  by (simp add: adv_def)

lemma adv_engine: "adv W s t \<Longrightarrow> en_rules e = en_rules (ro_engine t) \<Longrightarrow> adv W s (t\<lparr>ro_engine := e\<rparr>)"
  by (simp add: adv_def)

lemma adv_fold:
  "(\<And>x s. x \<in> set xs \<Longrightarrow> adv (W x) s (f x s)) \<Longrightarrow> adv (\<Union> (W ` set xs)) s (fold f xs s)"
proof (induction xs arbitrary: s)
  case (Cons x xs)
  have "adv (W x) s (f x s)" using Cons.prems by simp
  moreover have "adv (\<Union> (W ` set xs)) (f x s) (fold f xs (f x s))" using Cons by simp
  ultimately show ?case using adv_trans by fastforce
qed (simp add: adv_refl)

lemma submit_fire_sel [simp]:
  "ro_fires (submit_fire now ev h key g a s) = ro_fires s @ [(g, asg_id a, key)]"
  "ro_dir (submit_fire now ev h key g a s) = ro_dir s"
  "en_rules (ro_engine (submit_fire now ev h key g a s)) = en_rules (ro_engine s)"
  by (simp_all add: submit_fire_def Let_def split: sum.split)

definition wanted :: "nat \<Rightarrow> string \<Rightarrow> int \<Rightarrow> assignment \<Rightarrow> (int \<times> string \<times> string) set" where
  "wanted rank key g a = (if meetsThreshold rank (asg_min a) then {(g, asg_id a, key)} else {})"

lemma fire_cell_adv:
  "adv (wanted rank (fireDedupKey hash h) g a) s (fire_cell (\<lambda>_ _. True) hash now ev h rank g a s)"
proof -
  let ?k = "fireDedupKey hash h"
  consider "\<not> meetsThreshold rank (asg_min a)"
    | e where "meetsThreshold rank (asg_min a)"
        "ClaimActionFire g (asg_id a) (ht_key h) ?k now (ro_dir s) = Inl e"
    | d ok where "meetsThreshold rank (asg_min a)"
        "ClaimActionFire g (asg_id a) (ht_key h) ?k now (ro_dir s) = Inr (d, ok)"
    by (cases "ClaimActionFire g (asg_id a) (ht_key h) ?k now (ro_dir s)") auto
  then show ?thesis
  proof cases
    case 2
    then have "(g, asg_id a, ?k) \<notin> ledger (ro_dir s)"
      by (auto simp: ClaimActionFire_def ledger_def split: if_splits)
    with 2 show ?thesis by (auto simp: fire_cell_def adv_def wanted_def)
  next
    case 3
    note c = ClaimActionFire_Inr [OF 3(2)]
    show ?thesis
    proof (cases ok)
      case True
      with c cl.claim_won [of _ "(g, asg_id a, ?k)" "ro_dir s" d] 3 show ?thesis
        by (auto simp: fire_cell_def adv_def wanted_def)
    next
      case False
      with c cl.claim_lost [of _ "(g, asg_id a, ?k)" "ro_dir s" d] 3 show ?thesis
        by (auto simp: fire_cell_def adv_def wanted_def)
    qed
  qed (simp add: fire_cell_def adv_def wanted_def)
qed

text \<open>The keys an event wants to fire: one per group and action whose best cell is met.\<close>

definition event_keys ::
    "(string \<Rightarrow> string) \<Rightarrow> hazard_transition \<Rightarrow> group_routing list \<Rightarrow> (int \<times> string \<times> string) set" where
  "event_keys hash h rules =
     {(gr_id r, a, fireDedupKey hash h) | r a c. r \<in> set rules \<and>
        best_spec (event_source h) (gr_actions r) a = Some c \<and>
        meetsThreshold (event_rank h) (asg_min c)}"

lemma route_group_adv:
  "adv (event_keys hash h [r]) s
    (route_group (\<lambda>_ _. True) hash now ev h (event_rank h) (event_source h) r s)"
proof -
  let ?cs = "map snd (best_cells (event_source h) (gr_actions r))"
  let ?W = "\<lambda>c. wanted (event_rank h) (fireDedupKey hash h) (gr_id r) c"
  have U: "\<Union> (?W ` set ?cs) = event_keys hash h [r]"
  proof -
    let ?sp = "best_spec (event_source h) (gr_actions r)"
    have "\<Union> (?W ` set ?cs) = {(gr_id r, asg_id c, fireDedupKey hash h) | c.
        c \<in> set ?cs \<and> meetsThreshold (event_rank h) (asg_min c)}"
      by (auto simp: wanted_def split: if_splits)
    also have "\<dots> = {(gr_id r, asg_id c, fireDedupKey hash h) | c.
        ?sp (asg_id c) = Some c \<and> meetsThreshold (event_rank h) (asg_min c)}"
      by (simp only: best_cells_set)
    also have "\<dots> = event_keys hash h [r]"
      using best_spec_source unfolding event_keys_def by auto blast
    finally show ?thesis .
  qed
  have a: "adv (event_keys hash h [r]) s
      (fold (fire_cell (\<lambda>_ _. True) hash now ev h (event_rank h) (gr_id r)) ?cs s)"
    using adv_fold [of ?cs ?W "fire_cell (\<lambda>_ _. True) hash now ev h (event_rank h) (gr_id r)" s]
      fire_cell_adv unfolding U by blast
  show ?thesis
  proof (cases "gr_actions r = []")
    case True
    then have "event_keys hash h [r] = {}" by (simp add: event_keys_def best_spec_def)
    with True show ?thesis by (simp add: route_group_def adv_refl)
  next
    case False
    with a adv_engine [OF a] show ?thesis by (simp add: route_group_def Let_def)
  qed
qed

lemma event_keys_Union: "\<Union> ((\<lambda>r. event_keys hash h [r]) ` set rules) = event_keys hash h rules"
  by (auto simp: event_keys_def)

section \<open>Properties\<close>

lemma handle_event_adv:
  assumes "de_kind ev = EventHazardTransition" "de_hazard ev = Some h"
    and "ht_type h \<notin> {TransitionCancelled, TransitionExpired}"
  shows "adv (event_keys hash h (en_rules (ro_engine s))) s
    (handle_event (\<lambda>_ _. True) hash now ev s)"
proof -
  let ?s1 = "s\<lparr>ro_engine := (ro_engine s)\<lparr>en_seen := en_seen (ro_engine s) + 1\<rparr>\<rparr>"
  let ?f = "route_group (\<lambda>_ _. True) hash now ev h (event_rank h) (event_source h)"
  have "adv (\<Union> ((\<lambda>r. event_keys hash h [r]) ` set (en_rules (ro_engine s)))) ?s1
      (fold ?f (en_rules (ro_engine s)) ?s1)"
    by (rule adv_fold) (rule route_group_adv)
  then have "adv (event_keys hash h (en_rules (ro_engine s))) ?s1
      (fold ?f (en_rules (ro_engine s)) ?s1)"
    by (simp only: event_keys_Union)
  moreover have "handle_event (\<lambda>_ _. True) hash now ev s = fold ?f (en_rules (ro_engine s)) ?s1"
    using assms by (simp add: handle_event_def Let_def)
  ultimately show ?thesis by (simp add: adv_def)
qed

lemma handle_event_skip:
  assumes "de_kind ev \<noteq> EventHazardTransition \<or> de_hazard ev = None \<or>
    ht_type (the (de_hazard ev)) \<in> {TransitionCancelled, TransitionExpired}"
  shows "adv {} s (handle_event db hash now ev s)"
  using assms
  by (auto simp: handle_event_def adv_def Let_def split: event_kind.split option.split)

text \<open>
  C4: the routing decision.  With a working ledger, a new or updated transition is submitted for
  exactly the groups and actions whose best cell (the first for its source, else the first for
  any source) has a threshold the event's severity meets, minus those the ledger already has
  for this transition; cancelled and expired transitions submit nothing.
\<close>

theorem routing_exact:
  assumes "de_kind ev = EventHazardTransition" "de_hazard ev = Some h"
  shows "set (ro_fires (handle_event (\<lambda>_ _. True) hash now ev s)) =
    set (ro_fires s) \<union>
    (if ht_type h \<in> {TransitionCancelled, TransitionExpired} then {}
     else {(gr_id r, a, fireDedupKey hash h) | r a c. r \<in> set (en_rules (ro_engine s)) \<and>
        best_spec (event_source h) (gr_actions r) a = Some c \<and>
        meetsThreshold (event_rank h) (asg_min c)} - fire_key ` set (dr_fires (ro_dir s)))"
proof (cases "ht_type h \<in> {TransitionCancelled, TransitionExpired}")
  case True
  with handle_event_skip [of ev s "\<lambda>_ _. True" hash now] assms show ?thesis by (simp add: adv_def)
next
  case False
  from handle_event_adv [OF assms False, of hash s now] show ?thesis
    using False by (simp add: adv_def ledger_def event_keys_def)
qed

definition sample_transition :: hazard_transition where
  "sample_transition =
     \<lparr> ht_type = TransitionNew, ht_key = ''imgw:1'', ht_source = ''imgw'', ht_change_id = 7,
       ht_timestamp = 1,
       ht_hazard = \<lparr> hz_event_key = ''imgw:1'', hz_source = ''imgw'', hz_source_id = ''1'',
         hz_event = ''storm'', hz_severity = ''severe'', hz_provider_severity = [],
         hz_urgency = [], hz_certainty = [], hz_headline = [], hz_areas = [],
         hz_description = [], hz_instruction = [], hz_latitude = None, hz_longitude = None,
         hz_effective_at = None, hz_expires_at = None, hz_received_at = 1, hz_updated_at = 1 \<rparr> \<rparr>"

definition sample_hazard_event :: dispatch_event where
  "sample_hazard_event =
     \<lparr> de_kind = EventHazardTransition, de_received_at = 1, de_origin_type = ''mqtt'',
       de_receiver_id = ''home'', de_hazard = Some sample_transition, de_mqtt = None \<rparr>"

definition sample_app :: app_info where
  "sample_app = \<lparr>ai_version = [], ai_header = [], ai_domain = [], ai_repo = []\<rparr>"

definition sample_route :: route_state where
  "sample_route =
     \<lparr> ro_engine = (new_engine sample_app)\<lparr>en_rules :=
         [\<lparr>gr_id = 1, gr_name = ''ops'', gr_actions = [sample_cell]\<rparr>]\<rparr>,
       ro_dir = sample_directory, ro_mgr = \<lparr>am_instances = [], am_disabled = []\<rparr>,
       ro_fires = [] \<rparr>"

lemma sample_event_reading:
  "event_source sample_transition = ''imgw''" "event_rank sample_transition = 3"
  by (simp_all add: event_source_def event_rank_def sample_transition_def trim_space_plain
      plain_char_def byte_range_def to_lower_def lower_char_def is_upper_ascii_def
      severity_rank_def severity_of_def)

theorem routing_exact_witness:
  "(1, ''mail'', ''c:imgw:imgw:1:7'') \<in>
    set (ro_fires (handle_event (\<lambda>_ _. True) (\<lambda>_. []) 9 sample_hazard_event sample_route))"
proof -
  have d: "de_kind sample_hazard_event = EventHazardTransition"
      "de_hazard sample_hazard_event = Some sample_transition"
    by (simp_all add: sample_hazard_event_def)
  have d7: "digit_char 7 = CHR ''7''" by code_simp
  have k: "fireDedupKey (\<lambda>_. []) sample_transition = ''c:imgw:imgw:1:7''"
    by (simp add: fireDedupKey_def sample_transition_def dec_int_def dec_nat.simps d7)
  have b: "best_spec ''imgw'' [sample_cell] ''mail'' = Some sample_cell"
    by (simp add: best_spec_def sample_cell_def)
  have t: "meetsThreshold 3 (asg_min sample_cell)"
    by (simp add: meetsThreshold_def sample_cell_def severity_rank_def severity_of_def)
  have r: "set (en_rules (ro_engine sample_route)) = {\<lparr>gr_id = 1, gr_name = ''ops'', gr_actions = [sample_cell]\<rparr>}"
      "dr_fires (ro_dir sample_route) = []" "ht_type sample_transition = TransitionNew"
    by (simp_all add: sample_route_def sample_directory_def sample_transition_def)
  show ?thesis
    unfolding routing_exact [OF d] r(2,3) using b t by (auto simp: r(1) k sample_event_reading)
qed

section \<open>No double notification\<close>

text \<open>
  A history of the engine: events, rule reloads (with or without read errors) and edits of the
  routing matrix; the workers may change the manager between any two of them.
\<close>

datatype route_op =
  OpEvent time dispatch_event action_manager | OpReload bool "int \<Rightarrow> bool"
| OpEdit time int "assignment list"

definition route_step :: "(string \<Rightarrow> string) \<Rightarrow> route_op \<Rightarrow> route_state \<Rightarrow> route_state" where
  "route_step hash op s =
     (case op of
        OpEvent now ev m \<Rightarrow> handle_event (\<lambda>_ _. True) hash now ev (s\<lparr>ro_mgr := m\<rparr>)
      | OpReload list_ok who_ok \<Rightarrow>
          s\<lparr>ro_engine := refresh list_ok who_ok (ro_dir s) (ro_engine s)\<rparr>
      | OpEdit now g as \<Rightarrow>
          (case SetGroupRouting now g as (ro_dir s) of
             Inl _ \<Rightarrow> s | Inr d \<Rightarrow> s\<lparr>ro_dir := d\<rparr>))"

definition route_inv :: "route_state \<Rightarrow> bool" where
  "route_inv s \<longleftrightarrow>
     distinct (ro_fires s) \<and> set (ro_fires s) \<subseteq> ledger (ro_dir s) \<and>
     (\<forall>r\<in>set (en_rules (ro_engine s)). gr_id r \<in> fst ` set (dr_groups (ro_dir s)))"

lemma fire_cell_inv:
  assumes "distinct (ro_fires s)" "set (ro_fires s) \<subseteq> ledger (ro_dir s)"
    and "g \<in> fst ` set (dr_groups (ro_dir s))"
    and t_def: "t = fire_cell (\<lambda>_ _. True) hash now ev h rank g a s"
  shows "distinct (ro_fires t) \<and> set (ro_fires t) \<subseteq> ledger (ro_dir t) \<and>
    dr_groups (ro_dir t) = dr_groups (ro_dir s) \<and> en_rules (ro_engine t) = en_rules (ro_engine s)"
proof (cases "ClaimActionFire g (asg_id a) (ht_key h) (fireDedupKey hash h) now (ro_dir s)")
  case (Inl e)
  then have "map_of (dr_groups (ro_dir s)) g = None"
    by (auto simp: ClaimActionFire_def split: if_splits)
  with assms(3) show ?thesis by (simp add: map_of_eq_None_iff)
next
  case (Inr p)
  obtain d ok where p: "ClaimActionFire g (asg_id a) (ht_key h) (fireDedupKey hash h) now (ro_dir s) = Inr (d, ok)"
    using Inr by (cases p) simp
  note c = ClaimActionFire_Inr [OF p]
  show ?thesis
  proof (cases ok)
    case True
    with c cl.claim_won [of _ "(g, asg_id a, fireDedupKey hash h)" "ro_dir s" d] assms(1,2) p
    show ?thesis unfolding t_def by (auto simp: fire_cell_def Let_def)
  next
    case False
    with c assms(1,2) p show ?thesis unfolding t_def by (auto simp: fire_cell_def Let_def)
  qed
qed

lemma fold_fire_cell_inv:
  assumes "distinct (ro_fires s)" "set (ro_fires s) \<subseteq> ledger (ro_dir s)"
    and "g \<in> fst ` set (dr_groups (ro_dir s))"
    and t_def: "t = fold (fire_cell (\<lambda>_ _. True) hash now ev h rank g) as s"
  shows "distinct (ro_fires t) \<and> set (ro_fires t) \<subseteq> ledger (ro_dir t) \<and>
    dr_groups (ro_dir t) = dr_groups (ro_dir s) \<and> en_rules (ro_engine t) = en_rules (ro_engine s)"
  using assms(1-3) unfolding t_def
proof (induction as arbitrary: s)
  case (Cons a as)
  from fire_cell_inv [OF Cons.prems refl, of hash now ev h rank a] Cons.prems(3)
  have "distinct (ro_fires (fire_cell (\<lambda>_ _. True) hash now ev h rank g a s))"
    "set (ro_fires (fire_cell (\<lambda>_ _. True) hash now ev h rank g a s)) \<subseteq>
      ledger (ro_dir (fire_cell (\<lambda>_ _. True) hash now ev h rank g a s))"
    "g \<in> fst ` set (dr_groups (ro_dir (fire_cell (\<lambda>_ _. True) hash now ev h rank g a s)))" by auto
  from Cons.IH [OF this] fire_cell_inv [OF Cons.prems refl, of hash now ev h rank a]
  show ?case by simp
qed simp

lemma route_group_inv:
  assumes "route_inv s" "r \<in> set (en_rules (ro_engine s))"
    and t_def: "t = route_group (\<lambda>_ _. True) hash now ev h rank src r s"
  shows "route_inv t \<and> en_rules (ro_engine t) = en_rules (ro_engine s)"
proof -
  have "gr_id r \<in> fst ` set (dr_groups (ro_dir s))" using assms(1,2) by (simp add: route_inv_def)
  from fold_fire_cell_inv [OF _ _ this refl, of hash now ev h rank "map snd (best_cells src (gr_actions r))"]
  show ?thesis
    using assms(1) unfolding t_def route_group_def route_inv_def by (simp add: Let_def)
qed

lemma fold_route_group_inv:
  "route_inv s \<Longrightarrow> set rs \<subseteq> set (en_rules (ro_engine s)) \<Longrightarrow>
    route_inv (fold (route_group (\<lambda>_ _. True) hash now ev h rank src) rs s)"
proof (induction rs arbitrary: s)
  case (Cons r rs)
  with route_group_inv [of s r _ hash now ev h rank src] show ?case by simp
qed simp

lemma handle_event_inv:
  assumes "route_inv s"
  shows "route_inv (handle_event (\<lambda>_ _. True) hash now ev s)"
proof (cases "\<exists>h. de_kind ev = EventHazardTransition \<and> de_hazard ev = Some h \<and>
    ht_type h \<notin> {TransitionCancelled, TransitionExpired}")
  case True
  then obtain h where h: "de_kind ev = EventHazardTransition" "de_hazard ev = Some h"
    "ht_type h \<notin> {TransitionCancelled, TransitionExpired}" by blast
  let ?s1 = "s\<lparr>ro_engine := (ro_engine s)\<lparr>en_seen := en_seen (ro_engine s) + 1\<rparr>\<rparr>"
  have "route_inv ?s1" using assms by (simp add: route_inv_def)
  from fold_route_group_inv [OF this, of "en_rules (ro_engine s)"] h show ?thesis
    by (simp add: handle_event_def Let_def)
next
  case False
  with assms show ?thesis
    by (auto simp: handle_event_def route_inv_def Let_def split: event_kind.split option.split)
qed

lemma route_step_inv: "route_inv s \<Longrightarrow> route_inv (route_step hash op s)"
proof (cases op)
  case (OpEvent now ev m)
  moreover assume "route_inv s"
  then have "route_inv (s\<lparr>ro_mgr := m\<rparr>)" by (simp add: route_inv_def)
  ultimately show ?thesis using handle_event_inv by (simp add: route_step_def)
next
  case (OpReload list_ok who_ok)
  moreover assume "route_inv s"
  ultimately show ?thesis
    by (auto simp: route_step_def route_inv_def refresh_def Let_def ListGroupRoutings_def
        groups_by_name_def)
next
  case (OpEdit now g as)
  moreover assume "route_inv s"
  ultimately show ?thesis
    by (auto simp: route_step_def route_inv_def SetGroupRouting_def ledger_def dom_update
        simp del: image_iff split: option.split)
qed

text \<open>
  C3: no double notification: in every history of events (replayed and retained ones
  included), rule reloads and routing edits, no action is submitted twice for the same group
  and the same transition.
\<close>

theorem no_double_fire:
  assumes "route_inv s"
  shows "distinct (ro_fires (fold (route_step hash) ops s))"
proof -
  have "route_inv (fold (route_step hash) ops s)"
    using assms by (induction ops arbitrary: s) (simp_all add: route_step_inv)
  then show ?thesis by (simp add: route_inv_def)
qed

theorem no_double_fire_witness:
  "distinct (ro_fires (fold (route_step (\<lambda>_. []))
      [OpEvent 1 sample_hazard_event \<lparr>am_instances = [], am_disabled = []\<rparr>,
       OpEvent 2 sample_hazard_event \<lparr>am_instances = [], am_disabled = []\<rparr>] sample_route))"
  by (rule no_double_fire)
    (simp add: route_inv_def sample_route_def sample_directory_def)

text \<open>
  with a journal ID the deduplication key identifies the transition: two transitions of
  slug sources share it exactly when source, event key and change ID agree.
\<close>

theorem dedup_key_identifies:
  assumes "ht_change_id h \<noteq> 0" "ht_change_id h' \<noteq> 0"
    and "slug_match (ht_source h)" "slug_match (ht_source h')"
  shows "fireDedupKey hash h = fireDedupKey hash h' \<longleftrightarrow>
    ht_source h = ht_source h' \<and> ht_key h = ht_key h' \<and> ht_change_id h = ht_change_id h'"
proof -
  have tail: "k @ CHR '':'' # dec_int i = k' @ CHR '':'' # dec_int i' \<longleftrightarrow> k = k' \<and> i = i'" for k k' i i'
  proof
    assume "k @ CHR '':'' # dec_int i = k' @ CHR '':'' # dec_int i'"
    then have "rev (dec_int i) @ CHR '':'' # rev k = rev (dec_int i') @ CHR '':'' # rev k'"
      by (metis rev_append rev.simps(2) append_assoc append_Cons append_Nil)
    then show "k = k' \<and> i = i'"
      using append_sep_eq [of "CHR '':''" "rev (dec_int i)" "rev (dec_int i')" "rev k" "rev k'"]
      by (simp add: dec_int_free dec_int_inj)
  qed simp
  have "fireDedupKey hash h = fireDedupKey hash h' \<longleftrightarrow>
      ht_source h @ CHR '':'' # (ht_key h @ CHR '':'' # dec_int (ht_change_id h)) =
      ht_source h' @ CHR '':'' # (ht_key h' @ CHR '':'' # dec_int (ht_change_id h'))"
    using assms(1,2) by (simp add: fireDedupKey_def)
  also have "\<dots> \<longleftrightarrow> ht_source h = ht_source h' \<and>
      ht_key h @ CHR '':'' # dec_int (ht_change_id h) = ht_key h' @ CHR '':'' # dec_int (ht_change_id h')"
    using slug_match_free(1) assms(3,4) by (intro append_sep_eq) auto
  finally show ?thesis by (simp only: tail)
qed

theorem dedup_key_identifies_witness:
  "fireDedupKey (\<lambda>s. s) sample_transition \<noteq>
    fireDedupKey (\<lambda>s. s) (sample_transition\<lparr>ht_change_id := 8\<rparr>)"
  using dedup_key_identifies [of sample_transition "sample_transition\<lparr>ht_change_id := 8\<rparr>" "\<lambda>s. s"]
  by (simp add: sample_transition_def slug_match_def slug_char_def is_lower_ascii_def
      byte_range_def)

text \<open>
  a reload that reads the rules but not the recipients of a group installs the group's
  rules with no recipients at all, instead of keeping the previous ones.
\<close>

theorem failed_recipients_dropped:
  assumes "\<not> who_ok g"
  shows "en_rules (refresh True who_ok d e) = ListGroupRoutings d \<and>
    recipients (en_bcc (refresh True who_ok d e)) g = [] \<and>
    recipients (en_aprs (refresh True who_ok d e)) g = [] \<and>
    recipients (en_discord (refresh True who_ok d e)) g = []"
proof -
  let ?gs = "map gr_id (filter (\<lambda>r. gr_actions r \<noteq> [] \<and> who_ok (gr_id r)) (ListGroupRoutings d))"
  have "g \<notin> set ?gs" using assms by auto
  then have "map_of (map (\<lambda>g. (g, f g)) ?gs) g = None" for f :: "int \<Rightarrow> string list"
    by (auto simp: map_of_eq_None_iff)
  then show ?thesis by (simp add: refresh_def Let_def recipients_def comp_def)
qed

theorem failed_recipients_dropped_witness:
  "recipients (en_bcc (refresh True (\<lambda>_. False) sample_directory
      ((new_engine sample_app)\<lparr>en_bcc := [(1, [''a@b.c''])]\<rparr>))) 1 = []"
  using failed_recipients_dropped [of "\<lambda>_. False" 1] by simp

end
