(* ===== verification/Mqtt_Topics.thy ===== *)
theory Mqtt_Topics
  imports Prelude
begin

text \<open>
  Subscription filters and protocol topics (\<open>internal/mqttreceiver/filter.go\<close>, \<open>topics.go\<close>,
  \<open>activeTopic\<close> of \<open>publish.go\<close>).  The SHA-256 hex digest is the parameter \<open>sha\<close>.
\<close>

section \<open>Filters\<close>

text \<open>
  The loop of \<open>MatchFilter\<close> over the filter's segments; the second list is what is left of the
  topic at the loop index.
\<close>

fun match_segments :: "string list \<Rightarrow> string list \<Rightarrow> bool" where
  "match_segments [] ts = (ts = [])"
| "match_segments (f # fs) ts =
     (if f = ''#'' then True
      else (case ts of
              [] \<Rightarrow> False
            | t # ts' \<Rightarrow> if f \<noteq> ''+'' \<and> f \<noteq> t then False else match_segments fs ts'))"

definition MatchFilter :: "string \<Rightarrow> string \<Rightarrow> bool" where
  "MatchFilter topic flt = match_segments (split_on (CHR ''/'') flt) (split_on (CHR ''/'') topic)"

text \<open>One level of a filter against one level of a topic.\<close>

definition level_ok :: "string \<Rightarrow> string \<Rightarrow> bool" where
  "level_ok f t \<longleftrightarrow> f = ''+'' \<or> f = t"

lemma match_segments_plain:
  "''#'' \<notin> set fs \<Longrightarrow> match_segments fs ts \<longleftrightarrow> list_all2 level_ok fs ts"
  by (induction fs ts rule: match_segments.induct)
    (auto simp: level_ok_def list_all2_Cons1 split: list.split)

lemma match_segments_hash:
  "''#'' \<notin> set fs \<Longrightarrow>
    match_segments (fs @ [''#'']) ts \<longleftrightarrow> (\<exists>us vs. ts = us @ vs \<and> list_all2 level_ok fs us)"
proof (induction fs arbitrary: ts)
  case (Cons f fs)
  show ?case
  proof (cases ts)
    case (Cons t ts')
    with Cons.IH [of ts'] Cons.prems show ?thesis
      by (auto simp: level_ok_def list_all2_Cons1 Cons_eq_append_conv)
  qed (use Cons.prems in \<open>auto simp: list_all2_Cons1\<close>)
qed auto

section \<open>Topics\<close>

datatype parsed_topic =
  TopicUnknown | TopicEvents | TopicStatus | TopicActive string string
| TopicInfo string string string string

definition hex_char :: "char \<Rightarrow> bool" where
  "hex_char c \<longleftrightarrow> is_digit c \<or> byte_range 97 102 c"

definition hash_match :: "string \<Rightarrow> bool" where
  "hash_match s \<longleftrightarrow> length s = 64 \<and> list_all hex_char s"

definition parse_active :: "string \<Rightarrow> parsed_topic" where
  "parse_active s =
     (case cut_at (CHR ''/'') s of
        None \<Rightarrow> TopicUnknown
      | Some (source, hash) \<Rightarrow>
          if slug_match source \<and> hash_match hash then TopicActive source hash else TopicUnknown)"

definition parse_info :: "string \<Rightarrow> parsed_topic" where
  "parse_info s =
     (case split_on (CHR ''/'') s of
        [source, producer, key, kind] \<Rightarrow>
          if slug_match source \<and> slug_match producer \<and> slug_match key \<and> slug_match kind
          then TopicInfo source producer key kind else TopicUnknown
      | _ \<Rightarrow> TopicUnknown)"

definition ParseTopic :: "string \<Rightarrow> string \<Rightarrow> parsed_topic" where
  "ParseTopic pfx topic =
     (case cut_prefix (pfx @ ''/'') topic of
        None \<Rightarrow> TopicUnknown
      | Some rest \<Rightarrow>
          if rest = ''events'' then TopicEvents
          else if rest = ''status'' then TopicStatus
          else (case cut_prefix ''active/'' rest of
                  Some active \<Rightarrow> parse_active active
                | None \<Rightarrow>
                    (case cut_prefix ''info/'' rest of
                       Some info \<Rightarrow> parse_info info
                     | None \<Rightarrow> TopicUnknown)))"

definition Subscriptions :: "string \<Rightarrow> string list" where
  "Subscriptions pfx =
     [pfx @ ''/active/#'', pfx @ ''/info/#'', pfx @ ''/status'', pfx @ ''/events'']"

definition activeTopic :: "(string \<Rightarrow> string) \<Rightarrow> string \<Rightarrow> string \<Rightarrow> string \<Rightarrow> string" where
  "activeTopic sha pfx source eventKey = pfx @ ''/active/'' @ source @ ''/'' @ sha eventKey"

definition infoTopic :: "string \<Rightarrow> string \<Rightarrow> string \<Rightarrow> string \<Rightarrow> string \<Rightarrow> string" where
  "infoTopic pfx source producer key kind =
     pfx @ ''/info/'' @ join_with ''/'' [source, producer, key, kind]"

lemma hash_match_no_slash: "hash_match h \<Longrightarrow> CHR ''/'' \<notin> set h"
  by (auto simp: hash_match_def list_all_iff hex_char_def is_digit_def byte_range_def)

lemma parse_active_eq: "parse_active s = TopicActive src h \<longleftrightarrow>
    s = src @ CHR ''/'' # h \<and> slug_match src \<and> hash_match h"
proof
  assume "s = src @ CHR ''/'' # h \<and> slug_match src \<and> hash_match h"
  then show "parse_active s = TopicActive src h"
    using slug_match_free(2) by (simp add: parse_active_def)
qed (auto simp: parse_active_def cut_at_Some split: option.splits if_splits)

lemma parse_info_eq: "parse_info s = TopicInfo a b c d \<longleftrightarrow>
    s = join_with ''/'' [a, b, c, d] \<and> slug_match a \<and> slug_match b \<and> slug_match c \<and> slug_match d"
proof
  assume p: "parse_info s = TopicInfo a b c d"
  then have "split_on (CHR ''/'') s = [a, b, c, d]"
    "slug_match a \<and> slug_match b \<and> slug_match c \<and> slug_match d"
    by (auto simp: parse_info_def split: list.splits if_splits)
  moreover from this(1) have "s = join_with ''/'' [a, b, c, d]" using join_split by metis
  ultimately show "s = join_with ''/'' [a, b, c, d] \<and> slug_match a \<and> slug_match b \<and> slug_match c \<and> slug_match d"
    by simp
next
  assume r: "s = join_with ''/'' [a, b, c, d] \<and> slug_match a \<and> slug_match b \<and> slug_match c \<and> slug_match d"
  then have "split_on (CHR ''/'') s = [a, b, c, d]"
    using split_join [of "[a, b, c, d]" "CHR ''/''"] slug_match_free(2) by auto
  with r show "parse_info s = TopicInfo a b c d" by (simp add: parse_info_def)
qed

lemma parse_active_not [simp]:
  "parse_active s \<noteq> TopicEvents" "parse_active s \<noteq> TopicStatus" "parse_active s \<noteq> TopicInfo a b c d"
  by (auto simp: parse_active_def split: option.split)

lemma parse_info_not [simp]:
  "parse_info s \<noteq> TopicEvents" "parse_info s \<noteq> TopicStatus" "parse_info s \<noteq> TopicActive a b"
  by (auto simp: parse_info_def split: list.split)

lemma ParseTopic_inside: "ParseTopic pfx (pfx @ CHR ''/'' # rest) =
   (if rest = ''events'' then TopicEvents
    else if rest = ''status'' then TopicStatus
    else (case cut_prefix ''active/'' rest of
            Some active \<Rightarrow> parse_active active
          | None \<Rightarrow> (case cut_prefix ''info/'' rest of Some info \<Rightarrow> parse_info info | None \<Rightarrow> TopicUnknown)))"
proof -
  have "cut_prefix (pfx @ ''/'') (pfx @ CHR ''/'' # rest) = Some rest"
    by (simp add: cut_prefix_Some_iff)
  then show ?thesis by (simp add: ParseTopic_def)
qed

lemma ParseTopic_events: "ParseTopic pfx topic = TopicEvents \<longleftrightarrow> topic = pfx @ ''/events''"
proof
  assume "topic = pfx @ ''/events''"
  then show "ParseTopic pfx topic = TopicEvents" by (simp add: ParseTopic_inside)
qed (auto simp: ParseTopic_def cut_prefix_Some_iff split: option.splits if_splits)

lemma ParseTopic_status: "ParseTopic pfx topic = TopicStatus \<longleftrightarrow> topic = pfx @ ''/status''"
proof
  assume "topic = pfx @ ''/status''"
  then show "ParseTopic pfx topic = TopicStatus" by (simp add: ParseTopic_inside)
qed (auto simp: ParseTopic_def cut_prefix_Some_iff split: option.splits if_splits)

lemma ParseTopic_active: "ParseTopic pfx topic = TopicActive src h \<longleftrightarrow>
    (\<exists>s. topic = pfx @ ''/active/'' @ s \<and> parse_active s = TopicActive src h)"
proof
  assume "\<exists>s. topic = pfx @ ''/active/'' @ s \<and> parse_active s = TopicActive src h"
  then show "ParseTopic pfx topic = TopicActive src h" by (auto simp: ParseTopic_inside)
qed (auto simp: ParseTopic_def cut_prefix_Some_iff split: option.splits if_splits)

lemma ParseTopic_info: "ParseTopic pfx topic = TopicInfo a b c d \<longleftrightarrow>
    (\<exists>s. topic = pfx @ ''/info/'' @ s \<and> parse_info s = TopicInfo a b c d)"
proof
  assume "\<exists>s. topic = pfx @ ''/info/'' @ s \<and> parse_info s = TopicInfo a b c d"
  then show "ParseTopic pfx topic = TopicInfo a b c d" by (auto simp: ParseTopic_inside)
qed (auto simp: ParseTopic_def cut_prefix_Some_iff split: option.splits if_splits)

text \<open>
  topic parsing is strict and inverts topic building: the events and status topics, the
  active topic of a slug source with a 64-digit hex hash and the info topic of four slugs are
  recognised exactly as they are built, and every other topic is unknown.
\<close>

theorem parse_topic_exact:
  "(ParseTopic pfx topic = TopicEvents \<longleftrightarrow> topic = pfx @ ''/events'') \<and>
   (ParseTopic pfx topic = TopicStatus \<longleftrightarrow> topic = pfx @ ''/status'') \<and>
   (ParseTopic pfx topic = TopicActive src h \<longleftrightarrow>
      slug_match src \<and> hash_match h \<and> topic = activeTopic (\<lambda>_. h) pfx src key) \<and>
   (ParseTopic pfx topic = TopicInfo a b c d \<longleftrightarrow>
      slug_match a \<and> slug_match b \<and> slug_match c \<and> slug_match d \<and>
      topic = infoTopic pfx a b c d)"
  by (auto simp: ParseTopic_events ParseTopic_status ParseTopic_active ParseTopic_info
      parse_active_eq parse_info_eq activeTopic_def infoTopic_def)

text \<open>
  on a filter whose only \<open>#\<close>, if any, is its last level (what configuration accepts),
  matching is level by level: \<open>+\<close> stands for any one level and a final \<open>#\<close> for any number of
  further levels, none included.
\<close>

theorem match_filter_exact:
  assumes "''#'' \<notin> set fs" "\<forall>f\<in>set fs. CHR ''/'' \<notin> set f" "fs \<noteq> []"
  shows "(MatchFilter topic (join_with ''/'' fs) \<longleftrightarrow>
      list_all2 level_ok fs (split_on (CHR ''/'') topic)) \<and>
    (MatchFilter topic (join_with ''/'' (fs @ [''#''])) \<longleftrightarrow>
      (\<exists>us vs. split_on (CHR ''/'') topic = us @ vs \<and> list_all2 level_ok fs us))"
proof -
  have "split_on (CHR ''/'') (join_with ''/'' fs) = fs"
    using assms by (intro split_join) auto
  moreover have "split_on (CHR ''/'') (join_with ''/'' (fs @ [''#''])) = fs @ [''#'']"
    using assms by (intro split_join) auto
  ultimately show ?thesis
    using assms(1) by (simp add: MatchFilter_def match_segments_plain match_segments_hash)
qed

theorem match_filter_exact_witness:
  "MatchFilter ''home'' ''home/#'' \<and> MatchFilter ''home/a/b'' ''home/+/b'' \<and>
   \<not> MatchFilter ''home/a'' ''home''"
proof -
  have s: "split_on (CHR ''/'') ''home'' = [''home'']"
      "split_on (CHR ''/'') ''home/a/b'' = [''home'', ''a'', ''b'']"
      "split_on (CHR ''/'') ''home/a'' = [''home'', ''a'']" by simp_all
  have l: "list_all2 level_ok [''home''] [''home'']" by (simp add: level_ok_def)
  have "\<exists>us vs. split_on (CHR ''/'') ''home'' = us @ vs \<and> list_all2 level_ok [''home''] us"
    unfolding s(1) using l by (intro exI [of _ "[''home'']"] exI [of _ "[]"]) simp
  then have "MatchFilter ''home'' (join_with ''/'' ([''home''] @ [''#'']))"
    using match_filter_exact [of "[''home'']" "''home''"] by simp
  moreover have "MatchFilter ''home/a/b'' (join_with ''/'' [''home'', ''+'', ''b''])"
    using match_filter_exact [of "[''home'', ''+'', ''b'']" "''home/a/b''"]
    by (simp add: s level_ok_def)
  moreover have "\<not> MatchFilter ''home/a'' (join_with ''/'' [''home''])"
    using match_filter_exact [of "[''home'']" "''home/a''"] by (simp add: s)
  ultimately show ?thesis by simp
qed

text \<open>
  unlike standard MQTT matching, a leading wildcard also matches topics that begin with
  \<open>$\<close>, such as the broker's \<open>$SYS\<close> tree.
\<close>

theorem wildcard_matches_sys:
  "MatchFilter (''$SYS/'' @ rest) ''#'' \<and>
   (CHR ''/'' \<notin> set rest \<longrightarrow> MatchFilter (''$SYS/'' @ rest) ''+/+'')"
proof -
  have "split_on (CHR ''/'') (''$SYS'' @ CHR ''/'' # rest) = ''$SYS'' # split_on (CHR ''/'') rest"
    by (rule split_on_append) simp
  then show ?thesis by (auto simp: MatchFilter_def split_on_no_sep)
qed

theorem wildcard_matches_sys_witness:
  "MatchFilter ''$SYS/uptime'' ''+/+''"
  using wildcard_matches_sys [of "''uptime''"] by simp

end
