(* ===== verification/Audit_Buffers.thy ===== *)
theory Audit_Buffers
  imports Prelude
begin

text \<open>
  The two bounded in-memory histories of the dashboard: the ring buffer of inbound MQTT frames
  (\<open>internal/mqttreceiver/traffic.go\<close>) and the per-alert audit trails (\<open>internal/trail\<close>).
\<close>

section \<open>Traffic\<close>

record traffic_entry =
  te_seq :: int
  te_at :: time
  te_receiver :: string
  te_kind :: string
  te_topic :: string
  te_qos :: nat
  te_retained :: bool
  te_size :: nat

record traffic_buffer =
  tb_max :: nat
  tb_next_seq :: int
  tb_entries :: "traffic_entry list"

definition DefaultTrafficEntries :: nat where
  "DefaultTrafficEntries = 100"

definition NewTrafficBuffer :: "int \<Rightarrow> traffic_buffer" where
  "NewTrafficBuffer mx =
     \<lparr>tb_max = (if mx < 1 then DefaultTrafficEntries else nat mx), tb_next_seq = 0, tb_entries = []\<rparr>"

text \<open>The slice expression that drops the oldest entries beyond the capacity.\<close>

definition keep_last :: "nat \<Rightarrow> 'a list \<Rightarrow> 'a list" where
  "keep_last n xs = (if length xs > n then drop (length xs - n) xs else xs)"

definition traffic_add ::
    "time \<Rightarrow> string \<Rightarrow> string \<Rightarrow> string \<Rightarrow> nat \<Rightarrow> bool \<Rightarrow> nat \<Rightarrow> traffic_buffer \<Rightarrow> traffic_buffer" where
  "traffic_add now receiver kind topic qos retained sz b =
     b\<lparr> tb_next_seq := tb_next_seq b + 1,
        tb_entries := keep_last (tb_max b) (tb_entries b @
          [\<lparr> te_seq = tb_next_seq b + 1, te_at = now, te_receiver = receiver, te_kind = kind,
             te_topic = topic, te_qos = qos, te_retained = retained, te_size = sz \<rparr>]) \<rparr>"

definition traffic_snapshot :: "int \<Rightarrow> traffic_buffer \<Rightarrow> traffic_entry list" where
  "traffic_snapshot after b = filter (\<lambda>e. te_seq e > after) (tb_entries b)"

text \<open>The retained entries carry the last sequence numbers, without gaps.\<close>

definition traffic_inv :: "traffic_buffer \<Rightarrow> bool" where
  "traffic_inv b \<longleftrightarrow>
     0 < tb_max b \<and> 0 \<le> tb_next_seq b \<and>
     map te_seq (tb_entries b) = [max 0 (tb_next_seq b - int (tb_max b)) + 1..tb_next_seq b]"

lemma traffic_inv_new: "traffic_inv (NewTrafficBuffer mx)"
  by (simp add: traffic_inv_def NewTrafficBuffer_def DefaultTrafficEntries_def)

lemma upto_snoc: "i \<le> j + 1 \<Longrightarrow> [i..j] @ [j + 1] = [i..j + 1]"
proof (induction "nat (j + 1 - i)" arbitrary: i)
  case (Suc n)
  then have "i \<le> j" by linarith
  with Suc show ?case by (simp add: upto_rec1)
qed (simp add: upto_rec1)

lemma traffic_add_inv:
  assumes "traffic_inv b"
  shows "traffic_inv (traffic_add now r k t q ret sz b)"
proof -
  let ?n = "tb_next_seq b" and ?m = "int (tb_max b)"
  let ?es = "tb_entries b @ [\<lparr> te_seq = ?n + 1, te_at = now, te_receiver = r, te_kind = k,
    te_topic = t, te_qos = q, te_retained = ret, te_size = sz \<rparr>]"
  have b: "0 < tb_max b" "0 \<le> ?n" "map te_seq (tb_entries b) = [max 0 (?n - ?m) + 1..?n]"
    using assms by (auto simp: traffic_inv_def)
  have m: "map te_seq ?es = [max 0 (?n - ?m) + 1..?n + 1]"
    using b upto_snoc [of "max 0 (?n - ?m) + 1" ?n] by simp
  have l: "length ?es = nat (?n + 1 - max 0 (?n - ?m))"
    using arg_cong [OF m, of length] by simp
  have "map te_seq (keep_last (tb_max b) ?es) = [max 0 (?n + 1 - ?m) + 1..?n + 1]"
  proof (cases "?n < ?m")
    case True
    then have "\<not> length ?es > tb_max b" using l b(2) by (simp add: max_def)
    then have "keep_last (tb_max b) ?es = ?es" by (simp only: keep_last_def if_False)
    moreover have "max 0 (?n - ?m) = 0" "max 0 (?n + 1 - ?m) = 0" using True by simp_all
    ultimately show ?thesis using m by simp
  next
    case False
    then have d: "length ?es = Suc (tb_max b)" using l by (simp add: max_def nat_diff_distrib)
    then have k: "keep_last (tb_max b) ?es = drop 1 ?es"
      unfolding keep_last_def d by simp
    have "map te_seq (drop 1 ?es) = drop 1 [max 0 (?n - ?m) + 1..?n + 1]"
      by (simp only: drop_map [symmetric] m)
    also have "\<dots> = [max 0 (?n + 1 - ?m) + 1..?n + 1]"
      using False b(1) by (simp add: max_def upto_rec1)
    finally show ?thesis by (simp only: k)
  qed
  with b show ?thesis by (simp add: traffic_inv_def traffic_add_def)
qed

text \<open>
  the traffic viewer never holds more than its capacity, what it holds are the most recent
  frames with consecutive sequence numbers, and a snapshot taken with the last number seen
  returns exactly the later retained frames, so a polling page misses nothing that is retained.
\<close>

theorem traffic_ring:
  assumes "traffic_inv b"
  shows "traffic_inv (traffic_add now r k t q ret sz b) \<and>
    length (tb_entries b) \<le> tb_max b \<and>
    map te_seq (traffic_snapshot after b) =
      filter (\<lambda>i. after < i) [max 0 (tb_next_seq b - int (tb_max b)) + 1..tb_next_seq b]"
proof -
  have m: "map te_seq (tb_entries b) = [max 0 (tb_next_seq b - int (tb_max b)) + 1..tb_next_seq b]"
    using assms by (simp add: traffic_inv_def)
  have "length (tb_entries b) \<le> tb_max b" using arg_cong [OF m, of length] by simp
  moreover have "map te_seq (traffic_snapshot after b) = filter (\<lambda>i. after < i) (map te_seq (tb_entries b))"
    by (simp add: traffic_snapshot_def filter_map comp_def)
  ultimately show ?thesis using traffic_add_inv [OF assms] m by simp
qed

theorem traffic_ring_witness:
  "traffic_inv (traffic_add 0 ''r'' ''events'' ''t'' 1 False 3 (NewTrafficBuffer 0))"
  using traffic_ring [OF traffic_inv_new] by blast

section \<open>Audit trails\<close>

datatype step_kind =
  StepReceived | StepMatched | StepRoute | StepSubmitted | StepDelivered | StepFailed
| StepRetry | StepSkipped

datatype alert_outcome = AlertSubmitted | AlertDelivered | AlertFailed | AlertSkipped

record trail_step =
  ts_seq :: int
  ts_at :: time
  ts_kind :: step_kind
  ts_text :: string

record alert_trail =
  tr_key :: string
  tr_source :: string
  tr_severity :: string
  tr_event :: string
  tr_headline :: string
  tr_received_at :: time
  tr_outcome :: alert_outcome
  tr_steps :: "trail_step list"

record recorder =
  rc_max :: nat
  rc_next_seq :: int
  rc_order :: "string list"
  rc_by_key :: "(string \<times> alert_trail) list"

definition NewRecorder :: "int \<Rightarrow> recorder" where
  "NewRecorder mx =
     \<lparr>rc_max = (if mx < 1 then 200 else nat mx), rc_next_seq = 0, rc_order = [], rc_by_key = []\<rparr>"

definition add_step :: "string \<Rightarrow> step_kind \<Rightarrow> string \<Rightarrow> time \<Rightarrow> recorder \<Rightarrow> recorder" where
  "add_step key kind text now r =
     (case map_of (rc_by_key r) key of
        None \<Rightarrow> r
      | Some t \<Rightarrow>
          r\<lparr> rc_next_seq := rc_next_seq r + 1,
             rc_by_key := AList.update key
               (t\<lparr>tr_steps := tr_steps t @ [\<lparr>ts_seq = rc_next_seq r + 1, ts_at = now,
                   ts_kind = kind, ts_text = text\<rparr>]\<rparr>) (rc_by_key r) \<rparr>)"

text \<open>The loop of \<open>trimLocked\<close>.\<close>

fun trim_order :: "nat \<Rightarrow> string list \<Rightarrow> (string \<times> alert_trail) list \<Rightarrow>
    string list \<times> (string \<times> alert_trail) list" where
  "trim_order mx [] m = ([], m)"
| "trim_order mx (k # ks) m =
     (if length (k # ks) > mx then trim_order mx ks (AList.delete k m) else (k # ks, m))"

definition trim_trails :: "recorder \<Rightarrow> recorder" where
  "trim_trails r =
     (case trim_order (rc_max r) (rc_order r) (rc_by_key r) of
        (ks, m) \<Rightarrow> r\<lparr>rc_order := ks, rc_by_key := m\<rparr>)"

definition trail_receive ::
    "string \<Rightarrow> string \<Rightarrow> string \<Rightarrow> string \<Rightarrow> string \<Rightarrow> time \<Rightarrow> recorder \<Rightarrow> recorder" where
  "trail_receive key source severity event headline now r =
     (if key = [] then r
      else if map_of (rc_by_key r) key \<noteq> None then r
      else
        let t = \<lparr>tr_key = key, tr_source = source, tr_severity = severity, tr_event = event,
                 tr_headline = headline, tr_received_at = now, tr_outcome = AlertSkipped,
                 tr_steps = []\<rparr>;
            r1 = r\<lparr>rc_by_key := AList.update key t (rc_by_key r), rc_order := rc_order r @ [key]\<rparr>
        in trim_trails (add_step key StepReceived ''received'' now r1))"

definition trail_add :: "string \<Rightarrow> step_kind \<Rightarrow> string \<Rightarrow> time \<Rightarrow> recorder \<Rightarrow> recorder" where
  "trail_add key kind text now r =
     (if key = [] then r
      else if map_of (rc_by_key r) key = None then r else add_step key kind text now r)"

definition trail_set_outcome :: "string \<Rightarrow> alert_outcome \<Rightarrow> recorder \<Rightarrow> recorder" where
  "trail_set_outcome key oc r =
     (if key = [] then r
      else (case map_of (rc_by_key r) key of
              None \<Rightarrow> r
            | Some t \<Rightarrow> r\<lparr>rc_by_key := AList.update key (t\<lparr>tr_outcome := oc\<rparr>) (rc_by_key r)\<rparr>))"

definition trail_recent :: "int \<Rightarrow> recorder \<Rightarrow> alert_trail list" where
  "trail_recent limit r =
     (let n = (if limit > 0 \<and> limit < int (length (rc_order r)) then nat limit
               else length (rc_order r))
      in map (\<lambda>k. the (map_of (rc_by_key r) k)) (take n (rev (rc_order r))))"

definition trail_get :: "string \<Rightarrow> recorder \<Rightarrow> alert_trail option" where
  "trail_get key r = map_of (rc_by_key r) key"

text \<open>The order lists exactly the recorded keys, once each, within the bound.\<close>

definition recorder_inv :: "recorder \<Rightarrow> bool" where
  "recorder_inv r \<longleftrightarrow>
     0 < rc_max r \<and> distinct (rc_order r) \<and> length (rc_order r) \<le> rc_max r \<and>
     dom (map_of (rc_by_key r)) = set (rc_order r) \<and>
     (\<forall>k t. map_of (rc_by_key r) k = Some t \<longrightarrow> tr_key t = k \<and> tr_steps t \<noteq> [])"

lemma recorder_inv_new: "recorder_inv (NewRecorder mx)"
  by (simp add: recorder_inv_def NewRecorder_def)

lemma add_step_inv: "recorder_inv r \<Longrightarrow> recorder_inv (add_step key kind text now r)"
  by (auto simp: recorder_inv_def add_step_def split: option.split)

lemma trail_set_outcome_inv: "recorder_inv r \<Longrightarrow> recorder_inv (trail_set_outcome key oc r)"
  by (auto simp: recorder_inv_def trail_set_outcome_def split: option.split)

lemma trail_add_inv: "recorder_inv r \<Longrightarrow> recorder_inv (trail_add key kind text now r)"
  by (simp add: trail_add_def add_step_inv)

lemma trim_order_one:
  "length ks \<le> Suc mx \<Longrightarrow> trim_order mx ks m =
    (if length ks = Suc mx then (tl ks, AList.delete (hd ks) m) else (ks, m))"
  by (cases ks; cases "tl ks") auto

lemma trail_receive_inv:
  assumes "recorder_inv r"
  shows "recorder_inv (trail_receive key src sev ev hl now r)"
proof (cases "key = [] \<or> map_of (rc_by_key r) key \<noteq> None")
  case False
  let ?t = "\<lparr>tr_key = key, tr_source = src, tr_severity = sev, tr_event = ev, tr_headline = hl,
    tr_received_at = now, tr_outcome = AlertSkipped,
    tr_steps = [\<lparr>ts_seq = rc_next_seq r + 1, ts_at = now, ts_kind = StepReceived,
      ts_text = ''received''\<rparr>]\<rparr>"
  let ?m = "AList.update key ?t (AList.update key (?t\<lparr>tr_steps := []\<rparr>) (rc_by_key r))"
  let ?ks = "rc_order r @ [key]"
  have new: "key \<notin> set (rc_order r)" and len: "length ?ks \<le> Suc (rc_max r)"
    using assms False by (auto simp: recorder_inv_def)
  have eq: "trail_receive key src sev ev hl now r =
      r\<lparr>rc_next_seq := rc_next_seq r + 1,
        rc_order := fst (trim_order (rc_max r) ?ks ?m),
        rc_by_key := snd (trim_order (rc_max r) ?ks ?m)\<rparr>"
    using False by (simp add: trail_receive_def trim_trails_def add_step_def Let_def split: prod.split)
  show ?thesis
  proof (cases "length ?ks = Suc (rc_max r)")
    case True
    then obtain k ks where ks: "rc_order r = k # ks" using assms by (cases "rc_order r") (auto simp: recorder_inv_def)
    then show ?thesis
      using assms True new unfolding eq trim_order_one [OF len]
      by (auto simp: recorder_inv_def map_of_delete delete_conv')
  next
    case False
    then show ?thesis
      using assms new len unfolding eq trim_order_one [OF len] by (auto simp: recorder_inv_def)
  qed
qed (use assms in \<open>auto simp: trail_receive_def\<close>)

text \<open>Everything the engine and the workers do to the recorder.\<close>

datatype recorder_op =
  RecReceive string string string string string time | RecAdd string step_kind string time
| RecOutcome string alert_outcome

definition recorder_step :: "recorder_op \<Rightarrow> recorder \<Rightarrow> recorder" where
  "recorder_step op r =
     (case op of
        RecReceive k s v e h t \<Rightarrow> trail_receive k s v e h t r
      | RecAdd k kd x t \<Rightarrow> trail_add k kd x t r
      | RecOutcome k oc \<Rightarrow> trail_set_outcome k oc r)"

lemma recorder_step_inv: "recorder_inv r \<Longrightarrow> recorder_inv (recorder_step op r)"
  by (cases op) (simp_all add: recorder_step_def trail_receive_inv trail_add_inv trail_set_outcome_inv)

text \<open>
  however the engine and the workers write to it, the recorder keeps at most its maximum of
  trails, one per alert, each opened by a received step; and the list of recent trails is never
  built from a missing entry.
\<close>

theorem trails_bounded:
  assumes "r = fold recorder_step ops (NewRecorder mx)"
  shows "length (trail_recent limit r) \<le> rc_max r \<and> distinct (map tr_key (trail_recent 0 r)) \<and>
    (\<forall>k. trail_get k r \<noteq> None \<longleftrightarrow> k \<in> set (rc_order r)) \<and>
    (\<forall>t\<in>set (trail_recent limit r). tr_steps t \<noteq> [])"
proof -
  have "recorder_inv (fold recorder_step ops s)" if "recorder_inv s" for s
    using that by (induction ops arbitrary: s) (simp_all add: recorder_step_inv)
  then have inv: "recorder_inv r" using assms recorder_inv_new by blast
  have "map tr_key (map (\<lambda>k. the (map_of (rc_by_key r) k)) ks) = ks" if "set ks \<subseteq> set (rc_order r)" for ks
    using that inv by (induction ks) (force simp: recorder_inv_def)+
  from this [of "rev (rc_order r)"] have "map tr_key (trail_recent 0 r) = rev (rc_order r)"
    by (simp add: trail_recent_def)
  then have "distinct (map tr_key (trail_recent 0 r))" using inv by (simp add: recorder_inv_def)
  moreover have "\<forall>t\<in>set (trail_recent limit r). tr_steps t \<noteq> []"
    using inv by (force simp: trail_recent_def Let_def recorder_inv_def dest!: in_set_takeD)
  moreover have "length (trail_recent limit r) \<le> rc_max r"
    using inv by (auto simp: trail_recent_def Let_def recorder_inv_def)
  ultimately show ?thesis using inv by (auto simp: trail_get_def recorder_inv_def)
qed

theorem trails_bounded_witness:
  "length (trail_recent 0 (fold recorder_step
     [RecReceive ''a'' [] [] [] [] 1, RecReceive ''b'' [] [] [] [] 2] (NewRecorder 1))) \<le> 1"
proof -
  let ?r = "fold recorder_step [RecReceive ''a'' [] [] [] [] 1, RecReceive ''b'' [] [] [] [] 2] (NewRecorder 1)"
  have "rc_max ?r = 1"
    by (simp add: recorder_step_def trail_receive_def trim_trails_def add_step_def NewRecorder_def Let_def)
  with trails_bounded [OF refl, of 0 "[RecReceive ''a'' [] [] [] [] 1, RecReceive ''b'' [] [] [] [] 2]" 1]
  show ?thesis by simp
qed

end
