(* ===== verification/Mqtt_Ingestor.thy ===== *)
theory Mqtt_Ingestor
  imports Mqtt_Topics Mirror_State Audit_Buffers
begin

text \<open>
  The message callback of one MQTT receiver (\<open>internal/mqttreceiver/ingestor.go\<close>) with the wire
  documents it accepts (\<open>wire.go\<close>).  JSON decoding, RFC 3339 parsing and SHA-256 are the parameters
  \<open>codec\<close>; a document that does not decode is \<open>None\<close>.
\<close>

section \<open>Wire documents\<close>

record hazard_payload =
  hp_source :: string
  hp_source_id :: string
  hp_category :: string
  hp_event :: string
  hp_severity :: string
  hp_provider_severity :: string
  hp_urgency :: string
  hp_certainty :: string
  hp_headline :: string
  hp_description :: string
  hp_instruction :: string
  hp_effective_at :: "string option"
  hp_expires_at :: "string option"
  hp_latitude :: "float64 option"
  hp_longitude :: "float64 option"
  hp_areas :: "string list"
  hp_status :: string
  hp_source_url :: string
  hp_received_at :: string
  hp_updated_at :: string

record active_payload =
  ap_schema :: int
  ap_type :: string
  ap_event_key :: string
  ap_event :: hazard_payload

record event_payload =
  ep_schema :: int
  ep_change_id :: int
  ep_change_type :: string
  ep_event_key :: string
  ep_event :: hazard_payload

record wire_status =
  ws_schema :: int
  ws_service :: string
  ws_state :: string
  ws_generated_at :: string
  ws_version :: string
  ws_uptime :: int
  ws_db_healthy :: bool
  ws_pending :: int

record wire_current =
  wc_temperature :: "float64 option"
  wc_humidity :: "float64 option"
  wc_pressure :: "float64 option"
  wc_wind_speed :: "float64 option"
  wc_wind_direction :: "float64 option"
  wc_wind_gusts :: "float64 option"
  wc_radiation_usv :: "float64 option"
  wc_radiation_cpm :: "float64 option"
  wc_condition :: string

record wire_weather =
  ww_schema :: int
  ww_type :: string
  ww_generated_at :: string
  ww_valid_until :: string
  ww_provider_name :: string
  ww_location_id :: string
  ww_location_name :: string
  ww_latitude :: float64
  ww_longitude :: float64
  ww_current :: "wire_current option"
  ww_daily :: "daily_weather list"

record codec =
  cd_active :: "string \<Rightarrow> active_payload option"
  cd_event :: "string \<Rightarrow> event_payload option"
  cd_status :: "string \<Rightarrow> wire_status option"
  cd_weather :: "string \<Rightarrow> wire_weather option"
  cd_time :: "string \<Rightarrow> time option"
  cd_sha :: "string \<Rightarrow> string"

definition WireSchemaVersion :: int where "WireSchemaVersion = 1"
definition MaxPayload :: nat where "MaxPayload = 1048576"

definition parseTime :: "codec \<Rightarrow> string \<Rightarrow> time" where
  "parseTime cd s =
     (if s = [] then zero_time else case cd_time cd s of None \<Rightarrow> zero_time | Some t \<Rightarrow> t)"

definition optTime :: "codec \<Rightarrow> string option \<Rightarrow> time option" where
  "optTime cd s =
     (case s of
        None \<Rightarrow> None
      | Some x \<Rightarrow> let t = parseTime cd x in if t = zero_time then None else Some t)"

datatype wire_error =
  ErrEmptyKey | ErrInvalidJSON | ErrSchemaVersion | ErrBadChangeType | ErrBadSeverity | ErrType
| ErrService | ErrBadState | ErrHashMismatch | ErrMalformedTopic

definition change_types :: "string list" where
  "change_types = [''new'', ''updated'', ''cancelled'', ''expired'']"

definition ParseEventPayload :: "codec \<Rightarrow> string \<Rightarrow> wire_error + event_payload" where
  "ParseEventPayload cd payload =
     (if payload = [] then Inl ErrEmptyKey
      else (case cd_event cd payload of
              None \<Rightarrow> Inl ErrInvalidJSON
            | Some we \<Rightarrow>
                if ep_schema we \<noteq> WireSchemaVersion then Inl ErrSchemaVersion
                else if ep_event_key we = [] then Inl ErrEmptyKey
                else if ep_change_type we \<notin> set change_types then Inl ErrBadChangeType
                else (case severity_normalize (hp_severity (ep_event we)) of
                        (sev, ok) \<Rightarrow>
                          if ok then Inr (we\<lparr>ep_event := (ep_event we)\<lparr>hp_severity := sev\<rparr>\<rparr>)
                          else Inl ErrBadSeverity)))"

definition validateActive :: "active_payload \<Rightarrow> wire_error option" where
  "validateActive wh =
     (if ap_schema wh \<noteq> WireSchemaVersion then Some ErrSchemaVersion
      else if ap_type wh \<noteq> ''active_hazard'' then Some ErrType
      else if ap_event_key wh = [] then Some ErrEmptyKey
      else None)"

text \<open>The type stays empty for a change type outside the vocabulary.\<close>

definition transition_of :: "string \<Rightarrow> transition_type" where
  "transition_of s =
     (if s = ''new'' then TransitionNew else if s = ''updated'' then TransitionUpdated
      else if s = ''cancelled'' then TransitionCancelled
      else if s = ''expired'' then TransitionExpired else TransitionOther [])"

definition EventFromWire :: "codec \<Rightarrow> event_payload \<Rightarrow> string \<Rightarrow> time \<Rightarrow> dispatch_event" where
  "EventFromWire cd we receiver now =
     (let h = ep_event we;
          t1 = parseTime cd (hp_updated_at h);
          t2 = (if t1 = zero_time then parseTime cd (hp_received_at h) else t1);
          ts = (if t2 = zero_time then now else t2)
      in \<lparr> de_kind = EventHazardTransition, de_received_at = now, de_origin_type = ''mqtt'',
           de_receiver_id = receiver,
           de_hazard = Some \<lparr> ht_type = transition_of (ep_change_type we), ht_key = ep_event_key we,
             ht_source = hp_source h, ht_change_id = ep_change_id we, ht_timestamp = ts,
             ht_hazard = \<lparr> hz_event_key = ep_event_key we, hz_source = hp_source h,
               hz_source_id = hp_source_id h, hz_event = hp_event h, hz_severity = hp_severity h,
               hz_provider_severity = hp_provider_severity h, hz_urgency = hp_urgency h,
               hz_certainty = hp_certainty h, hz_headline = hp_headline h, hz_areas = hp_areas h,
               hz_description = hp_description h, hz_instruction = hp_instruction h,
               hz_latitude = hp_latitude h, hz_longitude = hp_longitude h,
               hz_effective_at = optTime cd (hp_effective_at h),
               hz_expires_at = optTime cd (hp_expires_at h),
               hz_received_at = parseTime cd (hp_received_at h),
               hz_updated_at = parseTime cd (hp_updated_at h) \<rparr> \<rparr>,
           de_mqtt = None \<rparr>)"

text \<open>The loop over the daily forecast: at most ten days, those without a date skipped.\<close>

fun take_days :: "nat \<Rightarrow> daily_weather list \<Rightarrow> daily_weather list" where
  "take_days n [] = []"
| "take_days n (d # ds) =
     (if n \<ge> 10 then [] else if dw_date d = [] then take_days n ds
      else d # take_days (Suc n) ds)"

definition toWeather :: "codec \<Rightarrow> wire_weather \<Rightarrow> weather" where
  "toWeather cd ww =
     (let cur = (\<lambda>f. case ww_current ww of None \<Rightarrow> None | Some c \<Rightarrow> f c) in
      \<lparr> we_generated_at = parseTime cd (ww_generated_at ww),
        we_valid_until = optTime cd (Some (ww_valid_until ww)),
        we_provider = ww_provider_name ww, we_location_id = ww_location_id ww,
        we_location_name = ww_location_name ww, we_latitude = ww_latitude ww,
        we_longitude = ww_longitude ww, we_temperature = cur wc_temperature,
        we_condition = (case ww_current ww of None \<Rightarrow> [] | Some c \<Rightarrow> wc_condition c),
        we_humidity = cur wc_humidity, we_wind_speed = cur wc_wind_speed,
        we_wind_direction = cur wc_wind_direction, we_wind_gusts = cur wc_wind_gusts,
        we_pressure = cur wc_pressure, we_radiation_usv = cur wc_radiation_usv,
        we_radiation_cpm = cur wc_radiation_cpm, we_daily = take_days 0 (ww_daily ww) \<rparr>)"

section \<open>The receiver\<close>

record receiver_config =
  rv_id :: string
  rv_prefix :: string
  rv_wf_enabled :: bool
  rv_filters :: "string list"

record receiver =
  rx_mirror :: mirror
  rx_ingress :: ingress
  rx_traffic :: traffic_buffer
  rx_messages :: nat
  rx_malformed :: nat
  rx_oversized :: nat
  rx_dropped :: nat

definition reject :: "wire_error \<Rightarrow> receiver \<Rightarrow> receiver" where
  "reject err r = r\<lparr>rx_malformed := rx_malformed r + 1\<rparr>"

definition offer_event :: "dispatch_event \<Rightarrow> receiver \<Rightarrow> receiver" where
  "offer_event ev r =
     (case Enqueue ev (rx_ingress r) of
        (g, ok) \<Rightarrow> let r' = r\<lparr>rx_ingress := g\<rparr> in
          if ok then r' else r'\<lparr>rx_dropped := rx_dropped r + 1\<rparr>)"

definition handleGeneric :: "receiver_config \<Rightarrow> time \<Rightarrow> mqtt_message \<Rightarrow> receiver \<Rightarrow> receiver" where
  "handleGeneric cfg now msg r =
     offer_event \<lparr> de_kind = EventMQTTMessage, de_received_at = now, de_origin_type = ''mqtt'',
       de_receiver_id = rv_id cfg, de_hazard = None, de_mqtt = Some msg \<rparr> r"

definition drop_active :: "receiver_config \<Rightarrow> string \<Rightarrow> receiver \<Rightarrow> receiver" where
  "drop_active cfg topic r = r\<lparr>rx_mirror := DeleteActive (rv_id cfg) topic (rx_mirror r)\<rparr>"

definition mirror_hazard_of :: "codec \<Rightarrow> active_payload \<Rightarrow> mirror_hazard" where
  "mirror_hazard_of cd wh =
     (let h = ap_event wh in
      \<lparr> mh_receiver = [], mh_topic = [], mh_event_key = ap_event_key wh, mh_source = hp_source h,
        mh_source_id = hp_source_id h, mh_category = hp_category h, mh_event = hp_event h,
        mh_severity = hp_severity h, mh_urgency = hp_urgency h, mh_certainty = hp_certainty h,
        mh_headline = hp_headline h, mh_description = hp_description h,
        mh_instruction = hp_instruction h, mh_effective_at = optTime cd (hp_effective_at h),
        mh_expires_at = optTime cd (hp_expires_at h), mh_areas = hp_areas h,
        mh_status = hp_status h, mh_latitude = hp_latitude h, mh_longitude = hp_longitude h,
        mh_received_at = parseTime cd (hp_received_at h),
        mh_updated_at = parseTime cd (hp_updated_at h) \<rparr>)"

text \<open>\<open>clock\<close> is the second reading of the clock, for the expiry check.\<close>

definition handleActive ::
    "codec \<Rightarrow> receiver_config \<Rightarrow> time \<Rightarrow> string \<Rightarrow> string \<Rightarrow> string \<Rightarrow> receiver \<Rightarrow> receiver" where
  "handleActive cd cfg clock hash topic payload r =
     (if payload = [] then drop_active cfg topic r
      else (case cd_active cd payload of
              None \<Rightarrow> reject ErrInvalidJSON r
            | Some wh \<Rightarrow>
                (case validateActive wh of
                   Some err \<Rightarrow> reject err r
                 | None \<Rightarrow>
                     if cd_sha cd (ap_event_key wh) \<noteq> hash then reject ErrHashMismatch r
                     else if hp_status (ap_event wh) = ''expired'' \<or>
                             hp_status (ap_event wh) = ''cancelled'' then drop_active cfg topic r
                     else if (case optTime cd (hp_expires_at (ap_event wh)) of
                                None \<Rightarrow> False | Some t \<Rightarrow> \<not> t > clock) then drop_active cfg topic r
                     else r\<lparr>rx_mirror := fst (AddOrUpdateActive (rv_id cfg) topic
                                (mirror_hazard_of cd wh) (rx_mirror r))\<rparr>)))"

definition store_info ::
    "receiver_config \<Rightarrow> string \<Rightarrow> info_entry \<Rightarrow> receiver \<Rightarrow> receiver" where
  "store_info cfg topic e r =
     r\<lparr>rx_mirror := fst (AddOrUpdateInfo (rv_id cfg) topic e (rx_mirror r))\<rparr>"

definition handleInfo ::
    "codec \<Rightarrow> receiver_config \<Rightarrow> time \<Rightarrow> string \<times> string \<times> string \<times> string \<Rightarrow> string \<Rightarrow> string \<Rightarrow>
      receiver \<Rightarrow> receiver" where
  "handleInfo cd cfg now ids topic payload r =
     (if payload = [] then r
      else
        let (source, producer, key, kind) = ids;
            entry = \<lparr> ie_receiver = [], ie_topic = [], ie_source = source, ie_producer = producer,
              ie_key = key, ie_kind = kind, ie_received_at = now, ie_weather = None,
              ie_payload = payload \<rparr>
        in if kind \<noteq> ''weather'' then store_info cfg topic entry r
           else (case cd_weather cd payload of
                   None \<Rightarrow> reject ErrInvalidJSON r
                 | Some ww \<Rightarrow>
                     if ww_schema ww \<noteq> WireSchemaVersion then reject ErrSchemaVersion r
                     else if ww_type ww \<noteq> ''weather'' then reject ErrType r
                     else store_info cfg topic (entry\<lparr>ie_weather := Some (toWeather cd ww)\<rparr>) r))"

definition handleStatus :: "codec \<Rightarrow> receiver_config \<Rightarrow> time \<Rightarrow> string \<Rightarrow> receiver \<Rightarrow> receiver" where
  "handleStatus cd cfg now payload r =
     (if payload = [] then r
      else (case cd_status cd payload of
              None \<Rightarrow> reject ErrInvalidJSON r
            | Some ws \<Rightarrow>
                if ws_schema ws \<noteq> WireSchemaVersion then reject ErrSchemaVersion r
                else if ws_service ws \<noteq> ''warnflux'' then reject ErrService r
                else if ws_state ws \<noteq> ''running'' \<and> ws_state ws \<noteq> ''offline''
                  then reject ErrBadState r
                else r\<lparr>rx_mirror := SetRouterStatus (rv_id cfg)
                   \<lparr> rs_valid = True, rs_received_at = now, rs_service = ws_service ws,
                     rs_state = ws_state ws, rs_generated_at = parseTime cd (ws_generated_at ws),
                     rs_version = ws_version ws, rs_uptime = ws_uptime ws,
                     rs_db_healthy = ws_db_healthy ws, rs_pending = ws_pending ws \<rparr>
                   (rx_mirror r)\<rparr>))"

definition handleEvent :: "codec \<Rightarrow> receiver_config \<Rightarrow> time \<Rightarrow> string \<Rightarrow> receiver \<Rightarrow> receiver" where
  "handleEvent cd cfg now payload r =
     (if payload = [] then r
      else (case ParseEventPayload cd payload of
              Inl err \<Rightarrow> reject err r
            | Inr we \<Rightarrow> offer_event (EventFromWire cd we (rv_id cfg) now) r))"

definition traffic_kind :: "receiver_config \<Rightarrow> string \<Rightarrow> string" where
  "traffic_kind cfg topic =
     (if \<not> rv_wf_enabled cfg then ''generic''
      else (case ParseTopic (rv_prefix cfg) topic of
              TopicUnknown \<Rightarrow> ''generic'' | TopicEvents \<Rightarrow> ''events'' | TopicStatus \<Rightarrow> ''status''
            | TopicActive _ _ \<Rightarrow> ''active'' | TopicInfo _ _ _ _ \<Rightarrow> ''info''))"

definition matchesFilter :: "receiver_config \<Rightarrow> string \<Rightarrow> bool" where
  "matchesFilter cfg topic = list_ex (\<lambda>f. MatchFilter topic f) (rv_filters cfg)"

definition in_namespace :: "receiver_config \<Rightarrow> string \<Rightarrow> bool" where
  "in_namespace cfg topic \<longleftrightarrow>
     rv_wf_enabled cfg \<and> cut_prefix (rv_prefix cfg @ ''/'') topic \<noteq> None"

definition handleProtocol ::
    "codec \<Rightarrow> receiver_config \<Rightarrow> time \<Rightarrow> time \<Rightarrow> mqtt_message \<Rightarrow> receiver \<Rightarrow> receiver" where
  "handleProtocol cd cfg now clock msg r =
     (case ParseTopic (rv_prefix cfg) (mm_topic msg) of
        TopicActive source hash \<Rightarrow> handleActive cd cfg clock hash (mm_topic msg) (mm_payload msg) r
      | TopicInfo a b c d \<Rightarrow> handleInfo cd cfg now (a, b, c, d) (mm_topic msg) (mm_payload msg) r
      | TopicStatus \<Rightarrow> handleStatus cd cfg now (mm_payload msg) r
      | TopicEvents \<Rightarrow> handleEvent cd cfg now (mm_payload msg) r
      | TopicUnknown \<Rightarrow> reject ErrMalformedTopic r)"

definition record_frame :: "receiver_config \<Rightarrow> time \<Rightarrow> mqtt_message \<Rightarrow> receiver \<Rightarrow> receiver" where
  "record_frame cfg now msg r =
     r\<lparr>rx_messages := rx_messages r + 1,
       rx_traffic := traffic_add now (rv_id cfg) (traffic_kind cfg (mm_topic msg)) (mm_topic msg)
         (mm_qos msg) (mm_retained msg) (length (mm_payload msg)) (rx_traffic r)\<rparr>"

definition HandleMessage ::
    "codec \<Rightarrow> receiver_config \<Rightarrow> time \<Rightarrow> time \<Rightarrow> mqtt_message \<Rightarrow> receiver \<Rightarrow> receiver" where
  "HandleMessage cd cfg now clock msg r0 =
     (let r = record_frame cfg now msg r0 in
      if length (mm_payload msg) > MaxPayload then r\<lparr>rx_oversized := rx_oversized r + 1\<rparr>
      else if in_namespace cfg (mm_topic msg) then handleProtocol cd cfg now clock msg r
      else if matchesFilter cfg (mm_topic msg) then handleGeneric cfg now msg r
      else r)"

lemmas handler_defs [mqtt_simps] =
  handleActive_def handleInfo_def handleStatus_def handleEvent_def handleProtocol_def
  handleGeneric_def reject_def drop_active_def store_info_def offer_event_def Let_def

section \<open>Properties\<close>

lemma record_frame_sel [simp]:
  "rx_mirror (record_frame cfg now msg r) = rx_mirror r"
  "rx_ingress (record_frame cfg now msg r) = rx_ingress r"
  "rx_malformed (record_frame cfg now msg r) = rx_malformed r"
  "rx_oversized (record_frame cfg now msg r) = rx_oversized r"
  "rx_messages (record_frame cfg now msg r) = rx_messages r + 1"
  by (simp_all add: record_frame_def)

text \<open>What a handler of the protocol may do: reject, touch only the mirror, or offer an event.\<close>

definition rejected :: "receiver \<Rightarrow> receiver \<Rightarrow> bool" where
  "rejected r r' \<longleftrightarrow> r' = r\<lparr>rx_malformed := rx_malformed r + 1\<rparr>"

definition mirrored :: "receiver \<Rightarrow> receiver \<Rightarrow> bool" where
  "mirrored r r' \<longleftrightarrow> (\<exists>m. r' = r\<lparr>rx_mirror := m\<rparr>)"

lemma mirrored_refl [simp]: "mirrored r r"
  unfolding mirrored_def by (rule exI [of _ "rx_mirror r"]) simp

lemma handleActive_effect:
  "rejected r (handleActive cd cfg clock h topic p r) \<or> mirrored r (handleActive cd cfg clock h topic p r)"
  by (auto simp: mqtt_simps rejected_def mirrored_def split: option.split)

lemma handleInfo_effect:
  "rejected r (handleInfo cd cfg now ids topic p r) \<or> mirrored r (handleInfo cd cfg now ids topic p r)"
proof (cases "p = []")
  case True
  then show ?thesis by (simp add: handleInfo_def)
next
  case False
  obtain a b c d where "ids = (a, b, c, d)" by (cases ids) auto
  with False show ?thesis
    by (auto simp: mqtt_simps rejected_def mirrored_def split: option.split)
qed

lemma handleStatus_effect:
  "rejected r (handleStatus cd cfg now p r) \<or> mirrored r (handleStatus cd cfg now p r)"
proof (cases "p = []")
  case True
  then show ?thesis by (simp add: handleStatus_def)
next
  case False
  then show ?thesis by (auto simp: mqtt_simps rejected_def mirrored_def split: option.split)
qed

text \<open>An event that was offered: the mirror is not touched, the queue grows by it or it is dropped.\<close>

definition offered :: "dispatch_event \<Rightarrow> receiver \<Rightarrow> receiver \<Rightarrow> bool" where
  "offered ev r r' \<longleftrightarrow>
     rx_mirror r' = rx_mirror r \<and> rx_malformed r' = rx_malformed r \<and>
     (ig_queue (rx_ingress r') = ig_queue (rx_ingress r) @ [ev] \<and> rx_dropped r' = rx_dropped r \<or>
      ig_queue (rx_ingress r') = ig_queue (rx_ingress r) \<and> rx_dropped r' = rx_dropped r + 1)"

lemma offer_event_offered: "offered ev r (offer_event ev r)"
  by (auto simp: offer_event_def offered_def Enqueue_def Let_def)

text \<open>The canonical form of a transition that the wire boundary lets through.\<close>

definition canonical_event :: "dispatch_event \<Rightarrow> bool" where
  "canonical_event ev \<longleftrightarrow>
     de_kind ev = EventHazardTransition \<and> de_mqtt ev = None \<and>
     (\<exists>h. de_hazard ev = Some h \<and> ht_key h \<noteq> [] \<and> severity_valid (hz_severity (ht_hazard h)) \<and>
        ht_type h \<in> {TransitionNew, TransitionUpdated, TransitionCancelled, TransitionExpired})"

lemma ParseEventPayload_canonical:
  assumes "ParseEventPayload cd payload = Inr we"
  shows "canonical_event (EventFromWire cd we receiver now)"
  using assms
  by (auto simp: ParseEventPayload_def EventFromWire_def canonical_event_def transition_of_def
      change_types_def severity_normalize_def Let_def split: if_splits option.splits)

lemma handleEvent_effect:
  "rejected r (handleEvent cd cfg now p r) \<or> mirrored r (handleEvent cd cfg now p r) \<or>
    (\<exists>ev. canonical_event ev \<and> offered ev r (handleEvent cd cfg now p r))"
proof (cases "p = []")
  case True
  then show ?thesis by (simp add: handleEvent_def)
next
  case False
  show ?thesis
  proof (cases "ParseEventPayload cd p")
    case (Inl e)
    with False show ?thesis by (simp add: handleEvent_def rejected_def reject_def)
  next
    case (Inr we)
    then have "handleEvent cd cfg now p r = offer_event (EventFromWire cd we (rv_id cfg) now) r"
      using False by (simp add: handleEvent_def)
    with ParseEventPayload_canonical [OF Inr] offer_event_offered show ?thesis by metis
  qed
qed

lemma handleProtocol_effect:
  "rejected r (handleProtocol cd cfg now clock msg r) \<or> mirrored r (handleProtocol cd cfg now clock msg r) \<or>
    (\<exists>ev. canonical_event ev \<and> offered ev r (handleProtocol cd cfg now clock msg r))"
proof (cases "ParseTopic (rv_prefix cfg) (mm_topic msg)")
  case TopicUnknown
  then show ?thesis by (simp add: handleProtocol_def rejected_def reject_def)
next
  case TopicEvents
  then show ?thesis
    using handleEvent_effect [of r cd cfg now "mm_payload msg"] by (simp add: handleProtocol_def)
next
  case TopicStatus
  then show ?thesis
    using handleStatus_effect [of r cd cfg now "mm_payload msg"] by (auto simp: handleProtocol_def)
next
  case (TopicActive a b)
  then show ?thesis
    using handleActive_effect [of r cd cfg clock b "mm_topic msg" "mm_payload msg"]
    by (auto simp: handleProtocol_def)
next
  case (TopicInfo a b c d)
  then show ?thesis
    using handleInfo_effect [of r cd cfg now "(a, b, c, d)" "mm_topic msg" "mm_payload msg"]
    by (auto simp: handleProtocol_def)
qed


text \<open>Every mirrored hazard was checked against its topic.\<close>

definition verified :: "codec \<Rightarrow> receiver_config \<Rightarrow> mirror_hazard \<Rightarrow> bool" where
  "verified cd cfg h \<longleftrightarrow>
     mh_receiver h = rv_id cfg \<and> mh_event_key h \<noteq> [] \<and>
     mh_status h \<noteq> ''expired'' \<and> mh_status h \<noteq> ''cancelled'' \<and>
     (\<exists>src. ParseTopic (rv_prefix cfg) (mh_topic h) = TopicActive src (cd_sha cd (mh_event_key h)))"

definition mirror_verified :: "codec \<Rightarrow> receiver_config \<Rightarrow> mirror \<Rightarrow> bool" where
  "mirror_verified cd cfg m \<longleftrightarrow>
     table_ok (mi_active m) \<and> (\<forall>(k, h)\<in>set (mi_active m). verified cd cfg h)"

lemma mirror_verified_subset:
  "mirror_verified cd cfg m \<Longrightarrow> mi_active m' = filter P (mi_active m) \<Longrightarrow> mirror_verified cd cfg m'"
  by (auto simp: mirror_verified_def)

lemma mirror_verified_put:
  assumes "mirror_verified cd cfg m" "verified cd cfg (h\<lparr>mh_receiver := r, mh_topic := t\<rparr>)"
  shows "mirror_verified cd cfg (fst (AddOrUpdateActive r t h m))"
proof -
  have "\<forall>(k, h)\<in>set (AList.update (entryKey r t) (h\<lparr>mh_receiver := r, mh_topic := t\<rparr>) (mi_active m)).
      verified cd cfg h"
    using assms by (intro table_all_update) (auto simp: mirror_verified_def)
  with assms(1) show ?thesis
    by (simp add: AddOrUpdateActive_def mirror_verified_def Let_def)
qed

lemma handleActive_verified:
  assumes "mirror_verified cd cfg (rx_mirror r)" "ParseTopic (rv_prefix cfg) topic = TopicActive src hash"
  shows "mirror_verified cd cfg (rx_mirror (handleActive cd cfg clock hash topic p r))"
proof -
  have drop: "mirror_verified cd cfg (rx_mirror (drop_active cfg topic r))"
    using assms(1) by (rule mirror_verified_subset)
      (simp add: drop_active_def DeleteActive_def delete_filter)
  have rej: "mirror_verified cd cfg (rx_mirror (reject e r))" for e
    using assms(1) by (simp add: reject_def)
  have put: "mirror_verified cd cfg (fst (AddOrUpdateActive (rv_id cfg) topic (mirror_hazard_of cd wh) (rx_mirror r)))"
    if "validateActive wh = None" "cd_sha cd (ap_event_key wh) = hash"
      "hp_status (ap_event wh) \<noteq> ''expired''" "hp_status (ap_event wh) \<noteq> ''cancelled''" for wh
    using that assms
    by (intro mirror_verified_put)
      (auto simp: verified_def mirror_hazard_of_def validateActive_def Let_def split: if_splits)
  show ?thesis
    unfolding handleActive_def using drop rej put by (auto split: option.split)
qed

lemma mirror_verified_cong: "mi_active m' = mi_active m \<Longrightarrow> mirror_verified cd cfg m' = mirror_verified cd cfg m"
  by (simp add: mirror_verified_def)

lemma other_handlers_active:
  "mi_active (rx_mirror (handleInfo cd cfg now ids topic p r)) = mi_active (rx_mirror r)"
  "mi_active (rx_mirror (handleStatus cd cfg now p r)) = mi_active (rx_mirror r)"
  "mi_active (rx_mirror (handleEvent cd cfg now p r)) = mi_active (rx_mirror r)"
  "mi_active (rx_mirror (handleGeneric cfg now msg r)) = mi_active (rx_mirror r)"
  by (auto simp: mqtt_simps AddOrUpdateInfo_def SetRouterStatus_def split: option.split prod.split sum.split)

lemma HandleMessage_verified:
  assumes "mirror_verified cd cfg (rx_mirror r)"
  shows "mirror_verified cd cfg (rx_mirror (HandleMessage cd cfg now clock msg r))"
proof -
  let ?r = "record_frame cfg now msg r"
  have r: "mirror_verified cd cfg (rx_mirror ?r)" using assms by simp
  have same: "mirror_verified cd cfg (rx_mirror r')" if "mi_active (rx_mirror r') = mi_active (rx_mirror ?r)" for r'
    using r mirror_verified_cong [OF that] by simp
  have "mirror_verified cd cfg (rx_mirror (handleProtocol cd cfg now clock msg ?r))"
  proof (cases "ParseTopic (rv_prefix cfg) (mm_topic msg)")
    case (TopicActive a b)
    from handleActive_verified [OF r this] TopicActive show ?thesis by (simp add: handleProtocol_def)
  next
    case TopicUnknown
    then show ?thesis by (intro same) (simp add: handleProtocol_def reject_def)
  next
    case TopicEvents
    then show ?thesis by (intro same) (simp add: handleProtocol_def other_handlers_active)
  next
    case TopicStatus
    then show ?thesis by (intro same) (simp add: handleProtocol_def other_handlers_active)
  next
    case (TopicInfo a b c d)
    then show ?thesis by (intro same) (simp add: handleProtocol_def other_handlers_active)
  qed
  moreover have "mirror_verified cd cfg (rx_mirror (handleGeneric cfg now msg ?r))"
    by (intro same other_handlers_active(4))
  ultimately show ?thesis using r by (simp add: HandleMessage_def Let_def)
qed

text \<open>
  C6: whatever a broker sends, every hazard in the mirror came from an active topic whose hash is
  the SHA-256 of the document's event key, is neither expired nor cancelled, and belongs to the
  receiver it came through.
\<close>

theorem mirror_only_verified:
  assumes "mirror_verified cd cfg (rx_mirror r)"
  shows "mirror_verified cd cfg
    (rx_mirror (fold (\<lambda>(now, clock, msg). HandleMessage cd cfg now clock msg) msgs r))"
  using assms
proof (induction msgs arbitrary: r)
  case (Cons x msgs)
  obtain now clock msg where x: "x = (now, clock, msg)" by (cases x) auto
  from Cons.IH [OF HandleMessage_verified [OF Cons.prems]] show ?case by (simp add: x)
qed simp

definition sample_receiver :: receiver where
  "sample_receiver =
     \<lparr> rx_mirror = new_mirror, rx_ingress = NewIngress 4, rx_traffic = NewTrafficBuffer 10,
       rx_messages = 0, rx_malformed = 0, rx_oversized = 0, rx_dropped = 0 \<rparr>"

definition sample_config :: receiver_config where
  "sample_config = \<lparr>rv_id = ''r'', rv_prefix = ''wf'', rv_wf_enabled = True, rv_filters = []\<rparr>"

definition sample_hazard_doc :: hazard_payload where
  "sample_hazard_doc =
     \<lparr> hp_source = ''imgw'', hp_source_id = ''1'', hp_category = [], hp_event = ''Wind'',
       hp_severity = ''severe'', hp_provider_severity = [], hp_urgency = [], hp_certainty = [],
       hp_headline = [], hp_description = [], hp_instruction = [], hp_effective_at = None,
       hp_expires_at = None, hp_latitude = None, hp_longitude = None, hp_areas = [],
       hp_status = ''active'', hp_source_url = [], hp_received_at = [], hp_updated_at = [] \<rparr>"

text \<open>A codec for one active document, with a hash function that is constant.\<close>

definition sample_codec :: codec where
  "sample_codec =
     \<lparr> cd_active = (\<lambda>p. if p = ''{}'' then Some \<lparr>ap_schema = 1, ap_type = ''active_hazard'',
         ap_event_key = ''imgw:1'', ap_event = sample_hazard_doc\<rparr> else None),
       cd_event = (\<lambda>p. None), cd_status = (\<lambda>p. None), cd_weather = (\<lambda>p. None),
       cd_time = (\<lambda>t. None), cd_sha = (\<lambda>k. replicate 64 (CHR ''a'')) \<rparr>"

definition sample_frame :: mqtt_message where
  "sample_frame =
     \<lparr> mm_topic = ''wf'' @ ''/active/'' @ ''imgw'' @ ''/'' @ replicate 64 (CHR ''a''), mm_qos = 1, mm_retained = True,
       mm_duplicate = False, mm_payload = ''{}'' \<rparr>"

lemma sample_topic: "ParseTopic ''wf'' (mm_topic sample_frame) =
    TopicActive ''imgw'' (replicate 64 (CHR ''a''))"
proof -
  have "slug_match ''imgw''" "hash_match (replicate 64 (CHR ''a''))" by code_simp+
  then have "parse_active (''imgw'' @ ''/'' @ replicate 64 (CHR ''a'')) =
      TopicActive ''imgw'' (replicate 64 (CHR ''a''))"
    by (simp add: parse_active_def)
  then show ?thesis by (auto simp: ParseTopic_active sample_frame_def)
qed

lemma sample_handled: "length (mi_active (rx_mirror
    (HandleMessage sample_codec sample_config 1 2 sample_frame sample_receiver))) = 1"
proof -
  have "in_namespace sample_config (mm_topic sample_frame)"
    by (simp add: in_namespace_def sample_config_def sample_frame_def cut_prefix_append)
  then show ?thesis using sample_topic
    by (simp add: HandleMessage_def handleProtocol_def sample_config_def handleActive_def Let_def
        MaxPayload_def)
      (simp add: sample_frame_def sample_codec_def sample_hazard_doc_def validateActive_def
        WireSchemaVersion_def optTime_def AddOrUpdateActive_def sample_receiver_def new_mirror_def
        record_frame_def MaxActiveHazards_def)
qed

text \<open>The witness accepts that document and mirrors it.\<close>

theorem mirror_only_verified_witness:
  "mirror_verified sample_codec sample_config (rx_mirror
     (fold (\<lambda>(now, clock, msg). HandleMessage sample_codec sample_config now clock msg)
       [(1, 2, sample_frame)] sample_receiver)) \<and>
   length (mi_active (rx_mirror
     (HandleMessage sample_codec sample_config 1 2 sample_frame sample_receiver))) = 1"
proof
  show "mirror_verified sample_codec sample_config (rx_mirror
     (fold (\<lambda>(now, clock, msg). HandleMessage sample_codec sample_config now clock msg)
       [(1, 2, sample_frame)] sample_receiver))"
    by (rule mirror_only_verified) (simp add: sample_receiver_def mirror_verified_def new_mirror_def)
  show "length (mi_active (rx_mirror
     (HandleMessage sample_codec sample_config 1 2 sample_frame sample_receiver))) = 1"
    by (rule sample_handled)
qed


end
