(* ===== verification/Mqtt_Output.thy ===== *)
theory Mqtt_Output
  imports Mqtt_Ingestor Ingest_Pipeline Plugin_Status Results
begin

text \<open>
  The MQTT output plugin (\<open>internal/plugins/outputs/mqtt/mqtt.go\<close>): the event stream, the retained
  active view with its desired state (\<open>activeCache\<close>, \<open>pendingDeletes\<close>), the consolidated list, the
  status and information topics, and rehydration after a reconnect, run one operation after the
  other.  \<open>Mqtt_Race\<close> interleaves them.  The broker is its retained messages and the stream of
  published events; JSON encoding, time formats and SHA-256 are the parameters \<open>encoder\<close>.
\<close>

section \<open>Configuration\<close>

record mqtt_config =
  mc_broker :: string
  mc_client_id :: string
  mc_username :: string
  mc_password :: string
  mc_password_file :: string
  mc_prefix :: string
  mc_qos :: "nat option"
  mc_heartbeat :: time

datatype config_error =
    BrokerEmpty | BrokerWhitespace string | ClientIdRequired | ClientIdTooLong nat
  | PrefixCharacters | PrefixTooLong nat | QosNotDurable nat | PasswordTwice
  | PasswordStat string | PasswordTooLong int | PasswordRead string | HeartbeatNegative time

definition normalizeTopicPrefix :: "string \<Rightarrow> config_error + string" where
  "normalizeTopicPrefix raw =
     (let p = trim_right ''/'' (trim_space raw) in
      if p = [] then Inr ''warnflux''
      else if contains_any ''+#'' p \<or> contains_any [CHR 0x00] p then Inl PrefixCharacters
      else Inr p)"

text \<open>A password file: its size, and its content unless reading fails.\<close>

datatype secret_file = StatFails string | SecretFile int "string + string"

definition read_secret :: "secret_file \<Rightarrow> config_error + string" where
  "read_secret f =
     (case f of
        StatFails e \<Rightarrow> Inl (PasswordStat e)
      | SecretFile n content \<Rightarrow>
          if n > 65536 then Inl (PasswordTooLong n)
          else (case content of Inl e \<Rightarrow> Inl (PasswordRead e)
                | Inr s \<Rightarrow> Inr (trim_right [CHR 0x0D, CHR 0x0A] s)))"

text \<open>\<open>New\<close>: the validated configuration with the quality of service.\<close>

definition new_mqtt_config ::
    "(string \<Rightarrow> secret_file) \<Rightarrow> mqtt_config \<Rightarrow> config_error + mqtt_config \<times> nat" where
  "new_mqtt_config files cfg =
     (let broker = trim_space (mc_broker cfg); cid = trim_space (mc_client_id cfg) in
      and_then (guard_err (broker \<noteq> []) BrokerEmpty) (\<lambda>_.
      and_then (guard_err (\<not> contains_any [CHR '' '', CHR 0x09, CHR 0x0A] broker)
        (BrokerWhitespace (mc_broker cfg))) (\<lambda>_.
      and_then (guard_err (cid \<noteq> []) ClientIdRequired) (\<lambda>_.
      and_then (guard_err (length cid \<le> 256) (ClientIdTooLong (length cid))) (\<lambda>_.
      and_then (normalizeTopicPrefix (mc_prefix cfg)) (\<lambda>pfx.
      and_then (guard_err (length pfx \<le> 256) (PrefixTooLong (length pfx))) (\<lambda>_.
      and_then (case mc_qos cfg of
                  None \<Rightarrow> Inr 1
                | Some q \<Rightarrow> if q = 0 \<or> q > 2 then Inl (QosNotDurable q) else Inr q) (\<lambda>qos.
      and_then (guard_err (mc_password cfg = [] \<or> mc_password_file cfg = []) PasswordTwice) (\<lambda>_.
      and_then (if mc_password_file cfg \<noteq> [] then read_secret (files (mc_password_file cfg))
                else Inr (mc_password cfg)) (\<lambda>pw.
      and_then (guard_err (0 \<le> mc_heartbeat cfg) (HeartbeatNegative (mc_heartbeat cfg))) (\<lambda>_.
      Inr (cfg\<lparr>mc_broker := broker, mc_client_id := cid, mc_prefix := pfx, mc_password := pw\<rparr>,
           qos))))))))))))"

section \<open>Wire documents\<close>

text \<open>
  The hazard block of the wire is the record \<open>hazard_payload\<close> that receivers decode.  \<open>None\<close> is
  an error of \<open>json.Marshal\<close> (a coordinate that is not finite).
\<close>

record active_list =
  al_schema :: int
  al_type :: string
  al_generated_at :: string
  al_count :: nat
  al_events :: "(string \<times> hazard_payload) list"

record wire_plugin_state =
  wp_id :: string
  wp_type :: string
  wp_state :: plugin_state
  wp_failures :: int
  wp_restarts :: int
  wp_last_error :: string

record out_status =
  os_schema :: int
  os_service :: string
  os_state :: string
  os_generated_at :: string
  os_version :: string
  os_uptime :: int
  os_db_healthy :: bool
  os_pending :: int
  os_oldest_age :: int
  os_sources :: "wire_plugin_state list"
  os_outputs :: "wire_plugin_state list"

record encoder =
  en_event :: "event_payload \<Rightarrow> string option"
  en_active :: "active_payload \<Rightarrow> string option"
  en_list :: "active_list \<Rightarrow> string option"
  en_status :: "out_status \<Rightarrow> string option"
  en_time :: "time \<Rightarrow> string"
  en_seconds :: "time \<Rightarrow> string"
  en_sha :: "string \<Rightarrow> string"

definition status_text :: "event_status \<Rightarrow> string" where
  "status_text st =
     (case st of StatusEmpty \<Rightarrow> [] | StatusActive \<Rightarrow> ''active'' | StatusCancelled \<Rightarrow> ''cancelled''
      | StatusExpired \<Rightarrow> ''expired'' | StatusOther s \<Rightarrow> s)"

definition wireHazardEventOf :: "encoder \<Rightarrow> hazard_event \<Rightarrow> hazard_payload" where
  "wireHazardEventOf en e =
     \<lparr> hp_source = he_source e, hp_source_id = he_source_id e, hp_category = he_category e,
       hp_event = he_event e, hp_severity = he_severity e,
       hp_provider_severity = he_provider_severity e, hp_urgency = he_urgency e,
       hp_certainty = he_certainty e, hp_headline = he_headline e,
       hp_description = he_description e, hp_instruction = he_instruction e,
       hp_effective_at = map_option (en_time en) (he_effective_at e),
       hp_expires_at = map_option (en_time en) (he_expires_at e),
       hp_latitude = he_latitude e, hp_longitude = he_longitude e, hp_areas = he_areas e,
       hp_status = status_text (he_status e), hp_source_url = he_source_url e,
       hp_received_at = en_time en (he_received_at e),
       hp_updated_at = en_time en (he_updated_at e) \<rparr>"

definition toWireEvent :: "encoder \<Rightarrow> event_change \<Rightarrow> event_payload" where
  "toWireEvent en c =
     \<lparr> ep_schema = 1, ep_change_id = ec_id c, ep_change_type = change_text (ec_type c),
       ep_event_key = he_key (ec_event c), ep_event = wireHazardEventOf en (ec_event c) \<rparr>"

definition active_doc :: "encoder \<Rightarrow> hazard_event \<Rightarrow> active_payload" where
  "active_doc en e =
     \<lparr> ap_schema = 1, ap_type = ''active_hazard'', ap_event_key = he_key e,
       ap_event = wireHazardEventOf en e \<rparr>"

definition activePayload :: "encoder \<Rightarrow> hazard_event \<Rightarrow> string option" where
  "activePayload en e = en_active en (active_doc en e)"

section \<open>The plugin and the broker\<close>

record active_entry =
  ae_key :: string
  ae_topic :: string
  ae_payload :: string
  ae_wire :: active_payload
  ae_seq :: nat

record delete_entry =
  dl_key :: string
  dl_topic :: string
  dl_seq :: nat

record mqtt_output =
  mo_prefix :: string
  mo_qos :: nat
  mo_seq :: nat
  mo_cache :: "(string \<times> active_entry) list"
  mo_deletes :: "(string \<times> delete_entry) list"

record broker =
  br_retained :: "(string \<times> string) list"
  br_events :: "string list"

definition new_output :: "string \<Rightarrow> nat \<Rightarrow> mqtt_output" where
  "new_output pfx qos =
     \<lparr>mo_prefix = pfx, mo_qos = qos, mo_seq = 0, mo_cache = [], mo_deletes = []\<rparr>"

text \<open>
  One use of the client: the connection is open, can be established or cannot; the publication
  is acknowledged, or the wait ends in an error although the broker has it or not.
\<close>

datatype connection = ConnOpen | ConnectOk | ConnectFails string

datatype publication = PubOk | PubLost string | PubUnacked string

datatype mqtt_error = ConnectError string | PublishError string | MarshalError | InvalidInfo info_error

type_synonym net_call = "connection \<times> publication"

definition ensureConnected :: "connection \<Rightarrow> mqtt_error option" where
  "ensureConnected c =
     (case c of ConnOpen \<Rightarrow> None | ConnectOk \<Rightarrow> None | ConnectFails e \<Rightarrow> Some (ConnectError e))"

definition pub_error :: "publication \<Rightarrow> mqtt_error option" where
  "pub_error p =
     (case p of PubOk \<Rightarrow> None | PubLost e \<Rightarrow> Some (PublishError e)
      | PubUnacked e \<Rightarrow> Some (PublishError e))"

text \<open>A retained publication replaces the topic's message; an empty payload removes it.\<close>

definition retain :: "string \<Rightarrow> string \<Rightarrow> (string \<times> string) list \<Rightarrow> (string \<times> string) list" where
  "retain topic payload m =
     (if payload = [] then AList.delete topic m else AList.update topic payload m)"

definition publish_retained :: "string \<Rightarrow> string \<Rightarrow> publication \<Rightarrow> broker \<Rightarrow> broker" where
  "publish_retained topic payload p b =
     (case p of PubLost _ \<Rightarrow> b | _ \<Rightarrow> b\<lparr>br_retained := retain topic payload (br_retained b)\<rparr>)"

definition publishActive ::
    "net_call \<Rightarrow> string \<Rightarrow> string \<Rightarrow> broker \<Rightarrow> broker \<times> mqtt_error option" where
  "publishActive net topic payload b =
     (case ensureConnected (fst net) of
        Some e \<Rightarrow> (b, Some e)
      | None \<Rightarrow> (publish_retained topic payload (snd net) b, pub_error (snd net)))"

section \<open>The desired state\<close>

text \<open>The critical sections of \<open>activeMu\<close>; \<open>activeSeq\<close> numbers the writes.\<close>

definition event_topic :: "encoder \<Rightarrow> hazard_event \<Rightarrow> mqtt_output \<Rightarrow> string" where
  "event_topic en e out = activeTopic (en_sha en) (mo_prefix out) (he_source e) (he_key e)"

definition cache_active :: "encoder \<Rightarrow> hazard_event \<Rightarrow> string \<Rightarrow> mqtt_output \<Rightarrow> mqtt_output" where
  "cache_active en e payload out =
     out\<lparr>mo_seq := mo_seq out + 1,
         mo_cache := AList.update (he_key e)
           \<lparr>ae_key = he_key e, ae_topic = event_topic en e out, ae_payload = payload,
            ae_wire = active_doc en e, ae_seq = mo_seq out + 1\<rparr> (mo_cache out),
         mo_deletes := AList.delete (he_key e) (mo_deletes out)\<rparr>"

definition begin_delete :: "encoder \<Rightarrow> hazard_event \<Rightarrow> mqtt_output \<Rightarrow> mqtt_output" where
  "begin_delete en e out =
     out\<lparr>mo_seq := mo_seq out + 1,
         mo_cache := AList.delete (he_key e) (mo_cache out),
         mo_deletes := AList.update (he_key e)
           \<lparr>dl_key = he_key e, dl_topic = event_topic en e out, dl_seq = mo_seq out + 1\<rparr>
           (mo_deletes out)\<rparr>"

definition confirm_delete :: "string \<Rightarrow> nat \<Rightarrow> mqtt_output \<Rightarrow> mqtt_output" where
  "confirm_delete key seq out =
     (case map_of (mo_deletes out) key of
        None \<Rightarrow> out
      | Some d \<Rightarrow>
          if dl_seq d = seq then out\<lparr>mo_deletes := AList.delete key (mo_deletes out)\<rparr> else out)"

definition registerPendingDeleteIfAbsent ::
    "string \<Rightarrow> string \<Rightarrow> mqtt_output \<Rightarrow> mqtt_output \<times> delete_entry option" where
  "registerPendingDeleteIfAbsent key topic out =
     (if map_of (mo_cache out) key \<noteq> None then (out, None)
      else (case map_of (mo_deletes out) key of
              Some d \<Rightarrow> (out, Some d)
            | None \<Rightarrow>
                let d = \<lparr>dl_key = key, dl_topic = topic, dl_seq = mo_seq out + 1\<rparr>
                in (out\<lparr>mo_seq := mo_seq out + 1,
                        mo_deletes := AList.update key d (mo_deletes out)\<rparr>, Some d)))"

definition delete_valid :: "string \<Rightarrow> nat \<Rightarrow> mqtt_output \<Rightarrow> bool" where
  "delete_valid key seq out \<longleftrightarrow>
     (case map_of (mo_deletes out) key of None \<Rightarrow> False | Some d \<Rightarrow> dl_seq d = seq) \<and>
     map_of (mo_cache out) key = None"

section \<open>Operations\<close>

definition SeedActiveState ::
    "encoder \<Rightarrow> hazard_event \<Rightarrow> mqtt_output \<Rightarrow> mqtt_output \<times> mqtt_error option" where
  "SeedActiveState en e out =
     (if he_status e \<noteq> StatusActive then (out, None)
      else (case activePayload en e of
              None \<Rightarrow> (out, Some MarshalError)
            | Some payload \<Rightarrow> (cache_active en e payload out, None)))"

definition updateActiveState ::
    "encoder \<Rightarrow> net_call \<Rightarrow> hazard_event \<Rightarrow> mqtt_output \<Rightarrow> broker \<Rightarrow>
      mqtt_output \<times> broker \<times> mqtt_error option" where
  "updateActiveState en net e out b =
     (case he_status e of
        StatusActive \<Rightarrow>
          (case activePayload en e of
             None \<Rightarrow> (out, b, Some MarshalError)
           | Some payload \<Rightarrow>
               (cache_active en e payload out, publishActive net (event_topic en e out) payload b))
      | StatusEmpty \<Rightarrow> (out, b, None)
      | StatusOther _ \<Rightarrow> (out, b, None)
      | _ \<Rightarrow>
          let out1 = begin_delete en e out in
          (case publishActive net (event_topic en e out) [] b of
             (b1, Some err) \<Rightarrow> (out1, b1, Some err)
           | (b1, None) \<Rightarrow> (confirm_delete (he_key e) (mo_seq out1) out1, b1, None)))"

definition activeListTopic :: "mqtt_output \<Rightarrow> string" where
  "activeListTopic out = mo_prefix out @ ''/active-list''"

definition list_doc :: "encoder \<Rightarrow> time \<Rightarrow> mqtt_output \<Rightarrow> active_list" where
  "list_doc en now out =
     (let entries = sort_key fst (map (\<lambda>(k, a). (ap_event_key (ae_wire a), ap_event (ae_wire a)))
        (mo_cache out))
      in \<lparr>al_schema = 1, al_type = ''active_list'', al_generated_at = en_seconds en now,
          al_count = length entries, al_events = entries\<rparr>)"

definition publishActiveList ::
    "encoder \<Rightarrow> net_call \<Rightarrow> time \<Rightarrow> mqtt_output \<Rightarrow> broker \<Rightarrow> broker \<times> mqtt_error option" where
  "publishActiveList en net now out b =
     (case en_list en (list_doc en now out) of
        None \<Rightarrow> (b, Some MarshalError)
      | Some payload \<Rightarrow> publishActive net (activeListTopic out) payload b)"

text \<open>The connection is used three times: for the stream, the active topic and the list.\<close>

definition Handle ::
    "encoder \<Rightarrow> net_call \<times> net_call \<times> net_call \<Rightarrow> time \<Rightarrow> event_change \<Rightarrow> mqtt_output \<Rightarrow> broker \<Rightarrow>
      mqtt_output \<times> broker \<times> mqtt_error option" where
  "Handle en nets now c out b =
     (case nets of (n1, n2, n3) \<Rightarrow>
       (case ensureConnected (fst n1) of
          Some e \<Rightarrow> (out, b, Some e)
        | None \<Rightarrow>
            (case en_event en (toWireEvent en c) of
               None \<Rightarrow> (out, b, Some MarshalError)
             | Some payload \<Rightarrow>
                 let b1 = (case snd n1 of PubLost _ \<Rightarrow> b
                           | _ \<Rightarrow> b\<lparr>br_events := br_events b @ [payload]\<rparr>) in
                 (case pub_error (snd n1) of
                    Some e \<Rightarrow> (out, b1, Some e)
                  | None \<Rightarrow>
                      (case updateActiveState en n2 (ec_event c) out b1 of
                         (out1, b2, Some e) \<Rightarrow> (out1, b2, Some e)
                       | (out1, b2, None) \<Rightarrow>
                           (case publishActiveList en n3 now out1 b2 of
                              (b3, err) \<Rightarrow> (out1, b3, err)))))))"

section \<open>Rehydration\<close>

definition attemptDelete ::
    "net_call \<Rightarrow> delete_entry \<Rightarrow> mqtt_output \<Rightarrow> broker \<Rightarrow> mqtt_output \<times> broker" where
  "attemptDelete net d out b =
     (if \<not> delete_valid (dl_key d) (dl_seq d) out then (out, b)
      else (case publishActive net (dl_topic d) [] b of
              (b1, Some _) \<Rightarrow> (out, b1)
            | (b1, None) \<Rightarrow> (confirm_delete (dl_key d) (dl_seq d) out, b1)))"

text \<open>
  What a pass does after the publication of one snapshot entry: an entry that disappeared is
  deleted again, one that was rewritten asks for another pass.
\<close>

definition recheck_entry ::
    "net_call \<Rightarrow> active_entry \<Rightarrow> mqtt_output \<times> broker \<times> bool \<Rightarrow> mqtt_output \<times> broker \<times> bool" where
  "recheck_entry net a x =
     (case x of (out, b, dirty) \<Rightarrow>
       (case map_of (mo_cache out) (ae_key a) of
          None \<Rightarrow>
            (case registerPendingDeleteIfAbsent (ae_key a) (ae_topic a) out of
               (out1, None) \<Rightarrow> (out1, b, True)
             | (out1, Some d) \<Rightarrow>
                 (case attemptDelete net d out1 b of (out2, b1) \<Rightarrow> (out2, b1, True)))
        | Some cur \<Rightarrow> (out, b, dirty \<or> ae_seq cur \<noteq> ae_seq a)))"

definition rehydrate_entry ::
    "(string \<Rightarrow> net_call) \<Rightarrow> active_entry \<Rightarrow> mqtt_output \<times> broker \<times> bool \<Rightarrow>
      mqtt_output \<times> broker \<times> bool" where
  "rehydrate_entry net a x =
     (case x of (out, b, dirty) \<Rightarrow>
        recheck_entry (net (ae_topic a)) a
          (out, fst (publishActive (net (ae_topic a)) (ae_topic a) (ae_payload a) b), dirty))"

definition rehydrate_delete ::
    "(string \<Rightarrow> net_call) \<Rightarrow> delete_entry \<Rightarrow> mqtt_output \<times> broker \<times> bool \<Rightarrow>
      mqtt_output \<times> broker \<times> bool" where
  "rehydrate_delete net d x =
     (case x of (out, b, dirty) \<Rightarrow>
       (case attemptDelete (net (dl_topic d)) d out b of
          (out1, b1) \<Rightarrow> (out1, b1, dirty \<or> map_of (mo_cache out1) (dl_key d) \<noteq> None)))"

definition activeSnapshot :: "mqtt_output \<Rightarrow> active_entry list" where
  "activeSnapshot out = map snd (mo_cache out)"

definition pendingDeleteSnapshot :: "mqtt_output \<Rightarrow> delete_entry list" where
  "pendingDeleteSnapshot out = map snd (mo_deletes out)"

definition maxRehydratePasses :: nat where "maxRehydratePasses = 4"

text \<open>\<open>net i t\<close> is what happens to a publication on topic \<open>t\<close> in pass \<open>i\<close>; \<open>left\<close> passes remain.\<close>

fun rehydrate_passes ::
    "encoder \<Rightarrow> time \<Rightarrow> (nat \<Rightarrow> string \<Rightarrow> net_call) \<Rightarrow> nat \<Rightarrow> mqtt_output \<Rightarrow> broker \<Rightarrow> mqtt_output \<times> broker" where
  "rehydrate_passes en now net 0 out b = (out, b)"
| "rehydrate_passes en now net (Suc left) out b =
     (let actives = activeSnapshot out; deletes = pendingDeleteSnapshot out;
          list_best = (\<lambda>out b. fst (publishActiveList en (net left (activeListTopic out)) now out b)) in
      if actives = [] \<and> deletes = [] then (out, list_best out b)
      else (case fold (rehydrate_delete (net left)) deletes
                   (fold (rehydrate_entry (net left)) actives (out, b, False)) of
              (out1, b1, dirty) \<Rightarrow>
                if \<not> dirty then (out1, list_best out1 b1)
                else rehydrate_passes en now net left out1 b1))"

declare rehydrate_passes.simps [simp del]

definition rehydrateActive ::
    "encoder \<Rightarrow> time \<Rightarrow> (nat \<Rightarrow> string \<Rightarrow> net_call) \<Rightarrow> mqtt_output \<Rightarrow> broker \<Rightarrow> mqtt_output \<times> broker" where
  "rehydrateActive en now net out b = rehydrate_passes en now net maxRehydratePasses out b"

section \<open>Status and information\<close>

definition wire_plugin :: "plugin_status \<Rightarrow> wire_plugin_state" where
  "wire_plugin p =
     \<lparr>wp_id = ps_id p, wp_type = ps_type p, wp_state = ps_state p,
      wp_failures = ps_consecutive_failures p, wp_restarts = ps_restart_count p,
      wp_last_error = ps_last_error p\<rparr>"

text \<open>The status of \<open>plugin.Status\<close>; \<open>int64(d.Seconds())\<close> truncates toward zero.\<close>

record app_status =
  hs_version :: string
  hs_uptime :: time
  hs_db_healthy :: bool
  hs_pending :: int
  hs_oldest_age :: time
  hs_sources :: "plugin_status list"
  hs_outputs :: "plugin_status list"

definition whole_seconds :: "time \<Rightarrow> int" where
  "whole_seconds d = (if d < 0 then - ((- d) div 1000000000) else d div 1000000000)"

definition toWireStatus :: "encoder \<Rightarrow> app_status \<Rightarrow> time \<Rightarrow> out_status" where
  "toWireStatus en st now =
     \<lparr>os_schema = 1, os_service = ''warnflux'', os_state = ''running'',
      os_generated_at = en_seconds en now, os_version = hs_version st,
      os_uptime = whole_seconds (hs_uptime st), os_db_healthy = hs_db_healthy st,
      os_pending = hs_pending st, os_oldest_age = whole_seconds (hs_oldest_age st),
      os_sources = map wire_plugin (hs_sources st), os_outputs = map wire_plugin (hs_outputs st)\<rparr>"

definition offlineWireStatus :: "encoder \<Rightarrow> time \<Rightarrow> out_status" where
  "offlineWireStatus en now =
     \<lparr>os_schema = 1, os_service = ''warnflux'', os_state = ''offline'',
      os_generated_at = en_seconds en now, os_version = [], os_uptime = 0, os_db_healthy = False,
      os_pending = 0, os_oldest_age = 0, os_sources = [], os_outputs = []\<rparr>"

definition PublishStatus ::
    "encoder \<Rightarrow> net_call \<Rightarrow> time \<Rightarrow> app_status \<Rightarrow> mqtt_output \<Rightarrow> broker \<Rightarrow> broker \<times> mqtt_error option" where
  "PublishStatus en net now st out b =
     (case ensureConnected (fst net) of
        Some e \<Rightarrow> (b, Some e)
      | None \<Rightarrow>
          (case en_status en (toWireStatus en st now) of
             None \<Rightarrow> (b, Some MarshalError)
           | Some payload \<Rightarrow>
               (publish_retained (mo_prefix out @ ''/status'') payload (snd net) b, pub_error (snd net))))"

definition informationTopic :: "mqtt_output \<Rightarrow> info_message \<Rightarrow> string" where
  "informationTopic out m =
     mo_prefix out @ ''/info/'' @ im_source m @ ''/'' @ im_producer m @ ''/'' @ im_key m @ ''/'' @ im_kind m"

definition PublishInformation ::
    "(string \<Rightarrow> bool) \<Rightarrow> net_call \<Rightarrow> info_message \<Rightarrow> mqtt_output \<Rightarrow> broker \<Rightarrow> broker \<times> mqtt_error option" where
  "PublishInformation json_ok net m out b =
     (case validate_info json_ok m of
        Some e \<Rightarrow> (b, Some (InvalidInfo e))
      | None \<Rightarrow>
          (case ensureConnected (fst net) of
             Some e \<Rightarrow> (b, Some e)
           | None \<Rightarrow> (publish_retained (informationTopic out m) (im_payload m) (snd net) b,
                      pub_error (snd net))))"

text \<open>\<open>Close\<close>: the offline status is published when the connection is open, then disconnect.\<close>

definition Close :: "encoder \<Rightarrow> bool \<Rightarrow> publication \<Rightarrow> time \<Rightarrow> mqtt_output \<Rightarrow> broker \<Rightarrow> broker" where
  "Close en is_open p now out b =
     (if \<not> is_open then b
      else (case en_status en (offlineWireStatus en now) of
              None \<Rightarrow> b
            | Some payload \<Rightarrow> publish_retained (mo_prefix out @ ''/status'') payload p b))"

end
