(* ===== verification/Mqtt_Active.thy ===== *)
theory Mqtt_Active
  imports Mqtt_Output
begin

text \<open>
  What the retained active view promises when the operations of the output run one after the
  other: desired state and pending deletions cover everything the broker retains, whatever the
  network does, and one healthy rehydration makes the broker equal to the desired state.
\<close>

section \<open>The invariant\<close>

text \<open>The retained topic of an event key; a valid source is what precedes the first colon.\<close>

definition key_topic :: "encoder \<Rightarrow> string \<Rightarrow> string \<Rightarrow> string" where
  "key_topic en pfx k = activeTopic (en_sha en) pfx (takeWhile (\<lambda>c. c \<noteq> CHR '':'') k) k"

text \<open>\<open>json.Marshal\<close> of a struct is never the empty text.\<close>

definition encoder_ok :: "encoder \<Rightarrow> bool" where
  "encoder_ok en \<longleftrightarrow> (\<forall>d. en_active en d \<noteq> Some []) \<and> (\<forall>d. en_list en d \<noteq> Some [])"

definition entries_ok :: "encoder \<Rightarrow> string set \<Rightarrow> mqtt_output \<Rightarrow> bool" where
  "entries_ok en K out \<longleftrightarrow>
     table_ok (mo_cache out) \<and> table_ok (mo_deletes out) \<and>
     (\<forall>k a. map_of (mo_cache out) k = Some a \<longrightarrow>
        ae_key a = k \<and> k \<in> K \<and> ae_topic a = key_topic en (mo_prefix out) k \<and> ae_payload a \<noteq> []) \<and>
     (\<forall>k d. map_of (mo_deletes out) k = Some d \<longrightarrow>
        dl_key d = k \<and> k \<in> K \<and> dl_topic d = key_topic en (mo_prefix out) k)"

definition exclusive :: "mqtt_output \<Rightarrow> bool" where
  "exclusive out \<longleftrightarrow> (\<forall>k. map_of (mo_cache out) k = None \<or> map_of (mo_deletes out) k = None)"

definition tracked :: "mqtt_output \<Rightarrow> string \<Rightarrow> bool" where
  "tracked out k \<longleftrightarrow> map_of (mo_cache out) k \<noteq> None \<or> map_of (mo_deletes out) k \<noteq> None"

definition covered :: "encoder \<Rightarrow> string set \<Rightarrow> mqtt_output \<Rightarrow> broker \<Rightarrow> bool" where
  "covered en K out b \<longleftrightarrow>
     (\<forall>k\<in>K. map_of (br_retained b) (key_topic en (mo_prefix out) k) \<noteq> None \<longrightarrow> tracked out k)"

definition view_ok :: "encoder \<Rightarrow> string set \<Rightarrow> mqtt_output \<Rightarrow> broker \<Rightarrow> bool" where
  "view_ok en K out b \<longleftrightarrow> entries_ok en K out \<and> exclusive out \<and> covered en K out b"

lemma key_topic_eq_iff:
  assumes "inj_on (en_sha en) K" "k \<in> K" "k' \<in> K"
    and "\<forall>k\<in>K. CHR ''/'' \<notin> set (takeWhile (\<lambda>c. c \<noteq> CHR '':'') k)"
  shows "key_topic en pfx k = key_topic en pfx k' \<longleftrightarrow> k = k'"
  using assms append_sep_eq [of "CHR ''/''" "takeWhile (\<lambda>c. c \<noteq> CHR '':'') k"
      "takeWhile (\<lambda>c. c \<noteq> CHR '':'') k'" "en_sha en k" "en_sha en k'"]
  by (auto simp: key_topic_def activeTopic_def dest: inj_onD)

text \<open>The keys in play: hashed without collision, with a valid source in front.\<close>

definition keys_ok :: "encoder \<Rightarrow> string set \<Rightarrow> bool" where
  "keys_ok en K \<longleftrightarrow> inj_on (en_sha en) K \<and>
     (\<forall>k\<in>K. CHR ''/'' \<notin> set (takeWhile (\<lambda>c. c \<noteq> CHR '':'') k))"

lemma keys_ok_topic: "keys_ok en K \<Longrightarrow> k \<in> K \<Longrightarrow> k' \<in> K \<Longrightarrow>
    key_topic en pfx k = key_topic en pfx k' \<longleftrightarrow> k = k'"
  unfolding keys_ok_def by (rule key_topic_eq_iff) auto

lemma event_topic_key:
  assumes "slug_match (he_source e)"
  shows "event_topic en e out = key_topic en (mo_prefix out) (he_key e)"
proof -
  have "\<forall>x\<in>set (he_source e). x \<noteq> CHR '':''" using slug_match_free(1) [OF assms] by metis
  then have "takeWhile (\<lambda>c. c \<noteq> CHR '':'') (he_key e) = he_source e"
    by (simp add: he_key_def event_key_def takeWhile_tail)
  then show ?thesis by (simp add: event_topic_def key_topic_def)
qed

lemma key_topic_apart:
  "key_topic en pfx k \<noteq> pfx @ ''/active-list''"
  "key_topic en pfx k \<noteq> pfx @ ''/status''"
  "key_topic en pfx k \<noteq> pfx @ CHR ''/'' # CHR ''i'' # r"
  by (simp_all add: key_topic_def activeTopic_def)

section \<open>Publications\<close>

lemma map_of_retain [simp]:
  "map_of (retain t p m) = (if p = [] then (map_of m)(t := None) else (map_of m)(t \<mapsto> p))"
  by (simp add: retain_def delete_conv' update_conv')

text \<open>An attempt to publish leaves the topic alone or has its effect there; success has it.\<close>

lemma publishActive_lookup:
  assumes "publishActive net t p b = (b', err)"
  shows "(\<forall>t'. t' \<noteq> t \<longrightarrow> map_of (br_retained b') t' = map_of (br_retained b) t') \<and>
    map_of (br_retained b') t \<in> {map_of (br_retained b) t, if p = [] then None else Some p} \<and>
    (err = None \<longrightarrow> map_of (br_retained b') t = (if p = [] then None else Some p)) \<and>
    br_events b' = br_events b"
  using assms
  by (cases net)
    (auto simp: publishActive_def publish_retained_def pub_error_def
      split: option.splits publication.splits)

lemma covered_publish:
  assumes "publishActive net t p b = (b', err)" "covered en K out b"
    and "\<forall>k\<in>K. key_topic en (mo_prefix out) k = t \<longrightarrow> p = [] \<or> tracked out k"
  shows "covered en K out b'"
  unfolding covered_def
proof (intro ballI impI)
  fix k
  let ?t = "key_topic en (mo_prefix out) k"
  assume k: "k \<in> K" and r: "map_of (br_retained b') ?t \<noteq> None"
  note l = publishActive_lookup [OF assms(1)]
  show "tracked out k"
  proof (cases "?t = t")
    case True
    with l r have "map_of (br_retained b) ?t \<noteq> None \<or> p \<noteq> []" by auto
    with assms(2,3) k True show ?thesis by (auto simp: covered_def)
  next
    case False
    with l r have "map_of (br_retained b) ?t \<noteq> None" by simp
    with assms(2) k show ?thesis by (auto simp: covered_def)
  qed
qed

section \<open>The desired state\<close>

lemma desired_prefix [simp]:
  "mo_prefix (cache_active en e p out) = mo_prefix out"
  "mo_prefix (begin_delete en e out) = mo_prefix out"
  "mo_prefix (confirm_delete k n out) = mo_prefix out"
  by (simp_all add: cache_active_def begin_delete_def confirm_delete_def split: option.split)

lemma desired_lookup [simp]:
  "map_of (mo_cache (cache_active en e p out)) =
     (map_of (mo_cache out))(he_key e \<mapsto> \<lparr>ae_key = he_key e, ae_topic = event_topic en e out,
       ae_payload = p, ae_wire = active_doc en e, ae_seq = mo_seq out + 1\<rparr>)"
  "map_of (mo_deletes (cache_active en e p out)) = (map_of (mo_deletes out))(he_key e := None)"
  "map_of (mo_cache (begin_delete en e out)) = (map_of (mo_cache out))(he_key e := None)"
  "map_of (mo_deletes (begin_delete en e out)) =
     (map_of (mo_deletes out))(he_key e \<mapsto> \<lparr>dl_key = he_key e, dl_topic = event_topic en e out,
       dl_seq = mo_seq out + 1\<rparr>)"
  by (simp_all add: cache_active_def begin_delete_def delete_conv' update_conv')

lemma confirm_lookup:
  "mo_cache (confirm_delete k n out) = mo_cache out"
  "map_of (mo_deletes (confirm_delete k n out)) =
     (case map_of (mo_deletes out) k of
        Some d \<Rightarrow> if dl_seq d = n then (map_of (mo_deletes out))(k := None) else map_of (mo_deletes out)
      | None \<Rightarrow> map_of (mo_deletes out))"
  by (simp_all add: confirm_delete_def delete_conv' split: option.split)

lemma entries_okD:
  assumes "entries_ok en K out"
  shows "map_of (mo_cache out) k = Some a \<Longrightarrow>
      ae_key a = k \<and> k \<in> K \<and> ae_topic a = key_topic en (mo_prefix out) k \<and> ae_payload a \<noteq> []"
    and "map_of (mo_deletes out) k = Some d \<Longrightarrow>
      dl_key d = k \<and> k \<in> K \<and> dl_topic d = key_topic en (mo_prefix out) k"
  using assms by (auto simp: entries_ok_def)

lemma table_ok_delete [simp]: "table_ok t \<Longrightarrow> table_ok (AList.delete k t)"
  by (simp add: table_ok_def distinct_delete)

lemma cache_active_ok:
  assumes "entries_ok en K out" "exclusive out" "slug_match (he_source e)" "he_key e \<in> K" "p \<noteq> []"
  shows "entries_ok en K (cache_active en e p out)" "exclusive (cache_active en e p out)"
    and "tracked out k \<Longrightarrow> tracked (cache_active en e p out) k"
  using assms
  by (auto simp: entries_ok_def exclusive_def tracked_def event_topic_key)
    (auto simp: cache_active_def)

lemma begin_delete_ok:
  assumes "entries_ok en K out" "exclusive out" "slug_match (he_source e)" "he_key e \<in> K"
  shows "entries_ok en K (begin_delete en e out)" "exclusive (begin_delete en e out)"
    and "tracked out k \<Longrightarrow> tracked (begin_delete en e out) k"
  using assms
  by (auto simp: entries_ok_def exclusive_def tracked_def event_topic_key)
    (auto simp: begin_delete_def)

lemma confirm_delete_ok:
  assumes "entries_ok en K out" "exclusive out"
  shows "entries_ok en K (confirm_delete k n out)" "exclusive (confirm_delete k n out)"
    and "tracked out k' \<Longrightarrow> k' \<noteq> k \<Longrightarrow> tracked (confirm_delete k n out) k'"
proof -
  have "table_ok (mo_deletes (confirm_delete k n out))"
    using assms(1) by (auto simp: confirm_delete_def entries_ok_def split: option.split)
  then show "entries_ok en K (confirm_delete k n out)"
    using assms(1) by (auto simp: entries_ok_def confirm_lookup split: option.splits if_splits)
  show "exclusive (confirm_delete k n out)"
    using assms(2) by (auto simp: exclusive_def confirm_lookup split: option.split)
  show "tracked out k' \<Longrightarrow> k' \<noteq> k \<Longrightarrow> tracked (confirm_delete k n out) k'"
    by (auto simp: tracked_def confirm_lookup split: option.split)
qed

lemma covered_mono:
  assumes "covered en K out b" "mo_prefix out' = mo_prefix out" "\<And>k. tracked out k \<Longrightarrow> tracked out' k"
  shows "covered en K out' b"
  using assms by (auto simp: covered_def)

lemma covered_confirm:
  assumes "covered en K out b" "entries_ok en K out" "exclusive out"
    and "map_of (br_retained b) (key_topic en (mo_prefix out) k) = None"
  shows "covered en K (confirm_delete k n out) b"
  unfolding covered_def
proof (intro ballI impI)
  fix k'
  assume k': "k' \<in> K"
    "map_of (br_retained b) (key_topic en (mo_prefix (confirm_delete k n out)) k') \<noteq> None"
  with assms(1,4) have "tracked out k'" "k' \<noteq> k" by (auto simp: covered_def)
  then show "tracked (confirm_delete k n out) k'" by (rule confirm_delete_ok(3) [OF assms(2,3)])
qed

section \<open>The operations keep the view\<close>

lemma SeedActiveState_view:
  assumes "view_ok en K out b" "encoder_ok en" "slug_match (he_source e)" "he_key e \<in> K"
  shows "view_ok en K (fst (SeedActiveState en e out)) b"
proof -
  have "p \<noteq> []" if "activePayload en e = Some p" for p
    using assms(2) that by (auto simp: encoder_ok_def activePayload_def)
  with assms show ?thesis
    by (auto simp: SeedActiveState_def view_ok_def cache_active_ok
        intro: covered_mono split: option.split)
qed

lemma delete_published:
  assumes "entries_ok en K out" "exclusive out" "covered en K out b"
    and "publishActive net (key_topic en (mo_prefix out) k) [] b = (b1, err)"
  shows "view_ok en K (if err = None then confirm_delete k n out else out) b1"
proof -
  have c: "covered en K out b1" using covered_publish [OF assms(4,3)] by simp
  moreover have "covered en K (confirm_delete k n out) b1" if "err = None"
    using publishActive_lookup [OF assms(4)] that covered_confirm [OF c assms(1,2)] by simp
  ultimately show ?thesis using assms(1,2) confirm_delete_ok by (auto simp: view_ok_def)
qed

lemma updateActiveState_view:
  assumes v: "view_ok en K out b" and en: "encoder_ok en" and keys: "keys_ok en K"
    and e: "slug_match (he_source e)" "he_key e \<in> K"
    and u: "updateActiveState en net e out b = (out', b', err)"
  shows "view_ok en K out' b' \<and> mo_prefix out' = mo_prefix out"
proof -
  note ok = v [unfolded view_ok_def]
  show ?thesis
  proof (cases "he_status e = StatusCancelled \<or> he_status e = StatusExpired")
    case True
    let ?out = "begin_delete en e out"
    obtain b1 err1 where p: "publishActive net (event_topic en e out) [] b = (b1, err1)"
      by fastforce
    have c: "covered en K ?out b" using ok begin_delete_ok e by (auto intro: covered_mono)
    have p': "publishActive net (key_topic en (mo_prefix ?out) (he_key e)) [] b = (b1, err1)"
      using p e(1) by (simp add: event_topic_key)
    have out': "out' = (if err1 = None then confirm_delete (he_key e) (mo_seq ?out) ?out else ?out)"
      "b' = b1"
      using u True p by (auto simp: updateActiveState_def Let_def split: option.splits)
    show ?thesis
      using delete_published [OF _ _ c p', of "mo_seq ?out"] ok begin_delete_ok e
      by (auto simp: out')
  next
    case False
    show ?thesis
    proof (cases "he_status e = StatusActive \<and> activePayload en e \<noteq> None")
      case True
      then obtain p where p: "activePayload en e = Some p" "p \<noteq> []"
        using en by (auto simp: encoder_ok_def activePayload_def)
      let ?out = "cache_active en e p out"
      have o': "out' = ?out" "publishActive net (event_topic en e out) p b = (b', err)"
        using u True p by (auto simp: updateActiveState_def split: prod.splits)
      have c: "covered en K ?out b" using ok cache_active_ok p e by (auto intro: covered_mono)
      have "covered en K ?out b'"
      proof (rule covered_publish [OF o'(2) c], intro ballI impI)
        fix k assume "k \<in> K" "key_topic en (mo_prefix ?out) k = event_topic en e out"
        with keys e have "k = he_key e" by (simp add: event_topic_key keys_ok_topic)
        then show "p = [] \<or> tracked ?out k" by (simp add: tracked_def)
      qed
      with ok cache_active_ok p e o'(1) show ?thesis by (auto simp: view_ok_def)
    next
      case False
      with \<open>\<not> (he_status e = StatusCancelled \<or> he_status e = StatusExpired)\<close> u v show ?thesis
        by (auto simp: updateActiveState_def split: event_status.splits option.splits)
    qed
  qed
qed

lemma other_topic_view:
  assumes "publishActive net t p b = (b', err)" "view_ok en K out b"
    and "\<And>k. key_topic en (mo_prefix out) k \<noteq> t"
  shows "view_ok en K out b'"
  using assms covered_publish [OF assms(1)] by (auto simp: view_ok_def)

lemma publishActiveList_view:
  assumes "view_ok en K out b"
  shows "view_ok en K out (fst (publishActiveList en net now out b))"
proof -
  have "view_ok en K out (fst (publishActive net (activeListTopic out) p b))" for p
    using other_topic_view [of net "activeListTopic out" p b _ _ en K out] assms
    by (cases "publishActive net (activeListTopic out) p b")
      (auto simp: activeListTopic_def key_topic_apart)
  with assms show ?thesis by (simp add: publishActiveList_def split: option.split)
qed

lemma view_ok_events [simp]: "view_ok en K out (b\<lparr>br_events := x\<rparr>) = view_ok en K out b"
  by (simp add: view_ok_def covered_def)

text \<open>A call of \<open>Handle\<close> fails before the active view is touched, or it updates the view.\<close>

lemma Handle_cases:
  assumes "Handle en (n1, n2, n3) now c out b = (out', b', err)"
  obtains (early) "out' = out" "err \<noteq> None" "b' = b \<or> (\<exists>p. b' = b\<lparr>br_events := br_events b @ [p]\<rparr>)"
  | (updated) p b2 err2 where
    "en_event en (toWireEvent en c) = Some p"
    "updateActiveState en n2 (ec_event c) out (b\<lparr>br_events := br_events b @ [p]\<rparr>) = (out', b2, err2)"
    "if err2 = None then publishActiveList en n3 now out' b2 = (b', err) else b' = b2 \<and> err = err2"
proof (cases "ensureConnected (fst n1)")
  case (Some e)
  with assms have "out' = out" "err = Some e" "b' = b" by (auto simp: Handle_def)
  then show thesis by (intro early) simp_all
next
  case None
  note conn = this
  show thesis
  proof (cases "en_event en (toWireEvent en c)")
    case None
    with assms conn show thesis by (intro early) (auto simp: Handle_def)
  next
    case (Some p)
    show thesis
    proof (cases "snd n1")
      case PubOk
      obtain out1 b2 err2 where u:
        "updateActiveState en n2 (ec_event c) out (b\<lparr>br_events := br_events b @ [p]\<rparr>) = (out1, b2, err2)"
        by (cases "updateActiveState en n2 (ec_event c) out (b\<lparr>br_events := br_events b @ [p]\<rparr>)") auto
      show thesis
      proof (cases err2)
        case None
        with assms Some PubOk u conn show thesis
          by (intro updated [of p b2 err2]) (auto simp: Handle_def pub_error_def split: prod.splits)
      next
        case (Some e)
        with assms \<open>en_event en (toWireEvent en c) = Some p\<close> PubOk u conn show thesis
          by (intro updated [of p b2 err2]) (auto simp: Handle_def pub_error_def split: prod.splits)
      qed
    qed (use assms Some conn in \<open>intro early; auto simp: Handle_def pub_error_def\<close>)+
  qed
qed

lemma Handle_view:
  assumes v: "view_ok en K out b" and en: "encoder_ok en" and keys: "keys_ok en K"
    and e: "slug_match (he_source (ec_event c))" "he_key (ec_event c) \<in> K"
    and h: "Handle en nets now c out b = (out', b', err)"
  shows "view_ok en K out' b' \<and> mo_prefix out' = mo_prefix out"
proof -
  obtain n1 n2 n3 where n: "nets = (n1, n2, n3)" by (cases nets) auto
  from h [unfolded n] show ?thesis
  proof (cases rule: Handle_cases)
    case early
    with v show ?thesis by auto
  next
    case (updated p b2 err2)
    have "view_ok en K out (b\<lparr>br_events := br_events b @ [p]\<rparr>)" using v by simp
    from updateActiveState_view [OF this en keys e updated(2)]
    have v2: "view_ok en K out' b2" "mo_prefix out' = mo_prefix out" by auto
    from updated(3) publishActiveList_view [OF v2(1), of n3 now] v2 show ?thesis
      by (auto split: if_splits)
  qed
qed

lemma attemptDelete_view:
  assumes v: "view_ok en K out b" and d: "dl_topic d = key_topic en (mo_prefix out) (dl_key d)"
    and a: "attemptDelete net d out b = (out', b')"
  shows "view_ok en K out' b' \<and> mo_prefix out' = mo_prefix out \<and> mo_cache out' = mo_cache out"
proof -
  obtain b1 err where p: "publishActive net (dl_topic d) [] b = (b1, err)" by fastforce
  note v' = v [unfolded view_ok_def]
  show ?thesis
    using a v delete_published [OF _ _ _ p [unfolded d], of K "dl_seq d"] v'
    by (auto simp: attemptDelete_def p confirm_lookup split: if_splits option.splits)
qed

lemma registerPendingDelete_view:
  assumes v: "view_ok en K out b" and k: "key \<in> K"
    and r: "registerPendingDeleteIfAbsent key (key_topic en (mo_prefix out) key) out = (out', d)"
  shows "view_ok en K out' b \<and> mo_prefix out' = mo_prefix out \<and> mo_cache out' = mo_cache out \<and>
    (\<forall>x. d = Some x \<longrightarrow> dl_key x = key \<and> dl_topic x = key_topic en (mo_prefix out) key)"
proof -
  let ?new = "out\<lparr>mo_seq := mo_seq out + 1, mo_deletes := AList.update key
    \<lparr>dl_key = key, dl_topic = key_topic en (mo_prefix out) key, dl_seq = mo_seq out + 1\<rparr> (mo_deletes out)\<rparr>"
  have "view_ok en K ?new b" if "map_of (mo_cache out) key = None"
    using v k that
    by (auto simp: view_ok_def entries_ok_def exclusive_def covered_def tracked_def)
  moreover have "dl_key x = key \<and> dl_topic x = key_topic en (mo_prefix out) key"
    if "map_of (mo_deletes out) key = Some x" for x
    using v that by (auto simp: view_ok_def entries_ok_def)
  ultimately show ?thesis
    using r v by (auto simp: registerPendingDeleteIfAbsent_def Let_def split: if_splits option.splits)
qed

section \<open>Rehydration\<close>

lemma rehydrate_entry_eq:
  assumes "map_of (mo_cache out) (ae_key a) = Some a"
  shows "rehydrate_entry net a (out, b, dirty) =
    (out, fst (publishActive (net (ae_topic a)) (ae_topic a) (ae_payload a) b), dirty)"
  using assms by (simp add: rehydrate_entry_def recheck_entry_def)

lemma rehydrate_entry_view:
  assumes "view_ok en K out b" "keys_ok en K" "map_of (mo_cache out) (ae_key a) = Some a"
  shows "view_ok en K out (fst (publishActive (net (ae_topic a)) (ae_topic a) (ae_payload a) b))"
proof -
  note v = assms(1) [unfolded view_ok_def]
  then have a: "ae_key a \<in> K" "ae_topic a = key_topic en (mo_prefix out) (ae_key a)"
    using entries_okD(1) assms(3) by blast+
  obtain b' err where p: "publishActive (net (ae_topic a)) (ae_topic a) (ae_payload a) b = (b', err)"
    by fastforce
  have "covered en K out b'"
  proof (rule covered_publish [OF p], use v in simp, intro ballI impI)
    fix k assume "k \<in> K" "key_topic en (mo_prefix out) k = ae_topic a"
    with assms(2) a have "k = ae_key a" by (simp add: keys_ok_topic)
    with assms(3) show "ae_payload a = [] \<or> tracked out k" by (simp add: tracked_def)
  qed
  with v p show ?thesis by (simp add: view_ok_def)
qed

lemma rehydrate_entries_view:
  assumes "keys_ok en K" "\<forall>a\<in>set as. map_of (mo_cache out) (ae_key a) = Some a"
    and "view_ok en K out b"
  shows "\<exists>b'. fold (rehydrate_entry net) as (out, b, dirty) = (out, b', dirty) \<and> view_ok en K out b'"
  using assms(2,3)
proof (induction as arbitrary: b)
  case (Cons a as)
  from rehydrate_entry_view [OF Cons.prems(2) assms(1)] Cons.prems(1)
  have "view_ok en K out (fst (publishActive (net (ae_topic a)) (ae_topic a) (ae_payload a) b))"
    by simp
  from Cons.IH [OF _ this] Cons.prems(1) show ?case by (simp add: rehydrate_entry_eq)
qed simp

lemma rehydrate_deletes_view:
  assumes "\<forall>d\<in>set ds. dl_topic d = key_topic en (mo_prefix out) (dl_key d)"
    and "view_ok en K out b" "fold (rehydrate_delete net) ds (out, b, dirty) = (out', b', dirty')"
  shows "view_ok en K out' b' \<and> mo_prefix out' = mo_prefix out \<and> mo_cache out' = mo_cache out"
  using assms
proof (induction ds arbitrary: out b dirty)
  case (Cons d ds)
  obtain out1 b1 where a: "attemptDelete (net (dl_topic d)) d out b = (out1, b1)" by fastforce
  have d: "dl_topic d = key_topic en (mo_prefix out) (dl_key d)" using Cons.prems(1) by simp
  from attemptDelete_view [OF Cons.prems(2) d a]
  have v: "view_ok en K out1 b1" "mo_prefix out1 = mo_prefix out" "mo_cache out1 = mo_cache out"
    by auto
  have "\<forall>d\<in>set ds. dl_topic d = key_topic en (mo_prefix out1) (dl_key d)"
    using Cons.prems(1) v(2) by simp
  from Cons.IH [OF this v(1)] Cons.prems(3) v(2,3) show ?case
    by (auto simp: rehydrate_delete_def a)
qed simp

lemma snapshot_current:
  assumes "entries_ok en K out"
  shows "\<forall>a\<in>set (activeSnapshot out). map_of (mo_cache out) (ae_key a) = Some a"
    and "\<forall>d\<in>set (pendingDeleteSnapshot out). map_of (mo_deletes out) (dl_key d) = Some d"
    and "\<forall>d\<in>set (pendingDeleteSnapshot out). dl_topic d = key_topic en (mo_prefix out) (dl_key d)"
proof -
  have t: "table_ok (mo_cache out)" "table_ok (mo_deletes out)" using assms by (auto simp: entries_ok_def)
  show "\<forall>a\<in>set (activeSnapshot out). map_of (mo_cache out) (ae_key a) = Some a"
    using entries_okD(1) [OF assms] t(1) by (fastforce simp: activeSnapshot_def table_lookup_iff)
  show "\<forall>d\<in>set (pendingDeleteSnapshot out). map_of (mo_deletes out) (dl_key d) = Some d"
    using entries_okD(2) [OF assms] t(2) by (fastforce simp: pendingDeleteSnapshot_def table_lookup_iff)
  then show "\<forall>d\<in>set (pendingDeleteSnapshot out). dl_topic d = key_topic en (mo_prefix out) (dl_key d)"
    using entries_okD(2) [OF assms] by blast
qed

lemma rehydrate_passes_view:
  assumes "keys_ok en K" "view_ok en K out b" "rehydrate_passes en now net n out b = (out', b')"
  shows "view_ok en K out' b' \<and> mo_prefix out' = mo_prefix out \<and> mo_cache out' = mo_cache out"
  using assms(2,3)
proof (induction n arbitrary: out b)
  case (Suc n)
  have eo: "entries_ok en K out" using Suc.prems(1) by (simp add: view_ok_def)
  show ?case
  proof (cases "activeSnapshot out = [] \<and> pendingDeleteSnapshot out = []")
    case True
    with Suc.prems publishActiveList_view [OF Suc.prems(1), of "net n (activeListTopic out)" now]
    show ?thesis by (auto simp: rehydrate_passes.simps Let_def)
  next
    case False
    obtain b1 where f1: "fold (rehydrate_entry (net n)) (activeSnapshot out) (out, b, False) = (out, b1, False)"
      and v1: "view_ok en K out b1"
      using rehydrate_entries_view [OF assms(1) snapshot_current(1) [OF eo] Suc.prems(1)] by blast
    obtain out2 b2 dirty where f2: "fold (rehydrate_delete (net n)) (pendingDeleteSnapshot out) (out, b1, False) =
        (out2, b2, dirty)"
      by (cases "fold (rehydrate_delete (net n)) (pendingDeleteSnapshot out) (out, b1, False)") auto
    from rehydrate_deletes_view [OF snapshot_current(3) [OF eo] v1 f2]
    have v2: "view_ok en K out2 b2" "mo_prefix out2 = mo_prefix out" "mo_cache out2 = mo_cache out" by auto
    show ?thesis
    proof (cases dirty)
      case True
      from Suc.IH [OF v2(1)] Suc.prems(2) False f1 f2 True v2(2,3) show ?thesis
        by (simp add: rehydrate_passes.simps Let_def)
    next
      case clean: False
      from Suc.prems(2) False f1 f2 clean v2
        publishActiveList_view [OF v2(1), of "net n (activeListTopic out2)" now] show ?thesis
        by (auto simp: rehydrate_passes.simps Let_def)
    qed
  qed
qed (simp add: rehydrate_passes.simps)

section \<open>Runs\<close>

datatype out_op =
    OpHandle "net_call \<times> net_call \<times> net_call" time event_change
  | OpSeed hazard_event
  | OpRehydrate time "nat \<Rightarrow> string \<Rightarrow> net_call"
  | OpStatus net_call time app_status
  | OpInfo net_call info_message
  | OpBrokerRestart

fun run_op :: "encoder \<Rightarrow> (string \<Rightarrow> bool) \<Rightarrow> out_op \<Rightarrow> mqtt_output \<times> broker \<Rightarrow> mqtt_output \<times> broker" where
  "run_op en json_ok (OpHandle nets now c) (out, b) =
     (case Handle en nets now c out b of (out1, b1, _) \<Rightarrow> (out1, b1))"
| "run_op en json_ok (OpSeed e) (out, b) = (fst (SeedActiveState en e out), b)"
| "run_op en json_ok (OpRehydrate now net) (out, b) = rehydrateActive en now net out b"
| "run_op en json_ok (OpStatus net now st) (out, b) = (out, fst (PublishStatus en net now st out b))"
| "run_op en json_ok (OpInfo net m) (out, b) = (out, fst (PublishInformation json_ok net m out b))"
| "run_op en json_ok OpBrokerRestart (out, b) = (out, b\<lparr>br_retained := []\<rparr>)"

text \<open>The events that reach the output have passed validation; \<open>K\<close> are the keys in play.\<close>

fun op_ok :: "string set \<Rightarrow> out_op \<Rightarrow> bool" where
  "op_ok K (OpHandle nets now c) \<longleftrightarrow> slug_match (he_source (ec_event c)) \<and> he_key (ec_event c) \<in> K"
| "op_ok K (OpSeed e) \<longleftrightarrow> slug_match (he_source e) \<and> he_key e \<in> K"
| "op_ok K _ \<longleftrightarrow> True"

definition empty_broker :: broker where
  "empty_broker = \<lparr>br_retained = [], br_events = []\<rparr>"

lemma plain_publish_view:
  assumes "view_ok en K out b" "\<And>k. key_topic en (mo_prefix out) k \<noteq> t"
  shows "view_ok en K out (publish_retained t p pub b)"
proof -
  have "publishActive (ConnOpen, pub) t p b = (publish_retained t p pub b, pub_error pub)"
    by (simp add: publishActive_def ensureConnected_def)
  from other_topic_view [OF this assms] show ?thesis .
qed

lemma PublishStatus_view:
  "view_ok en K out b \<Longrightarrow> view_ok en K out (fst (PublishStatus en net now st out b))"
  using plain_publish_view key_topic_apart by (simp add: PublishStatus_def split: option.split)

lemma PublishInformation_view:
  "view_ok en K out b \<Longrightarrow> view_ok en K out (fst (PublishInformation json_ok net m out b))"
  using plain_publish_view key_topic_apart
  by (simp add: PublishInformation_def informationTopic_def split: option.split)

lemma run_op_view:
  assumes "view_ok en K out b" "encoder_ok en" "keys_ok en K" "op_ok K op"
  shows "view_ok en K (fst (run_op en json_ok op (out, b))) (snd (run_op en json_ok op (out, b))) \<and>
    mo_prefix (fst (run_op en json_ok op (out, b))) = mo_prefix out"
proof (cases op)
  case (OpHandle nets now c)
  obtain out1 b1 err where h: "Handle en nets now c out b = (out1, b1, err)"
    by (cases "Handle en nets now c out b") auto
  from Handle_view [OF assms(1-3) _ _ h] assms(4) OpHandle h show ?thesis by simp
next
  case (OpSeed e)
  moreover have "mo_prefix (fst (SeedActiveState en e out)) = mo_prefix out"
    by (simp add: SeedActiveState_def split: option.split)
  ultimately show ?thesis using SeedActiveState_view [OF assms(1,2)] assms(4) by simp
next
  case (OpRehydrate now net)
  with rehydrate_passes_view [OF assms(3,1)] show ?thesis
    by (cases "rehydrateActive en now net out b") (auto simp: rehydrateActive_def)
next
  case OpBrokerRestart
  with assms(1) show ?thesis by (simp add: view_ok_def covered_def)
qed (use assms(1) PublishStatus_view PublishInformation_view in auto)

lemma run_ops_view:
  assumes "encoder_ok en" "keys_ok en K" "\<forall>op\<in>set ops. op_ok K op"
    and "view_ok en K (fst x) (snd x)"
  shows "view_ok en K (fst (fold (run_op en json_ok) ops x)) (snd (fold (run_op en json_ok) ops x)) \<and>
    mo_prefix (fst (fold (run_op en json_ok) ops x)) = mo_prefix (fst x)"
  using assms(3,4)
proof (induction ops arbitrary: x)
  case (Cons op ops)
  obtain out b where x: "x = (out, b)" by (cases x)
  from Cons.prems run_op_view [OF _ assms(1,2), of out b op json_ok] x
  have "view_ok en K (fst (run_op en json_ok op x)) (snd (run_op en json_ok op x))"
    "mo_prefix (fst (run_op en json_ok op x)) = mo_prefix (fst x)"
    by auto
  with Cons.IH [of "run_op en json_ok op x"] Cons.prems(1) show ?case by simp
qed simp

lemma new_output_view: "view_ok en K (new_output pfx qos) empty_broker"
  by (simp add: view_ok_def entries_ok_def exclusive_def covered_def new_output_def empty_broker_def)

section \<open>A healthy rehydration\<close>

definition healthy_net :: "(nat \<Rightarrow> string \<Rightarrow> net_call) \<Rightarrow> bool" where
  "healthy_net net \<longleftrightarrow> (\<forall>i t. ensureConnected (fst (net i t)) = None \<and> snd (net i t) = PubOk)"

lemma healthy_publish:
  assumes "healthy_net net"
  shows "publishActive (net i t) t p b = (b\<lparr>br_retained := retain t p (br_retained b)\<rparr>, None)"
  using assms by (simp add: healthy_net_def publishActive_def publish_retained_def pub_error_def)

lemma healthy_entries:
  assumes "healthy_net net" "keys_ok en K"
    and "\<forall>a\<in>set as. ae_key a \<in> K \<and> ae_topic a = key_topic en pfx (ae_key a) \<and> ae_payload a \<noteq> [] \<and>
      map_of m (ae_key a) = Some a" "m = mo_cache out"
  shows "\<exists>b'. fold (rehydrate_entry (net i)) as (out, b, dirty) = (out, b', dirty) \<and>
    (\<forall>k\<in>K. map_of (br_retained b') (key_topic en pfx k) =
      (if k \<in> ae_key ` set as then map_option ae_payload (map_of m k)
       else map_of (br_retained b) (key_topic en pfx k)))"
  using assms(3)
proof (induction as arbitrary: b)
  case (Cons a as)
  let ?b = "b\<lparr>br_retained := retain (ae_topic a) (ae_payload a) (br_retained b)\<rparr>"
  obtain b' where b': "fold (rehydrate_entry (net i)) as (out, ?b, dirty) = (out, b', dirty)"
    "\<forall>k\<in>K. map_of (br_retained b') (key_topic en pfx k) =
      (if k \<in> ae_key ` set as then map_option ae_payload (map_of m k)
       else map_of (br_retained ?b) (key_topic en pfx k))"
    using Cons.IH [of ?b] Cons.prems by auto
  have step: "rehydrate_entry (net i) a (out, b, dirty) = (out, ?b, dirty)"
    using Cons.prems assms(4) by (simp add: rehydrate_entry_eq healthy_publish [OF assms(1)])
  have "\<forall>k\<in>K. map_of (br_retained b') (key_topic en pfx k) =
      (if k \<in> ae_key ` set (a # as) then map_option ae_payload (map_of m k)
       else map_of (br_retained b) (key_topic en pfx k))"
    using b'(2) Cons.prems assms(2) by (auto simp: keys_ok_topic)
  with b'(1) step show ?case by auto
qed simp

lemma healthy_deletes:
  assumes "healthy_net net" "keys_ok en K" "distinct (map dl_key ds)"
    and "\<forall>d\<in>set ds. dl_key d \<in> K \<and> dl_topic d = key_topic en pfx (dl_key d) \<and>
      map_of (mo_deletes out) (dl_key d) = Some d" "exclusive out"
  shows "\<exists>out' b'. fold (rehydrate_delete (net i)) ds (out, b, dirty) = (out', b', dirty) \<and>
    mo_cache out' = mo_cache out \<and>
    (\<forall>k. map_of (mo_deletes out') k =
      (if k \<in> dl_key ` set ds then None else map_of (mo_deletes out) k)) \<and>
    (\<forall>k\<in>K. map_of (br_retained b') (key_topic en pfx k) =
      (if k \<in> dl_key ` set ds then None else map_of (br_retained b) (key_topic en pfx k)))"
  using assms(3-5)
proof (induction ds arbitrary: out b)
  case (Cons d ds)
  let ?b = "b\<lparr>br_retained := retain (dl_topic d) [] (br_retained b)\<rparr>"
  let ?out = "confirm_delete (dl_key d) (dl_seq d) out"
  have d: "map_of (mo_deletes out) (dl_key d) = Some d" using Cons.prems(2) by simp
  with Cons.prems(3) have c: "map_of (mo_cache out) (dl_key d) = None" by (auto simp: exclusive_def)
  with d have "attemptDelete (net i (dl_topic d)) d out b = (?out, ?b)"
    by (simp add: attemptDelete_def delete_valid_def healthy_publish [OF assms(1)])
  with c have step: "rehydrate_delete (net i) d (out, b, dirty) = (?out, ?b, dirty)"
    by (simp add: rehydrate_delete_def confirm_lookup)
  have look: "map_of (mo_deletes ?out) = (map_of (mo_deletes out))(dl_key d := None)"
    using d by (simp add: confirm_lookup)
  have dist: "distinct (map dl_key ds)" using Cons.prems(1) by simp
  have "\<forall>x\<in>set ds. dl_key x \<in> K \<and> dl_topic x = key_topic en pfx (dl_key x) \<and>
      map_of (mo_deletes ?out) (dl_key x) = Some x"
  proof
    fix x assume x: "x \<in> set ds"
    then have "dl_key x \<noteq> dl_key d" using Cons.prems(1) by (auto simp: image_iff)
    then show "dl_key x \<in> K \<and> dl_topic x = key_topic en pfx (dl_key x) \<and>
      map_of (mo_deletes ?out) (dl_key x) = Some x"
      using Cons.prems(2) x by (simp add: look)
  qed
  moreover have "exclusive ?out"
    using Cons.prems(3) unfolding exclusive_def look by (auto simp: confirm_lookup(1))
  ultimately have "\<exists>out' b'. fold (rehydrate_delete (net i)) ds (?out, ?b, dirty) = (out', b', dirty) \<and>
    mo_cache out' = mo_cache ?out \<and>
    (\<forall>k. map_of (mo_deletes out') k =
      (if k \<in> dl_key ` set ds then None else map_of (mo_deletes ?out) k)) \<and>
    (\<forall>k\<in>K. map_of (br_retained b') (key_topic en pfx k) =
      (if k \<in> dl_key ` set ds then None else map_of (br_retained ?b) (key_topic en pfx k)))"
    by (rule Cons.IH [OF dist])
  then obtain out' b' where r: "fold (rehydrate_delete (net i)) ds (?out, ?b, dirty) = (out', b', dirty)"
    "mo_cache out' = mo_cache ?out"
    "\<forall>k. map_of (mo_deletes out') k = (if k \<in> dl_key ` set ds then None else map_of (mo_deletes ?out) k)"
    "\<forall>k\<in>K. map_of (br_retained b') (key_topic en pfx k) =
      (if k \<in> dl_key ` set ds then None else map_of (br_retained ?b) (key_topic en pfx k))"
    by (elim exE conjE)
  have "\<forall>k\<in>K. map_of (br_retained b') (key_topic en pfx k) =
      (if k \<in> dl_key ` set (d # ds) then None else map_of (br_retained b) (key_topic en pfx k))"
    using r(4) Cons.prems(2) assms(2) by (auto simp: keys_ok_topic)
  moreover have "\<forall>k. map_of (mo_deletes out') k =
      (if k \<in> dl_key ` set (d # ds) then None else map_of (mo_deletes out) k)"
    using r(3) by (simp add: look)
  moreover have "fold (rehydrate_delete (net i)) (d # ds) (out, b, dirty) = (out', b', dirty)"
    using step r(1) by simp
  ultimately show ?case using r(2) confirm_lookup(1) by metis
qed simp

lemma publishActiveList_other:
  "map_of (br_retained (fst (publishActiveList en nc now out b))) (key_topic en (mo_prefix out) k) =
    map_of (br_retained b) (key_topic en (mo_prefix out) k)"
proof -
  have "map_of (br_retained (fst (publishActive nc (activeListTopic out) p b)))
      (key_topic en (mo_prefix out) k) = map_of (br_retained b) (key_topic en (mo_prefix out) k)" for p
    using publishActive_lookup [of nc "activeListTopic out" p b] key_topic_apart(1) [of en "mo_prefix out" k]
    by (cases "publishActive nc (activeListTopic out) p b") (simp add: activeListTopic_def)
  then show ?thesis by (simp add: publishActiveList_def split: option.split)
qed

lemma snapshot_keys:
  assumes "entries_ok en K out"
  shows "ae_key ` set (activeSnapshot out) = dom (map_of (mo_cache out))"
    and "dl_key ` set (pendingDeleteSnapshot out) = dom (map_of (mo_deletes out))"
    and "distinct (map dl_key (pendingDeleteSnapshot out))"
proof -
  have "map ae_key (activeSnapshot out) = map fst (mo_cache out)"
    "map dl_key (pendingDeleteSnapshot out) = map fst (mo_deletes out)"
    using assms by (auto simp: activeSnapshot_def pendingDeleteSnapshot_def entries_ok_def
        simp flip: table_lookup_iff)
  then show "ae_key ` set (activeSnapshot out) = dom (map_of (mo_cache out))"
    "dl_key ` set (pendingDeleteSnapshot out) = dom (map_of (mo_deletes out))"
    "distinct (map dl_key (pendingDeleteSnapshot out))"
    using assms by (simp_all add: dom_map_of_conv_image_fst entries_ok_def table_ok_def)
      (metis image_set)+
qed

lemma healthy_pass:
  assumes "healthy_net net" "keys_ok en K" "view_ok en K out b"
    and "rehydrate_passes en now net (Suc n) out b = (out', b')"
  shows "mo_cache out' = mo_cache out \<and> mo_deletes out' = [] \<and>
    (\<forall>k\<in>K. map_of (br_retained b') (key_topic en (mo_prefix out) k) =
       map_option ae_payload (map_of (mo_cache out) k))"
proof -
  let ?as = "activeSnapshot out" and ?ds = "pendingDeleteSnapshot out"
  have eo: "entries_ok en K out" "exclusive out" "covered en K out b"
    using assms(3) by (auto simp: view_ok_def)
  have as: "\<forall>a\<in>set ?as. ae_key a \<in> K \<and> ae_topic a = key_topic en (mo_prefix out) (ae_key a) \<and>
      ae_payload a \<noteq> [] \<and> map_of (mo_cache out) (ae_key a) = Some a"
    using snapshot_current(1) [OF eo(1)] entries_okD(1) [OF eo(1)] by blast
  have ds: "\<forall>d\<in>set ?ds. dl_key d \<in> K \<and> dl_topic d = key_topic en (mo_prefix out) (dl_key d) \<and>
      map_of (mo_deletes out) (dl_key d) = Some d"
    using snapshot_current(2,3) [OF eo(1)] entries_okD(2) [OF eo(1)] by blast
  note keys = snapshot_keys [OF eo(1)]
  show ?thesis
  proof (cases "?as = [] \<and> ?ds = []")
    case True
    then have "mo_cache out = []" "mo_deletes out = []"
      by (simp_all add: activeSnapshot_def pendingDeleteSnapshot_def)
    moreover have "out' = out" "b' = fst (publishActiveList en (net n (activeListTopic out)) now out b)"
      using assms(4) True by (auto simp: rehydrate_passes.simps Let_def)
    ultimately show ?thesis using eo(3) by (auto simp: publishActiveList_other covered_def tracked_def)
  next
    case False
  obtain b1 where f1: "fold (rehydrate_entry (net n)) ?as (out, b, False) = (out, b1, False)"
    and r1: "\<forall>k\<in>K. map_of (br_retained b1) (key_topic en (mo_prefix out) k) =
      (if k \<in> ae_key ` set ?as then map_option ae_payload (map_of (mo_cache out) k)
       else map_of (br_retained b) (key_topic en (mo_prefix out) k))"
    using healthy_entries [OF assms(1,2) as refl] by blast
  obtain out2 b2 where f2: "fold (rehydrate_delete (net n)) ?ds (out, b1, False) = (out2, b2, False)"
    and c2: "mo_cache out2 = mo_cache out"
    and d2: "\<forall>k. map_of (mo_deletes out2) k =
      (if k \<in> dl_key ` set ?ds then None else map_of (mo_deletes out) k)"
    and r2: "\<forall>k\<in>K. map_of (br_retained b2) (key_topic en (mo_prefix out) k) =
      (if k \<in> dl_key ` set ?ds then None else map_of (br_retained b1) (key_topic en (mo_prefix out) k))"
    using healthy_deletes [OF assms(1,2) keys(3) ds eo(2)] by blast
  have gone: "mo_deletes out2 = []"
  proof -
    have "map_of (mo_deletes out2) = Map.empty"
    proof
      fix k show "map_of (mo_deletes out2) k = None"
        using d2 [rule_format, of k] by (auto simp: keys(2) domIff split: if_splits)
    qed
    then show ?thesis by simp
  qed
  have shown: "map_of (br_retained b2) (key_topic en (mo_prefix out) k) =
      map_option ae_payload (map_of (mo_cache out) k)" if "k \<in> K" for k
    using r1 r2 eo(2,3) that
    by (auto simp: keys(1,2) domIff exclusive_def covered_def tracked_def split: if_splits)
  have "out' = out2" "b' = fst (publishActiveList en (net n (activeListTopic out2)) now out2 b2)"
    using assms(4) False f1 f2 by (auto simp: rehydrate_passes.simps Let_def)
  moreover have "mo_prefix out2 = mo_prefix out"
    using rehydrate_deletes_view [OF snapshot_current(3) [OF eo(1)] _ f2] rehydrate_entries_view
      [OF assms(2) snapshot_current(1) [OF eo(1)] assms(3), of "net n" False] f1 by auto
  ultimately show ?thesis using shown gone c2 publishActiveList_other by metis
  qed
qed

lemma updateActiveState_published:
  assumes "updateActiveState en net e out b = (out', b', None)" "encoder_ok en"
    and "he_status e \<in> {StatusActive, StatusCancelled, StatusExpired}"
  shows "br_events b' = br_events b \<and> mo_prefix out' = mo_prefix out \<and>
    map_of (br_retained b') (event_topic en e out) =
      (if he_status e = StatusActive then activePayload en e else None)"
proof (cases "he_status e = StatusActive")
  case True
  with assms obtain p where p: "activePayload en e = Some p" "p \<noteq> []"
    "publishActive net (event_topic en e out) p b = (b', None)" "out' = cache_active en e p out"
    by (auto simp: updateActiveState_def activePayload_def encoder_ok_def
        split: option.splits prod.splits)
  from publishActive_lookup [OF p(3)] p True show ?thesis by simp
next
  case False
  with assms have "publishActive net (event_topic en e out) [] b = (b', None)"
    "mo_prefix out' = mo_prefix out"
    by (auto simp: updateActiveState_def Let_def split: option.splits prod.splits)
  with publishActive_lookup [OF this(1)] False show ?thesis by simp
qed

section \<open>Properties\<close>



text \<open>
  C11: what an acknowledged delivery means.  When \<open>Handle\<close> returns no error the broker has the
  change on the event stream, the active topic of the event carries its document when the event
  is active and nothing when it is cancelled or expired, and the retained list shows exactly the
  desired view.
\<close>

theorem handled_means_published:
  assumes "Handle en nets now c out b = (out', b', None)" "encoder_ok en"
    and "he_status (ec_event c) \<in> {StatusActive, StatusCancelled, StatusExpired}"
  shows "(\<exists>p. en_event en (toWireEvent en c) = Some p \<and> br_events b' = br_events b @ [p]) \<and>
    map_of (br_retained b') (event_topic en (ec_event c) out) =
      (if he_status (ec_event c) = StatusActive then activePayload en (ec_event c) else None) \<and>
    map_of (br_retained b') (mo_prefix out @ ''/active-list'') = en_list en (list_doc en now out')"
proof -
  obtain n1 n2 n3 where n: "nets = (n1, n2, n3)" by (cases nets) auto
  let ?e = "ec_event c"
  from assms(1) [unfolded n] show ?thesis
  proof (cases rule: Handle_cases)
    case (updated p b2 err2)
    then have err2: "err2 = None" and l: "publishActiveList en n3 now out' b2 = (b', None)"
      by (auto split: if_splits)
    have view: "br_events b2 = br_events b @ [p]" "mo_prefix out' = mo_prefix out"
      "map_of (br_retained b2) (event_topic en ?e out) =
        (if he_status ?e = StatusActive then activePayload en ?e else None)"
      using updateActiveState_published [OF updated(2) [unfolded err2] assms(2,3)] by auto
    have apart: "event_topic en ?e out \<noteq> mo_prefix out @ ''/active-list''"
      by (simp add: event_topic_def activeTopic_def)
    obtain q where q: "en_list en (list_doc en now out') = Some q" "q \<noteq> []"
      "publishActive n3 (mo_prefix out @ ''/active-list'') q b2 = (b', None)"
      using l assms(2) view(2)
      by (auto simp: publishActiveList_def encoder_ok_def activeListTopic_def split: option.splits)
    from publishActive_lookup [OF q(3)] q(1,2) view apart updated(1) show ?thesis by auto
  qed auto
qed

section \<open>An example run\<close>

text \<open>An event is shown; its cancellation is lost on the way; a reconnect repeats the deletion.\<close>

definition sample_encoder :: encoder where
  "sample_encoder =
     \<lparr>en_event = (\<lambda>d. Some (CHR ''E'' # ep_event_key d)),
      en_active = (\<lambda>d. Some (CHR ''A'' # ap_event_key d)),
      en_list = (\<lambda>d. Some ''L''), en_status = (\<lambda>d. Some ''S''),
      en_time = (\<lambda>t. []), en_seconds = (\<lambda>t. []), en_sha = (\<lambda>s. s)\<rparr>"

definition shown_change :: event_change where
  "shown_change = \<lparr>ec_id = 1, ec_type = ChangeNew, ec_event = sample_event\<rparr>"

definition cancelled_change :: event_change where
  "cancelled_change = \<lparr>ec_id = 2, ec_type = ChangeCancelled,
     ec_event = sample_event\<lparr>he_status := StatusCancelled\<rparr>\<rparr>"

definition net_ok :: net_call where "net_ok = (ConnOpen, PubOk)"

definition sample_ops :: "out_op list" where
  "sample_ops = [OpHandle (net_ok, net_ok, net_ok) 1 shown_change,
     OpHandle (net_ok, (ConnOpen, PubLost ''timeout''), net_ok) 2 cancelled_change]"

lemma sample_key: "he_key sample_event = ''imgw:w:1''" "he_source sample_event = ''imgw''"
  "he_status sample_event = StatusActive"
  by (simp_all add: sample_event_def he_key_def event_key_def)

lemma sample_keys_ok: "keys_ok sample_encoder {''imgw:w:1''}" "encoder_ok sample_encoder"
  by (simp_all add: keys_ok_def encoder_ok_def sample_encoder_def)

lemma sample_ops_ok: "\<forall>op\<in>set sample_ops. op_ok {''imgw:w:1''} op"
proof -
  have "slug_match ''imgw''" by code_simp
  moreover have "he_key (ec_event shown_change) = ''imgw:w:1''" "he_source (ec_event shown_change) = ''imgw''"
    "he_key (ec_event cancelled_change) = ''imgw:w:1''" "he_source (ec_event cancelled_change) = ''imgw''"
    using sample_key by (simp_all add: shown_change_def cancelled_change_def he_key_def)
  ultimately show ?thesis by (simp add: sample_ops_def)
qed

abbreviation sample_run :: "mqtt_output \<times> broker" where
  "sample_run \<equiv> fold (run_op sample_encoder (\<lambda>_. True)) sample_ops (new_output ''wf'' 2, empty_broker)"

lemma sample_shown:
  "run_op sample_encoder (\<lambda>_. True) (OpHandle (net_ok, net_ok, net_ok) 1 shown_change)
     (new_output ''wf'' 2, empty_broker) =
   (\<lparr>mo_prefix = ''wf'', mo_qos = 2, mo_seq = 1,
      mo_cache = [(''imgw:w:1'', \<lparr>ae_key = ''imgw:w:1'', ae_topic = ''wf/active/imgw/imgw:w:1'',
        ae_payload = ''Aimgw:w:1'', ae_wire = active_doc sample_encoder sample_event, ae_seq = 1\<rparr>)],
      mo_deletes = []\<rparr>,
    \<lparr>br_retained = [(''wf/active/imgw/imgw:w:1'', ''Aimgw:w:1''), (''wf/active-list'', ''L'')],
      br_events = [''Eimgw:w:1'']\<rparr>)"
  by (simp add: Handle_def net_ok_def ensureConnected_def sample_encoder_def pub_error_def
      updateActiveState_def shown_change_def sample_key Let_def publishActive_def
      publish_retained_def activePayload_def cache_active_def event_topic_def activeTopic_def
      new_output_def empty_broker_def retain_def publishActiveList_def activeListTopic_def
      toWireEvent_def active_doc_def)

lemma sample_cancelled_key:
  "he_key (sample_event\<lparr>he_status := st\<rparr>) = ''imgw:w:1''"
  using sample_key(1) by (simp add: he_key_def)

lemma sample_retained:
  "map_of (br_retained (snd sample_run)) (key_topic sample_encoder ''wf'' ''imgw:w:1'') = Some ''Aimgw:w:1''"
  by (simp add: sample_ops_def sample_shown del: run_op.simps)
    (simp add: Handle_def net_ok_def ensureConnected_def sample_encoder_def pub_error_def
      updateActiveState_def cancelled_change_def sample_cancelled_key Let_def publishActive_def
      publish_retained_def toWireEvent_def key_topic_def activeTopic_def)



theorem handled_means_published_witness:
  "map_of (br_retained (fst (snd (Handle sample_encoder (net_ok, net_ok, net_ok) 1 shown_change
     (new_output ''wf'' 2) empty_broker)))) ''wf/active/imgw/imgw:w:1'' = Some ''Aimgw:w:1''"
proof -
  let ?h = "Handle sample_encoder (net_ok, net_ok, net_ok) 1 shown_change (new_output ''wf'' 2) empty_broker"
  have s: "snd (snd ?h) = None"
    by (simp add: Handle_def net_ok_def ensureConnected_def sample_encoder_def pub_error_def
      updateActiveState_def shown_change_def sample_key Let_def publishActive_def
      publish_retained_def activePayload_def publishActiveList_def)
  then obtain out' b' where h: "?h = (out', b', None)" by (cases ?h) auto
  from handled_means_published [OF h sample_keys_ok(2)]
  have "map_of (br_retained b') ''wf/active/imgw/imgw:w:1'' = Some ''Aimgw:w:1''"
    by (simp add: shown_change_def sample_key event_topic_def activeTopic_def activePayload_def
        new_output_def) (simp add: sample_encoder_def active_doc_def sample_key)
  then show ?thesis unfolding h by simp
qed

end
