(* ===== verification/Mqtt_Race.thy ===== *)
theory Mqtt_Race
  imports Mqtt_Active
begin

text \<open>
  The output worker and the background rehydration of the MQTT output side by side.  A step is
  one critical section of \<open>activeMu\<close> or one publication, so every interleaving of \<open>Handle\<close> with
  \<open>rehydrateActive\<close> (\<open>internal/plugins/outputs/mqtt/mqtt.go\<close>) is a sequence of steps.  Both
  threads are serial: the worker delivers one change at a time and \<open>rehydrateMu\<close> admits one
  rehydration.  The consolidated list is left out.
\<close>

section \<open>The threads\<close>

text \<open>After its critical section the worker publishes; a deletion is confirmed afterwards.\<close>

datatype worker_pc =
    WIdle
  | WPublish string string "(string \<times> nat) option"
  | WConfirm string nat

text \<open>What is left of a pass: its number, the two snapshots and the flag \<open>dirty\<close>.\<close>

record pass_frame =
  pf_pass :: nat
  pf_actives :: "active_entry list"
  pf_deletes :: "delete_entry list"
  pf_dirty :: bool

text \<open>The flag of a deletion says whether it comes from the snapshot of pending deletions.\<close>

datatype rehydrate_pc =
    RIdle
  | RLoop pass_frame
  | RCheck active_entry pass_frame
  | RAttempt delete_entry bool pass_frame
  | RSend delete_entry bool pass_frame
  | RConfirm delete_entry bool pass_frame
  | RAfter delete_entry bool pass_frame

record view_system =
  vs_out :: mqtt_output
  vs_broker :: broker
  vs_worker :: worker_pc
  vs_rehydrate :: rehydrate_pc

definition worker_begin :: "encoder \<Rightarrow> hazard_event \<Rightarrow> mqtt_output \<Rightarrow> mqtt_output \<times> worker_pc" where
  "worker_begin en e out =
     (case he_status e of
        StatusActive \<Rightarrow>
          (case activePayload en e of
             None \<Rightarrow> (out, WIdle)
           | Some p \<Rightarrow> (cache_active en e p out, WPublish (event_topic en e out) p None))
      | StatusCancelled \<Rightarrow>
          (begin_delete en e out, WPublish (event_topic en e out) [] (Some (he_key e, mo_seq out + 1)))
      | StatusExpired \<Rightarrow>
          (begin_delete en e out, WPublish (event_topic en e out) [] (Some (he_key e, mo_seq out + 1)))
      | _ \<Rightarrow> (out, WIdle))"

definition worker_published :: "publication \<Rightarrow> (string \<times> nat) option \<Rightarrow> worker_pc" where
  "worker_published p del =
     (case pub_error p of
        Some _ \<Rightarrow> WIdle
      | None \<Rightarrow> (case del of None \<Rightarrow> WIdle | Some (k, n) \<Rightarrow> WConfirm k n))"

definition start_pass :: "nat \<Rightarrow> mqtt_output \<Rightarrow> rehydrate_pc" where
  "start_pass i out =
     (if activeSnapshot out = [] \<and> pendingDeleteSnapshot out = [] then RIdle
      else RLoop \<lparr>pf_pass = i, pf_actives = activeSnapshot out,
                  pf_deletes = pendingDeleteSnapshot out, pf_dirty = False\<rparr>)"

definition rehydrate_check :: "active_entry \<Rightarrow> pass_frame \<Rightarrow> mqtt_output \<Rightarrow> mqtt_output \<times> rehydrate_pc" where
  "rehydrate_check a f out =
     (case map_of (mo_cache out) (ae_key a) of
        Some cur \<Rightarrow> (out, RLoop (f\<lparr>pf_dirty := pf_dirty f \<or> ae_seq cur \<noteq> ae_seq a\<rparr>))
      | None \<Rightarrow>
          (case registerPendingDeleteIfAbsent (ae_key a) (ae_topic a) out of
             (out1, None) \<Rightarrow> (out1, RLoop (f\<lparr>pf_dirty := True\<rparr>))
           | (out1, Some d) \<Rightarrow> (out1, RAttempt d False (f\<lparr>pf_dirty := True\<rparr>))))"

definition end_pass :: "pass_frame \<Rightarrow> mqtt_output \<Rightarrow> rehydrate_pc" where
  "end_pass f out =
     (if \<not> pf_dirty f \<or> pf_pass f + 1 \<ge> maxRehydratePasses then RIdle else start_pass (pf_pass f + 1) out)"

inductive view_step :: "encoder \<Rightarrow> view_system \<Rightarrow> view_system \<Rightarrow> bool" for en :: encoder where
  handle: "vs_worker s = WIdle \<Longrightarrow> worker_begin en e (vs_out s) = (out, w) \<Longrightarrow>
    view_step en s (s\<lparr>vs_out := out, vs_worker := w\<rparr>)"
| seed: "vs_worker s = WIdle \<Longrightarrow>
    view_step en s (s\<lparr>vs_out := fst (SeedActiveState en e (vs_out s))\<rparr>)"
| publish: "vs_worker s = WPublish t p del \<Longrightarrow>
    view_step en s (s\<lparr>vs_broker := publish_retained t p pub (vs_broker s),
      vs_worker := worker_published pub del\<rparr>)"
| confirm: "vs_worker s = WConfirm k n \<Longrightarrow>
    view_step en s (s\<lparr>vs_out := confirm_delete k n (vs_out s), vs_worker := WIdle\<rparr>)"
| reconnect: "vs_rehydrate s = RIdle \<Longrightarrow>
    view_step en s (s\<lparr>vs_rehydrate := start_pass 0 (vs_out s)\<rparr>)"
| republish: "vs_rehydrate s = RLoop f \<Longrightarrow> pf_actives f = a # as \<Longrightarrow>
    view_step en s (s\<lparr>vs_broker := publish_retained (ae_topic a) (ae_payload a) pub (vs_broker s),
      vs_rehydrate := RCheck a (f\<lparr>pf_actives := as\<rparr>)\<rparr>)"
| check: "vs_rehydrate s = RCheck a f \<Longrightarrow> rehydrate_check a f (vs_out s) = (out, r) \<Longrightarrow>
    view_step en s (s\<lparr>vs_out := out, vs_rehydrate := r\<rparr>)"
| next_delete: "vs_rehydrate s = RLoop f \<Longrightarrow> pf_actives f = [] \<Longrightarrow> pf_deletes f = d # ds \<Longrightarrow>
    view_step en s (s\<lparr>vs_rehydrate := RAttempt d True (f\<lparr>pf_deletes := ds\<rparr>)\<rparr>)"
| attempt: "vs_rehydrate s = RAttempt d l f \<Longrightarrow>
    view_step en s (s\<lparr>vs_rehydrate :=
      (if delete_valid (dl_key d) (dl_seq d) (vs_out s) then RSend d l f else RAfter d l f)\<rparr>)"
| send: "vs_rehydrate s = RSend d l f \<Longrightarrow>
    view_step en s (s\<lparr>vs_broker := publish_retained (dl_topic d) [] pub (vs_broker s),
      vs_rehydrate := (if pub_error pub = None then RConfirm d l f else RAfter d l f)\<rparr>)"
| sent: "vs_rehydrate s = RConfirm d l f \<Longrightarrow>
    view_step en s (s\<lparr>vs_out := confirm_delete (dl_key d) (dl_seq d) (vs_out s),
      vs_rehydrate := RAfter d l f\<rparr>)"
| after: "vs_rehydrate s = RAfter d l f \<Longrightarrow>
    view_step en s (s\<lparr>vs_rehydrate :=
      RLoop (if l then f\<lparr>pf_dirty := pf_dirty f \<or> map_of (mo_cache (vs_out s)) (dl_key d) \<noteq> None\<rparr> else f)\<rparr>)"
| end_of_pass: "vs_rehydrate s = RLoop f \<Longrightarrow> pf_actives f = [] \<Longrightarrow> pf_deletes f = [] \<Longrightarrow>
    view_step en s (s\<lparr>vs_rehydrate := end_pass f (vs_out s)\<rparr>)"
| broker_restart: "view_step en s (s\<lparr>vs_broker := (vs_broker s)\<lparr>br_retained := []\<rparr>\<rparr>)"

inductive view_steps :: "encoder \<Rightarrow> view_system \<Rightarrow> view_system \<Rightarrow> bool" for en :: encoder where
  none: "view_steps en s s"
| more: "view_steps en s s' \<Longrightarrow> view_step en s' s'' \<Longrightarrow> view_steps en s s''"

definition view_start :: "string \<Rightarrow> view_system" where
  "view_start pfx =
     \<lparr>vs_out = new_output pfx 1, vs_broker = empty_broker, vs_worker = WIdle, vs_rehydrate = RIdle\<rparr>"

section \<open>What every interleaving keeps\<close>

text \<open>Every generation number in use is at most the counter, and every deletion has its own.\<close>

definition seqs_ok :: "mqtt_output \<Rightarrow> bool" where
  "seqs_ok out \<longleftrightarrow>
     (\<forall>k a. map_of (mo_cache out) k = Some a \<longrightarrow> ae_seq a \<le> mo_seq out) \<and>
     (\<forall>k d. map_of (mo_deletes out) k = Some d \<longrightarrow> dl_seq d \<le> mo_seq out)"

definition out_ok :: "mqtt_output \<Rightarrow> bool" where
  "out_ok out \<longleftrightarrow> exclusive out \<and> seqs_ok out"

lemma cache_active_out_ok: "out_ok out \<Longrightarrow> out_ok (cache_active en e p out)"
  by (auto simp: out_ok_def exclusive_def seqs_ok_def) (auto simp: cache_active_def le_SucI)

lemma begin_delete_out_ok: "out_ok out \<Longrightarrow> out_ok (begin_delete en e out)"
  by (auto simp: out_ok_def exclusive_def seqs_ok_def) (auto simp: begin_delete_def le_SucI)

lemma confirm_delete_out_ok: "out_ok out \<Longrightarrow> out_ok (confirm_delete k n out)"
  by (auto simp: out_ok_def exclusive_def seqs_ok_def confirm_delete_def delete_conv'
      split: option.split)

lemma worker_begin_out_ok: "out_ok out \<Longrightarrow> worker_begin en e out = (out', w) \<Longrightarrow> out_ok out'"
  by (auto simp: worker_begin_def cache_active_out_ok begin_delete_out_ok
      split: event_status.splits option.splits)

lemma SeedActiveState_out_ok: "out_ok out \<Longrightarrow> out_ok (fst (SeedActiveState en e out))"
  by (auto simp: SeedActiveState_def cache_active_out_ok split: option.split)

lemma rehydrate_check_out_ok: "out_ok out \<Longrightarrow> rehydrate_check a f out = (out', r) \<Longrightarrow> out_ok out'"
  by (auto simp: rehydrate_check_def registerPendingDeleteIfAbsent_def out_ok_def exclusive_def
      seqs_ok_def Let_def le_SucI split: option.splits if_splits)

lemma view_step_out_ok: "view_step en s s' \<Longrightarrow> out_ok (vs_out s) \<Longrightarrow> out_ok (vs_out s')"
  by (induction rule: view_step.induct)
    (auto dest: worker_begin_out_ok rehydrate_check_out_ok
      intro: SeedActiveState_out_ok confirm_delete_out_ok)

lemma view_steps_out_ok: "view_steps en s s' \<Longrightarrow> out_ok (vs_out s) \<Longrightarrow> out_ok (vs_out s')"
  by (induction rule: view_steps.induct) (auto dest: view_step_out_ok)


section \<open>The window between a confirmation and a stale publication\<close>

definition view_at :: "mqtt_output \<Rightarrow> broker \<Rightarrow> worker_pc \<Rightarrow> rehydrate_pc \<Rightarrow> view_system" where
  "view_at out b w r = \<lparr>vs_out = out, vs_broker = b, vs_worker = w, vs_rehydrate = r\<rparr>"

lemma view_at_sel [simp]:
  "vs_out (view_at out b w r) = out" "vs_broker (view_at out b w r) = b"
  "vs_worker (view_at out b w r) = w" "vs_rehydrate (view_at out b w r) = r"
  "view_at out b w r\<lparr>vs_out := out'\<rparr> = view_at out' b w r"
  "view_at out b w r\<lparr>vs_broker := b'\<rparr> = view_at out b' w r"
  "view_at out b w r\<lparr>vs_worker := w'\<rparr> = view_at out b w' r"
  "view_at out b w r\<lparr>vs_rehydrate := r'\<rparr> = view_at out b w r'"
  by (simp_all add: view_at_def)

lemmas view_moves =
  view_step.handle [of "view_at out b w r" for out b w r, simplified]
  view_step.publish [of "view_at out b w r" for out b w r, simplified]
  view_step.confirm [of "view_at out b w r" for out b w r, simplified]
  view_step.reconnect [of "view_at out b w r" for out b w r, simplified]
  view_step.republish [of "view_at out b w r" for out b w r, simplified]
  view_step.check [of "view_at out b w r" for out b w r, simplified]
  view_step.attempt [of "view_at out b w r" for out b w r, simplified]
  view_step.after [of "view_at out b w r" for out b w r, simplified]
  view_step.end_of_pass [of "view_at out b w r" for out b w r, simplified]

text \<open>The desired states of the window: shown, then to be deleted, then forgotten.\<close>

definition shown_out :: "encoder \<Rightarrow> hazard_event \<Rightarrow> string \<Rightarrow> string \<Rightarrow> mqtt_output" where
  "shown_out en e p pfx = cache_active en e p (new_output pfx 1)"

definition deleting_out :: "encoder \<Rightarrow> hazard_event \<Rightarrow> string \<Rightarrow> string \<Rightarrow> mqtt_output" where
  "deleting_out en e p pfx = begin_delete en e (shown_out en e p pfx)"

definition forgotten_out :: "encoder \<Rightarrow> hazard_event \<Rightarrow> string \<Rightarrow> string \<Rightarrow> mqtt_output" where
  "forgotten_out en e p pfx = confirm_delete (he_key e) 2 (deleting_out en e p pfx)"

definition shown_entry :: "encoder \<Rightarrow> hazard_event \<Rightarrow> string \<Rightarrow> string \<Rightarrow> active_entry" where
  "shown_entry en e p pfx =
     \<lparr>ae_key = he_key e, ae_topic = event_topic en e (new_output pfx 1), ae_payload = p,
      ae_wire = active_doc en e, ae_seq = 1\<rparr>"

definition pending_entry :: "encoder \<Rightarrow> hazard_event \<Rightarrow> string \<Rightarrow> delete_entry" where
  "pending_entry en e pfx =
     \<lparr>dl_key = he_key e, dl_topic = event_topic en e (new_output pfx 1), dl_seq = 2\<rparr>"

lemma window_out:
  "mo_cache (shown_out en e p pfx) = [(he_key e, shown_entry en e p pfx)]"
  "mo_deletes (shown_out en e p pfx) = []" "mo_seq (shown_out en e p pfx) = 1"
  "mo_cache (deleting_out en e p pfx) = []"
  "mo_deletes (deleting_out en e p pfx) = [(he_key e, pending_entry en e pfx)]"
  "mo_cache (forgotten_out en e p pfx) = []" "mo_deletes (forgotten_out en e p pfx) = []"
  by (simp_all add: shown_out_def deleting_out_def forgotten_out_def shown_entry_def
      pending_entry_def cache_active_def begin_delete_def confirm_delete_def new_output_def
      event_topic_def)

lemma status_update [simp]:
  "he_key (e\<lparr>he_status := st\<rparr>) = he_key e"
  "event_topic en (e\<lparr>he_status := st\<rparr>) out = event_topic en e out"
  by (simp_all add: he_key_def event_topic_def)

lemma worker_window:
  assumes "he_status e = StatusActive" "activePayload en e = Some p"
  shows "worker_begin en e (new_output pfx 1) =
      (shown_out en e p pfx, WPublish (event_topic en e (new_output pfx 1)) p None)"
    and "worker_begin en (e\<lparr>he_status := StatusCancelled\<rparr>) (shown_out en e p pfx) =
      (deleting_out en e p pfx,
       WPublish (event_topic en e (new_output pfx 1)) [] (Some (he_key e, 2)))"
  using assms
  by (simp_all add: worker_begin_def shown_out_def deleting_out_def)
    (simp_all add: begin_delete_def cache_active_def event_topic_def new_output_def)

lemma check_window:
  "rehydrate_check (shown_entry en e p pfx) f (deleting_out en e p pfx) =
    (deleting_out en e p pfx, RAttempt (pending_entry en e pfx) False (f\<lparr>pf_dirty := True\<rparr>))"
  by (simp add: rehydrate_check_def registerPendingDeleteIfAbsent_def window_out shown_entry_def)

text \<open>
  C23: a stale snapshot can resurrect a cancelled hazard.  The worker's deletion reaches the
  broker, then the rehydration's stale publication does; the rehydration finds the pending
  deletion and takes it over, the worker confirms and drops it, and the attempt is skipped as
  obsolete.  Both threads end, the deletion is forgotten and the cancelled hazard stays retained.
\<close>

theorem stale_snapshot_resurrects:
  assumes "he_status e = StatusActive" "activePayload en e = Some p" "p \<noteq> []"
  shows "\<exists>s. view_steps en (view_start pfx) s \<and> vs_worker s = WIdle \<and> vs_rehydrate s = RIdle \<and>
    \<not> tracked (vs_out s) (he_key e) \<and>
    map_of (br_retained (vs_broker s)) (event_topic en e (new_output pfx 1)) = Some p"
proof -
  let ?t = "event_topic en e (new_output pfx 1)" and ?a = "shown_entry en e p pfx"
  let ?b1 = "publish_retained ?t p PubOk empty_broker"
  let ?b2 = "publish_retained ?t [] PubOk ?b1"
  let ?b3 = "publish_retained ?t p PubOk ?b2"
  let ?o1 = "shown_out en e p pfx" and ?o2 = "deleting_out en e p pfx"
  let ?f = "\<lparr>pf_pass = 0, pf_actives = [?a], pf_deletes = [], pf_dirty = False\<rparr>"
  let ?g = "\<lparr>pf_pass = 0, pf_actives = [], pf_deletes = [], pf_dirty = False\<rparr>"
  let ?h = "\<lparr>pf_pass = 0, pf_actives = [], pf_deletes = [], pf_dirty = True\<rparr>"
  let ?d = "pending_entry en e pfx"
  have start: "start_pass 0 ?o1 = RLoop ?f"
    by (simp add: start_pass_def activeSnapshot_def pendingDeleteSnapshot_def window_out)
  have over: "start_pass (Suc 0) (forgotten_out en e p pfx) = RIdle"
    by (simp add: start_pass_def activeSnapshot_def pendingDeleteSnapshot_def window_out)
  have obsolete: "\<not> delete_valid (dl_key ?d) (dl_seq ?d) (forgotten_out en e p pfx)"
    by (simp add: delete_valid_def window_out)
  note go = view_steps.more [of en "view_start pfx"]
  have "view_steps en (view_start pfx) (view_at (new_output pfx 1) empty_broker WIdle RIdle)"
    using view_steps.none [of en "view_start pfx"] by (simp add: view_start_def view_at_def)
  then have "view_steps en (view_start pfx) (view_at ?o1 empty_broker (WPublish ?t p None) RIdle)"
    by (rule go) (rule view_moves(1) [OF refl worker_window(1) [OF assms(1,2)]])
  then have "view_steps en (view_start pfx) (view_at ?o1 ?b1 WIdle RIdle)"
    by (rule go) (use view_moves(2) [OF refl, where pub = PubOk and del = None] in
      \<open>simp add: worker_published_def pub_error_def\<close>)
  then have "view_steps en (view_start pfx) (view_at ?o1 ?b1 WIdle (RLoop ?f))"
    by (rule go) (use view_moves(4) [of RIdle en ?o1] in \<open>simp add: start\<close>)
  then have "view_steps en (view_start pfx)
      (view_at ?o2 ?b1 (WPublish ?t [] (Some (he_key e, 2))) (RLoop ?f))"
    by (rule go) (rule view_moves(1) [OF refl worker_window(2) [OF assms(1,2)]])
  then have "view_steps en (view_start pfx) (view_at ?o2 ?b2 (WConfirm (he_key e) 2) (RLoop ?f))"
    by (rule go) (use view_moves(2) [OF refl, where pub = PubOk and del = "Some (he_key e, 2)"] in
      \<open>simp add: worker_published_def pub_error_def\<close>)
  then have "view_steps en (view_start pfx) (view_at ?o2 ?b3 (WConfirm (he_key e) 2) (RCheck ?a ?g))"
    by (rule go) (use view_moves(5) [where pub = PubOk and f = ?f and a = ?a and as = "[]"] in
      \<open>simp add: shown_entry_def\<close>)
  then have "view_steps en (view_start pfx)
      (view_at ?o2 ?b3 (WConfirm (he_key e) 2) (RAttempt ?d False ?h))"
    by (rule go) (use view_moves(6) [OF refl check_window [where f = ?g]] in simp)
  then have "view_steps en (view_start pfx)
      (view_at (forgotten_out en e p pfx) ?b3 WIdle (RAttempt ?d False ?h))"
    by (rule go) (use view_moves(3) [OF refl] in \<open>simp add: forgotten_out_def\<close>)
  then have "view_steps en (view_start pfx)
      (view_at (forgotten_out en e p pfx) ?b3 WIdle (RAfter ?d False ?h))"
    by (rule go) (use view_moves(7) [OF refl, where out = "forgotten_out en e p pfx" and d = ?d] in
      \<open>simp add: obsolete\<close>)
  then have "view_steps en (view_start pfx) (view_at (forgotten_out en e p pfx) ?b3 WIdle (RLoop ?h))"
    by (rule go) (use view_moves(8) [OF refl, where l = False] in simp)
  then have "view_steps en (view_start pfx) (view_at (forgotten_out en e p pfx) ?b3 WIdle RIdle)"
    by (rule go) (use view_moves(9) [OF refl, where f = ?h and out = "forgotten_out en e p pfx"] in
      \<open>simp add: end_pass_def maxRehydratePasses_def over\<close>)
  moreover have "map_of (br_retained ?b3) ?t = Some p" "\<not> tracked (forgotten_out en e p pfx) (he_key e)"
    using assms(3) by (simp_all add: tracked_def window_out publish_retained_def)
  ultimately show ?thesis
    by (intro exI [of _ "view_at (forgotten_out en e p pfx) ?b3 WIdle RIdle"]) simp
qed

theorem stale_snapshot_resurrects_witness:
  "\<exists>s. view_steps sample_encoder (view_start ''wf'') s \<and> vs_worker s = WIdle \<and>
    vs_rehydrate s = RIdle \<and> \<not> tracked (vs_out s) (he_key sample_event) \<and>
    map_of (br_retained (vs_broker s)) (event_topic sample_encoder sample_event (new_output ''wf'' 1)) =
      Some (CHR ''A'' # he_key sample_event)"
  by (rule stale_snapshot_resurrects)
    (simp_all add: sample_key(3) sample_encoder_def activePayload_def active_doc_def)


end
