(* ===== verification/Mqtt_Roundtrip.thy ===== *)
theory Mqtt_Roundtrip
  imports Mqtt_Race
begin

text \<open>
  The publisher and the receiver of the MQTT protocol together: what the output of one instance
  puts on a topic is what the ingestor of another accepts.  JSON and RFC 3339 are parameters of
  both sides; \<open>codec_matches\<close> says that decoding inverts encoding on documents whose texts are
  UTF-8 (\<open>encoding/json\<close> replaces other bytes) and on times of the years 0 to 9999.
\<close>

definition payload_utf8 :: "hazard_payload \<Rightarrow> bool" where
  "payload_utf8 h \<longleftrightarrow>
     list_all valid_utf8
       ([hp_source h, hp_source_id h, hp_category h, hp_event h, hp_severity h,
         hp_provider_severity h, hp_urgency h, hp_certainty h, hp_headline h, hp_description h,
         hp_instruction h, hp_status h, hp_source_url h, hp_received_at h, hp_updated_at h] @
        hp_areas h) \<and>
     pred_option valid_utf8 (hp_effective_at h) \<and> pred_option valid_utf8 (hp_expires_at h)"

definition active_utf8 :: "active_payload \<Rightarrow> bool" where
  "active_utf8 d \<longleftrightarrow>
     valid_utf8 (ap_type d) \<and> valid_utf8 (ap_event_key d) \<and> payload_utf8 (ap_event d)"

definition event_utf8 :: "event_payload \<Rightarrow> bool" where
  "event_utf8 d \<longleftrightarrow>
     valid_utf8 (ep_change_type d) \<and> valid_utf8 (ep_event_key d) \<and> payload_utf8 (ep_event d)"

definition codec_matches :: "encoder \<Rightarrow> codec \<Rightarrow> bool" where
  "codec_matches en cd \<longleftrightarrow>
     (\<forall>d p. en_active en d = Some p \<and> active_utf8 d \<longrightarrow> p \<noteq> [] \<and> cd_active cd p = Some d) \<and>
     (\<forall>d p. en_event en d = Some p \<and> event_utf8 d \<longrightarrow> p \<noteq> [] \<and> cd_event cd p = Some d) \<and>
     (\<forall>t. json_time_ok t \<longrightarrow> en_time en t \<noteq> [] \<and> cd_time cd (en_time en t) = Some t) \<and>
     (\<forall>t. valid_utf8 (en_time en t)) \<and>
     cd_sha cd = en_sha en"

definition event_texts_utf8 :: "hazard_event \<Rightarrow> bool" where
  "event_texts_utf8 e \<longleftrightarrow>
     list_all valid_utf8
       ([he_source e, he_source_id e, he_category e, he_event e, he_severity e,
         he_provider_severity e, he_urgency e, he_certainty e, he_headline e, he_description e,
         he_instruction e, status_text (he_status e), he_source_url e] @ he_areas e)"

text \<open>An event as the store hands it to an output: valid UTF-8, times that print, no zero times.\<close>

definition publishable :: "encoder \<Rightarrow> hazard_event \<Rightarrow> bool" where
  "publishable en e \<longleftrightarrow>
     slug_match (he_source e) \<and> severity_valid (he_severity e) \<and>
     event_texts_utf8 e \<and>
     opt_time_ok (he_effective_at e) \<and> opt_time_ok (he_expires_at e) \<and>
     he_effective_at e \<noteq> Some zero_time \<and> he_expires_at e \<noteq> Some zero_time \<and>
     json_time_ok (he_received_at e) \<and> json_time_ok (he_updated_at e) \<and>
     he_updated_at e \<noteq> zero_time"

lemma codec_matchesD:
  assumes "codec_matches en cd"
  shows "en_active en d = Some p \<Longrightarrow> active_utf8 d \<Longrightarrow> p \<noteq> [] \<and> cd_active cd p = Some d"
    and "en_event en d' = Some p \<Longrightarrow> event_utf8 d' \<Longrightarrow> p \<noteq> [] \<and> cd_event cd p = Some d'"
  using assms unfolding codec_matches_def by blast+

lemma publishable_docs:
  assumes "codec_matches en cd" "publishable en e"
  shows "active_utf8 (active_doc en e)"
    and "ec_event c = e \<Longrightarrow> event_utf8 (toWireEvent en c)"
proof -
  have t: "valid_utf8 (en_time en t)" for t
    using assms(1) by (simp add: codec_matches_def)
  have "valid_utf8 (he_source e @ '':'' @ he_source_id e)"
    using assms(2) by (intro valid_utf8_append valid_utf8_ascii [of "'':''"])
      (simp_all add: publishable_def event_texts_utf8_def)
  then have k: "valid_utf8 (he_key e)" by (simp add: he_key_def event_key_def)
  have h: "payload_utf8 (wireHazardEventOf en e)"
    using assms(2) t by (auto simp: publishable_def event_texts_utf8_def payload_utf8_def
        wireHazardEventOf_def option.pred_map option.pred_set)
  show "active_utf8 (active_doc en e)"
    using k h by (simp add: active_utf8_def active_doc_def valid_utf8_ascii)
  have "valid_utf8 (change_text ct)" for ct
    by (cases ct) (simp_all add: valid_utf8_ascii)
  then show "ec_event c = e \<Longrightarrow> event_utf8 (toWireEvent en c)"
    using k h by (simp add: event_utf8_def toWireEvent_def)
qed

lemma parse_printed:
  assumes "codec_matches en cd" "json_time_ok t"
  shows "parseTime cd (en_time en t) = t"
  using assms by (auto simp: codec_matches_def parseTime_def)

lemma opt_parse_printed:
  assumes "codec_matches en cd" "opt_time_ok t" "t \<noteq> Some zero_time"
  shows "optTime cd (map_option (en_time en) t) = t"
  using assms parse_printed [OF assms(1)]
  by (cases t) (auto simp: optTime_def opt_time_ok_def Let_def)

lemma publishable_times:
  assumes "codec_matches en cd" "publishable en e"
  shows "optTime cd (hp_effective_at (wireHazardEventOf en e)) = he_effective_at e"
    and "optTime cd (hp_expires_at (wireHazardEventOf en e)) = he_expires_at e"
    and "parseTime cd (hp_received_at (wireHazardEventOf en e)) = he_received_at e"
    and "parseTime cd (hp_updated_at (wireHazardEventOf en e)) = he_updated_at e"
  using assms opt_parse_printed [OF assms(1)] parse_printed [OF assms(1)]
  by (auto simp: publishable_def wireHazardEventOf_def)

section \<open>The active view\<close>

text \<open>The mirror entry of an event, under the receiver's name and the topic.\<close>

definition mirrored_event :: "string \<Rightarrow> string \<Rightarrow> hazard_event \<Rightarrow> mirror_hazard" where
  "mirrored_event receiver topic e =
     \<lparr> mh_receiver = receiver, mh_topic = topic, mh_event_key = he_key e,
       mh_source = he_source e, mh_source_id = he_source_id e, mh_category = he_category e,
       mh_event = he_event e, mh_severity = he_severity e, mh_urgency = he_urgency e,
       mh_certainty = he_certainty e, mh_headline = he_headline e,
       mh_description = he_description e, mh_instruction = he_instruction e,
       mh_effective_at = he_effective_at e, mh_expires_at = he_expires_at e,
       mh_areas = he_areas e, mh_status = ''active'', mh_latitude = he_latitude e,
       mh_longitude = he_longitude e, mh_received_at = he_received_at e,
       mh_updated_at = he_updated_at e \<rparr>"

text \<open>A frame as the broker hands it on.\<close>

definition frame :: "string \<Rightarrow> nat \<Rightarrow> bool \<Rightarrow> string \<Rightarrow> mqtt_message" where
  "frame topic qos retained payload =
     \<lparr>mm_topic = topic, mm_qos = qos, mm_retained = retained, mm_duplicate = False,
      mm_payload = payload\<rparr>"

text \<open>
  the active view survives the wire.  The retained document of an active event, received by
  an instance that listens on the publisher's prefix, ends in the mirror with the fields it had
  in the publisher's store, unless its expiry has passed, the document exceeds the size limit or
  the mirror is full.
\<close>

theorem active_view_roundtrip:
  assumes "codec_matches en cd" "publishable en e" "he_status e = StatusActive"
    and "activePayload en e = Some p" "length p \<le> MaxPayload" "hash_match (en_sha en (he_key e))"
    and "rv_wf_enabled cfg" "rv_prefix cfg = mo_prefix out"
    and "\<forall>t. he_expires_at e = Some t \<longrightarrow> clock < t"
    and "length (mi_active (rx_mirror r)) < MaxActiveHazards"
  shows "map_of (mi_active (rx_mirror (HandleMessage cd cfg now clock
      (frame (event_topic en e out) q True p) r))) (entryKey (rv_id cfg) (event_topic en e out)) =
    Some (mirrored_event (rv_id cfg) (event_topic en e out) e)"
proof -
  let ?t = "event_topic en e out" and ?m = "frame (event_topic en e out) q True p"
  let ?r = "record_frame cfg now ?m r"
  have doc: "p \<noteq> []" "cd_active cd p = Some (active_doc en e)"
    using codec_matchesD(1) [OF assms(1), of "active_doc en e" p] assms(4)
      publishable_docs(1) [OF assms(1,2)] by (simp_all add: activePayload_def)
  have topic: "ParseTopic (rv_prefix cfg) ?t = TopicActive (he_source e) (en_sha en (he_key e))"
    using assms(2,6,8) by (auto simp: ParseTopic_active parse_active_eq event_topic_def
        activeTopic_def publishable_def)
  have "in_namespace cfg ?t"
    using assms(7,8) cut_prefix_append [of "rv_prefix cfg @ ''/''"]
    by (simp add: in_namespace_def event_topic_def activeTopic_def cut_prefix_Some_iff)
  then have "HandleMessage cd cfg now clock ?m r =
      handleActive cd cfg clock (en_sha en (he_key e)) ?t p ?r"
    using assms(5) topic by (simp add: HandleMessage_def handleProtocol_def frame_def Let_def)
  also have "\<dots> = ?r\<lparr>rx_mirror := fst (AddOrUpdateActive (rv_id cfg) ?t
      (mirror_hazard_of cd (active_doc en e)) (rx_mirror ?r))\<rparr>"
    using doc assms(1,3,9) publishable_times(2) [OF assms(1,2)]
    by (auto simp: handleActive_def validateActive_def active_doc_def WireSchemaVersion_def
        codec_matches_def wireHazardEventOf_def status_text_def he_key_def event_key_def
        split: option.split)
  finally show ?thesis
    using assms(3,10) publishable_times [OF assms(1,2)]
    by (simp add: AddOrUpdateActive_def mirror_hazard_of_def active_doc_def mirrored_event_def
        Let_def) (simp add: wireHazardEventOf_def status_text_def)
qed

section \<open>The event stream\<close>

text \<open>The canonical event of a change as the rule engine receives it.\<close>

definition transition_kind :: "change_type \<Rightarrow> transition_type" where
  "transition_kind ct =
     (case ct of ChangeNew \<Rightarrow> TransitionNew | ChangeUpdated \<Rightarrow> TransitionUpdated
      | ChangeCancelled \<Rightarrow> TransitionCancelled | ChangeExpired \<Rightarrow> TransitionExpired)"

definition dispatched_change :: "string \<Rightarrow> time \<Rightarrow> event_change \<Rightarrow> dispatch_event" where
  "dispatched_change receiver now c =
     (let e = ec_event c in
      \<lparr> de_kind = EventHazardTransition, de_received_at = now, de_origin_type = ''mqtt'',
        de_receiver_id = receiver,
        de_hazard = Some \<lparr> ht_type = transition_kind (ec_type c), ht_key = he_key e,
          ht_source = he_source e, ht_change_id = ec_id c, ht_timestamp = he_updated_at e,
          ht_hazard = \<lparr> hz_event_key = he_key e, hz_source = he_source e,
            hz_source_id = he_source_id e, hz_event = he_event e, hz_severity = he_severity e,
            hz_provider_severity = he_provider_severity e, hz_urgency = he_urgency e,
            hz_certainty = he_certainty e, hz_headline = he_headline e, hz_areas = he_areas e,
            hz_description = he_description e, hz_instruction = he_instruction e,
            hz_latitude = he_latitude e, hz_longitude = he_longitude e,
            hz_effective_at = he_effective_at e, hz_expires_at = he_expires_at e,
            hz_received_at = he_received_at e, hz_updated_at = he_updated_at e \<rparr> \<rparr>,
        de_mqtt = None \<rparr>)"

lemma severity_normalize_canonical:
  "severity_valid s \<Longrightarrow> severity_normalize s = (s, True)"
proof -
  have "severity_normalize (sev_text v) = (sev_text v, True)" for v
    by (cases v) (simp_all add: severity_normalize_def trim_space_plain plain_char_def
        byte_range_def to_lower_def lower_char_def is_upper_ascii_def severity_valid_def
        severity_of_def)
  then show "severity_valid s \<Longrightarrow> severity_normalize s = (s, True)"
    by (auto simp: severity_valid_iff)
qed

lemma change_text_vocabulary:
  "change_text ct \<in> set change_types" "transition_of (change_text ct) = transition_kind ct"
  by (cases ct; simp add: change_types_def transition_of_def transition_kind_def)+

lemma parse_event_printed:
  assumes "codec_matches en cd" "publishable en (ec_event c)" "en_event en (toWireEvent en c) = Some p"
  shows "p \<noteq> [] \<and> ParseEventPayload cd p = Inr (toWireEvent en c)"
proof -
  have h: "hp_severity (wireHazardEventOf en (ec_event c)) = he_severity (ec_event c)"
    by (simp add: wireHazardEventOf_def)
  have d: "p \<noteq> []" "cd_event cd p = Some (toWireEvent en c)"
    using codec_matchesD(2) [OF assms(1), of "toWireEvent en c" p] assms(3)
      publishable_docs(2) [OF assms(1,2) refl] by simp_all
  have "severity_normalize (he_severity (ec_event c)) = (he_severity (ec_event c), True)"
    using assms(2) by (simp add: publishable_def severity_normalize_canonical)
  moreover have "hp_severity_update (\<lambda>_. he_severity (ec_event c)) (wireHazardEventOf en (ec_event c)) =
      wireHazardEventOf en (ec_event c)"
    by (simp add: wireHazardEventOf_def)
  ultimately show ?thesis
    using d change_text_vocabulary(1) [of "ec_type c"]
    by (simp add: ParseEventPayload_def) (simp add: toWireEvent_def h WireSchemaVersion_def he_key_def event_key_def)
qed

text \<open>
  C24: the event stream survives the wire.  What \<open>Handle\<close> publishes for a change is accepted by a
  receiver on the same prefix and queued for the rule engine as the same transition, with the
  publisher's journal ID, key and fields.
\<close>

theorem event_stream_roundtrip:
  assumes "codec_matches en cd" "publishable en (ec_event c)"
    and "en_event en (toWireEvent en c) = Some p" "length p \<le> MaxPayload"
    and "rv_wf_enabled cfg" "rv_prefix cfg = mo_prefix out"
    and "\<not> ig_closed (rx_ingress r)" "length (ig_queue (rx_ingress r)) < ig_cap (rx_ingress r)"
  shows "ig_queue (rx_ingress (HandleMessage cd cfg now clock
      (frame (mo_prefix out @ ''/events'') q False p) r)) =
    ig_queue (rx_ingress r) @ [dispatched_change (rv_id cfg) now c]"
proof -
  let ?t = "mo_prefix out @ ''/events''" and ?m = "frame (mo_prefix out @ ''/events'') q False p"
  let ?e = "ec_event c"
  have "in_namespace cfg ?t"
    using assms(5,6) by (simp add: in_namespace_def cut_prefix_Some_iff)
  then have "HandleMessage cd cfg now clock ?m r =
      offer_event (EventFromWire cd (toWireEvent en c) (rv_id cfg) now) (record_frame cfg now ?m r)"
    using assms(4,6) parse_event_printed [OF assms(1-3)] ParseTopic_events [of "mo_prefix out" ?t]
    by (simp add: HandleMessage_def handleProtocol_def frame_def Let_def handleEvent_def)
  moreover have "EventFromWire cd (toWireEvent en c) (rv_id cfg) now = dispatched_change (rv_id cfg) now c"
  proof -
    have "he_updated_at ?e \<noteq> zero_time" using assms(2) by (simp add: publishable_def)
    then show ?thesis using publishable_times [OF assms(1,2)] change_text_vocabulary(2)
      by (simp add: EventFromWire_def toWireEvent_def dispatched_change_def Let_def)
        (simp add: wireHazardEventOf_def)
  qed
  ultimately show ?thesis using assms(7,8) by (simp add: offer_event_def Enqueue_def Let_def)
qed

section \<open>An example of both sides\<close>

text \<open>Times are written in unary; one document is encoded, as the text \<open>{}\<close>.\<close>

definition unary_time :: "time \<Rightarrow> string" where
  "unary_time t = (if t < 0 then CHR ''-'' else CHR ''+'') # replicate (nat \<bar>t\<bar>) (CHR ''x'')"

definition read_unary :: "string \<Rightarrow> time option" where
  "read_unary s = (case s of [] \<Rightarrow> None
     | c # cs \<Rightarrow> Some (if c = CHR ''-'' then - int (length cs) else int (length cs)))"

definition base_encoder :: encoder where
  "base_encoder =
     \<lparr>en_event = (\<lambda>d. None), en_active = (\<lambda>d. None), en_list = (\<lambda>d. None), en_status = (\<lambda>d. None),
      en_time = unary_time, en_seconds = unary_time, en_sha = (\<lambda>k. replicate 64 (CHR ''a''))\<rparr>"

definition one_change :: event_change where
  "one_change = \<lparr>ec_id = 7, ec_type = ChangeNew, ec_event = sample_event\<rparr>"

definition one_encoder :: encoder where
  "one_encoder = base_encoder
     \<lparr>en_event := (\<lambda>d. if d = toWireEvent base_encoder one_change then Some ''{}'' else None),
      en_active := (\<lambda>d. if d = active_doc base_encoder sample_event then Some ''{}'' else None)\<rparr>"

definition one_codec :: codec where
  "one_codec =
     \<lparr>cd_active = (\<lambda>p. if p = ''{}'' then Some (active_doc base_encoder sample_event) else None),
      cd_event = (\<lambda>p. if p = ''{}'' then Some (toWireEvent base_encoder one_change) else None),
      cd_status = (\<lambda>p. None), cd_weather = (\<lambda>p. None), cd_time = read_unary,
      cd_sha = (\<lambda>k. replicate 64 (CHR ''a''))\<rparr>"

lemma one_docs:
  "active_doc one_encoder = active_doc base_encoder"
  "toWireEvent one_encoder = toWireEvent base_encoder"
  by (simp_all add: fun_eq_iff active_doc_def toWireEvent_def wireHazardEventOf_def one_encoder_def)

lemma unary_time_utf8: "valid_utf8 (unary_time t)"
  by (rule valid_utf8_ascii) (auto simp: unary_time_def)

lemma one_codec_matches: "codec_matches one_encoder one_codec"
  using unary_time_utf8
  by (auto simp: codec_matches_def one_encoder_def one_codec_def base_encoder_def
      json_time_ok_def unary_time_def read_unary_def split: if_splits)

lemma one_publishable: "publishable one_encoder sample_event"
  by (simp add: publishable_def sample_event_def event_texts_utf8_def wireHazardEventOf_def
      valid_utf8_ascii slug_match_def slug_char_def is_lower_ascii_def is_digit_def byte_range_def
      severity_valid_def severity_of_def opt_time_ok_def json_time_ok_def zero_time_def
      status_text_def)

theorem active_view_roundtrip_witness:
  "map_of (mi_active (rx_mirror (HandleMessage one_codec sample_config 1 1
      (frame (event_topic one_encoder sample_event (new_output ''wf'' 1)) 1 True ''{}'') sample_receiver)))
    (entryKey ''r'' (event_topic one_encoder sample_event (new_output ''wf'' 1))) =
   Some (mirrored_event ''r'' (event_topic one_encoder sample_event (new_output ''wf'' 1)) sample_event)"
proof -
  have "hash_match (replicate 64 (CHR ''a''))" by code_simp
  then have h: "hash_match (en_sha one_encoder (he_key sample_event))"
    by (simp add: one_encoder_def base_encoder_def)
  have p: "activePayload one_encoder sample_event = Some ''{}''"
    by (simp add: activePayload_def one_docs) (simp add: one_encoder_def)
  have c: "rv_wf_enabled sample_config" "rv_prefix sample_config = mo_prefix (new_output ''wf'' 1)"
    "rv_id sample_config = ''r''"
    by (simp_all add: sample_config_def new_output_def)
  have r: "length (mi_active (rx_mirror sample_receiver)) < MaxActiveHazards"
    by (simp add: sample_receiver_def new_mirror_def MaxActiveHazards_def)
  have t: "\<forall>t. he_expires_at sample_event = Some t \<longrightarrow> 1 < t" by (simp add: sample_event_def)
  show ?thesis
    using active_view_roundtrip [OF one_codec_matches one_publishable sample_key(3) p _ h c(1,2) t r] c(3)
    by (simp add: MaxPayload_def)
qed

theorem event_stream_roundtrip_witness:
  "ig_queue (rx_ingress (HandleMessage one_codec sample_config 1 1
      (frame ''wf/events'' 1 False ''{}'') sample_receiver)) = [dispatched_change ''r'' 1 one_change]"
proof -
  have e: "publishable one_encoder (ec_event one_change)"
    using one_publishable by (simp add: one_change_def)
  have p: "en_event one_encoder (toWireEvent one_encoder one_change) = Some ''{}''"
    by (simp add: one_docs) (simp add: one_encoder_def)
  have c: "rv_wf_enabled sample_config" "rv_prefix sample_config = mo_prefix (new_output ''wf'' 1)"
    "rv_id sample_config = ''r''" "mo_prefix (new_output ''wf'' 1) = ''wf''"
    by (simp_all add: sample_config_def new_output_def)
  have r: "\<not> ig_closed (rx_ingress sample_receiver)" "ig_queue (rx_ingress sample_receiver) = []"
    "0 < ig_cap (rx_ingress sample_receiver)"
    by (simp_all add: sample_receiver_def NewIngress_def)
  show ?thesis
    using event_stream_roundtrip [OF one_codec_matches e p _ c(1,2) r(1)] r c(3,4)
    by (simp add: MaxPayload_def)
qed

end
