(* ===== verification/Ingest_Http.thy ===== *)
theory Ingest_Http
  imports Mqtt_Output "HOL-Library.Word"
begin

text \<open>
  One public HTTP ingest endpoint (\<open>internal/ingesthttp\<close>): construction with its secrets, the
  allowlist, the bearer keys, the token bucket and \<open>ServeHTTP\<close>, which publishes an accepted hazard
  on the broker.  The texts of network addresses, JSON and SHA-256 are read by parameters
  (\<open>net_text\<close>, \<open>http_codec\<close>); the limiter's \<open>float64\<close> numbers are exact rationals here.
\<close>

unbundle bit_operations_syntax

section \<open>Addresses and the allowlist\<close>

datatype ip_addr = InvalidAddr | IPv4 "32 word" | IPv6 "128 word" string

text \<open>A prefix keeps an address without its zone and a length within the address.\<close>

record ip_prefix =
  px_addr :: ip_addr
  px_bits :: nat

record net_text =
  nt_prefix :: "string \<Rightarrow> ip_prefix option"
  nt_addr :: "string \<Rightarrow> ip_addr option"
  nt_addr_port :: "string \<Rightarrow> ip_addr option"

definition high_bits :: "nat \<Rightarrow> 'a::len word \<Rightarrow> 'a word" where
  "high_bits n x = drop_bit (LENGTH('a) - n) x"

definition clear_low :: "nat \<Rightarrow> 'a::len word \<Rightarrow> 'a word" where
  "clear_low n x = x AND NOT (mask (LENGTH('a) - n))"

text \<open>\<open>Prefix.Masked\<close>, \<open>PrefixFrom (a, a.BitLen())\<close> and \<open>Prefix.Contains\<close> of \<open>net/netip\<close>.\<close>

definition masked :: "ip_prefix \<Rightarrow> ip_prefix" where
  "masked p =
     p\<lparr>px_addr := (case px_addr p of
         InvalidAddr \<Rightarrow> InvalidAddr
       | IPv4 x \<Rightarrow> IPv4 (clear_low (px_bits p) x)
       | IPv6 x z \<Rightarrow> IPv6 (clear_low (px_bits p) x) z)\<rparr>"

definition full_prefix :: "ip_addr \<Rightarrow> ip_prefix" where
  "full_prefix a =
     (case a of
        InvalidAddr \<Rightarrow> \<lparr>px_addr = InvalidAddr, px_bits = 0\<rparr>
      | IPv4 x \<Rightarrow> \<lparr>px_addr = IPv4 x, px_bits = 32\<rparr>
      | IPv6 x z \<Rightarrow> \<lparr>px_addr = IPv6 x [], px_bits = 128\<rparr>)"

definition prefix_contains :: "ip_prefix \<Rightarrow> ip_addr \<Rightarrow> bool" where
  "prefix_contains p a =
     (case (px_addr p, a) of
        (IPv4 x, IPv4 y) \<Rightarrow> high_bits (px_bits p) x = high_bits (px_bits p) y
      | (IPv6 x _, IPv6 y z) \<Rightarrow> z = [] \<and> high_bits (px_bits p) x = high_bits (px_bits p) y
      | _ \<Rightarrow> False)"

fun parseAllowedCIDRs :: "net_text \<Rightarrow> string list \<Rightarrow> string + ip_prefix list" where
  "parseAllowedCIDRs nt [] = Inr []"
| "parseAllowedCIDRs nt (raw # rest) =
     (let c = trim_space raw in
      if c = [] then parseAllowedCIDRs nt rest
      else (case nt_prefix nt c of
              Some p \<Rightarrow> and_then (parseAllowedCIDRs nt rest) (\<lambda>ps. Inr (masked p # ps))
            | None \<Rightarrow>
                (case nt_addr nt c of
                   Some a \<Rightarrow> and_then (parseAllowedCIDRs nt rest) (\<lambda>ps. Inr (full_prefix a # ps))
                 | None \<Rightarrow> Inl raw)))"

definition addrAllowed :: "ip_prefix list \<Rightarrow> ip_addr \<Rightarrow> bool" where
  "addrAllowed allowed a \<longleftrightarrow>
     allowed = [] \<or> a \<noteq> InvalidAddr \<and> list_ex (\<lambda>p. prefix_contains p a) allowed"

definition remoteIP :: "net_text \<Rightarrow> string \<Rightarrow> ip_addr" where
  "remoteIP nt r =
     (case nt_addr_port nt r of
        Some a \<Rightarrow> a
      | None \<Rightarrow> (case nt_addr nt r of Some a \<Rightarrow> a | None \<Rightarrow> InvalidAddr))"

section \<open>The token bucket\<close>

record rate_limiter =
  rl_rate :: rat
  rl_burst :: rat
  rl_tokens :: rat
  rl_last :: time

definition defaultRateLimitPerMinute :: int where "defaultRateLimitPerMinute = 60"

definition newRateLimiter :: "int \<Rightarrow> time \<Rightarrow> rate_limiter option" where
  "newRateLimiter perMinute now =
     (if perMinute \<le> 0 then None
      else Some \<lparr> rl_rate = of_int perMinute / 60, rl_burst = of_int perMinute,
                  rl_tokens = of_int perMinute, rl_last = now \<rparr>)"

definition refill :: "time \<Rightarrow> rate_limiter \<Rightarrow> rate_limiter" where
  "refill now l =
     (let elapsed = of_int (now - rl_last l) / 1000000000 in
      if elapsed > 0
      then l\<lparr>rl_tokens := min (rl_tokens l + elapsed * rl_rate l) (rl_burst l), rl_last := now\<rparr>
      else l)"

definition retry_wait :: "rate_limiter \<Rightarrow> int" where
  "retry_wait l = max \<lfloor>(1 - rl_tokens l) / rl_rate l * 1000000000\<rfloor> 1000000000"

text \<open>\<open>allow\<close>: the wait until a retry is \<open>None\<close> when the request may pass.\<close>

definition allow :: "time \<Rightarrow> rate_limiter option \<Rightarrow> int option \<times> rate_limiter option" where
  "allow now lm =
     (case lm of
        None \<Rightarrow> (None, None)
      | Some l0 \<Rightarrow>
          let l = refill now l0 in
          if rl_tokens l \<ge> 1 then (None, Some (l\<lparr>rl_tokens := rl_tokens l - 1\<rparr>))
          else (Some (retry_wait l), Some l))"

section \<open>Configuration\<close>

record ingest_config =
  ic_id :: string
  ic_api_key :: string
  ic_api_key_file :: string
  ic_previous_key :: string
  ic_previous_key_file :: string
  ic_allowed_cidrs :: "string list"
  ic_rate :: int
  ic_broker :: string
  ic_client_id :: string
  ic_username :: string
  ic_password :: string
  ic_password_file :: string
  ic_prefix :: string

datatype ingest_config_error =
  SecretStat string string | SecretTooLong string int | SecretRead string string | BadCIDR string

definition maxSecretFileBytes :: int where "maxSecretFileBytes = 64 * 1024"

definition readSecret :: "secret_file \<Rightarrow> string \<Rightarrow> ingest_config_error + string" where
  "readSecret f what =
     (case f of
        StatFails e \<Rightarrow> Inl (SecretStat what e)
      | SecretFile n content \<Rightarrow>
          if n > maxSecretFileBytes then Inl (SecretTooLong what n)
          else (case content of
                  Inl e \<Rightarrow> Inl (SecretRead what e)
                | Inr s \<Rightarrow> Inr (trim_right [CHR 0x0D, CHR 0x0A] s)))"

definition secret_or ::
    "(string \<Rightarrow> secret_file) \<Rightarrow> string \<Rightarrow> string \<Rightarrow> string \<Rightarrow> ingest_config_error + string" where
  "secret_or files path what inline =
     (if path \<noteq> [] then readSecret (files path) what else Inr inline)"

record counters =
  ct_accepted :: nat
  ct_rejected :: nat
  ct_auth_failed :: nat
  ct_rate_limited :: nat
  ct_forbidden :: nat

record ingest_instance =
  in_cfg :: ingest_config
  in_previous :: string
  in_allowed :: "ip_prefix list"
  in_limiter :: "rate_limiter option"
  in_metrics :: counters
  in_ready :: bool

definition effective_rate :: "int \<Rightarrow> int" where
  "effective_rate r = (if r = 0 then defaultRateLimitPerMinute else r)"

definition New ::
    "net_text \<Rightarrow> (string \<Rightarrow> secret_file) \<Rightarrow> time \<Rightarrow> ingest_config \<Rightarrow>
      ingest_config_error + ingest_instance" where
  "New nt files now cfg =
     and_then (secret_or files (ic_api_key_file cfg) ''api_key_file'' (ic_api_key cfg)) (\<lambda>key.
     and_then (secret_or files (ic_previous_key_file cfg) ''previous_key_file''
                 (ic_previous_key cfg)) (\<lambda>prev.
     and_then (secret_or files (ic_password_file cfg) ''password_file'' (ic_password cfg)) (\<lambda>pw.
     and_then (case parseAllowedCIDRs nt (ic_allowed_cidrs cfg) of
                 Inl raw \<Rightarrow> Inl (BadCIDR raw) | Inr ps \<Rightarrow> Inr ps) (\<lambda>allowed.
     Inr \<lparr> in_cfg = cfg\<lparr>ic_api_key := key, ic_previous_key := prev, ic_password := pw\<rparr>,
           in_previous = prev, in_allowed = allowed,
           in_limiter = newRateLimiter (effective_rate (ic_rate cfg)) now,
           in_metrics = \<lparr>ct_accepted = 0, ct_rejected = 0, ct_auth_failed = 0,
                         ct_rate_limited = 0, ct_forbidden = 0\<rparr>,
           in_ready = False \<rparr>))))"

definition ensureInit :: "net_text \<Rightarrow> time \<Rightarrow> ingest_instance \<Rightarrow> ingest_instance" where
  "ensureInit nt now s =
     (if in_ready s then s
      else
        let s1 = (if in_limiter s = None \<and> ic_rate (in_cfg s) \<ge> 0
                  then s\<lparr>in_limiter := newRateLimiter (effective_rate (ic_rate (in_cfg s))) now\<rparr>
                  else s);
            s2 = (if in_allowed s1 = [] \<and> ic_allowed_cidrs (in_cfg s1) \<noteq> []
                  then (case parseAllowedCIDRs nt (ic_allowed_cidrs (in_cfg s1)) of
                          Inl _ \<Rightarrow> s1 | Inr ps \<Rightarrow> s1\<lparr>in_allowed := ps\<rparr>)
                  else s1)
        in s2\<lparr>in_ready := True\<rparr>)"

definition Resolve :: "ingest_config \<Rightarrow> ingest_config \<Rightarrow> ingest_config" where
  "Resolve cfg fallback =
     (let c1 = (if ic_broker cfg = [] then cfg\<lparr>ic_broker := ic_broker fallback\<rparr> else cfg);
          c2 = (if ic_username c1 = [] then c1\<lparr>ic_username := ic_username fallback\<rparr> else c1);
          c3 = (if ic_password c2 = [] \<and> ic_password_file c2 = []
                then c2\<lparr>ic_password := ic_password fallback,
                        ic_password_file := ic_password_file fallback\<rparr>
                else c2);
          c4 = (if ic_prefix c3 = []
                then c3\<lparr>ic_prefix := (if ic_prefix fallback \<noteq> [] then ic_prefix fallback
                                      else ''warnflux'')\<rparr>
                else c3)
      in if ic_client_id c4 = []
         then c4\<lparr>ic_client_id := ''warnflux-ingest-'' @ ic_id c4\<rparr> else c4)"

section \<open>Payloads\<close>

record builder_payload =
  bp_transition :: string
  bp_source_id :: string
  bp_category :: string
  bp_event :: string
  bp_severity :: string
  bp_urgency :: string
  bp_certainty :: string
  bp_headline :: string
  bp_description :: string
  bp_instruction :: string
  bp_effective_at :: "string option"
  bp_expires_at :: "string option"
  bp_latitude :: "float64 option"
  bp_longitude :: "float64 option"
  bp_areas :: "string list"
  bp_source_url :: string

text \<open>
  \<open>hc_probe\<close> is \<open>None\<close> for a body that is not the expected JSON and otherwise the schema version,
  if the body has one; \<open>hc_event\<close> and \<open>hc_active\<close> are \<open>json.Marshal\<close>.
\<close>

record http_codec =
  hc_probe :: "string \<Rightarrow> int option option"
  hc_builder :: "string \<Rightarrow> builder_payload option"
  hc_event :: "event_payload \<Rightarrow> string option"
  hc_active :: "active_payload \<Rightarrow> string option"
  hc_time :: "time \<Rightarrow> string"
  hc_wire :: codec

datatype payload_error =
  InvalidBody | WireError wire_error | EncodeFailed | BadTransition string | SeverityRequired
| EventOrHeadlineRequired | BuilderFieldTooLong string | SourceIdHasSpace

definition builder_transition :: "string \<Rightarrow> string option" where
  "builder_transition t =
     (let s = to_lower (trim_space t) in
      if s = [] \<or> s = ''new'' then Some ''new''
      else if s \<in> set [''updated'', ''cancelled'', ''expired''] then Some s
      else None)"

text \<open>The code ranges over a map of these fields, so which of several that are too long the error names
  is arbitrary there.\<close>

definition bounded_fields :: "builder_payload \<Rightarrow> (string \<times> string) list" where
  "bounded_fields b =
     [(''event'', bp_event b), (''headline'', bp_headline b), (''urgency'', bp_urgency b),
      (''certainty'', bp_certainty b), (''source_id'', bp_source_id b)]"

definition validateBuilder :: "builder_payload \<Rightarrow> payload_error + builder_payload" where
  "validateBuilder b =
     and_then (case builder_transition (bp_transition b) of
                 None \<Rightarrow> Inl (BadTransition (bp_transition b))
               | Some t \<Rightarrow> Inr (b\<lparr>bp_transition := t\<rparr>)) (\<lambda>b1.
     let sev = to_lower (trim_space (bp_severity b1)) in
     and_then (guard_err (severity_valid sev) SeverityRequired) (\<lambda>_.
     let b2 = b1\<lparr>bp_severity := sev\<rparr> in
     and_then (guard_err (\<not> (trim_space (bp_event b2) = [] \<and> trim_space (bp_headline b2) = []))
                 EventOrHeadlineRequired) (\<lambda>_.
     and_then (case find (\<lambda>(f, v). length v > 256) (bounded_fields b2) of
                 Some (f, v) \<Rightarrow> Inl (BuilderFieldTooLong f) | None \<Rightarrow> Inr ()) (\<lambda>_.
     and_then (guard_err (trim_space (bp_source_id b2) = bp_source_id b2) SourceIdHasSpace) (\<lambda>_.
     Inr b2)))))"

definition builder_source_id :: "codec \<Rightarrow> string \<Rightarrow> builder_payload \<Rightarrow> string" where
  "builder_source_id cd body b =
     (if trim_space (bp_source_id b) = [] then take 16 (cd_sha cd body)
      else trim_space (bp_source_id b))"

definition builder_event :: "string \<Rightarrow> string \<Rightarrow> string \<Rightarrow> builder_payload \<Rightarrow> event_payload" where
  "builder_event iid sid now b =
     \<lparr> ep_schema = WireSchemaVersion, ep_change_id = 0, ep_change_type = bp_transition b,
       ep_event_key = iid @ '':'' @ sid,
       ep_event =
         \<lparr> hp_source = iid, hp_source_id = sid, hp_category = trim_space (bp_category b),
           hp_event = trim_space (bp_event b),
           hp_severity = to_lower (trim_space (bp_severity b)),
           hp_provider_severity = [],
           hp_urgency = to_lower (trim_space (bp_urgency b)),
           hp_certainty = to_lower (trim_space (bp_certainty b)),
           hp_headline = trim_space (bp_headline b),
           hp_description = trim_space (bp_description b),
           hp_instruction = trim_space (bp_instruction b),
           hp_effective_at = bp_effective_at b, hp_expires_at = bp_expires_at b,
           hp_latitude = bp_latitude b, hp_longitude = bp_longitude b, hp_areas = bp_areas b,
           hp_status = ''active'', hp_source_url = trim_space (bp_source_url b),
           hp_received_at = now, hp_updated_at = now \<rparr> \<rparr>"

definition marshal_event :: "http_codec \<Rightarrow> event_payload \<Rightarrow> payload_error + string \<times> string" where
  "marshal_event hc we =
     (case hc_event hc we of
        None \<Rightarrow> Inl EncodeFailed
      | Some canonical \<Rightarrow> Inr (canonical, ep_event_key we))"

definition buildFromBuilder ::
    "http_codec \<Rightarrow> string \<Rightarrow> time \<Rightarrow> string \<Rightarrow> payload_error + string \<times> string" where
  "buildFromBuilder hc iid now body =
     (case hc_builder hc body of
        None \<Rightarrow> Inl InvalidBody
      | Some b0 \<Rightarrow>
          and_then (validateBuilder b0) (\<lambda>b.
          marshal_event hc (builder_event iid (builder_source_id (hc_wire hc) body b)
            (hc_time hc now) b)))"

definition buildPayload ::
    "http_codec \<Rightarrow> string \<Rightarrow> time \<Rightarrow> string \<Rightarrow> payload_error + string \<times> string" where
  "buildPayload hc iid now body =
     (case hc_probe hc body of
        None \<Rightarrow> Inl InvalidBody
      | Some (Some _) \<Rightarrow>
          (case ParseEventPayload (hc_wire hc) body of
             Inl e \<Rightarrow> Inl (WireError e)
           | Inr we \<Rightarrow> marshal_event hc we)
      | Some None \<Rightarrow> buildFromBuilder hc iid now body)"

section \<open>Requests\<close>

text \<open>A body that cannot be read to its end is \<open>Inl\<close>.\<close>

record http_request =
  rq_method :: string
  rq_remote :: string
  rq_authorization :: string
  rq_request_id :: string
  rq_body :: "string + string"

datatype http_outcome =
  MethodNotAllowed | Forbidden | AuthFailed | RateLimited int | BodyUnreadable | BodyTooLarge
| BadPayload payload_error | BrokerDown | PublishTimedOut | PublishFailed
| Accepted string string string

definition status_code :: "http_outcome \<Rightarrow> nat" where
  "status_code r =
     (case r of
        MethodNotAllowed \<Rightarrow> 405 | Forbidden \<Rightarrow> 403 | AuthFailed \<Rightarrow> 401 | RateLimited _ \<Rightarrow> 429
      | BodyUnreadable \<Rightarrow> 400 | BodyTooLarge \<Rightarrow> 413 | BadPayload _ \<Rightarrow> 400
      | BrokerDown \<Rightarrow> 503 | PublishTimedOut \<Rightarrow> 503 | PublishFailed \<Rightarrow> 503
      | Accepted _ _ _ \<Rightarrow> 202)"

text \<open>The body of the answer to an accepted request: topic, event key and request ID.\<close>

definition quote_char :: char where "quote_char = CHR 0x22"

definition json_field :: "string \<Rightarrow> string \<Rightarrow> string" where
  "json_field name v = [quote_char] @ name @ [quote_char] @ '':'' @ [quote_char] @ v @ [quote_char]"

definition accepted_body :: "string \<Rightarrow> string \<Rightarrow> string \<Rightarrow> string" where
  "accepted_body topic key rid =
     ''{'' @ [quote_char] @ ''accepted'' @ [quote_char] @ '':true,'' @ json_field ''topic'' topic @ '','' @
     json_field ''event_key'' key @ '','' @ json_field ''request_id'' rid @ ''}''"

definition requestID :: "string \<Rightarrow> string \<Rightarrow> string" where
  "requestID fresh header =
     (let v = trim_space header in
      if v \<noteq> [] then (if length v > 64 then take 64 v else v) else fresh)"

definition authorized :: "ingest_instance \<Rightarrow> string \<Rightarrow> bool" where
  "authorized s header =
     (case cut_prefix ''Bearer '' (trim_space header) of
        None \<Rightarrow> False
      | Some rest \<Rightarrow>
          let presented = trim_space rest in
          presented \<noteq> [] \<and>
          (presented = ic_api_key (in_cfg s) \<or>
           in_previous s \<noteq> [] \<and> presented = in_previous s))"

definition eventsTopic :: "ingest_instance \<Rightarrow> string" where
  "eventsTopic s = ic_prefix (in_cfg s) @ ''/events''"

text \<open>
  The retained view of an accepted transition.  Its result \<open>p\<close> only leads to a log line.
\<close>

definition mirror_active ::
    "http_codec \<Rightarrow> string \<Rightarrow> publication \<Rightarrow> string \<Rightarrow> broker \<Rightarrow> broker" where
  "mirror_active hc pfx p payload b =
     (case ParseEventPayload (hc_wire hc) payload of
        Inl _ \<Rightarrow> b
      | Inr we \<Rightarrow>
          let topic = pfx @ ''/active/'' @ hp_source (ep_event we) @ ''/'' @
                cd_sha (hc_wire hc) (ep_event_key we) in
          if ep_change_type we = ''new'' \<or> ep_change_type we = ''updated''
          then (case hc_active hc \<lparr> ap_schema = WireSchemaVersion, ap_type = ''active_hazard'',
                      ap_event_key = ep_event_key we, ap_event = ep_event we \<rparr> of
                  None \<Rightarrow> b
                | Some doc \<Rightarrow> publish_retained topic doc p b)
          else if ep_change_type we = ''cancelled'' \<or> ep_change_type we = ''expired''
          then publish_retained topic [] p b
          else b)"

abbreviation count :: "(counters \<Rightarrow> counters) \<Rightarrow> ingest_instance \<Rightarrow> ingest_instance" where
  "count f s \<equiv> s\<lparr>in_metrics := f (in_metrics s)\<rparr>"

definition rejected_one :: "counters \<Rightarrow> counters" where
  "rejected_one c = c\<lparr>ct_rejected := ct_rejected c + 1\<rparr>"

text \<open>What happens to the publication on the events topic: done, lost or not acknowledged in time, or failed.\<close>

datatype event_publish = EvOk | EvTimeout bool | EvError bool

definition journal :: "event_publish \<Rightarrow> string \<Rightarrow> broker \<Rightarrow> broker" where
  "journal p payload b =
     (if p = EvOk \<or> p = EvTimeout True \<or> p = EvError True
      then b\<lparr>br_events := br_events b @ [payload]\<rparr> else b)"

text \<open>\<open>ServeHTTP\<close> from the reading of the body on; \<open>up\<close> is a client that is connected.\<close>

definition serve_body ::
    "http_codec \<Rightarrow> time \<Rightarrow> bool \<Rightarrow> event_publish \<times> publication \<Rightarrow> string \<Rightarrow> string + string \<Rightarrow>
      ingest_instance \<Rightarrow> broker \<Rightarrow> http_outcome \<times> ingest_instance \<times> broker" where
  "serve_body hc now up net rid input s b =
     (case input of
        Inl _ \<Rightarrow> (BodyUnreadable, count rejected_one s, b)
      | Inr body \<Rightarrow>
          if length body > MaxPayload then (BodyTooLarge, count rejected_one s, b)
          else (case buildPayload hc (ic_id (in_cfg s)) now body of
                  Inl e \<Rightarrow> (BadPayload e, count rejected_one s, b)
                | Inr (payload, key) \<Rightarrow>
                    if \<not> up then (BrokerDown, s, b)
                    else
                      let b1 = journal (fst net) payload b in
                      (case fst net of
                         EvTimeout _ \<Rightarrow> (PublishTimedOut, s, b1)
                       | EvError _ \<Rightarrow> (PublishFailed, s, b1)
                       | EvOk \<Rightarrow>
                           (Accepted (eventsTopic s) key rid,
                            count (\<lambda>c. c\<lparr>ct_accepted := ct_accepted c + 1\<rparr>) s,
                            mirror_active hc (ic_prefix (in_cfg s)) (snd net) payload b1))))"

definition ServeHTTP ::
    "net_text \<Rightarrow> http_codec \<Rightarrow> time \<Rightarrow> bool \<Rightarrow> event_publish \<times> publication \<Rightarrow> string \<Rightarrow>
      http_request \<Rightarrow> ingest_instance \<Rightarrow> broker \<Rightarrow> http_outcome \<times> ingest_instance \<times> broker" where
  "ServeHTTP nt hc now up net fresh rq s0 b =
     (let s = ensureInit nt now s0; rid = requestID fresh (rq_request_id rq) in
      if rq_method rq \<noteq> ''POST'' then (MethodNotAllowed, count rejected_one s, b)
      else if \<not> addrAllowed (in_allowed s) (remoteIP nt (rq_remote rq))
      then (Forbidden, count (\<lambda>c. c\<lparr>ct_forbidden := ct_forbidden c + 1\<rparr>) s, b)
      else if \<not> authorized s (rq_authorization rq)
      then (AuthFailed, count (\<lambda>c. c\<lparr>ct_auth_failed := ct_auth_failed c + 1\<rparr>) s, b)
      else (case allow now (in_limiter s) of
              (Some wait, l) \<Rightarrow>
                (RateLimited (wait div 1000000000 + 1),
                 count (\<lambda>c. c\<lparr>ct_rate_limited := ct_rate_limited c + 1\<rparr>) (s\<lparr>in_limiter := l\<rparr>), b)
            | (None, l) \<Rightarrow> serve_body hc now up net rid (rq_body rq) (s\<lparr>in_limiter := l\<rparr>) b))"

end
