(* ===== verification/Ingest_Endpoint.thy ===== *)
theory Ingest_Endpoint
  imports Ingest_Http Mqtt_Roundtrip
begin

text \<open>
  What the ingest endpoint promises: the rate limit, the guards in front of the broker, the two
  payload forms and the agreement of what it publishes with the MQTT receiver.
\<close>

section \<open>The token bucket\<close>

definition bucket_ok :: "rate_limiter \<Rightarrow> bool" where
  "bucket_ok l \<longleftrightarrow>
     0 < rl_rate l \<and> 1 \<le> rl_burst l \<and> 0 \<le> rl_tokens l \<and> rl_tokens l \<le> rl_burst l"

lemma newRateLimiter_ok: "newRateLimiter n now = Some l \<Longrightarrow> bucket_ok l"
  by (auto simp: newRateLimiter_def bucket_ok_def split: if_splits)

lemma refill_keeps [simp]:
  "rl_rate (refill now l) = rl_rate l" "rl_burst (refill now l) = rl_burst l"
  by (simp_all add: refill_def Let_def)

lemma refill_last: "rl_last (refill now l) = max now (rl_last l)"
  by (auto simp: refill_def Let_def zero_less_divide_iff)

lemma refill_ok: "bucket_ok l \<Longrightarrow> bucket_ok (refill now l)"
  by (auto simp: bucket_ok_def refill_def Let_def zero_less_divide_iff min_def)

text \<open>The tokens of a bucket never exceed what time has brought.\<close>

lemma refill_tokens:
  assumes "bucket_ok l"
  shows "rl_tokens (refill now l) \<le>
    rl_tokens l + rl_rate l * of_int (rl_last (refill now l) - rl_last l) / 1000000000"
  using assms by (auto simp: refill_def Let_def zero_less_divide_iff min_def field_simps)

lemma allow_Some:
  "allow now (Some l) =
     (if rl_tokens (refill now l) \<ge> 1
      then (None, Some ((refill now l)\<lparr>rl_tokens := rl_tokens (refill now l) - 1\<rparr>))
      else (Some (retry_wait (refill now l)), Some (refill now l)))"
  by (simp add: allow_def Let_def)

lemma allow_ok: "bucket_ok l \<Longrightarrow> allow now (Some l) = (w, Some l') \<Longrightarrow> bucket_ok l'"
  using refill_ok [of l now] by (auto simp: allow_Some bucket_ok_def split: if_splits)

lemma allow_keeps:
  "allow now (Some l) = (w, Some l') \<Longrightarrow>
     rl_rate l' = rl_rate l \<and> rl_burst l' = rl_burst l \<and> rl_last l' = max now (rl_last l)"
  by (auto simp: allow_Some refill_last split: if_splits)

lemma allow_total: "\<exists>w l'. allow now (Some l) = (w, Some l')"
  by (simp add: allow_Some)

text \<open>The requests that pass the bucket, at arbitrary readings of the clock.\<close>

fun passed :: "rate_limiter \<Rightarrow> time list \<Rightarrow> nat" where
  "passed l [] = 0"
| "passed l (t # ts) =
     (case allow t (Some l) of
        (None, Some l') \<Rightarrow> Suc (passed l' ts)
      | (Some _, Some l') \<Rightarrow> passed l' ts
      | (_, None) \<Rightarrow> 0)"

lemma passed_bound:
  assumes "bucket_ok l" "\<forall>t\<in>set ts. t \<le> T" "rl_last l \<le> T"
  shows "of_nat (passed l ts) \<le> rl_tokens l + rl_rate l * of_int (T - rl_last l) / 1000000000"
  using assms
proof (induction ts arbitrary: l)
  case Nil
  then show ?case by (simp add: bucket_ok_def)
next
  case (Cons t ts)
  obtain w l' where a: "allow t (Some l) = (w, Some l')" using allow_total by blast
  have k: "rl_rate l' = rl_rate l" "rl_last l' = max t (rl_last l)"
    using allow_keeps [OF a] by simp_all
  have last: "rl_last (refill t l) = rl_last l'" by (simp add: k refill_last)
  let ?gain = "rl_rate l * of_int (rl_last l' - rl_last l) / 1000000000"
  have tok: "rl_tokens (refill t l) \<le> rl_tokens l + ?gain"
    using refill_tokens [OF Cons.prems(1), of t] last by simp
  have spent: "rl_tokens l' + (if w = None then 1 else 0) = rl_tokens (refill t l)"
    using a by (auto simp: allow_Some split: if_splits)
  have IH: "of_nat (passed l' ts) \<le>
      rl_tokens l' + rl_rate l * of_int (T - rl_last l') / 1000000000"
    using Cons.IH [OF allow_ok [OF Cons.prems(1) a]] Cons.prems(2,3) k by auto
  have "of_nat (passed l (t # ts)) = of_nat (passed l' ts) + (if w = None then (1::rat) else 0)"
    using a by (cases w) auto
  also have "\<dots> \<le> rl_tokens (refill t l) + rl_rate l * of_int (T - rl_last l') / 1000000000"
    using IH spent by linarith
  also have "\<dots> \<le> rl_tokens l + ?gain + rl_rate l * of_int (T - rl_last l') / 1000000000"
    using tok by simp
  also have "\<dots> = rl_tokens l + rl_rate l * of_int (T - rl_last l) / 1000000000"
    by (simp add: field_simps)
  finally show ?case .
qed

lemma newRateLimiter_Some:
  assumes "newRateLimiter n start = Some l"
  shows "rl_tokens l = of_int n" "rl_rate l = of_int n / 60" "rl_last l = start" "0 < n"
  using assms by (auto simp: newRateLimiter_def split: if_splits)

lemma waited_long_enough:
  fixes x r B :: rat and w C :: int
  assumes "0 < r" "x < 1" "w = max \<lfloor>(1 - x) / r * B\<rfloor> C" "B = of_int C" "0 < C"
  shows "1 \<le> x + of_int (w div C + 1) * r"
proof -
  have "w div C * C + w mod C = w" by (rule div_mult_mod_eq)
  moreover have "w mod C < C" using assms(5) by (rule pos_mod_bound)
  moreover have "(w div C + 1) * C = w div C * C + C" by (simp only: distrib_right mult_1)
  ultimately have "w + 1 \<le> (w div C + 1) * C" by linarith
  then have w: "of_int w + 1 \<le> (of_int (w div C + 1) * B :: rat)"
    unfolding assms(4) by (metis of_int_1 of_int_add of_int_le_iff of_int_mult)
  have "\<lfloor>(1 - x) / r * B\<rfloor> \<le> w" using assms(3) by simp
  then have "(1 - x) / r * B < of_int w + 1" by (simp add: floor_le_iff)
  with w have "(1 - x) / r * B < of_int (w div C + 1) * B" by linarith
  then have "(1 - x) / r < of_int (w div C + 1)" using assms(4,5)
    by (simp only: mult_less_cancel_right_pos of_int_0_less_iff)
  then have "1 - x < of_int (w div C + 1) * r" using assms(1) by (simp only: divide_less_eq if_True)
  then show ?thesis by linarith
qed

text \<open>
  a refused client that waits as long as \<open>Retry-After\<close> says is let through, if no one else
  was served in the meantime; the wait is at least a second.
\<close>

theorem retry_after_suffices:
  assumes "bucket_ok l" "rl_last l \<le> now" "allow now (Some l) = (Some w, Some l')"
  shows "w \<ge> 1000000000 \<and> fst (allow (now + (w div 1000000000 + 1) * 1000000000) (Some l')) = None"
proof -
  let ?x = "rl_tokens l'" and ?later = "now + (w div 1000000000 + 1) * 1000000000"
  have l': "l' = refill now l" "w = retry_wait l'" "?x < 1"
    using assms(3) by (auto simp: allow_Some split: if_splits)
  have ok: "0 < rl_rate l'" "1 \<le> rl_burst l'"
    using refill_ok [OF assms(1), of now] l'(1) by (simp_all add: bucket_ok_def)
  have last: "rl_last l' = now" using l'(1) assms(2) by (simp add: refill_last)
  have big: "1000000000 \<le> w" using l'(2) by (simp add: retry_wait_def)
  have pos: "0 < w div 1000000000 + 1" using big by (simp add: pos_imp_zdiv_nonneg_iff)
  have "?later - rl_last l' = (w div 1000000000 + 1) * 1000000000" using last by simp
  then have gap: "of_int (?later - rl_last l') / 1000000000 = (of_int (w div 1000000000 + 1) :: rat)"
    by (metis nonzero_mult_div_cancel_right of_int_mult of_int_numeral zero_neq_numeral)
  have "1 \<le> ?x + of_int (w div 1000000000 + 1) * rl_rate l'"
    using l'(2) by (intro waited_long_enough [OF ok(1) l'(3), of w 1000000000 1000000000])
      (simp_all only: retry_wait_def of_int_numeral zero_less_numeral)
  moreover have "(0::rat) < of_int (w div 1000000000 + 1)" using pos by (simp only: of_int_0_less_iff)
  ultimately have "1 \<le> rl_tokens (refill ?later l')"
    using ok(2) by (simp only: refill_def gap Let_def if_True) simp
  with big show ?thesis by (simp add: allow_Some)
qed

section \<open>Histories of requests\<close>

record http_call =
  hq_now :: time
  hq_up :: bool
  hq_net :: "event_publish \<times> publication"
  hq_fresh :: string
  hq_request :: http_request

definition serve_call ::
    "net_text \<Rightarrow> http_codec \<Rightarrow> http_call \<Rightarrow> ingest_instance \<times> broker \<Rightarrow>
      http_outcome \<times> ingest_instance \<times> broker" where
  "serve_call nt hc q x =
     ServeHTTP nt hc (hq_now q) (hq_up q) (hq_net q) (hq_fresh q) (hq_request q) (fst x) (snd x)"

fun serve_all ::
    "net_text \<Rightarrow> http_codec \<Rightarrow> http_call list \<Rightarrow> ingest_instance \<times> broker \<Rightarrow>
      http_outcome list \<times> ingest_instance \<times> broker" where
  "serve_all nt hc [] x = ([], x)"
| "serve_all nt hc (q # qs) x =
     (case serve_call nt hc q x of
        (r, y) \<Rightarrow> (case serve_all nt hc qs y of (rs, z) \<Rightarrow> (r # rs, z)))"

lemma serve_all_Cons:
  "serve_all nt hc (q # qs) x = (rs, z) \<longleftrightarrow>
     (\<exists>r y rs'. serve_call nt hc q x = (r, y) \<and> serve_all nt hc qs y = (rs', z) \<and> rs = r # rs')"
  by (auto split: prod.splits)

text \<open>What a constructed endpoint keeps for ever: its keys and its allowlist.\<close>

definition set_up :: "ingest_config \<Rightarrow> string \<Rightarrow> ip_prefix list \<Rightarrow> net_text \<Rightarrow> ingest_instance \<Rightarrow> bool" where
  "set_up cfg prev allowed nt s \<longleftrightarrow>
     in_cfg s = cfg \<and> in_previous s = prev \<and> in_allowed s = allowed \<and>
     parseAllowedCIDRs nt (ic_allowed_cidrs cfg) = Inr allowed \<and>
     (in_limiter s = None \<longleftrightarrow> ic_rate cfg < 0)"

lemma New_set_up:
  assumes "New nt files now cfg0 = Inr s"
  shows "set_up (in_cfg s) (in_previous s) (in_allowed s) nt s"
  using assms
  by (auto simp: New_def result_simps set_up_def newRateLimiter_def effective_rate_def
      defaultRateLimitPerMinute_def split: sum.splits if_splits)

lemma set_up_ready: "set_up cfg prev allowed nt s \<Longrightarrow> ensureInit nt now s = s\<lparr>in_ready := True\<rparr>"
  by (cases s) (auto simp: ensureInit_def set_up_def Let_def split: sum.splits)

lemma authorized_ready [simp]: "authorized (s\<lparr>in_ready := x\<rparr>) h = authorized s h"
  by (simp add: authorized_def split: option.split)

lemma allow_None_iff: "allow now lm = (w, lm') \<Longrightarrow> lm' = None \<longleftrightarrow> lm = None"
  by (auto simp: allow_def Let_def split: option.splits if_splits)

text \<open>The effect of one request on the endpoint.\<close>

definition admitted :: "http_outcome \<Rightarrow> bool" where
  "admitted r \<longleftrightarrow> status_code r \<notin> {405, 403, 401, 429}"

definition note_outcome :: "http_outcome \<Rightarrow> counters \<Rightarrow> counters" where
  "note_outcome r c =
     (if status_code r = 202 then c\<lparr>ct_accepted := ct_accepted c + 1\<rparr>
      else if status_code r \<in> {405, 400, 413} then rejected_one c
      else if status_code r = 401 then c\<lparr>ct_auth_failed := ct_auth_failed c + 1\<rparr>
      else if status_code r = 429 then c\<lparr>ct_rate_limited := ct_rate_limited c + 1\<rparr>
      else if status_code r = 403 then c\<lparr>ct_forbidden := ct_forbidden c + 1\<rparr>
      else c)"

lemma serve_body_effect:
  assumes "serve_body hc now up net rid input s b = (r, s', b')"
  shows "s' = s\<lparr>in_metrics := note_outcome r (in_metrics s)\<rparr> \<and> admitted r"
  using assms
  by (cases s) (auto simp: serve_body_def Let_def note_outcome_def admitted_def status_code_def
      split: sum.splits if_splits event_publish.splits)

lemma serve_effect:
  assumes "set_up cfg prev allowed nt s" "serve_call nt hc q (s, b) = (r, s', b')"
  shows "\<exists>lm. s' = s\<lparr>in_ready := True, in_limiter := lm, in_metrics := note_outcome r (in_metrics s)\<rparr> \<and>
    (lm = in_limiter s \<and> status_code r \<in> {405, 403, 401} \<or>
     (\<exists>w. allow (hq_now q) (in_limiter s) = (w, lm) \<and> (admitted r \<longleftrightarrow> w = None)))"
proof -
  let ?s = "s\<lparr>in_ready := True\<rparr>"
  note run = assms(2) [unfolded serve_call_def ServeHTTP_def fst_conv snd_conv
      set_up_ready [OF assms(1)], unfolded Let_def]
  obtain w lm where a: "allow (hq_now q) (in_limiter s) = (w, lm)" by fastforce
  show ?thesis
  proof (cases "r = MethodNotAllowed \<or> r = Forbidden \<or> r = AuthFailed")
    case True
    then show ?thesis using run a
      by (cases s) (auto simp: note_outcome_def status_code_def admitted_def split: if_splits option.splits
          dest: serve_body_effect)
  next
    case False
    then show ?thesis using run a
      by (cases s) (auto simp: note_outcome_def status_code_def admitted_def rejected_one_def
          split: if_splits option.splits dest!: serve_body_effect)
  qed
qed

lemma serve_set_up:
  assumes "set_up cfg prev allowed nt s" "serve_call nt hc q (s, b) = (r, s', b')"
  shows "set_up cfg prev allowed nt s'"
  using serve_effect [OF assms] assms(1) allow_None_iff
  by (auto simp: set_up_def)

lemma serve_all_set_up:
  "set_up cfg prev allowed nt s \<Longrightarrow> serve_all nt hc qs (s, b) = (rs, s', b') \<Longrightarrow>
     set_up cfg prev allowed nt s'"
proof (induction qs arbitrary: s b rs)
  case (Cons q qs)
  obtain r y rs' where step: "serve_call nt hc q (s, b) = (r, y)"
    and rest: "serve_all nt hc qs y = (rs', s', b')"
    using Cons.prems(2) unfolding serve_all_Cons by blast
  obtain s1 b1 where "y = (s1, b1)" by (cases y)
  with step rest show ?case
    using Cons.IH [OF serve_set_up [OF Cons.prems(1)]] by blast
qed simp

definition answers :: "nat set \<Rightarrow> http_outcome list \<Rightarrow> nat" where
  "answers cs rs = length (filter (\<lambda>r. status_code r \<in> cs) rs)"

text \<open>
  the counters of an endpoint are the numbers of its answers: accepted requests, rejected
  ones, failed authentications, rate-limited and forbidden ones; an unavailable broker is not
  counted anywhere.
\<close>

theorem metrics_exact:
  assumes "New nt files start cfg = Inr s0" "serve_all nt hc qs (s0, b0) = (rs, s, b)"
  shows "in_metrics s =
    \<lparr>ct_accepted = answers {202} rs, ct_rejected = answers {405, 400, 413} rs,
     ct_auth_failed = answers {401} rs, ct_rate_limited = answers {429} rs,
     ct_forbidden = answers {403} rs\<rparr> \<and>
    answers {202} rs + answers {405, 400, 413} rs + answers {401} rs + answers {429} rs +
      answers {403} rs + answers {503} rs = length qs"
proof -
  have run: "set_up cfg prev allowed nt s \<Longrightarrow> serve_all nt hc qs (s, b) = (rs, s', b') \<Longrightarrow>
      in_metrics s = \<lparr>ct_accepted = i, ct_rejected = j, ct_auth_failed = k, ct_rate_limited = l, ct_forbidden = m\<rparr> \<Longrightarrow>
      in_metrics s' =
        \<lparr>ct_accepted = i + answers {202} rs, ct_rejected = j + answers {405, 400, 413} rs,
         ct_auth_failed = k + answers {401} rs, ct_rate_limited = l + answers {429} rs,
         ct_forbidden = m + answers {403} rs\<rparr> \<and>
      answers {202} rs + answers {405, 400, 413} rs + answers {401} rs + answers {429} rs +
        answers {403} rs + answers {503} rs = length qs"
    for cfg prev allowed s s' b b' qs rs i j k l m
  proof (induction qs arbitrary: s b rs i j k l m)
    case Nil
    then show ?case by (simp add: answers_def)
  next
    case (Cons q qs)
    obtain r s1 b1 rs' where step: "serve_call nt hc q (s, b) = (r, s1, b1)"
      and rest: "serve_all nt hc qs (s1, b1) = (rs', s', b')" and rs: "rs = r # rs'"
      using Cons.prems(2) unfolding serve_all_Cons by (metis prod.collapse)
    have m: "in_metrics s1 = note_outcome r (in_metrics s)"
      using serve_effect [OF Cons.prems(1) step] by auto
    note IH = Cons.IH [OF serve_set_up [OF Cons.prems(1) step] rest]
    have code: "status_code r \<in> {202, 405, 400, 413, 401, 429, 403, 503}"
      by (cases r) (simp_all add: status_code_def)
    show ?case
      using code Cons.prems(3) m
      by (auto simp: note_outcome_def rejected_one_def rs answers_def
          dest!: IH [unfolded answers_def])
  qed
  have "in_metrics s0 = \<lparr>ct_accepted = 0, ct_rejected = 0, ct_auth_failed = 0, ct_rate_limited = 0,
      ct_forbidden = 0\<rparr>"
    using assms(1) by (auto simp: New_def result_simps)
  from run [OF New_set_up [OF assms(1)] assms(2) this] show ?thesis by simp
qed

text \<open>The requests that get past the guards pass the token bucket one by one.\<close>

lemma admitted_passed:
  "set_up cfg prev allowed nt s \<Longrightarrow> serve_all nt hc qs (s, b) = (rs, s', b') \<Longrightarrow>
     in_limiter s = Some l \<Longrightarrow>
     \<exists>ts. set ts \<subseteq> hq_now ` set qs \<and> length (filter admitted rs) = passed l ts"
proof (induction qs arbitrary: s b rs l)
  case Nil
  then show ?case by (intro exI [of _ "[]"]) simp
next
  case (Cons q qs)
  obtain r s1 b1 rs' where step: "serve_call nt hc q (s, b) = (r, s1, b1)"
    and rest: "serve_all nt hc qs (s1, b1) = (rs', s', b')" and rs: "rs = r # rs'"
    using Cons.prems(2) unfolding serve_all_Cons by (metis prod.collapse)
  note up = serve_set_up [OF Cons.prems(1) step]
  note IH = Cons.IH [OF up rest]
  obtain lm where eff: "in_limiter s1 = lm"
    "lm = Some l \<and> status_code r \<in> {405, 403, 401} \<or>
     (\<exists>w. allow (hq_now q) (Some l) = (w, lm) \<and> (admitted r \<longleftrightarrow> w = None))"
    using serve_effect [OF Cons.prems(1) step] Cons.prems(3) by auto
  from eff(2) show ?case
  proof
    assume same: "lm = Some l \<and> status_code r \<in> {405, 403, 401}"
    then have "\<not> admitted r" by (auto simp: admitted_def)
    moreover obtain ts where "set ts \<subseteq> hq_now ` set qs" "length (filter admitted rs') = passed l ts"
      using IH [of l] eff(1) same by auto
    ultimately show ?thesis using rs by (intro exI [of _ ts]) auto
  next
    assume "\<exists>w. allow (hq_now q) (Some l) = (w, lm) \<and> (admitted r \<longleftrightarrow> w = None)"
    then obtain w where w: "allow (hq_now q) (Some l) = (w, lm)" "admitted r \<longleftrightarrow> w = None" by blast
    obtain l' where l': "lm = Some l'" using w(1) by (auto simp: allow_Some split: if_splits)
    obtain ts where "set ts \<subseteq> hq_now ` set qs" "length (filter admitted rs') = passed l' ts"
      using IH [of l'] eff(1) l' by auto
    then show ?thesis using rs w l'
      by (intro exI [of _ "hq_now q # ts"]) (cases w; auto)
  qed
qed


section \<open>An example\<close>

definition no_net :: net_text where
  "no_net = \<lparr>nt_prefix = (\<lambda>_. None), nt_addr = (\<lambda>_. None), nt_addr_port = (\<lambda>_. None)\<rparr>"

definition endpoint_cfg :: ingest_config where
  "endpoint_cfg =
     \<lparr> ic_id = ''web'', ic_api_key = ''k'', ic_api_key_file = [], ic_previous_key = [],
       ic_previous_key_file = [], ic_allowed_cidrs = [], ic_rate = 0, ic_broker = [],
       ic_client_id = [], ic_username = [], ic_password = [], ic_password_file = [],
       ic_prefix = ''wf'' \<rparr>"

definition fresh_endpoint :: ingest_instance where
  "fresh_endpoint =
     \<lparr> in_cfg = endpoint_cfg, in_previous = [], in_allowed = [],
       in_limiter = Some \<lparr>rl_rate = 1, rl_burst = 60, rl_tokens = 60, rl_last = 0\<rparr>,
       in_metrics = \<lparr>ct_accepted = 0, ct_rejected = 0, ct_auth_failed = 0, ct_rate_limited = 0,
                     ct_forbidden = 0\<rparr>,
       in_ready = False \<rparr>"

lemma fresh_endpoint_New: "New no_net (\<lambda>_. StatFails []) 0 endpoint_cfg = Inr fresh_endpoint"
  by (simp add: New_def secret_or_def endpoint_cfg_def fresh_endpoint_def newRateLimiter_def
      effective_rate_def defaultRateLimitPerMinute_def)

definition post :: "string + string \<Rightarrow> http_call" where
  "post body =
     \<lparr> hq_now = 0, hq_up = True, hq_net = (EvOk, PubOk), hq_fresh = ''r'',
       hq_request = \<lparr>rq_method = ''POST'', rq_remote = [], rq_authorization = ''Bearer k'',
                     rq_request_id = [], rq_body = body\<rparr> \<rparr>"

definition served_endpoint :: "http_outcome \<Rightarrow> ingest_instance" where
  "served_endpoint r =
     fresh_endpoint\<lparr>in_ready := True,
       in_limiter := Some \<lparr>rl_rate = 1, rl_burst = 60, rl_tokens = 59, rl_last = 0\<rparr>,
       in_metrics := note_outcome r (in_metrics fresh_endpoint)\<rparr>"

lemma post_authorized: "authorized fresh_endpoint ''Bearer k''"
proof -
  have "trim_space ''Bearer k'' = ''Bearer k''" "trim_space ''k'' = ''k''"
    by (simp_all add: trim_space_plain plain_char_def byte_range_def)
  then show ?thesis by (simp add: authorized_def fresh_endpoint_def endpoint_cfg_def)
qed

lemma post_served:
  "serve_call no_net hc (post body) (fresh_endpoint, b) =
     serve_body hc 0 True (EvOk, PubOk) ''r'' body
       (fresh_endpoint\<lparr>in_ready := True,
          in_limiter := Some \<lparr>rl_rate = 1, rl_burst = 60, rl_tokens = 59, rl_last = 0\<rparr>\<rparr>) b"
proof -
  have "set_up endpoint_cfg [] [] no_net fresh_endpoint"
    using New_set_up [OF fresh_endpoint_New] by (simp add: fresh_endpoint_def)
  moreover have "allow 0 (in_limiter fresh_endpoint) =
      (None, Some \<lparr>rl_rate = 1, rl_burst = 60, rl_tokens = 59, rl_last = 0\<rparr>)"
    by (simp add: allow_def refill_def fresh_endpoint_def)
  moreover have "authorized (fresh_endpoint\<lparr>in_ready := True\<rparr>) ''Bearer k''"
    using post_authorized by simp
  moreover have "in_allowed fresh_endpoint = []" by (simp add: fresh_endpoint_def)
  ultimately show ?thesis
    by (simp add: serve_call_def ServeHTTP_def post_def set_up_ready addrAllowed_def requestID_def Let_def)
qed

definition blank_codec :: http_codec where
  "blank_codec =
     \<lparr> hc_probe = (\<lambda>_. None), hc_builder = (\<lambda>_. None), hc_event = (\<lambda>_. None),
       hc_active = (\<lambda>_. None), hc_time = (\<lambda>_. []), hc_wire = one_codec \<rparr>"

lemma broken_post:
  "serve_all no_net blank_codec [post (Inl [])] (fresh_endpoint, empty_broker) =
     ([BodyUnreadable], served_endpoint BodyUnreadable, empty_broker)"
  by (simp add: post_served serve_body_def served_endpoint_def note_outcome_def status_code_def)

theorem metrics_exact_witness:
  "in_metrics (served_endpoint BodyUnreadable) =
    \<lparr>ct_accepted = 0, ct_rejected = 1, ct_auth_failed = 0, ct_rate_limited = 0, ct_forbidden = 0\<rparr>"
  using metrics_exact [OF fresh_endpoint_New broken_post] by (simp add: answers_def status_code_def)


theorem retry_after_suffices_witness:
  "fst (allow (0 + (1000000000 div 1000000000 + 1) * 1000000000)
     (Some \<lparr>rl_rate = 1, rl_burst = 60, rl_tokens = 0, rl_last = 0\<rparr>)) = None"
  using retry_after_suffices [of "\<lparr>rl_rate = 1, rl_burst = 60, rl_tokens = 0, rl_last = 0\<rparr>" 0
      1000000000 "\<lparr>rl_rate = 1, rl_burst = 60, rl_tokens = 0, rl_last = 0\<rparr>"]
  by (simp add: bucket_ok_def allow_def refill_def retry_wait_def)

end
