(* ===== verification/Ingest_Delivery.thy ===== *)
theory Ingest_Delivery
  imports Ingest_Endpoint
begin

text \<open>
  From a request to the broker and to the receivers behind it: who may publish, what is published
  and which receiver takes it.  \<open>http_codec_ok\<close> states what the endpoint relies on in
  \<open>encoding/json\<close>, \<open>time\<close> and \<open>crypto/sha256\<close>.
\<close>

definition builder_utf8 :: "builder_payload \<Rightarrow> bool" where
  "builder_utf8 b \<longleftrightarrow>
     list_all valid_utf8
       ([bp_source_id b, bp_category b, bp_event b, bp_urgency b, bp_certainty b, bp_headline b,
         bp_description b, bp_instruction b, bp_source_url b] @ bp_areas b) \<and>
     pred_option valid_utf8 (bp_effective_at b) \<and> pred_option valid_utf8 (bp_expires_at b)"

definition http_codec_ok :: "http_codec \<Rightarrow> bool" where
  "http_codec_ok hc \<longleftrightarrow>
     (\<forall>d p. hc_event hc d = Some p \<and> event_utf8 d \<longrightarrow> p \<noteq> [] \<and> cd_event (hc_wire hc) p = Some d) \<and>
     (\<forall>d p. hc_active hc d = Some p \<and> active_utf8 d \<longrightarrow> p \<noteq> [] \<and> cd_active (hc_wire hc) p = Some d) \<and>
     (\<forall>d p. cd_event (hc_wire hc) p = Some d \<longrightarrow> event_utf8 d) \<and>
     (\<forall>d p. hc_builder hc p = Some d \<longrightarrow> builder_utf8 d) \<and>
     (\<forall>t. valid_utf8 (hc_time hc t)) \<and>
     (\<forall>k. hash_match (cd_sha (hc_wire hc) k))"

lemma http_codecD:
  assumes "http_codec_ok hc"
  shows "hc_event hc d = Some p \<Longrightarrow> event_utf8 d \<Longrightarrow> p \<noteq> [] \<and> cd_event (hc_wire hc) p = Some d"
    and "hc_active hc a = Some p \<Longrightarrow> active_utf8 a \<Longrightarrow> p \<noteq> [] \<and> cd_active (hc_wire hc) p = Some a"
    and "cd_event (hc_wire hc) p = Some d \<Longrightarrow> event_utf8 d"
    and "hc_builder hc p = Some c \<Longrightarrow> builder_utf8 c"
    and "valid_utf8 (hc_time hc t)"
    and "hash_match (cd_sha (hc_wire hc) k)"
  using assms unfolding http_codec_ok_def by blast+

section \<open>The two payload forms\<close>

text \<open>An event document in the form in which \<open>ParseEventPayload\<close> leaves it.\<close>

definition wire_canonical :: "event_payload \<Rightarrow> bool" where
  "wire_canonical we \<longleftrightarrow>
     ep_schema we = WireSchemaVersion \<and> ep_event_key we \<noteq> [] \<and>
     ep_change_type we \<in> set change_types \<and> severity_valid (hp_severity (ep_event we)) \<and>
     event_utf8 we"

lemma severity_utf8: "severity_valid s \<Longrightarrow> valid_utf8 s"
  by (rule valid_utf8_ascii) (auto simp: severity_valid_def severity_of_def split: if_splits)

lemma ParseEventPayload_wire_canonical:
  assumes "http_codec_ok hc" "ParseEventPayload (hc_wire hc) p = Inr we"
  shows "wire_canonical we"
proof -
  obtain d sev where d: "cd_event (hc_wire hc) p = Some d" "ep_schema d = WireSchemaVersion"
    "ep_event_key d \<noteq> []" "ep_change_type d \<in> set change_types"
    "severity_normalize (hp_severity (ep_event d)) = (sev, True)"
    "we = d\<lparr>ep_event := (ep_event d)\<lparr>hp_severity := sev\<rparr>\<rparr>"
    using assms(2) by (auto simp: ParseEventPayload_def split: option.splits if_splits prod.splits)
  have sev: "severity_valid sev" using d(5) by (auto simp: severity_normalize_def Let_def)
  then show ?thesis
    using d http_codecD(3) [OF assms(1) d(1)] severity_utf8 [OF sev]
    by (simp add: wire_canonical_def event_utf8_def payload_utf8_def)
qed

lemma ParseEventPayload_of_canonical:
  assumes "http_codec_ok hc" "wire_canonical we" "hc_event hc we = Some p"
  shows "ParseEventPayload (hc_wire hc) p = Inr we"
proof -
  have "p \<noteq> []" "cd_event (hc_wire hc) p = Some we"
    using http_codecD(1) [OF assms(1,3)] assms(2) by (simp_all add: wire_canonical_def)
  moreover have "severity_normalize (hp_severity (ep_event we)) = (hp_severity (ep_event we), True)"
    using assms(2) by (intro severity_normalize_canonical) (simp add: wire_canonical_def)
  ultimately show ?thesis
    using assms(2) by (simp add: ParseEventPayload_def wire_canonical_def)
qed

lemma builder_transition_vocabulary: "builder_transition t = Some c \<Longrightarrow> c \<in> set change_types"
  by (auto simp: builder_transition_def change_types_def Let_def split: if_splits)

lemma validateBuilder_sound:
  assumes "validateBuilder b0 = Inr b"
  shows "bp_transition b \<in> set change_types" "severity_valid (bp_severity b)"
    and "\<exists>t v. b = b0\<lparr>bp_transition := t, bp_severity := v\<rparr>"
    and "trim_space (bp_source_id b) = bp_source_id b" "length (bp_source_id b) \<le> 256"
    and "builder_transition (bp_transition b0) = Some (bp_transition b)"
proof -
  obtain t where t: "builder_transition (bp_transition b0) = Some t"
    and b: "b = b0\<lparr>bp_transition := t, bp_severity := to_lower (trim_space (bp_severity b0))\<rparr>"
    and v: "severity_valid (to_lower (trim_space (bp_severity b0)))"
    and i: "trim_space (bp_source_id b0) = bp_source_id b0"
    and f: "find (\<lambda>(f, v). length v > 256) (bounded_fields b) = None"
    using assms by (auto simp: validateBuilder_def result_simps Let_def split: option.splits)
  show "bp_transition b \<in> set change_types" "severity_valid (bp_severity b)"
    "\<exists>t v. b = b0\<lparr>bp_transition := t, bp_severity := v\<rparr>"
    "trim_space (bp_source_id b) = bp_source_id b"
    "builder_transition (bp_transition b0) = Some (bp_transition b)"
    using builder_transition_vocabulary [OF t] b v i t by auto
  show "length (bp_source_id b) \<le> 256"
  proof (rule ccontr)
    assume "\<not> length (bp_source_id b) \<le> 256"
    then have "case (''source_id'', bp_source_id b) of (f, v) \<Rightarrow> length v > 256" by simp
    moreover have "(''source_id'', bp_source_id b) \<in> set (bounded_fields b)"
      by (simp add: bounded_fields_def)
    ultimately have "\<exists>x. x \<in> set (bounded_fields b) \<and> (case x of (f, v) \<Rightarrow> length v > 256)"
      by (intro exI conjI)
    with f show False by (simp only: find_None_iff not_True_eq_False)
  qed
qed

lemma valid_utf8_hex: "hash_match h \<Longrightarrow> valid_utf8 (take n h)"
  by (rule valid_utf8_ascii)
    (fastforce simp: hash_match_def list_all_iff hex_char_def is_digit_def byte_range_def
      dest: in_set_takeD)

lemma builder_event_canonical:
  assumes "http_codec_ok hc" "hc_builder hc body = Some b0" "validateBuilder b0 = Inr b"
    and "slug_match iid" "sid = builder_source_id (hc_wire hc) body b"
  shows "wire_canonical (builder_event iid sid (hc_time hc now) b)"
proof -
  note b = validateBuilder_sound [OF assms(3)]
  have u0: "builder_utf8 b0" by (rule http_codecD(4) [OF assms(1,2)])
  obtain t v where "b = b0\<lparr>bp_transition := t, bp_severity := v\<rparr>" using b(3) by blast
  with u0 have u: "builder_utf8 b" by (simp add: builder_utf8_def)
  have sid: "valid_utf8 sid"
    using u valid_utf8_hex [OF http_codecD(6) [OF assms(1)]]
    by (simp add: assms(5) builder_source_id_def builder_utf8_def)
  have iid: "valid_utf8 iid" using slug_match_ascii [OF assms(4)] by (intro valid_utf8_ascii) blast
  have key: "valid_utf8 (iid @ '':'' @ sid)"
    using iid sid by (intro valid_utf8_append valid_utf8_ascii [of "'':''"]) simp_all
  have sev: "to_lower (trim_space (bp_severity b)) = bp_severity b"
    using severity_normalize_canonical [OF b(2)] by (simp add: severity_normalize_def Let_def)
  have ct: "valid_utf8 (bp_transition b)"
    using b(1) by (auto simp: change_types_def intro!: valid_utf8_ascii)
  show ?thesis
    using b(1,2) sev key iid sid u ct http_codecD(5) [OF assms(1)] severity_utf8 [OF b(2)]
    by (simp add: wire_canonical_def builder_event_def event_utf8_def payload_utf8_def builder_utf8_def
        valid_utf8_ascii)
qed

lemma buildPayload_sound:
  assumes "http_codec_ok hc" "slug_match iid" "buildPayload hc iid now body = Inr (p, key)"
  shows "\<exists>we. wire_canonical we \<and> hc_event hc we = Some p \<and> ep_event_key we = key \<and>
    ParseEventPayload (hc_wire hc) p = Inr we"
proof -
  have "\<exists>we. wire_canonical we \<and> hc_event hc we = Some p \<and> ep_event_key we = key"
  proof (cases "hc_probe hc body")
    case (Some v)
    show ?thesis
    proof (cases v)
      case None
      then obtain b0 b where b: "hc_builder hc body = Some b0" "validateBuilder b0 = Inr b"
        "marshal_event hc (builder_event iid (builder_source_id (hc_wire hc) body b)
            (hc_time hc now) b) = Inr (p, key)"
        using assms(3) Some by (auto simp: buildPayload_def buildFromBuilder_def result_simps
            split: option.splits)
      then show ?thesis
        using builder_event_canonical [OF assms(1) b(1,2) assms(2) refl, of now]
        by (auto simp: marshal_event_def split: option.splits)
    next
      case (Some n)
      then show ?thesis
        using assms(3) \<open>hc_probe hc body = Some v\<close> ParseEventPayload_wire_canonical [OF assms(1)]
        by (auto simp: buildPayload_def marshal_event_def split: option.splits sum.splits)
    qed
  qed (use assms(3) in \<open>simp add: buildPayload_def\<close>)
  then show ?thesis using ParseEventPayload_of_canonical [OF assms(1)] by blast
qed

section \<open>Requests\<close>

lemma serve_passes:
  assumes "set_up cfg prev allowed nt s" "serve_call nt hc q (s, b) = (r, s', b')"
    and "admitted r"
  shows "rq_method (hq_request q) = ''POST'' \<and>
    addrAllowed allowed (remoteIP nt (rq_remote (hq_request q))) \<and>
    authorized s (rq_authorization (hq_request q)) \<and>
    fst (allow (hq_now q) (in_limiter s)) = None \<and>
    (r, s', b') = serve_body hc (hq_now q) (hq_up q) (hq_net q)
      (requestID (hq_fresh q) (rq_request_id (hq_request q))) (rq_body (hq_request q))
      (s\<lparr>in_ready := True, in_limiter := snd (allow (hq_now q) (in_limiter s))\<rparr>) b"
proof -
  have run: "ServeHTTP nt hc (hq_now q) (hq_up q) (hq_net q) (hq_fresh q) (hq_request q) s b =
      (r, s', b')"
    using assms(2) by (simp add: serve_call_def)
  obtain w lm where a: "allow (hq_now q) (in_limiter s) = (w, lm)" by fastforce
  have r: "r \<noteq> MethodNotAllowed" "r \<noteq> Forbidden" "r \<noteq> AuthFailed" "\<forall>n. r \<noteq> RateLimited n"
    using assms(3) by (auto simp: admitted_def status_code_def)
  show ?thesis
    using run a r assms(1)
    by (cases w) (auto simp: ServeHTTP_def set_up_ready [OF assms(1)] Let_def set_up_def
        split: if_splits)
qed

lemma serve_not_admitted:
  assumes "set_up cfg prev allowed nt s" "serve_call nt hc q (s, b) = (r, s', b')" "\<not> admitted r"
  shows "b' = b"
proof -
  have run: "ServeHTTP nt hc (hq_now q) (hq_up q) (hq_net q) (hq_fresh q) (hq_request q) s b =
      (r, s', b')"
    using assms(2) by (simp add: serve_call_def)
  obtain w lm where a: "allow (hq_now q) (in_limiter s) = (w, lm)" by fastforce
  show ?thesis
    using run a assms(3)
    by (cases w) (auto simp: ServeHTTP_def set_up_ready [OF assms(1)] Let_def
        split: if_splits dest: serve_body_effect)
qed

lemma mirror_active_events [simp]: "br_events (mirror_active hc x y p c) = br_events c"
  by (auto simp: mirror_active_def publish_retained_def Let_def split: sum.splits option.splits
      publication.splits)

lemma serve_body_publishes:
  assumes "serve_body hc now up net rid input s b = (r, s', b')" "b' \<noteq> b \<or> status_code r = 202"
  shows "up \<and> status_code r \<in> {202, 503} \<and>
    (\<exists>body p key. input = Inr body \<and> length body \<le> MaxPayload \<and>
       buildPayload hc (ic_id (in_cfg s)) now body = Inr (p, key) \<and>
       (status_code r = 202 \<longrightarrow>
          r = Accepted (eventsTopic s) key rid \<and>
          b' = mirror_active hc (ic_prefix (in_cfg s)) (snd net) p
                 (b\<lparr>br_events := br_events b @ [p]\<rparr>)) \<and>
       (status_code r = 503 \<longrightarrow> b' = b\<lparr>br_events := br_events b @ [p]\<rparr>))"
  using assms
  by (auto simp: serve_body_def Let_def status_code_def journal_def
      split: sum.splits if_splits event_publish.splits)

text \<open>The key a request presents, and the keys a constructed endpoint was given.\<close>

definition presented_key :: "string \<Rightarrow> string option" where
  "presented_key header = map_option trim_space (cut_prefix ''Bearer '' (trim_space header))"

definition configured_keys ::
    "(string \<Rightarrow> secret_file) \<Rightarrow> ingest_config \<Rightarrow> string set" where
  "configured_keys files cfg =
     {k. k \<noteq> [] \<and>
        (secret_or files (ic_api_key_file cfg) ''api_key_file'' (ic_api_key cfg) = Inr k \<or>
         secret_or files (ic_previous_key_file cfg) ''previous_key_file'' (ic_previous_key cfg) = Inr k)}"

lemma authorized_iff:
  assumes "New nt files start cfg = Inr s0" "set_up (in_cfg s0) (in_previous s0) (in_allowed s0) nt s"
  shows "authorized s header \<longleftrightarrow> (\<exists>k\<in>configured_keys files cfg. presented_key header = Some k)"
  using assms
  by (auto simp: authorized_def set_up_def New_def result_simps presented_key_def
      configured_keys_def Let_def split: option.splits)

text \<open>
  C29: nothing reaches the broker without a key.  After any history of requests, a request that
  changes the journal or the retained view is a POST from an allowed address with one of the two
  configured keys, within the rate limit and the size limit, whose body is a valid payload; what
  is appended to the journal is that payload and nothing else.
\<close>

theorem publication_guarded:
  assumes "New nt files start cfg = Inr s0" "serve_all nt hc qs (s0, b0) = (rs, s, b)"
    and "serve_call nt hc q (s, b) = (r, s', b')" "b' \<noteq> b"
  shows "rq_method (hq_request q) = ''POST'' \<and>
    addrAllowed (in_allowed s0) (remoteIP nt (rq_remote (hq_request q))) \<and>
    (\<exists>k\<in>configured_keys files cfg. presented_key (rq_authorization (hq_request q)) = Some k) \<and>
    fst (allow (hq_now q) (in_limiter s)) = None \<and> hq_up q \<and> status_code r \<in> {202, 503} \<and>
    (\<exists>body p key. rq_body (hq_request q) = Inr body \<and> length body \<le> MaxPayload \<and>
       buildPayload hc (ic_id cfg) (hq_now q) body = Inr (p, key) \<and>
       br_events b' = br_events b @ [p])"
proof -
  note set = serve_all_set_up [OF New_set_up [OF assms(1)] assms(2)]
  have adm: "admitted r" using serve_not_admitted [OF set assms(3)] assms(4) by blast
  note pass = serve_passes [OF set assms(3) adm]
  have id: "ic_id (in_cfg s) = ic_id cfg"
    using set assms(1) by (auto simp: set_up_def New_def result_simps)
  have "serve_body hc (hq_now q) (hq_up q) (hq_net q)
      (requestID (hq_fresh q) (rq_request_id (hq_request q))) (rq_body (hq_request q))
      (s\<lparr>in_ready := True, in_limiter := snd (allow (hq_now q) (in_limiter s))\<rparr>) b = (r, s', b')"
    using pass by simp
  from serve_body_publishes [OF this disjI1 [OF assms(4)]] pass show ?thesis
    using authorized_iff [OF assms(1) set] id by auto
qed

text \<open>
  a key file with blanks around the key locks the endpoint.  Construction accepts the file and
  cuts only line ends, a request's key is trimmed on both sides: without a previous key no request
  is ever authorized.
\<close>

theorem padded_key_file_locks:
  assumes "ic_api_key_file cfg \<noteq> []" "ic_previous_key_file cfg = []" "ic_previous_key cfg = []"
    and "readSecret (files (ic_api_key_file cfg)) ''api_key_file'' = Inr k" "trim_space k \<noteq> k"
    and "New nt files start cfg = Inr s0" "serve_all nt hc qs (s0, b0) = (rs, s, b)"
  shows "\<not> authorized s header"
proof -
  note set = serve_all_set_up [OF New_set_up [OF assms(6)] assms(7)]
  have "configured_keys files cfg \<subseteq> {k}"
    using assms(1-4) by (auto simp: configured_keys_def secret_or_def)
  moreover have "presented_key header \<noteq> Some k"
    using assms(5) by (auto simp: presented_key_def)
  ultimately show ?thesis unfolding authorized_iff [OF assms(6) set] by blast
qed

section \<open>Behind the broker\<close>

text \<open>An accepted request, opened up: the document it published and what the mirror step made of it.\<close>

lemma serve_accepted:
  assumes "http_codec_ok hc" "set_up cfg prev allowed nt s" "slug_match (ic_id cfg)"
    and "serve_call nt hc q (s, b) = (Accepted t key rid, s', b')"
  shows "\<exists>body we p. rq_body (hq_request q) = Inr body \<and>
    buildPayload hc (ic_id cfg) (hq_now q) body = Inr (p, key) \<and>
    wire_canonical we \<and> hc_event hc we = Some p \<and> ep_event_key we = key \<and>
    ParseEventPayload (hc_wire hc) p = Inr we \<and>
    b' = mirror_active hc (ic_prefix cfg) (snd (hq_net q)) p (b\<lparr>br_events := br_events b @ [p]\<rparr>)"
proof -
  have adm: "admitted (Accepted t key rid)" by (simp add: admitted_def status_code_def)
  note pass = serve_passes [OF assms(2,4) adm]
  have cfg: "in_cfg s = cfg" using assms(2) by (simp add: set_up_def)
  obtain body p where bp: "rq_body (hq_request q) = Inr body"
    "buildPayload hc (ic_id cfg) (hq_now q) body = Inr (p, key)"
    "b' = mirror_active hc (ic_prefix cfg) (snd (hq_net q)) p (b\<lparr>br_events := br_events b @ [p]\<rparr>)"
    using serve_body_publishes [OF conjunct2 [OF conjunct2 [OF conjunct2 [OF conjunct2 [OF pass]]],
        symmetric]] cfg by (auto simp: status_code_def)
  then show ?thesis using buildPayload_sound [OF assms(1,3) bp(2)] by blast
qed


text \<open>
  accepted and dropped.  The size limit is checked on the request, not on the document that is
  published: \<open>encoding/json\<close> writes angle brackets and ampersands as six bytes, so a request
  within the limit is answered 202 although every receiver discards its frame as oversized.
\<close>

theorem accepted_but_oversized:
  assumes "http_codec_ok hc" "set_up cfg prev allowed nt s" "slug_match (ic_id cfg)"
    and "serve_call nt hc q (s, b) = (Accepted t key rid, s', b')"
    and "length (last (br_events b')) > MaxPayload"
  shows "(\<exists>body. rq_body (hq_request q) = Inr body \<and> length body \<le> MaxPayload) \<and>
    HandleMessage (hc_wire hc) rc now clock (frame t qos False (last (br_events b'))) r =
      (let r1 = record_frame rc now (frame t qos False (last (br_events b'))) r
       in r1\<lparr>rx_oversized := rx_oversized r1 + 1\<rparr>)"
proof -
  have "admitted (Accepted t key rid)" by (simp add: admitted_def status_code_def)
  note pass = serve_passes [OF assms(2,4) this]
  have "\<exists>body. rq_body (hq_request q) = Inr body \<and> length body \<le> MaxPayload"
    using serve_body_publishes [OF conjunct2 [OF conjunct2 [OF conjunct2 [OF conjunct2 [OF pass]]],
        symmetric]] by (auto simp: status_code_def)
  then show ?thesis using assms(5) by (simp add: HandleMessage_def frame_def Let_def)
qed

text \<open>The retained topic of a document and what the mirror step leaves there.\<close>

definition view_topic :: "http_codec \<Rightarrow> string \<Rightarrow> event_payload \<Rightarrow> string" where
  "view_topic hc pfx we =
     pfx @ ''/active/'' @ hp_source (ep_event we) @ ''/'' @ cd_sha (hc_wire hc) (ep_event_key we)"

definition view_doc :: "event_payload \<Rightarrow> active_payload" where
  "view_doc we =
     \<lparr>ap_schema = WireSchemaVersion, ap_type = ''active_hazard'', ap_event_key = ep_event_key we,
      ap_event = ep_event we\<rparr>"

lemma mirror_active_canonical:
  assumes "http_codec_ok hc" "ParseEventPayload (hc_wire hc) p = Inr we" "wire_canonical we"
  shows "map_of (br_retained (mirror_active hc pfx PubOk p b)) (view_topic hc pfx we) =
    (if ep_change_type we \<in> {''cancelled'', ''expired''} then None
     else case hc_active hc (view_doc we) of
            None \<Rightarrow> map_of (br_retained b) (view_topic hc pfx we) | Some doc \<Rightarrow> Some doc)"
proof -
  have "ep_change_type we \<in> {''new'', ''updated'', ''cancelled'', ''expired''}"
    using assms(3) by (simp add: wire_canonical_def change_types_def)
  moreover have "active_utf8 (view_doc we)"
    using assms(3) by (simp add: wire_canonical_def active_utf8_def view_doc_def event_utf8_def
        valid_utf8_ascii)
  ultimately show ?thesis
    using assms(2) http_codecD(2) [OF assms(1), of "view_doc we"]
    by (auto simp: mirror_active_def view_topic_def view_doc_def publish_retained_def retain_def Let_def
        AList.delete_conv' split: option.splits)
qed

text \<open>
  the builder form shows on the view.  An accepted builder request publishes its hazard under
  the endpoint's own ID, with its source ID or a hash of the body in the key; afterwards the
  retained topic that receivers read holds exactly that hazard, or nothing when the transition ends
  it.  (\<open>hc_active\<close> fails on coordinates that are not finite only; the topic is then left alone.)
\<close>

theorem builder_view_exact:
  assumes "http_codec_ok hc" "set_up cfg prev allowed nt s" "slug_match (ic_id cfg)"
    and "serve_call nt hc q (s, b) = (Accepted t key rid, s', b')"
    and "rq_body (hq_request q) = Inr body" "hc_probe hc body = Some None"
    and "snd (hq_net q) = PubOk" "hc_builder hc body = Some b0"
  shows "\<exists>sid topic d. key = ic_id cfg @ '':'' @ sid \<and>
    sid = (if bp_source_id b0 = [] then take 16 (cd_sha (hc_wire hc) body) else bp_source_id b0) \<and>
    ParseTopic (ic_prefix cfg) topic = TopicActive (ic_id cfg) (cd_sha (hc_wire hc) key) \<and>
    ap_event_key d = key \<and> hp_source (ap_event d) = ic_id cfg \<and>
    hp_source_id (ap_event d) = sid \<and> hp_status (ap_event d) = ''active'' \<and>
    validateActive d = None \<and>
    map_of (br_retained b') topic =
      (if builder_transition (bp_transition b0) \<in> {Some ''cancelled'', Some ''expired''} then None
       else case hc_active hc d of
              None \<Rightarrow> map_of (br_retained b) topic | Some doc \<Rightarrow> Some doc) \<and>
    (\<forall>doc. hc_active hc d = Some doc \<longrightarrow> cd_active (hc_wire hc) doc = Some d)"
proof -
  obtain we p where d: "buildPayload hc (ic_id cfg) (hq_now q) body = Inr (p, key)"
    "ParseEventPayload (hc_wire hc) p = Inr we" "ep_event_key we = key" "wire_canonical we"
    "hc_event hc we = Some p"
    and b': "b' = mirror_active hc (ic_prefix cfg) PubOk p (b\<lparr>br_events := br_events b @ [p]\<rparr>)"
    using serve_accepted [OF assms(1-4)] assms(5,7) by auto
  obtain bb where build: "validateBuilder b0 = Inr bb"
    "marshal_event hc (builder_event (ic_id cfg) (builder_source_id (hc_wire hc) body bb)
        (hc_time hc (hq_now q)) bb) = Inr (p, key)"
    using d(1) assms(6,8) by (auto simp: buildPayload_def buildFromBuilder_def result_simps)
  note valid = validateBuilder_sound [OF build(1)]
  let ?sid = "builder_source_id (hc_wire hc) body bb"
  let ?e = "builder_event (ic_id cfg) ?sid (hc_time hc (hq_now q)) bb"
  have "wire_canonical ?e" "hc_event hc ?e = Some p"
    using builder_event_canonical [OF assms(1,8) build(1) assms(3) refl] build(2)
    by (auto simp: marshal_event_def split: option.splits)
  then have we: "we = ?e"
    using http_codecD(1) [OF assms(1) \<open>hc_event hc ?e = Some p\<close>] http_codecD(1) [OF assms(1) d(5)] d(4)
    by (simp add: wire_canonical_def)
  let ?topic = "view_topic hc (ic_prefix cfg) we"
  have key: "key = ic_id cfg @ '':'' @ ?sid" using d(3) we by (simp add: builder_event_def)
  have sid: "?sid = (if bp_source_id b0 = [] then take 16 (cd_sha (hc_wire hc) body)
      else bp_source_id b0)"
    using valid(3,4) by (auto simp: builder_source_id_def)
  have src: "hp_source (ep_event we) = ic_id cfg" "hp_source_id (ep_event we) = ?sid"
    "hp_status (ep_event we) = ''active''" "ep_change_type we = bp_transition bb"
    by (simp_all add: we builder_event_def)
  have topic: "ParseTopic (ic_prefix cfg) ?topic = TopicActive (ic_id cfg) (cd_sha (hc_wire hc) key)"
    using assms(3) http_codecD(6) [OF assms(1)] d(3) src(1)
    by (auto simp: ParseTopic_active parse_active_eq view_topic_def)
  have "active_utf8 (view_doc we)"
    using d(4) by (simp add: wire_canonical_def active_utf8_def view_doc_def event_utf8_def
        valid_utf8_ascii)
  then have dec: "\<forall>doc. hc_active hc (view_doc we) = Some doc \<longrightarrow>
      cd_active (hc_wire hc) doc = Some (view_doc we)"
    using http_codecD(2) [OF assms(1)] by blast
  have "validateActive (view_doc we) = None" "ap_event_key (view_doc we) = key"
    "ap_event (view_doc we) = ep_event we"
    using d(3,4) by (simp_all add: validateActive_def view_doc_def wire_canonical_def)
  note doc = this
  have shown: "map_of (br_retained b') ?topic =
      (if builder_transition (bp_transition b0) \<in> {Some ''cancelled'', Some ''expired''} then None
       else case hc_active hc (view_doc we) of
              None \<Rightarrow> map_of (br_retained b) ?topic | Some doc \<Rightarrow> Some doc)"
    unfolding b' mirror_active_canonical [OF assms(1) d(2,4)] valid(6) src(4)
    by (simp split: option.split)
  show ?thesis
    by (rule exI [of _ ?sid], rule exI [of _ ?topic], rule exI [of _ "view_doc we"])
      (intro conjI key sid topic doc(1,2) dec shown, simp_all only: doc(3) src)
qed

text \<open>
  the wire form is not held to the topic grammar.  An accepted document whose source is no
  slug is stored under a retained topic that no receiver reads as an active hazard, although the
  client was told that it was accepted.
\<close>

theorem wire_source_unchecked:
  assumes "http_codec_ok hc" "set_up cfg prev allowed nt s" "slug_match (ic_id cfg)"
    and "serve_call nt hc q (s, b) = (Accepted t key rid, s', b')"
    and "rq_body (hq_request q) = Inr body" "hc_probe hc body = Some (Some v)"
    and "snd (hq_net q) = PubOk" "ParseEventPayload (hc_wire hc) body = Inr we"
    and "\<not> slug_match (hp_source (ep_event we))" "ep_change_type we = ''new''"
    and "hc_active hc (view_doc we) = Some doc"
  shows "map_of (br_retained b') (view_topic hc (ic_prefix cfg) we) = Some doc \<and>
    ParseTopic (ic_prefix cfg) (view_topic hc (ic_prefix cfg) we) = TopicUnknown"
proof -
  obtain we' p where d: "buildPayload hc (ic_id cfg) (hq_now q) body = Inr (p, key)"
    "ParseEventPayload (hc_wire hc) p = Inr we'" "wire_canonical we'" "hc_event hc we' = Some p"
    and b': "b' = mirror_active hc (ic_prefix cfg) PubOk p (b\<lparr>br_events := br_events b @ [p]\<rparr>)"
    using serve_accepted [OF assms(1-4)] assms(5,7) by auto
  have p: "hc_event hc we = Some p"
    using d(1) assms(6,8) by (auto simp: buildPayload_def marshal_event_def split: option.splits)
  have "wire_canonical we" by (rule ParseEventPayload_wire_canonical [OF assms(1,8)])
  then have same: "we' = we"
    using http_codecD(1) [OF assms(1) p] http_codecD(1) [OF assms(1) d(4)] d(3)
    by (simp add: wire_canonical_def)
  have "parse_active (hp_source (ep_event we) @ ''/'' @ cd_sha (hc_wire hc) (ep_event_key we)) = TopicUnknown"
  proof -
    let ?h = "cd_sha (hc_wire hc) (ep_event_key we)"
    have h: "CHR ''/'' \<notin> set ?h" by (rule hash_match_no_slash [OF http_codecD(6) [OF assms(1)]])
    have "\<not> (slug_match x \<and> hash_match y)"
      if "hp_source (ep_event we) @ CHR ''/'' # ?h = x @ CHR ''/'' # y" for x y
    proof
      assume xy: "slug_match x \<and> hash_match y"
      then have "CHR ''/'' \<notin> set y" using hash_match_no_slash by blast
      then have "rev y @ CHR ''/'' # rev x = rev ?h @ CHR ''/'' # rev (hp_source (ep_event we))"
        using arg_cong [OF that, of rev] by simp
      then have "x = hp_source (ep_event we)"
        using append_sep_eq [of "CHR ''/''" "rev y" "rev ?h"] h \<open>CHR ''/'' \<notin> set y\<close> by auto
      with xy assms(9) show False by simp
    qed
    then show ?thesis by (auto simp: parse_active_def cut_at_Some split: option.split)
  qed
  then have "ParseTopic (ic_prefix cfg) (view_topic hc (ic_prefix cfg) we) = TopicUnknown"
    using ParseTopic_inside [of "ic_prefix cfg"] by (simp add: view_topic_def)
  then show ?thesis
    using mirror_active_canonical [OF assms(1) d(2,3)] assms(10,11) by (simp add: b' same)
qed

section \<open>Examples\<close>

text \<open>A codec that knows one document, written as \<open>out\<close>, and one builder body.\<close>

definition scrape :: builder_payload where
  "scrape =
     \<lparr> bp_transition = ''new'', bp_source_id = ''7'', bp_category = [], bp_event = ''Wind'',
       bp_severity = ''severe'', bp_urgency = [], bp_certainty = [], bp_headline = [],
       bp_description = [], bp_instruction = [], bp_effective_at = None, bp_expires_at = None,
       bp_latitude = None, bp_longitude = None, bp_areas = [], bp_source_url = [] \<rparr>"

definition doc_codec :: "string \<Rightarrow> event_payload \<Rightarrow> http_codec" where
  "doc_codec out we =
     \<lparr> hc_probe = (\<lambda>x. Some (if x = ''{}'' then Some 1 else None)),
       hc_builder = (\<lambda>x. if x = ''b'' then Some scrape else None),
       hc_event = (\<lambda>d. if d = we then Some out else None),
       hc_active = (\<lambda>d. if d = view_doc we then Some ''{}'' else None), hc_time = unary_time,
       hc_wire = one_codec\<lparr>cd_event := (\<lambda>p. if p = out then Some we else None),
                           cd_active := (\<lambda>p. if p = ''{}'' then Some (view_doc we) else None)\<rparr> \<rparr>"

definition scrape_event :: event_payload where
  "scrape_event = builder_event ''web'' ''7'' (unary_time 0) scrape"

definition odd_event :: event_payload where
  "odd_event = scrape_event\<lparr>ep_event := (ep_event scrape_event)\<lparr>hp_source := ''a/b''\<rparr>\<rparr>"

lemma all_a_hash: "hash_match (replicate 64 (CHR ''a''))"
  by code_simp

lemma doc_codec_ok:
  assumes "out \<noteq> []" "event_utf8 we"
  shows "http_codec_ok (doc_codec out we)"
  using assms unary_time_utf8 all_a_hash
  by (auto simp: http_codec_ok_def doc_codec_def builder_utf8_def scrape_def valid_utf8_ascii
      one_codec_def split: if_splits)

lemma severe_plain: "to_lower (trim_space ''severe'') = ''severe''" "severity_valid ''severe''"
  using severity_normalize_canonical [of "''severe''"]
  by (simp_all add: severity_normalize_def Let_def severity_valid_def severity_of_def)

lemma plain_words: "trim_space ''Wind'' = ''Wind''" "trim_space ''7'' = ''7''" "trim_space ''new'' = ''new''"
  by (simp_all add: trim_space_plain plain_char_def byte_range_def)

lemma scrape_event_fields:
  "ep_schema scrape_event = 1" "ep_change_type scrape_event = ''new''"
  "ep_event_key scrape_event = ''web:7''" "hp_severity (ep_event scrape_event) = ''severe''"
  by (simp_all add: scrape_event_def builder_event_def scrape_def WireSchemaVersion_def severe_plain)

lemma sample_docs_utf8: "event_utf8 scrape_event" "event_utf8 odd_event"
  by (simp_all add: event_utf8_def odd_event_def scrape_event_def builder_event_def scrape_def
      payload_utf8_def unary_time_utf8 valid_utf8_ascii severe_plain plain_words)

lemma scrape_valid: "validateBuilder scrape = Inr scrape"
proof -
  have "builder_transition ''new'' = Some ''new''"
    by (simp add: builder_transition_def plain_words Let_def to_lower_def lower_char_def
        is_upper_ascii_def byte_range_def)
  then show ?thesis
    by (simp add: validateBuilder_def scrape_def severe_plain plain_words guard_err_def
        bounded_fields_def)
qed

lemma scrape_built:
  "buildPayload (doc_codec out scrape_event) ''web'' 0 ''b'' = Inr (out, ''web:7'')"
proof -
  have "builder_source_id cd ''b'' scrape = ''7''" for cd
    by (simp add: builder_source_id_def scrape_def plain_words)
  then have "builder_event ''web'' (builder_source_id cd ''b'' scrape) (unary_time 0) scrape = scrape_event"
    for cd by (simp add: scrape_event_def)
  then show ?thesis
    by (simp add: buildPayload_def buildFromBuilder_def doc_codec_def scrape_valid marshal_event_def
        scrape_event_fields)
qed

lemma odd_built:
  "buildPayload (doc_codec ''{}'' odd_event) ''web'' 0 ''{}'' = Inr (''{}'', ''web:7'')"
  "ParseEventPayload (hc_wire (doc_codec ''{}'' odd_event)) ''{}'' = Inr odd_event"
proof -
  show p: "ParseEventPayload (hc_wire (doc_codec ''{}'' odd_event)) ''{}'' = Inr odd_event"
    by (rule ParseEventPayload_of_canonical [OF doc_codec_ok])
      (use sample_docs_utf8(2) in \<open>simp_all add: wire_canonical_def doc_codec_def odd_event_def
        scrape_event_fields WireSchemaVersion_def change_types_def severe_plain\<close>)
  have "hc_probe (doc_codec ''{}'' odd_event) ''{}'' = Some (Some 1)"
    "hc_event (doc_codec ''{}'' odd_event) odd_event = Some ''{}''" "ep_event_key odd_event = ''web:7''"
    by (simp_all add: doc_codec_def odd_event_def scrape_event_fields)
  with p show "buildPayload (doc_codec ''{}'' odd_event) ''web'' 0 ''{}'' = Inr (''{}'', ''web:7'')"
    by (simp add: buildPayload_def marshal_event_def)
qed

text \<open>The three requests of the examples: what they leave at the broker.\<close>

definition view_after :: "http_codec \<Rightarrow> string \<Rightarrow> broker" where
  "view_after hc p = mirror_active hc ''wf'' PubOk p (empty_broker\<lparr>br_events := [p]\<rparr>)"

lemma post_accepted:
  assumes "buildPayload hc ''web'' 0 body = Inr (p, key)" "length body \<le> MaxPayload"
  shows "serve_call no_net hc (post (Inr body)) (fresh_endpoint, empty_broker) =
    (Accepted ''wf/events'' key ''r'', served_endpoint (Accepted ''wf/events'' key ''r''), view_after hc p)"
proof -
  have cfg: "ic_id (in_cfg fresh_endpoint) = ''web''" "ic_prefix (in_cfg fresh_endpoint) = ''wf''"
    by (simp_all add: fresh_endpoint_def endpoint_cfg_def)
  show ?thesis
    using assms
    by (simp add: post_served serve_body_def cfg eventsTopic_def journal_def served_endpoint_def
        note_outcome_def status_code_def view_after_def empty_broker_def)
qed

lemmas sample_set_up = New_set_up [OF fresh_endpoint_New]

lemma sample_id: "slug_match (ic_id (in_cfg fresh_endpoint))"
  by (simp add: fresh_endpoint_def endpoint_cfg_def slug_match_def slug_char_def is_lower_ascii_def
      is_digit_def byte_range_def)

lemma short_body: "length ''b'' \<le> MaxPayload" "length ''{}'' \<le> MaxPayload"
  by (simp_all add: MaxPayload_def)

lemmas scrape_accepted = post_accepted [OF scrape_built short_body(1)]

theorem publication_guarded_witness:
  "\<exists>k\<in>configured_keys (\<lambda>_. StatFails []) endpoint_cfg. presented_key ''Bearer k'' = Some k"
proof -
  have "view_after (doc_codec ''x'' scrape_event) ''x'' \<noteq> empty_broker"
  proof
    assume "view_after (doc_codec ''x'' scrape_event) ''x'' = empty_broker"
    then have "br_events (view_after (doc_codec ''x'' scrape_event) ''x'') = br_events empty_broker"
      by simp
    then show False by (simp add: view_after_def empty_broker_def)
  qed
  moreover have "serve_all no_net (doc_codec ''x'' scrape_event) [] (fresh_endpoint, empty_broker) =
      ([], fresh_endpoint, empty_broker)"
    by simp
  ultimately show ?thesis
    using publication_guarded [OF fresh_endpoint_New, of "doc_codec ''x'' scrape_event" "[]" empty_broker,
        OF _ scrape_accepted] by (simp add: post_def)
qed


theorem accepted_but_oversized_witness:
  "\<exists>r1. HandleMessage (hc_wire (doc_codec (replicate 1048577 (CHR ''x'')) scrape_event)) sample_config 1 1
      (frame ''wf/events'' 1 False (replicate 1048577 (CHR ''x''))) sample_receiver =
    r1\<lparr>rx_oversized := rx_oversized r1 + 1\<rparr>"
proof -
  let ?out = "replicate 1048577 (CHR ''x'')" and ?hc = "doc_codec (replicate 1048577 (CHR ''x'')) scrape_event"
  have l: "last (br_events (view_after ?hc ?out)) = ?out" by (simp only: view_after_def) simp
  have "?out \<noteq> []" by (metis length_replicate list.size(3) zero_neq_numeral)
  then have ok: "http_codec_ok ?hc" by (rule doc_codec_ok) (rule sample_docs_utf8(1))
  have big: "length (last (br_events (view_after ?hc ?out))) > MaxPayload"
    by (simp only: l length_replicate MaxPayload_def)
  show ?thesis
    using accepted_but_oversized [OF ok sample_set_up sample_id scrape_accepted big,
        of sample_config 1 1 1 sample_receiver] by (auto simp only: l Let_def)
qed

theorem builder_view_exact_witness:
  "\<exists>topic d. map_of (br_retained (view_after (doc_codec ''x'' scrape_event) ''x'')) topic =
      (case hc_active (doc_codec ''x'' scrape_event) d of None \<Rightarrow> None | Some doc \<Rightarrow> Some doc) \<and>
    ap_event_key d = ''web:7''"
proof -
  have ok: "http_codec_ok (doc_codec ''x'' scrape_event)"
    using doc_codec_ok sample_docs_utf8(1) by simp
  have b: "rq_body (hq_request (post (Inr ''b''))) = Inr ''b''" "snd (hq_net (post (Inr ''b''))) = PubOk"
    "hc_probe (doc_codec ''x'' scrape_event) ''b'' = Some None"
    "hc_builder (doc_codec ''x'' scrape_event) ''b'' = Some scrape"
    by (simp_all add: post_def doc_codec_def)
  have t: "builder_transition (bp_transition scrape) = Some ''new''"
    by (simp add: scrape_def builder_transition_def plain_words Let_def to_lower_def lower_char_def
        is_upper_ascii_def byte_range_def)
  obtain sid topic d where "ap_event_key d = ''web:7''"
    "map_of (br_retained (view_after (doc_codec ''x'' scrape_event) ''x'')) topic =
      (if builder_transition (bp_transition scrape) \<in> {Some ''cancelled'', Some ''expired''} then None
       else case hc_active (doc_codec ''x'' scrape_event) d of
              None \<Rightarrow> map_of (br_retained empty_broker) topic | Some doc \<Rightarrow> Some doc)"
    using builder_view_exact [OF ok sample_set_up sample_id scrape_accepted b(1,3,2,4)] by blast
  then show ?thesis using t
    by (intro exI [of _ topic] exI [of _ d]) (simp add: empty_broker_def split: option.split)
qed

theorem wire_source_unchecked_witness:
  "map_of (br_retained (view_after (doc_codec ''{}'' odd_event) ''{}''))
      (view_topic (doc_codec ''{}'' odd_event) ''wf'' odd_event) = Some ''{}'' \<and>
    ParseTopic ''wf'' (view_topic (doc_codec ''{}'' odd_event) ''wf'' odd_event) = TopicUnknown"
proof -
  let ?hc = "doc_codec ''{}'' odd_event"
  have ok: "http_codec_ok ?hc" using doc_codec_ok sample_docs_utf8(2) by simp
  have b: "rq_body (hq_request (post (Inr ''{}''))) = Inr ''{}''" "snd (hq_net (post (Inr ''{}''))) = PubOk"
    "hc_probe ?hc ''{}'' = Some (Some 1)" "hc_active ?hc (view_doc odd_event) = Some ''{}''"
    by (simp_all add: post_def doc_codec_def)
  have s: "\<not> slug_match (hp_source (ep_event odd_event))" "ep_change_type odd_event = ''new''"
    by (simp_all add: odd_event_def scrape_event_fields slug_match_def slug_char_def is_lower_ascii_def
        is_digit_def byte_range_def)
  have cfg: "ic_prefix (in_cfg fresh_endpoint) = ''wf''"
    by (simp add: fresh_endpoint_def endpoint_cfg_def)
  show ?thesis
    using wire_source_unchecked [OF ok sample_set_up sample_id post_accepted [OF odd_built(1) short_body(2)]
        b(1,3,2) odd_built(2) s b(4)] unfolding cfg .
qed

definition padded_files :: "string \<Rightarrow> secret_file" where
  "padded_files path = SecretFile 3 (Inr ''k '')"

definition padded_cfg :: ingest_config where
  "padded_cfg = endpoint_cfg\<lparr>ic_api_key_file := ''key''\<rparr>"

theorem padded_key_file_locks_witness:
  "\<exists>s0. New no_net padded_files 0 padded_cfg = Inr s0 \<and> \<not> authorized s0 ''Bearer k''"
proof -
  have k: "readSecret (padded_files (ic_api_key_file padded_cfg)) ''api_key_file'' = Inr ''k ''"
    by (simp add: readSecret_def padded_files_def maxSecretFileBytes_def trim_right_def)
  have f: "ic_api_key_file padded_cfg \<noteq> []" "ic_previous_key_file padded_cfg = []"
    "ic_previous_key padded_cfg = []"
    by (simp_all add: padded_cfg_def endpoint_cfg_def)
  have t: "trim_space ''k '' \<noteq> ''k ''" by code_simp
  obtain s0 where s0: "New no_net padded_files 0 padded_cfg = Inr s0"
    using k f by (simp add: New_def secret_or_def) (simp add: padded_cfg_def endpoint_cfg_def)
  show ?thesis
    using padded_key_file_locks [OF f k t s0, of blank_codec "[]" empty_broker] s0 by auto
qed

end
