(* ===== verification/Aprs_Frame.thy ===== *)
theory Aprs_Frame
  imports Decimal Results "HOL-Library.Word"
begin

text \<open>
  The radio link of the APRS backend (\<open>internal/aprs/kiss.go\<close>, \<open>callsign.go\<close>): KISS framing with
  its incremental decoder and AX.25 UI frames.  A byte on the wire is an 8-bit word; a Go string is
  a list of characters, one per byte.
\<close>

unbundle bit_operations_syntax

named_theorems aprs_simps "unfolding rules of the APRS codecs"

type_synonym byte = "8 word"

definition byte_of :: "char \<Rightarrow> byte" where "byte_of c = of_nat (of_char c)"
definition char_byte :: "byte \<Rightarrow> char" where "char_byte b = char_of (unat b)"
definition bytes_of :: "string \<Rightarrow> byte list" where "bytes_of = map byte_of"
definition text_of :: "byte list \<Rightarrow> string" where "text_of = map char_byte"

section \<open>Callsigns\<close>

definition NormalizeCallsign :: "string \<Rightarrow> string" where
  "NormalizeCallsign s = to_upper (trim_space s)"

definition callsign_char :: "char \<Rightarrow> bool" where
  "callsign_char c \<longleftrightarrow> is_upper_ascii c \<or> is_digit c"

text \<open>The pattern \<open>^[A-Z0-9]{1,6}(-[0-9]{1,2})?$\<close>.\<close>

definition callsign_match :: "string \<Rightarrow> bool" where
  "callsign_match s =
     (case cut_at (CHR ''-'') s of
        None \<Rightarrow> 1 \<le> length s \<and> length s \<le> 6 \<and> list_all callsign_char s
      | Some (b, n) \<Rightarrow> 1 \<le> length b \<and> length b \<le> 6 \<and> list_all callsign_char b \<and>
                     1 \<le> length n \<and> length n \<le> 2 \<and> list_all is_digit n)"

definition ValidCallsign :: "string \<Rightarrow> bool" where
  "ValidCallsign s = callsign_match (NormalizeCallsign s)"

definition BaseCallsign :: "string \<Rightarrow> string" where
  "BaseCallsign s =
     (case cut_at (CHR ''-'') (NormalizeCallsign s) of None \<Rightarrow> NormalizeCallsign s | Some (b, _) \<Rightarrow> b)"

section \<open>KISS frames\<close>

definition kissFEND :: byte where "kissFEND = 0xC0"
definition kissFESC :: byte where "kissFESC = 0xDB"
definition kissTFEND :: byte where "kissTFEND = 0xDC"
definition kissTFESC :: byte where "kissTFESC = 0xDD"
definition kissData :: byte where "kissData = 0x00"

lemmas kiss_codes = kissFEND_def kissFESC_def kissTFEND_def kissTFESC_def kissData_def

definition escape_byte :: "byte \<Rightarrow> byte list" where
  "escape_byte b =
     (if b = kissFEND then [kissFESC, kissTFEND]
      else if b = kissFESC then [kissFESC, kissTFESC]
      else [b])"

definition EncodeKISS :: "byte list \<Rightarrow> byte list" where
  "EncodeKISS payload = [kissFEND, kissData] @ concat (map escape_byte payload) @ [kissFEND]"

record kiss_decoder =
  kd_buf :: "byte list"
  kd_esc :: bool
  kd_in_frame :: bool
  kd_want_cmd :: bool

definition new_decoder :: kiss_decoder where
  "new_decoder = \<lparr>kd_buf = [], kd_esc = False, kd_in_frame = False, kd_want_cmd = False\<rparr>"

text \<open>The body of the loop of \<open>Feed\<close>: the frames this byte completes and the next state.\<close>

definition feed_byte :: "byte \<Rightarrow> kiss_decoder \<Rightarrow> byte list list \<times> kiss_decoder" where
  "feed_byte b d =
     (if b = kissFEND then
        let complete = kd_in_frame d \<and> \<not> kd_want_cmd d \<and> kd_buf d \<noteq> [] in
        (if complete then [kd_buf d] else [],
         \<lparr>kd_buf = (if complete then [] else kd_buf d), kd_esc = False, kd_in_frame = True,
          kd_want_cmd = True\<rparr>)
      else if kd_esc d then
        ([], d\<lparr>kd_buf := kd_buf d @ (if b = kissTFEND then [kissFEND]
                                     else if b = kissTFESC then [kissFESC] else []),
               kd_esc := False\<rparr>)
      else if b = kissFESC then ([], d\<lparr>kd_esc := True\<rparr>)
      else if kd_want_cmd d then
        ([], if b = kissData then d\<lparr>kd_want_cmd := False\<rparr> else d\<lparr>kd_in_frame := False\<rparr>)
      else if kd_in_frame d then ([], d\<lparr>kd_buf := kd_buf d @ [b]\<rparr>)
      else ([], d))"

fun Feed :: "byte list \<Rightarrow> kiss_decoder \<Rightarrow> byte list list \<times> kiss_decoder" where
  "Feed [] d = ([], d)"
| "Feed (b # bs) d =
     (case feed_byte b d of
        (out1, d1) \<Rightarrow> (case Feed bs d1 of (out2, d2) \<Rightarrow> (out1 @ out2, d2)))"

section \<open>AX.25 UI frames\<close>

definition ax25ControlUI :: byte where "ax25ControlUI = 0x03"
definition ax25PIDNoL3 :: byte where "ax25PIDNoL3 = 0xF0"

record ax25_address =
  ax_callsign :: string
  ax_ssid :: nat
  ax_repeated :: bool

text \<open>The SSID is accumulated in a 64-bit \<open>int\<close>.\<close>

definition ssid_value :: "string \<Rightarrow> 64 word" where
  "ssid_value s = foldl (\<lambda>n c. n * 10 + of_nat (digit_value c)) 0 s"

definition splitCallsign :: "string \<Rightarrow> string \<times> 64 word" where
  "splitCallsign callsign =
     (let c = NormalizeCallsign callsign in
      case cut_at (CHR ''-'') c of
        None \<Rightarrow> (c, 0)
      | Some (b, n) \<Rightarrow>
          if n = [] then (c, 0) else if list_all is_digit n then (b, ssid_value n) else (b, 0))"

datatype frame_error = EmptyCallsign | SsidOutOfRange string

text \<open>\<open>encodeAddress\<close>; every caller passes the SSID 0, so that the one in the callsign is used.\<close>

definition encodeAddress :: "string \<Rightarrow> 64 word \<Rightarrow> bool \<Rightarrow> frame_error + byte list" where
  "encodeAddress callsign ssid0 final =
     (case splitCallsign callsign of
        (b, cs) \<Rightarrow>
          if b = [] then Inl EmptyCallsign
          else
            let ssid = (if ssid0 = 0 then cs else ssid0) in
            if sint ssid < 0 \<or> sint ssid > 15 then Inl (SsidOutOfRange callsign)
            else Inr (map (\<lambda>i. push_bit 1 (byte_of (if i < length b then b ! i else CHR '' ''))) [0..<6] @
                      [ucast (push_bit 1 ssid) OR 0x60 OR (if final then 0x01 else 0)]))"

fun encode_addresses :: "string list \<Rightarrow> frame_error + byte list" where
  "encode_addresses [] = Inr []"
| "encode_addresses (a # as) =
     and_then (encodeAddress a 0 (as = [])) (\<lambda>field.
     and_then (encode_addresses as) (\<lambda>rest. Inr (field @ rest)))"

definition BuildUIFrame ::
    "string \<Rightarrow> string \<Rightarrow> string list \<Rightarrow> byte list \<Rightarrow> frame_error + byte list" where
  "BuildUIFrame src dst digis info =
     and_then (encode_addresses ([dst, src] @ digis)) (\<lambda>addrs.
     Inr (addrs @ [ax25ControlUI, ax25PIDNoL3] @ info))"

definition decode_address :: "byte list \<Rightarrow> ax25_address" where
  "decode_address f =
     \<lparr> ax_callsign = trim_right '' ''
         (text_of (filter (\<lambda>c. 0x20 \<le> c \<and> c < 0x7f) (map (drop_bit 1) (take 6 f)))),
       ax_ssid = unat (drop_bit 1 (f ! 6) AND 0x0F),
       ax_repeated = bit (f ! 6) 7 \<rparr>"

text \<open>The loop over address fields: it ends at the one whose extension bit is set.\<close>

function read_addresses :: "byte list \<Rightarrow> (ax25_address list \<times> byte list) option" where
  "read_addresses f =
     (if length f < 7 then None
      else if bit (f ! 6) 0 then Some ([decode_address f], drop 7 f)
      else (case read_addresses (drop 7 f) of
              None \<Rightarrow> None
            | Some (as, rest) \<Rightarrow> Some (decode_address f # as, rest)))"
  by pat_completeness auto
termination by (relation "measure length") auto

declare read_addresses.simps [simp del]

definition format_address :: "ax25_address \<Rightarrow> string" where
  "format_address a =
     (if ax_ssid a = 0 then ax_callsign a else ax_callsign a @ ''-'' @ dec_nat (ax_ssid a))"

record ui_frame =
  ui_src :: string
  ui_dst :: string
  ui_digis :: "string list"
  ui_info :: "byte list"

definition DecodeUIFrame :: "byte list \<Rightarrow> ui_frame option" where
  "DecodeUIFrame f =
     (case read_addresses f of
        None \<Rightarrow> None
      | Some (as, rest) \<Rightarrow>
          if length as < 2 \<or> length rest < 2 \<or> rest ! 0 \<noteq> ax25ControlUI \<or> rest ! 1 \<noteq> ax25PIDNoL3
          then None
          else Some \<lparr> ui_src = format_address (as ! 1), ui_dst = format_address (as ! 0),
                      ui_digis = map (\<lambda>a. format_address a @ (if ax_repeated a then ''*'' else []))
                                     (drop 2 as),
                      ui_info = drop 2 rest \<rparr>)"

definition FrameToFeedLine :: "ui_frame \<Rightarrow> string" where
  "FrameToFeedLine f =
     ui_src f @ ''>'' @ ui_dst f @
     (if ui_digis f \<noteq> [] then '','' @ join_with '','' (ui_digis f) else []) @ '':'' @
     text_of (ui_info f)"

end
