(* ===== verification/Aprs_Link.thy ===== *)
theory Aprs_Link
  imports Aprs_Frame
begin

text \<open>
  What the radio link guarantees: the KISS decoder returns the payloads of a clean stream whatever
  the chunks it arrives in, AX.25 decoding inverts building, and where the decoder leaks bytes.
\<close>

section \<open>KISS\<close>

lemma Feed_append:
  "Feed (xs @ ys) d =
     (case Feed xs d of (out1, d1) \<Rightarrow> (case Feed ys d1 of (out2, d2) \<Rightarrow> (out1 @ out2, d2)))"
  by (induction xs arbitrary: d) (auto split: prod.splits)

definition between_frames :: "kiss_decoder \<Rightarrow> bool" where
  "between_frames d \<longleftrightarrow> kd_buf d = [] \<and> \<not> kd_esc d \<and> (kd_in_frame d \<longrightarrow> kd_want_cmd d)"

definition in_data :: "byte list \<Rightarrow> kiss_decoder" where
  "in_data p = \<lparr>kd_buf = p, kd_esc = False, kd_in_frame = True, kd_want_cmd = False\<rparr>"

definition after_end :: kiss_decoder where
  "after_end = \<lparr>kd_buf = [], kd_esc = False, kd_in_frame = True, kd_want_cmd = True\<rparr>"

lemma between_after_end [simp]: "between_frames after_end" "between_frames new_decoder"
  by (simp_all add: between_frames_def after_end_def new_decoder_def)

lemma feed_escape: "Feed (escape_byte b) (in_data p) = ([], in_data (p @ [b]))"
  by (simp add: escape_byte_def feed_byte_def in_data_def kiss_codes)

lemma feed_payload: "Feed (concat (map escape_byte q)) (in_data p) = ([], in_data (p @ q))"
  by (induction q arbitrary: p) (simp_all add: Feed_append feed_escape)

lemma feed_start: "between_frames d \<Longrightarrow> Feed [kissFEND, kissData] d = ([], in_data [])"
  by (cases d) (auto simp: between_frames_def feed_byte_def in_data_def kiss_codes)

lemma feed_end: "p \<noteq> [] \<Longrightarrow> Feed [kissFEND] (in_data p) = ([p], after_end)"
  by (simp add: feed_byte_def in_data_def after_end_def)

lemma feed_frame:
  assumes "between_frames d" "p \<noteq> []"
  shows "Feed (EncodeKISS p) d = ([p], after_end)"
proof -
  have "EncodeKISS p = [kissFEND, kissData] @ (concat (map escape_byte p) @ [kissFEND])"
    by (simp add: EncodeKISS_def)
  then show ?thesis
    using feed_start [OF assms(1)] feed_payload [of p "[]"] feed_end [OF assms(2)]
    by (simp only: Feed_append) simp
qed

lemma feed_frames:
  "between_frames d \<Longrightarrow> [] \<notin> set ps \<Longrightarrow>
     \<exists>d'. Feed (concat (map EncodeKISS ps)) d = (ps, d') \<and> between_frames d'"
proof (induction ps arbitrary: d)
  case (Cons p ps)
  then have "Feed (EncodeKISS p) d = ([p], after_end)" by (intro feed_frame) auto
  moreover obtain d' where "Feed (concat (map EncodeKISS ps)) after_end = (ps, d')" "between_frames d'"
    using Cons.IH [of after_end] Cons.prems by auto
  ultimately show ?case by (simp add: Feed_append)
qed simp

text \<open>The reads of a session: each chunk goes to the decoder, the frames are collected.\<close>

fun feed_chunks :: "byte list list \<Rightarrow> kiss_decoder \<Rightarrow> byte list list \<times> kiss_decoder" where
  "feed_chunks [] d = ([], d)"
| "feed_chunks (c # cs) d =
     (case Feed c d of (out1, d1) \<Rightarrow> (case feed_chunks cs d1 of (out2, d2) \<Rightarrow> (out1 @ out2, d2)))"

lemma feed_chunks_concat: "feed_chunks cs d = Feed (concat cs) d"
  by (induction cs arbitrary: d) (simp_all add: Feed_append)

text \<open>
  C40: KISS is transparent.  Whatever bytes the payloads hold and however the stream is cut into
  reads, a decoder between frames returns exactly the payloads that were encoded, in order, and is
  between frames again.
\<close>

theorem kiss_transparent:
  assumes "between_frames d" "[] \<notin> set ps" "concat chunks = concat (map EncodeKISS ps)"
  shows "\<exists>d'. feed_chunks chunks d = (ps, d') \<and> between_frames d'"
  unfolding feed_chunks_concat assms(3) by (rule feed_frames [OF assms(1,2)])

theorem kiss_transparent_witness:
  "\<exists>d'. feed_chunks [[0xC0, 0x00, 0xDB], [0xDC, 0x41, 0xC0]] new_decoder = ([[0xC0, 0x41]], d') \<and>
    between_frames d'"
  by (rule kiss_transparent) (simp_all add: EncodeKISS_def escape_byte_def kiss_codes)

text \<open>An encoded frame has its delimiters only at the two ends.\<close>

lemma escape_byte_free: "kissFEND \<notin> set (escape_byte b)"
  by (simp add: escape_byte_def kiss_codes)

lemma kiss_delimiters:
  "EncodeKISS p = kissFEND # q \<Longrightarrow> kissFEND \<notin> set (butlast q) \<and> last q = kissFEND"
  using escape_byte_free by (auto simp: EncodeKISS_def kissData_def butlast_append) (simp add: kissFEND_def)

text \<open>
  escaped bytes leak into the next frame.  The decoder skips frames that carry no data, but
  an escaped byte in such a frame is appended to its buffer all the same, and the next data frame
  is returned with that byte in front.
\<close>

theorem escaped_bytes_leak:
  assumes "between_frames d" "cmd \<notin> {kissFEND, kissFESC, kissData}"
  shows "fst (Feed ([kissFEND, cmd, kissFESC, kissTFEND] @ EncodeKISS p) d) = [kissFEND # p]"
proof -
  let ?leaked = "\<lparr>kd_buf = [kissFEND], kd_esc = False, kd_in_frame = False, kd_want_cmd = True\<rparr>"
  have "Feed [kissFEND, cmd, kissFESC, kissTFEND] d = ([], ?leaked)"
    using assms by (cases d) (auto simp: between_frames_def feed_byte_def kiss_codes)
  moreover have "Feed [kissFEND, kissData] ?leaked = ([], in_data [kissFEND])"
    by (simp add: feed_byte_def in_data_def kiss_codes)
  moreover have "EncodeKISS p = [kissFEND, kissData] @ (concat (map escape_byte p) @ [kissFEND])"
    by (simp add: EncodeKISS_def)
  ultimately show ?thesis
    using feed_payload [of p "[kissFEND]"] feed_end [of "kissFEND # p"]
    by (simp only: Feed_append) simp
qed

theorem escaped_bytes_leak_witness:
  "fst (Feed ([kissFEND, 0x06, kissFESC, kissTFEND] @ EncodeKISS [0x41]) new_decoder) =
    [kissFEND # [0x41]]"
  by (rule escaped_bytes_leak) (simp_all add: kiss_codes)

section \<open>AX.25\<close>

text \<open>A callsign as it comes back from the wire: base and SSID, the SSID 0 left out.\<close>

definition wire_callsign :: "string \<Rightarrow> bool" where
  "wire_callsign c \<longleftrightarrow>
     (\<exists>b n. 1 \<le> length b \<and> length b \<le> 6 \<and> list_all callsign_char b \<and> n \<le> 15 \<and>
        c = b @ (if n = 0 then [] else ''-'' @ dec_nat n))"

lemma callsign_char_range:
  assumes "callsign_char c \<or> c = CHR ''-''"
  shows "plain_char c" "upper_char c = c" "(of_char c :: nat) < 128"
  using assms
  by (auto simp: callsign_char_def is_upper_ascii_def is_digit_def byte_range_def plain_char_def
      upper_char_def is_lower_ascii_def)

lemma not_dash: "callsign_char c \<Longrightarrow> c \<noteq> CHR ''-''" "callsign_char c \<Longrightarrow> c \<noteq> CHR '' ''"
  by (auto simp: callsign_char_def is_upper_ascii_def is_digit_def byte_range_def)

lemma wire_callsign_chars:
  assumes "wire_callsign c" "x \<in> set c"
  shows "callsign_char x \<or> x = CHR ''-''"
  using assms dec_nat_digits
  by (fastforce simp: wire_callsign_def callsign_char_def list_all_iff split: if_splits)

lemma wire_callsign_nonempty: "wire_callsign c \<Longrightarrow> c \<noteq> []"
  by (auto simp: wire_callsign_def)

lemma normalize_wire_callsign:
  assumes "wire_callsign c"
  shows "NormalizeCallsign c = c"
proof -
  note chars = wire_callsign_chars [OF assms]
  have "plain_char (hd c) \<and> plain_char (last c)"
    using chars [of "hd c"] chars [of "last c"] callsign_char_range(1) wire_callsign_nonempty [OF assms]
    by auto
  then have "trim_space c = c" by (intro trim_space_plain) simp
  moreover have "to_upper c = c"
    using chars callsign_char_range(2) by (simp add: to_upper_def map_idI)
  ultimately show ?thesis by (simp add: NormalizeCallsign_def)
qed

lemma cut_at_None: "x \<notin> set s \<Longrightarrow> cut_at x s = None"
  by (induction s) auto

lemma ssid_value_nat: "ssid_value s = of_nat (digits_value s)"
proof -
  have "foldl (\<lambda>n c. n * 10 + of_nat (digit_value c)) (of_nat k :: 64 word) s =
      of_nat (foldl (\<lambda>n c. 10 * n + digit_value c) k s)" for k
  proof (induction s arbitrary: k)
    case (Cons c s)
    have "(of_nat k :: 64 word) * 10 + of_nat (digit_value c) = of_nat (10 * k + digit_value c)"
      by (simp add: mult.commute)
    with Cons show ?case by (simp only: foldl.simps)
  qed simp
  from this [of 0] show ?thesis by (simp add: ssid_value_def digits_value_def)
qed

lemma split_wire_callsign:
  assumes "1 \<le> length b" "list_all callsign_char b" "n \<le> 15"
    and "c = b @ (if n = 0 then [] else ''-'' @ dec_nat n)" "wire_callsign c"
  shows "splitCallsign c = (b, of_nat n)"
proof -
  have free: "CHR ''-'' \<notin> set b" using assms(2) not_dash(1) by (auto simp: list_all_iff)
  have "cut_at (CHR ''-'') c = (if n = 0 then None else Some (b, dec_nat n))"
    using free by (simp add: assms(4) cut_at_None)
  then show ?thesis
    using assms(4) dec_nat_digits [of n] normalize_wire_callsign [OF assms(5)]
    by (simp add: splitCallsign_def Let_def ssid_value_nat)
qed

definition ssid_flags :: "nat \<Rightarrow> bool \<Rightarrow> byte" where
  "ssid_flags n final = ucast (push_bit 1 (of_nat n :: 64 word)) OR 0x60 OR (if final then 0x01 else 0)"

lemma ssid_list: "(n::nat) \<le> 15 \<Longrightarrow> n \<in> set [0,1,2,3,4,5,6,7,8,9,10,11,12,13,14,15]"
proof -
  assume "n \<le> 15"
  then have "n \<in> set [0..<16]" by simp
  also have "[0..<16] = [0,1,2,3,4,5,6,7,8,9,10,11,12,13,14,15]" by (simp add: upt_rec)
  finally show ?thesis .
qed

lemma ssid_flags_fields:
  assumes "n \<le> 15"
  shows "unat (drop_bit 1 (ssid_flags n final) AND 0x0F) = n" "\<not> bit (ssid_flags n final) 7"
    "bit (ssid_flags n final) 0 = final" "\<not> sint (of_nat n :: 64 word) < 0"
    "\<not> sint (of_nat n :: 64 word) > 15"
  using ssid_list [OF assms] by (auto simp: ssid_flags_def)

definition address_field :: "string \<Rightarrow> nat \<Rightarrow> bool \<Rightarrow> byte list" where
  "address_field b n final =
     map (\<lambda>c. push_bit 1 (byte_of c)) (b @ replicate (6 - length b) (CHR '' '')) @ [ssid_flags n final]"

lemma pad_nth:
  "length b \<le> k \<Longrightarrow> map (\<lambda>i. f (if i < length b then b ! i else x)) [0..<k] =
     map f (b @ replicate (k - length b) x)"
  by (rule nth_equalityI) (simp_all add: nth_append)

lemma encode_wire_callsign:
  assumes "1 \<le> length b" "length b \<le> 6" "list_all callsign_char b" "n \<le> 15"
    and "c = b @ (if n = 0 then [] else ''-'' @ dec_nat n)" "wire_callsign c"
  shows "encodeAddress c 0 final = Inr (address_field b n final)"
  using split_wire_callsign [OF assms(1,3,4,5,6)] assms(1) ssid_flags_fields(4,5) [OF assms(4)]
    pad_nth [OF assms(2), of "\<lambda>c. push_bit 1 (byte_of c)" "CHR '' ''"]
  by (auto simp: encodeAddress_def Let_def address_field_def ssid_flags_def)

lemma shifted_byte:
  assumes "(of_char c :: nat) < 128"
  shows "drop_bit 1 (push_bit 1 (byte_of c)) = byte_of c" "char_byte (byte_of c) = c"
proof -
  have u: "unat (byte_of c) = of_char c"
    using assms by (simp add: byte_of_def unat_of_nat)
  have "unat (push_bit 1 (byte_of c)) = 2 * of_char c"
    using assms u by (simp add: push_bit_eq_mult unat_mult_lem [THEN iffD1])
  then have "unat (drop_bit 1 (push_bit 1 (byte_of c))) = unat (byte_of c)"
    unfolding unat_drop_bit_eq by (simp only: u) (simp add: drop_bit_eq_div)
  then show "drop_bit 1 (push_bit 1 (byte_of c)) = byte_of c" by (rule unsigned_word_eqI)
  show "char_byte (byte_of c) = c" by (simp add: char_byte_def u)
qed

lemma byte_printable:
  assumes "callsign_char c \<or> c = CHR '' ''"
  shows "(of_char c :: nat) < 128" "0x20 \<le> byte_of c \<and> byte_of c < 0x7f"
proof -
  have r: "32 \<le> (of_char c :: nat) \<and> (of_char c :: nat) < 127"
    using assms by (auto simp: callsign_char_def is_upper_ascii_def is_digit_def byte_range_def)
  then show "(of_char c :: nat) < 128" by simp
  have "unat (byte_of c) = of_char c" using r by (simp add: byte_of_def unat_of_nat)
  with r show "0x20 \<le> byte_of c \<and> byte_of c < 0x7f"
    by (simp add: word_le_nat_alt word_less_nat_alt)
qed

lemma trim_padding:
  assumes "b \<noteq> []" "last b \<noteq> x"
  shows "trim_right [x] (b @ replicate k x) = b"
proof -
  have "dropWhile (\<lambda>c. c = x) (replicate k x @ rev b) = dropWhile (\<lambda>c. c = x) (rev b)"
    by (rule dropWhile_append2) simp
  then show ?thesis using trim_right_id [of b "[x]"] assms by (simp add: trim_right_def)
qed

lemma address_field_length [simp]: "length b \<le> 6 \<Longrightarrow> length (address_field b n final) = 7"
  by (simp add: address_field_def)

lemma address_field_flags: "length b \<le> 6 \<Longrightarrow> (address_field b n final @ r) ! 6 = ssid_flags n final"
  by (simp add: address_field_def nth_append)

lemma decode_address_field:
  assumes "1 \<le> length b" "length b \<le> 6" "list_all callsign_char b" "n \<le> 15"
  shows "decode_address (address_field b n final @ r) =
    \<lparr>ax_callsign = b, ax_ssid = n, ax_repeated = False\<rparr>"
proof -
  let ?p = "b @ replicate (6 - length b) (CHR '' '')"
  have chars: "\<forall>c\<in>set ?p. callsign_char c \<or> c = CHR '' ''"
    using assms(3) by (auto simp: list_all_iff)
  have front: "take 6 (address_field b n final @ r) = map (\<lambda>c. push_bit 1 (byte_of c)) ?p"
    using assms(2) by (simp add: address_field_def)
  have p: "callsign_char c \<or> c = CHR '' ''" if "c \<in> set ?p" for c
    using chars that by blast
  have "map (drop_bit 1) (map (\<lambda>c. push_bit 1 (byte_of c)) ?p) = map byte_of ?p"
    unfolding map_map comp_def
    by (rule map_cong [OF refl]) (rule shifted_byte(1) [OF byte_printable(1) [OF p]])
  moreover have "filter (\<lambda>c. 0x20 \<le> c \<and> c < 0x7f) (map byte_of ?p) = map byte_of ?p"
  proof (rule filter_True, rule ballI)
    fix y assume "y \<in> set (map byte_of ?p)"
    then obtain c where "y = byte_of c" "c \<in> set ?p" unfolding set_map by blast
    then show "0x20 \<le> y \<and> y < 0x7f" using byte_printable(2) [OF p] by simp
  qed
  moreover have "text_of (map byte_of ?p) = ?p"
    unfolding text_of_def map_map comp_def
    by (rule map_idI) (rule shifted_byte(2) [OF byte_printable(1) [OF p]])
  moreover have "trim_right '' '' ?p = b"
  proof (rule trim_padding)
    show "b \<noteq> []" using assms(1) by auto
    then have "callsign_char (last b)" using assms(3) by (simp add: list_all_iff)
    then show "last b \<noteq> CHR '' ''" by (rule not_dash(2))
  qed
  ultimately have "trim_right '' '' (text_of (filter (\<lambda>c. 0x20 \<le> c \<and> c < 0x7f)
      (map (drop_bit 1) (take 6 (address_field b n final @ r))))) = b"
    unfolding front by (simp only:)
  then show ?thesis
    using ssid_flags_fields(1,2) [OF assms(4)] address_field_flags [OF assms(2)]
    by (simp add: decode_address_def)
qed

lemma format_wire:
  "n \<le> 15 \<Longrightarrow> format_address \<lparr>ax_callsign = b, ax_ssid = n, ax_repeated = False\<rparr> =
     b @ (if n = 0 then [] else ''-'' @ dec_nat n)"
  by (simp add: format_address_def)

definition repeated_none :: "ax25_address \<Rightarrow> bool" where
  "repeated_none a \<longleftrightarrow> \<not> ax_repeated a"

lemma encode_decode_addresses:
  assumes "as \<noteq> []" "\<forall>a\<in>set as. wire_callsign a"
  shows "\<exists>bytes. encode_addresses as = Inr bytes \<and>
    (\<forall>rest. \<exists>ds. read_addresses (bytes @ rest) = Some (ds, rest) \<and> map format_address ds = as \<and>
       list_all repeated_none ds)"
  using assms
proof (induction as)
  case (Cons a as)
  have w: "wire_callsign a" using Cons.prems by simp
  then obtain b n where a: "1 \<le> length b" "length b \<le> 6" "list_all callsign_char b" "n \<le> 15"
    "a = b @ (if n = 0 then [] else ''-'' @ dec_nat n)"
    unfolding wire_callsign_def by blast
  let ?f = "address_field b n (as = [])"
  have enc: "encodeAddress a 0 (as = []) = Inr ?f" by (rule encode_wire_callsign [OF a w])
  have more: "read_addresses (?f @ r) =
      (if as = [] then Some ([decode_address (?f @ r)], r)
       else (case read_addresses r of
               None \<Rightarrow> None | Some (ds, rest) \<Rightarrow> Some (decode_address (?f @ r) # ds, rest)))" for r
    using a(2) ssid_flags_fields(3) [OF a(4)] address_field_flags [OF a(2)]
    by (subst read_addresses.simps) simp
  have dec: "format_address (decode_address (?f @ r)) = a" "repeated_none (decode_address (?f @ r))" for r
    using decode_address_field [OF a(1-4)] format_wire [OF a(4)] a(5)
    by (simp_all add: repeated_none_def)
  show ?case
  proof (cases "as = []")
    case True
    then show ?thesis using enc more dec by simp
  next
    case False
    then obtain bytes where b: "encode_addresses as = Inr bytes"
      "\<forall>rest. \<exists>ds. read_addresses (bytes @ rest) = Some (ds, rest) \<and> map format_address ds = as \<and>
         list_all repeated_none ds"
      using Cons.IH Cons.prems by auto
    have "\<exists>ds. read_addresses ((?f @ bytes) @ rest) = Some (ds, rest) \<and>
        map format_address ds = a # as \<and> list_all repeated_none ds" for rest
    proof -
      obtain ds where "read_addresses (bytes @ rest) = Some (ds, rest)" "map format_address ds = as"
        "list_all repeated_none ds"
        using b(2) by blast
      then show ?thesis using False more [of "bytes @ rest"] dec by simp
    qed
    then show ?thesis using enc b(1) by simp
  qed
qed simp

lemma build_decode_frame:
  assumes "wire_callsign src" "wire_callsign dst" "\<forall>d\<in>set digis. wire_callsign d"
  shows "\<exists>frame. BuildUIFrame src dst digis info = Inr frame \<and>
    DecodeUIFrame frame = Some \<lparr>ui_src = src, ui_dst = dst, ui_digis = digis, ui_info = info\<rparr>"
proof -
  obtain bytes where b: "encode_addresses ([dst, src] @ digis) = Inr bytes"
    "\<forall>rest. \<exists>ds. read_addresses (bytes @ rest) = Some (ds, rest) \<and>
       map format_address ds = [dst, src] @ digis \<and> list_all repeated_none ds"
    using encode_decode_addresses [of "[dst, src] @ digis"] assms by auto
  let ?rest = "[ax25ControlUI, ax25PIDNoL3] @ info"
  obtain ds where ds: "read_addresses (bytes @ ?rest) = Some (ds, ?rest)"
    "map format_address ds = [dst, src] @ digis" "list_all repeated_none ds"
    using b(2) by blast
  then obtain d s es where es: "ds = d # s # es" "format_address d = dst" "format_address s = src"
    "map format_address es = digis" by auto
  have "map (\<lambda>a. format_address a @ (if ax_repeated a then ''*'' else [])) es = digis"
    using ds(3) es(1,4) by (auto simp: repeated_none_def list_all_iff)
  then have "DecodeUIFrame (bytes @ ?rest) =
      Some \<lparr>ui_src = src, ui_dst = dst, ui_digis = digis, ui_info = info\<rparr>"
    using ds(1) es by (simp add: DecodeUIFrame_def)
  then show ?thesis using b(1) by (simp add: BuildUIFrame_def)
qed

text \<open>
  AX.25 round trip.  A UI frame between proper callsigns (at most six letters and digits, an
  SSID from 1 to 15 if any), through any digipeaters and with any information field, is built
  without error and decoded into the same source, destination, path and information.
\<close>

theorem ui_frame_roundtrip:
  assumes "wire_callsign src" "wire_callsign dst" "\<forall>d\<in>set digis. wire_callsign d"
  shows "\<exists>frame. BuildUIFrame src dst digis info = Inr frame \<and>
    DecodeUIFrame frame = Some \<lparr>ui_src = src, ui_dst = dst, ui_digis = digis, ui_info = info\<rparr>"
  using assms by (rule build_decode_frame)

theorem ui_frame_roundtrip_witness:
  "\<exists>frame. BuildUIFrame ''SP9MOA-10'' ''APRS'' [''WIDE1-1''] [0x3A] = Inr frame \<and>
    DecodeUIFrame frame = Some \<lparr>ui_src = ''SP9MOA-10'', ui_dst = ''APRS'', ui_digis = [''WIDE1-1''],
      ui_info = [0x3A]\<rparr>"
proof -
  have d: "dec_nat 10 = ''10''" "dec_nat (Suc 0) = ''1''" by code_simp+
  have "wire_callsign ''SP9MOA-10''"
    unfolding wire_callsign_def
    by (rule exI [of _ "''SP9MOA''"], rule exI [of _ 10])
      (simp add: d callsign_char_def is_upper_ascii_def is_digit_def byte_range_def)
  moreover have "wire_callsign ''APRS''"
    unfolding wire_callsign_def
    by (rule exI [of _ "''APRS''"], rule exI [of _ 0])
      (simp add: callsign_char_def is_upper_ascii_def is_digit_def byte_range_def)
  moreover have "wire_callsign ''WIDE1-1''"
    unfolding wire_callsign_def
    by (rule exI [of _ "''WIDE1''"], rule exI [of _ 1])
      (simp add: d callsign_char_def is_upper_ascii_def is_digit_def byte_range_def)
  ultimately show ?thesis by (intro ui_frame_roundtrip) simp_all
qed

lemma dec_nat_short: "n \<le> 15 \<Longrightarrow> 1 \<le> length (dec_nat n) \<and> length (dec_nat n) \<le> 2"
  by (drule ssid_list, simp only: set_simps insert_iff empty_iff)
    (elim disjE; simp add: dec_nat.simps)

lemma wire_valid:
  assumes "wire_callsign c"
  shows "ValidCallsign c"
proof -
  obtain b n where c: "1 \<le> length b" "length b \<le> 6" "list_all callsign_char b" "n \<le> 15"
    "c = b @ (if n = 0 then [] else ''-'' @ dec_nat n)"
    using assms by (auto simp: wire_callsign_def)
  have free: "CHR ''-'' \<notin> set b" using c(3) not_dash(1) by (auto simp: list_all_iff)
  have "cut_at (CHR ''-'') c = (if n = 0 then None else Some (b, dec_nat n))"
    using free by (simp add: c(5) cut_at_None)
  moreover have "n = 0 \<Longrightarrow> c = b" using c(5) by simp
  ultimately have "callsign_match c"
    using c(1-4) dec_nat_digits [of n] dec_nat_short [OF c(4)] unfolding callsign_match_def by simp
  then show ?thesis by (simp add: ValidCallsign_def normalize_wire_callsign [OF assms])
qed
end
