(* ===== verification/Aprs_Message.thy ===== *)
theory Aprs_Message
  imports Aprs_Frame Utf8
begin

text \<open>
  Outbound APRS texts (\<open>internal/aprs/message.go\<close>): the transliteration and shortening to the
  line limit of the protocol, the composition of an alert and the APRS-IS line that carries it.
\<close>

section \<open>Runes\<close>

text \<open>The runes of a string as Go's \<open>range\<close> visits them; an invalid byte is a rune by itself.\<close>

function split_runes :: "string \<Rightarrow> string list" where
  "split_runes s =
     (case s of
        [] \<Rightarrow> []
      | c # cs \<Rightarrow>
          if rune_width s = 0 then [c] # split_runes cs
          else take (rune_width s) s # split_runes (drop (rune_width s) s))"
  by pat_completeness auto
termination
proof (relation "measure length", goal_cases)
  case (3 s c cs)
  with rune_width_le [of s] show ?case by auto
qed auto

declare split_runes.simps [simp del]

definition is_ascii :: "char \<Rightarrow> bool" where
  "is_ascii c \<longleftrightarrow> (of_char c :: nat) < 128"

text \<open>The Polish letters, as UTF-8, with their base letters.\<close>

definition diacritics :: "(string \<times> char) list" where
  "diacritics =
     map (\<lambda>(b1, b2, c). ([char_of (b1::nat), char_of (b2::nat)], c))
       [(0xC4, 0x85, CHR ''a''), (0xC4, 0x87, CHR ''c''), (0xC4, 0x99, CHR ''e''),
        (0xC5, 0x82, CHR ''l''), (0xC5, 0x84, CHR ''n''), (0xC3, 0xB3, CHR ''o''),
        (0xC5, 0x9B, CHR ''s''), (0xC5, 0xBA, CHR ''z''), (0xC5, 0xBC, CHR ''z''),
        (0xC4, 0x84, CHR ''A''), (0xC4, 0x86, CHR ''C''), (0xC4, 0x98, CHR ''E''),
        (0xC5, 0x81, CHR ''L''), (0xC5, 0x83, CHR ''N''), (0xC3, 0x93, CHR ''O''),
        (0xC5, 0x9A, CHR ''S''), (0xC5, 0xB9, CHR ''Z''), (0xC5, 0xBB, CHR ''Z'')]"

definition ascii_rune :: "string \<Rightarrow> string" where
  "ascii_rune r =
     (case r of
        [] \<Rightarrow> []
      | c # cs \<Rightarrow>
          if is_ascii c then r
          else (case map_of diacritics r of None \<Rightarrow> [] | Some a \<Rightarrow> [a]))"

definition transliterate :: "string \<Rightarrow> string" where
  "transliterate s = concat (map ascii_rune (split_runes s))"

section \<open>The line limit\<close>

definition MaxMessageText :: int where "MaxMessageText = 67"
definition AckSuffixLen :: int where "AckSuffixLen = 7"

fun last_index :: "char \<Rightarrow> string \<Rightarrow> nat option" where
  "last_index x [] = None"
| "last_index x (c # cs) =
     (case last_index x cs of
        Some i \<Rightarrow> Some (Suc i)
      | None \<Rightarrow> if c = x then Some 0 else None)"

definition LimitMessageText :: "string \<Rightarrow> int \<Rightarrow> string" where
  "LimitMessageText text reserve =
     (let t = join_with '' '' (Prelude.fields (transliterate text));
          m = nat (if MaxMessageText - reserve < 10 then 10 else MaxMessageText - reserve)
      in if length t \<le> m then t
         else trim_space
           (case last_index (CHR '' '') (take m t) of
              Some i \<Rightarrow> if i > m div 2 then take i t else take m t
            | None \<Rightarrow> take m t))"

definition TrimMessageText :: "string \<Rightarrow> string" where
  "TrimMessageText text = LimitMessageText text 0"

text \<open>\<open>%-9s\<close> pads to nine runes.\<close>

definition pad_field :: "nat \<Rightarrow> string \<Rightarrow> string" where
  "pad_field n s = s @ replicate (n - length (split_runes s)) (CHR '' '')"

definition EncodeMessageLine :: "string \<Rightarrow> string \<Rightarrow> string \<Rightarrow> string" where
  "EncodeMessageLine src to text =
     NormalizeCallsign src @ ''>APRS,TCPIP*::'' @ pad_field 9 (NormalizeCallsign to) @ '':'' @ text"

section \<open>Alerts\<close>

definition SeverityAbbrev :: "string \<Rightarrow> string" where
  "SeverityAbbrev severity =
     (let s = to_upper (trim_space severity) in
      if s = ''SEVERE'' then ''SEV'' else if s = ''MODERATE'' then ''MOD''
      else if s = ''MINOR'' then ''MIN'' else if s = ''EXTREME'' then ''EXT''
      else if s = ''UNKNOWN'' then ''UNK'' else [])"

definition alert_text :: "string list \<Rightarrow> string" where
  "alert_text parts =
     join_with '' '' (filter (\<lambda>p. trim_space p \<noteq> [] \<and> trim_space p \<noteq> '':'') parts)"

definition alert_candidates :: "string \<Rightarrow> string \<Rightarrow> string \<Rightarrow> string \<Rightarrow> string list list" where
  "alert_candidates pfx sev event headline =
     [[pfx, sev, event @ '':'', headline], [pfx, sev @ '':'', headline],
      [sev, event @ '':'', headline], [sev @ '':'', headline], [headline]]"

definition BuildAlertMessage :: "string \<Rightarrow> string \<Rightarrow> string \<Rightarrow> string \<Rightarrow> int \<Rightarrow> string" where
  "BuildAlertMessage pfx0 severity event0 headline0 reserve =
     (let pfx = trim_space pfx0; ev = trim_space event0; hd0 = trim_space headline0;
          headline = (if hd0 \<noteq> [] then hd0 else if ev \<noteq> [] then ev else ''WarnFlux alert'');
          event = (if hd0 = [] \<and> ev \<noteq> [] then [] else ev)
      in case find (\<lambda>t. t \<noteq> [] \<and> int (length t) \<le> MaxMessageText - reserve)
                (map alert_text (alert_candidates pfx (SeverityAbbrev severity) event headline)) of
           Some t \<Rightarrow> LimitMessageText t reserve
         | None \<Rightarrow> LimitMessageText headline reserve)"

end
