(* ===== verification/Aprs_Text.thy ===== *)
theory Aprs_Text
  imports Aprs_Message
begin

text \<open>
  What the composition of outbound APRS texts guarantees: seven-bit text within the line limit,
  and a headline that is kept whole whenever it fits.
\<close>

section \<open>Fields of an ASCII text\<close>

definition blank :: "char \<Rightarrow> bool" where
  "blank c \<longleftrightarrow> (of_char c :: nat) \<in> {9, 10, 11, 12, 13, 32}"

fun words_from :: "string \<Rightarrow> string \<Rightarrow> string list" where
  "words_from w [] = emit_field w"
| "words_from w (c # cs) =
     (if blank c then emit_field w @ words_from [] cs else words_from (w @ [c]) cs)"

lemma emit_field_eq: "emit_field w = (if w = [] then [] else [w])"
  by (cases w) simp_all

lemma take_Cons_eq: "take (length e) (c # s) = e \<longleftrightarrow> e = [] \<or> (\<exists>t. e = c # t \<and> take (length t) s = t)"
  by (cases e) auto

lemma match_len_singles:
  "\<forall>e\<in>set es. length e = 1 \<Longrightarrow> match_len es (c # s) = (if [c] \<in> set es then 1 else 0)"
proof (induction es)
  case (Cons e es)
  then obtain x where "e = [x]" by (metis length_Suc_conv length_0_conv One_nat_def list.set_intros(1))
  with Cons show ?case by auto
qed simp

lemma match_len_skip:
  "\<forall>e\<in>set es. e \<noteq> [] \<longrightarrow> hd e \<noteq> c \<Longrightarrow> match_len (fs @ es) (c # s) = match_len fs (c # s)"
proof (induction fs)
  case Nil
  then show ?case
  proof (induction es)
    case (Cons e es)
    then show ?case by (cases e) auto
  qed simp
qed simp

definition blank_runes :: "string list" where
  "blank_runes = map (\<lambda>n. [char_of n]) [9, 10, 11, 12, 13, 32 :: nat]"

lemma match_len_blank:
  assumes "es = blank_runes @ es'" "\<forall>e\<in>set es'. e \<noteq> [] \<longrightarrow> hd e \<noteq> c"
  shows "match_len es (c # s) = (if blank c then 1 else 0)"
proof -
  have "match_len es (c # s) = match_len blank_runes (c # s)"
    unfolding assms(1) by (rule match_len_skip [OF assms(2)])
  also have "\<dots> = (if [c] \<in> set blank_runes then 1 else 0)"
    by (rule match_len_singles) (auto simp: blank_runes_def)
  also have "[c] \<in> set blank_runes \<longleftrightarrow> blank c"
  proof -
    have "c = char_of n \<longleftrightarrow> of_char c = n" if "n < 256" for n :: nat
      using that by (metis char_of_char of_char_of mod_less)
    then show ?thesis by (simp add: blank_def blank_runes_def)
  qed
  finally show ?thesis .
qed

lemma space_runes_split:
  "space_runes = blank_runes @ drop 6 space_runes"
  "map rev space_runes = blank_runes @ drop 6 (map rev space_runes)"
  by (simp_all add: space_runes_def space_codes_def blank_runes_def)

lemma space_runes_high:
  "is_ascii c \<Longrightarrow> \<forall>e\<in>set (drop 6 space_runes). e \<noteq> [] \<longrightarrow> hd e \<noteq> c"
  "is_ascii c \<Longrightarrow> \<forall>e\<in>set (drop 6 (map rev space_runes)). e \<noteq> [] \<longrightarrow> hd e \<noteq> c"
  by (auto simp: space_runes_def space_codes_def is_ascii_def)

lemmas match_len_ascii =
  match_len_blank [OF space_runes_split(1) space_runes_high(1)]
  match_len_blank [OF space_runes_split(2) space_runes_high(2)]

lemma find_SomeD: "find P xs = Some x \<Longrightarrow> x \<in> set xs \<and> P x"
  by (induction xs) (auto split: if_splits)

lemma fields_from_ascii: "list_all is_ascii s \<Longrightarrow> fields_from w s = words_from w s"
proof (induction s arbitrary: w)
  case (Cons c s)
  then show ?case
    by (subst fields_from.simps) (simp add: match_len_ascii)
qed (subst fields_from.simps, simp)

lemma words_from_word:
  "x \<in> set (words_from w s) \<Longrightarrow> list_all (\<lambda>c. \<not> blank c) w \<Longrightarrow>
     x \<noteq> [] \<and> list_all (\<lambda>c. \<not> blank c) x \<and> set x \<subseteq> set w \<union> set s"
  by (induction w s rule: words_from.induct) (auto simp: emit_field_eq split: if_splits)

lemma words_from_append:
  "blank c \<Longrightarrow> words_from w (s @ c # t) = words_from w s @ words_from [] t"
  by (induction s arbitrary: w) auto

lemma length_join:
  "length (join_with '' '' ws) = sum_list (map length ws) + (length ws - 1)"
  by (induction ws rule: induct_list012) auto

lemma words_from_size:
  "sum_list (map length (words_from w s)) + length (words_from w s) \<le> length w + length s + 1"
proof (induction w s rule: words_from.induct)
  case (2 w c cs)
  then show ?case by (auto simp: emit_field_eq)
qed (auto simp: emit_field_eq)

lemma length_join_words: "length (join_with '' '' (words_from [] s)) \<le> length s"
  using words_from_size [of "[]" s] by (cases "words_from [] s") (auto simp: length_join)

lemma words_from_word_id:
  "list_all (\<lambda>c. \<not> blank c) x \<Longrightarrow> words_from w x = emit_field (w @ x)"
  by (induction x arbitrary: w) auto

lemma blank_space: "blank (CHR '' '')"
  by (simp add: blank_def)

lemma words_from_join:
  "\<forall>x\<in>set ws. x \<noteq> [] \<and> list_all (\<lambda>c. \<not> blank c) x \<Longrightarrow> words_from [] (join_with '' '' ws) = ws"
proof (induction ws rule: induct_list012)
  case (3 x y zs)
  then have "words_from [] (x @ CHR '' '' # join_with '' '' (y # zs)) = words_from [] x @ y # zs"
    by (simp add: words_from_append blank_space)
  then show ?case using 3 by (simp add: words_from_word_id emit_field_eq)
qed (simp_all add: words_from_word_id emit_field_eq)

lemma set_join: "set (join_with '' '' ws) \<subseteq> insert (CHR '' '') (\<Union>x\<in>set ws. set x)"
  by (induction ws rule: induct_list012) auto

section \<open>Transliteration\<close>

lemma rune_width_ascii: "is_ascii c \<Longrightarrow> rune_width (c # s) = 1"
  by (simp add: is_ascii_def rune_width_def codes_def seq_len_def)

lemma split_runes_ascii: "is_ascii c \<Longrightarrow> split_runes (c # s) = [c] # split_runes s"
  by (subst split_runes.simps) (simp add: rune_width_ascii)

lemma split_runes_member:
  "r \<in> set (split_runes s) \<Longrightarrow> r \<noteq> [] \<and> (is_ascii (hd r) \<longrightarrow> length r = 1)"
proof (induction s rule: split_runes.induct)
  case (1 s)
  show ?case
  proof (cases s)
    case (Cons c cs)
    consider "rune_width s = 0" "r = [c]" | "rune_width s = 0" "r \<in> set (split_runes cs)"
      | "rune_width s \<noteq> 0" "r = take (rune_width s) s"
      | "rune_width s \<noteq> 0" "r \<in> set (split_runes (drop (rune_width s) s))"
      using 1(3) Cons by (subst (asm) split_runes.simps) (auto split: if_splits)
    then show ?thesis
    proof cases
      case 3
      then show ?thesis using Cons rune_width_ascii [of c cs] rune_width_le [of s] by auto
    qed (use 1 Cons in auto)
  qed (use 1(3) in \<open>simp add: split_runes.simps\<close>)
qed

lemma diacritics_ascii: "map_of diacritics r = Some a \<Longrightarrow> is_ascii a"
  by (auto simp: diacritics_def is_ascii_def split: if_splits)

lemma ascii_rune_ascii:
  assumes "r = [] \<or> (is_ascii (hd r) \<longrightarrow> length r = 1)"
  shows "list_all is_ascii (ascii_rune r)"
  using assms diacritics_ascii
  by (cases r) (auto simp: ascii_rune_def list_all_iff split: option.splits)

lemma transliterate_ascii: "list_all is_ascii (transliterate s)"
  using split_runes_member ascii_rune_ascii
  by (fastforce simp: transliterate_def list_all_iff)

lemma length_ascii_rune: "length (ascii_rune r) \<le> length r"
  by (auto simp: ascii_rune_def split: list.split option.split)

lemma concat_split_runes: "concat (split_runes s) = s"
proof (induction s rule: split_runes.induct)
  case (1 s)
  show ?case
  proof (cases s)
    case (Cons c cs)
    then show ?thesis using 1 by (subst split_runes.simps) (auto simp: append_take_drop_id)
  qed (simp add: split_runes.simps)
qed

lemma length_transliterate: "length (transliterate s) \<le> length s"
proof -
  have "length (concat (map ascii_rune rs)) \<le> length (concat rs)" for rs
    using length_ascii_rune by (induction rs) (simp_all add: add_mono)
  from this [of "split_runes s"] show ?thesis
    by (simp add: transliterate_def concat_split_runes)
qed

lemma transliterate_id: "list_all is_ascii s \<Longrightarrow> transliterate s = s"
proof (induction s)
  case (Cons c s)
  then show ?case by (simp add: transliterate_def split_runes_ascii ascii_rune_def)
qed (simp add: transliterate_def split_runes.simps)

text \<open>An ASCII byte is a boundary between runes, whatever precedes it.\<close>

lemma width_of_boundary:
  assumes "bs \<noteq> []" "c < 128"
  shows "width_of (bs @ c # cs) = width_of bs"
proof -
  obtain b0 rest where b: "bs = b0 # rest" using assms(1) by (cases bs) auto
  have nc: "\<not> cont_byte c" "\<not> second_ok b0 c" using assms(2)
    by (auto simp: cont_byte_def second_ok_def)
  show ?thesis
  proof (cases "seq_len b0 \<le> 1")
    case True
    then show ?thesis using b by (simp add: Let_def)
  next
    case False
    show ?thesis
    proof (cases rest)
      case Nil
      then show ?thesis using b nc False by (simp add: Let_def)
    next
      case (Cons b1 tl)
      let ?n = "seq_len b0 - 2"
      have "list_all cont_byte (take ?n (tl @ c # cs)) \<and> seq_len b0 - 1 \<le> length (rest @ c # cs) \<longleftrightarrow>
          list_all cont_byte (take ?n tl) \<and> seq_len b0 - 1 \<le> length rest"
      proof (cases "?n \<le> length tl")
        case True
        then show ?thesis using Cons False by auto
      next
        case outside: False
        then have "c \<in> set (take ?n (tl @ c # cs))"
          by (auto simp: take_Cons')
        then have "\<not> list_all cont_byte (take ?n (tl @ c # cs))"
          using nc(1) by (auto simp: list_all_iff simp del: take_append)
        moreover have "\<not> seq_len b0 - 1 \<le> length rest" using outside Cons False by simp
        ultimately show ?thesis by blast
      qed
      then show ?thesis using b Cons False
        by (simp add: Let_def del: take_append split del: if_split cong: conj_cong) (simp split: if_splits; blast)
    qed
  qed
qed

lemma rune_width_boundary:
  "s \<noteq> [] \<Longrightarrow> is_ascii c \<Longrightarrow> rune_width (s @ c # t) = rune_width s"
  using width_of_boundary [of "codes s" "of_char c" "codes t"]
  by (simp add: rune_width_def codes_def is_ascii_def)

lemma split_runes_boundary:
  "is_ascii c \<Longrightarrow> split_runes (s @ c # t) = split_runes s @ [c] # split_runes t"
proof (induction s rule: split_runes.induct)
  case (1 s)
  show ?case
  proof (cases s)
    case Nil
    then show ?thesis using 1(3) by (simp add: split_runes_ascii split_runes.simps [of "[]"])
  next
    case (Cons d ds)
    then have "s \<noteq> []" by simp
    then have w: "rune_width (s @ c # t) = rune_width s"
      using 1(3) by (rule rune_width_boundary)
    show ?thesis
    proof (cases "rune_width s = 0")
      case True
      with Cons 1 w show ?thesis
        by (subst split_runes.simps, subst (2) split_runes.simps) simp
    next
      case False
      have "take (rune_width s) (s @ c # t) = take (rune_width s) s"
        "drop (rune_width s) (s @ c # t) = drop (rune_width s) s @ c # t"
        using rune_width_le [of s] by simp_all
      with Cons 1 w False show ?thesis
        by (subst split_runes.simps, subst (2) split_runes.simps) simp
    qed
  qed
qed

lemma transliterate_boundary:
  "is_ascii c \<Longrightarrow> transliterate (s @ c # t) = transliterate s @ c # transliterate t"
  by (simp add: transliterate_def split_runes_boundary ascii_rune_def)

section \<open>The line limit\<close>

definition normal_text :: "string \<Rightarrow> string" where
  "normal_text s = join_with '' '' (words_from [] (transliterate s))"

lemma LimitMessageText_eq:
  "LimitMessageText text reserve =
     (let t = normal_text text; m = nat (max 10 (MaxMessageText - reserve)) in
      if length t \<le> m then t
      else trim_space
        (case last_index (CHR '' '') (take m t) of
           Some i \<Rightarrow> if i > m div 2 then take i t else take m t
         | None \<Rightarrow> take m t))"
  using fields_from_ascii [OF transliterate_ascii, of "[]" "text"]
  by (simp add: LimitMessageText_def normal_text_def Prelude.fields_def max_def Let_def)

definition air_char :: "char \<Rightarrow> bool" where
  "air_char c \<longleftrightarrow> is_ascii c \<and> (blank c \<longrightarrow> c = CHR '' '')"

lemma normal_text_air: "list_all air_char (normal_text s)"
proof -
  have "air_char c" if c: "c \<in> set x" and x: "x \<in> set (words_from [] (transliterate s))" for c x
    using words_from_word [OF x] transliterate_ascii [of s] c
    by (auto simp: air_char_def list_all_iff)
  then have "\<forall>c\<in>(\<Union>x\<in>set (words_from [] (transliterate s)). set x). air_char c" by auto
  moreover have "air_char (CHR '' '')" by (simp add: air_char_def is_ascii_def)
  ultimately show ?thesis
    using set_join [of "words_from [] (transliterate s)"] unfolding normal_text_def list_all_iff by blast
qed

lemma last_index_le: "last_index x s = Some i \<Longrightarrow> i < length s"
  by (induction s arbitrary: i) (auto split: option.splits if_splits)

lemma set_trim_by: "set (trim_by es s) \<subseteq> set s"
  by (metis set_drop_subset trim_by_drop)

lemma set_trim_space: "set (trim_space s) \<subseteq> set s"
  using set_trim_by [of space_runes s] set_trim_by [of "map rev space_runes" "rev (trim_by space_runes s)"]
  by (auto simp: trim_space_def)

lemma limit_text_fits:
  "length (LimitMessageText text reserve) \<le> nat (max 10 (67 - reserve)) \<and>
   list_all air_char (LimitMessageText text reserve)"
proof -
  let ?t = "normal_text text" and ?m = "nat (max 10 (MaxMessageText - reserve))"
  have cut: "length (trim_space (take i ?t)) \<le> ?m \<and> list_all air_char (trim_space (take i ?t))"
    if "i \<le> ?m" for i
    using that length_trim_space [of "take i ?t"] set_trim_space [of "take i ?t"] normal_text_air [of "text"]
      set_take_subset [of i ?t]
    by (auto simp: list_all_iff)
  show ?thesis
  proof (cases "length ?t \<le> ?m")
    case True
    then show ?thesis using normal_text_air
      by (simp add: LimitMessageText_eq Let_def MaxMessageText_def)
  next
    case False
    have "i \<le> ?m" if "last_index (CHR '' '') (take ?m ?t) = Some i" for i
      using last_index_le [OF that] by simp
    then show ?thesis using False cut
      by (auto simp: LimitMessageText_eq Let_def MaxMessageText_def split: option.splits)
  qed
qed

text \<open>
  outbound texts fit the medium.  Whatever UTF-8 or binary text is composed, what goes on the
  air is seven-bit, has no control or line-break white space and is at most 67 bytes minus the room
  that was reserved (ten at least).
\<close>

theorem limit_text_bounds:
  "length (LimitMessageText text reserve) \<le> nat (max 10 (67 - reserve)) \<and>
   list_all air_char (LimitMessageText text reserve)"
  by (rule limit_text_fits)

section \<open>Alerts\<close>

text \<open>A text that is already in the form in which it goes on the air.\<close>

definition clean_text :: "string \<Rightarrow> bool" where
  "clean_text h \<longleftrightarrow> list_all is_ascii h \<and> normal_text h = h \<and> h \<noteq> []"

lemma normal_text_sentence:
  "is_ascii c \<Longrightarrow> blank c \<Longrightarrow>
     normal_text (s @ c # h) =
       join_with '' '' (words_from [] (transliterate s) @ words_from [] (transliterate h))"
  by (simp add: normal_text_def transliterate_boundary words_from_append)

lemma join_append:
  "vs \<noteq> [] \<Longrightarrow> join_with '' '' (ws @ vs) = join_with '' '' ws @ (if ws = [] then [] else '' '') @ join_with '' '' vs"
proof (induction ws rule: induct_list012)
  case (2 x)
  then show ?case by (cases vs) auto
qed auto

lemma normal_text_suffix:
  assumes "clean_text h" "x = [] \<or> (\<exists>y. x = y @ '' '')"
  shows "suffix h (normal_text (x @ h))"
proof (cases "x = []")
  case True
  then show ?thesis using assms(1) by (simp add: clean_text_def)
next
  case False
  then obtain y where y: "x = y @ '' ''" using assms(2) by blast
  have "words_from [] (transliterate h) \<noteq> []"
    using assms(1) by (auto simp: clean_text_def normal_text_def)
  then have "suffix (normal_text h) (normal_text (y @ CHR '' '' # h))"
    by (simp add: normal_text_sentence is_ascii_def blank_def join_append)
      (simp add: normal_text_def suffix_def)
  then show ?thesis using y assms(1) by (simp add: clean_text_def)
qed

lemma alert_text_headline:
  assumes "trim_space h = h" "h \<noteq> []" "h \<noteq> '':''"
  shows "\<exists>x. alert_text (ps @ [h]) = x @ h \<and> (x = [] \<or> (\<exists>y. x = y @ '' ''))"
proof -
  let ?qs = "filter (\<lambda>p. trim_space p \<noteq> [] \<and> trim_space p \<noteq> '':'') ps"
  have "alert_text (ps @ [h]) = join_with '' '' (?qs @ [h])" using assms by (simp add: alert_text_def)
  also have "\<dots> = join_with '' '' ?qs @ (if ?qs = [] then [] else '' '') @ h" by (simp add: join_append)
  finally show ?thesis
    by (intro exI [of _ "join_with '' '' ?qs @ (if ?qs = [] then [] else '' '')"]) auto
qed

lemma words_hd_last:
  "normal_text h = h \<Longrightarrow> h \<noteq> [] \<Longrightarrow> \<not> blank (hd h) \<and> \<not> blank (last h)"
proof -
  assume h: "normal_text h = h" "h \<noteq> []"
  let ?ws = "words_from [] (transliterate h)"
  have ws: "\<forall>x\<in>set ?ws. x \<noteq> [] \<and> list_all (\<lambda>c. \<not> blank c) x"
    using words_from_word [of _ "[]" "transliterate h"] by auto
  have ne: "?ws \<noteq> []" using h by (auto simp: normal_text_def)
  have join: "join_with '' '' vs \<noteq> [] \<and> hd (join_with '' '' vs) = hd (hd vs) \<and>
      last (join_with '' '' vs) = last (last vs)"
    if "vs \<noteq> []" "\<forall>x\<in>set vs. x \<noteq> []" for vs
    using that by (induction vs rule: induct_list012) auto
  have "hd h = hd (hd ?ws)" "last h = last (last ?ws)"
    using join [OF ne] ws h(1) by (auto simp: normal_text_def)
  moreover have "\<not> blank (hd (hd ?ws))" "\<not> blank (last (last ?ws))"
    using ws hd_in_set [OF ne] last_in_set [OF ne] hd_in_set last_in_set by (metis list_all_iff)+
  ultimately show ?thesis by simp
qed

lemma trim_by_ascii:
  assumes "\<And>s c. is_ascii c \<Longrightarrow> match_len es (c # s) = (if blank c then 1 else 0)"
    and "h \<noteq> []" "is_ascii (hd h)" "\<not> blank (hd h)"
  shows "trim_by es h = h"
  using assms by (cases h) (simp_all add: trim_by_id)

lemma clean_trim: "clean_text h \<Longrightarrow> trim_space h = h"
proof -
  assume h: "clean_text h"
  then have ne: "h \<noteq> []" and asc: "list_all is_ascii h" and nb: "\<not> blank (hd h)" "\<not> blank (last h)"
    using words_hd_last by (auto simp: clean_text_def)
  have "is_ascii (hd h)" "is_ascii (last h)" using asc ne by (simp_all add: list_all_iff)
  then have "trim_by space_runes h = h" "trim_by (map rev space_runes) (rev h) = rev h"
    using ne nb by (auto intro!: trim_by_ascii match_len_ascii simp: hd_rev)
  then show ?thesis by (simp add: trim_space_def)
qed

text \<open>
  the headline comes first.  A headline that fits the line by itself is sent whole, at the end
  of the text, whatever prefix, severity and event name there are; those are left out when they do
  not fit beside it.
\<close>

theorem headline_kept:
  assumes "clean_text h" "h \<noteq> '':''" "int (length h) \<le> 67 - reserve" "reserve \<le> 57"
  shows "suffix h (BuildAlertMessage pfx severity event h reserve) \<and>
    int (length (BuildAlertMessage pfx severity event h reserve)) \<le> 67 - reserve"
proof -
  have ne: "h \<noteq> []" using assms(1) by (simp add: clean_text_def)
  have trim: "trim_space h = h" by (rule clean_trim [OF assms(1)])
  let ?fits = "\<lambda>t. t \<noteq> [] \<and> int (length t) \<le> MaxMessageText - reserve"
  let ?cs = "alert_candidates (trim_space pfx) (SeverityAbbrev severity) (trim_space event) h"
  have last: "\<exists>ps. c = ps @ [h]" if "c \<in> set ?cs" for c
    using that by (auto simp: alert_candidates_def)
  have "alert_text [h] = h" using trim ne assms(2) by (simp add: alert_text_def)
  then have "?fits (alert_text [h])" using assms(3) ne by (simp add: MaxMessageText_def)
  moreover have "alert_text [h] \<in> set (map alert_text ?cs)" by (simp add: alert_candidates_def)
  ultimately have "find ?fits (map alert_text ?cs) \<noteq> None"
    unfolding find_None_iff by blast
  then obtain t where t: "find ?fits (map alert_text ?cs) = Some t" by blast
  then have fits: "?fits t" and mem: "t \<in> set (map alert_text ?cs)"
    using find_SomeD by fast+
  obtain c where c: "t = alert_text c" "c \<in> set ?cs" using mem by auto
  obtain ps where "c = ps @ [h]" using last [OF c(2)] by blast
  then obtain x where x: "t = x @ h" "x = [] \<or> (\<exists>y. x = y @ '' '')"
    using alert_text_headline [OF trim ne assms(2)] c(1) by blast
  have trans: "length (normal_text s) \<le> length s" for s
    using length_join_words [of "transliterate s"] length_transliterate [of s] by (simp add: normal_text_def)
  have "length (normal_text t) \<le> nat (max 10 (MaxMessageText - reserve))"
    using trans [of t] fits by (simp add: MaxMessageText_def max_def) linarith
  then have "LimitMessageText t reserve = normal_text t" by (simp add: LimitMessageText_eq Let_def)
  moreover have "BuildAlertMessage pfx severity event h reserve = LimitMessageText t reserve"
    using t trim ne by (simp add: BuildAlertMessage_def Let_def)
  ultimately show ?thesis
    using normal_text_suffix [OF assms(1) x(2)] x(1) trans [of t] fits by (simp add: MaxMessageText_def)
qed

theorem headline_kept_witness:
  "suffix ''Flood'' (BuildAlertMessage ''WF'' ''severe'' ''Rain'' ''Flood'' 7) \<and>
    int (length (BuildAlertMessage ''WF'' ''severe'' ''Rain'' ''Flood'' 7)) \<le> 67 - 7"
proof (rule headline_kept)
  have "list_all is_ascii ''Flood''" by (simp add: is_ascii_def)
  moreover have "words_from [] ''Flood'' = [''Flood'']" by (simp add: blank_def)
  ultimately show "clean_text ''Flood''"
    by (simp add: clean_text_def normal_text_def transliterate_id)
qed simp_all

end
