(* ===== verification/Aprs_Parse.thy ===== *)
theory Aprs_Parse
  imports Aprs_Message Hazard_Event
begin

text \<open>
  The parser of APRS frames in TNC2 form (\<open>internal/aprs/parse.go\<close>).  A slice out of range is a
  panic; a frame is parsed to a packet or panics.  \<open>strconv.ParseFloat\<close> and the local time zone
  are parameters; other floating-point arithmetic is exact rational arithmetic here.
\<close>

record parse_env =
  pe_float :: "string \<Rightarrow> float64 option"
  pe_day :: "time \<Rightarrow> int"
  pe_local :: "int \<Rightarrow> int \<Rightarrow> int"

text \<open>
  \<open>pe_day\<close> numbers the local calendar day of a time from 1 January 1970; \<open>pe_local d s\<close> is the Unix
  time of second \<open>s\<close> of day \<open>d\<close> in \<open>time.Local\<close>.
\<close>

datatype aprs_kind =
  KindPosition | KindMessage | KindStatus | KindWeather | KindTelemetry | KindObject | KindQuery
| KindOther

record position =
  pos_lat :: float64
  pos_lon :: float64

record aprs_message =
  am_to :: string
  am_text :: string
  am_id :: string

record packet =
  pk_raw :: string
  pk_src :: string
  pk_dst :: string
  pk_path :: "string list"
  pk_kind :: aprs_kind
  pk_received_at :: int
  pk_timestamp :: "int option"
  pk_position :: "position option"
  pk_symbol_table :: char
  pk_symbol :: char
  pk_course :: int
  pk_speed :: float64
  pk_altitude :: "float64 option"
  pk_name :: string
  pk_comment :: string
  pk_status :: string
  pk_message :: "aprs_message option"
  pk_capable :: bool

datatype panic = SliceOutOfRange | IndexOutOfRange

definition slice :: "nat \<Rightarrow> nat \<Rightarrow> string \<Rightarrow> string" where
  "slice i j s = take (j - i) (drop i s)"

definition float_map :: "(rat \<Rightarrow> rat) \<Rightarrow> float64 \<Rightarrow> float64" where
  "float_map f x = (case x of Fin q \<Rightarrow> Fin (f q) | y \<Rightarrow> y)"

definition isDigits :: "string \<Rightarrow> bool" where
  "isDigits s \<longleftrightarrow> s \<noteq> [] \<and> list_all is_digit s"

text \<open>Base-91 digits; \<open>None\<close> for a byte outside them.\<close>

definition base91_digit :: "char \<Rightarrow> nat option" where
  "base91_digit c = (if 33 \<le> (of_char c :: nat) \<and> (of_char c :: nat) \<le> 123 then Some (of_char c - 33) else None)"

fun base91_from :: "nat \<Rightarrow> string \<Rightarrow> nat option" where
  "base91_from v [] = Some v"
| "base91_from v (c # cs) =
     (case base91_digit c of None \<Rightarrow> None | Some d \<Rightarrow> base91_from (v * 91 + d) cs)"

definition base91Value :: "string \<Rightarrow> nat option" where
  "base91Value s = base91_from 0 s"

section \<open>Positions\<close>

definition parseCoord :: "parse_env \<Rightarrow> string \<Rightarrow> nat \<Rightarrow> int \<Rightarrow> float64 option" where
  "parseCoord env field n bound =
     (if length field \<noteq> n + 6 then None
      else case (Atoi (take n field), pe_float env (slice n (n + 5) field)) of
        (Some deg, Some mins) \<Rightarrow>
          let hemi = field ! (n + 5); neg = (\<lambda>q. if hemi = CHR ''S'' \<or> hemi = CHR ''W'' then - q else q) in
          if hemi \<notin> set ''NSEW'' \<or> deg > bound then None
          else (case mins of
                  Fin q \<Rightarrow> if q < 0 \<or> q \<ge> 60 then None else Some (Fin (neg (of_int deg + q / 60)))
                | NaN \<Rightarrow> Some NaN
                | _ \<Rightarrow> None)
      | _ \<Rightarrow> None)"

text \<open>The course and speed block, then the altitude, then the comment.\<close>

definition course_block :: "string \<Rightarrow> bool" where
  "course_block ext \<longleftrightarrow>
     length ext \<ge> 7 \<and> isDigits (slice 0 3 ext) \<and> ext ! 3 = CHR ''/'' \<and> isDigits (slice 4 7 ext)"

definition parse_course :: "parse_env \<Rightarrow> packet \<Rightarrow> string \<Rightarrow> packet \<times> string" where
  "parse_course env p ext =
     (if course_block ext
      then (p\<lparr>pk_course := (case Atoi (slice 0 3 ext) of None \<Rightarrow> 0 | Some n \<Rightarrow> n),
              pk_speed := float_map (\<lambda>q. q * (1852 / 1000))
                (case pe_float env (slice 4 7 ext) of None \<Rightarrow> Fin 0 | Some x \<Rightarrow> x)\<rparr>, drop 7 ext)
      else (p, ext))"

definition parse_altitude :: "parse_env \<Rightarrow> packet \<Rightarrow> string \<Rightarrow> panic + packet \<times> string" where
  "parse_altitude env p ext =
     (if length ext \<ge> 7 \<and> take 3 ext = ''/A='' then
        if length ext < 9 then Inl SliceOutOfRange
        else Inr (case pe_float env (trim_space (slice 3 9 ext)) of
                    Some feet \<Rightarrow> p\<lparr>pk_altitude := Some (float_map (\<lambda>q. q * (3048 / 10000)) feet)\<rparr>
                  | None \<Rightarrow> p, drop 9 ext)
      else Inr (p, ext))"

definition parseExtensions :: "parse_env \<Rightarrow> packet \<Rightarrow> string \<Rightarrow> panic + packet" where
  "parseExtensions env p ext =
     (case parse_course env p ext of
        (p1, ext1) \<Rightarrow>
          and_then (parse_altitude env p1 ext1) (\<lambda>(p2, ext2).
          Inr (p2\<lparr>pk_comment := trim_space ext2\<rparr>)))"

definition parsePositionBody :: "parse_env \<Rightarrow> packet \<Rightarrow> string \<Rightarrow> bool \<Rightarrow> panic + packet" where
  "parsePositionBody env p0 body capable =
     (let p = p0\<lparr>pk_kind := KindPosition, pk_capable := capable\<rparr>;
          plain = Inr (p\<lparr>pk_comment := trim_space body\<rparr>) in
      if length body < 19 then plain
      else case (parseCoord env (slice 0 8 body) 2 90, parseCoord env (slice 9 18 body) 3 180) of
        (Some lat, Some lon) \<Rightarrow>
          if body ! 8 \<notin> set [CHR ''/'', CHR 0x5C, CHR ''D''] then plain
          else parseExtensions env
            (p\<lparr>pk_symbol_table := (if body ! 8 = CHR ''D'' then CHR ''/'' else body ! 8),
               pk_position := Some \<lparr>pos_lat = lat, pos_lon = lon\<rparr>, pk_symbol := body ! 18\<rparr>)
            (drop 19 body)
      | _ \<Rightarrow> plain)"

text \<open>A wall-clock time of the day of \<open>now\<close>, one day earlier when it is far in the future.\<close>

definition parseAPRSTime :: "parse_env \<Rightarrow> string \<Rightarrow> time \<Rightarrow> int option" where
  "parseAPRSTime env field now =
     (if length field \<noteq> 7 then None
      else case (Atoi (slice 0 2 field), Atoi (slice 2 4 field), Atoi (slice 4 6 field)) of
        (Some hh, Some mm, Some ss) \<Rightarrow>
          if hh > 23 \<or> mm > 59 \<or> ss > 59 then None
          else
            let s = hh * 3600 + mm * 60 + ss;
                on_day = (\<lambda>d. if field ! 6 = CHR ''/'' then pe_local env d s else d * 86400 + s);
                t = on_day (pe_day env now)
            in Some (if t * 1000000000 - now > 43200000000000 then on_day (pe_day env now - 1) else t)
      | _ \<Rightarrow> None)"

definition parseTimestamped :: "parse_env \<Rightarrow> packet \<Rightarrow> string \<Rightarrow> time \<Rightarrow> panic + packet" where
  "parseTimestamped env p info now =
     (if length info < 8 then Inr (p\<lparr>pk_comment := trim_space (drop 1 info)\<rparr>)
      else parsePositionBody env
        (case parseAPRSTime env (slice 1 8 info) now of
           Some ts \<Rightarrow> p\<lparr>pk_timestamp := Some ts\<rparr> | None \<Rightarrow> p)
        (drop 8 info) False)"

definition compressed_course :: "packet \<Rightarrow> string \<Rightarrow> packet \<times> string" where
  "compressed_course p ext =
     (if length ext \<ge> 2 \<and> ext ! 0 = CHR ''c'' then
        let d = int (of_char (ext ! 1)) - 33 in
        (if d \<ge> 0 \<and> d \<le> 89
         then p\<lparr>pk_speed := Fin (((108 / 100) ^ nat d - 1) * (160934 / 100000)),
                pk_course := (d * 4) mod 360\<rparr>
         else p, drop 2 ext)
      else (p, ext))"

definition base91_altitude :: "packet \<Rightarrow> string \<Rightarrow> packet \<times> string" where
  "base91_altitude p ext =
     (if length ext \<ge> 4 \<and> ext ! 3 = CHR ''}''
      then (case base91Value (slice 0 3 ext) of
              Some alt \<Rightarrow> p\<lparr>pk_altitude := Some (Fin (of_nat alt - 10000))\<rparr> | None \<Rightarrow> p, drop 4 ext)
      else (p, ext))"

definition parseCompressed :: "packet \<Rightarrow> string \<Rightarrow> packet" where
  "parseCompressed p0 info =
     (let p = p0\<lparr>pk_kind := KindPosition\<rparr> in
      if length info < 10 then p\<lparr>pk_comment := trim_space (drop 1 info)\<rparr>
      else case (base91Value (slice 1 5 info), base91Value (slice 5 9 info)) of
        (Some lat, Some lon) \<Rightarrow>
          (case compressed_course
                  (p\<lparr>pk_symbol_table := info ! 0, pk_symbol := info ! 9,
                     pk_position := Some \<lparr>pos_lat = Fin (90 - of_nat lat / 380926),
                                          pos_lon = Fin (- 180 + of_nat lon / 190463)\<rparr>\<rparr>)
                  (drop 10 info) of
             (p1, ext1) \<Rightarrow> (case base91_altitude p1 ext1 of
                (p2, ext2) \<Rightarrow> p2\<lparr>pk_comment := trim_space ext2\<rparr>))
      | _ \<Rightarrow> p\<lparr>pk_comment := trim_space (drop 1 info)\<rparr>)"

section \<open>Messages and objects\<close>

text \<open>A trailing message number, then the number of an acknowledgement or rejection.\<close>

definition message_number :: "aprs_message \<Rightarrow> aprs_message" where
  "message_number m =
     (case last_index (CHR ''{'') (am_text m) of
        Some i \<Rightarrow>
          if i > 0 \<and> isDigits (drop (Suc i) (am_text m))
          then m\<lparr>am_id := drop (Suc i) (am_text m), am_text := take i (am_text m)\<rparr> else m
      | None \<Rightarrow> m)"

definition ack_number :: "aprs_message \<Rightarrow> aprs_message" where
  "ack_number m =
     (if take 3 (am_text m) \<in> set [''ack'', ''rej''] \<and> isDigits (drop 3 (am_text m))
      then m\<lparr>am_id := drop 3 (am_text m)\<rparr> else m)"

definition parseMessage :: "packet \<Rightarrow> string \<Rightarrow> packet" where
  "parseMessage p info =
     (if length info < 11 then p\<lparr>pk_kind := KindMessage, pk_comment := trim_space (drop 1 info)\<rparr>
      else p\<lparr>pk_kind := KindMessage,
             pk_message := Some (ack_number (message_number
               \<lparr>am_to = NormalizeCallsign (slice 1 10 info), am_text = drop 11 info, am_id = []\<rparr>))\<rparr>)"

definition first_index :: "char \<Rightarrow> string \<Rightarrow> nat option" where
  "first_index x s = map_option (\<lambda>(a, _). length a) (cut_at x s)"

definition object_header :: "parse_env \<Rightarrow> packet \<Rightarrow> string \<Rightarrow> packet \<times> string" where
  "object_header env p body =
     (case first_index (CHR ''*'') body of
        Some i \<Rightarrow>
          if i \<le> 9 then
            let q = p\<lparr>pk_name := trim_space (take i body)\<rparr>; rest = drop (Suc i) body in
            if length rest \<ge> 7 then
              (case parseAPRSTime env (slice 0 7 rest) (pk_received_at p * 1000000000) of
                 Some ts \<Rightarrow> (q\<lparr>pk_timestamp := Some ts\<rparr>, drop 7 rest) | None \<Rightarrow> (q, rest))
            else (q, rest)
          else (p\<lparr>pk_name := body\<rparr>, body)
      | None \<Rightarrow> (p\<lparr>pk_name := body\<rparr>, body))"

definition parseObject :: "parse_env \<Rightarrow> packet \<Rightarrow> string \<Rightarrow> panic + packet" where
  "parseObject env p info =
     (case object_header env (p\<lparr>pk_kind := KindObject\<rparr>) (drop 1 info) of
        (q, body) \<Rightarrow>
          if body = [] then Inr q
          else if hd body = CHR ''_'' then Inr (q\<lparr>pk_comment := body\<rparr>)
          else if is_digit (hd body)
          then and_then (parsePositionBody env q body False) (\<lambda>r. Inr (r\<lparr>pk_kind := KindObject\<rparr>))
          else Inr (q\<lparr>pk_comment := trim_space body\<rparr>))"

section \<open>Mic-E\<close>

text \<open>The destination pattern \<open>^[0-9A-Z]{3}[0-9L-Z]{3}$\<close>.\<close>

definition mic_dst :: "string \<Rightarrow> bool" where
  "mic_dst s \<longleftrightarrow>
     length s = 6 \<and> list_all (\<lambda>c. is_digit c \<or> is_upper_ascii c) (take 3 s) \<and>
     list_all (\<lambda>c. is_digit c \<or> is_upper_ascii c \<and> c \<ge> CHR ''L'') (drop 3 s)"

definition mic_digit :: "char \<Rightarrow> char" where
  "mic_digit c =
     (if c \<in> set ''KLZ'' then CHR ''0''
      else if c > CHR ''L'' then char_of ((of_char c :: nat) - 32)
      else if c > CHR ''9'' then char_of ((of_char c :: nat) - 17)
      else c)"

definition mic_latitude :: "parse_env \<Rightarrow> string \<Rightarrow> float64 option" where
  "mic_latitude env dst =
     (let s = map mic_digit dst in
      case (Atoi (slice 0 2 s), pe_float env (slice 2 4 s @ ''.'' @ slice 4 6 s)) of
        (Some deg, Some mins) \<Rightarrow>
          Some (float_map (\<lambda>q. (if dst ! 3 \<le> CHR ''L'' then -1 else 1) * (of_int deg + q / 60)) mins)
      | _ \<Rightarrow> None)"

definition byte_rat :: "char \<Rightarrow> rat" where
  "byte_rat c = of_nat (of_char c)"

definition mic_longitude :: "string \<Rightarrow> string \<Rightarrow> rat" where
  "mic_longitude dst body =
     (let l0 = byte_rat (body ! 0) - 28;
          l1 = (if dst ! 4 \<ge> CHR ''P'' then l0 + 100 else l0);
          l2 = (if l1 \<ge> 180 \<and> l1 \<le> 189 then l1 - 80 else l1);
          l3 = (if l2 \<ge> 190 \<and> l2 \<le> 199 then l2 - 190 else l2);
          m0 = byte_rat (body ! 1) - 28;
          m1 = (if m0 \<ge> 60 then m0 - 60 else m0) + (byte_rat (body ! 2) - 28) / 100;
          l4 = l3 + m1 / 60
      in if dst ! 5 \<ge> CHR ''P'' then - l4 else l4)"

text \<open>
  Speed and course: \<open>int(course)/10\<close> truncates toward zero, and so does the final \<open>int(course)\<close>
  of what is an integer here.
\<close>

definition mic_speed_course :: "string \<Rightarrow> rat \<times> int" where
  "mic_speed_course body =
     (let c0 = int (of_char (body ! 4)) - 28;
          q = (if c0 < 0 then - (- c0 div 10) else c0 div 10);
          sp = (int (of_char (body ! 3)) - 28) * 10 + q;
          co = (c0 - q * 10) * 100 + int (of_char (body ! 5)) - 28
      in (of_int (if sp \<ge> 800 then sp - 800 else sp) * (1852 / 1000),
          if co \<ge> 400 then co - 400 else co))"

definition mic_bit :: "char \<Rightarrow> char" where
  "mic_bit c =
     (if is_digit c \<or> c = CHR ''L'' then CHR ''0''
      else if c \<ge> CHR ''P'' \<and> c \<le> CHR ''Z'' then CHR ''1'' else CHR ''2'')"

definition micETypeStd :: "(string \<times> string) list" where
  "micETypeStd =
     [(''111'', ''M0: Off Duty''), (''110'', ''M1: En Route''), (''101'', ''M2: In Service''),
      (''100'', ''M3: Returning''), (''011'', ''M4: Committed''), (''010'', ''M5: Special''),
      (''001'', ''M6: Priority''), (''000'', ''Emergency'')]"

definition micETypeCustom :: "(string \<times> string) list" where
  "micETypeCustom =
     [(''111'', ''C0: Custom-0''), (''110'', ''C1: Custom-1''), (''101'', ''C2: Custom-2''),
      (''100'', ''C3: Custom-3''), (''011'', ''C4: Custom-4''), (''010'', ''C5: Custom-5''),
      (''001'', ''C6: Custom-6''), (''000'', ''Emergency'')]"

definition mic_type :: "string \<Rightarrow> string" where
  "mic_type dst =
     (let bits = map mic_bit (take 3 dst) in
      case (if CHR ''2'' \<in> set bits
            then map_of micETypeCustom (map (\<lambda>c. if c = CHR ''2'' then CHR ''1'' else c) bits)
            else map_of micETypeStd bits) of
        Some t \<Rightarrow> t | None \<Rightarrow> [])"

definition parseMicE :: "packet \<Rightarrow> parse_env \<Rightarrow> string \<Rightarrow> packet" where
  "parseMicE p0 env info =
     (let p = p0\<lparr>pk_kind := KindPosition, pk_capable := (info ! 0 = CHR 0x60)\<rparr>;
          body = drop 1 info; dst = to_upper (pk_dst p0) in
      if length body < 8 \<or> \<not> mic_dst dst then p
      else
        let lat = (case mic_latitude env dst of Some x \<Rightarrow> x | None \<Rightarrow> Fin 0);
            (sp, co) = mic_speed_course body;
            p1 = p\<lparr>pk_position := Some \<lparr>pos_lat = lat, pos_lon = Fin (mic_longitude dst body)\<rparr>,
                   pk_speed := Fin sp, pk_course := co, pk_symbol := body ! 6,
                   pk_symbol_table := body ! 7, pk_comment := mic_type dst\<rparr>;
            (p2, rest) = base91_altitude p1 (drop 8 body);
            extra = trim_space rest
        in if extra = [] then p2
           else p2\<lparr>pk_comment := (if pk_comment p2 \<noteq> [] then pk_comment p2 @ '' '' @ extra else extra)\<rparr>)"

section \<open>Frames\<close>

definition maxLineBytes :: nat where "maxLineBytes = 1024"

definition blank_packet :: "string \<Rightarrow> time \<Rightarrow> packet" where
  "blank_packet raw now =
     \<lparr> pk_raw = raw, pk_src = [], pk_dst = [], pk_path = [], pk_kind = KindOther,
       pk_received_at = now div 1000000000, pk_timestamp = None, pk_position = None,
       pk_symbol_table = CHR 0x00, pk_symbol = CHR 0x00, pk_course = 0, pk_speed = Fin 0,
       pk_altitude = None, pk_name = [], pk_comment = [], pk_status = [], pk_message = None,
       pk_capable = False \<rparr>"

definition hemisphere_marks :: "string \<Rightarrow> bool" where
  "hemisphere_marks info \<longleftrightarrow>
     length info > 18 \<and> info ! 9 \<in> set ''NS'' \<and> info ! 18 \<in> set ''EW''"

text \<open>The switch on the first byte of the information field; 0x5C is the backslash.\<close>

definition parseInfo :: "parse_env \<Rightarrow> packet \<Rightarrow> string \<Rightarrow> time \<Rightarrow> panic + packet" where
  "parseInfo env p info now =
     (let c = hd info; note = Inr (p\<lparr>pk_comment := trim_space info\<rparr>); rest = trim_space (drop 1 info) in
      if c = CHR ''!'' \<or> c = CHR ''='' then
        if length info > 1 \<and> info ! 1 \<in> set [CHR ''/'', CHR 0x5C]
        then Inr ((parseCompressed p (drop 1 info))\<lparr>pk_capable := (c = CHR ''='')\<rparr>)
        else parsePositionBody env p (drop 1 info) (c = CHR ''='')
      else if c = CHR ''/'' \<or> c = CHR 0x5C then
        if hemisphere_marks info then parsePositionBody env p (drop 1 info) False
        else Inr (parseCompressed p info)
      else if c = CHR ''@'' then parseTimestamped env p info now
      else if c = CHR '':'' then Inr (parseMessage p info)
      else if c = CHR ''>'' then Inr (p\<lparr>pk_kind := KindStatus, pk_status := rest\<rparr>)
      else if c = CHR '';'' \<or> c = CHR '')'' then parseObject env p info
      else if c = CHR ''_'' then Inr (p\<lparr>pk_kind := KindWeather, pk_comment := rest\<rparr>)
      else if c = CHR 0x60 \<or> c = CHR 0x27 then Inr (parseMicE p env info)
      else if c = CHR ''T'' then Inr (p\<lparr>pk_kind := KindTelemetry, pk_comment := rest\<rparr>)
      else if c = CHR ''?'' then Inr (p\<lparr>pk_kind := KindQuery, pk_comment := rest\<rparr>)
      else note)"

text \<open>The header ends at the first colon, which must follow the first angle bracket.\<close>

definition ParseFeedLine :: "parse_env \<Rightarrow> string \<Rightarrow> time \<Rightarrow> panic + packet" where
  "ParseFeedLine env line now =
     (let raw = take maxLineBytes (trim_right [CHR 0x0D, CHR 0x0A] line); p = blank_packet raw now in
      case (first_index (CHR ''>'') raw, first_index (CHR '':'') raw) of
        (Some gt, Some colon) \<Rightarrow>
          if gt = 0 \<or> colon < gt then Inr p
          else
            let parts = split_on (CHR '','') (slice (Suc gt) colon raw);
                q = p\<lparr>pk_src := NormalizeCallsign (take gt raw), pk_dst := hd parts, pk_path := tl parts\<rparr>;
                info = drop (Suc colon) raw
            in if info = [] then Inr q else parseInfo env q info now
      | _ \<Rightarrow> Inr p)"

end
