(* ===== verification/Aprs_Receive.thy ===== *)
theory Aprs_Receive
  imports Aprs_Parse Aprs_Link Aprs_Text
begin

text \<open>
  What the frame parser makes of a line: the messages the program sends are read back, positions
  are bounded, and the frames on which parser and comments disagree.
\<close>

section \<open>The header of a line\<close>

definition feed_line :: "string \<Rightarrow> string \<Rightarrow> string list \<Rightarrow> string \<Rightarrow> string" where
  "feed_line src dst path info = src @ ''>'' @ join_with '','' (dst # path) @ '':'' @ info"

definition header_ok :: "string \<Rightarrow> string \<Rightarrow> string list \<Rightarrow> bool" where
  "header_ok src dst path \<longleftrightarrow>
     src \<noteq> [] \<and> NormalizeCallsign src = src \<and> CHR ''>'' \<notin> set src \<and> CHR '':'' \<notin> set src \<and>
     (\<forall>w\<in>set (dst # path). CHR '':'' \<notin> set w \<and> CHR '','' \<notin> set w)"

lemma set_join_chars: "set (join_with '','' ws) \<subseteq> insert (CHR '','') (\<Union>x\<in>set ws. set x)"
  by (induction ws rule: induct_list012) auto

lemma first_index_append: "x \<notin> set a \<Longrightarrow> first_index x (a @ x # b) = Some (length a)"
  by (simp add: first_index_def)

lemma parse_feed_line:
  assumes "header_ok src dst path" "info \<noteq> []" "last info \<notin> {CHR 0x0D, CHR 0x0A}"
    and "length (feed_line src dst path info) \<le> 1024"
  shows "ParseFeedLine env (feed_line src dst path info) now =
    parseInfo env ((blank_packet (feed_line src dst path info) now)
      \<lparr>pk_src := src, pk_dst := dst, pk_path := path\<rparr>) info now"
proof -
  let ?l = "feed_line src dst path info" and ?h = "join_with '','' (dst # path)"
  have "last ?l = last info" using assms(2) by (simp add: feed_line_def)
  then have "trim_right [CHR 0x0D, CHR 0x0A] ?l = ?l"
    using assms(3) by (intro trim_right_id) auto
  then have raw: "take maxLineBytes (trim_right [CHR 0x0D, CHR 0x0A] ?l) = ?l"
    using assms(4) by (simp add: maxLineBytes_def)
  have h: "CHR '':'' \<notin> set ?h"
    using assms(1) set_join_chars [of "dst # path"] by (auto simp: header_ok_def)
  have gt: "first_index (CHR ''>'') ?l = Some (length src)"
    using assms(1) by (simp add: feed_line_def header_ok_def first_index_append)
  have l: "?l = (src @ ''>'' @ ?h) @ CHR '':'' # info" by (simp add: feed_line_def)
  have "CHR '':'' \<notin> set (src @ ''>'' @ ?h)" using assms(1) h by (simp add: header_ok_def)
  then have colon: "first_index (CHR '':'') ?l = Some (length (src @ ''>'' @ ?h))"
    unfolding l by (rule first_index_append)
  have parts: "split_on (CHR '','') (slice (Suc (length src)) (length (src @ ''>'' @ ?h)) ?l) = dst # path"
  proof -
    have "slice (Suc (length src)) (length (src @ ''>'' @ ?h)) ?l = ?h"
      by (simp add: slice_def feed_line_def)
    then show ?thesis using assms(1) by (auto simp: header_ok_def intro!: split_join)
  qed
  have rest: "take (length src) ?l = src" "drop (Suc (length (src @ ''>'' @ ?h))) ?l = info"
    by (simp_all add: feed_line_def)
  show ?thesis
    using assms(1,2) by (simp only: ParseFeedLine_def Let_def raw gt colon parts rest option.case prod.case)
      (simp add: header_ok_def)
qed

section \<open>Messages\<close>

lemma pad_field_wire:
  assumes "wire_callsign c"
  shows "pad_field 9 c = c @ replicate (9 - length c) (CHR '' '')" "length c \<le> 9"
proof -
  have "list_all is_ascii c"
    using wire_callsign_chars [OF assms] callsign_char_range(3) by (auto simp: list_all_iff is_ascii_def)
  then have "length (split_runes c) = length c"
  proof (induction c)
    case (Cons x xs)
    then show ?case by (simp add: split_runes_ascii)
  qed (simp add: split_runes.simps)
  then show "pad_field 9 c = c @ replicate (9 - length c) (CHR '' '')" by (simp add: pad_field_def)
  have "length (dec_nat n) \<le> 2" if "n \<le> 15" for n
  proof -
    have "n div 10 < 10" using that by linarith
    then show ?thesis by (subst dec_nat.simps, subst dec_nat.simps) simp
  qed
  then show "length c \<le> 9" using assms by (force simp: wire_callsign_def)
qed

lemma normalize_padded:
  assumes "wire_callsign c"
  shows "NormalizeCallsign (c @ replicate k (CHR '' '')) = c"
proof -
  have air: "is_ascii x \<and> \<not> blank x" if "x \<in> set c" for x
    using wire_callsign_chars [OF assms that]
    by (auto simp: is_ascii_def blank_def callsign_char_def is_upper_ascii_def is_digit_def byte_range_def)
  have ne: "c \<noteq> []" by (rule wire_callsign_nonempty [OF assms])
  have ends: "is_ascii (hd c)" "\<not> blank (hd c)" "is_ascii (last c)" "\<not> blank (last c)"
    using air hd_in_set [OF ne] last_in_set [OF ne] by blast+
  have left: "trim_by space_runes (c @ replicate k (CHR '' '')) = c @ replicate k (CHR '' '')"
    using ne ends by (intro trim_by_ascii match_len_ascii) simp_all
  have "trim_by (map rev space_runes) (replicate j (CHR '' '') @ rev c) = rev c" for j
  proof (induction j)
    case 0
    have "trim_by (map rev space_runes) (rev c) = rev c"
      using ne ends by (intro trim_by_ascii match_len_ascii) (simp_all add: hd_rev)
    then show ?case by simp
  next
    case (Suc j)
    have "match_len (map rev space_runes) (CHR '' '' # replicate j (CHR '' '') @ rev c) = 1"
      by (simp add: match_len_ascii is_ascii_def blank_space)
    then show ?case using Suc by (subst trim_by.simps) simp
  qed
  then have "trim_space (c @ replicate k (CHR '' '')) = c"
    using left by (simp add: trim_space_def)
  then show ?thesis
    using normalize_wire_callsign [OF assms] trim_space_idem [of "c @ replicate k (CHR '' '')"]
    by (simp add: NormalizeCallsign_def)
qed

lemma EncodeMessageLine_feed:
  assumes "wire_callsign src" "wire_callsign to"
  shows "EncodeMessageLine src to body =
    feed_line src ''APRS'' [''TCPIP*''] ('':'' @ pad_field 9 to @ '':'' @ body)"
  using normalize_wire_callsign assms by (simp add: EncodeMessageLine_def feed_line_def)

lemma wire_header:
  assumes "wire_callsign src"
  shows "header_ok src ''APRS'' [''TCPIP*'']"
proof -
  have "CHR ''>'' \<notin> set src" "CHR '':'' \<notin> set src"
    using wire_callsign_chars [OF assms, of "CHR ''>''"] wire_callsign_chars [OF assms, of "CHR '':''"]
    by (auto simp: callsign_char_def is_upper_ascii_def is_digit_def byte_range_def)
  then show ?thesis
    using wire_callsign_nonempty [OF assms] normalize_wire_callsign [OF assms]
    by (simp add: header_ok_def)
qed

lemma parse_sent_line:
  assumes "wire_callsign src" "wire_callsign to" "body \<noteq> []" "length body \<le> 900"
    and "last body \<notin> {CHR 0x0D, CHR 0x0A}"
  shows "\<exists>p. ParseFeedLine env (EncodeMessageLine src to body) now = Inr p \<and> pk_src p = src \<and>
    pk_kind p = KindMessage \<and> pk_path p = [''TCPIP*''] \<and>
    pk_message p = Some (ack_number (message_number \<lparr>am_to = to, am_text = body, am_id = []\<rparr>))"
proof -
  let ?info = "'':'' @ pad_field 9 to @ '':'' @ body"
  have pad: "length (pad_field 9 to) = 9" using pad_field_wire [OF assms(2)] by simp
  have src: "length src \<le> 9" by (rule pad_field_wire(2) [OF assms(1)])
  have len: "length (feed_line src ''APRS'' [''TCPIP*''] ?info) \<le> 1024"
    using src pad assms(4) by (simp add: feed_line_def)
  have "ParseFeedLine env (EncodeMessageLine src to body) now =
      parseInfo env ((blank_packet (feed_line src ''APRS'' [''TCPIP*''] ?info) now)
        \<lparr>pk_src := src, pk_dst := ''APRS'', pk_path := [''TCPIP*'']\<rparr>) ?info now"
    unfolding EncodeMessageLine_feed [OF assms(1,2)]
    by (rule parse_feed_line [OF wire_header [OF assms(1)] _ _ len]) (use assms(3,5) in auto)
  moreover have "slice 1 10 ?info = pad_field 9 to" "drop 11 ?info = body"
    using pad by (simp_all add: slice_def)
  moreover have "NormalizeCallsign (pad_field 9 to) = to"
    using normalize_padded [OF assms(2)] pad_field_wire(1) [OF assms(2)] by simp
  ultimately show ?thesis
    using pad assms(3) by (simp add: parseInfo_def parseMessage_def Let_def)
qed

lemma last_index_None: "x \<notin> set s \<Longrightarrow> last_index x s = None"
  by (induction s) auto

lemma last_index_append: "x \<notin> set t \<Longrightarrow> last_index x (s @ x # t) = Some (length s)"
  by (induction s) (auto simp: last_index_None)

lemma number_free:
  "list_all is_digit i \<Longrightarrow> CHR ''{'' \<notin> set i \<and> CHR 0x0D \<notin> set i \<and> CHR 0x0A \<notin> set i"
  by (auto simp: list_all_iff is_digit_def byte_range_def)

text \<open>
  messages survive the trip.  A line the program injects into APRS-IS is parsed, by any
  instance and at any time, as a message from its sender to its addressee with the same text and no
  number, unless the text ends like a numbered message or looks like an acknowledgement.
\<close>

theorem message_line_roundtrip:
  assumes "wire_callsign src" "wire_callsign to" "body \<noteq> []" "length body \<le> 900"
    and "last body \<notin> {CHR 0x0D, CHR 0x0A}" "CHR ''{'' \<notin> set body"
    and "take 3 body \<notin> {''ack'', ''rej''}"
  shows "\<exists>p. ParseFeedLine env (EncodeMessageLine src to body) now = Inr p \<and> pk_src p = src \<and>
    pk_kind p = KindMessage \<and> pk_path p = [''TCPIP*''] \<and>
    pk_message p = Some \<lparr>am_to = to, am_text = body, am_id = []\<rparr>"
  using parse_sent_line [OF assms(1-5)] assms(6,7)
  by (simp add: message_number_def ack_number_def last_index_None)

text \<open>
  acknowledgements are recognised, the program's own message numbers are not.  The hub ends a
  numbered message with the number in braces, and the parser accepts a number only without the
  closing brace: the receiver finds no number and shows the braces as text, so it cannot
  acknowledge.  A reply with the number after \<open>ack\<close> is read as the acknowledgement of it.
\<close>

theorem own_number_unread:
  assumes "wire_callsign src" "wire_callsign to" "body \<noteq> []" "length body \<le> 60"
    and "take 3 body \<notin> {''ack'', ''rej''}" "length body \<ge> 3" "isDigits i" "length i = 5"
  shows "(\<exists>p. ParseFeedLine env (EncodeMessageLine src to (body @ ''{'' @ i @ ''}'')) now = Inr p \<and>
      pk_message p = Some \<lparr>am_to = to, am_text = body @ ''{'' @ i @ ''}'', am_id = []\<rparr>) \<and>
    (\<exists>p. ParseFeedLine env (EncodeMessageLine to src (''ack'' @ i)) now = Inr p \<and>
      pk_message p = Some \<lparr>am_to = src, am_text = ''ack'' @ i, am_id = i\<rparr>)"
proof -
  have i: "list_all is_digit i" "i \<noteq> []" using assms(7) by (simp_all add: isDigits_def)
  note free = number_free [OF i(1)]
  let ?m = "body @ CHR ''{'' # (i @ ''}'')"
  have "last_index (CHR ''{'') ?m = Some (length body)"
    by (rule last_index_append) (use free in simp)
  moreover have "\<not> isDigits (i @ ''}'')"
    by (simp add: isDigits_def is_digit_def byte_range_def)
  ultimately have "message_number \<lparr>am_to = to, am_text = ?m, am_id = []\<rparr> =
      \<lparr>am_to = to, am_text = ?m, am_id = []\<rparr>"
    by (simp add: message_number_def)
  moreover have "take 3 ?m = take 3 body" using assms(6) by simp
  ultimately have m: "ack_number (message_number \<lparr>am_to = to, am_text = ?m, am_id = []\<rparr>) =
      \<lparr>am_to = to, am_text = ?m, am_id = []\<rparr>"
    using assms(5) by (simp add: ack_number_def del: take_append)
  have a: "ack_number (message_number \<lparr>am_to = src, am_text = ''ack'' @ i, am_id = []\<rparr>) =
      \<lparr>am_to = src, am_text = ''ack'' @ i, am_id = i\<rparr>"
    using free assms(7) by (simp add: message_number_def ack_number_def last_index_None)
  have "last (''ack'' @ i) = last i" using i(2) by simp
  moreover have "last i \<in> set i" by (rule last_in_set [OF i(2)])
  ultimately have l: "last (''ack'' @ i) \<notin> {CHR 0x0D, CHR 0x0A}" using free by auto
  show ?thesis
    using parse_sent_line [OF assms(1,2), of ?m env now] m parse_sent_line [OF assms(2,1) _ _ l, of env now] a
      assms(4,8) by auto
qed

section \<open>Positions\<close>

lemma parse_position_extensions:
  assumes "length body = 19" "parseCoord env (slice 0 8 body) 2 90 = Some lat"
    and "parseCoord env (slice 9 18 body) 3 180 = Some lon" "body ! 8 \<in> set [CHR ''/'', CHR 0x5C, CHR ''D'']"
  shows "\<exists>q. parsePositionBody env p (body @ ext) cap = parseExtensions env q ext"
proof -
  have s: "slice 0 8 (body @ ext) = slice 0 8 body" "slice 9 18 (body @ ext) = slice 9 18 body"
    "(body @ ext) ! 8 = body ! 8" "drop 19 (body @ ext) = ext"
    using assms(1) by (simp_all add: slice_def nth_append)
  show ?thesis
    using assms s by (auto simp: parsePositionBody_def Let_def simp del: set_simps)
qed

text \<open>
  a position report can crash the receiver.  The altitude block is recognised from seven bytes
  on but nine are sliced: a frame whose report ends in \<open>/A=\<close> and four or five more bytes makes the
  parser panic, whoever sent it.
\<close>

theorem short_altitude_panics:
  assumes "header_ok src dst path" "length body = 19"
    and "parseCoord env (slice 0 8 body) 2 90 = Some lat"
    and "parseCoord env (slice 9 18 body) 3 180 = Some lon"
    and "body ! 8 \<in> set [CHR ''/'', CHR 0x5C, CHR ''D'']" "hd body \<notin> set [CHR ''/'', CHR 0x5C]"
    and "ext = ''/A='' @ digits" "length digits \<in> {4, 5}" "last digits \<notin> {CHR 0x0D, CHR 0x0A}"
    and "length (feed_line src dst path (''!'' @ body @ ext)) \<le> 1024"
  shows "ParseFeedLine env (feed_line src dst path (''!'' @ body @ ext)) now = Inl SliceOutOfRange"
proof -
  let ?info = "''!'' @ body @ ext"
  have d: "digits \<noteq> []" using assms(8) by auto
  have l: "last ?info \<notin> {CHR 0x0D, CHR 0x0A}" using assms(7,9) d by simp
  obtain q where q: "\<And>p. \<exists>q. parsePositionBody env p (body @ ext) False = parseExtensions env q ext"
    using parse_position_extensions [OF assms(2-5)] by blast
  have "\<not> course_block ext"
    using assms(7) by (simp add: course_block_def isDigits_def slice_def is_digit_def byte_range_def)
  then have panic: "parseExtensions env r ext = Inl SliceOutOfRange" for r
    using assms(7,8) by (auto simp: parseExtensions_def parse_course_def parse_altitude_def)
  have first: "(body @ ext) ! 0 = hd body"
    using assms(2) by (cases body) auto
  have "parseInfo env p ?info now = parsePositionBody env p (body @ ext) False" for p
    using assms(2,6) first by (simp add: parseInfo_def Let_def)
  then have "parseInfo env p ?info now = Inl SliceOutOfRange" for p
    using q panic by metis
  then show ?thesis using parse_feed_line [OF assms(1) _ l assms(10)] by simp
qed

text \<open>
  the branch for frames that begin with a symbol table does not do what its comment says.
  When the hemisphere letters stand where it looks for them, no position is decoded; and a regular
  uncompressed position is handed to the base-91 decoder.
\<close>

theorem slash_position_lost:
  assumes "hemisphere_marks info" "hd info \<in> set [CHR ''/'', CHR 0x5C]"
  shows "parseInfo env p info now =
      Inr (p\<lparr>pk_kind := KindPosition, pk_capable := False, pk_comment := trim_space (drop 1 info)\<rparr>) \<and>
    (\<exists>r. parseInfo env p ''/4903.50N/01934.56E-'' now = Inr r \<and>
       pk_position r = Some \<lparr>pos_lat = Fin (90 - 14517976 / 380926),
                             pos_lon = Fin (- 180 + 9963453 / 190463)\<rparr>)"
proof
  have len: "length info > 18" "info ! 9 = CHR ''N'' \<or> info ! 9 = CHR ''S''"
    using assms(1) by (auto simp: hemisphere_marks_def)
  have "(drop 1 info) ! 8 = info ! 9" using len(1) by simp
  then have "(drop 1 info) ! 8 \<notin> set [CHR ''/'', CHR 0x5C, CHR ''D'']" using len(2) by auto
  then have "parsePositionBody env p (drop 1 info) False =
      Inr (p\<lparr>pk_kind := KindPosition, pk_capable := False, pk_comment := trim_space (drop 1 info)\<rparr>)"
    by (auto simp: parsePositionBody_def Let_def split: option.split)
  then show "parseInfo env p info now =
      Inr (p\<lparr>pk_kind := KindPosition, pk_capable := False, pk_comment := trim_space (drop 1 info)\<rparr>)"
    using assms by (auto simp: parseInfo_def Let_def)
  let ?i = "''/4903.50N/01934.56E-''"
  have v: "base91Value (slice 1 5 ?i) = Some 14517976" "base91Value (slice 5 9 ?i) = Some 9963453"
    by (simp_all add: base91Value_def slice_def base91_digit_def)
  have "parseInfo env p ?i now = Inr (parseCompressed p ?i)"
    by (simp add: parseInfo_def hemisphere_marks_def Let_def)
  moreover have "pk_position (parseCompressed p ?i) =
      Some \<lparr>pos_lat = Fin (90 - 14517976 / 380926), pos_lon = Fin (- 180 + 9963453 / 190463)\<rparr>"
    using v by (simp add: parseCompressed_def compressed_course_def base91_altitude_def Let_def)
  ultimately show "\<exists>r. parseInfo env p ?i now = Inr r \<and> pk_position r =
      Some \<lparr>pos_lat = Fin (90 - 14517976 / 380926), pos_lon = Fin (- 180 + 9963453 / 190463)\<rparr>"
    by blast
qed

lemma digits_value_snoc: "digits_value (s @ [c]) = 10 * digits_value s + digit_value c"
  by (simp add: digits_value_def)

lemma digits_value_bound: "list_all is_digit s \<Longrightarrow> digits_value s < 10 ^ length s"
proof (induction s rule: rev_induct)
  case (snoc c s)
  have d: "digit_value c < 10"
    using snoc.prems by (auto simp: is_digit_def byte_range_def digit_value_def)
  have "digits_value s + 1 \<le> 10 ^ length s" using snoc by simp
  then have "10 * digits_value s + 10 \<le> 10 * 10 ^ length s" by linarith
  with d show ?case by (simp only: digits_value_snoc length_append_singleton power_Suc)
qed (simp add: digits_value_def)

lemma Atoi_lower:
  assumes "Atoi s = Some v" "length s \<le> Suc k"
  shows "- (10 ^ k) < v"
proof -
  obtain c cs where s: "s = c # cs" using assms(1) by (cases s) (simp_all add: Atoi_def)
  show ?thesis
  proof (cases "v < 0")
    case True
    with assms(1) s have c: "c = CHR ''-''" and v: "\<exists>n. atoi_digits cs = Some n \<and> v = - int n"
      by (auto simp: Atoi_def Let_def split: if_splits option.splits)
    then obtain n where n: "list_all is_digit cs" "v = - int (digits_value cs)"
      by (auto simp: atoi_digits_def split: if_splits)
    have "digits_value cs < 10 ^ length cs" by (rule digits_value_bound [OF n(1)])
    also have "\<dots> \<le> 10 ^ k" using assms(2) s by (intro power_increasing) auto
    finally have "int (digits_value cs) < int (10 ^ k)" by (simp only: of_nat_less_iff)
    then have "int (digits_value cs) < 10 ^ k" by (simp only: of_nat_power of_nat_numeral)
    with n(2) show ?thesis by linarith
  qed (use zero_less_power [of "10::int" k] in linarith)
qed

text \<open>
  coordinates stay within one degree of the limits, and no closer: minutes are added after the
  degrees have been compared, so 90 degrees 30 minutes north is accepted as a latitude.
\<close>

theorem coordinate_bounds:
  assumes "parseCoord env field n bound = Some (Fin v)" "n \<in> {2, 3}" "99 \<le> bound \<or> n = 2 \<and> 9 \<le> bound"
  shows "\<bar>v\<bar> < of_int bound + 1 \<and>
    (pe_float env ''30.00'' = Some (Fin 30) \<longrightarrow>
      parseCoord env ''9030.00N'' 2 90 = Some (Fin (181 / 2)))"
proof
  obtain deg x where d: "Atoi (take n field) = Some deg" "pe_float env (slice n (n + 5) field) = Some x"
    using assms(1) by (auto simp: parseCoord_def split: if_splits option.splits)
  then obtain q where q: "x = Fin q" "deg \<le> bound" "0 \<le> q" "q < 60"
    using assms(1) by (auto simp: parseCoord_def Let_def split: if_splits float64.splits)
  have v: "v = of_int deg + q / 60 \<or> v = - (of_int deg + q / 60)"
    using assms(1) d q by (auto simp: parseCoord_def Let_def split: if_splits)
  have "length (take n field) \<le> Suc (n - 1)" by simp
  from Atoi_lower [OF d(1) this] have "- (10 ^ (n - 1)) < deg" .
  then have "- bound \<le> deg" using assms(2,3) by auto
  then have "- of_int bound \<le> (of_int deg :: rat)" by (metis of_int_le_iff of_int_minus)
  moreover have "(of_int deg :: rat) \<le> of_int bound" using q(2) by simp
  ultimately show "\<bar>v\<bar> < of_int bound + 1" using q(3,4) v by (auto simp: abs_less_iff)
  have "Atoi ''90'' = Some 90" by code_simp
  then show "pe_float env ''30.00'' = Some (Fin 30) \<longrightarrow>
      parseCoord env ''9030.00N'' 2 90 = Some (Fin (181 / 2))"
    by (simp add: parseCoord_def slice_def Let_def numeral_eq_Suc [of "num.Bit0 num.One"])
qed

section \<open>Examples\<close>

definition minutes_env :: parse_env where
  "minutes_env = \<lparr>pe_float = (\<lambda>s. if s \<in> {''03.50'', ''34.56'', ''30.00''} then Some (Fin 30) else None),
     pe_day = (\<lambda>t. t div 86400000000000), pe_local = (\<lambda>d s. d * 86400 + s)\<rparr>"

lemma sample_callsigns: "wire_callsign ''SP9ABC''" "wire_callsign ''SP9XYZ''"
  unfolding wire_callsign_def
  by (rule exI [of _ "''SP9ABC''"], rule exI [of _ 0],
      simp add: callsign_char_def is_upper_ascii_def is_digit_def byte_range_def)
    (rule exI [of _ "''SP9XYZ''"], rule exI [of _ 0],
      simp add: callsign_char_def is_upper_ascii_def is_digit_def byte_range_def)

theorem message_line_roundtrip_witness:
  "\<exists>p. ParseFeedLine minutes_env (EncodeMessageLine ''SP9ABC'' ''SP9XYZ'' ''hello'') 0 = Inr p \<and>
    pk_message p = Some \<lparr>am_to = ''SP9XYZ'', am_text = ''hello'', am_id = []\<rparr>"
  using message_line_roundtrip [OF sample_callsigns, of "''hello''" minutes_env 0] by auto

theorem own_number_unread_witness:
  "\<exists>p. ParseFeedLine minutes_env (EncodeMessageLine ''SP9ABC'' ''SP9XYZ'' (''hello'' @ ''{'' @ ''00042'' @ ''}'')) 0 =
      Inr p \<and> pk_message p = Some \<lparr>am_to = ''SP9XYZ'', am_text = ''hello'' @ ''{'' @ ''00042'' @ ''}'', am_id = []\<rparr>"
proof -
  have "isDigits ''00042''" by (simp add: isDigits_def is_digit_def byte_range_def)
  then show ?thesis
    using own_number_unread [OF sample_callsigns, of "''hello''" "''00042''" minutes_env 0] by auto
qed

lemma sample_degrees: "Atoi ''49'' = Some 49" "Atoi ''019'' = Some 19"
  by code_simp+

lemma sample_coords:
  "parseCoord minutes_env (slice 0 8 ''4903.50N/01934.56E-'') 2 90 = Some (Fin (99 / 2))"
  "parseCoord minutes_env (slice 9 18 ''4903.50N/01934.56E-'') 3 180 = Some (Fin (39 / 2))"
  by (simp_all add: parseCoord_def slice_def Let_def numeral_2_eq_2 numeral_3_eq_3 sample_degrees minutes_env_def)

theorem short_altitude_panics_witness:
  "ParseFeedLine minutes_env
     (feed_line ''SP9ABC'' ''APRS'' [''TCPIP*''] (''!'' @ ''4903.50N/01934.56E-'' @ ''/A=1234'')) 0 =
   Inl SliceOutOfRange"
  by (rule short_altitude_panics [OF wire_header [OF sample_callsigns(1)] _ sample_coords, of _ "''1234''"])
    (simp_all add: feed_line_def)

theorem slash_position_lost_witness:
  "\<exists>r. parseInfo minutes_env (blank_packet [] 0) ''/4903.50N/01934.56E-'' 0 = Inr r \<and>
    pk_position r = Some \<lparr>pos_lat = Fin (90 - 14517976 / 380926), pos_lon = Fin (- 180 + 9963453 / 190463)\<rparr>"
  by (rule conjunct2 [OF slash_position_lost [of "''/4903.50 N01934.56E-''"]])
    (simp_all add: hemisphere_marks_def)

theorem coordinate_bounds_witness:
  "parseCoord minutes_env ''9030.00N'' 2 90 = Some (Fin (181 / 2))"
  using coordinate_bounds [OF sample_coords(1)] by (simp add: minutes_env_def)

end
