(* ===== verification/Sanity.thy ===== *)
theory Sanity
  imports Aprs_Text
begin

text \<open>
  The text sanity stage in front of every outbound channel (\<open>internal/sanity\<close>): APRS messages,
  e-mail subjects and plain bodies, each with the note it leaves.
\<close>

definition maxSubjectRunes :: nat where "maxSubjectRunes = 150"

datatype channel = ChannelAPRS | ChannelEmailSubject | ChannelEmailBody | ChannelOther string

record outbound =
  ob_channel :: channel
  ob_to :: string
  ob_subject :: string
  ob_text :: string
  ob_note :: string

section \<open>APRS\<close>

text \<open>The package has its own copy of the table of Polish letters.\<close>

definition polishDiacritics :: "(string \<times> char) list" where
  "polishDiacritics = diacritics"

definition polish_rune :: "string \<Rightarrow> string" where
  "polish_rune r =
     (case r of
        [] \<Rightarrow> []
      | c # cs \<Rightarrow>
          if is_ascii c then r
          else (case map_of polishDiacritics r of None \<Rightarrow> [] | Some a \<Rightarrow> [a]))"

definition dropped_runes :: "string \<Rightarrow> nat" where
  "dropped_runes s = length (filter (\<lambda>r. polish_rune r = []) (split_runes s))"

definition normalizeAPRS :: "string \<Rightarrow> string \<times> string" where
  "normalizeAPRS s =
     (let out = join_with '' '' (Prelude.fields (concat (map polish_rune (split_runes s))))
      in (out,
          if out \<noteq> s then ''normalized: whitespace collapsed, trim'' @
              (if dropped_runes s > 0 then '', non-ASCII dropped'' else [])
          else if dropped_runes s > 0 then ''normalized: non-ASCII dropped'' else []))"

section \<open>E-mail\<close>

text \<open>A rune as \<open>WriteRune\<close> and \<open>string([]rune)\<close> write it: an invalid byte becomes U+FFFD.\<close>

definition rune_text :: "string \<Rightarrow> string" where
  "rune_text r = (if length r = 1 \<and> \<not> is_ascii (hd r) then replacement_rune else r)"

definition normalizeSubject :: "string \<Rightarrow> string \<times> string" where
  "normalizeSubject s =
     (let out0 = join_with '' '' (Prelude.fields s);
          out = (if length (split_runes out0) > maxSubjectRunes
                 then trim_space (concat (map rune_text (take maxSubjectRunes (split_runes out0))))
                 else out0)
      in (out, if out = s then [] else ''normalized: subject trimmed/collapsed''))"

fun unify_newlines :: "string \<Rightarrow> string" where
  "unify_newlines [] = []"
| "unify_newlines (c # cs) =
     (if c = CHR 0x0D then
        CHR 0x0A # (case cs of d # ds \<Rightarrow> if d = CHR 0x0A then unify_newlines ds else unify_newlines cs
                    | [] \<Rightarrow> [])
      else c # unify_newlines cs)"

definition body_char :: "char \<Rightarrow> bool" where
  "body_char c \<longleftrightarrow> c = CHR 0x0A \<or> c = CHR 0x09 \<or> (of_char c :: nat) \<ge> 0x20"

definition body_runes :: "string \<Rightarrow> string" where
  "body_runes s = concat (map rune_text (filter (\<lambda>r. body_char (hd r)) (split_runes s)))"

text \<open>The loop over the lines, with the length of the current run of blank ones.\<close>

fun collapse_blank :: "nat \<Rightarrow> string list \<Rightarrow> string list" where
  "collapse_blank n [] = []"
| "collapse_blank n (l # ls) =
     (if trim_space l = [] then (if n + 1 > 1 then collapse_blank (n + 1) ls else [] # collapse_blank (n + 1) ls)
      else l # collapse_blank 0 ls)"

definition strip_empty :: "string list \<Rightarrow> string list" where
  "strip_empty ls = rev (dropWhile (\<lambda>l. l = []) (rev (dropWhile (\<lambda>l. l = []) ls)))"

definition normalizeEmailBody :: "string \<Rightarrow> string \<times> string" where
  "normalizeEmailBody s0 =
     (let s = unify_newlines s0;
          res = join_with [CHR 0x0A] (strip_empty (collapse_blank 0 (split_on (CHR 0x0A) (body_runes s))))
      in (res, if res = s then [] else ''normalized: body control characters and blank lines''))"

section \<open>The service\<close>

definition Prepare :: "outbound \<Rightarrow> outbound" where
  "Prepare m =
     (case ob_channel m of
        ChannelAPRS \<Rightarrow> m\<lparr>ob_text := fst (normalizeAPRS (ob_text m)), ob_note := snd (normalizeAPRS (ob_text m))\<rparr>
      | ChannelEmailSubject \<Rightarrow>
          m\<lparr>ob_subject := fst (normalizeSubject (ob_subject m)), ob_note := snd (normalizeSubject (ob_subject m))\<rparr>
      | ChannelEmailBody \<Rightarrow>
          m\<lparr>ob_text := fst (normalizeEmailBody (ob_text m)), ob_note := snd (normalizeEmailBody (ob_text m))\<rparr>
      | ChannelOther _ \<Rightarrow> m)"

definition NormalizeText :: "channel \<Rightarrow> string \<Rightarrow> string" where
  "NormalizeText ch s =
     (let m = \<lparr> ob_channel = ch, ob_to = [], ob_subject = (if ch = ChannelEmailSubject then s else []),
                ob_text = (if ch = ChannelEmailSubject then [] else s), ob_note = [] \<rparr>
      in if ch = ChannelEmailSubject then ob_subject (Prepare m) else ob_text (Prepare m))"

end
