(* ===== verification/Sanity_Laws.thy ===== *)
theory Sanity_Laws
  imports Sanity
begin

text \<open>
  What the sanity stage does: for an APRS message nothing that the line limit would not do itself, and
  for a plain e-mail body the layout it promises.
\<close>

section \<open>APRS\<close>

lemma polish_rune_ascii: "polish_rune = ascii_rune"
  by (rule ext) (simp add: polish_rune_def ascii_rune_def polishDiacritics_def split: list.split)

lemma normalizeAPRS_text: "fst (normalizeAPRS s) = normal_text s"
  using fields_from_ascii [OF transliterate_ascii, of "[]" s]
  by (simp add: normalizeAPRS_def normal_text_def Let_def Prelude.fields_def polish_rune_ascii
      transliterate_def)

lemma NormalizeText_aprs: "NormalizeText ChannelAPRS s = normal_text s"
  by (simp add: NormalizeText_def Prepare_def normalizeAPRS_text Let_def)

lemma normal_text_again [simp]: "normal_text (normal_text s) = normal_text s"
proof -
  have "list_all is_ascii (normal_text s)"
    using normal_text_air [of s] by (auto simp: list_all_iff air_char_def)
  then have "transliterate (normal_text s) = normal_text s" by (rule transliterate_id)
  moreover have "words_from [] (normal_text s) = words_from [] (transliterate s)"
    unfolding normal_text_def [of s]
    by (rule words_from_join) (auto dest!: words_from_word)
  ultimately show ?thesis by (simp add: normal_text_def)
qed

lemma limit_normal: "LimitMessageText (NormalizeText ChannelAPRS s) reserve = LimitMessageText s reserve"
  by (simp add: NormalizeText_aprs LimitMessageText_eq)

text \<open>
  the sanity stage is invisible on the air.  Whatever text an action composes, trimming the
  normalised text to the line sends the bytes that trimming the original would, although the two
  packages hold their own tables and their own loops.
\<close>

theorem sanity_before_limit:
  "LimitMessageText (NormalizeText ChannelAPRS s) reserve = LimitMessageText s reserve \<and>
   NormalizeText ChannelAPRS (NormalizeText ChannelAPRS s) = NormalizeText ChannelAPRS s"
  by (simp add: limit_normal) (simp add: NormalizeText_aprs)

section \<open>E-mail bodies\<close>

definition blank_line :: "string \<Rightarrow> bool" where
  "blank_line l \<longleftrightarrow> trim_space l = []"

text \<open>A blank line is an empty one, and no two of them follow each other.\<close>

fun spaced :: "string list \<Rightarrow> bool" where
  "spaced [] = True"
| "spaced [l] = (blank_line l \<longrightarrow> l = [])"
| "spaced (l # m # ls) = ((blank_line l \<longrightarrow> l = []) \<and> \<not> (blank_line l \<and> blank_line m) \<and> spaced (m # ls))"

lemma spaced_tl: "spaced (l # ls) \<Longrightarrow> spaced ls"
  by (cases ls) auto

lemma spaced_drop: "spaced ls \<Longrightarrow> spaced (dropWhile P ls)"
  by (induction ls) (simp_all, metis spaced_tl)

lemma spaced_hd: "spaced (l # ls) \<Longrightarrow> blank_line l \<Longrightarrow> l = []"
  by (cases ls) auto

lemma spaced_append: "spaced (xs @ ys) \<Longrightarrow> spaced xs"
  by (induction xs rule: induct_list012) (auto dest: spaced_hd)

lemma spaced_strip: "spaced ls \<Longrightarrow> spaced (strip_empty ls)"
proof -
  assume s: "spaced ls"
  let ?d = "dropWhile (\<lambda>l. l = []) ls"
  have "?d = strip_empty ls @ rev (takeWhile (\<lambda>l. l = []) (rev ?d))"
    unfolding strip_empty_def by (metis rev_append rev_rev_ident takeWhile_dropWhile_id)
  with spaced_drop [OF s] show ?thesis by (metis spaced_append)
qed

lemma spaced_collapse:
  "spaced (collapse_blank n ls) \<and>
   (n > 0 \<longrightarrow> (case collapse_blank n ls of [] \<Rightarrow> True | l # _ \<Rightarrow> \<not> blank_line l))"
proof (induction n ls rule: collapse_blank.induct)
  case (2 n l ls)
  show ?case
  proof (cases "trim_space l = []")
    case True
    show ?thesis
    proof (cases "n + 1 > 1")
      case More: True
      with True 2(1) show ?thesis by simp
    next
      case False
      have e: "blank_line []" by (simp add: blank_line_def)
      show ?thesis using 2(2) [OF True False] True False e
        by (cases "collapse_blank (n + 1) ls") auto
    qed
  next
    case False
    then show ?thesis using 2(3) [OF False]
      by (cases "collapse_blank 0 ls") (auto simp: blank_line_def)
  qed
qed simp

lemma spaced_member: "spaced ls \<Longrightarrow> l \<in> set ls \<Longrightarrow> blank_line l \<Longrightarrow> l = []"
  by (induction ls rule: induct_list012) auto

lemma set_split_on: "l \<in> set (split_on d s) \<Longrightarrow> set l \<subseteq> set s"
proof (induction s arbitrary: l)
  case (Cons c cs)
  obtain w ws where w: "split_on d cs = w # ws" by (metis neq_Nil_conv split_on_not_Nil)
  then have "set w \<subseteq> set cs" "\<forall>v\<in>set ws. set v \<subseteq> set cs" using Cons.IH by auto
  with Cons.prems w show ?case by (auto split: if_splits)
qed simp

lemma set_join_lf: "set (join_with [CHR 0x0A] ls) \<subseteq> insert (CHR 0x0A) (\<Union>l\<in>set ls. set l)"
  by (induction ls rule: induct_list012) auto

lemma collapse_lines: "set (collapse_blank n ls) \<subseteq> insert [] (set ls)"
  by (induction n ls rule: collapse_blank.induct) auto

lemma set_strip: "set (strip_empty ls) \<subseteq> set ls"
  unfolding strip_empty_def by (metis set_dropWhileD set_rev subsetI)

lemma strip_ends: "strip_empty ls \<noteq> [] \<Longrightarrow> hd (strip_empty ls) \<noteq> [] \<and> last (strip_empty ls) \<noteq> []"
proof -
  assume ne: "strip_empty ls \<noteq> []"
  let ?d = "dropWhile (\<lambda>l. l = []) ls" and ?e = "dropWhile (\<lambda>l. l = []) (rev (dropWhile (\<lambda>l. l = []) ls))"
  have e: "?e \<noteq> []" using ne by (simp add: strip_empty_def)
  then have d: "?d \<noteq> []" by (metis dropWhile.simps(1) rev.simps(1))
  have "?d = strip_empty ls @ rev (takeWhile (\<lambda>l. l = []) (rev ?d))"
    unfolding strip_empty_def by (metis rev_append rev_rev_ident takeWhile_dropWhile_id)
  then have "hd (strip_empty ls) = hd ?d" by (metis hd_append2 ne)
  moreover have "last (strip_empty ls) = hd ?e" using e by (simp add: strip_empty_def last_rev)
  ultimately show ?thesis using hd_dropWhile [OF d] hd_dropWhile [OF e] by simp
qed

text \<open>The later bytes of a rune are never control characters.\<close>

lemma width_of_tail: "\<forall>b\<in>set (tl (take (width_of bs) bs)). 128 \<le> b"
proof (cases bs)
  case (Cons b0 tl')
  show ?thesis
  proof (cases tl')
    case (Cons b1 rest)
    show ?thesis
    proof (cases "width_of bs \<le> 1")
      case False
      then have w: "width_of bs = seq_len b0" "second_ok b0 b1" "list_all cont_byte (take (seq_len b0 - 2) rest)"
        "\<not> seq_len b0 \<le> 1"
        using \<open>bs = b0 # tl'\<close> Cons by (auto simp: Let_def split: if_splits)
      then obtain n where n: "seq_len b0 = Suc (Suc n)" by (metis Suc_1 Suc_leI not_less le_Suc_ex add_2_eq_Suc)
      have "128 \<le> b1" using w(2) by (auto simp: second_ok_def split: if_splits)
      then show ?thesis
        using w(1,3) n \<open>bs = b0 # tl'\<close> Cons by (auto simp: list_all_iff cont_byte_def)
    next
      case True
      then have "tl (take (width_of bs) bs) = []" by (cases bs) (simp_all add: take_Cons')
      then show ?thesis by simp
    qed
  qed (use \<open>bs = b0 # tl'\<close> in \<open>auto simp: take_Cons'\<close>)
qed simp

lemma split_runes_tail: "r \<in> set (split_runes s) \<Longrightarrow> \<forall>c\<in>set (tl r). 128 \<le> (of_char c :: nat)"
proof (induction s rule: split_runes.induct)
  case (1 s)
  show ?case
  proof (cases s)
    case (Cons c cs)
    consider "r = [c]" | "rune_width s = 0" "r \<in> set (split_runes cs)"
      | "rune_width s \<noteq> 0" "r = take (rune_width s) s"
      | "rune_width s \<noteq> 0" "r \<in> set (split_runes (drop (rune_width s) s))"
      using 1(3) Cons by (subst (asm) split_runes.simps) (auto split: if_splits)
    then show ?thesis
    proof cases
      case 3
      have "map of_char (tl r) = tl (take (width_of (codes s)) (codes s))"
        using 3 by (simp add: rune_width_def codes_def take_map map_tl)
      with width_of_tail [of "codes s"] show ?thesis by (metis image_eqI list.set_map)
    qed (use 1 Cons in auto)
  qed (use 1(3) in \<open>simp add: split_runes.simps\<close>)
qed

lemma body_runes_chars: "list_all body_char (body_runes s)"
proof -
  have "body_char c" if r: "r \<in> set (split_runes s)" "body_char (hd r)" and c: "c \<in> set (rune_text r)" for r c
  proof (cases "rune_text r = r")
    case True
    with c have "c = hd r \<or> c \<in> set (tl r)" by (cases r) auto
    then show ?thesis using split_runes_tail [OF r(1)] r(2) by (fastforce simp: body_char_def)
  next
    case False
    with c have "c \<in> set replacement_rune" by (simp add: rune_text_def split: if_splits)
    then show ?thesis by (auto simp: replacement_rune_def body_char_def)
  qed
  then show ?thesis by (auto simp: body_runes_def list_all_iff)
qed

text \<open>
  a plain e-mail body keeps its layout.  Whatever the line ends and control characters of the
  text, the prepared body has no carriage return and no other control character than tab and line
  feed, does not begin or end with a blank line, and has no two blank lines in a row.
\<close>

theorem email_body_layout:
  fixes s :: string
  defines "res \<equiv> fst (normalizeEmailBody s)"
  defines "ls \<equiv> split_on (CHR 0x0A) res"
  shows "list_all body_char res \<and> spaced ls \<and>
    (res = [] \<or> \<not> blank_line (hd ls) \<and> \<not> blank_line (last ls))"
proof -
  let ?b = "body_runes (unify_newlines s)"
  let ?ls = "strip_empty (collapse_blank 0 (split_on (CHR 0x0A) ?b))"
  have res: "res = join_with [CHR 0x0A] ?ls" by (simp add: res_def normalizeEmailBody_def Let_def)
  have sub: "set ?ls \<subseteq> insert [] (set (split_on (CHR 0x0A) ?b))"
    using set_strip collapse_lines by blast
  have sp: "spaced ?ls" using spaced_collapse by (blast intro: spaced_strip)
  have chars: "body_char c" if "l \<in> set ?ls" "c \<in> set l" for l c
  proof -
    have "l \<in> set (split_on (CHR 0x0A) ?b)" using that sub by auto
    then have "c \<in> set ?b" using set_split_on that(2) by blast
    then show ?thesis using body_runes_chars [of "unify_newlines s"] by (simp add: list_all_iff)
  qed
  have free: "\<forall>l\<in>set ?ls. CHR 0x0A \<notin> set l"
    using sub split_on_sep_free [of _ "CHR 0x0A" ?b] by auto
  have "list_all body_char res"
    using set_join_lf [of ?ls] chars unfolding res list_all_iff by (fastforce simp: body_char_def)
  moreover have "spaced ls \<and> (res = [] \<or> \<not> blank_line (hd ls) \<and> \<not> blank_line (last ls))"
  proof (cases "?ls = []")
    case True
    then show ?thesis by (simp add: ls_def res)
  next
    case False
    then have ls: "ls = ?ls" using split_join [OF _ free] by (simp add: ls_def res)
    have "l = []" if "l \<in> set ?ls" "blank_line l" for l
      using sp that by (rule spaced_member)
    then show ?thesis using sp strip_ends [OF False] False ls by (metis hd_in_set last_in_set)
  qed
  ultimately show ?thesis by blast
qed

end
