(* ===== verification/Aprs_Geo.thy ===== *)
theory Aprs_Geo
  imports Aprs_Parse
begin

text \<open>
  Where a station is and what it is: Maidenhead locators and distances (\<open>internal/aprs/gridsquare.go\<close>),
  the origin of a packet (\<open>packet_origin.go\<close>) and the infrastructure filter (\<open>filter.go\<close>).  The
  functions of \<open>math\<close> are the parameters \<open>math_env\<close>.
\<close>

section \<open>Locators\<close>

definition field_letter :: "char \<Rightarrow> bool" where
  "field_letter c \<longleftrightarrow> CHR ''A'' \<le> c \<and> c \<le> CHR ''R''"

definition square_letter :: "char \<Rightarrow> bool" where
  "square_letter c \<longleftrightarrow> CHR ''A'' \<le> c \<and> c \<le> CHR ''X''"

text \<open>
  The groups of \<open>gridRE\<close> on an upper-case locator: the first four bytes, then the optional letter
  pair and the optional digit pair, each independent of the other.
\<close>

definition grid_tail :: "string \<Rightarrow> (string \<times> string) option" where
  "grid_tail t =
     (if t = [] then Some ([], [])
      else if length t = 2 \<and> list_all square_letter t then Some (t, [])
      else if length t = 2 \<and> list_all is_digit t then Some ([], t)
      else if length t = 4 \<and> list_all square_letter (take 2 t) \<and> list_all is_digit (drop 2 t)
        then Some (take 2 t, drop 2 t)
      else None)"

definition grid_groups :: "string \<Rightarrow> (string \<times> string \<times> string) option" where
  "grid_groups s =
     (if length s \<ge> 4 \<and> list_all field_letter (take 2 s) \<and> list_all is_digit (slice 2 4 s)
      then map_option (\<lambda>(l, d). (take 4 s, l, d)) (grid_tail (drop 4 s))
      else None)"

definition letter_rat :: "char \<Rightarrow> rat" where
  "letter_rat c = of_nat (of_char c - 65)"

definition digit_rat :: "char \<Rightarrow> rat" where
  "digit_rat c = of_nat (digit_value c)"

text \<open>
  The position of a locator.  The switch goes by the length of the match; a group that took no part
  is empty, and indexing it panics.
\<close>

definition ParseGridSquare :: "string \<Rightarrow> panic + (rat \<times> rat) option" where
  "ParseGridSquare locator =
     (case grid_groups (to_upper (trim_space locator)) of
        None \<Rightarrow> Inr None
      | Some (m, l, d) \<Rightarrow>
          let lon = letter_rat (m ! 0) * 20 - 180 + digit_rat (m ! 2) * 2;
              lat = letter_rat (m ! 1) * 10 - 90 + digit_rat (m ! 3);
              n = 4 + length l + length d
          in if n = 4 then Inr (Some (lat + 1 / 2, lon + 1))
             else if n = 6 then
               if l = [] then Inl IndexOutOfRange
               else Inr (Some (lat + (letter_rat (l ! 1) / 24 + 1 / 48),
                               lon + (letter_rat (l ! 0) * 2 / 24 + 1 / 24)))
             else Inr (Some (lat + (letter_rat (l ! 1) / 24 + digit_rat (d ! 1) / 240 + 1 / 480),
                             lon + (letter_rat (l ! 0) * 2 / 24 + digit_rat (d ! 0) * 2 / 240 + 1 / 240))))"

section \<open>Distances\<close>

record math_env =
  mt_sin :: "rat \<Rightarrow> rat"
  mt_cos :: "rat \<Rightarrow> rat"
  mt_asin :: "rat \<Rightarrow> rat"
  mt_sqrt :: "rat \<Rightarrow> rat"
  mt_pi :: rat

definition haversine :: "math_env \<Rightarrow> rat \<Rightarrow> rat \<Rightarrow> rat \<Rightarrow> rat \<Rightarrow> rat" where
  "haversine mt lat1 lon1 lat2 lon2 =
     (let rad = mt_pi mt / 180; dlat = (lat2 - lat1) * rad; dlon = (lon2 - lon1) * rad;
          a = mt_sin mt (dlat / 2) * mt_sin mt (dlat / 2) +
              mt_cos mt (lat1 * rad) * mt_cos mt (lat2 * rad) *
                mt_sin mt (dlon / 2) * mt_sin mt (dlon / 2)
      in 2 * (63710088 / 10000) * mt_asin mt (mt_sqrt mt a))"

text \<open>A coordinate that is not finite gives no number.\<close>

definition DistanceKM :: "math_env \<Rightarrow> float64 \<Rightarrow> float64 \<Rightarrow> float64 \<Rightarrow> float64 \<Rightarrow> float64" where
  "DistanceKM mt lat1 lon1 lat2 lon2 =
     (case (lat1, lon1, lat2, lon2) of
        (Fin a, Fin b, Fin c, Fin d) \<Rightarrow> Fin (haversine mt a b c d)
      | _ \<Rightarrow> NaN)"

text \<open>The comparisons of \<open>float64\<close>: those with a NaN are false.\<close>

fun float_less :: "float64 \<Rightarrow> float64 \<Rightarrow> bool" where
  "float_less NaN _ = False"
| "float_less _ NaN = False"
| "float_less NegInf y = (y \<noteq> NegInf)"
| "float_less _ NegInf = False"
| "float_less PosInf _ = False"
| "float_less _ PosInf = True"
| "float_less (Fin a) (Fin b) = (a < b)"

definition float_eq :: "float64 \<Rightarrow> float64 \<Rightarrow> bool" where
  "float_eq x y \<longleftrightarrow> x \<noteq> NaN \<and> x = y"

section \<open>Origin and infrastructure\<close>

datatype origin = OriginUnknown | OriginRF | OriginInternet

definition has_prefix :: "string \<Rightarrow> string \<Rightarrow> bool" where
  "has_prefix p s \<longleftrightarrow> take (length p) s = p"

definition OriginFromPath :: "string list \<Rightarrow> origin" where
  "OriginFromPath path =
     (if list_ex (\<lambda>s. list_ex (\<lambda>p. has_prefix p (to_upper s)) [''QAR'', ''QAU'']) path then OriginRF
      else if list_ex (\<lambda>s. list_ex (\<lambda>p. has_prefix p (to_upper s))
                [''TCPIP'', ''TCPXX'', ''QAC'', ''QAX'', ''QAO'', ''QAZ'', ''QAS'']) path
        then OriginInternet
      else OriginUnknown)"

definition primaryInfrastructureSymbols :: "char list" where
  "primaryInfrastructureSymbols = ''#&IrmnB$W80''"

definition alternateInfrastructureSymbols :: "char list" where
  "alternateInfrastructureSymbols = ''#&IrmnB$W80''"

definition IsInfrastructure :: "packet \<Rightarrow> bool" where
  "IsInfrastructure p \<longleftrightarrow>
     (if pk_kind p = KindObject \<or> pk_kind p = KindQuery then True
      else if pk_symbol p = CHR 0x00 then False
      else if pk_symbol_table p = CHR 0x5C then pk_symbol p \<in> set alternateInfrastructureSymbols
      else pk_symbol p \<in> set primaryInfrastructureSymbols)"

end
