(* ===== verification/Aprs_Weather.thy ===== *)
theory Aprs_Weather
  imports Aprs_Geo
begin

text \<open>
  The APRS weather decoder (\<open>internal/aprs/weather.go\<close>): the fixed-width fields of a report, the
  radiation readings some stations append, and the recovery of the wind from the course and speed
  block.  \<open>strconv.ParseFloat\<close> is the parameter of \<open>parse_env\<close>.
\<close>

record weather_report =
  wr_generated_at :: int
  wr_callsign :: string
  wr_latitude :: float64
  wr_longitude :: float64
  wr_wind_direction :: "float64 option"
  wr_wind_speed :: "float64 option"
  wr_wind_gusts :: "float64 option"
  wr_temperature :: "float64 option"
  wr_rain_1h :: "float64 option"
  wr_rain_24h :: "float64 option"
  wr_rain_midnight :: "float64 option"
  wr_snow_24h :: "float64 option"
  wr_humidity :: "float64 option"
  wr_pressure :: "float64 option"
  wr_luminosity :: "float64 option"
  wr_radiation_usv :: "float64 option"
  wr_radiation_cpm :: "float64 option"
  wr_raw :: string

text \<open>\<open>math.Round\<close> rounds half away from zero.\<close>

definition round_away :: "rat \<Rightarrow> int" where
  "round_away q = (if q < 0 then - \<lfloor>- q + 1 / 2\<rfloor> else \<lfloor>q + 1 / 2\<rfloor>)"

definition round1 :: "float64 \<Rightarrow> float64" where
  "round1 = float_map (\<lambda>q. of_int (round_away (q * 10)) / 10)"

definition round2 :: "float64 \<Rightarrow> float64" where
  "round2 = float_map (\<lambda>q. of_int (round_away (q * 100)) / 100)"

section \<open>Fields\<close>

datatype field_state = FieldBad | FieldDots | FieldValue float64

definition isWindField :: "string \<Rightarrow> bool" where
  "isWindField s \<longleftrightarrow> s = ''...'' \<or> list_all is_digit s \<and> length s = 3"

definition takeFixed :: "parse_env \<Rightarrow> string \<Rightarrow> nat \<Rightarrow> nat \<Rightarrow> field_state \<times> string" where
  "takeFixed env s i n =
     (if length s < i + n then (FieldBad, s)
      else if slice i (i + n) s = replicate n (CHR ''.'') then (FieldDots, drop (i + n) s)
      else (case pe_float env (slice i (i + n) s) of
              None \<Rightarrow> (FieldBad, s) | Some v \<Rightarrow> (FieldValue v, drop (i + n) s)))"

definition float_neg :: "float64 \<Rightarrow> float64" where
  "float_neg x = (case x of Fin q \<Rightarrow> Fin (- q) | PosInf \<Rightarrow> NegInf | NegInf \<Rightarrow> PosInf | NaN \<Rightarrow> NaN)"

text \<open>A temperature is \<open>t\<close>, an optional minus and up to three digits.\<close>

definition takeTemp :: "parse_env \<Rightarrow> string \<Rightarrow> field_state \<times> string" where
  "takeTemp env s =
     (if length s < 2 \<or> s ! 0 \<noteq> CHR ''t'' then (FieldBad, s)
      else if has_prefix ''...'' (drop 1 s) then (FieldDots, drop 4 s)
      else
        let neg = (s ! 1 = CHR ''-''); start = (if neg then 2 else 1);
            ds = takeWhile is_digit (take 3 (drop start s))
        in if ds = [] then (FieldBad, s)
           else (case pe_float env ds of
                   None \<Rightarrow> (FieldBad, s)
                 | Some v \<Rightarrow> (FieldValue (if neg then float_neg v else v), drop (start + length ds) s)))"

text \<open>The width of the field a letter introduces and what its value sets.\<close>

definition field_width :: "char \<Rightarrow> nat" where
  "field_width c = (if c = CHR ''h'' then 2 else if c = CHR ''b'' then 5 else 3)"

definition set_field :: "char \<Rightarrow> float64 \<Rightarrow> weather_report \<Rightarrow> weather_report" where
  "set_field c v w =
     (if c = CHR ''g'' then w\<lparr>wr_wind_gusts := Some (round2 (float_map (\<lambda>q. q * (1609344 / 1000000)) v))\<rparr>
      else if c = CHR ''t'' then w\<lparr>wr_temperature := Some (round1 (float_map (\<lambda>q. (q - 32) * 5 / 9) v))\<rparr>
      else if c = CHR ''r'' then w\<lparr>wr_rain_1h := Some (round2 (float_map (\<lambda>q. q * (254 / 1000)) v))\<rparr>
      else if c = CHR ''p'' then w\<lparr>wr_rain_24h := Some (round2 (float_map (\<lambda>q. q * (254 / 1000)) v))\<rparr>
      else if c = CHR ''P'' then w\<lparr>wr_rain_midnight := Some (round2 (float_map (\<lambda>q. q * (254 / 1000)) v))\<rparr>
      else if c = CHR ''h'' then w\<lparr>wr_humidity := Some (if v = Fin 0 then Fin 100 else v)\<rparr>
      else if c = CHR ''b'' then w\<lparr>wr_pressure := Some (round1 (float_map (\<lambda>q. q / 10) v))\<rparr>
      else if c = CHR ''L'' then w\<lparr>wr_luminosity := Some v\<rparr>
      else if c = CHR ''l'' then w\<lparr>wr_luminosity := Some (float_map (\<lambda>q. 1000 + q) v)\<rparr>
      else if c = CHR ''s'' then w\<lparr>wr_snow_24h := Some (round1 (float_map (\<lambda>q. q * (254 / 100)) v))\<rparr>
      else w)"

text \<open>One turn of the loop of \<open>scanWeatherFields\<close>; \<open>None\<close> ends it.\<close>

definition scan_field :: "parse_env \<Rightarrow> string \<Rightarrow> weather_report \<Rightarrow> (string \<times> weather_report) option" where
  "scan_field env s w =
     (case s of
        [] \<Rightarrow> None
      | c # cs \<Rightarrow>
          if c = CHR '' '' \<or> c = CHR 0x09 then Some (cs, w)
          else if c \<in> set ''gtrpPhbLls#'' then
            (case (if c = CHR ''t'' then takeTemp env s else takeFixed env s 1 (field_width c)) of
               (FieldBad, _) \<Rightarrow> None
             | (FieldDots, rest) \<Rightarrow> Some (rest, w)
             | (FieldValue v, rest) \<Rightarrow> Some (rest, set_field c v w))
          else None)"

lemma takeFixed_shorter: "takeFixed env s 1 n = (st, rest) \<Longrightarrow> st \<noteq> FieldBad \<Longrightarrow> length rest < length s"
  by (auto simp: takeFixed_def split: if_splits option.splits)

lemma takeTemp_shorter: "takeTemp env s = (st, rest) \<Longrightarrow> st \<noteq> FieldBad \<Longrightarrow> length rest < length s"
  by (auto simp: takeTemp_def Let_def split: if_splits option.splits)

lemma scan_field_shorter:
  assumes "scan_field env s w = Some (s', w')"
  shows "length s' < length s"
proof (cases s)
  case (Cons c cs)
  obtain st rest where t: "(if c = CHR ''t'' then takeTemp env s else takeFixed env s 1 (field_width c)) = (st, rest)"
    by fastforce
  have "st \<noteq> FieldBad \<Longrightarrow> length rest < length s"
    using t takeFixed_shorter takeTemp_shorter by (simp split: if_splits)
  moreover have "s' = cs \<or> s' = rest \<and> st \<noteq> FieldBad"
    using assms Cons t by (auto simp: scan_field_def split: if_splits field_state.splits)
  ultimately show ?thesis using Cons by auto
qed (use assms in \<open>simp add: scan_field_def\<close>)

function scan_fields :: "parse_env \<Rightarrow> string \<Rightarrow> weather_report \<Rightarrow> string \<times> weather_report" where
  "scan_fields env s w =
     (case scan_field env s w of None \<Rightarrow> (s, w) | Some (s', w') \<Rightarrow> scan_fields env s' w')"
  by pat_completeness auto
termination by (relation "measure (\<lambda>(_, s, _). length s)") (use scan_field_shorter in \<open>auto\<close>)

declare scan_fields.simps [simp del]

definition scanWeatherFields :: "parse_env \<Rightarrow> string \<Rightarrow> weather_report \<Rightarrow> string \<times> weather_report" where
  "scanWeatherFields env s w =
     scan_fields env
       (if length s \<ge> 7 \<and> s ! 3 = CHR ''/'' \<and> isWindField (slice 0 3 s) \<and> isWindField (slice 4 7 s)
        then drop 7 s else s) w"

section \<open>Radiation readings\<close>

text \<open>
  The two regular expressions, tried at every position from the left.  A number is matched as far
  as it goes, since a unit never starts with a digit or a dot.  \<open>(?i)\<close> folds \<open>s\<close> with the long s and
  the micro sign with both cases of the Greek letter.
\<close>

definition re_space :: "char \<Rightarrow> bool" where
  "re_space c \<longleftrightarrow> c \<in> {CHR '' '', CHR 0x09, CHR 0x0A, CHR 0x0C, CHR 0x0D}"

definition micro_letters :: "string list" where
  "micro_letters = [[CHR 0xC2, CHR 0xB5], [CHR 0xCE, CHR 0xBC], [CHR 0xCE, CHR 0x9C], ''m'']"

definition dose_units :: "string list" where
  "dose_units =
     concat (map (\<lambda>u. [u @ ''sv/h'', u @ [CHR 0xC5, CHR 0xBF] @ ''v/h'']) micro_letters) @
     [''usv/h'', ''u'' @ [CHR 0xC5, CHR 0xBF] @ ''v/h'', ''usv'', ''u'' @ [CHR 0xC5, CHR 0xBF] @ ''v'']"

text \<open>The number and whether the unit is millisievert.\<close>

definition dose_at :: "string \<Rightarrow> (string \<times> bool) option" where
  "dose_at s =
     (let ds = takeWhile is_digit s; r = dropWhile is_digit s;
          frac = (case r of c # cs \<Rightarrow> if c = CHR ''.'' then takeWhile is_digit cs else [] | [] \<Rightarrow> []);
          num = (if frac = [] then ds else ds @ ''.'' @ frac);
          unit = to_lower (dropWhile re_space (drop (length num) s))
      in if ds = [] then None
         else map_option (\<lambda>u. (num, has_prefix ''msv'' unit))
           (find (\<lambda>u. has_prefix u unit) dose_units))"

definition count_at :: "string \<Rightarrow> string option" where
  "count_at s =
     (let ds = takeWhile is_digit s;
          t = dropWhile re_space (drop 3 s);
          t' = dropWhile re_space (case t of c # cs \<Rightarrow> if c = CHR '':'' \<or> c = CHR ''='' then cs else t | [] \<Rightarrow> t);
          es = takeWhile is_digit t'
      in if ds \<noteq> []
         then (if has_prefix ''cpm'' (to_lower (dropWhile re_space (dropWhile is_digit s))) then Some ds else None)
         else if has_prefix ''cpm'' (to_lower s) \<and> es \<noteq> [] then Some es
         else None)"

fun leftmost :: "(string \<Rightarrow> 'a option) \<Rightarrow> string \<Rightarrow> 'a option" where
  "leftmost f [] = f []"
| "leftmost f (c # cs) = (case f (c # cs) of Some x \<Rightarrow> Some x | None \<Rightarrow> leftmost f cs)"

definition parseRadiationComment :: "parse_env \<Rightarrow> string \<Rightarrow> weather_report \<Rightarrow> weather_report" where
  "parseRadiationComment env rest w =
     (let w1 = (case leftmost dose_at rest of
                  None \<Rightarrow> w
                | Some (num, milli) \<Rightarrow>
                    (case pe_float env num of
                       None \<Rightarrow> w
                     | Some v \<Rightarrow> w\<lparr>wr_radiation_usv :=
                         Some (if milli then float_map (\<lambda>q. q * 1000) v else v)\<rparr>))
      in case leftmost count_at rest of
           None \<Rightarrow> w1
         | Some num \<Rightarrow>
             (case pe_float env num of None \<Rightarrow> w1 | Some v \<Rightarrow> w1\<lparr>wr_radiation_cpm := Some v\<rparr>))"

section \<open>Reports\<close>

definition blank_report :: "packet \<Rightarrow> string \<Rightarrow> weather_report" where
  "blank_report p block =
     \<lparr> wr_generated_at = pk_received_at p, wr_callsign = [],
       wr_latitude = (case pk_position p of None \<Rightarrow> Fin 0 | Some q \<Rightarrow> pos_lat q),
       wr_longitude = (case pk_position p of None \<Rightarrow> Fin 0 | Some q \<Rightarrow> pos_lon q),
       wr_wind_direction = None, wr_wind_speed = None, wr_wind_gusts = None, wr_temperature = None,
       wr_rain_1h = None, wr_rain_24h = None, wr_rain_midnight = None, wr_snow_24h = None,
       wr_humidity = None, wr_pressure = None, wr_luminosity = None, wr_radiation_usv = None,
       wr_radiation_cpm = None, wr_raw = block \<rparr>"

definition report_values :: "weather_report \<Rightarrow> float64 option list" where
  "report_values w =
     [wr_temperature w, wr_humidity w, wr_pressure w, wr_wind_speed w, wr_wind_gusts w, wr_rain_1h w,
      wr_rain_24h w, wr_rain_midnight w, wr_snow_24h w, wr_luminosity w, wr_radiation_usv w,
      wr_radiation_cpm w]"

text \<open>The wind of a positioned report, which the parser took for course and speed.\<close>

definition packet_wind :: "packet \<Rightarrow> (float64 \<times> float64) option" where
  "packet_wind p =
     (if pk_kind p = KindPosition \<and> pk_symbol p = CHR ''_'' \<and> (pk_speed p \<noteq> Fin 0 \<or> pk_course p \<noteq> 0)
      then Some (Fin (if pk_course p = 0 then 360 else of_int (pk_course p)),
                 float_map (\<lambda>q. q / (1852 / 1000)) (pk_speed p))
      else None)"

definition ParseWeather :: "parse_env \<Rightarrow> packet \<Rightarrow> weather_report option" where
  "ParseWeather env p =
     (if \<not> (pk_kind p = KindWeather \<or> pk_kind p = KindPosition \<and> pk_symbol p = CHR ''_'') then None
      else
        let block = pk_comment p; wind = packet_wind p in
        if trim_space block = [] \<and> wind = None then None
        else
          let w0 = (blank_report p block)\<lparr>wr_wind_direction := map_option fst wind,
                 wr_wind_speed := map_option (\<lambda>(_, mph). round2 (float_map (\<lambda>q. q * (1609344 / 1000000)) mph)) wind\<rparr>;
              (rest, w1) = scanWeatherFields env block w0;
              w = parseRadiationComment env rest w1
          in if list_all (\<lambda>v. v = None) (report_values w) then None else Some w)"

end
