(* ===== verification/Aprs_Hub.thy ===== *)
theory Aprs_Hub
  imports Aprs_Weather Sanity Mqtt_Output
begin

text \<open>
  The APRS hub (\<open>internal/aprs/hub.go\<close>, \<open>documents.go\<close>, \<open>sink.go\<close>): the merged state of the
  stations around, the documents it publishes, received messages and outbound ones with their
  acknowledgements.  A function of a publication takes what the broker did for each topic; the
  encoders, SHA-256 and \<open>fmt\<close> for floating-point numbers are the parameters \<open>aprs_env\<close>.
\<close>

section \<open>Documents\<close>

record track_point =
  tp_lat :: float64
  tp_lon :: float64
  tp_at :: int

record station_document =
  sd_callsign :: string
  sd_self :: bool
  sd_name :: string
  sd_position :: "position option"
  sd_track :: "(float64 \<times> float64 \<times> string) list"
  sd_symbol_table :: string
  sd_symbol :: string
  sd_course :: int
  sd_speed :: float64
  sd_altitude :: "float64 option"
  sd_comment :: string
  sd_status :: string
  sd_capable :: bool
  sd_distance :: float64
  sd_origin :: origin
  sd_last_heard :: string
  sd_last_packet :: string
  sd_via :: "string list"
  sd_packets :: nat
  sd_weather :: "weather_report option"

record packet_document =
  pd_kind :: aprs_kind
  pd_src :: string
  pd_dst :: string
  pd_path :: "string list"
  pd_timestamp :: string
  pd_position :: "position option"
  pd_symbol_table :: string
  pd_symbol :: string
  pd_course :: int
  pd_speed :: float64
  pd_altitude :: "float64 option"
  pd_name :: string
  pd_comment :: string
  pd_status :: string
  pd_capable :: bool
  pd_message :: "aprs_message option"
  pd_received_at :: string
  pd_via :: string

record message_document =
  md_direction :: string
  md_from :: string
  md_to :: string
  md_text :: string
  md_id :: string
  md_received_at :: string
  md_via :: string

text \<open>
  The encoders fail where \<open>json.Marshal\<close> does, for numbers that are not finite; \<open>av_fixed n\<close> is
  the verb \<open>%.nf\<close> and \<open>av_rfc3339\<close> formats a Unix time, \<open>av_rfc3339_ns\<close> one in nanoseconds.
\<close>

record aprs_env =
  av_parse :: parse_env
  av_math :: math_env
  av_fixed :: "nat \<Rightarrow> float64 \<Rightarrow> string"
  av_sha :: "string \<Rightarrow> string"
  av_rfc3339 :: "int \<Rightarrow> string"
  av_rfc3339_ns :: "time \<Rightarrow> string"
  av_station :: "station_document \<Rightarrow> string option"
  av_packet :: "packet_document \<Rightarrow> string option"
  av_message :: "message_document \<Rightarrow> string option"
  av_event :: "event_payload \<Rightarrow> string option"

definition formatTime :: "aprs_env \<Rightarrow> int \<Rightarrow> string" where
  "formatTime env u = (if u \<le> 0 then [] else av_rfc3339 env u)"

definition timeValue :: "int option \<Rightarrow> int" where
  "timeValue u = (case u of None \<Rightarrow> 0 | Some t \<Rightarrow> t)"

text \<open>A byte as a string: the UTF-8 form of the code point.\<close>

definition rune_char :: "char \<Rightarrow> string" where
  "rune_char c =
     (let n = of_char c :: nat in
      if n < 128 then [c] else [char_of (0xC0 + n div 64), char_of (0x80 + n mod 64)])"

definition byteStr :: "char \<Rightarrow> string" where
  "byteStr c = (if c = CHR 0x00 then [] else rune_char c)"

section \<open>Configuration\<close>

record hub_config =
  hk_enabled :: bool
  hk_callsign :: string
  hk_icon :: string
  hk_grid :: string
  hk_latitude :: "float64 option"
  hk_longitude :: "float64 option"
  hk_center :: position
  hk_radius :: float64
  hk_area_latitude :: "float64 option"
  hk_area_longitude :: "float64 option"
  hk_area_radius :: float64
  hk_area :: position
  hk_ttl :: int
  hk_exclude :: bool
  hk_name :: string
  hk_route :: bool
  hk_symbol_table :: char
  hk_symbol :: char

datatype hub_error =
  BadCallsign string | BadGrid string | HalfPosition | BadRadius float64 | HalfArea
| BadAreaRadius float64 | BadTTL int | BadIcon string

definition minute_ns :: int where "minute_ns = 60 * 1000000000"

definition DefaultRadiusKM :: float64 where "DefaultRadiusKM = Fin 60"
definition DefaultStationTTL :: int where "DefaultStationTTL = 30 * minute_ns"

text \<open>The defaults, then the checks of an enabled hub in their order.\<close>

definition hub_defaults :: "hub_config \<Rightarrow> hub_config" where
  "hub_defaults cfg =
     cfg\<lparr>hk_radius := (if float_eq (hk_radius cfg) (Fin 0) then DefaultRadiusKM else hk_radius cfg),
         hk_ttl := (if hk_ttl cfg = 0 then DefaultStationTTL else hk_ttl cfg),
         hk_callsign := NormalizeCallsign (hk_callsign cfg)\<rparr>"

definition both_or :: "'e \<Rightarrow> float64 option \<Rightarrow> float64 option \<Rightarrow> position \<Rightarrow> 'e + position" where
  "both_or e a b dflt =
     (case (a, b) of
        (None, None) \<Rightarrow> Inr dflt
      | (Some x, Some y) \<Rightarrow> Inr \<lparr>pos_lat = x, pos_lon = y\<rparr>
      | _ \<Rightarrow> Inl e)"

definition radius_ok :: "float64 \<Rightarrow> bool" where
  "radius_ok r \<longleftrightarrow> \<not> float_less r (Fin 1) \<and> \<not> float_less (Fin 1000) r"

definition parse_icon :: "hub_config \<Rightarrow> hub_error + hub_config" where
  "parse_icon cfg =
     (case hk_icon cfg of
        [] \<Rightarrow> Inr cfg
      | [c] \<Rightarrow> Inr (cfg\<lparr>hk_symbol_table := CHR ''/'', hk_symbol := c\<rparr>)
      | [t, c] \<Rightarrow> Inr (cfg\<lparr>hk_symbol_table := t, hk_symbol := c\<rparr>)
      | _ \<Rightarrow> Inl (BadIcon (hk_icon cfg)))"

definition resolve_hub :: "rat \<times> rat \<Rightarrow> hub_config \<Rightarrow> hub_error + hub_config" where
  "resolve_hub grid cfg0 =
     and_then (both_or HalfPosition (hk_latitude cfg0) (hk_longitude cfg0)
                \<lparr>pos_lat = Fin (fst grid), pos_lon = Fin (snd grid)\<rparr>) (\<lambda>center.
     and_then (guard_err (radius_ok (hk_radius cfg0)) (BadRadius (hk_radius cfg0))) (\<lambda>_.
     and_then (both_or HalfArea (hk_area_latitude cfg0) (hk_area_longitude cfg0) center) (\<lambda>area.
     let ar = (if float_eq (hk_area_radius cfg0) (Fin 0) then hk_radius cfg0 else hk_area_radius cfg0) in
     and_then (guard_err (radius_ok ar) (BadAreaRadius ar)) (\<lambda>_.
     and_then (guard_err (minute_ns \<le> hk_ttl cfg0 \<and> hk_ttl cfg0 \<le> 1440 * minute_ns) (BadTTL (hk_ttl cfg0)))
       (\<lambda>_. parse_icon (cfg0\<lparr>hk_center := center, hk_area := area, hk_area_radius := ar\<rparr>))))))"

section \<open>State\<close>

record station_state =
  sx_position :: "position option"
  sx_position_at :: int
  sx_symbol_table :: char
  sx_symbol :: char
  sx_course :: int
  sx_speed :: float64
  sx_altitude :: "float64 option"
  sx_name :: string
  sx_comment :: string
  sx_status :: string
  sx_capable :: bool
  sx_origin :: origin
  sx_last_heard :: int
  sx_via :: "string list"
  sx_packets :: nat
  sx_weather :: "weather_report option"
  sx_track :: "track_point list"

record station_record =
  sc_callsign :: string
  sc_self :: bool
  sc_last_digest :: string
  sc_last_packet_at :: int
  sc_dirty :: bool
  sc_state :: station_state

text \<open>
  A transmitter is its readiness under its name.  A pending acknowledgement maps the message id to
  its waiter, and \<open>hu_signals\<close> holds what is buffered in the one-place channel of a waiter.
\<close>

record hub =
  hu_cfg :: hub_config
  hu_sink :: bool
  hu_weather_sink :: bool
  hu_stations :: "(string \<times> station_record) list"
  hu_transmitters :: "(string \<times> bool) list"
  hu_seen :: "(string \<times> int) list"
  hu_recent :: "message_document list"
  hu_ops :: "(packet \<times> string) list"
  hu_accepted :: nat
  hu_dropped :: nat
  hu_filtered :: nat
  hu_expired :: nat
  hu_msg_seq :: int
  hu_pending :: "(string \<times> nat) list"
  hu_signals :: "(nat \<times> string) list"
  hu_waiters :: nat
  hu_gate :: "(string \<Rightarrow> bool) option"
  hu_reports :: "weather_report list"

definition opsQueueSize :: nat where "opsQueueSize = 1024"
definition recentMessagesCap :: nat where "recentMessagesCap = 64"
definition maxTrackPoints :: nat where "maxTrackPoints = 3"
definition trackMoveMinM :: rat where "trackMoveMinM = 30"
definition ackPendingCap :: nat where "ackPendingCap = 64"
definition packetDigestWindow :: int where "packetDigestWindow = 10 * minute_ns"
definition BackendRadio :: string where "BackendRadio = ''aprs-radio''"
definition BackendInternet :: string where "BackendInternet = ''aprs-inet''"
definition StationsTopicPrefix :: string where "StationsTopicPrefix = ''aprs/stations/''"
definition PacketsTopic :: string where "PacketsTopic = ''aprs/packets''"
definition MessagesTopic :: string where "MessagesTopic = ''aprs/messages''"

definition fresh_hub :: "hub_config \<Rightarrow> hub" where
  "fresh_hub cfg =
     \<lparr> hu_cfg = cfg, hu_sink = False, hu_weather_sink = False, hu_stations = [],
       hu_transmitters = [], hu_seen = [], hu_recent = [], hu_ops = [], hu_accepted = 0,
       hu_dropped = 0, hu_filtered = 0, hu_expired = 0, hu_msg_seq = 0, hu_pending = [],
       hu_signals = [], hu_waiters = 0, hu_gate = None, hu_reports = [] \<rparr>"

definition NewHub :: "hub_config \<Rightarrow> panic + hub_error + hub" where
  "NewHub cfg0 =
     (let cfg = hub_defaults cfg0 in
      if \<not> hk_enabled cfg then Inr (Inr (fresh_hub cfg))
      else if \<not> ValidCallsign (hk_callsign cfg) then Inr (Inl (BadCallsign (hk_callsign cfg)))
      else and_then (ParseGridSquare (hk_grid cfg)) (\<lambda>grid.
        Inr (case grid of
               None \<Rightarrow> Inl (BadGrid (hk_grid cfg))
             | Some g \<Rightarrow> and_then (resolve_hub g cfg) (\<lambda>c. Inr (fresh_hub c)))))"

section \<open>Publishing\<close>

text \<open>
  What the sink's broker holds: retained documents by topic suffix, and the others in the order in
  which they arrived.  Without a sink a publication succeeds and does nothing.
\<close>

record sink =
  sk_retained :: "(string \<times> string) list"
  sk_sent :: "(string \<times> string) list"

type_synonym net = "string \<Rightarrow> publication"

definition sink_publish :: "string \<Rightarrow> bool \<Rightarrow> string \<Rightarrow> sink \<Rightarrow> sink" where
  "sink_publish topic retained payload k =
     (if retained then k\<lparr>sk_retained := retain topic payload (sk_retained k)\<rparr>
      else k\<lparr>sk_sent := sk_sent k @ [(topic, payload)]\<rparr>)"

definition publishWithTimeout ::
    "hub \<Rightarrow> net \<Rightarrow> string \<Rightarrow> bool \<Rightarrow> string \<Rightarrow> sink \<Rightarrow> sink \<times> bool" where
  "publishWithTimeout h net topic retained payload k =
     (if \<not> hu_sink h then (k, True)
      else case net topic of
        PubOk \<Rightarrow> (sink_publish topic retained payload k, True)
      | PubLost _ \<Rightarrow> (k, False)
      | PubUnacked _ \<Rightarrow> (sink_publish topic retained payload k, False))"

section \<open>Observations\<close>

text \<open>\<open>Observe\<close> never blocks: a packet that finds the queue full is dropped.\<close>

definition Observe :: "packet \<Rightarrow> string \<Rightarrow> hub \<Rightarrow> hub" where
  "Observe p via h =
     (if length (hu_ops h) < opsQueueSize then h\<lparr>hu_ops := hu_ops h @ [(p, via)]\<rparr>
      else h\<lparr>hu_dropped := hu_dropped h + 1\<rparr>)"

definition kind_text :: "aprs_kind \<Rightarrow> string" where
  "kind_text k =
     (case k of KindPosition \<Rightarrow> ''position'' | KindMessage \<Rightarrow> ''message'' | KindStatus \<Rightarrow> ''status''
      | KindWeather \<Rightarrow> ''weather'' | KindTelemetry \<Rightarrow> ''telemetry'' | KindObject \<Rightarrow> ''object''
      | KindQuery \<Rightarrow> ''query'' | KindOther \<Rightarrow> ''other'')"

definition digest_text :: "aprs_env \<Rightarrow> packet \<Rightarrow> string" where
  "digest_text env p =
     kind_text (pk_kind p) @ ''|'' @ pk_src p @ ''|'' @
     (case pk_timestamp p of None \<Rightarrow> [] | Some t \<Rightarrow> ''t'' @ dec_int t @ ''|'') @
     (case pk_position p of
        None \<Rightarrow> []
      | Some q \<Rightarrow> av_fixed env 4 (pos_lat q) @ '','' @ av_fixed env 4 (pos_lon q) @ ''|'') @
     rune_char (pk_symbol_table p) @ rune_char (pk_symbol p) @ ''|'' @ dec_int (pk_course p) @ ''|'' @
     av_fixed env 1 (pk_speed p) @ ''|'' @
     (case pk_altitude p of None \<Rightarrow> [] | Some a \<Rightarrow> ''a'' @ av_fixed env 0 a @ ''|'') @
     pk_name p @ ''|'' @ pk_comment p @ ''|'' @ pk_status p @ ''|'' @
     (case pk_message p of
        None \<Rightarrow> [] | Some m \<Rightarrow> ''m'' @ am_to m @ '':'' @ am_id m @ '':'' @ am_text m @ ''|'')"

definition packetDigest :: "aprs_env \<Rightarrow> packet \<Rightarrow> string" where
  "packetDigest env p = av_sha env (digest_text env p)"

definition pushTrack :: "math_env \<Rightarrow> position \<Rightarrow> int \<Rightarrow> track_point list \<Rightarrow> track_point list" where
  "pushTrack mt q t track =
     (let new = track @ [\<lparr>tp_lat = pos_lat q, tp_lon = pos_lon q, tp_at = t\<rparr>]
      in if track \<noteq> [] \<and>
            float_less (float_map (\<lambda>x. x * 1000)
              (DistanceKM mt (tp_lat (last track)) (tp_lon (last track)) (pos_lat q) (pos_lon q)))
              (Fin trackMoveMinM)
         then track
         else drop (length new - maxTrackPoints) new)"

text \<open>The steps of \<open>merge\<close>: the position with its movement tail, then the other fields.\<close>

definition same_place :: "position \<Rightarrow> position \<Rightarrow> bool" where
  "same_place a b \<longleftrightarrow> float_eq (pos_lat a) (pos_lat b) \<and> float_eq (pos_lon a) (pos_lon b)"

definition merge_position :: "math_env \<Rightarrow> packet \<Rightarrow> int \<Rightarrow> station_state \<Rightarrow> station_state" where
  "merge_position mt p now st =
     (case pk_position p of
        None \<Rightarrow> st
      | Some q \<Rightarrow>
          (case sx_position st of
             None \<Rightarrow> st\<lparr>sx_position := Some q, sx_position_at := now\<rparr>
           | Some old \<Rightarrow>
               if same_place old q then st
               else st\<lparr>sx_track := pushTrack mt old (sx_position_at st) (sx_track st),
                       sx_position := Some q, sx_position_at := now\<rparr>))"

definition merge_fields :: "packet \<Rightarrow> station_state \<Rightarrow> station_state" where
  "merge_fields p st =
     st\<lparr>sx_symbol := (if pk_symbol p \<noteq> CHR 0x00 then pk_symbol p else sx_symbol st),
        sx_symbol_table := (if pk_symbol p \<noteq> CHR 0x00 then pk_symbol_table p else sx_symbol_table st),
        sx_course := (if pk_kind p = KindPosition then pk_course p else sx_course st),
        sx_speed := (if pk_kind p = KindPosition then pk_speed p else sx_speed st),
        sx_altitude := (if pk_kind p = KindPosition \<and> pk_altitude p \<noteq> None then pk_altitude p else sx_altitude st),
        sx_name := (if pk_name p \<noteq> [] then pk_name p else sx_name st),
        sx_comment := (if pk_comment p \<noteq> [] then pk_comment p else sx_comment st),
        sx_status := (if pk_status p \<noteq> [] then pk_status p else sx_status st),
        sx_capable := (sx_capable st \<or> pk_capable p)\<rparr>"

definition merge_origin :: "packet \<Rightarrow> string \<Rightarrow> origin \<Rightarrow> origin" where
  "merge_origin p via old =
     (if OriginFromPath (pk_path p) \<noteq> OriginUnknown then OriginFromPath (pk_path p)
      else if via = BackendRadio then OriginRF else old)"

definition merge :: "math_env \<Rightarrow> packet \<Rightarrow> string \<Rightarrow> int \<Rightarrow> station_state \<Rightarrow> station_state" where
  "merge mt p via now st =
     (let st1 = merge_fields p (merge_position mt p now st)
      in st1\<lparr>sx_origin := merge_origin p via (sx_origin st1), sx_via := List.insert via (sx_via st1),
             sx_packets := sx_packets st1 + 1, sx_last_heard := now\<rparr>)"

definition blank_state :: station_state where
  "blank_state =
     \<lparr> sx_position = None, sx_position_at = 0, sx_symbol_table = CHR 0x00, sx_symbol = CHR 0x00,
       sx_course = 0, sx_speed = Fin 0, sx_altitude = None, sx_name = [], sx_comment = [],
       sx_status = [], sx_capable = False, sx_origin = OriginUnknown, sx_last_heard = 0, sx_via = [],
       sx_packets = 0, sx_weather = None, sx_track = [] \<rparr>"

definition new_record :: "string \<Rightarrow> station_record" where
  "new_record callsign =
     \<lparr> sc_callsign = callsign, sc_self = False, sc_last_digest = [], sc_last_packet_at = 0,
       sc_dirty = False, sc_state = blank_state \<rparr>"

definition buildStationDoc :: "aprs_env \<Rightarrow> hub_config \<Rightarrow> station_record \<Rightarrow> station_document" where
  "buildStationDoc env cfg r =
     (let st = sc_state r in
      \<lparr> sd_callsign = sc_callsign r, sd_self = sc_self r, sd_name = sx_name st,
        sd_position = sx_position st,
        sd_track = map (\<lambda>t. (tp_lat t, tp_lon t, formatTime env (tp_at t))) (sx_track st),
        sd_symbol_table = (if sx_symbol st = CHR 0x00 then [] else rune_char (sx_symbol_table st)),
        sd_symbol = (if sx_symbol st = CHR 0x00 then [] else rune_char (sx_symbol st)),
        sd_course = sx_course st, sd_speed = sx_speed st, sd_altitude = sx_altitude st,
        sd_comment = sx_comment st, sd_status = sx_status st, sd_capable = sx_capable st,
        sd_distance = (case sx_position st of
            None \<Rightarrow> Fin 0
          | Some q \<Rightarrow> if sc_self r then Fin 0
              else DistanceKM (av_math env) (pos_lat (hk_center cfg)) (pos_lon (hk_center cfg))
                     (pos_lat q) (pos_lon q)),
        sd_origin = sx_origin st, sd_last_heard = formatTime env (sx_last_heard st),
        sd_last_packet = (if sc_last_packet_at r \<noteq> 0 then formatTime env (sc_last_packet_at r) else []),
        sd_via = sort (sx_via st), sd_packets = sx_packets st, sd_weather = sx_weather st \<rparr>)"

definition put_station :: "station_record \<Rightarrow> hub \<Rightarrow> hub" where
  "put_station r h = h\<lparr>hu_stations := AList.update (sc_callsign r) r (hu_stations h)\<rparr>"

text \<open>A document that cannot be encoded leaves the dirty mark as it was.\<close>

definition publishStation :: "aprs_env \<Rightarrow> net \<Rightarrow> station_record \<Rightarrow> hub \<times> sink \<Rightarrow> hub \<times> sink" where
  "publishStation env net r s =
     (case av_station env (buildStationDoc env (hu_cfg (fst s)) r) of
        None \<Rightarrow> s
      | Some payload \<Rightarrow>
          (case publishWithTimeout (fst s) net (StationsTopicPrefix @ sc_callsign r) True payload (snd s) of
             (k, ok) \<Rightarrow> (put_station (r\<lparr>sc_dirty := \<not> ok\<rparr>) (fst s), k)))"

definition packet_doc :: "aprs_env \<Rightarrow> packet \<Rightarrow> string \<Rightarrow> packet_document" where
  "packet_doc env p via =
     \<lparr> pd_kind = pk_kind p, pd_src = pk_src p, pd_dst = pk_dst p, pd_path = pk_path p,
       pd_timestamp = formatTime env (timeValue (pk_timestamp p)), pd_position = pk_position p,
       pd_symbol_table = byteStr (pk_symbol_table p), pd_symbol = byteStr (pk_symbol p),
       pd_course = pk_course p, pd_speed = pk_speed p, pd_altitude = pk_altitude p,
       pd_name = pk_name p, pd_comment = pk_comment p, pd_status = pk_status p,
       pd_capable = pk_capable p, pd_message = pk_message p,
       pd_received_at = formatTime env (pk_received_at p), pd_via = via \<rparr>"

definition publishPacket :: "aprs_env \<Rightarrow> net \<Rightarrow> packet \<Rightarrow> string \<Rightarrow> hub \<Rightarrow> sink \<Rightarrow> sink" where
  "publishPacket env net p via h k =
     (case av_packet env (packet_doc env p via) of
        None \<Rightarrow> k | Some payload \<Rightarrow> fst (publishWithTimeout h net PacketsTopic False payload k))"

section \<open>Received messages\<close>

definition ackKind :: "string \<Rightarrow> string" where
  "ackKind s =
     (if has_prefix ''ack'' s then ''ack'' else if has_prefix ''rej'' s then ''rej'' else [])"

text \<open>The send to the waiter's channel does not block: a second signal is lost.\<close>

definition signalAck :: "string \<Rightarrow> string \<Rightarrow> hub \<Rightarrow> hub" where
  "signalAck msgid kind h =
     (case map_of (hu_pending h) msgid of
        None \<Rightarrow> h
      | Some w \<Rightarrow>
          h\<lparr>hu_pending := AList.delete msgid (hu_pending h),
            hu_signals := (if map_of (hu_signals h) w = None then AList.update w kind (hu_signals h)
                           else hu_signals h)\<rparr>)"

definition routableMessage :: "hub \<Rightarrow> packet \<Rightarrow> bool" where
  "routableMessage h p =
     (case pk_message p of
        None \<Rightarrow> False
      | Some m \<Rightarrow>
          let t = trim_space (am_text m) in
          pk_src p \<noteq> hk_callsign (hu_cfg h) \<and> t \<noteq> [] \<and> ackKind t = [])"

definition senderApproved :: "hub \<Rightarrow> string \<Rightarrow> bool" where
  "senderApproved h callsign =
     (case hu_gate h of None \<Rightarrow> False | Some g \<Rightarrow> g (BaseCallsign callsign))"

definition hub_name :: "hub \<Rightarrow> string" where
  "hub_name h = (if hk_name (hu_cfg h) \<noteq> [] then hk_name (hu_cfg h) else hk_callsign (hu_cfg h))"

definition message_event :: "aprs_env \<Rightarrow> time \<Rightarrow> string \<Rightarrow> string \<Rightarrow> hub \<Rightarrow> event_payload" where
  "message_event env now from txt h =
     (let nowS = av_rfc3339_ns env now in
      \<lparr> ep_schema = WireSchemaVersion, ep_change_id = now, ep_change_type = ''new'',
        ep_event_key = ''aprs:'' @ from @ '':'' @ dec_int now,
        ep_event = \<lparr> hp_source = ''aprs'', hp_source_id = from, hp_category = [],
          hp_event = ''APRS message'', hp_severity = ''severe'', hp_provider_severity = [],
          hp_urgency = ''unknown'', hp_certainty = ''unknown'',
          hp_headline = ''Message from: '' @ from @ '': '' @ txt,
          hp_description = ''Received by '' @ hub_name h @ '' ('' @ hk_callsign (hu_cfg h) @ '')'',
          hp_instruction = [], hp_effective_at = Some nowS,
          hp_expires_at = Some (av_rfc3339_ns env (now + 60 * minute_ns)),
          hp_latitude = None, hp_longitude = None, hp_areas = [], hp_status = ''active'',
          hp_source_url = [], hp_received_at = nowS, hp_updated_at = nowS \<rparr> \<rparr>)"

definition publishMessageEvent :: "aprs_env \<Rightarrow> net \<Rightarrow> time \<Rightarrow> packet \<Rightarrow> aprs_message \<Rightarrow> hub \<Rightarrow> sink \<Rightarrow> sink" where
  "publishMessageEvent env net now p m h k =
     (case av_event env (message_event env now (pk_src p) (trim_space (am_text m)) h) of
        None \<Rightarrow> k | Some payload \<Rightarrow> fst (publishWithTimeout h net ''events'' False payload k))"

definition rx_document :: "aprs_env \<Rightarrow> packet \<Rightarrow> aprs_message \<Rightarrow> string \<Rightarrow> message_document" where
  "rx_document env p m via =
     \<lparr> md_direction = ''rx'', md_from = pk_src p, md_to = am_to m, md_text = am_text m, md_id = am_id m,
       md_received_at = formatTime env (pk_received_at p), md_via = via \<rparr>"

definition push_recent :: "message_document \<Rightarrow> hub \<Rightarrow> hub" where
  "push_recent d h =
     h\<lparr>hu_recent := drop (length (hu_recent h) + 1 - recentMessagesCap) (hu_recent h @ [d])\<rparr>"

text \<open>Neither the routing nor the acknowledgement happens when the document cannot be encoded.\<close>

definition receiveMessage ::
    "aprs_env \<Rightarrow> net \<Rightarrow> time \<Rightarrow> packet \<Rightarrow> aprs_message \<Rightarrow> string \<Rightarrow> hub \<times> sink \<Rightarrow> hub \<times> sink" where
  "receiveMessage env net now p m via s =
     (let d = rx_document env p m via; h = push_recent d (fst s) in
      case av_message env d of
        None \<Rightarrow> (h, snd s)
      | Some payload \<Rightarrow>
          let k = fst (publishWithTimeout h net MessagesTopic False payload (snd s));
              routed = (hk_route (hu_cfg h) \<and> routableMessage h p \<and> senderApproved h (pk_src p));
              k' = (if routed then publishMessageEvent env net now p m h k else k);
              acked = (am_id m \<noteq> [] \<and> length (am_text m) \<ge> 3 \<and> ackKind (am_text m) \<noteq> [])
          in (if acked then signalAck (am_id m) (ackKind (am_text m)) h else h, k'))"

section \<open>The worker\<close>

definition outside_area :: "aprs_env \<Rightarrow> hub_config \<Rightarrow> packet \<Rightarrow> bool" where
  "outside_area env cfg p \<longleftrightarrow>
     (case pk_position p of
        None \<Rightarrow> False
      | Some q \<Rightarrow> float_less (hk_area_radius cfg)
          (DistanceKM (av_math env) (pos_lat (hk_area cfg)) (pos_lon (hk_area cfg)) (pos_lat q) (pos_lon q)))"

definition unix :: "time \<Rightarrow> int" where
  "unix t = t div 1000000000"

definition merge_packet :: "aprs_env \<Rightarrow> int \<Rightarrow> packet \<Rightarrow> string \<Rightarrow> station_record \<Rightarrow> station_record" where
  "merge_packet env now p via r =
     r\<lparr>sc_last_digest := packetDigest env p,
       sc_last_packet_at := (case pk_timestamp p of
          Some t \<Rightarrow> if t > sc_last_packet_at r then t else sc_last_packet_at r
        | None \<Rightarrow> sc_last_packet_at r),
       sc_state := merge (av_math env) p via now (sc_state r)\<rparr>"

text \<open>A decoded weather report joins the station and is handed on; one without a position gets the station's.\<close>

definition place_report :: "station_record \<Rightarrow> weather_report \<Rightarrow> weather_report" where
  "place_report r w =
     (case sx_position (sc_state r) of
        Some q \<Rightarrow>
          if float_eq (wr_latitude w) (Fin 0) \<and> float_eq (wr_longitude w) (Fin 0)
          then w\<lparr>wr_latitude := pos_lat q, wr_longitude := pos_lon q\<rparr> else w
      | None \<Rightarrow> w)"

definition attach_weather :: "aprs_env \<Rightarrow> packet \<Rightarrow> station_record \<times> hub \<Rightarrow> station_record \<times> hub" where
  "attach_weather env p s =
     (case ParseWeather (av_parse env) p of
        None \<Rightarrow> s
      | Some w0 \<Rightarrow>
          let w = place_report (fst s) (w0\<lparr>wr_callsign := pk_src p\<rparr>);
              r = (fst s)\<lparr>sc_state := (sc_state (fst s))\<lparr>sx_weather := Some w\<rparr>\<rparr>
          in (r, put_station r (if hu_weather_sink (snd s)
                                then (snd s)\<lparr>hu_reports := hu_reports (snd s) @ [w]\<rparr> else snd s)))"

definition station_or_new :: "string \<Rightarrow> hub \<Rightarrow> station_record" where
  "station_or_new callsign h =
     (case map_of (hu_stations h) callsign of Some r \<Rightarrow> r | None \<Rightarrow> new_record callsign)"

definition duplicate :: "aprs_env \<Rightarrow> packet \<Rightarrow> string \<Rightarrow> station_record \<Rightarrow> bool" where
  "duplicate env p via r \<longleftrightarrow>
     packetDigest env p = sc_last_digest r \<and> via \<in> set (sx_via (sc_state r))"

text \<open>The part of \<open>apply\<close> after the filters and the check for duplicates.\<close>

definition apply_new ::
    "aprs_env \<Rightarrow> net \<Rightarrow> time \<Rightarrow> packet \<Rightarrow> string \<Rightarrow> hub \<times> sink \<Rightarrow> hub \<times> sink" where
  "apply_new env net now p via s =
     (let h = fst s; digest = packetDigest env p;
          r1 = merge_packet env (unix now) p via (station_or_new (pk_src p) h);
          first = (case map_of (hu_seen h) digest of None \<Rightarrow> True | Some t \<Rightarrow> t = 0);
          h1 = put_station r1 (h\<lparr>hu_seen := AList.update digest (unix now) (hu_seen h)\<rparr>);
          (r2, h2) = attach_weather env p (r1, h1);
          (h3, k3) = publishStation env net r2 (h2, snd s);
          k4 = (if first then publishPacket env net p via h3 k3 else k3)
      in case pk_message p of
           Some m \<Rightarrow>
             if am_to m = hk_callsign (hu_cfg h) then receiveMessage env net now p m via (h3, k4)
             else (h3, k4)
         | None \<Rightarrow> (h3, k4))"

definition apply_op ::
    "aprs_env \<Rightarrow> net \<Rightarrow> time \<Rightarrow> packet \<times> string \<Rightarrow> hub \<times> sink \<Rightarrow> hub \<times> sink" where
  "apply_op env net now op s =
     (let p = fst op; via = snd op in
      if pk_src p = [] \<or> \<not> ValidCallsign (pk_src p) then s
      else
        let h = (fst s)\<lparr>hu_accepted := hu_accepted (fst s) + 1\<rparr>;
            filtered = h\<lparr>hu_filtered := hu_filtered h + 1\<rparr> in
        if hk_exclude (hu_cfg h) \<and> IsInfrastructure p then (filtered, snd s)
        else if outside_area env (hu_cfg h) p then (filtered, snd s)
        else if duplicate env p via (station_or_new (pk_src p) h) then (h, snd s)
        else apply_new env net now p via (h, snd s))"

text \<open>The turn of \<open>run\<close> that takes an observation from the queue.\<close>

definition take_op :: "aprs_env \<Rightarrow> net \<Rightarrow> time \<Rightarrow> hub \<times> sink \<Rightarrow> hub \<times> sink" where
  "take_op env net now s =
     (case hu_ops (fst s) of
        [] \<Rightarrow> s
      | op # ops \<Rightarrow> apply_op env net now op ((fst s)\<lparr>hu_ops := ops\<rparr>, snd s))"

definition publishSelf :: "aprs_env \<Rightarrow> net \<Rightarrow> time \<Rightarrow> hub \<times> sink \<Rightarrow> hub \<times> sink" where
  "publishSelf env net now s =
     (let h = fst s; cfg = hu_cfg h; callsign = hk_callsign cfg in
      if callsign = [] then s
      else
        let r0 = (case map_of (hu_stations h) callsign of
                    Some r \<Rightarrow> r
                  | None \<Rightarrow> (new_record callsign)\<lparr>sc_state := blank_state\<lparr>sx_symbol_table := hk_symbol_table cfg,
                      sx_symbol := hk_symbol cfg, sx_last_heard := unix now\<rparr>\<rparr>);
            st = sc_state r0;
            r = r0\<lparr>sc_self := True,
                   sc_state := st\<lparr>sx_position := (case sx_position st of None \<Rightarrow> Some (hk_center cfg)
                                                 | Some q \<Rightarrow> Some q)\<rparr>\<rparr>
        in publishStation env net r (put_station r h, snd s))"

text \<open>The maintenance tick: expiry, digests out of the window, another try for what is dirty.\<close>

definition stale :: "time \<Rightarrow> hub_config \<Rightarrow> station_record \<Rightarrow> bool" where
  "stale now cfg r \<longleftrightarrow> \<not> sc_self r \<and> sx_last_heard (sc_state r) < unix (now - hk_ttl cfg)"

definition delete_station :: "net \<Rightarrow> station_record \<Rightarrow> hub \<times> sink \<Rightarrow> hub \<times> sink" where
  "delete_station net r s =
     (case publishWithTimeout (fst s) net (StationsTopicPrefix @ sc_callsign r) True [] (snd s) of
        (k, ok) \<Rightarrow> (if ok then (fst s)\<lparr>hu_expired := hu_expired (fst s) + 1\<rparr> else fst s, k))"

definition maintenance :: "aprs_env \<Rightarrow> net \<Rightarrow> time \<Rightarrow> hub \<times> sink \<Rightarrow> hub \<times> sink" where
  "maintenance env net now s =
     (let h = fst s; recs = map snd (hu_stations h);
          h1 = h\<lparr>hu_stations := filter (\<lambda>(c, r). \<not> stale now (hu_cfg h) r) (hu_stations h),
                 hu_seen := filter (\<lambda>(d, t). \<not> t < unix (now - packetDigestWindow)) (hu_seen h)\<rparr>;
          dirty = filter sc_dirty (map snd (hu_stations h1))
      in fold (publishStation env net) dirty
           (fold (delete_station net) (filter (stale now (hu_cfg h)) recs) (h1, snd s)))"

section \<open>Registration and views\<close>

definition SetSink :: "hub \<Rightarrow> hub" where "SetSink h = h\<lparr>hu_sink := True\<rparr>"
definition SetWeatherSink :: "hub \<Rightarrow> hub" where "SetWeatherSink h = h\<lparr>hu_weather_sink := True\<rparr>"

definition SetSenderGate :: "(string \<Rightarrow> bool) option \<Rightarrow> hub \<Rightarrow> hub" where
  "SetSenderGate g h = h\<lparr>hu_gate := g\<rparr>"

definition AddTransmitter :: "string \<Rightarrow> bool \<Rightarrow> hub \<Rightarrow> hub" where
  "AddTransmitter name ready h = h\<lparr>hu_transmitters := AList.update name ready (hu_transmitters h)\<rparr>"

definition RemoveTransmitter :: "string \<Rightarrow> hub \<Rightarrow> hub" where
  "RemoveTransmitter name h = h\<lparr>hu_transmitters := AList.delete name (hu_transmitters h)\<rparr>"

definition Stations :: "aprs_env \<Rightarrow> hub \<Rightarrow> station_document list" where
  "Stations env h =
     sort_key sd_callsign
       (map (buildStationDoc env (hu_cfg h)) (filter (\<lambda>r. \<not> sc_self r) (map snd (hu_stations h))))"

definition own_position :: "hub \<Rightarrow> position" where
  "own_position h =
     (case map_of (hu_stations h) (hk_callsign (hu_cfg h)) of
        Some r \<Rightarrow> (case sx_position (sc_state r) of Some q \<Rightarrow> q | None \<Rightarrow> hk_center (hu_cfg h))
      | None \<Rightarrow> hk_center (hu_cfg h))"

section \<open>Outbound messages\<close>

datatype send_error =
  BadAddressee string | EmptyText | NoTransmitter | TransmitterFailed string string | TooManyPending
| Rejected string | NoAck | Cancelled

definition readyTransmitterFor :: "hub \<Rightarrow> string \<Rightarrow> string option" where
  "readyTransmitterFor h to =
     (let names = sort (map fst (filter (\<lambda>(n, ready). ready) (hu_transmitters h)));
          radio = (if BackendRadio \<in> set names then [BackendRadio] else []);
          internet = (if BackendInternet \<in> set names then [BackendInternet] else []);
          others = filter (\<lambda>n. n \<noteq> BackendRadio \<and> n \<noteq> BackendInternet) names;
          origin = (case map_of (hu_stations h) to of Some r \<Rightarrow> sx_origin (sc_state r) | None \<Rightarrow> OriginUnknown);
          order = (if origin = OriginInternet then internet @ radio else radio @ internet) @ others
      in case order of [] \<Rightarrow> None | n # _ \<Rightarrow> Some n)"

definition tx_document :: "aprs_env \<Rightarrow> time \<Rightarrow> hub \<Rightarrow> string \<Rightarrow> string \<Rightarrow> string \<Rightarrow> string \<Rightarrow> message_document" where
  "tx_document env now h to txt msgid via =
     \<lparr> md_direction = ''tx'', md_from = hk_callsign (hu_cfg h), md_to = to, md_text = txt, md_id = msgid,
       md_received_at = formatTime env (unix now), md_via = via \<rparr>"

definition publishTxMessage ::
    "aprs_env \<Rightarrow> net \<Rightarrow> time \<Rightarrow> string \<Rightarrow> string \<Rightarrow> string \<Rightarrow> string \<Rightarrow> hub \<Rightarrow> sink \<Rightarrow> sink" where
  "publishTxMessage env net now to txt msgid via h k =
     (case av_message env (tx_document env now h to txt msgid via) of
        None \<Rightarrow> k | Some payload \<Rightarrow> fst (publishWithTimeout h net MessagesTopic False payload k))"

text \<open>
  \<open>send\<close> is what the transmitters do: an error for a transmitter, addressee and text, or none.  The
  result of a successful transmission names the transmitter and the text on the air.
\<close>

type_synonym radio = "string \<Rightarrow> string \<Rightarrow> string \<Rightarrow> string option"

definition transmit ::
    "aprs_env \<Rightarrow> net \<Rightarrow> radio \<Rightarrow> time \<Rightarrow> string \<Rightarrow> string \<Rightarrow> string \<Rightarrow> hub \<Rightarrow> sink \<Rightarrow>
      (send_error + string \<times> string) \<times> sink" where
  "transmit env net send now to txt msgid h k =
     (case readyTransmitterFor h to of
        None \<Rightarrow> (Inl NoTransmitter, k)
      | Some tx \<Rightarrow>
          let full = (if msgid = [] then txt else txt @ ''{'' @ msgid @ ''}'') in
          (case send tx to full of
             Some e \<Rightarrow> (Inl (TransmitterFailed tx e), k)
           | None \<Rightarrow> (Inr (tx, full), publishTxMessage env net now to txt msgid tx h k)))"

definition prepare_text :: "int \<Rightarrow> string \<Rightarrow> string" where
  "prepare_text reserve txt = LimitMessageText (NormalizeText ChannelAPRS txt) reserve"

definition SendMessage ::
    "aprs_env \<Rightarrow> net \<Rightarrow> radio \<Rightarrow> time \<Rightarrow> string \<Rightarrow> string \<Rightarrow> hub \<times> sink \<Rightarrow>
      (send_error + string \<times> string) \<times> hub \<times> sink" where
  "SendMessage env net send now to0 txt0 s =
     (let to = NormalizeCallsign to0; txt = prepare_text 0 txt0 in
      if \<not> ValidCallsign to then (Inl (BadAddressee to), s)
      else if txt = [] then (Inl EmptyText, s)
      else (case transmit env net send now to txt [] (fst s) (snd s) of
              (r, k) \<Rightarrow> (r, fst s, k)))"

text \<open>\<open>%05d\<close> of the number modulo 100000.\<close>

definition msg_number :: "int \<Rightarrow> string" where
  "msg_number n = (let t = dec_int (n mod 100000) in replicate (5 - length t) (CHR ''0'') @ t)"

definition cancel_wait :: "string \<Rightarrow> hub \<Rightarrow> hub" where
  "cancel_wait msgid h = h\<lparr>hu_pending := AList.delete msgid (hu_pending h)\<rparr>"

definition register_wait :: "string \<Rightarrow> hub \<Rightarrow> hub" where
  "register_wait msgid h =
     h\<lparr>hu_pending := AList.update msgid (hu_waiters h) (hu_pending h), hu_waiters := hu_waiters h + 1\<rparr>"

text \<open>
  \<open>SendMessageWaitAck\<close> up to its select: a waiter with its message id is registered before the
  message goes out, and taken back when it cannot.
\<close>

record ack_wait =
  aw_waiter :: nat
  aw_id :: string
  aw_to :: string
  aw_text :: string

definition wait_begin ::
    "aprs_env \<Rightarrow> net \<Rightarrow> radio \<Rightarrow> time \<Rightarrow> string \<Rightarrow> string \<Rightarrow> hub \<times> sink \<Rightarrow>
      (send_error + ack_wait) \<times> hub \<times> sink" where
  "wait_begin env net send now to0 txt0 s =
     (let to = NormalizeCallsign to0; txt = prepare_text AckSuffixLen txt0 in
      if \<not> ValidCallsign to then (Inl (BadAddressee to), s)
      else if txt = [] then (Inl EmptyText, s)
      else
        let h = (fst s)\<lparr>hu_msg_seq := hu_msg_seq (fst s) + 1\<rparr>; msgid = msg_number (hu_msg_seq h) in
        if length (hu_pending h) \<ge> ackPendingCap then (Inl TooManyPending, h, snd s)
        else
          let h1 = register_wait msgid h in
          (case transmit env net send now to txt msgid h1 (snd s) of
             (Inl e, k) \<Rightarrow> (Inl e, cancel_wait msgid h1, k)
           | (Inr (tx, full), k) \<Rightarrow>
               (Inr \<lparr>aw_waiter = hu_waiters h, aw_id = msgid, aw_to = to, aw_text = full\<rparr>, h1, k)))"

text \<open>The branches of the select that can be taken, each followed by the deferred clean-up.\<close>

datatype wake = WakeSignal | WakeCancelled | WakeTimeout

definition wait_end :: "wake \<Rightarrow> ack_wait \<Rightarrow> hub \<Rightarrow> ((send_error option) \<times> hub) option" where
  "wait_end b w h =
     (let h' = cancel_wait (aw_id w) h in
      case b of
        WakeSignal \<Rightarrow>
          (case map_of (hu_signals h) (aw_waiter w) of
             None \<Rightarrow> None
           | Some kind \<Rightarrow> Some (if kind = ''rej'' then Some (Rejected (aw_to w)) else None, h'))
      | WakeCancelled \<Rightarrow> Some (Some Cancelled, h')
      | WakeTimeout \<Rightarrow> Some (Some NoAck, h'))"

end
