(* ===== verification/Aprs_Stations.thy ===== *)
theory Aprs_Stations
  imports Aprs_Hub Aprs_Receive Mqtt_Active Bounded_Contract
begin

text \<open>
  The retained station view of the hub over any history: what the broker shows agrees with the
  registry, and the three ways in which it does not.
\<close>

section \<open>Histories\<close>

datatype hub_call =
  CallObserve packet string
| CallRun net time
| CallMaintain net time
| CallSelf net time
| CallSink
| CallWeatherSink
| CallGate "(string \<Rightarrow> bool) option"
| CallAdd string bool
| CallRemove string
| CallSend net radio time string string
| CallWait net radio time string string
| CallWake wake ack_wait

fun hub_do :: "aprs_env \<Rightarrow> hub_call \<Rightarrow> hub \<times> sink \<Rightarrow> hub \<times> sink" where
  "hub_do env (CallObserve p via) s = (Observe p via (fst s), snd s)"
| "hub_do env (CallRun net now) s = take_op env net now s"
| "hub_do env (CallMaintain net now) s = maintenance env net now s"
| "hub_do env (CallSelf net now) s = publishSelf env net now s"
| "hub_do env CallSink s = (SetSink (fst s), snd s)"
| "hub_do env CallWeatherSink s = (SetWeatherSink (fst s), snd s)"
| "hub_do env (CallGate g) s = (SetSenderGate g (fst s), snd s)"
| "hub_do env (CallAdd n r) s = (AddTransmitter n r (fst s), snd s)"
| "hub_do env (CallRemove n) s = (RemoveTransmitter n (fst s), snd s)"
| "hub_do env (CallSend net send now to txt) s = snd (SendMessage env net send now to txt s)"
| "hub_do env (CallWait net send now to txt) s = snd (wait_begin env net send now to txt s)"
| "hub_do env (CallWake b w) s =
     (case wait_end b w (fst s) of None \<Rightarrow> s | Some (_, h) \<Rightarrow> (h, snd s))"

definition hub_run :: "aprs_env \<Rightarrow> hub_call list \<Rightarrow> hub \<times> sink \<Rightarrow> hub \<times> sink" where
  "hub_run env cs s = fold (hub_do env) cs s"

lemma hub_run_simps [simp]:
  "hub_run env [] s = s"
  "hub_run env (c # cs) s = hub_run env cs (hub_do env c s)"
  "hub_run env (cs @ ds) s = hub_run env ds (hub_run env cs s)"
  by (simp_all add: hub_run_def)

lemma hub_run_invariant:
  "P s \<Longrightarrow> (\<And>c s. c \<in> set cs \<Longrightarrow> P s \<Longrightarrow> P (hub_do env c s)) \<Longrightarrow> P (hub_run env cs s)"
  by (induction cs arbitrary: s) auto

section \<open>What the operations change\<close>

text \<open>The part of the state the station view is about.\<close>

definition same_view :: "hub \<Rightarrow> hub \<Rightarrow> bool" where
  "same_view h h' \<longleftrightarrow> hu_cfg h' = hu_cfg h \<and> hu_sink h' = hu_sink h \<and> hu_stations h' = hu_stations h"

lemma same_view_simps [simp]:
  "same_view h h" "same_view h (push_recent d h)" "same_view h (signalAck i kd h)"
  "same_view h (cancel_wait i h)" "same_view h (Observe p via h)"
  by (auto simp: same_view_def push_recent_def signalAck_def cancel_wait_def Observe_def
      split: option.split)

lemma same_view_trans [trans]: "same_view a b \<Longrightarrow> same_view b c \<Longrightarrow> same_view a c"
  by (simp add: same_view_def)

lemma publish_unretained [simp]:
  "sk_retained (fst (publishWithTimeout h net topic False payload k)) = sk_retained k"
  by (simp add: publishWithTimeout_def sink_publish_def split: publication.split)

lemma publishPacket_retained [simp]: "sk_retained (publishPacket env net p via h k) = sk_retained k"
  by (simp add: publishPacket_def split: option.split)

lemma publishMessageEvent_retained [simp]:
  "sk_retained (publishMessageEvent env net now p m h k) = sk_retained k"
  by (simp add: publishMessageEvent_def split: option.split)

lemma publishTxMessage_retained [simp]:
  "sk_retained (publishTxMessage env net now to txt i via h k) = sk_retained k"
  by (simp add: publishTxMessage_def split: option.split)

lemma receiveMessage_view:
  assumes "receiveMessage env net now p m via (h, k) = (h', k')"
  shows "same_view h h'" "sk_retained k' = sk_retained k"
  using assms same_view_trans [OF same_view_simps(2) same_view_simps(3)]
  by (auto simp: receiveMessage_def Let_def split: option.splits if_splits)

lemma transmit_retained:
  "transmit env net send now to txt i h k = (r, k') \<Longrightarrow> sk_retained k' = sk_retained k"
  by (auto simp: transmit_def Let_def split: option.splits)

lemma SendMessage_view:
  "SendMessage env net send now to txt (h, k) = (r, h', k') \<Longrightarrow> h' = h \<and> sk_retained k' = sk_retained k"
  by (auto simp: SendMessage_def Let_def dest: transmit_retained split: if_splits prod.splits)

lemma wait_begin_view:
  "wait_begin env net send now to txt (h, k) = (r, h', k') \<Longrightarrow>
    same_view h h' \<and> sk_retained k' = sk_retained k"
  by (auto simp: wait_begin_def register_wait_def Let_def same_view_def cancel_wait_def dest: transmit_retained
      split: if_splits prod.splits sum.splits)

lemma wait_end_view: "wait_end b w h = Some (r, h') \<Longrightarrow> same_view h h'"
  by (auto simp: wait_end_def Let_def split: wake.splits option.splits)

section \<open>The view invariant\<close>

definition roster_ok :: "hub \<Rightarrow> bool" where
  "roster_ok h \<longleftrightarrow>
     table_ok (hu_stations h) \<and> (\<forall>c r. map_of (hu_stations h) c = Some r \<longrightarrow> sc_callsign r = c)"

text \<open>A record is shown when its document, if it has one, is what the broker retains for it.\<close>

definition shown :: "aprs_env \<Rightarrow> hub_config \<Rightarrow> sink \<Rightarrow> station_record \<Rightarrow> bool" where
  "shown env cfg k r \<longleftrightarrow>
     (\<forall>p. av_station env (buildStationDoc env cfg r) = Some p \<longrightarrow>
        map_of (sk_retained k) (StationsTopicPrefix @ sc_callsign r) = Some p)"

definition clean_shown :: "aprs_env \<Rightarrow> string set \<Rightarrow> hub \<times> sink \<Rightarrow> bool" where
  "clean_shown env except s \<longleftrightarrow>
     (\<forall>c r. map_of (hu_stations (fst s)) c = Some r \<and> c \<notin> except \<and> \<not> sc_dirty r \<longrightarrow>
        shown env (hu_cfg (fst s)) (snd s) r)"

definition view_sound :: "aprs_env \<Rightarrow> hub \<times> sink \<Rightarrow> bool" where
  "view_sound env s \<longleftrightarrow> hu_sink (fst s) \<and> roster_ok (fst s) \<and> clean_shown env {} s"

definition encodes :: "aprs_env \<Rightarrow> bool" where
  "encodes env \<longleftrightarrow> (\<forall>d p. av_station env d = Some p \<longrightarrow> p \<noteq> [])"

lemma view_sound_cong:
  assumes "same_view h h'" "sk_retained k' = sk_retained k"
  shows "view_sound env (h', k') = view_sound env (h, k)"
  using assms by (simp add: view_sound_def same_view_def roster_ok_def clean_shown_def shown_def)

lemma registry_put [simp]: "roster_ok h \<Longrightarrow> roster_ok (put_station r h)"
  by (auto simp: roster_ok_def put_station_def)

lemma roster_upd [simp]:
  "roster_ok (h\<lparr>hu_seen := a\<rparr>) = roster_ok h" "roster_ok (h\<lparr>hu_reports := b\<rparr>) = roster_ok h"
  "roster_ok (h\<lparr>hu_ops := c\<rparr>) = roster_ok h" "roster_ok (h\<lparr>hu_accepted := d\<rparr>) = roster_ok h"
  by (simp_all add: roster_ok_def)

lemma put_station_sel [simp]:
  "map_of (hu_stations (put_station r h)) = (map_of (hu_stations h))(sc_callsign r \<mapsto> r)"
  "hu_cfg (put_station r h) = hu_cfg h" "hu_sink (put_station r h) = hu_sink h"
  by (simp_all add: put_station_def)

lemma clean_shown_put:
  "clean_shown env X (h, k) \<Longrightarrow> clean_shown env (insert (sc_callsign r) X) (put_station r h, k)"
  by (auto simp: clean_shown_def)

lemma shown_other:
  assumes "\<forall>t. t \<noteq> StationsTopicPrefix @ c \<longrightarrow> map_of (sk_retained k') t = map_of (sk_retained k) t"
    and "sc_callsign r \<noteq> c"
  shows "shown env cfg k' r = shown env cfg k r"
  using assms by (simp add: shown_def)

lemma publish_retained_topic:
  assumes "publishWithTimeout h net topic True p k = (k', ok)"
  shows "\<forall>t. t \<noteq> topic \<longrightarrow> map_of (sk_retained k') t = map_of (sk_retained k) t"
    "ok \<Longrightarrow> hu_sink h \<Longrightarrow> map_of (sk_retained k') topic = (if p = [] then None else Some p)"
  using assms by (auto simp: publishWithTimeout_def sink_publish_def split: publication.splits if_splits)

lemma publishStation_view:
  assumes "encodes env" "hu_sink h" "roster_ok h" "clean_shown env (insert (sc_callsign r) X) (h, k)"
    and "map_of (hu_stations h) (sc_callsign r) = Some r"
    and "publishStation env net r (h, k) = (h', k')"
  shows "hu_sink h' \<and> roster_ok h' \<and> clean_shown env (X - {sc_callsign r}) (h', k') \<and> hu_cfg h' = hu_cfg h \<and>
    (\<forall>c. c \<noteq> sc_callsign r \<longrightarrow> map_of (hu_stations h') c = map_of (hu_stations h) c)"
proof (cases "av_station env (buildStationDoc env (hu_cfg h) r)")
  case None
  then have "shown env (hu_cfg h) k r" by (simp add: shown_def)
  moreover have same: "h' = h" "k' = k" using None assms(6) by (simp_all add: publishStation_def)
  ultimately have "clean_shown env (X - {sc_callsign r}) (h, k)"
    using assms(4,5) unfolding clean_shown_def fst_conv snd_conv
    by (metis Diff_iff insert_iff option.inject singletonD)
  then show ?thesis using assms(2,3) same by simp
next
  case (Some p)
  obtain ok where pub: "publishWithTimeout h net (StationsTopicPrefix @ sc_callsign r) True p k = (k', ok)"
    "h' = put_station (r\<lparr>sc_dirty := \<not> ok\<rparr>) h"
    using assms(6) Some by (auto simp: publishStation_def split: prod.splits)
  note other = publish_retained_topic(1) [OF pub(1)]
  have doc: "buildStationDoc env cfg (r\<lparr>sc_dirty := d\<rparr>) = buildStationDoc env cfg r" for cfg d
    by (simp add: buildStationDoc_def Let_def split: option.split)
  have "clean_shown env (X - {sc_callsign r}) (h', k')"
    unfolding clean_shown_def
  proof (intro allI impI)
    fix c r'
    assume c: "map_of (hu_stations (fst (h', k'))) c = Some r' \<and> c \<notin> X - {sc_callsign r} \<and> \<not> sc_dirty r'"
    show "shown env (hu_cfg (fst (h', k'))) (snd (h', k')) r'"
    proof (cases "c = sc_callsign r")
      case True
      with c pub(2) have r': "r' = r\<lparr>sc_dirty := False\<rparr>" "ok" by auto
      with publish_retained_topic(2) [OF pub(1) r'(2) assms(2)] Some assms(1) pub(2) show ?thesis
        by (auto simp: shown_def doc encodes_def)
    next
      case False
      with c pub(2) have r': "map_of (hu_stations h) c = Some r'" by simp
      with assms(3) have "sc_callsign r' = c" by (simp add: roster_ok_def)
      with False have "shown env (hu_cfg h) k' r' = shown env (hu_cfg h) k r'"
        using shown_other [OF other] by simp
      moreover have "shown env (hu_cfg h) k r'"
        using assms(4) c r' False by (auto simp: clean_shown_def)
      ultimately show ?thesis using pub(2) by simp
    qed
  qed
  with assms(2,3) pub(2) show ?thesis by simp
qed

lemma attach_weather_view:
  assumes "attach_weather env p (r, h) = (r', h')" "map_of (hu_stations h) (sc_callsign r) = Some r"
    and "hu_sink h" "roster_ok h" "clean_shown env {sc_callsign r} (h, k)"
  shows "sc_callsign r' = sc_callsign r" "hu_sink h'" "roster_ok h'" "hu_cfg h' = hu_cfg h"
    "clean_shown env {sc_callsign r'} (h', k)" "map_of (hu_stations h') (sc_callsign r') = Some r'"
proof -
  have *: "clean_shown env {sc_callsign r} (h\<lparr>hu_reports := x\<rparr>, k)" "roster_ok (h\<lparr>hu_reports := x\<rparr>)" for x
    using assms(4,5) by (simp_all add: clean_shown_def roster_ok_def)
  have "sc_callsign r' = sc_callsign r \<and> hu_sink h' \<and> roster_ok h' \<and> hu_cfg h' = hu_cfg h \<and>
      clean_shown env {sc_callsign r'} (h', k) \<and> map_of (hu_stations h') (sc_callsign r') = Some r'"
    using assms * clean_shown_put [of env "{sc_callsign r}" _ k "r\<lparr>sc_state := st\<rparr>" for st]
    by (auto simp: attach_weather_def Let_def split: option.splits)
  then show "sc_callsign r' = sc_callsign r" "hu_sink h'" "roster_ok h'" "hu_cfg h' = hu_cfg h"
    "clean_shown env {sc_callsign r'} (h', k)" "map_of (hu_stations h') (sc_callsign r') = Some r'"
    by blast+
qed

lemma station_or_new_callsign: "roster_ok h \<Longrightarrow> sc_callsign (station_or_new c h) = c"
  by (auto simp: station_or_new_def roster_ok_def new_record_def split: option.split)

text \<open>The hub and broker after the station's document was published, and what follows it.\<close>

lemma apply_new_parts:
  assumes "apply_new env net now p via (h, k) = (h', k')"
  obtains r2 h2 h3 k3 where
    "attach_weather env p (merge_packet env (unix now) p via (station_or_new (pk_src p) h),
       put_station (merge_packet env (unix now) p via (station_or_new (pk_src p) h))
         (h\<lparr>hu_seen := AList.update (packetDigest env p) (unix now) (hu_seen h)\<rparr>)) = (r2, h2)"
    "publishStation env net r2 (h2, k) = (h3, k3)" "same_view h3 h'" "sk_retained k' = sk_retained k3"
proof -
  let ?r = "merge_packet env (unix now) p via (station_or_new (pk_src p) h)"
  let ?h = "put_station ?r (h\<lparr>hu_seen := AList.update (packetDigest env p) (unix now) (hu_seen h)\<rparr>)"
  obtain r2 h2 where a: "attach_weather env p (?r, ?h) = (r2, h2)" by fastforce
  obtain h3 k3 where b: "publishStation env net r2 (h2, k) = (h3, k3)" by fastforce
  have "same_view h3 h' \<and> sk_retained k' = sk_retained k3"
    using assms a b receiveMessage_view
    by (auto simp: apply_new_def Let_def split: option.splits if_splits)
  then show thesis using that a b by blast
qed

lemma apply_new_view:
  assumes "encodes env" "view_sound env (h, k)" "apply_new env net now p via (h, k) = (h', k')"
  shows "view_sound env (h', k')"
proof -
  let ?r = "merge_packet env (unix now) p via (station_or_new (pk_src p) h)"
  let ?h0 = "h\<lparr>hu_seen := AList.update (packetDigest env p) (unix now) (hu_seen h)\<rparr>"
  obtain r2 h2 h3 k3 where s: "attach_weather env p (?r, put_station ?r ?h0) = (r2, h2)"
    "publishStation env net r2 (h2, k) = (h3, k3)" "same_view h3 h'" "sk_retained k' = sk_retained k3"
    by (rule apply_new_parts [OF assms(3)])
  have ok: "hu_sink h" "roster_ok h" "clean_shown env {} (h, k)"
    using assms(2) by (simp_all add: view_sound_def)
  have "roster_ok ?h0" "clean_shown env {} (?h0, k)"
    using ok by (simp_all add: roster_ok_def clean_shown_def)
  note p1 = registry_put [OF this(1)] clean_shown_put [OF this(2)]
  have p2: "map_of (hu_stations (put_station ?r ?h0)) (sc_callsign ?r) = Some ?r"
    "hu_sink (put_station ?r ?h0)"
    using ok(1) by simp_all
  note a = attach_weather_view [OF s(1) p2 p1(1) p1(2)]
  have "view_sound env (h3, k3)"
    using publishStation_view [OF assms(1) a(2,3) _ a(6) s(2), of "{}"] a(5)
    by (simp add: view_sound_def)
  then show ?thesis using view_sound_cong [OF s(3,4)] by simp
qed

lemma apply_op_cases:
  "apply_op env net now (p, via) (h, k) = (h, k) \<or>
   (\<exists>a b. apply_op env net now (p, via) (h, k) = (h\<lparr>hu_accepted := a, hu_filtered := b\<rparr>, k)) \<or>
   (\<exists>a. apply_op env net now (p, via) (h, k) = (h\<lparr>hu_accepted := a\<rparr>, k)) \<or>
   (\<exists>a. apply_op env net now (p, via) (h, k) = apply_new env net now p via (h\<lparr>hu_accepted := a\<rparr>, k))"
  unfolding apply_op_def Let_def fst_conv snd_conv by (split if_split)+ blast

lemma apply_op_view:
  assumes "encodes env" "view_sound env (h, k)" "apply_op env net now op (h, k) = (h', k')"
  shows "view_sound env (h', k')"
proof -
  have cnt: "view_sound env (h\<lparr>hu_accepted := a, hu_filtered := b\<rparr>, k)"
    and cnt1: "view_sound env (h\<lparr>hu_accepted := a\<rparr>, k)" for a b
    using view_sound_cong [of h "h\<lparr>hu_accepted := a, hu_filtered := b\<rparr>" k k env]
      view_sound_cong [of h "h\<lparr>hu_accepted := a\<rparr>" k k env] assms(2)
    by (simp_all add: same_view_def)
  show ?thesis
    using assms cnt cnt1 apply_new_view [OF assms(1) cnt1]
    by (auto simp: apply_op_def Let_def split: if_splits)
qed

lemma publishSelf_view:
  assumes "encodes env" "view_sound env (h, k)" "publishSelf env net now (h, k) = (h', k')"
  shows "view_sound env (h', k')"
proof (cases "hk_callsign (hu_cfg h) = []")
  case False
  have ok: "hu_sink h" "roster_ok h" "clean_shown env {} (h, k)"
    using assms(2) by (simp_all add: view_sound_def)
  obtain r where r: "publishStation env net r (put_station r h, k) = (h', k')"
    using assms(3) False by (auto simp: publishSelf_def Let_def)
  show ?thesis
    using publishStation_view [OF assms(1) _ registry_put [OF ok(2)] clean_shown_put [OF ok(3)] _ r] ok(1)
    by (simp add: view_sound_def)
qed (use assms in \<open>simp add: publishSelf_def\<close>)

text \<open>The deletions of a maintenance tick touch the topics of the expired stations only.\<close>

lemma delete_station_frame:
  assumes "delete_station net r (h, k) = (h', k')"
  shows "same_view h h' \<and>
    (\<forall>t. t \<noteq> StationsTopicPrefix @ sc_callsign r \<longrightarrow> map_of (sk_retained k') t = map_of (sk_retained k) t) \<and>
    (hu_sink h \<and> net (StationsTopicPrefix @ sc_callsign r) = PubOk \<longrightarrow>
       map_of (sk_retained k') (StationsTopicPrefix @ sc_callsign r) = None)"
  using assms
  by (auto simp: delete_station_def publishWithTimeout_def sink_publish_def same_view_def
      split: publication.splits if_splits)

lemma deletes_frame:
  assumes "fold (delete_station net) rs (h, k) = (h', k')"
  shows "same_view h h' \<and>
    (\<forall>t. t \<notin> (\<lambda>r. StationsTopicPrefix @ sc_callsign r) ` set rs \<longrightarrow>
       map_of (sk_retained k') t = map_of (sk_retained k) t)"
  using assms
proof (induction rs arbitrary: h k)
  case (Cons r rs)
  obtain h1 k1 where d: "delete_station net r (h, k) = (h1, k1)" by fastforce
  have "fold (delete_station net) rs (h1, k1) = (h', k')" using Cons.prems d by simp
  from Cons.IH [OF this] delete_station_frame [OF d] show ?case
    using same_view_trans by auto
qed simp

lemma deletes_done:
  assumes "fold (delete_station net) rs (h, k) = (h', k')" "hu_sink h" "\<forall>t. net t = PubOk"
  shows "\<forall>r\<in>set rs. map_of (sk_retained k') (StationsTopicPrefix @ sc_callsign r) = None"
  using assms(1,2)
proof (induction rs arbitrary: h k)
  case (Cons r rs)
  obtain h1 k1 where d: "delete_station net r (h, k) = (h1, k1)" by fastforce
  have f: "fold (delete_station net) rs (h1, k1) = (h', k')" using Cons.prems d by simp
  have r: "map_of (sk_retained k1) (StationsTopicPrefix @ sc_callsign r) = None" "hu_sink h1"
    using delete_station_frame [OF d] assms(3) Cons.prems(2) by (auto simp: same_view_def)
  have "map_of (sk_retained k') (StationsTopicPrefix @ sc_callsign r) = None"
  proof (cases "sc_callsign r \<in> sc_callsign ` set rs")
    case True
    then show ?thesis using Cons.IH [OF f r(2)] by auto
  next
    case False
    then have "StationsTopicPrefix @ sc_callsign r \<notin> (\<lambda>r. StationsTopicPrefix @ sc_callsign r) ` set rs"
      by auto
    then show ?thesis using deletes_frame [OF f] r(1) by simp
  qed
  then show ?case using Cons.IH [OF f r(2)] by simp
qed simp

lemma publishes_view:
  assumes "encodes env" "distinct (map sc_callsign rs)" "view_sound env (h, k)"
    and "\<forall>r\<in>set rs. map_of (hu_stations h) (sc_callsign r) = Some r"
    and "fold (publishStation env net) rs (h, k) = (h', k')"
  shows "view_sound env (h', k')"
  using assms(2-)
proof (induction rs arbitrary: h k)
  case (Cons r rs)
  obtain h1 k1 where p: "publishStation env net r (h, k) = (h1, k1)" by fastforce
  have v: "hu_sink h" "roster_ok h" "clean_shown env {} (h, k)"
    using Cons.prems(2) by (simp_all add: view_sound_def)
  then have "clean_shown env (insert (sc_callsign r) {}) (h, k)" unfolding clean_shown_def by blast
  note q = publishStation_view [OF assms(1) v(1,2) this _ p]
  have "view_sound env (h1, k1)" using q Cons.prems(3) by (simp add: view_sound_def)
  moreover have "\<forall>r'\<in>set rs. map_of (hu_stations h1) (sc_callsign r') = Some r'"
  proof
    fix r' assume r': "r' \<in> set rs"
    with Cons.prems(1) have "sc_callsign r' \<noteq> sc_callsign r" by (metis distinct.simps(2) image_eqI list.map(2) list.set_map)
    then show "map_of (hu_stations h1) (sc_callsign r') = Some r'" using q Cons.prems(3) r' by simp
  qed
  ultimately show ?case using Cons.IH [of h1 k1] Cons.prems(1,4) p by simp
qed simp

lemma roster_records:
  assumes "roster_ok h" "r \<in> snd ` set (hu_stations h)"
  shows "map_of (hu_stations h) (sc_callsign r) = Some r"
proof -
  obtain c where "(c, r) \<in> set (hu_stations h)" using assms(2) by auto
  then have "map_of (hu_stations h) c = Some r"
    using assms(1) by (simp add: roster_ok_def table_lookup_iff)
  with assms(1) show ?thesis by (auto simp: roster_ok_def)
qed

lemma roster_callsigns: "roster_ok h \<Longrightarrow> map sc_callsign (map snd (hu_stations h)) = map fst (hu_stations h)"
  by (auto simp: roster_ok_def table_lookup_iff)

definition swept :: "time \<Rightarrow> hub \<Rightarrow> hub" where
  "swept now h =
     h\<lparr>hu_stations := filter (\<lambda>(c, r). \<not> stale now (hu_cfg h) r) (hu_stations h),
       hu_seen := filter (\<lambda>(d, t). \<not> t < unix (now - packetDigestWindow)) (hu_seen h)\<rparr>"

lemma swept_roster:
  assumes "roster_ok h"
  shows "roster_ok (swept now h)"
    "map_of (hu_stations (swept now h)) c =
       (case map_of (hu_stations h) c of
          Some r \<Rightarrow> if stale now (hu_cfg h) r then None else Some r | None \<Rightarrow> None)"
proof -
  show *: "map_of (hu_stations (swept now h)) c =
       (case map_of (hu_stations h) c of
          Some r \<Rightarrow> if stale now (hu_cfg h) r then None else Some r | None \<Rightarrow> None)" for c
    using assms by (simp add: swept_def roster_ok_def map_of_filter_table split: option.split)
  then show "roster_ok (swept now h)"
    using assms by (auto simp: roster_ok_def swept_def split: option.splits if_splits)
qed

lemma maintenance_swept:
  "maintenance env net now (h, k) =
     fold (publishStation env net) (filter sc_dirty (map snd (hu_stations (swept now h))))
       (fold (delete_station net) (filter (stale now (hu_cfg h)) (map snd (hu_stations h))) (swept now h, k))"
  by (simp add: maintenance_def swept_def Let_def)

lemma swept_simps [simp]: "hu_sink (swept now h) = hu_sink h" "hu_cfg (swept now h) = hu_cfg h"
  by (simp_all add: swept_def)

lemma stale_not_swept:
  assumes "roster_ok h" "r \<in> set (filter (stale now (hu_cfg h)) (map snd (hu_stations h)))"
  shows "map_of (hu_stations (swept now h)) (sc_callsign r) = None"
  using assms roster_records [OF assms(1), of r] by (auto simp: swept_roster)

text \<open>The state between the two loops of a tick.\<close>

lemma maintenance_middle:
  assumes "view_sound env (h, k)"
    and "fold (delete_station net) (filter (stale now (hu_cfg h)) (map snd (hu_stations h))) (swept now h, k) = (h1, k1)"
  shows "view_sound env (h1, k1)" "same_view (swept now h) h1"
    "\<forall>r\<in>set (filter sc_dirty (map snd (hu_stations (swept now h)))).
       map_of (hu_stations h1) (sc_callsign r) = Some r"
    "distinct (map sc_callsign (filter sc_dirty (map snd (hu_stations (swept now h)))))"
proof -
  have v: "hu_sink h" "roster_ok h" "clean_shown env {} (h, k)"
    using assms(1) by (simp_all add: view_sound_def)
  note ro = swept_roster(1) [OF v(2), of now]
  show sv: "same_view (swept now h) h1" using deletes_frame [OF assms(2)] by simp
  have "shown env (hu_cfg h) k1 r" if c: "map_of (hu_stations (swept now h)) c = Some r" "\<not> sc_dirty r" for c r
  proof -
    have r: "map_of (hu_stations h) c = Some r" "sc_callsign r = c"
      using c(1) v(2) swept_roster(2) [OF v(2), of now c] by (auto simp: roster_ok_def split: option.splits if_splits)
    have "StationsTopicPrefix @ sc_callsign r \<notin>
        (\<lambda>r. StationsTopicPrefix @ sc_callsign r) ` set (filter (stale now (hu_cfg h)) (map snd (hu_stations h)))"
    proof
      assume "StationsTopicPrefix @ sc_callsign r \<in>
        (\<lambda>r. StationsTopicPrefix @ sc_callsign r) ` set (filter (stale now (hu_cfg h)) (map snd (hu_stations h)))"
      then obtain r' where r': "r' \<in> set (filter (stale now (hu_cfg h)) (map snd (hu_stations h)))"
        "sc_callsign r = sc_callsign r'" by blast
      from stale_not_swept [OF v(2) r'(1)] c(1) r(2) r'(2) show False by simp
    qed
    then have "map_of (sk_retained k1) (StationsTopicPrefix @ sc_callsign r) =
        map_of (sk_retained k) (StationsTopicPrefix @ sc_callsign r)"
      using deletes_frame [OF assms(2)] by blast
    moreover have "shown env (hu_cfg h) k r" using v(3) r(1) c(2) by (auto simp: clean_shown_def)
    ultimately show ?thesis by (simp add: shown_def)
  qed
  then have "view_sound env (swept now h, k1)"
    using v(1) ro by (auto simp: view_sound_def clean_shown_def)
  then show "view_sound env (h1, k1)" using view_sound_cong [OF sv, of k1 k1] by simp
  show "\<forall>r\<in>set (filter sc_dirty (map snd (hu_stations (swept now h)))).
       map_of (hu_stations h1) (sc_callsign r) = Some r"
    using roster_records [OF ro] sv by (auto simp: same_view_def)
  have "distinct (map sc_callsign (map snd (hu_stations (swept now h))))"
    using roster_callsigns [OF ro] ro by (simp only: roster_ok_def table_ok_def)
  then show "distinct (map sc_callsign (filter sc_dirty (map snd (hu_stations (swept now h)))))"
    by (simp only: distinct_map_filter)
qed

lemma maintenance_view:
  assumes "encodes env" "view_sound env (h, k)" "maintenance env net now (h, k) = (h', k')"
  shows "view_sound env (h', k')"
proof -
  obtain h1 k1 where f:
    "fold (delete_station net) (filter (stale now (hu_cfg h)) (map snd (hu_stations h))) (swept now h, k) = (h1, k1)"
    by fastforce
  note m = maintenance_middle [OF assms(2) f]
  show ?thesis
    using publishes_view [OF assms(1) m(4) m(1) m(3)] assms(3) by (simp add: maintenance_swept f)
qed

lemma hub_do_view:
  assumes "encodes env" "view_sound env s"
  shows "view_sound env (hub_do env c s)"
proof -
  obtain h k where s: "s = (h, k)" by fastforce
  note v = assms(2) [unfolded s]
  have cfg: "view_sound env (h', k)" if "same_view h h'" for h'
    using view_sound_cong [OF that, of k k] v by simp
  show ?thesis
  proof (cases c)
    case (CallRun net now)
    have "same_view h (h\<lparr>hu_ops := ops\<rparr>)" for ops by (simp add: same_view_def)
    then show ?thesis
      using CallRun s v apply_op_view [OF assms(1) cfg]
      by (cases "hu_ops h") (simp_all add: take_op_def, metis surj_pair)
  next
    case (CallSend net send now dest body)
    obtain r h' k' where "SendMessage env net send now dest body (h, k) = (r, h', k')"
      by (metis surj_pair)
    with SendMessage_view [OF this] CallSend s v view_sound_cong [of h h k' k env] show ?thesis by simp
  next
    case (CallWait net send now dest body)
    obtain r h' k' where "wait_begin env net send now dest body (h, k) = (r, h', k')"
      by (metis surj_pair)
    with wait_begin_view [OF this] CallWait s v view_sound_cong [of h h' k' k env] show ?thesis by simp
  next
    case (CallWake b w)
    then show ?thesis using s v cfg wait_end_view by (auto split: option.splits)
  next
    case (CallMaintain net now)
    then show ?thesis using maintenance_view [OF assms(1) v] s by (metis hub_do.simps(3) surj_pair)
  next
    case (CallSelf net now)
    then show ?thesis using publishSelf_view [OF assms(1) v] s by (metis hub_do.simps(4) surj_pair)
  next
    case CallSink
    moreover have "same_view h (SetSink h)" using v by (simp add: same_view_def SetSink_def view_sound_def)
    ultimately show ?thesis using cfg s by simp
  qed (use s cfg in \<open>simp_all add: same_view_def SetWeatherSink_def SetSenderGate_def
         Observe_def AddTransmitter_def RemoveTransmitter_def\<close>)
qed

section \<open>A healthy broker\<close>

fun call_net :: "hub_call \<Rightarrow> net option" where
  "call_net (CallRun net now) = Some net"
| "call_net (CallMaintain net now) = Some net"
| "call_net (CallSelf net now) = Some net"
| "call_net _ = None"

definition healthy :: "hub_call \<Rightarrow> bool" where
  "healthy c \<longleftrightarrow> (\<forall>net. call_net c = Some net \<longrightarrow> (\<forall>t. net t = PubOk))"

text \<open>No station waits for another try and nothing is retained for a station that is gone.\<close>

definition tidy :: "hub \<times> sink \<Rightarrow> bool" where
  "tidy s \<longleftrightarrow>
     (\<forall>c r. map_of (hu_stations (fst s)) c = Some r \<longrightarrow> \<not> sc_dirty r) \<and>
     (\<forall>c. map_of (hu_stations (fst s)) c = None \<longrightarrow>
        map_of (sk_retained (snd s)) (StationsTopicPrefix @ c) = None)"

lemma tidy_cong: "same_view h h' \<Longrightarrow> sk_retained k' = sk_retained k \<Longrightarrow> tidy (h', k') = tidy (h, k)"
  by (simp add: tidy_def same_view_def)

lemma tidy_put: "tidy (h, k) \<Longrightarrow> \<not> sc_dirty r \<Longrightarrow> tidy (put_station r h, k)"
  by (auto simp: tidy_def split: if_splits)

lemma publishStation_tidy:
  assumes "tidy (h, k)" "hu_sink h" "\<forall>t. net t = PubOk" "map_of (hu_stations h) (sc_callsign r) = Some r"
    and "publishStation env net r (h, k) = (h', k')"
  shows "tidy (h', k')"
proof (cases "av_station env (buildStationDoc env (hu_cfg h) r)")
  case (Some p)
  then have "h' = put_station (r\<lparr>sc_dirty := False\<rparr>) h"
    "k' = sink_publish (StationsTopicPrefix @ sc_callsign r) True p k"
    using assms(2,3,5) by (auto simp: publishStation_def publishWithTimeout_def)
  then show ?thesis using assms(1) by (auto simp: tidy_def sink_publish_def split: if_splits)
qed (use assms in \<open>simp add: publishStation_def\<close>)

lemma attach_weather_tidy:
  assumes "attach_weather env p (r, h) = (r', h')" "tidy (h, k)" "\<not> sc_dirty r"
  shows "tidy (h', k) \<and> \<not> sc_dirty r'"
proof -
  have "tidy (h\<lparr>hu_reports := x\<rparr>, k)" for x
    using assms(2) by (simp add: tidy_def)
  then show ?thesis
    using assms tidy_put by (auto simp: attach_weather_def Let_def split: option.splits)
qed

lemma apply_op_tidy:
  assumes "tidy (h, k)" "view_sound env (h, k)" "\<forall>t. net t = PubOk" "apply_op env net now op (h, k) = (h', k')"
  shows "tidy (h', k')"
proof -
  obtain p via where op: "op = (p, via)" by fastforce
  have new: "tidy (h', k')" if a: "apply_new env net now p via (h0, k) = (h', k')"
    and t: "tidy (h0, k)" and v: "hu_sink h0" "roster_ok h0" for h0
  proof -
    let ?r = "merge_packet env (unix now) p via (station_or_new (pk_src p) h0)"
    let ?h1 = "h0\<lparr>hu_seen := AList.update (packetDigest env p) (unix now) (hu_seen h0)\<rparr>"
    obtain r2 h2 h3 k3 where s: "attach_weather env p (?r, put_station ?r ?h1) = (r2, h2)"
      "publishStation env net r2 (h2, k) = (h3, k3)" "same_view h3 h'" "sk_retained k' = sk_retained k3"
      by (rule apply_new_parts [OF a])
    have d: "\<not> sc_dirty ?r"
      using t by (auto simp: tidy_def merge_packet_def station_or_new_def new_record_def split: option.split)
    have t1: "tidy (?h1, k)" using t by (simp add: tidy_def)
    note w = attach_weather_tidy [OF s(1) tidy_put [OF t1 d] d]
    have "map_of (hu_stations h2) (sc_callsign r2) = Some r2" "hu_sink h2"
      using s(1) v(1) by (auto simp: attach_weather_def Let_def split: option.splits)
    from publishStation_tidy [OF conjunct1 [OF w] this(2) assms(3) this(1) s(2)]
    show ?thesis using tidy_cong [OF s(3,4)] by simp
  qed
  have "tidy (h\<lparr>hu_accepted := a, hu_filtered := b\<rparr>, k)" "tidy (h\<lparr>hu_accepted := a\<rparr>, k)" for a b
    using assms(1) by (simp_all add: tidy_def)
  then show ?thesis
    using assms(1,2,4) new op
    by (auto simp: apply_op_def Let_def view_sound_def roster_ok_def split: if_splits)
qed

lemma publishes_tidy:
  assumes "\<forall>t. net t = PubOk" "\<forall>r\<in>set rs. map_of (hu_stations h) (sc_callsign r) = Some r"
    and "distinct (map sc_callsign rs)" "hu_sink h" "tidy (h, k)"
    and "fold (publishStation env net) rs (h, k) = (h', k')"
  shows "tidy (h', k')"
  using assms(2-)
proof (induction rs arbitrary: h k)
  case (Cons r rs)
  obtain h1 k1 where p: "publishStation env net r (h, k) = (h1, k1)" by fastforce
  have t: "tidy (h1, k1)" using publishStation_tidy [OF Cons.prems(4,3) assms(1) _ p] Cons.prems(1) by simp
  have "hu_sink h1" "\<forall>c. c \<noteq> sc_callsign r \<longrightarrow> map_of (hu_stations h1) c = map_of (hu_stations h) c"
    using p Cons.prems(3) by (auto simp: publishStation_def split: option.splits prod.splits)
  moreover have "\<forall>r'\<in>set rs. sc_callsign r' \<noteq> sc_callsign r"
    using Cons.prems(2) by (metis distinct.simps(2) image_eqI list.map(2) list.set_map)
  ultimately show ?case using Cons.IH [of h1 k1] Cons.prems t p by simp
qed simp

lemma maintenance_tidy:
  assumes "tidy (h, k)" "view_sound env (h, k)" "\<forall>t. net t = PubOk" "maintenance env net now (h, k) = (h', k')"
  shows "tidy (h', k')"
proof -
  obtain h1 k1 where f:
    "fold (delete_station net) (filter (stale now (hu_cfg h)) (map snd (hu_stations h))) (swept now h, k) = (h1, k1)"
    by fastforce
  note m = maintenance_middle [OF assms(2) f]
  have ro: "roster_ok h" "hu_sink h" using assms(2) by (simp_all add: view_sound_def)
  have "tidy (swept now h, k1)"
    unfolding tidy_def fst_conv snd_conv
  proof (intro conjI allI impI)
    fix c r assume "map_of (hu_stations (swept now h)) c = Some r"
    with assms(1) ro(1) show "\<not> sc_dirty r"
      by (auto simp: swept_roster tidy_def split: option.splits if_splits)
  next
    fix c assume c: "map_of (hu_stations (swept now h)) c = None"
    show "map_of (sk_retained k1) (StationsTopicPrefix @ c) = None"
    proof (cases "c \<in> sc_callsign ` set (filter (stale now (hu_cfg h)) (map snd (hu_stations h)))")
      case True
      then show ?thesis using deletes_done [OF f _ assms(3)] ro(2) by auto
    next
      case False
      then have "StationsTopicPrefix @ c \<notin> (\<lambda>r. StationsTopicPrefix @ sc_callsign r) `
          set (filter (stale now (hu_cfg h)) (map snd (hu_stations h)))" by auto
      then have same: "map_of (sk_retained k1) (StationsTopicPrefix @ c) = map_of (sk_retained k) (StationsTopicPrefix @ c)"
        using deletes_frame [OF f] by blast
      have "map_of (hu_stations h) c = None"
      proof (rule ccontr)
        assume "map_of (hu_stations h) c \<noteq> None"
        then obtain r where r: "map_of (hu_stations h) c = Some r" by auto
        with c ro(1) have "stale now (hu_cfg h) r" by (simp add: swept_roster split: if_splits)
        moreover have "r \<in> set (map snd (hu_stations h))" using map_of_SomeD [OF r] by force
        moreover have "sc_callsign r = c" using r ro(1) by (simp add: roster_ok_def)
        ultimately show False using False by force
      qed
      then show ?thesis using same assms(1) by (simp add: tidy_def)
    qed
  qed
  then have "tidy (h1, k1)" using tidy_cong [OF m(2), of k1 k1] by simp
  moreover have "hu_sink h1" using m(1) by (simp add: view_sound_def)
  ultimately show ?thesis
    using publishes_tidy [OF assms(3) m(3,4)] assms(4) by (simp add: maintenance_swept f)
qed

lemma publishSelf_tidy:
  assumes "tidy (h, k)" "view_sound env (h, k)" "\<forall>t. net t = PubOk" "publishSelf env net now (h, k) = (h', k')"
  shows "tidy (h', k')"
proof (cases "hk_callsign (hu_cfg h) = []")
  case False
  obtain r where r: "publishStation env net r (put_station r h, k) = (h', k')" "\<not> sc_dirty r"
    using assms(1,4) False
    by (cases "map_of (hu_stations h) (hk_callsign (hu_cfg h))")
      (auto simp: publishSelf_def Let_def new_record_def tidy_def)
  show ?thesis
    using publishStation_tidy [OF tidy_put [OF assms(1) r(2)] _ assms(3) _ r(1)] assms(2)
    by (simp add: view_sound_def)
qed (use assms in \<open>simp add: publishSelf_def\<close>)

lemma hub_do_tidy:
  assumes "tidy s" "view_sound env s" "healthy c"
  shows "tidy (hub_do env c s)"
proof -
  obtain h k where s: "s = (h, k)" by fastforce
  note t = assms(1) [unfolded s] and v = assms(2) [unfolded s]
  have cfg: "tidy (h', k)" if "same_view h h'" for h'
    using tidy_cong [OF that, of k k] t by simp
  show ?thesis
  proof (cases c)
    case (CallRun net now)
    then have n: "\<forall>t. net t = PubOk" using assms(3) by (simp add: healthy_def)
    have sv: "same_view h (h\<lparr>hu_ops := ops\<rparr>)" for ops by (simp add: same_view_def)
    have "view_sound env (h\<lparr>hu_ops := ops\<rparr>, k)" for ops
      using view_sound_cong [OF sv, of k k] v by simp
    then show ?thesis
      using CallRun s t apply_op_tidy [OF cfg [OF sv] _ n]
      by (cases "hu_ops h") (simp_all add: take_op_def, metis surj_pair)
  next
    case (CallSend net send now dest body)
    obtain r h' k' where "SendMessage env net send now dest body (h, k) = (r, h', k')"
      by (metis surj_pair)
    with SendMessage_view [OF this] CallSend s t tidy_cong [of h h k' k] show ?thesis by simp
  next
    case (CallWait net send now dest body)
    obtain r h' k' where "wait_begin env net send now dest body (h, k) = (r, h', k')"
      by (metis surj_pair)
    with wait_begin_view [OF this] CallWait s t tidy_cong [of h h' k' k] show ?thesis by simp
  next
    case (CallWake b w)
    then show ?thesis using s t cfg wait_end_view by (auto split: option.splits)
  next
    case (CallMaintain net now)
    then have n: "\<forall>t. net t = PubOk" using assms(3) by (simp add: healthy_def)
    show ?thesis using maintenance_tidy [OF t v n] s CallMaintain by (metis hub_do.simps(3) surj_pair)
  next
    case (CallSelf net now)
    then have n: "\<forall>t. net t = PubOk" using assms(3) by (simp add: healthy_def)
    show ?thesis using publishSelf_tidy [OF t v n] s CallSelf by (metis hub_do.simps(4) surj_pair)
  next
    case CallSink
    moreover have "same_view h (SetSink h)" using v by (simp add: same_view_def SetSink_def view_sound_def)
    ultimately show ?thesis using cfg s by simp
  qed (use s cfg in \<open>simp_all add: same_view_def SetWeatherSink_def SetSenderGate_def
         Observe_def AddTransmitter_def RemoveTransmitter_def\<close>)
qed

definition no_sink :: sink where
  "no_sink = \<lparr>sk_retained = [], sk_sent = []\<rparr>"

lemma fresh_view: "view_sound env (SetSink (fresh_hub cfg), no_sink)" "tidy (SetSink (fresh_hub cfg), no_sink)"
  by (simp_all add: view_sound_def tidy_def SetSink_def fresh_hub_def roster_ok_def clean_shown_def no_sink_def)

text \<open>
  C32: the retained station topics show the registry.  From the moment a broker is attached, through
  any history of observations, maintenance and messages, every station that is not marked for
  another try is retained with its current document, whatever fails in between.  As long as
  nothing fails, no station waits for another try and no topic is left for a station that is gone.
\<close>

theorem station_view_exact:
  assumes "encodes env" "hub_run env cs (SetSink (fresh_hub cfg), no_sink) = (h, k)"
  shows "(\<forall>c r p. map_of (hu_stations h) c = Some r \<and> \<not> sc_dirty r \<and>
      av_station env (buildStationDoc env (hu_cfg h) r) = Some p \<longrightarrow>
      map_of (sk_retained k) (StationsTopicPrefix @ c) = Some p) \<and>
    ((\<forall>c\<in>set cs. healthy c) \<longrightarrow>
      (\<forall>c r. map_of (hu_stations h) c = Some r \<longrightarrow> \<not> sc_dirty r) \<and>
      (\<forall>c. map_of (hu_stations h) c = None \<longrightarrow> map_of (sk_retained k) (StationsTopicPrefix @ c) = None))"
proof -
  have v: "view_sound env (hub_run env cs (SetSink (fresh_hub cfg), no_sink))"
    by (rule hub_run_invariant [of "view_sound env"]) (use fresh_view hub_do_view [OF assms(1)] in blast)+
  have "map_of (sk_retained k) (StationsTopicPrefix @ c) = Some p"
    if "map_of (hu_stations h) c = Some r" "\<not> sc_dirty r"
      "av_station env (buildStationDoc env (hu_cfg h) r) = Some p" for c r p
  proof -
    have "sc_callsign r = c" using v that(1) unfolding assms(2) by (simp add: view_sound_def roster_ok_def)
    moreover have "shown env (hu_cfg h) k r"
      using v that unfolding assms(2) view_sound_def clean_shown_def by simp
    ultimately show ?thesis using that(3) by (simp add: shown_def)
  qed
  moreover have "tidy (h, k)" if "\<forall>c\<in>set cs. healthy c"
  proof -
    have "(\<lambda>s. view_sound env s \<and> tidy s) (hub_run env cs (SetSink (fresh_hub cfg), no_sink))"
      by (rule hub_run_invariant) (use fresh_view hub_do_view [OF assms(1)] hub_do_tidy that in blast)+
    then show ?thesis using assms(2) by simp
  qed
  ultimately show ?thesis by (simp add: tidy_def)
qed

text \<open>A hub at work: every encoder answers with a fixed document and nothing fails.\<close>

definition sample_env :: aprs_env where
  "sample_env =
     \<lparr> av_parse = \<lparr>pe_float = (\<lambda>_. None), pe_day = (\<lambda>t. t div 86400000000000), pe_local = (\<lambda>d s. d * 86400 + s)\<rparr>,
       av_math = \<lparr>mt_sin = (\<lambda>x. x), mt_cos = (\<lambda>_. 1), mt_asin = (\<lambda>x. x), mt_sqrt = (\<lambda>x. x), mt_pi = 3\<rparr>,
       av_fixed = (\<lambda>_ _. ''0''), av_sha = (\<lambda>s. s), av_rfc3339 = dec_int, av_rfc3339_ns = dec_int,
       av_station = (\<lambda>d. Some (''station '' @ sd_callsign d)), av_packet = (\<lambda>d. Some (''packet '' @ pd_src d)),
       av_message = (\<lambda>d. Some (''message '' @ md_text d)), av_event = (\<lambda>d. Some (ep_event_key d)) \<rparr>"

definition sample_config :: hub_config where
  "sample_config =
     \<lparr> hk_enabled = True, hk_callsign = ''SP9MOA'', hk_icon = ''/-'', hk_grid = ''JO90'', hk_latitude = None,
       hk_longitude = None, hk_center = \<lparr>pos_lat = Fin 50, pos_lon = Fin 19\<rparr>, hk_radius = Fin 60,
       hk_area_latitude = None, hk_area_longitude = None, hk_area_radius = Fin 60,
       hk_area = \<lparr>pos_lat = Fin 50, pos_lon = Fin 19\<rparr>, hk_ttl = 30 * minute_ns, hk_exclude = True,
       hk_name = ''Moa'', hk_route = True, hk_symbol_table = CHR ''/'', hk_symbol = CHR ''-'' \<rparr>"

definition status_packet :: "string \<Rightarrow> string \<Rightarrow> int \<Rightarrow> packet" where
  "status_packet src s t =
     (blank_packet (src @ ''>APRS:>'' @ s) (t * 1000000000))\<lparr>pk_src := src, pk_dst := ''APRS'',
        pk_kind := KindStatus, pk_status := s\<rparr>"

definition calm_net :: net where "calm_net = (\<lambda>_. PubOk)"

definition second :: "int \<Rightarrow> time" where "second n = n * 1000000000"

lemma sample_encodes: "encodes sample_env"
  by (auto simp: encodes_def sample_env_def)

lemma sample_valid [simp]: "ValidCallsign ''SP9ABC''" "ValidCallsign ''SP9XYZ''"
  by (rule wire_valid [OF sample_callsigns(1)], rule wire_valid [OF sample_callsigns(2)])

lemmas hub_eval =
  sample_env_def sample_config_def status_packet_def blank_packet_def Observe_def take_op_def
  apply_op_def apply_new_def outside_area_def station_or_new_def new_record_def blank_state_def
  duplicate_def merge_packet_def merge_def merge_fields_def merge_position_def merge_origin_def
  OriginFromPath_def attach_weather_def ParseWeather_def publishStation_def publishWithTimeout_def
  sink_publish_def publishPacket_def calm_net_def second_def SetSink_def fresh_hub_def no_sink_def
  put_station_def IsInfrastructure_def opsQueueSize_def buildStationDoc_def StationsTopicPrefix_def
  packet_doc_def Let_def

theorem station_view_exact_witness:
  "map_of (sk_retained (snd (hub_run sample_env [CallObserve (status_packet ''SP9ABC'' ''on air'' 100) BackendRadio,
     CallRun calm_net (second 100)] (SetSink (fresh_hub sample_config), no_sink)))) (''aprs/stations/SP9ABC'') =
   Some ''station SP9ABC''"
proof -
  let ?s = "hub_run sample_env [CallObserve (status_packet ''SP9ABC'' ''on air'' 100) BackendRadio,
     CallRun calm_net (second 100)] (SetSink (fresh_hub sample_config), no_sink)"
  obtain r where r: "map_of (hu_stations (fst ?s)) ''SP9ABC'' = Some r" "\<not> sc_dirty r" "sc_callsign r = ''SP9ABC''"
    by (simp add: hub_eval)
  have doc: "av_station sample_env (buildStationDoc sample_env (hu_cfg (fst ?s)) r) = Some (''station '' @ ''SP9ABC'')"
    using r(3) by (simp add: sample_env_def buildStationDoc_def Let_def)
  show ?thesis
    using station_view_exact [OF sample_encodes surjective_pairing [of ?s]] r doc
    by (simp add: StationsTopicPrefix_def)
qed

end
