(* ===== verification/Aprs_Expiry.thy ===== *)
theory Aprs_Expiry
  imports Aprs_Stations
begin

text \<open>
  Where the retained station view goes wrong: a deletion that fails is forgotten, documents from
  before the broker was attached are never sent, and a station that repeats itself expires.
\<close>

section \<open>What is left alone\<close>

text \<open>A step that does not touch the station \<open>c\<close>, its topic, the queue or the configuration.\<close>

definition leaves :: "string \<Rightarrow> hub \<times> sink \<Rightarrow> hub \<times> sink \<Rightarrow> bool" where
  "leaves c s s' \<longleftrightarrow>
     map_of (hu_stations (fst s')) c = map_of (hu_stations (fst s)) c \<and>
     (roster_ok (fst s) \<longrightarrow> roster_ok (fst s')) \<and> hu_ops (fst s') = hu_ops (fst s) \<and>
     hu_cfg (fst s') = hu_cfg (fst s) \<and>
     map_of (sk_retained (snd s')) (StationsTopicPrefix @ c) =
       map_of (sk_retained (snd s)) (StationsTopicPrefix @ c)"

lemma leaves_refl [simp]: "leaves c s s"
  by (simp add: leaves_def)

lemma leaves_trans [trans]: "leaves c s t \<Longrightarrow> leaves c t u \<Longrightarrow> leaves c s u"
  by (auto simp: leaves_def)

lemma leaves_view:
  "same_view h h' \<Longrightarrow> hu_ops h' = hu_ops h \<Longrightarrow> sk_retained k' = sk_retained k \<Longrightarrow> leaves c (h, k) (h', k')"
  by (simp add: leaves_def same_view_def roster_ok_def)

lemma publishStation_leaves:
  assumes "sc_callsign r \<noteq> c" "publishStation env net r (h, k) = (h', k')"
  shows "leaves c (h, k) (h', k')"
proof (cases "av_station env (buildStationDoc env (hu_cfg h) r)")
  case (Some p)
  obtain ok where pub: "publishWithTimeout h net (StationsTopicPrefix @ sc_callsign r) True p k = (k', ok)"
    "h' = put_station (r\<lparr>sc_dirty := \<not> ok\<rparr>) h"
    using assms(2) Some by (auto simp: publishStation_def split: prod.splits)
  then show ?thesis
    using publish_retained_topic(1) [OF pub(1)] assms(1) by (simp add: leaves_def put_station_def roster_ok_def)
qed (use assms in \<open>simp add: publishStation_def\<close>)

lemma put_leaves: "sc_callsign r \<noteq> c \<Longrightarrow> leaves c (h, k) (put_station r h, k)"
  by (simp add: leaves_def) (simp add: put_station_def)

lemma ops_kept [simp]:
  "hu_ops (put_station r h) = hu_ops h" "hu_ops (push_recent d h) = hu_ops h"
  "hu_ops (signalAck i kd h) = hu_ops h" "hu_ops (cancel_wait i h) = hu_ops h"
  by (simp_all add: put_station_def push_recent_def signalAck_def cancel_wait_def split: option.split)

lemma receiveMessage_ops: "hu_ops (fst (receiveMessage env net now p m via s)) = hu_ops (fst s)"
  by (simp add: receiveMessage_def Let_def split: option.split)

lemma attach_weather_leaves:
  assumes "attach_weather env p (r, h) = (r', h')" "sc_callsign r \<noteq> c"
  shows "leaves c (h, k) (h', k)" "sc_callsign r' = sc_callsign r"
proof -
  have "leaves c (h, k) (h\<lparr>hu_reports := x\<rparr>, k)" for x
    by (simp add: leaves_def roster_ok_def)
  from leaves_trans [OF this put_leaves]
  show "leaves c (h, k) (h', k)" "sc_callsign r' = sc_callsign r"
    using assms put_leaves by (auto simp: attach_weather_def Let_def split: option.splits)
qed

lemma attach_weather_keeps:
  "attach_weather env p (r, h) = (r', h') \<Longrightarrow> roster_ok h \<Longrightarrow> roster_ok h' \<and> hu_sink h' = hu_sink h"
  by (auto simp: attach_weather_def Let_def split: option.splits if_splits)

lemma apply_new_full:
  assumes "apply_new env net now p via (h, k) = (h', k')"
  obtains r2 h2 h3 k3 where
    "attach_weather env p (merge_packet env (unix now) p via (station_or_new (pk_src p) h),
       put_station (merge_packet env (unix now) p via (station_or_new (pk_src p) h))
         (h\<lparr>hu_seen := AList.update (packetDigest env p) (unix now) (hu_seen h)\<rparr>)) = (r2, h2)"
    "publishStation env net r2 (h2, k) = (h3, k3)" "leaves c (h3, k3) (h', k')" "same_view h3 h'"
proof -
  let ?r = "merge_packet env (unix now) p via (station_or_new (pk_src p) h)"
  let ?h = "put_station ?r (h\<lparr>hu_seen := AList.update (packetDigest env p) (unix now) (hu_seen h)\<rparr>)"
  obtain r2 h2 where a: "attach_weather env p (?r, ?h) = (r2, h2)" by fastforce
  obtain h3 k3 where b: "publishStation env net r2 (h2, k) = (h3, k3)" by fastforce
  have rm: "leaves c (h3, k4) (h', k') \<and> same_view h3 h'"
    if "receiveMessage env net now p m via (h3, k4) = (h', k')" for k4 m
    using receiveMessage_view [OF that] receiveMessage_ops [of env net now p m via "(h3, k4)"] that
      leaves_view [of h3 h' k' k4 c] by simp
  have pp: "leaves c (h3, k3) (h3, publishPacket env net p via h3 k3)"
    by (simp add: leaves_def)
  have "leaves c (h3, k3) (h', k') \<and> same_view h3 h'"
    using assms a b rm leaves_trans [OF pp] pp
    by (auto simp: apply_new_def Let_def split: option.splits if_splits)
  then show thesis using that a b by blast
qed

lemma apply_op_leaves:
  assumes "pk_src (fst op) \<noteq> c" "roster_ok h" "apply_op env net now op (h, k) = (h', k')"
  shows "leaves c (h, k) (h', k')"
proof -
  obtain p via where op: "op = (p, via)" by fastforce
  have new: "leaves c (h, k) (h', k')"
    if a: "apply_new env net now p via (h0, k) = (h', k')" and l: "leaves c (h, k) (h0, k)" for h0
  proof -
    let ?r = "merge_packet env (unix now) p via (station_or_new (pk_src p) h0)"
    let ?h1 = "h0\<lparr>hu_seen := AList.update (packetDigest env p) (unix now) (hu_seen h0)\<rparr>"
    obtain r2 h2 h3 k3 where s: "attach_weather env p (?r, put_station ?r ?h1) = (r2, h2)"
      "publishStation env net r2 (h2, k) = (h3, k3)" "leaves c (h3, k3) (h', k')"
      by (rule apply_new_full [OF a])
    have "roster_ok h0" using l assms(2) by (simp add: leaves_def)
    then have r: "sc_callsign ?r \<noteq> c"
      using assms(1) op by (simp add: merge_packet_def station_or_new_callsign)
    have "leaves c (h0, k) (?h1, k)" by (simp add: leaves_def roster_ok_def)
    also have "leaves c (?h1, k) (put_station ?r ?h1, k)" by (rule put_leaves [OF r])
    also have "leaves c \<dots> (h2, k)" by (rule attach_weather_leaves(1) [OF s(1) r])
    also have "leaves c \<dots> (h3, k3)"
      by (rule publishStation_leaves [OF _ s(2)]) (use attach_weather_leaves(2) [OF s(1) r] r in simp)
    finally show ?thesis using l s(3) leaves_trans by blast
  qed
  have "leaves c (h, k) (h\<lparr>hu_accepted := a, hu_filtered := b\<rparr>, k)" "leaves c (h, k) (h\<lparr>hu_accepted := a\<rparr>, k)"
    for a b by (simp_all add: leaves_def roster_ok_def)
  then show ?thesis using assms(3) new op by (auto simp: apply_op_def Let_def split: if_splits)
qed

lemma deletes_ops: "hu_ops (fst (fold (delete_station net) rs s)) = hu_ops (fst s)"
  by (induction rs arbitrary: s) (simp_all add: delete_station_def split: prod.split)

lemma deletes_leave:
  assumes "fold (delete_station net) rs (h, k) = (h', k')" "\<forall>r\<in>set rs. sc_callsign r \<noteq> c"
  shows "leaves c (h, k) (h', k')"
proof -
  have "StationsTopicPrefix @ c \<notin> (\<lambda>r. StationsTopicPrefix @ sc_callsign r) ` set rs"
    using assms(2) by auto
  then have "map_of (sk_retained k') (StationsTopicPrefix @ c) = map_of (sk_retained k) (StationsTopicPrefix @ c)"
    using deletes_frame [OF assms(1)] by blast
  moreover have "same_view h h'" using deletes_frame [OF assms(1)] by blast
  moreover have "hu_ops h' = hu_ops h" using deletes_ops [of net rs "(h, k)"] assms(1) by simp
  ultimately show ?thesis by (simp add: leaves_def same_view_def roster_ok_def)
qed

lemma deletes_lost:
  assumes "fold (delete_station net) rs (h, k) = (h', k')" "net t = PubLost e"
  shows "map_of (sk_retained k') t = map_of (sk_retained k) t"
  using assms(1)
proof (induction rs arbitrary: h k)
  case (Cons r rs)
  obtain h1 k1 where d: "delete_station net r (h, k) = (h1, k1)" by fastforce
  have "map_of (sk_retained k1) t = map_of (sk_retained k) t"
    using d assms(2)
    by (auto simp: delete_station_def publishWithTimeout_def sink_publish_def split: publication.splits if_splits)
  then show ?case using Cons.IH [of h1 k1] Cons.prems d by simp
qed simp

lemma publishes_leave:
  assumes "fold (publishStation env net) rs (h, k) = (h', k')" "\<forall>r\<in>set rs. sc_callsign r \<noteq> c"
  shows "leaves c (h, k) (h', k')"
  using assms
proof (induction rs arbitrary: h k)
  case (Cons r rs)
  obtain h1 k1 where p: "publishStation env net r (h, k) = (h1, k1)" by fastforce
  have "leaves c (h, k) (h1, k1)" using publishStation_leaves [OF _ p] Cons.prems(2) by simp
  also have "leaves c (h1, k1) (h', k')" using Cons.IH [of h1 k1] Cons.prems p by simp
  finally show ?case .
qed simp

section \<open>A deletion that fails\<close>

text \<open>No packet of the station waits or arrives, and the station is not the hub's own.\<close>

fun not_from :: "string \<Rightarrow> hub_call \<Rightarrow> bool" where
  "not_from c (CallObserve p via) = (pk_src p \<noteq> c)"
| "not_from c _ = True"

definition silent :: "string \<Rightarrow> hub \<Rightarrow> bool" where
  "silent c h \<longleftrightarrow>
     map_of (hu_stations h) c = None \<and> roster_ok h \<and> (\<forall>op\<in>set (hu_ops h). pk_src (fst op) \<noteq> c) \<and>
     hk_callsign (hu_cfg h) \<noteq> c"

lemma silent_leaves: "silent c h \<Longrightarrow> leaves c (h, k) (h', k') \<Longrightarrow> silent c h'"
  by (simp add: silent_def leaves_def)

lemma maintenance_leaves:
  assumes "roster_ok h" "map_of (hu_stations h) c = None" "maintenance env net now (h, k) = (h', k')"
  shows "leaves c (h, k) (h', k')"
proof -
  obtain h1 k1 where f:
    "fold (delete_station net) (filter (stale now (hu_cfg h)) (map snd (hu_stations h))) (swept now h, k) = (h1, k1)"
    by fastforce
  have other: "sc_callsign r \<noteq> c" if "r \<in> snd ` set (hu_stations h)" for r
    using roster_records [OF assms(1) that] assms(2) by auto
  have "leaves c (h, k) (swept now h, k)"
    using assms(1,2) swept_roster [OF assms(1), of now] by (simp add: leaves_def) (simp add: swept_def)
  also have "leaves c \<dots> (h1, k1)"
    by (rule deletes_leave [OF f]) (use other in auto)
  also have "leaves c \<dots> (h', k')"
  proof (rule publishes_leave)
    show "fold (publishStation env net) (filter sc_dirty (map snd (hu_stations (swept now h)))) (h1, k1) = (h', k')"
      using assms(3) f by (simp add: maintenance_swept)
    show "\<forall>r\<in>set (filter sc_dirty (map snd (hu_stations (swept now h)))). sc_callsign r \<noteq> c"
      using other by (force simp: swept_def)
  qed
  finally show ?thesis .
qed

lemma publishSelf_leaves:
  assumes "roster_ok h" "hk_callsign (hu_cfg h) \<noteq> c" "publishSelf env net now (h, k) = (h', k')"
  shows "leaves c (h, k) (h', k')"
proof (cases "hk_callsign (hu_cfg h) = []")
  case False
  obtain r where r: "publishStation env net r (put_station r h, k) = (h', k')" "sc_callsign r = hk_callsign (hu_cfg h)"
    using assms(1,3) False
    by (cases "map_of (hu_stations h) (hk_callsign (hu_cfg h))")
      (auto simp: publishSelf_def Let_def new_record_def roster_ok_def)
  show ?thesis
    by (rule leaves_trans [OF put_leaves publishStation_leaves [OF _ r(1)]]) (use r(2) assms(2) in auto)
qed (use assms in \<open>simp add: publishSelf_def\<close>)

lemma hub_do_silent:
  assumes "silent c (fst s)" "not_from c call"
  shows "silent c (fst (hub_do env call s)) \<and>
    map_of (sk_retained (snd (hub_do env call s))) (StationsTopicPrefix @ c) =
      map_of (sk_retained (snd s)) (StationsTopicPrefix @ c)"
proof -
  obtain h k h' k' where s: "s = (h, k)" "hub_do env call s = (h', k')" by fastforce
  have si: "silent c h" "roster_ok h" using assms(1) s by (simp_all add: silent_def)
  have step: ?thesis if "leaves c (h, k) (h', k')"
    using silent_leaves [OF si(1) that] that s by (simp add: leaves_def)
  have ops: ?thesis if "same_view h h'" "sk_retained k' = sk_retained k"
      "\<forall>op\<in>set (hu_ops h'). pk_src (fst op) \<noteq> c"
    using that si s by (simp add: silent_def same_view_def roster_ok_def)
  show ?thesis
  proof (cases call)
    case (CallRun net now)
    show ?thesis
    proof (cases "hu_ops h")
      case (Cons op ops)
      have a: "apply_op env net now op (h\<lparr>hu_ops := ops\<rparr>, k) = (h', k')"
        using s CallRun Cons by (simp add: take_op_def)
      have si': "silent c (h\<lparr>hu_ops := ops\<rparr>)" "roster_ok (h\<lparr>hu_ops := ops\<rparr>)"
        using si Cons by (simp_all add: silent_def roster_ok_def)
      have "leaves c (h\<lparr>hu_ops := ops\<rparr>, k) (h', k')"
        by (rule apply_op_leaves [OF _ si'(2) a]) (use si(1) Cons in \<open>simp add: silent_def\<close>)
      with silent_leaves [OF si'(1) this] show ?thesis using s by (simp add: leaves_def)
    qed (use s CallRun assms(1) in \<open>simp add: take_op_def\<close>)
  next
    case (CallMaintain net now)
    then show ?thesis
      by (intro step maintenance_leaves) (use si s in \<open>auto simp: silent_def\<close>)
  next
    case (CallSelf net now)
    then show ?thesis
      by (intro step publishSelf_leaves) (use si s in \<open>auto simp: silent_def\<close>)
  next
    case (CallSend net send now dest body)
    with s have "SendMessage env net send now dest body (h, k) = (fst (SendMessage env net send now dest body (h, k)), h', k')"
      by (metis hub_do.simps(10) prod.collapse)
    from SendMessage_view [OF this] have "leaves c (h, k) (h', k')" by (intro leaves_view) simp_all
    then show ?thesis by (rule step)
  next
    case (CallWait net send now dest body)
    with s have w: "wait_begin env net send now dest body (h, k) = (fst (wait_begin env net send now dest body (h, k)), h', k')"
      by (metis hub_do.simps(11) prod.collapse)
    have "hu_ops h' = hu_ops h"
      using w by (auto simp: wait_begin_def register_wait_def Let_def split: if_splits prod.splits sum.splits)
    with wait_begin_view [OF w] show ?thesis by (intro step leaves_view) simp_all
  next
    case (CallWake b w)
    then have "h' = h \<or> (\<exists>r. wait_end b w h = Some (r, h'))" "k' = k"
      using s by (auto split: option.splits)
    moreover have "hu_ops h' = hu_ops h" if "wait_end b w h = Some (r, h')" for r
      using that by (auto simp: wait_end_def Let_def split: wake.splits option.splits)
    ultimately have "leaves c (h, k) (h', k')" using leaves_view wait_end_view by auto
    then show ?thesis by (rule step)
  qed (use s si assms(2) in \<open>auto simp: silent_def roster_ok_def SetSink_def SetWeatherSink_def SetSenderGate_def
         Observe_def AddTransmitter_def RemoveTransmitter_def split: if_splits\<close>)
qed

text \<open>
  a station whose deletion fails stays on the broker.  The maintenance tick removes the station
  from the registry before it deletes the retained topic, and no later step looks at it: whatever
  follows, short of the station being heard again, the topic keeps the old document.
\<close>

theorem failed_deletion_leaks:
  assumes "roster_ok h" "map_of (hu_stations h) c = Some r" "stale now (hu_cfg h) r"
    and "hk_callsign (hu_cfg h) \<noteq> c" "\<forall>op\<in>set (hu_ops h). pk_src (fst op) \<noteq> c"
    and "map_of (sk_retained k) (StationsTopicPrefix @ c) = Some doc"
    and "net (StationsTopicPrefix @ c) = PubLost e" "\<forall>call\<in>set cs. not_from c call"
    and "hub_run env (CallMaintain net now # cs) (h, k) = (h', k')"
  shows "map_of (hu_stations h') c = None \<and> map_of (sk_retained k') (StationsTopicPrefix @ c) = Some doc"
proof -
  obtain h2 k2 where m: "maintenance env net now (h, k) = (h2, k2)" by fastforce
  obtain h1 k1 where f:
    "fold (delete_station net) (filter (stale now (hu_cfg h)) (map snd (hu_stations h))) (swept now h, k) = (h1, k1)"
    by fastforce
  note ro = swept_roster [OF assms(1), of now]
  have gone: "map_of (hu_stations (swept now h)) c = None" using ro(2) [of c] assms(2,3) by simp
  have sw: "same_view (swept now h) h1" "hu_ops h1 = hu_ops h"
    using deletes_frame [OF f] deletes_ops [of net "filter (stale now (hu_cfg h)) (map snd (hu_stations h))" "(swept now h, k)"] f
    by (simp_all add: swept_def)
  then have si: "silent c h1"
    using ro(1) gone assms(4,5) by (auto simp: silent_def same_view_def roster_ok_def swept_def)
  have kept: "map_of (sk_retained k1) (StationsTopicPrefix @ c) = Some doc"
    using deletes_lost [OF f assms(7)] assms(6) by simp
  have "leaves c (h1, k1) (h2, k2)"
  proof (rule publishes_leave)
    show "fold (publishStation env net) (filter sc_dirty (map snd (hu_stations (swept now h)))) (h1, k1) = (h2, k2)"
      using m f by (simp add: maintenance_swept)
    show "\<forall>r\<in>set (filter sc_dirty (map snd (hu_stations (swept now h)))). sc_callsign r \<noteq> c"
      using roster_records [OF ro(1)] gone by force
  qed
  then have start: "silent c h2" "map_of (sk_retained k2) (StationsTopicPrefix @ c) = Some doc"
    using silent_leaves [OF si] kept by (simp_all add: leaves_def)
  have "(\<lambda>s. silent c (fst s) \<and> map_of (sk_retained (snd s)) (StationsTopicPrefix @ c) = Some doc)
      (hub_run env cs (h2, k2))"
    by (rule hub_run_invariant) (use start hub_do_silent assms(8) in auto)
  then show ?thesis using assms(9) m by (simp add: silent_def)
qed

text \<open>One station, heard once.\<close>

definition sample_hub :: "hub \<times> sink" where
  "sample_hub =
     hub_run sample_env [CallObserve (status_packet ''SP9ABC'' ''on air'' 100) BackendRadio, CallRun calm_net (second 100)]
       (SetSink (fresh_hub sample_config), no_sink)"

lemma sample_hub_station:
  obtains r where "map_of (hu_stations (fst sample_hub)) ''SP9ABC'' = Some r" "\<not> sc_self r"
    "sx_last_heard (sc_state r) = 100" "hu_cfg (fst sample_hub) = sample_config" "hu_ops (fst sample_hub) = []"
    "map_of (sk_retained (snd sample_hub)) (StationsTopicPrefix @ ''SP9ABC'') = Some ''station SP9ABC''"
    "roster_ok (fst sample_hub)"
proof -
  have ro: "roster_ok (fst sample_hub)"
    by (simp add: sample_hub_def hub_eval roster_ok_def table_ok_def)
  obtain r where "map_of (hu_stations (fst sample_hub)) ''SP9ABC'' = Some r" "\<not> sc_self r"
    "sx_last_heard (sc_state r) = 100" "hu_cfg (fst sample_hub) = sample_config" "hu_ops (fst sample_hub) = []"
    "map_of (sk_retained (snd sample_hub)) (StationsTopicPrefix @ ''SP9ABC'') = Some ''station SP9ABC''"
    by (simp add: sample_hub_def hub_eval unix_def)
  then show thesis using that ro by blast
qed

theorem failed_deletion_leaks_witness:
  "map_of (hu_stations (fst (hub_run sample_env [CallMaintain (\<lambda>_. PubLost ''down'') (second 2000),
      CallMaintain calm_net (second 2030)] sample_hub))) ''SP9ABC'' = None \<and>
   map_of (sk_retained (snd (hub_run sample_env [CallMaintain (\<lambda>_. PubLost ''down'') (second 2000),
      CallMaintain calm_net (second 2030)] sample_hub))) (StationsTopicPrefix @ ''SP9ABC'') = Some ''station SP9ABC''"
proof -
  obtain r where r: "map_of (hu_stations (fst sample_hub)) ''SP9ABC'' = Some r" "\<not> sc_self r"
    "sx_last_heard (sc_state r) = 100" "hu_cfg (fst sample_hub) = sample_config" "hu_ops (fst sample_hub) = []"
    "map_of (sk_retained (snd sample_hub)) (StationsTopicPrefix @ ''SP9ABC'') = Some ''station SP9ABC''"
    "roster_ok (fst sample_hub)"
    by (rule sample_hub_station)
  have "stale (second 2000) (hu_cfg (fst sample_hub)) r"
    using r(2-4) by (simp add: stale_def sample_config_def second_def unix_def minute_ns_def)
  note leak = failed_deletion_leaks [OF r(7,1) this _ _ r(6), where e = "''down''"
      and cs = "[CallMaintain calm_net (second 2030)]"]
  show ?thesis
    by (rule leak) (use r(4,5) in \<open>simp_all add: sample_config_def\<close>)
qed

section \<open>A station that repeats itself\<close>

lemma apply_op_repeated:
  assumes "duplicate env p via (station_or_new (pk_src p) h)"
  shows "hu_stations (fst (apply_op env net now (p, via) (h, k))) = hu_stations h \<and>
    hu_cfg (fst (apply_op env net now (p, via) (h, k))) = hu_cfg h \<and>
    hu_sink (fst (apply_op env net now (p, via) (h, k))) = hu_sink h \<and>
    snd (apply_op env net now (p, via) (h, k)) = k"
  using assms by (simp add: apply_op_def Let_def station_or_new_def)

lemma repeats_ignored:
  assumes "\<forall>(net, t, q)\<in>set bs. duplicate env q via (station_or_new (pk_src q) h)"
    and "fold (\<lambda>(net, t, q). apply_op env net t (q, via)) bs (h, k) = (h', k')"
  shows "hu_stations h' = hu_stations h \<and> hu_cfg h' = hu_cfg h \<and> hu_sink h' = hu_sink h \<and> k' = k"
  using assms
proof (induction bs arbitrary: h k)
  case (Cons b bs)
  obtain net t q where b: "b = (net, t, q)" by (metis prod_cases3)
  obtain h1 k1 where a: "apply_op env net t (q, via) (h, k) = (h1, k1)" by fastforce
  have same: "hu_stations h1 = hu_stations h" "hu_cfg h1 = hu_cfg h" "hu_sink h1 = hu_sink h" "k1 = k"
    using apply_op_repeated [of env q via h net t k] Cons.prems(1) a b by simp_all
  have "\<forall>(net, t, q)\<in>set bs. duplicate env q via (station_or_new (pk_src q) h1)"
    using Cons.prems(1) same(1) by (simp add: station_or_new_def)
  from Cons.IH [OF this] Cons.prems(2) a b same show ?case by simp
qed simp

text \<open>What an observation that is not filtered leaves of its station.\<close>

lemma apply_new_station:
  assumes "apply_new env net now p via (h, k) = (h', k')" "roster_ok h"
  obtains r where "map_of (hu_stations h') (pk_src p) = Some r" "sc_last_digest r = packetDigest env p"
    "via \<in> set (sx_via (sc_state r))" "sx_last_heard (sc_state r) = unix now"
    "sc_self r = sc_self (station_or_new (pk_src p) h)" "hu_cfg h' = hu_cfg h" "hu_sink h' = hu_sink h"
    "roster_ok h'"
proof -
  let ?r = "merge_packet env (unix now) p via (station_or_new (pk_src p) h)"
  let ?h1 = "h\<lparr>hu_seen := AList.update (packetDigest env p) (unix now) (hu_seen h)\<rparr>"
  obtain r2 h2 h3 k3 where s: "attach_weather env p (?r, put_station ?r ?h1) = (r2, h2)"
    "publishStation env net r2 (h2, k) = (h3, k3)" "same_view h3 h'"
    by (rule apply_new_parts [OF assms(1)])
  have r: "sc_callsign ?r = pk_src p" "sc_last_digest ?r = packetDigest env p" "via \<in> set (sx_via (sc_state ?r))"
    "sx_last_heard (sc_state ?r) = unix now" "sc_self ?r = sc_self (station_or_new (pk_src p) h)"
    using station_or_new_callsign [OF assms(2)] by (simp_all add: merge_packet_def merge_def Let_def)
  have r2: "sc_callsign r2 = pk_src p" "sc_last_digest r2 = packetDigest env p" "via \<in> set (sx_via (sc_state r2))"
    "sx_last_heard (sc_state r2) = unix now" "sc_self r2 = sc_self ?r"
    "map_of (hu_stations h2) (sc_callsign r2) = Some r2" "hu_cfg h2 = hu_cfg h"
    using s(1) r by (auto simp: attach_weather_def Let_def split: option.splits)
  have h2: "roster_ok h2" "hu_sink h2 = hu_sink h"
    using attach_weather_keeps [OF s(1)] assms(2) by simp_all
  have "hu_cfg h3 = hu_cfg h2 \<and> hu_sink h3 = hu_sink h2 \<and> roster_ok h3 \<and>
      (\<exists>d. map_of (hu_stations h3) (pk_src p) = Some (r2\<lparr>sc_dirty := d\<rparr>))"
    using s(2) r2(1,6) h2(1)
    by (auto simp: publishStation_def split: option.splits prod.splits intro: exI [of _ "sc_dirty r2"])
  then obtain d where "hu_cfg h' = hu_cfg h" "hu_sink h' = hu_sink h" "roster_ok h'"
    "map_of (hu_stations h') (pk_src p) = Some (r2\<lparr>sc_dirty := d\<rparr>)"
    using s(3) r2(7) h2(2) by (auto simp: same_view_def roster_ok_def)
  then show thesis using that [of "r2\<lparr>sc_dirty := d\<rparr>"] r2 r by simp
qed

text \<open>
  a station that repeats the same report expires while it is being heard.  A report like the
  last one, over the same way, is skipped before the time of last reception is updated.  However
  often a fixed station repeats its beacon after \<open>t0\<close>, the next maintenance tick that is later than
  \<open>t0\<close> by more than the time to live removes it, even right after a beacon.
\<close>

theorem steady_beacon_expires:
  assumes "roster_ok h" "hu_sink h" "\<not> sc_self (station_or_new (pk_src p) h)"
    and "apply_new env net0 t0 p via (h, k) = (h1, k1)"
    and "\<forall>(net, t, q)\<in>set bs. pk_src q = pk_src p \<and> packetDigest env q = packetDigest env p"
    and "fold (\<lambda>(net, t, q). apply_op env net t (q, via)) bs (h1, k1) = (h2, k2)"
    and "unix t0 < unix (t - hk_ttl (hu_cfg h))" "\<forall>s. net s = PubOk"
    and "maintenance env net t (h2, k2) = (h3, k3)"
  shows "map_of (hu_stations h2) (pk_src p) \<noteq> None \<and> map_of (hu_stations h3) (pk_src p) = None \<and>
    map_of (sk_retained k3) (StationsTopicPrefix @ pk_src p) = None"
proof -
  obtain r where r: "map_of (hu_stations h1) (pk_src p) = Some r" "sc_last_digest r = packetDigest env p"
    "via \<in> set (sx_via (sc_state r))" "sx_last_heard (sc_state r) = unix t0"
    "sc_self r = sc_self (station_or_new (pk_src p) h)" "hu_cfg h1 = hu_cfg h"
    "hu_sink h1 = hu_sink h" "roster_ok h1"
    by (rule apply_new_station [OF assms(4,1)])
  have dup: "duplicate env q via (station_or_new (pk_src q) h1)"
    if "(net', t', q) \<in> set bs" for net' t' q
    using assms(5) that r(1-3) by (fastforce simp: duplicate_def station_or_new_def)
  then have same: "hu_stations h2 = hu_stations h1" "hu_cfg h2 = hu_cfg h1" "hu_sink h2 = hu_sink h1"
    using repeats_ignored [OF _ assms(6)] by blast+
  have ro: "roster_ok h2" "hu_sink h2"
    using r(7,8) same assms(2) by (simp_all add: roster_ok_def)
  have st: "stale t (hu_cfg h2) r"
    using r(4,5,6) same(2) assms(3,7) by (simp add: stale_def)
  obtain h' k' where f:
    "fold (delete_station net) (filter (stale t (hu_cfg h2)) (map snd (hu_stations h2))) (swept t h2, k2) = (h', k')"
    by fastforce
  have at: "map_of (hu_stations h2) (pk_src p) = Some r" "sc_callsign r = pk_src p"
    using r(1) same(1) ro(1) by (simp_all add: roster_ok_def)
  then have "r \<in> set (filter (stale t (hu_cfg h2)) (map snd (hu_stations h2)))"
    using map_of_SomeD [OF at(1)] st by force
  then have gone: "map_of (sk_retained k') (StationsTopicPrefix @ pk_src p) = None"
    using deletes_done [OF f _ assms(8)] ro(2) at(2) by force
  have sw: "map_of (hu_stations (swept t h2)) (pk_src p) = None"
    using swept_roster(2) [OF ro(1), of t] at(1) st by simp
  have "leaves (pk_src p) (h', k') (h3, k3)"
  proof (rule publishes_leave)
    show "fold (publishStation env net) (filter sc_dirty (map snd (hu_stations (swept t h2)))) (h', k') = (h3, k3)"
      using assms(9) f by (simp add: maintenance_swept)
    show "\<forall>r\<in>set (filter sc_dirty (map snd (hu_stations (swept t h2)))). sc_callsign r \<noteq> pk_src p"
      using roster_records [OF swept_roster(1) [OF ro(1)], of _ t] sw by force
  qed
  moreover have "map_of (hu_stations h') (pk_src p) = None"
    using deletes_frame [OF f] sw by (simp add: same_view_def)
  ultimately show ?thesis using gone at(1) by (simp add: leaves_def)
qed

definition heard :: "int \<Rightarrow> hub \<times> sink \<Rightarrow> hub \<times> sink" where
  "heard t = apply_op sample_env calm_net (second t) (status_packet ''SP9ABC'' ''on air'' t, BackendRadio)"

text \<open>Heard at seconds 100 and 1900, gone at second 1910, with a time to live of half an hour.\<close>

theorem steady_beacon_expires_witness:
  "map_of (hu_stations (fst (maintenance sample_env calm_net (second 1910)
     (heard 1900 (heard 100 (SetSink (fresh_hub sample_config), no_sink)))))) ''SP9ABC'' = None"
proof -
  let ?s = "(SetSink (fresh_hub sample_config), no_sink)"
  let ?p = "status_packet ''SP9ABC'' ''on air''"
  let ?h = "(SetSink (fresh_hub sample_config))\<lparr>hu_accepted := 1\<rparr>"
  have first: "heard 100 ?s = apply_new sample_env calm_net (second 100) (?p 100) BackendRadio (?h, no_sink)"
    by (simp add: heard_def apply_op_def outside_area_def duplicate_def station_or_new_def new_record_def
        blank_state_def status_packet_def blank_packet_def SetSink_def fresh_hub_def IsInfrastructure_def Let_def)
  have rep: "\<forall>(net, t, q)\<in>set [(calm_net, second 1900, ?p 1900)].
      pk_src q = pk_src (?p 100) \<and> packetDigest sample_env q = packetDigest sample_env (?p 100)"
    by (simp add: status_packet_def blank_packet_def packetDigest_def digest_text_def)
  have src: "pk_src (?p 100) = ''SP9ABC''" by (simp add: status_packet_def)
  have fold: "fold (\<lambda>(net, t, q). apply_op sample_env net t (q, BackendRadio)) [(calm_net, second 1900, ?p 1900)]
      (heard 100 ?s) = heard 1900 (heard 100 ?s)"
    by (simp add: heard_def)
  note expires = steady_beacon_expires [of ?h "?p 100" sample_env calm_net "second 100" BackendRadio no_sink
      "fst (heard 100 ?s)" "snd (heard 100 ?s)" "[(calm_net, second 1900, ?p 1900)]"
      "fst (heard 1900 (heard 100 ?s))" "snd (heard 1900 (heard 100 ?s))" "second 1910" calm_net
      "fst (maintenance sample_env calm_net (second 1910) (heard 1900 (heard 100 ?s)))"
      "snd (maintenance sample_env calm_net (second 1910) (heard 1900 (heard 100 ?s)))"]
  show ?thesis
    using expires rep first fold
    by (simp add: src roster_ok_def table_ok_def SetSink_def fresh_hub_def station_or_new_def new_record_def
        second_def unix_def sample_config_def minute_ns_def calm_net_def)
qed

section \<open>Before the broker is attached\<close>

definition unsent :: "hub \<times> sink \<Rightarrow> bool" where
  "unsent s \<longleftrightarrow> roster_ok (fst s) \<and> (\<forall>c r. map_of (hu_stations (fst s)) c = Some r \<longrightarrow> \<not> sc_dirty r) \<and>
     sk_retained (snd s) = []"

lemma unsent_cong: "same_view h h' \<Longrightarrow> sk_retained k' = sk_retained k \<Longrightarrow> unsent (h', k') = unsent (h, k)"
  by (simp add: unsent_def same_view_def roster_ok_def)

lemma unsent_put: "unsent (h, k) \<Longrightarrow> \<not> sc_dirty r \<Longrightarrow> unsent (put_station r h, k)"
  by (auto simp: unsent_def split: if_splits)

lemma publishStation_unsent:
  assumes "unsent (h, k)" "\<not> hu_sink h" "publishStation env net r (h, k) = (h', k')"
    and "map_of (hu_stations h) (sc_callsign r) = Some r"
  shows "unsent (h', k') \<and> hu_sink h' = hu_sink h"
  using assms unsent_put [OF assms(1), of "r\<lparr>sc_dirty := False\<rparr>"]
  by (auto simp: publishStation_def publishWithTimeout_def split: option.splits)

lemma apply_new_unsent:
  assumes "unsent (h, k)" "\<not> hu_sink h" "apply_new env net now p via (h, k) = (h', k')"
  shows "unsent (h', k') \<and> \<not> hu_sink h'"
proof -
  let ?r = "merge_packet env (unix now) p via (station_or_new (pk_src p) h)"
  let ?h1 = "h\<lparr>hu_seen := AList.update (packetDigest env p) (unix now) (hu_seen h)\<rparr>"
  obtain r2 h2 h3 k3 where s: "attach_weather env p (?r, put_station ?r ?h1) = (r2, h2)"
    "publishStation env net r2 (h2, k) = (h3, k3)" "same_view h3 h'" "sk_retained k' = sk_retained k3"
    by (rule apply_new_parts [OF assms(3)])
  have d: "\<not> sc_dirty ?r"
    using assms(1) by (auto simp: unsent_def merge_packet_def station_or_new_def new_record_def split: option.split)
  have "unsent (put_station ?r ?h1, k)"
    by (rule unsent_put [OF _ d]) (use assms(1) in \<open>simp add: unsent_def\<close>)
  moreover have "unsent (h\<lparr>hu_reports := x\<rparr>, k) = unsent (h, k)" for x h by (simp add: unsent_def)
  ultimately have "unsent (h2, k) \<and> hu_sink h2 = hu_sink h \<and> map_of (hu_stations h2) (sc_callsign r2) = Some r2"
    using s(1) d unsent_put by (auto simp: attach_weather_def Let_def split: option.splits if_splits)
  then show ?thesis
    using publishStation_unsent [OF _ _ s(2)] assms(2) unsent_cong [OF s(3,4)] s(3)
    by (simp add: same_view_def)
qed

lemma deletes_unsent:
  assumes "sk_retained (snd s) = []"
  shows "sk_retained (snd (fold (delete_station net) rs s)) = []"
  using assms
proof (induction rs arbitrary: s)
  case (Cons r rs)
  have "sk_retained (snd (delete_station net r s)) = []"
    using Cons.prems
    by (simp add: delete_station_def publishWithTimeout_def sink_publish_def retain_def
        split: publication.split prod.split)
  from Cons.IH [OF this] show ?case by simp
qed simp

lemma maintenance_unsent:
  assumes "unsent (h, k)" "maintenance env net now (h, k) = (h', k')"
  shows "unsent (h', k') \<and> hu_sink h' = hu_sink h"
proof -
  obtain h1 k1 where f:
    "fold (delete_station net) (filter (stale now (hu_cfg h)) (map snd (hu_stations h))) (swept now h, k) = (h1, k1)"
    by fastforce
  have ro: "roster_ok h" "\<forall>c r. map_of (hu_stations h) c = Some r \<longrightarrow> \<not> sc_dirty r" "sk_retained k = []"
    using assms(1) by (auto simp: unsent_def)
  have clean: "\<not> sc_dirty r" if "map_of (hu_stations (swept now h)) c = Some r" for c r
    using that ro(2) swept_roster(2) [OF ro(1), of now c] by (auto split: option.splits if_splits)
  have "\<forall>r\<in>snd ` set (hu_stations (swept now h)). \<not> sc_dirty r"
    using roster_records [OF swept_roster(1) [OF ro(1), of now]] clean by blast
  then have "filter sc_dirty (map snd (hu_stations (swept now h))) = []"
    by (auto simp: filter_empty_conv)
  then have "h' = h1" "k' = k1" using assms(2) f by (simp_all add: maintenance_swept)
  moreover have "same_view (swept now h) h1" using deletes_frame [OF f] by blast
  moreover have "sk_retained k1 = []"
    using deletes_unsent [of "(swept now h, k)" net "filter (stale now (hu_cfg h)) (map snd (hu_stations h))"] f ro(3)
    by simp
  ultimately show ?thesis
    using swept_roster(1) [OF ro(1), of now] clean
    by (simp add: unsent_def same_view_def roster_ok_def)
qed

lemma hub_do_unsent:
  assumes "unsent s" "\<not> hu_sink (fst s)" "call \<noteq> CallSink"
  shows "unsent (hub_do env call s) \<and> \<not> hu_sink (fst (hub_do env call s))"
proof -
  obtain h k h' k' where s: "s = (h, k)" "hub_do env call s = (h', k')" by fastforce
  have u: "unsent (h, k)" "\<not> hu_sink h" using assms(1,2) s by simp_all
  have view: ?thesis if "same_view h h'" "sk_retained k' = sk_retained k"
    using unsent_cong [OF that] u s that(1) by (simp add: same_view_def)
  show ?thesis
  proof (cases call)
    case (CallRun net now)
    show ?thesis
    proof (cases "hu_ops h")
      case (Cons op ops)
      have a: "apply_op env net now op (h\<lparr>hu_ops := ops\<rparr>, k) = (h', k')"
        using s CallRun Cons by (simp add: take_op_def)
      have u': "unsent (h\<lparr>hu_ops := ops, hu_accepted := x, hu_filtered := y\<rparr>, k)"
        "unsent (h\<lparr>hu_ops := ops, hu_accepted := x\<rparr>, k)" "unsent (h\<lparr>hu_ops := ops\<rparr>, k)" for x y
        using u(1) by (simp_all add: unsent_def roster_ok_def)
      obtain p via where op: "op = (p, via)" by fastforce
      have new: "unsent (h', k') \<and> \<not> hu_sink h'"
        if "apply_new env net now p via (h\<lparr>hu_ops := ops, hu_accepted := x\<rparr>, k) = (h', k')" for x
        by (rule apply_new_unsent [OF u'(2) _ that]) (use u(2) in simp)
      have "unsent (h', k') \<and> \<not> hu_sink h'"
        using apply_op_cases [of env net now p via "h\<lparr>hu_ops := ops\<rparr>" k] u(2) u' new
        unfolding a [unfolded op] by (elim disjE exE) auto
      then show ?thesis using s by simp
    qed (use s CallRun assms in \<open>simp add: take_op_def\<close>)
  next
    case (CallMaintain net now)
    then show ?thesis using maintenance_unsent [OF u(1)] s u(2) by simp
  next
    case (CallSelf net now)
    show ?thesis
    proof (cases "hk_callsign (hu_cfg h) = []")
      case False
      obtain r where r: "publishStation env net r (put_station r h, k) = (h', k')" "\<not> sc_dirty r"
        using u(1) s CallSelf False
        by (cases "map_of (hu_stations h) (hk_callsign (hu_cfg h))")
          (auto simp: publishSelf_def Let_def new_record_def unsent_def)
      show ?thesis using publishStation_unsent [OF unsent_put [OF u(1) r(2)] _ r(1)] u(2) s by simp
    qed (use s CallSelf assms in \<open>simp add: publishSelf_def\<close>)
  next
    case (CallSend net send now dest body)
    with s have "SendMessage env net send now dest body (h, k) = (fst (SendMessage env net send now dest body (h, k)), h', k')"
      by (metis hub_do.simps(10) prod.collapse)
    from SendMessage_view [OF this] show ?thesis by (intro view) simp_all
  next
    case (CallWait net send now dest body)
    with s have w: "wait_begin env net send now dest body (h, k) = (fst (wait_begin env net send now dest body (h, k)), h', k')"
      by (metis hub_do.simps(11) prod.collapse)
    from wait_begin_view [OF w] show ?thesis by (intro view) simp_all
  next
    case (CallWake b w)
    then have "(h' = h \<or> (\<exists>r. wait_end b w h = Some (r, h'))) \<and> k' = k"
      using s by (auto split: option.splits)
    then show ?thesis using wait_end_view by (intro view) auto
  next
    case (CallObserve p via)
    then have "h' = Observe p via h" "k' = k" using s by simp_all
    then show ?thesis by (intro view) simp_all
  qed (use s assms(3) view in \<open>auto simp: SetWeatherSink_def SetSenderGate_def same_view_def
         AddTransmitter_def RemoveTransmitter_def\<close>)
qed

text \<open>
  documents from before the broker is attached are lost.  Without a sink a publication counts as
  done, so nothing is marked for another try: when the sink is attached, the maintenance ticks that
  follow publish none of the stations heard until then.
\<close>

theorem unsent_before_sink:
  assumes "CallSink \<notin> set cs" "\<forall>c\<in>set ds. \<exists>net t. c = CallMaintain net t"
    and "hub_run env (cs @ CallSink # ds) (fresh_hub cfg, no_sink) = (h, k)"
  shows "sk_retained k = []"
proof -
  have "(\<lambda>s. unsent s \<and> \<not> hu_sink (fst s)) (hub_run env cs (fresh_hub cfg, no_sink))"
  proof (rule hub_run_invariant)
    show "unsent (fresh_hub cfg, no_sink) \<and> \<not> hu_sink (fst (fresh_hub cfg, no_sink))"
      by (simp add: unsent_def fresh_hub_def no_sink_def roster_ok_def)
  next
    fix c s assume "c \<in> set cs" "unsent s \<and> \<not> hu_sink (fst s)"
    moreover from this(1) assms(1) have "c \<noteq> CallSink" by auto
    ultimately show "unsent (hub_do env c s) \<and> \<not> hu_sink (fst (hub_do env c s))"
      using hub_do_unsent by blast
  qed
  then have "unsent (hub_do env CallSink (hub_run env cs (fresh_hub cfg, no_sink)))"
    by (cases "hub_run env cs (fresh_hub cfg, no_sink)") (simp add: SetSink_def unsent_def roster_ok_def)
  then have "unsent (hub_run env ds (hub_do env CallSink (hub_run env cs (fresh_hub cfg, no_sink))))"
  proof (rule hub_run_invariant)
    fix c s assume "c \<in> set ds" "unsent s"
    moreover obtain h k where "s = (h, k)" by fastforce
    ultimately show "unsent (hub_do env c s)"
      using assms(2) maintenance_unsent by (metis hub_do.simps(3) surj_pair)
  qed
  then show ?thesis using assms(3) by (simp add: unsent_def)
qed

theorem unsent_before_sink_witness:
  "map_of (hu_stations (fst (hub_run sample_env ([CallObserve (status_packet ''SP9ABC'' ''on air'' 100) BackendRadio,
      CallRun calm_net (second 100)] @ CallSink # [CallMaintain calm_net (second 130)])
      (fresh_hub sample_config, no_sink)))) ''SP9ABC'' \<noteq> None \<and>
   sk_retained (snd (hub_run sample_env ([CallObserve (status_packet ''SP9ABC'' ''on air'' 100) BackendRadio,
      CallRun calm_net (second 100)] @ CallSink # [CallMaintain calm_net (second 130)])
      (fresh_hub sample_config, no_sink))) = []"
proof (rule conjI)
  show "map_of (hu_stations (fst (hub_run sample_env ([CallObserve (status_packet ''SP9ABC'' ''on air'' 100) BackendRadio,
      CallRun calm_net (second 100)] @ CallSink # [CallMaintain calm_net (second 130)])
      (fresh_hub sample_config, no_sink)))) ''SP9ABC'' \<noteq> None"
    by (simp add: hub_eval maintenance_def stale_def unix_def minute_ns_def packetDigestWindow_def)
  show "sk_retained (snd (hub_run sample_env ([CallObserve (status_packet ''SP9ABC'' ''on air'' 100) BackendRadio,
      CallRun calm_net (second 100)] @ CallSink # [CallMaintain calm_net (second 130)])
      (fresh_hub sample_config, no_sink))) = []"
    by (rule unsent_before_sink [OF _ _ surjective_pairing]) simp_all
qed

end
