(* ===== verification/Aprs_Acks.thy ===== *)
theory Aprs_Acks
  imports Aprs_Expiry Sanity_Laws
begin

text \<open>
  Messages of the hub over any history: which operations touch the queues and the pending
  acknowledgements, and what a received acknowledgement proves.
\<close>

section \<open>The message side\<close>

text \<open>The message side of the state, which publishing and merging leave alone.\<close>

definition same_messages :: "hub \<Rightarrow> hub \<Rightarrow> bool" where
  "same_messages h h' \<longleftrightarrow>
     hu_ops h' = hu_ops h \<and> hu_recent h' = hu_recent h \<and> hu_pending h' = hu_pending h \<and>
     hu_signals h' = hu_signals h \<and> hu_waiters h' = hu_waiters h \<and> hu_cfg h' = hu_cfg h \<and>
     hu_sink h' = hu_sink h"

lemma same_messages_refl [simp]: "same_messages h h"
  by (simp add: same_messages_def)

lemma same_messages_trans [trans]: "same_messages a b \<Longrightarrow> same_messages b c \<Longrightarrow> same_messages a c"
  by (simp add: same_messages_def)

lemma put_station_messages [simp]: "same_messages h (put_station r h)"
  by (simp add: same_messages_def put_station_def)

lemma publishStation_messages: "same_messages (fst s) (fst (publishStation env net r s))"
  by (simp add: publishStation_def split: option.split prod.split)

lemma attach_weather_messages: "same_messages (snd s) (snd (attach_weather env p s))"
proof -
  have "same_messages h (put_station r (h\<lparr>hu_reports := x\<rparr>))" for h r x
    by (simp add: same_messages_def put_station_def)
  then show ?thesis by (simp add: attach_weather_def Let_def split: option.split)
qed

lemma publishes_messages: "same_messages (fst s) (fst (fold (publishStation env net) rs s))"
proof (induction rs arbitrary: s)
  case (Cons r rs)
  from same_messages_trans [OF publishStation_messages Cons.IH] show ?case by simp
qed simp

lemma deletes_messages: "same_messages (fst s) (fst (fold (delete_station net) rs s))"
proof (induction rs arbitrary: s)
  case (Cons r rs)
  have "same_messages (fst s) (fst (delete_station net r s))"
    by (simp add: delete_station_def same_messages_def split: prod.split)
  from same_messages_trans [OF this Cons.IH] show ?case by simp
qed simp

lemma maintenance_messages: "same_messages (fst s) (fst (maintenance env net now s))"
proof -
  have "same_messages (fst s) (swept now (fst s))" by (simp add: same_messages_def swept_def)
  also have "same_messages \<dots> (fst (maintenance env net now s))"
    using maintenance_swept [of env net now "fst s" "snd s"]
      same_messages_trans [OF deletes_messages publishes_messages]
    by (metis fst_conv prod.collapse)
  finally show ?thesis .
qed

lemma put_publish_messages: "same_messages h (fst (publishStation env net r (put_station r h, k)))"
  using same_messages_trans [of h "put_station r h"] publishStation_messages [of "(put_station r h, k)" env net r]
  by simp

lemma publishSelf_messages: "same_messages (fst s) (fst (publishSelf env net now s))"
  by (simp add: publishSelf_def Let_def put_publish_messages)

text \<open>An accepted packet changes the message side only when it is a message to the hub's callsign.\<close>

lemma apply_new_messages:
  assumes "apply_new env net now p via (h, k) = (h', k')"
  shows "same_messages h h' \<and> (\<forall>m. pk_message p = Some m \<longrightarrow> am_to m \<noteq> hk_callsign (hu_cfg h)) \<or>
    (\<exists>m h3 k3. pk_message p = Some m \<and> am_to m = hk_callsign (hu_cfg h) \<and> same_messages h h3 \<and>
       receiveMessage env net now p m via (h3, k3) = (h', k'))"
proof -
  let ?r = "merge_packet env (unix now) p via (station_or_new (pk_src p) h)"
  let ?h = "put_station ?r (h\<lparr>hu_seen := AList.update (packetDigest env p) (unix now) (hu_seen h)\<rparr>)"
  obtain r2 h2 where a: "attach_weather env p (?r, ?h) = (r2, h2)" by fastforce
  obtain h3 k3 where b: "publishStation env net r2 (h2, k) = (h3, k3)" by fastforce
  have "same_messages h ?h" by (simp add: same_messages_def put_station_def)
  also have "same_messages ?h h2" using attach_weather_messages [of "(?r, ?h)" env p] a by simp
  also have "same_messages h2 h3" using publishStation_messages [of "(h2, k)" env net r2] b by simp
  finally have "same_messages h h3" .
  then show ?thesis
    using assms a b by (auto simp: apply_new_def Let_def split: option.splits if_splits)
qed

lemma apply_new_receives:
  assumes "apply_new env net now p via (h, k) = (h', k')"
    and "pk_message p = Some m" "am_to m = hk_callsign (hu_cfg h)"
  obtains h3 k3 where "same_messages h h3" "receiveMessage env net now p m via (h3, k3) = (h', k')"
  using apply_new_messages [OF assms(1)] assms(2,3) by auto

lemma apply_op_messages:
  assumes "apply_op env net now (p, via) (h, k) = (h', k')"
  shows "same_messages h h' \<or>
    (\<exists>m h3 k3. pk_message p = Some m \<and> am_to m = hk_callsign (hu_cfg h) \<and> same_messages h h3 \<and>
       receiveMessage env net now p m via (h3, k3) = (h', k'))"
proof -
  have new: ?thesis if n: "apply_new env net now p via (h\<lparr>hu_accepted := a\<rparr>, k) = (h', k')" for a
  proof -
    have same: "same_messages h (h\<lparr>hu_accepted := a\<rparr>)" by (simp add: same_messages_def)
    have cfg: "hu_cfg (h\<lparr>hu_accepted := a\<rparr>) = hu_cfg h" by simp
    show ?thesis
      using apply_new_messages [OF n] same_messages_trans [OF same] unfolding cfg by blast
  qed
  have counters: "same_messages h (h\<lparr>hu_accepted := a\<rparr>)"
    "same_messages h (h\<lparr>hu_accepted := a, hu_filtered := b\<rparr>)" for a b
    by (simp_all add: same_messages_def)
  show ?thesis
    using apply_op_cases [of env net now p via h k] unfolding assms
    by (elim disjE exE) (simp_all add: counters, metis new)
qed

section \<open>Acknowledgements\<close>

text \<open>Waiters are numbered: one number per message, and what is signalled belongs to a number in use.\<close>

definition acks_ok :: "hub \<Rightarrow> bool" where
  "acks_ok h \<longleftrightarrow>
     table_ok (hu_pending h) \<and> (\<forall>i n. map_of (hu_pending h) i = Some n \<longrightarrow> n < hu_waiters h) \<and>
     (\<forall>i j n. map_of (hu_pending h) i = Some n \<and> map_of (hu_pending h) j = Some n \<longrightarrow> i = j) \<and>
     (\<forall>n. map_of (hu_signals h) n \<noteq> None \<longrightarrow>
        n < hu_waiters h \<and> (\<forall>i. map_of (hu_pending h) i \<noteq> Some n))"

lemma map_of_delete: "map_of (AList.delete k m) = (map_of m)(k := None)"
  by (simp add: delete_conv')

lemma acks_cong: "same_messages h h' \<Longrightarrow> acks_ok h' = acks_ok h"
  by (simp add: same_messages_def acks_ok_def)

lemma acks_cancel: "acks_ok h \<Longrightarrow> acks_ok (cancel_wait i h)"
  by (auto simp: acks_ok_def cancel_wait_def map_of_delete)

lemma acks_signal: "acks_ok h \<Longrightarrow> acks_ok (signalAck i kd h)"
  by (auto simp: acks_ok_def signalAck_def map_of_delete split: option.split)

lemma acks_recent: "acks_ok (push_recent d h) = acks_ok h"
  by (simp add: acks_ok_def push_recent_def)

lemma receiveMessage_acks:
  assumes "acks_ok h" "receiveMessage env net now p m via (h, k) = (h', k')"
  shows "acks_ok h' \<and> hu_waiters h' = hu_waiters h \<and>
    (hu_pending h' = hu_pending h \<and> hu_signals h' = hu_signals h \<or>
     (\<exists>n. map_of (hu_pending h) (am_id m) = Some n \<and> ackKind (am_text m) \<noteq> [] \<and>
        hu_pending h' = AList.delete (am_id m) (hu_pending h) \<and>
        hu_signals h' = AList.update n (ackKind (am_text m)) (hu_signals h)))"
proof -
  have free: "map_of (hu_signals h) n = None" if "map_of (hu_pending h) i = Some n" for i n
    using assms(1) that by (auto simp: acks_ok_def)
  have "acks_ok h'"
    using assms acks_signal acks_recent
    by (auto simp: receiveMessage_def Let_def split: option.splits if_splits)
  moreover have "hu_pending (push_recent d h) = hu_pending h" "hu_signals (push_recent d h) = hu_signals h"
    "hu_waiters (push_recent d h) = hu_waiters h" for d
    by (simp_all add: push_recent_def)
  ultimately show ?thesis
    using assms(2) free by (auto simp: receiveMessage_def signalAck_def Let_def split: option.splits if_splits)
qed

lemma msg_number_nonempty: "msg_number n \<noteq> []"
proof -
  have "dec_int (n mod 100000) \<noteq> []" by (simp add: dec_int_def)
  then show ?thesis by (simp add: msg_number_def Let_def)
qed

text \<open>A registered wait: its number is in use under its own id only.\<close>

definition wait_known :: "ack_wait \<Rightarrow> hub \<Rightarrow> bool" where
  "wait_known w h \<longleftrightarrow>
     acks_ok h \<and> aw_waiter w < hu_waiters h \<and>
     (\<forall>i. map_of (hu_pending h) i = Some (aw_waiter w) \<longrightarrow> i = aw_id w)"

lemma wait_known_cong: "same_messages h h' \<Longrightarrow> wait_known w h' = wait_known w h"
  by (simp add: wait_known_def acks_cong) (simp add: same_messages_def)

text \<open>What registering a message does to the state: nothing, a number used up, or a wait.\<close>

lemma wait_begin_cases:
  assumes "wait_begin env net send now to txt (h, k) = (r, h', k')"
  defines "hn \<equiv> h\<lparr>hu_msg_seq := hu_msg_seq h + 1\<rparr>" and "i \<equiv> msg_number (hu_msg_seq h + 1)"
  obtains (refused) e where "h' = h" "k' = k" "r = Inl e"
  | (full) "h' = hn" "k' = k" "r = Inl TooManyPending" "length (hu_pending h) \<ge> ackPendingCap"
  | (failed) e where "h' = cancel_wait i (register_wait i hn)" "r = Inl e" "length (hu_pending h) < ackPendingCap"
  | (sent) w tx where "h' = register_wait i hn" "r = Inr w" "aw_waiter w = hu_waiters h" "aw_id w = i"
      "aw_to w = NormalizeCallsign to" "length (hu_pending h) < ackPendingCap"
      "ValidCallsign (NormalizeCallsign to)"
      "transmit env net send now (NormalizeCallsign to) (prepare_text AckSuffixLen txt) i (register_wait i hn) k
         = (Inr (tx, aw_text w), k')"
proof (cases "ValidCallsign (NormalizeCallsign to)")
  case False
  with assms(1) refused show thesis by (auto simp add: wait_begin_def Let_def)
next
  case valid: True
  show thesis
  proof (cases "prepare_text AckSuffixLen txt = []")
    case True
    with valid assms(1) refused show thesis by (auto simp add: wait_begin_def Let_def)
  next
    case nonempty: False
    show thesis
    proof (cases "length (hu_pending h) \<ge> ackPendingCap")
      case True
      with valid nonempty assms full show thesis by (auto simp add: wait_begin_def Let_def)
    next
      case room: False
      obtain q k2 where t: "transmit env net send now (NormalizeCallsign to) (prepare_text AckSuffixLen txt) i
          (register_wait i hn) k = (q, k2)"
        by fastforce
      note t' = t [unfolded hn_def i_def]
      show thesis
      proof (cases q)
        case (Inl e)
        with valid nonempty room assms(1) t' failed show thesis
          by (auto simp add: wait_begin_def Let_def hn_def i_def)
      next
        case (Inr x)
        obtain tx full where x: "x = (tx, full)" by fastforce
        let ?w = "\<lparr>aw_waiter = hu_waiters h, aw_id = i, aw_to = NormalizeCallsign to, aw_text = full\<rparr>"
        have "h' = register_wait i hn" "r = Inr ?w" "k' = k2"
          using valid nonempty room assms(1) t' Inr x by (simp_all add: wait_begin_def Let_def hn_def i_def)
        with sent [of ?w tx] valid room t Inr x show thesis by simp
      qed
    qed
  qed
qed

lemma acks_okI:
  assumes "table_ok (hu_pending h)" "\<And>i n. map_of (hu_pending h) i = Some n \<Longrightarrow> n < hu_waiters h"
    and "\<And>i j n. map_of (hu_pending h) i = Some n \<Longrightarrow> map_of (hu_pending h) j = Some n \<Longrightarrow> i = j"
    and "\<And>n kd. map_of (hu_signals h) n = Some kd \<Longrightarrow> n < hu_waiters h"
    and "\<And>n kd i. map_of (hu_signals h) n = Some kd \<Longrightarrow> map_of (hu_pending h) i \<noteq> Some n"
  shows "acks_ok h"
  using assms unfolding acks_ok_def by blast

lemma acks_okD:
  assumes "acks_ok h"
  shows "table_ok (hu_pending h)" "map_of (hu_pending h) i = Some n \<Longrightarrow> n < hu_waiters h"
    "map_of (hu_pending h) i = Some n \<Longrightarrow> map_of (hu_pending h) j = Some n \<Longrightarrow> i = j"
    "map_of (hu_signals h) n = Some kd \<Longrightarrow> n < hu_waiters h"
    "map_of (hu_signals h) n = Some kd \<Longrightarrow> map_of (hu_pending h) i \<noteq> Some n"
  using assms unfolding acks_ok_def by blast+

lemma register_wait_sel [simp]:
  "map_of (hu_pending (register_wait i h)) = (map_of (hu_pending h))(i \<mapsto> hu_waiters h)"
  "hu_waiters (register_wait i h) = hu_waiters h + 1"
  "hu_signals (register_wait i h) = hu_signals h"
  by (simp_all add: register_wait_def update_conv')

lemma acks_register:
  assumes "acks_ok h"
  shows "acks_ok (register_wait i h)"
proof (rule acks_okI)
  have fresh: "map_of (hu_pending h) j \<noteq> Some (hu_waiters h)" for j
    using acks_okD(2) [OF assms, of j "hu_waiters h"] by auto
  show "table_ok (hu_pending (register_wait i h))"
    using acks_okD(1) [OF assms] by (simp add: register_wait_def)
  show "n < hu_waiters (register_wait i h)" if "map_of (hu_pending (register_wait i h)) j = Some n" for j n
    using that acks_okD(2) [OF assms, of j n] by (auto split: if_splits)
  show "j = j'" if "map_of (hu_pending (register_wait i h)) j = Some n"
    "map_of (hu_pending (register_wait i h)) j' = Some n" for j j' n
    using that acks_okD(3) [OF assms, of j n j'] fresh by (auto split: if_splits)
  show "n < hu_waiters (register_wait i h)" if "map_of (hu_signals (register_wait i h)) n = Some kd" for n kd
    using that acks_okD(4) [OF assms, of n kd] by simp
  show "map_of (hu_pending (register_wait i h)) j \<noteq> Some n"
    if "map_of (hu_signals (register_wait i h)) n = Some kd" for n kd j
    using that acks_okD(4) [OF assms, of n kd] acks_okD(5) [OF assms, of n kd j] by (auto split: if_splits)
qed

lemma wait_begin_pending:
  assumes "acks_ok h" "wait_begin env net send now to txt (h, k) = (r, h', k')"
  shows "acks_ok h' \<and> hu_waiters h \<le> hu_waiters h' \<and> hu_signals h' = hu_signals h \<and>
    (\<forall>i n. map_of (hu_pending h') i = Some n \<longrightarrow> map_of (hu_pending h) i = Some n \<or> n = hu_waiters h) \<and>
    (\<forall>w. r = Inr w \<longrightarrow> aw_waiter w = hu_waiters h \<and> hu_waiters h' = hu_waiters h + 1 \<and>
       map_of (hu_pending h') (aw_id w) = Some (aw_waiter w))"
proof -
  have a: "acks_ok (h\<lparr>hu_msg_seq := x\<rparr>)" for x using assms(1) by (simp add: acks_ok_def)
  note reg = acks_register [OF a]
  show ?thesis
    using assms(2)
  proof (cases rule: wait_begin_cases)
    case refused
    with assms(1) show ?thesis by simp
  next
    case full
    with a show ?thesis by simp
  next
    case failed
    with acks_cancel [OF reg] show ?thesis
      by (auto simp: cancel_wait_def register_wait_def map_of_delete update_conv' split: if_splits)
  next
    case sent
    with reg show ?thesis by (auto simp: register_wait_def update_conv' split: if_splits)
  qed
qed

lemma wait_end_pending:
  assumes "wait_end b w h = Some (r, h')"
  shows "h' = cancel_wait (aw_id w) h"
  using assms by (auto simp: wait_end_def Let_def split: wake.splits option.splits)

section \<open>Where a signal comes from\<close>

text \<open>The turn of the worker at which a message with this id answered the waiter.\<close>

definition answers :: "hub_call \<Rightarrow> hub \<Rightarrow> string \<Rightarrow> string \<Rightarrow> bool" where
  "answers c h i kd \<longleftrightarrow>
     (\<exists>net t p via ops m. c = CallRun net t \<and> hu_ops h = (p, via) # ops \<and> pk_message p = Some m \<and>
        am_to m = hk_callsign (hu_cfg h) \<and> am_id m = i \<and> kd = ackKind (am_text m) \<and> kd \<noteq> [])"

definition acks_step :: "hub_call \<Rightarrow> hub \<Rightarrow> hub \<Rightarrow> bool" where
  "acks_step c h h' \<longleftrightarrow>
     acks_ok h' \<and> hu_cfg h' = hu_cfg h \<and> hu_waiters h \<le> hu_waiters h' \<and>
     (\<forall>i n. map_of (hu_pending h') i = Some n \<longrightarrow> map_of (hu_pending h) i = Some n \<or> hu_waiters h \<le> n) \<and>
     (\<forall>n kd. map_of (hu_signals h) n = Some kd \<longrightarrow> map_of (hu_signals h') n = Some kd) \<and>
     (\<forall>n kd. map_of (hu_signals h') n = Some kd \<longrightarrow>
        map_of (hu_signals h) n = Some kd \<or>
        (\<exists>i. map_of (hu_pending h) i = Some n \<and> answers c h i kd))"

lemma acks_step_same:
  assumes "acks_ok h" "hu_pending h' = hu_pending h" "hu_signals h' = hu_signals h"
    "hu_waiters h' = hu_waiters h" "hu_cfg h' = hu_cfg h"
  shows "acks_step c h h'"
  using assms by (simp add: acks_step_def acks_ok_def)

lemma acks_step_messages: "acks_ok h \<Longrightarrow> same_messages h h' \<Longrightarrow> acks_step c h h'"
  by (rule acks_step_same) (simp_all add: same_messages_def)

lemma acks_step_cancel: "acks_ok h \<Longrightarrow> acks_step c h (cancel_wait i h)"
  unfolding acks_step_def
  by (intro conjI acks_cancel) (auto simp: cancel_wait_def map_of_delete split: if_splits)

lemma acks_step_take:
  assumes ok: "acks_ok h" and ops: "hu_ops h = (p, via) # ops"
    and a: "apply_op env net now (p, via) (h\<lparr>hu_ops := ops\<rparr>, k) = (h', k')"
  shows "acks_step (CallRun net now) h h'"
  using apply_op_messages [OF a]
proof (elim disjE exE conjE)
  assume "same_messages (h\<lparr>hu_ops := ops\<rparr>) h'"
  then show ?thesis by (intro acks_step_same [OF ok]) (simp_all add: same_messages_def)
next
  fix m h3 k3
  assume m: "pk_message p = Some m" "am_to m = hk_callsign (hu_cfg (h\<lparr>hu_ops := ops\<rparr>))"
    and same: "same_messages (h\<lparr>hu_ops := ops\<rparr>) h3"
    and r: "receiveMessage env net now p m via (h3, k3) = (h', k')"
  have eq: "hu_pending h3 = hu_pending h" "hu_signals h3 = hu_signals h" "hu_waiters h3 = hu_waiters h"
    "hu_cfg h3 = hu_cfg h"
    using same by (simp_all add: same_messages_def)
  have ok3: "acks_ok h3" using ok eq by (simp add: acks_ok_def)
  have cfg: "hu_cfg h' = hu_cfg h" using receiveMessage_view(1) [OF r] eq by (simp add: same_view_def)
  note rec = receiveMessage_acks [OF ok3 r]
  show ?thesis
    using rec unfolding eq
  proof (elim conjE disjE exE)
    assume "acks_ok h'" "hu_waiters h' = hu_waiters h" "hu_pending h' = hu_pending h" "hu_signals h' = hu_signals h"
    then show ?thesis by (intro acks_step_same [OF ok] cfg)
  next
    fix n
    assume n: "acks_ok h'" "hu_waiters h' = hu_waiters h" "map_of (hu_pending h) (am_id m) = Some n"
      "ackKind (am_text m) \<noteq> []" "hu_pending h' = AList.delete (am_id m) (hu_pending h)"
      "hu_signals h' = AList.update n (ackKind (am_text m)) (hu_signals h)"
    have "answers (CallRun net now) h (am_id m) (ackKind (am_text m))"
      using m ops n(4) by (simp add: answers_def)
    moreover have "map_of (hu_signals h) n = None"
      using acks_okD(5) [OF ok, of n] n(3) by (cases "map_of (hu_signals h) n") auto
    ultimately show ?thesis
      using n cfg by (auto simp: acks_step_def map_of_delete update_conv' split: if_splits)
  qed
qed

lemma hub_do_acks:
  assumes "acks_ok (fst s)"
  shows "acks_step c (fst s) (fst (hub_do env c s))"
proof -
  obtain h k h' k' where s: "s = (h, k)" "hub_do env c s = (h', k')" by fastforce
  have ok: "acks_ok h" using assms s by simp
  have "acks_step c h h'"
  proof (cases c)
    case (CallRun net now)
    show ?thesis
    proof (cases "hu_ops h")
      case (Cons op ops)
      obtain p via where op: "op = (p, via)" by fastforce
      then have "apply_op env net now (p, via) (h\<lparr>hu_ops := ops\<rparr>, k) = (h', k')"
        using s CallRun Cons by (simp add: take_op_def)
      from acks_step_take [OF ok Cons [unfolded op] this] show ?thesis using CallRun by simp
    qed (use s CallRun acks_step_messages [OF ok same_messages_refl] in \<open>simp add: take_op_def\<close>)
  next
    case (CallMaintain net now)
    then show ?thesis using acks_step_messages [OF ok] maintenance_messages [of s env net now] s by simp
  next
    case (CallSelf net now)
    then show ?thesis using acks_step_messages [OF ok] publishSelf_messages [of s env net now] s by simp
  next
    case (CallSend net send now dest body)
    with s have w: "SendMessage env net send now dest body (h, k) = (fst (SendMessage env net send now dest body (h, k)), h', k')"
      by (metis hub_do.simps(10) prod.collapse)
    from SendMessage_view [OF w] show ?thesis using acks_step_messages [OF ok same_messages_refl] by simp
  next
    case (CallWait net send now dest body)
    with s have w: "wait_begin env net send now dest body (h, k) = (fst (wait_begin env net send now dest body (h, k)), h', k')"
      by (metis hub_do.simps(11) prod.collapse)
    have "hu_cfg h' = hu_cfg h" using wait_begin_view [OF w] by (simp add: same_view_def)
    with wait_begin_pending [OF ok w] show ?thesis
      unfolding acks_step_def by (metis order_refl)
  next
    case (CallWake b w)
    then have "h' = h \<or> h' = cancel_wait (aw_id w) h"
      using s wait_end_pending by (auto split: option.splits)
    then show ?thesis using acks_step_cancel [OF ok] acks_step_messages [OF ok same_messages_refl] by blast
  qed (use s in \<open>auto intro!: acks_step_same [OF ok] simp: Observe_def SetSink_def SetWeatherSink_def
         SetSenderGate_def AddTransmitter_def RemoveTransmitter_def\<close>)
  then show ?thesis using s by simp
qed

lemma fresh_acks: "acks_ok (fresh_hub cfg)"
  by (simp add: acks_ok_def fresh_hub_def table_ok_def)

lemma hub_run_acks: "acks_ok (fst s) \<Longrightarrow> acks_ok (fst (hub_run env cs s))"
  by (rule hub_run_invariant [of "\<lambda>s. acks_ok (fst s)"]) (simp, meson acks_step_def hub_do_acks)

lemma signals_stay:
  assumes "acks_ok (fst s)" "map_of (hu_signals (fst s)) n = Some kd"
  shows "map_of (hu_signals (fst (hub_run env ds s))) n = Some kd"
proof -
  have "(\<lambda>s. acks_ok (fst s) \<and> map_of (hu_signals (fst s)) n = Some kd) (hub_run env ds s)"
    by (rule hub_run_invariant) (use assms in simp, meson acks_step_def hub_do_acks)
  then show ?thesis by simp
qed

lemma signal_source:
  assumes "wait_known w (fst s)" "map_of (hu_signals (fst s)) (aw_waiter w) = None"
    and "map_of (hu_signals (fst (hub_run env ds s))) (aw_waiter w) = Some kd"
  shows "\<exists>es c fs. ds = es @ c # fs \<and> answers c (fst (hub_run env es s)) (aw_id w) kd"
  using assms
proof (induction ds arbitrary: s)
  case (Cons c ds)
  let ?s = "hub_do env c s"
  have st: "acks_step c (fst s) (fst ?s)" using hub_do_acks Cons.prems(1) by (simp add: wait_known_def)
  show ?case
  proof (cases "map_of (hu_signals (fst ?s)) (aw_waiter w)")
    case None
    have "wait_known w (fst ?s)"
      using st Cons.prems(1) unfolding wait_known_def acks_step_def by (metis leD less_le_trans)
    from Cons.IH [OF this None] Cons.prems(3) obtain es c' fs where
      "ds = es @ c' # fs" "answers c' (fst (hub_run env es ?s)) (aw_id w) kd" by auto
    then have "c # ds = (c # es) @ c' # fs" "answers c' (fst (hub_run env (c # es) s)) (aw_id w) kd" by simp_all
    then show ?thesis by blast
  next
    case (Some kd')
    have "map_of (hu_signals (fst (hub_run env ds ?s))) (aw_waiter w) = Some kd'"
      using Some st signals_stay by (simp add: acks_step_def)
    with Cons.prems(3) have "kd' = kd" by simp
    moreover obtain i where "map_of (hu_pending (fst s)) i = Some (aw_waiter w)" "answers c (fst s) i kd'"
      using st Some Cons.prems(2) unfolding acks_step_def by (metis option.distinct(1))
    ultimately have "answers c (fst s) (aw_id w) kd" using Cons.prems(1) by (auto simp: wait_known_def)
    then show ?thesis by (intro exI [of _ "[]"] exI [of _ c] exI [of _ ds]) simp
  qed
qed simp

text \<open>
  C36: an acknowledgement is never invented.  When a wait ends with a signal, some packet that the
  worker took after the message was registered carried a message to this station with the id of the
  wait and a text that begins with ``ack'' or ``rej'', and the result is the one that text calls for.
\<close>

theorem ack_sound:
  assumes "hub_run env cs (fresh_hub cfg, no_sink) = (h, k)"
    and "wait_begin env net send now to txt (h, k) = (Inr w, h1, k1)"
    and "hub_run env ds (h1, k1) = (h2, k2)" and "wait_end WakeSignal w h2 = Some (r, h3)"
  shows "\<exists>es c fs kd. ds = es @ c # fs \<and> answers c (fst (hub_run env es (h1, k1))) (aw_id w) kd \<and>
    r = (if kd = ''rej'' then Some (Rejected (aw_to w)) else None)"
proof -
  have ok: "acks_ok h" using hub_run_acks [of "(fresh_hub cfg, no_sink)" env cs] fresh_acks assms(1) by simp
  note b = wait_begin_pending [OF ok assms(2)]
  have w: "aw_waiter w = hu_waiters h" "hu_waiters h1 = hu_waiters h + 1"
    "map_of (hu_pending h1) (aw_id w) = Some (aw_waiter w)" "acks_ok h1"
    using b by auto
  have none: "map_of (hu_signals h1) (aw_waiter w) = None"
    using b acks_okD(4) [OF ok, of "hu_waiters h"] w(1) by (cases "map_of (hu_signals h) (hu_waiters h)") auto
  have known: "wait_known w h1"
    using w acks_okD(3) [OF w(4)] by (auto simp: wait_known_def)
  obtain kd where kd: "map_of (hu_signals h2) (aw_waiter w) = Some kd"
    "r = (if kd = ''rej'' then Some (Rejected (aw_to w)) else None)"
    using assms(4) by (auto simp: wait_end_def Let_def split: option.splits)
  then show ?thesis
    using signal_source [of w "(h1, k1)" env ds kd] known none assms(3) by auto
qed

text \<open>
  anybody can acknowledge.  Of a packet that carries a message to this station with the id of the
  wait, only the first three letters of the text count: ``acknowledged nothing'' from a station the
  message was never sent to ends the wait as delivered.
\<close>

theorem any_sender_acknowledges:
  assumes "hub_run env cs (fresh_hub cfg, no_sink) = (h, k)"
    and "wait_begin env net send now to txt (h, k) = (Inr w, h1, k1)"
    and "apply_new env net' t p via (h1, k1) = (h2, k2)"
    and "pk_message p = Some m" "am_to m = hk_callsign (hu_cfg h1)" "am_id m = aw_id w"
    and "has_prefix ''ack'' (am_text m)" "av_message env (rx_document env p m via) \<noteq> None"
  shows "\<exists>h3. wait_end WakeSignal w h2 = Some (None, h3)"
proof -
  have ok: "acks_ok h" using hub_run_acks [of "(fresh_hub cfg, no_sink)" env cs] fresh_acks assms(1) by simp
  have w: "map_of (hu_pending h1) (aw_id w) = Some (aw_waiter w)" "acks_ok h1"
    using wait_begin_pending [OF ok assms(2)] by auto
  have none: "map_of (hu_signals h1) (aw_waiter w) = None"
    using acks_okD(5) [OF w(2), of "aw_waiter w" _ "aw_id w"] w(1)
    by (cases "map_of (hu_signals h1) (aw_waiter w)") auto
  have id: "aw_id w \<noteq> []"
    using assms(2) by (cases rule: wait_begin_cases) (auto simp: msg_number_nonempty)
  have "length (take (length ''ack'') (am_text m)) = length ''ack''"
    using assms(7) by (simp only: has_prefix_def)
  then have kind: "ackKind (am_text m) = ''ack''" "3 \<le> length (am_text m)"
    using assms(7) by (simp_all add: ackKind_def)
  obtain h3 k3 where r: "same_messages h1 h3" "receiveMessage env net' t p m via (h3, k3) = (h2, k2)"
    using apply_new_receives [OF assms(3-5)] by blast
  have "map_of (hu_signals h2) (aw_waiter w) = Some ''ack''"
    using r(2) assms(6,8) kind id none w(1) r(1)
    by (auto simp: receiveMessage_def Let_def signalAck_def push_recent_def update_conv' same_messages_def
        split: option.splits if_splits)
  then show ?thesis by (simp add: wait_end_def Let_def)
qed

section \<open>A concrete exchange\<close>

definition ack_packet :: "string \<Rightarrow> string \<Rightarrow> string \<Rightarrow> packet" where
  "ack_packet src i t =
     (blank_packet [] 0)\<lparr>pk_src := src, pk_kind := KindMessage,
        pk_message := Some \<lparr>am_to = ''SP9MOA'', am_text = t, am_id = i\<rparr>\<rparr>"

definition silent_radio :: radio where "silent_radio n to t = None"

definition radio_hub :: "hub \<times> sink" where
  "radio_hub = hub_run sample_env [CallSink, CallAdd BackendRadio True] (fresh_hub sample_config, no_sink)"

definition asked :: "(send_error + ack_wait) \<times> hub \<times> sink" where
  "asked = wait_begin sample_env calm_net silent_radio (second 100) ''SP9ABC'' ''hello'' radio_hub"

lemma sample_text: "prepare_text AckSuffixLen ''hello'' = ''hello''"
proof -
  have "list_all is_ascii ''hello''" by (simp add: is_ascii_def)
  from transliterate_id [OF this] show ?thesis
    unfolding prepare_text_def limit_normal
    by (simp add: LimitMessageText_eq normal_text_def emit_field_eq blank_def
        MaxMessageText_def AckSuffixLen_def)
qed

lemma sample_sender_normalized: "NormalizeCallsign ''SP9ABC'' = ''SP9ABC''"
  by (rule normalize_wire_callsign [OF sample_callsigns(1)])

lemma sample_number: "msg_number 1 = ''00001''"
  by code_simp

lemma asked_result: "asked = (Inr \<lparr>aw_waiter = 0, aw_id = ''00001'', aw_to = ''SP9ABC'', aw_text = ''hello{00001}''\<rparr>,
   snd asked)"
  by (simp add: asked_def wait_begin_def radio_hub_def hub_eval sample_text sample_sender_normalized sample_number register_wait_def
      transmit_def readyTransmitterFor_def AddTransmitter_def silent_radio_def ackPendingCap_def
      publishTxMessage_def)


definition answered :: "hub \<times> sink" where
  "answered = hub_run sample_env [CallObserve (ack_packet ''SP9XYZ'' ''00001'' ''acknowledged nothing'') BackendRadio,
     CallRun calm_net (second 101)] (snd asked)"

lemma answered_signal: "map_of (hu_signals (fst answered)) 0 = Some ''ack''"
  by (simp add: answered_def asked_def wait_begin_def radio_hub_def hub_eval sample_text sample_sender_normalized sample_number
      register_wait_def transmit_def readyTransmitterFor_def AddTransmitter_def silent_radio_def ackPendingCap_def
      publishTxMessage_def ack_packet_def receiveMessage_def signalAck_def push_recent_def ackKind_def has_prefix_def)


definition first_wait :: ack_wait where
  "first_wait = \<lparr>aw_waiter = 0, aw_id = ''00001'', aw_to = ''SP9ABC'', aw_text = ''hello{00001}''\<rparr>"

lemma asked_wait: "wait_begin sample_env calm_net silent_radio (second 100) ''SP9ABC'' ''hello''
    (fst radio_hub, snd radio_hub) = (Inr first_wait, fst (snd asked), snd (snd asked))"
  using asked_result by (simp add: asked_def first_wait_def)

theorem ack_sound_witness:
  "\<exists>r h. wait_end WakeSignal first_wait (fst answered) = Some (r, h) \<and>
    (\<exists>es c fs kd. [CallObserve (ack_packet ''SP9XYZ'' ''00001'' ''acknowledged nothing'') BackendRadio,
        CallRun calm_net (second 101)] = es @ c # fs \<and>
      answers c (fst (hub_run sample_env es (snd asked))) ''00001'' kd \<and>
      r = (if kd = ''rej'' then Some (Rejected ''SP9ABC'') else None))"
proof -
  have e: "wait_end WakeSignal first_wait (fst answered) = Some (None, cancel_wait ''00001'' (fst answered))"
    by (simp add: wait_end_def first_wait_def answered_signal)
  have w: "aw_id first_wait = ''00001''" "aw_to first_wait = ''SP9ABC''" by (simp_all add: first_wait_def)
  have h: "hub_run sample_env [CallSink, CallAdd BackendRadio True] (fresh_hub sample_config, no_sink) =
      (fst radio_hub, snd radio_hub)"
    by (simp add: radio_hub_def)
  have d: "hub_run sample_env [CallObserve (ack_packet ''SP9XYZ'' ''00001'' ''acknowledged nothing'') BackendRadio,
        CallRun calm_net (second 101)] (fst (snd asked), snd (snd asked)) = (fst answered, snd answered)"
    by (simp only: answered_def prod.collapse)
  show ?thesis
    using ack_sound [OF h asked_wait d e] e unfolding prod.collapse w by blast
qed

theorem any_sender_acknowledges_witness:
  "\<exists>h. wait_end WakeSignal first_wait
     (fst (apply_new sample_env calm_net (second 101) (ack_packet ''SP9XYZ'' ''00001'' ''acknowledged nothing'')
        BackendRadio (snd asked))) = Some (None, h)"
proof -
  have h: "hub_run sample_env [CallSink, CallAdd BackendRadio True] (fresh_hub sample_config, no_sink) =
      (fst radio_hub, snd radio_hub)"
    by (simp add: radio_hub_def)
  have cfg: "hk_callsign (hu_cfg (fst (snd asked))) = ''SP9MOA''"
    using wait_begin_view [OF asked_wait]
    by (simp add: same_view_def radio_hub_def SetSink_def AddTransmitter_def fresh_hub_def sample_config_def)
  have a: "apply_new sample_env calm_net (second 101) (ack_packet ''SP9XYZ'' ''00001'' ''acknowledged nothing'')
        BackendRadio (fst (snd asked), snd (snd asked)) =
      (fst (apply_new sample_env calm_net (second 101) (ack_packet ''SP9XYZ'' ''00001'' ''acknowledged nothing'')
        BackendRadio (snd asked)),
       snd (apply_new sample_env calm_net (second 101) (ack_packet ''SP9XYZ'' ''00001'' ''acknowledged nothing'')
        BackendRadio (snd asked)))"
    by (simp only: prod.collapse)
  show ?thesis
    by (rule any_sender_acknowledges [OF h asked_wait a,
          of "\<lparr>am_to = ''SP9MOA'', am_text = ''acknowledged nothing'', am_id = ''00001''\<rparr>"])
      (simp_all add: ack_packet_def cfg first_wait_def has_prefix_def sample_env_def)
qed

end
