(* ===== verification/Aprs_Bounds.thy ===== *)
theory Aprs_Bounds
  imports Aprs_Acks
begin

text \<open>
  The bounds of the hub: its queues and tails over any history, what a transmitter is handed and
  which transmitter is chosen.
\<close>

section \<open>Queues\<close>

definition offer_packet :: "packet \<times> string \<Rightarrow> hub \<Rightarrow> hub \<times> bool" where
  "offer_packet op h = (Observe (fst op) (snd op) h, length (hu_ops h) < opsQueueSize)"

definition take_packet :: "hub \<Rightarrow> ((packet \<times> string) \<times> hub) option" where
  "take_packet h = (case hu_ops h of [] \<Rightarrow> None | op # ops \<Rightarrow> Some (op, h\<lparr>hu_ops := ops\<rparr>))"

interpretation oq: bounded_queue hu_ops offer_packet take_packet "\<lambda>_. opsQueueSize"
  by unfold_locales
    (auto simp: offer_packet_def take_packet_def Observe_def split: if_splits list.splits)

section \<open>Invariants of the records\<close>

lemma update_members: "set (AList.update k v t) \<subseteq> insert (k, v) (set t)"
  by (induction t) auto

lemma apply_op_cases_valid:
  "apply_op env net now (p, via) (h, k) = (h, k) \<or>
   (\<exists>a b. apply_op env net now (p, via) (h, k) = (h\<lparr>hu_accepted := a, hu_filtered := b\<rparr>, k)) \<or>
   (\<exists>a. apply_op env net now (p, via) (h, k) = (h\<lparr>hu_accepted := a\<rparr>, k)) \<or>
   ValidCallsign (pk_src p) \<and>
     (\<exists>a. apply_op env net now (p, via) (h, k) = apply_new env net now p via (h\<lparr>hu_accepted := a\<rparr>, k))"
proof (cases "ValidCallsign (pk_src p)")
  case True
  then show ?thesis using apply_op_cases [of env net now p via h k] by simp
next
  case False
  then have "apply_op env net now (p, via) (h, k) = (h, k)" by (simp add: apply_op_def Let_def)
  then show ?thesis by simp
qed

lemma apply_op_cfg:
  assumes "apply_op env net now op (h, k) = (h', k')"
  shows "hu_cfg h' = hu_cfg h"
proof -
  obtain p via where op: "op = (p, via)" by fastforce
  show ?thesis
    using apply_op_messages [OF assms [unfolded op]] receiveMessage_view(1)
    by (auto simp: same_messages_def same_view_def)
qed

text \<open>
  What the hub keeps of each station: a property of records that a new record has and that every
  change the hub makes to a record preserves.
\<close>

locale record_invariant =
  fixes fine :: "station_record \<Rightarrow> bool"
    and admitted :: "string \<Rightarrow> bool"
  assumes valid_admitted: "ValidCallsign c \<Longrightarrow> admitted c"
    and fine_new: "admitted c \<Longrightarrow> fine (new_record c)"
    and fine_own: "admitted c \<Longrightarrow> fine ((new_record c)\<lparr>sc_state := blank_state\<lparr>sx_symbol_table := a, sx_symbol := b,
          sx_last_heard := t\<rparr>\<rparr>)"
    and fine_merge: "fine r \<Longrightarrow> fine (merge_packet env now p via r)"
    and fine_weather: "fine r \<Longrightarrow> fine (r\<lparr>sc_state := (sc_state r)\<lparr>sx_weather := w\<rparr>\<rparr>)"
    and fine_dirty: "fine r \<Longrightarrow> fine (r\<lparr>sc_dirty := d\<rparr>)"
    and fine_self: "fine r \<Longrightarrow> fine (r\<lparr>sc_self := True, sc_state := (sc_state r)\<lparr>sx_position := Some q\<rparr>\<rparr>)"
begin

definition records_fine :: "hub \<Rightarrow> bool" where
  "records_fine h \<longleftrightarrow> roster_ok h \<and> (\<forall>r\<in>snd ` set (hu_stations h). fine r)"

lemma records_put: "records_fine h \<Longrightarrow> fine r \<Longrightarrow> records_fine (put_station r h)"
  unfolding records_fine_def by (intro conjI registry_put)
    (auto simp: put_station_def dest: update_members [THEN subsetD])

lemma records_cong: "hu_stations h' = hu_stations h \<Longrightarrow> records_fine h' = records_fine h"
  by (simp add: records_fine_def roster_ok_def)

lemma records_view: "same_view h h' \<Longrightarrow> records_fine h' = records_fine h"
  by (rule records_cong) (simp add: same_view_def)

lemma record_found: "records_fine h \<Longrightarrow> map_of (hu_stations h) c = Some r \<Longrightarrow> fine r"
  by (force simp: records_fine_def dest: map_of_SomeD)

lemma station_fine: "records_fine h \<Longrightarrow> admitted c \<Longrightarrow> fine (station_or_new c h)"
  by (auto simp: station_or_new_def fine_new record_found split: option.split)

lemma publishStation_fine:
  assumes "publishStation env net r (h, k) = (h', k')" "records_fine h" "fine r"
  shows "records_fine h'"
  using assms by (auto simp: publishStation_def fine_dirty split: option.splits prod.splits intro!: records_put)

lemma attach_weather_fine:
  assumes "attach_weather env p (r, h) = (r', h')" "records_fine h" "fine r"
  shows "records_fine h' \<and> fine r'"
proof -
  have "records_fine (h\<lparr>hu_reports := x\<rparr>)" for x using assms(2) by (simp add: records_fine_def)
  then show ?thesis
    using assms by (auto simp: attach_weather_def Let_def fine_weather split: option.splits intro!: records_put)
qed

lemma apply_new_fine:
  assumes "apply_new env net now p via (h, k) = (h', k')" "records_fine h" "admitted (pk_src p)"
  shows "records_fine h'"
proof -
  let ?r = "merge_packet env (unix now) p via (station_or_new (pk_src p) h)"
  let ?h = "h\<lparr>hu_seen := AList.update (packetDigest env p) (unix now) (hu_seen h)\<rparr>"
  obtain r2 h2 h3 k3 where s: "attach_weather env p (?r, put_station ?r ?h) = (r2, h2)"
    "publishStation env net r2 (h2, k) = (h3, k3)" "same_view h3 h'"
    by (rule apply_new_parts [OF assms(1)])
  have r: "fine ?r" by (rule fine_merge [OF station_fine [OF assms(2,3)]])
  have "records_fine ?h" using assms(2) by (simp add: records_fine_def)
  note a = attach_weather_fine [OF s(1) records_put [OF this r] r]
  show ?thesis using publishStation_fine [OF s(2)] a records_view [OF s(3)] by blast
qed

lemma apply_op_fine:
  assumes "apply_op env net now op (h, k) = (h', k')" "records_fine h"
  shows "records_fine h'"
proof -
  obtain p via where op: "op = (p, via)" by fastforce
  have t: "records_fine (h\<lparr>hu_accepted := a\<rparr>)" "records_fine (h\<lparr>hu_accepted := a, hu_filtered := b\<rparr>)" for a b
    using assms(2) by (simp_all add: records_fine_def roster_ok_def)
  have new: "records_fine h'" if "ValidCallsign (pk_src p)"
    "apply_new env net now p via (h\<lparr>hu_accepted := a\<rparr>, k) = (h', k')" for a
    by (rule apply_new_fine [OF that(2) t(1) valid_admitted [OF that(1)]])
  show ?thesis
    using apply_op_cases_valid [of env net now p via h k] assms(2) t unfolding assms(1) [unfolded op]
    by (elim disjE exE conjE) (simp_all, metis new)
qed

lemma publishes_fine:
  assumes "records_fine (fst s)" "\<forall>r\<in>set rs. fine r"
  shows "records_fine (fst (fold (publishStation env net) rs s))"
  using assms
proof (induction rs arbitrary: s)
  case (Cons r rs)
  obtain h k h' k' where s: "s = (h, k)" "publishStation env net r s = (h', k')" by fastforce
  have "records_fine h'"
    using publishStation_fine [OF s(2) [unfolded s(1)]] Cons.prems s(1) by simp
  with Cons.IH [of "(h', k')"] Cons.prems s show ?case by simp
qed simp

lemma maintenance_fine:
  assumes "records_fine h" "maintenance env net now (h, k) = (h', k')"
  shows "records_fine h'"
proof -
  obtain h1 k1 where f:
    "fold (delete_station net) (filter (stale now (hu_cfg h)) (map snd (hu_stations h))) (swept now h, k) = (h1, k1)"
    by fastforce
  have "roster_ok (swept now h)" using assms(1) by (intro swept_roster(1)) (simp add: records_fine_def)
  then have sw: "records_fine (swept now h)" using assms(1) by (auto simp: records_fine_def swept_def)
  have "records_fine h1" using records_view [of "swept now h" h1] deletes_frame [OF f] sw by blast
  moreover have "\<forall>r\<in>set (filter sc_dirty (map snd (hu_stations (swept now h)))). fine r"
    using sw by (auto simp: records_fine_def)
  ultimately show ?thesis
    using publishes_fine [of "(h1, k1)" "filter sc_dirty (map snd (hu_stations (swept now h)))" env net] assms(2)
    by (simp add: maintenance_swept f)
qed

lemma publishSelf_fine:
  assumes "records_fine h" "publishSelf env net now (h, k) = (h', k')" "admitted (hk_callsign (hu_cfg h))"
  shows "records_fine h'"
proof (cases "hk_callsign (hu_cfg h) = []")
  case False
  have self: "\<exists>q. (case sx_position st of None \<Rightarrow> Some c | Some q \<Rightarrow> Some q) = Some q" for st c
    by (simp split: option.split)
  have "\<exists>r. publishStation env net r (put_station r h, k) = (h', k') \<and> fine r"
  proof (cases "map_of (hu_stations h) (hk_callsign (hu_cfg h))")
    case None
    with assms(2) False fine_self [OF fine_own [OF assms(3)]] show ?thesis
      by (simp add: publishSelf_def Let_def blank_state_def new_record_def) blast
  next
    case (Some r)
    obtain q where "(case sx_position (sc_state r) of None \<Rightarrow> Some (hk_center (hu_cfg h)) | Some q \<Rightarrow> Some q) = Some q"
      using self by blast
    with assms(2) False Some fine_self [OF record_found [OF assms(1) Some], of q] show ?thesis
      by (simp add: publishSelf_def Let_def) blast
  qed
  then obtain r where r: "publishStation env net r (put_station r h, k) = (h', k')" "fine r" by blast
  from publishStation_fine [OF r(1) records_put [OF assms(1) r(2)] r(2)] show ?thesis .
qed (use assms in \<open>simp add: publishSelf_def\<close>)

lemma hub_do_fine:
  assumes "records_fine (fst s)" "admitted (hk_callsign (hu_cfg (fst s)))"
  shows "records_fine (fst (hub_do env c s)) \<and> hu_cfg (fst (hub_do env c s)) = hu_cfg (fst s)"
proof -
  obtain h k h' k' where s: "s = (h, k)" "hub_do env c s = (h', k')" by fastforce
  have q: "records_fine h" using assms s by simp
  have same: ?thesis if "same_view h h'"
    using records_view [OF that] that q s by (simp add: same_view_def)
  show ?thesis
  proof (cases c)
    case (CallRun net now)
    show ?thesis
    proof (cases "hu_ops h")
      case (Cons op ops)
      have a: "apply_op env net now op (h\<lparr>hu_ops := ops\<rparr>, k) = (h', k')"
        using s CallRun Cons by (simp add: take_op_def)
      have "records_fine (h\<lparr>hu_ops := ops\<rparr>)" using q by (simp add: records_fine_def)
      with apply_op_fine [OF a] apply_op_cfg [OF a] s show ?thesis by simp
    qed (use s CallRun q in \<open>simp add: take_op_def\<close>)
  next
    case (CallMaintain net now)
    then have m: "maintenance env net now (h, k) = (h', k')" using s by simp
    with maintenance_fine [OF q m] maintenance_messages [of "(h, k)" env net now] s
    show ?thesis by (simp add: same_messages_def)
  next
    case (CallSelf net now)
    then have m: "publishSelf env net now (h, k) = (h', k')" using s by simp
    with publishSelf_fine [OF q m] publishSelf_messages [of "(h, k)" env net now] s assms(2)
    show ?thesis by (simp add: same_messages_def)
  next
    case (CallSend net send now dest body)
    with s have w: "SendMessage env net send now dest body (h, k) = (fst (SendMessage env net send now dest body (h, k)), h', k')"
      by (metis hub_do.simps(10) prod.collapse)
    from SendMessage_view [OF w] same show ?thesis by simp
  next
    case (CallWait net send now dest body)
    with s have w: "wait_begin env net send now dest body (h, k) = (fst (wait_begin env net send now dest body (h, k)), h', k')"
      by (metis hub_do.simps(11) prod.collapse)
    from wait_begin_view [OF w] same show ?thesis by blast
  next
    case (CallWake b w)
    then have "h' = h \<or> h' = cancel_wait (aw_id w) h"
      using s wait_end_pending by (auto split: option.splits)
    then show ?thesis using same by auto
  next
    case CallSink
    then have "h' = SetSink h" using s by simp
    then show ?thesis using s q by (simp add: SetSink_def records_fine_def roster_ok_def)
  qed (use s same in \<open>auto simp: same_view_def Observe_def SetWeatherSink_def
         SetSenderGate_def AddTransmitter_def RemoveTransmitter_def\<close>)
qed

lemma hub_run_fine:
  assumes "admitted (hk_callsign cfg)" "hub_run env cs (fresh_hub cfg, no_sink) = (h, k)"
  shows "records_fine h"
proof -
  have "(\<lambda>s. records_fine (fst s) \<and> hu_cfg (fst s) = cfg) (hub_run env cs (fresh_hub cfg, no_sink))"
  proof (rule hub_run_invariant)
    show "records_fine (fst (fresh_hub cfg, no_sink)) \<and> hu_cfg (fst (fresh_hub cfg, no_sink)) = cfg"
      by (simp add: records_fine_def roster_ok_def fresh_hub_def)
  qed (use hub_do_fine assms(1) in auto)
  then show ?thesis using assms(2) by simp
qed

end

section \<open>Movement tails\<close>

definition tail_ok :: "station_record \<Rightarrow> bool" where
  "tail_ok r \<longleftrightarrow> length (sx_track (sc_state r)) \<le> maxTrackPoints"

lemma pushTrack_length: "length track \<le> maxTrackPoints \<Longrightarrow> length (pushTrack mt q t track) \<le> maxTrackPoints"
  unfolding pushTrack_def Let_def maxTrackPoints_def by (cases "length track \<le> 2") auto

interpretation tails: record_invariant tail_ok "\<lambda>_. True"
  by unfold_locales
    (simp_all add: tail_ok_def new_record_def blank_state_def merge_packet_def merge_def merge_fields_def
      merge_position_def pushTrack_length Let_def split: option.split)

section \<open>Well-formed records\<close>

text \<open>
  What the documents of a station rely on: a valid callsign, each backend named once, a normalised
  pair of symbol bytes.
\<close>

definition record_typed :: "station_record \<Rightarrow> bool" where
  "record_typed r \<longleftrightarrow>
     ValidCallsign (sc_callsign r) \<and> distinct (sx_via (sc_state r)) \<and>
     (sx_position (sc_state r) = None \<longrightarrow> sx_track (sc_state r) = []) \<and>
     length (sx_via (sc_state r)) \<le> sx_packets (sc_state r)"

lemma merge_typed:
  assumes "record_typed r"
  shows "record_typed (merge_packet env now p via r)"
proof -
  have p: "sx_position (sc_state r) = None \<longrightarrow> sx_track (sc_state r) = []" using assms by (simp add: record_typed_def)
  have "length (List.insert via (sx_via (sc_state r))) \<le> Suc (sx_packets (sc_state r))"
    using assms by (simp add: record_typed_def List.insert_def)
  then show ?thesis
    using assms p
    by (auto simp: record_typed_def merge_packet_def merge_def merge_fields_def merge_position_def Let_def
        split: option.split)
qed

interpretation typed: record_invariant record_typed ValidCallsign
  by unfold_locales
    (simp_all add: merge_typed, simp_all add: record_typed_def new_record_def blank_state_def)

text \<open>
  C38: the roster is well formed.  Over any history every station of the hub has a valid callsign and
  is filed under it, names each backend that heard it once and at most as many as it sent packets,
  and has a movement tail only together with a position.
\<close>

theorem roster_well_formed:
  assumes "ValidCallsign (hk_callsign cfg)" "hub_run env cs (fresh_hub cfg, no_sink) = (h, k)"
    and "map_of (hu_stations h) c = Some r"
  shows "sc_callsign r = c \<and> ValidCallsign c \<and> distinct (sx_via (sc_state r)) \<and>
    length (sx_via (sc_state r)) \<le> sx_packets (sc_state r) \<and>
    (sx_position (sc_state r) = None \<longrightarrow> sx_track (sc_state r) = [])"
proof -
  have "record_typed r" by (rule typed.record_found [OF typed.hub_run_fine [OF assms(1,2)] assms(3)])
  moreover have "roster_ok h" using typed.hub_run_fine [OF assms(1,2)] by (simp add: typed.records_fine_def)
  ultimately show ?thesis using assms(3) by (auto simp: record_typed_def roster_ok_def)
qed

section \<open>Queues over any history\<close>

definition queues_ok :: "hub \<Rightarrow> bool" where
  "queues_ok h \<longleftrightarrow>
     oq.good h \<and> length (hu_recent h) \<le> recentMessagesCap \<and> length (hu_pending h) \<le> ackPendingCap"

lemma queues_cong:
  "hu_ops h' = hu_ops h \<Longrightarrow> hu_recent h' = hu_recent h \<Longrightarrow> hu_pending h' = hu_pending h \<Longrightarrow> queues_ok h' = queues_ok h"
  by (simp add: queues_ok_def oq.good_def)

lemma queues_messages: "same_messages h h' \<Longrightarrow> queues_ok h' = queues_ok h"
  by (rule queues_cong) (simp_all add: same_messages_def)

lemma delete_length: "length (AList.delete k t) \<le> length t"
  by (simp add: AList.delete_eq)

lemma queues_cancel: "queues_ok h \<Longrightarrow> queues_ok (cancel_wait i h)"
  using delete_length [of i "hu_pending h"] by (simp add: queues_ok_def cancel_wait_def oq.good_def)

lemma queues_register: "queues_ok h \<Longrightarrow> length (hu_pending h) < ackPendingCap \<Longrightarrow> queues_ok (register_wait i h)"
  by (simp add: queues_ok_def register_wait_def oq.good_def length_update)

lemma queues_recent: "queues_ok h \<Longrightarrow> queues_ok (push_recent d h)"
  by (simp add: queues_ok_def push_recent_def oq.good_def recentMessagesCap_def)

lemma queues_signal: "queues_ok h \<Longrightarrow> queues_ok (signalAck i kd h)"
  using delete_length [of i "hu_pending h"]
  by (auto simp: queues_ok_def signalAck_def oq.good_def split: option.split)

lemma queues_receive:
  assumes "receiveMessage env net now p m via (h, k) = (h', k')" "queues_ok h"
  shows "queues_ok h'"
  using assms(1) queues_recent [OF assms(2)] queues_signal [OF queues_recent [OF assms(2)]]
  by (auto simp: receiveMessage_def Let_def split: option.splits if_splits)

lemma queues_apply:
  assumes "apply_op env net now op (h, k) = (h', k')" "queues_ok h"
  shows "queues_ok h'"
proof -
  obtain p via where op: "op = (p, via)" by fastforce
  show ?thesis
    using apply_op_messages [OF assms(1) [unfolded op]] queues_messages queues_receive assms(2) by blast
qed

lemma hub_do_queues:
  assumes "queues_ok (fst s)"
  shows "queues_ok (fst (hub_do env c s))"
proof -
  obtain h k h' k' where s: "s = (h, k)" "hub_do env c s = (h', k')" by fastforce
  have q: "queues_ok h" using assms s by simp
  have "queues_ok h'"
  proof (cases c)
    case (CallObserve p via)
    have "queues_ok (Observe p via h)"
      using q oq.enq_good [of "(p, via)" h "Observe p via h"]
      by (simp add: queues_ok_def offer_packet_def) (simp add: Observe_def)
    then show ?thesis using s CallObserve by simp
  next
    case (CallRun net now)
    show ?thesis
    proof (cases "hu_ops h")
      case (Cons op ops)
      have a: "apply_op env net now op (h\<lparr>hu_ops := ops\<rparr>, k) = (h', k')"
        using s CallRun Cons by (simp add: take_op_def)
      have "queues_ok (h\<lparr>hu_ops := ops\<rparr>)"
        using q Cons by (simp add: queues_ok_def oq.good_def)
      with queues_apply [OF a] show ?thesis by blast
    qed (use s CallRun q in \<open>simp add: take_op_def\<close>)
  next
    case (CallMaintain net now)
    then show ?thesis using maintenance_messages [of "(h, k)" env net now] queues_messages q s by auto
  next
    case (CallSelf net now)
    then show ?thesis using publishSelf_messages [of "(h, k)" env net now] queues_messages q s by auto
  next
    case (CallSend net send now dest body)
    with s have w: "SendMessage env net send now dest body (h, k) = (fst (SendMessage env net send now dest body (h, k)), h', k')"
      by (metis hub_do.simps(10) prod.collapse)
    from SendMessage_view [OF w] q show ?thesis by simp
  next
    case (CallWait net send now dest body)
    with s have w: "wait_begin env net send now dest body (h, k) = (fst (wait_begin env net send now dest body (h, k)), h', k')"
      by (metis hub_do.simps(11) prod.collapse)
    have n: "queues_ok (h\<lparr>hu_msg_seq := x\<rparr>)" for x using q by (simp add: queues_ok_def oq.good_def)
    show ?thesis
      using w by (cases rule: wait_begin_cases) (auto intro!: queues_cancel queues_register n q)
  next
    case (CallWake b w)
    then have "h' = h \<or> h' = cancel_wait (aw_id w) h"
      using s wait_end_pending by (auto split: option.splits)
    then show ?thesis using q queues_cancel by auto
  qed (use s q in \<open>auto simp: queues_ok_def oq.good_def SetSink_def SetWeatherSink_def
         SetSenderGate_def AddTransmitter_def RemoveTransmitter_def\<close>)
  then show ?thesis using s by simp
qed

text \<open>
  what strangers send cannot make the hub's queues grow.  Over any history the operation queue
  holds at most 1024 packets, the recent messages and the pending acknowledgements at most 64 each,
  and the movement tail of every station at most three points.
\<close>

theorem hub_bounded:
  assumes "hub_run env cs (fresh_hub cfg, no_sink) = (h, k)"
  shows "length (hu_ops h) \<le> 1024 \<and> length (hu_recent h) \<le> 64 \<and> length (hu_pending h) \<le> 64 \<and>
    (\<forall>c r. map_of (hu_stations h) c = Some r \<longrightarrow> length (sx_track (sc_state r)) \<le> 3)"
proof -
  have "(\<lambda>s. queues_ok (fst s)) (hub_run env cs (fresh_hub cfg, no_sink))"
  proof (rule hub_run_invariant)
    show "queues_ok (fst (fresh_hub cfg, no_sink))"
      by (simp add: queues_ok_def fresh_hub_def oq.good_def)
  qed (use hub_do_queues in blast)
  then have q: "queues_ok h" using assms by simp
  have "length (hu_ops h) \<le> opsQueueSize"
    using q unfolding queues_ok_def oq.good_def by simp
  moreover have "tail_ok r" if "map_of (hu_stations h) c = Some r" for c r
    by (rule tails.record_found [OF tails.hub_run_fine [OF TrueI assms] that])
  ultimately show ?thesis
    using q by (auto simp: queues_ok_def tail_ok_def opsQueueSize_def recentMessagesCap_def ackPendingCap_def
        maxTrackPoints_def)
qed

theorem hub_bounded_witness:
  "length (hu_pending (fst (hub_run sample_env [CallSink, CallAdd BackendRadio True] (fresh_hub sample_config, no_sink)))) \<le> 64"
  using hub_bounded [OF surjective_pairing, of sample_env "[CallSink, CallAdd BackendRadio True]" sample_config] by blast

theorem roster_well_formed_witness:
  "\<exists>r. map_of (hu_stations (fst (hub_run sample_env [CallObserve (status_packet ''SP9ABC'' ''on air'' 100) BackendRadio,
      CallRun calm_net (second 100)] (fresh_hub sample_config, no_sink)))) ''SP9ABC'' = Some r \<and>
    distinct (sx_via (sc_state r)) \<and> length (sx_via (sc_state r)) \<le> sx_packets (sc_state r)"
proof -
  let ?s = "hub_run sample_env [CallObserve (status_packet ''SP9ABC'' ''on air'' 100) BackendRadio,
      CallRun calm_net (second 100)] (fresh_hub sample_config, no_sink)"
  obtain r where r: "map_of (hu_stations (fst ?s)) ''SP9ABC'' = Some r" by (simp add: hub_eval)
  have "wire_callsign ''SP9MOA''"
    unfolding wire_callsign_def
    by (rule exI [of _ "''SP9MOA''"], rule exI [of _ 0])
      (simp add: callsign_char_def is_upper_ascii_def is_digit_def byte_range_def)
  then have "ValidCallsign (hk_callsign sample_config)" by (simp add: sample_config_def wire_valid)
  from roster_well_formed [OF this surjective_pairing [of ?s] r] r show ?thesis by blast
qed

end
