(* ===== verification/Aprs_Radio.thy ===== *)
theory Aprs_Radio
  imports Aprs_Hub Aprs_Frame
begin

text \<open>
  The two APRS backends: the KISS radio (\<open>internal/plugins/sources/aprsradio\<close>) and the APRS-IS
  connection (\<open>internal/plugins/sources/aprsinet\<close>).  What a connection delivers and what became of
  a write are arguments; a panic of the frame parser is a value.
\<close>

section \<open>Addresses and writes\<close>

text \<open>\<open>net.SplitHostPort\<close>: an optional host in brackets, the port after the last colon.\<close>

definition split_host_port :: "string \<Rightarrow> (string \<times> string) option" where
  "split_host_port s =
     (case last_index (CHR '':'') s of
        None \<Rightarrow> None
      | Some i \<Rightarrow>
          if hd s = CHR ''['' then
            (case first_index (CHR '']'') s of
               None \<Rightarrow> None
             | Some e \<Rightarrow>
                 if e + 1 \<noteq> i \<or> CHR ''['' \<in> set (drop 1 s) \<or> CHR '']'' \<in> set (drop (e + 1) s) then None
                 else Some (slice 1 e s, drop (Suc i) s))
          else if CHR '':'' \<in> set (take i s) \<or> CHR ''['' \<in> set s \<or> CHR '']'' \<in> set s then None
          else Some (take i s, drop (Suc i) s))"

text \<open>What a write did: everything, or so many bytes and an error.\<close>

type_synonym 'b writer = "'b list \<Rightarrow> (nat \<times> string) option"

datatype transport_error = NotReady | BuildFailed frame_error | WriteFailed string

definition write_all :: "'b writer \<Rightarrow> 'b list \<Rightarrow> transport_error option \<times> 'b list" where
  "write_all w data =
     (case w data of None \<Rightarrow> (None, data) | Some (n, e) \<Rightarrow> (Some (WriteFailed e), take n data))"

datatype backend_error =
  HubDisabled | BadConnectTimeout int | BadReadTimeout int | BadMaxFrame int | BadServer string
| BadPathEntry string | PasscodeTwice | BadLogin string | PasscodeStat string | PasscodeTooLarge int
| PasscodeRead string | NoPasscode | FilterTooLong nat

definition second_ns :: int where "second_ns = 1000000000"

section \<open>Reconnecting\<close>

definition minReconnectDelay :: int where "minReconnectDelay = 2 * second_ns"
definition maxReconnectDelay :: int where "maxReconnectDelay = 120 * second_ns"
definition healthySessionReset :: int where "healthySessionReset = 60 * second_ns"

definition resetBackoff :: "int \<Rightarrow> int \<Rightarrow> int" where
  "resetBackoff delay session = (if session \<ge> healthySessionReset then minReconnectDelay else delay)"

text \<open>The delays of \<open>Run\<close> before each reconnection, for the durations of the sessions.\<close>

fun reconnect_delays :: "int \<Rightarrow> int list \<Rightarrow> int list" where
  "reconnect_delays delay [] = []"
| "reconnect_delays delay (d # ds) =
     (let wait = resetBackoff delay d;
          next_delay = (if wait * 2 > maxReconnectDelay then maxReconnectDelay else wait * 2)
      in wait # reconnect_delays next_delay ds)"

section \<open>The radio\<close>

record radio_config =
  rc_server :: string
  rc_path :: "string list"
  rc_connect :: int
  rc_read :: int
  rc_max_frame :: int

definition defaultConnectTimeout :: int where "defaultConnectTimeout = 15 * second_ns"
definition defaultReadTimeout :: int where "defaultReadTimeout = 600 * second_ns"
definition defaultMaxFrame :: int where "defaultMaxFrame = 2048"
definition idleTimeoutFactor :: int where "idleTimeoutFactor = 3"

fun normal_path :: "string list \<Rightarrow> backend_error + string list" where
  "normal_path [] = Inr []"
| "normal_path (p # ps) =
     (if ValidCallsign (NormalizeCallsign p)
      then and_then (normal_path ps) (\<lambda>qs. Inr (NormalizeCallsign p # qs))
      else Inl (BadPathEntry p))"

definition radio_defaults :: "radio_config \<Rightarrow> radio_config" where
  "radio_defaults cfg =
     cfg\<lparr>rc_connect := (if rc_connect cfg = 0 then defaultConnectTimeout else rc_connect cfg),
         rc_read := (if rc_read cfg = 0 then defaultReadTimeout else rc_read cfg),
         rc_max_frame := (if rc_max_frame cfg = 0 then defaultMaxFrame else rc_max_frame cfg)\<rparr>"

definition NewRadio :: "bool \<Rightarrow> radio_config \<Rightarrow> backend_error + radio_config" where
  "NewRadio hub_enabled cfg0 =
     (let cfg = radio_defaults cfg0 in
      and_then (guard_err hub_enabled HubDisabled) (\<lambda>_.
      and_then (guard_err (second_ns \<le> rc_connect cfg \<and> rc_connect cfg \<le> 60 * second_ns)
        (BadConnectTimeout (rc_connect cfg))) (\<lambda>_.
      and_then (guard_err (5 * second_ns \<le> rc_read cfg \<and> rc_read cfg \<le> 3600 * second_ns)
        (BadReadTimeout (rc_read cfg))) (\<lambda>_.
      and_then (guard_err (64 \<le> rc_max_frame cfg \<and> rc_max_frame cfg \<le> 64 * 1024)
        (BadMaxFrame (rc_max_frame cfg))) (\<lambda>_.
      and_then (guard_err (split_host_port (trim_space (rc_server cfg)) \<noteq> None)
        (BadServer (rc_server cfg))) (\<lambda>_.
      and_then (normal_path (rc_path cfg)) (\<lambda>ps. Inr (cfg\<lparr>rc_path := ps\<rparr>))))))))"

text \<open>A session: the decoder, the time of the last bytes and the number of packets.\<close>

record radio_session =
  rs_decoder :: kiss_decoder
  rs_last_rx :: time
  rs_packets :: nat
  rs_hub :: hub

definition handleFrame :: "parse_env \<Rightarrow> time \<Rightarrow> byte list \<Rightarrow> radio_session \<Rightarrow> panic + radio_session" where
  "handleFrame env now frame s =
     (case DecodeUIFrame frame of
        None \<Rightarrow> Inr s
      | Some f \<Rightarrow>
          if ui_info f = [] then Inr s
          else and_then (ParseFeedLine env (FrameToFeedLine f) now) (\<lambda>p.
            if pk_src p = [] then Inr s
            else Inr (s\<lparr>rs_packets := rs_packets s + 1, rs_hub := Observe p BackendRadio (rs_hub s)\<rparr>)))"

fun handle_frames :: "parse_env \<Rightarrow> int \<Rightarrow> time \<Rightarrow> byte list list \<Rightarrow> radio_session \<Rightarrow> panic + radio_session" where
  "handle_frames env cap now [] s = Inr s"
| "handle_frames env cap now (f # fs) s =
     (if f = [] \<or> int (length f) > cap then handle_frames env cap now fs s
      else and_then (handleFrame env now f s) (handle_frames env cap now fs))"

text \<open>What a read of the connection returned, with the time; the end of the session.\<close>

datatype tnc_read = TncBytes time "byte list" | TncTimeout time | TncFailed string | TncCancelled

datatype session_end = EndCancelled | EndIdle | EndDial string | EndRead string | EndWrite string | EndClosed

definition idleLimit :: "radio_config \<Rightarrow> int" where
  "idleLimit cfg = idleTimeoutFactor * rc_read cfg"

text \<open>The loop over the reads; without an end when they run out.\<close>

fun radio_reads :: "parse_env \<Rightarrow> radio_config \<Rightarrow> tnc_read list \<Rightarrow> radio_session \<Rightarrow>
    panic + session_end option \<times> radio_session" where
  "radio_reads env cfg [] s = Inr (None, s)"
| "radio_reads env cfg (TncBytes now bs # rs) s =
     (case Feed bs (rs_decoder s) of
        (frames, d) \<Rightarrow>
          and_then (handle_frames env (rc_max_frame cfg) now frames
                     (s\<lparr>rs_decoder := d, rs_last_rx := (if bs = [] then rs_last_rx s else now)\<rparr>))
            (radio_reads env cfg rs))"
| "radio_reads env cfg (TncTimeout now # rs) s =
     (if now - rs_last_rx s < idleLimit cfg then radio_reads env cfg rs s else Inr (Some EndIdle, s))"
| "radio_reads env cfg (TncFailed e # rs) s = Inr (Some (EndRead e), s)"
| "radio_reads env cfg (TncCancelled # rs) s = Inr (Some EndCancelled, s)"

definition open_session :: "time \<Rightarrow> nat \<Rightarrow> hub \<Rightarrow> radio_session" where
  "open_session now n h =
     \<lparr> rs_decoder = new_decoder, rs_last_rx = now, rs_packets = n, rs_hub = AddTransmitter BackendRadio True h \<rparr>"

definition close_session :: "radio_session \<Rightarrow> radio_session" where
  "close_session s = s\<lparr>rs_hub := RemoveTransmitter BackendRadio (rs_hub s)\<rparr>"

definition radio_info :: "string \<Rightarrow> string \<Rightarrow> string" where
  "radio_info to body = '':'' @ pad_field 9 (NormalizeCallsign to) @ '':'' @ body"

definition SendRadio :: "bool \<Rightarrow> byte writer \<Rightarrow> string \<Rightarrow> radio_config \<Rightarrow> string \<Rightarrow> string \<Rightarrow>
    transport_error option \<times> byte list" where
  "SendRadio ready w callsign cfg to body =
     (if \<not> ready then (Some NotReady, [])
      else case BuildUIFrame callsign to (rc_path cfg) (bytes_of (radio_info to body)) of
        Inl e \<Rightarrow> (Some (BuildFailed e), [])
      | Inr frame \<Rightarrow> write_all w (EncodeKISS frame))"

section \<open>APRS-IS\<close>

record inet_config =
  ic_callsign :: string
  ic_passcode :: string
  ic_passcode_file :: string
  ic_server :: string
  ic_filter :: string
  ic_connect :: int
  ic_read :: int

record inet_source =
  is_cfg :: inet_config
  is_login :: string
  is_pass :: string
  is_filter :: string

definition DefaultServer :: string where "DefaultServer = ''rotate.aprs2.net:14580''"
definition maxPasscodeFileBytes :: int where "maxPasscodeFileBytes = 64 * 1024"
definition maxFilterBytes :: nat where "maxFilterBytes = 512"

text \<open>The size and the content of a file, or the errors of \<open>os.Stat\<close> and \<open>os.ReadFile\<close>.\<close>

type_synonym files = "string \<Rightarrow> (string + int) \<times> (string + string)"

definition resolve_passcode :: "files \<Rightarrow> inet_config \<Rightarrow> backend_error + string" where
  "resolve_passcode fs cfg =
     (let pass = trim_space (ic_passcode cfg) in
      if pass = [] \<and> ic_passcode_file cfg \<noteq> [] then
        (case fs (ic_passcode_file cfg) of
           (Inl e, _) \<Rightarrow> Inl (PasscodeStat e)
         | (Inr n, content) \<Rightarrow>
             if n > maxPasscodeFileBytes then Inl (PasscodeTooLarge n)
             else (case content of
                     Inl e \<Rightarrow> Inl (PasscodeRead e)
                   | Inr t \<Rightarrow> Inr (trim_right [CHR 0x0D, CHR 0x0A] t)))
      else Inr pass)"

text \<open>The whole number towards zero; out of range the hardware's answer, the least one.\<close>

definition float_to_int :: "float64 \<Rightarrow> int" where
  "float_to_int x =
     (case x of Fin q \<Rightarrow> if \<bar>q\<bar> < 2 ^ 63 then (if q < 0 then ceiling q else floor q) else - (2 ^ 63)
      | _ \<Rightarrow> - (2 ^ 63))"

definition area_filter :: "aprs_env \<Rightarrow> hub_config \<Rightarrow> string" where
  "area_filter env hub =
     ''r/'' @ av_fixed env 4 (pos_lat (hk_area hub)) @ ''/'' @ av_fixed env 4 (pos_lon (hk_area hub)) @
     ''/'' @ dec_int (float_to_int (hk_area_radius hub))"

definition inet_defaults :: "inet_config \<Rightarrow> inet_config" where
  "inet_defaults cfg =
     cfg\<lparr>ic_connect := (if ic_connect cfg = 0 then defaultConnectTimeout else ic_connect cfg),
         ic_read := (if ic_read cfg = 0 then defaultReadTimeout else ic_read cfg)\<rparr>"

definition inet_login :: "hub_config \<Rightarrow> inet_config \<Rightarrow> string" where
  "inet_login hub cfg =
     (if NormalizeCallsign (ic_callsign cfg) = [] then hk_callsign hub else NormalizeCallsign (ic_callsign cfg))"

definition NewInet :: "aprs_env \<Rightarrow> files \<Rightarrow> hub_config \<Rightarrow> inet_config \<Rightarrow> backend_error + inet_source" where
  "NewInet env fs hub cfg0 =
     (let cfg = inet_defaults cfg0; login = inet_login hub cfg;
          server = (if trim_space (ic_server cfg) = [] then DefaultServer else trim_space (ic_server cfg));
          filt = (if trim_space (ic_filter cfg) = [] then area_filter env hub else trim_space (ic_filter cfg)) in
      and_then (guard_err (hk_enabled hub) HubDisabled) (\<lambda>_.
      and_then (guard_err (second_ns \<le> ic_connect cfg \<and> ic_connect cfg \<le> 60 * second_ns)
        (BadConnectTimeout (ic_connect cfg))) (\<lambda>_.
      and_then (guard_err (30 * second_ns \<le> ic_read cfg \<and> ic_read cfg \<le> 3600 * second_ns)
        (BadReadTimeout (ic_read cfg))) (\<lambda>_.
      and_then (guard_err (ic_passcode cfg = [] \<or> ic_passcode_file cfg = []) PasscodeTwice) (\<lambda>_.
      and_then (guard_err (ValidCallsign login) (BadLogin (ic_callsign cfg))) (\<lambda>_.
      and_then (resolve_passcode fs cfg) (\<lambda>pass.
      and_then (guard_err (pass \<noteq> []) NoPasscode) (\<lambda>_.
      and_then (guard_err (split_host_port server \<noteq> None) (BadServer server)) (\<lambda>_.
      and_then (guard_err (length filt \<le> maxFilterBytes) (FilterTooLong (length filt))) (\<lambda>_.
        Inr \<lparr>is_cfg = cfg, is_login = login, is_pass = pass, is_filter = filt\<rparr>))))))))))"

text \<open>The session dials the server of the configuration and logs in with one line.\<close>

definition dial_address :: "inet_source \<Rightarrow> string" where
  "dial_address src = ic_server (is_cfg src)"

definition login_line :: "string \<Rightarrow> inet_source \<Rightarrow> string" where
  "login_line version src =
     ''user '' @ is_login src @ '' pass '' @ is_pass src @ '' vers WarnFlux '' @ version @ '' filter '' @
     is_filter src @ [CHR 0x0D, CHR 0x0A]"

record inet_session =
  in_packets :: nat
  in_messages :: nat
  in_positions :: nat
  in_hub :: hub

definition inet_line :: "parse_env \<Rightarrow> time \<Rightarrow> string \<Rightarrow> inet_session \<Rightarrow> panic + inet_session" where
  "inet_line env now token s =
     (let line = trim_right [CHR 0x0D] token in
      if line = [] \<or> hd line = CHR ''#'' then Inr s
      else and_then (ParseFeedLine env line now) (\<lambda>p.
        Inr (s\<lparr>in_packets := in_packets s + 1,
               in_messages := in_messages s + (if pk_kind p = KindMessage then 1 else 0),
               in_positions := in_positions s + (if pk_kind p = KindPosition \<or> pk_kind p = KindObject then 1 else 0),
               in_hub := Observe p BackendInternet (in_hub s)\<rparr>)))"

fun inet_lines :: "parse_env \<Rightarrow> (time \<times> string) list \<Rightarrow> inet_session \<Rightarrow> panic + inet_session" where
  "inet_lines env [] s = Inr s"
| "inet_lines env ((now, t) # ts) s = and_then (inet_line env now t s) (inet_lines env ts)"

text \<open>
  \<open>bufio.Scanner\<close> over the whole stream: lines without their line end, the last one also without,
  until one does not fit the buffer.
\<close>

definition scan_limit :: nat where "scan_limit = 64 * 1024"

definition drop_cr :: "string \<Rightarrow> string" where
  "drop_cr l = (if l \<noteq> [] \<and> last l = CHR 0x0D then butlast l else l)"

definition scan_lines :: "string \<Rightarrow> string list \<times> bool" where
  "scan_lines stream =
     (let ls = split_on (CHR 0x0A) stream; ls' = (if last ls = [] then butlast ls else ls);
          fit = takeWhile (\<lambda>l. length l < scan_limit) ls'
      in (map drop_cr fit, length fit < length ls'))"

definition SendInet :: "bool \<Rightarrow> char writer \<Rightarrow> inet_source \<Rightarrow> string \<Rightarrow> string \<Rightarrow> transport_error option \<times> string" where
  "SendInet ready w src to body =
     (if \<not> ready then (Some NotReady, [])
      else write_all w (EncodeMessageLine (is_login src) to body @ [CHR 0x0D, CHR 0x0A]))"

end
