(* ===== verification/Aprs_Transport.thy ===== *)
theory Aprs_Transport
  imports Aprs_Radio Aprs_Acks
begin

text \<open>
  Messages between two hubs.  The interface \<open>message_transport\<close> is what the hub relies on when it
  hands a text to a backend: that the hub at the other end observes one packet with that message.
  It is interpreted by the KISS radio, whatever chunks the stream arrives in, and by APRS-IS.
\<close>

section \<open>The interface\<close>

text \<open>A text that is neither numbered nor an acknowledgement.\<close>

definition plain_text :: "string \<Rightarrow> bool" where
  "plain_text body \<longleftrightarrow>
     body \<noteq> [] \<and> length body \<le> 67 \<and> last body \<notin> {CHR 0x0D, CHR 0x0A} \<and>
     CHR ''{'' \<notin> set body \<and> take 3 body \<notin> {''ack'', ''rej''}"

definition carries :: "packet \<Rightarrow> string \<Rightarrow> string \<Rightarrow> string \<Rightarrow> bool" where
  "carries p src to body \<longleftrightarrow>
     pk_src p = src \<and> pk_kind p = KindMessage \<and> pk_position p = None \<and> pk_symbol p = CHR 0x00 \<and>
     pk_message p = Some \<lparr>am_to = to, am_text = body, am_id = []\<rparr>"

locale message_transport =
  fixes carry :: "parse_env \<Rightarrow> time \<Rightarrow> string \<Rightarrow> string \<Rightarrow> string \<Rightarrow> hub \<Rightarrow> panic + hub"
    and via :: string
    and reaches :: "string \<Rightarrow> string \<Rightarrow> string \<Rightarrow> bool"
  assumes carried: "reaches src to body \<Longrightarrow> plain_text body \<Longrightarrow>
      \<exists>p. carry env now src to body h = Inr (Observe p via h) \<and> carries p src to body"
    and reaches_valid: "reaches src to body \<Longrightarrow> ValidCallsign src \<and> src \<noteq> []"
begin

text \<open>The hub that takes the packet records the message and publishes it.\<close>

lemma received:
  assumes "reaches src to body" "plain_text body" "hu_ops h = []" "hk_callsign (hu_cfg h) = to"
    and "map_of (hu_stations h) src = None" "hu_sink h" "\<forall>t. net t = PubOk"
    and "\<forall>d. av_message env d \<noteq> None"
  shows "\<exists>h1 h2 k2 d payload. carry (av_parse env) now src to body h = Inr h1 \<and>
    take_op env net now (h1, k) = (h2, k2) \<and> last (hu_recent h2) = d \<and>
    md_from d = src \<and> md_to d = to \<and> md_text d = body \<and> md_via d = via \<and>
    av_message env d = Some payload \<and> (MessagesTopic, payload) \<in> set (sk_sent k2)"
proof -
  obtain p where p: "carry (av_parse env) now src to body h = Inr (Observe p via h)" "carries p src to body"
    using carried [OF assms(1,2)] by blast
  obtain h2 k2 where t: "take_op env net now (Observe p via h, k) = (h2, k2)" by fastforce
  let ?h = "h\<lparr>hu_ops := [], hu_accepted := Suc (hu_accepted h)\<rparr>"
  have fresh: "\<not> duplicate env p via (station_or_new (pk_src p) ?h)"
    using p(2) assms(5) by (simp add: duplicate_def station_or_new_def new_record_def blank_state_def carries_def)
  have ok: "ValidCallsign (pk_src p)" "pk_src p \<noteq> []" "\<not> IsInfrastructure p" "\<not> outside_area env c p" for c
    using reaches_valid [OF assms(1)] p(2) by (simp_all add: carries_def IsInfrastructure_def outside_area_def)
  have a: "apply_new env net now p via (?h, k) = (h2, k2)"
    using t assms(3) ok fresh
    by (simp add: take_op_def Observe_def opsQueueSize_def apply_op_def Let_def)
  let ?m = "\<lparr>am_to = to, am_text = body, am_id = []\<rparr>"
  let ?d = "rx_document env p ?m via"
  obtain h3 k3 where r: "same_messages ?h h3"
    "receiveMessage env net now p ?m via (h3, k3) = (h2, k2)"
    using apply_new_receives [OF a, of ?m] p(2) assms(4) by (auto simp: carries_def)
  have sink: "hu_sink h3" using r(1) assms(6) by (simp add: same_messages_def)
  obtain payload where pay: "av_message env ?d = Some payload" using assms(8) by blast
  have "last (hu_recent h2) = ?d" "(MessagesTopic, payload) \<in> set (sk_sent k2)"
    using r(2) pay sink assms(7)
    by (auto simp: receiveMessage_def Let_def push_recent_def recentMessagesCap_def publishWithTimeout_def
        publishMessageEvent_def sink_publish_def split: if_splits option.splits)
  moreover have "md_from ?d = src" "md_to ?d = to" "md_text ?d = body" "md_via ?d = via"
    using p(2) by (simp_all add: rx_document_def carries_def)
  ultimately show ?thesis using p(1) t pay by blast
qed

end

section \<open>The frame of a message\<close>

lemma text_of_bytes [simp]: "text_of (bytes_of s) = s"
proof -
  have "char_byte (byte_of c) = c" for c
    by (simp add: char_byte_def byte_of_def unat_of_nat)
  then show ?thesis by (simp add: text_of_def bytes_of_def comp_def)
qed

lemma bytes_of_Nil [simp]: "bytes_of s = [] \<longleftrightarrow> s = []" "length (bytes_of s) = length s"
  by (simp_all add: bytes_of_def)

lemma radio_info_normal: "wire_callsign to \<Longrightarrow> radio_info to body = '':'' @ pad_field 9 to @ '':'' @ body"
  by (simp add: radio_info_def normalize_wire_callsign)

text \<open>Every line with a message for a wire callsign reads as that message.\<close>

lemma parse_message_line:
  assumes "header_ok src dst path" "wire_callsign to" "plain_text body"
    and "length (feed_line src dst path (radio_info to body)) \<le> 1024"
  shows "\<exists>p. ParseFeedLine env (feed_line src dst path (radio_info to body)) now = Inr p \<and> carries p src to body"
proof -
  let ?info = "'':'' @ pad_field 9 to @ '':'' @ body"
  have body: "body \<noteq> []" "last body \<notin> {CHR 0x0D, CHR 0x0A}" "CHR ''{'' \<notin> set body" "take 3 body \<notin> {''ack'', ''rej''}"
    using assms(3) by (simp_all add: plain_text_def)
  have pad: "length (pad_field 9 to) = 9" using pad_field_wire [OF assms(2)] by simp
  note info = radio_info_normal [OF assms(2), of body]
  have "ParseFeedLine env (feed_line src dst path ?info) now =
      parseInfo env ((blank_packet (feed_line src dst path ?info) now)
        \<lparr>pk_src := src, pk_dst := dst, pk_path := path\<rparr>) ?info now"
    by (rule parse_feed_line [OF assms(1) _ _ assms(4) [unfolded info]]) (use body in auto)
  moreover have "slice 1 10 ?info = pad_field 9 to" "drop 11 ?info = body"
    using pad by (simp_all add: slice_def)
  moreover have "NormalizeCallsign (pad_field 9 to) = to"
    using normalize_padded [OF assms(2)] pad_field_wire(1) [OF assms(2)] by simp
  moreover have "ack_number (message_number \<lparr>am_to = to, am_text = body, am_id = []\<rparr>) =
      \<lparr>am_to = to, am_text = body, am_id = []\<rparr>"
    using body by (simp add: message_number_def ack_number_def last_index_None)
  ultimately show ?thesis
    using pad by (simp add: info carries_def parseInfo_def parseMessage_def blank_packet_def Let_def)
qed

lemma wire_chars: "wire_callsign c \<Longrightarrow> x \<in> {CHR ''>'', CHR '':'', CHR '',''} \<Longrightarrow> x \<notin> set c"
  using wire_callsign_chars [of c x]
  by (auto simp: callsign_char_def is_upper_ascii_def is_digit_def byte_range_def)

lemma wire_path_header:
  "wire_callsign src \<Longrightarrow> \<forall>w\<in>set (dst # path). wire_callsign w \<Longrightarrow> header_ok src dst path"
  using wire_callsign_nonempty [of src] normalize_wire_callsign [of src] wire_chars
  by (auto simp: header_ok_def)

lemma length_join_path:
  "\<forall>w\<in>set ws. length w \<le> 9 \<Longrightarrow> length (join_with '','' ws) \<le> 10 * length ws"
  by (induction ws rule: induct_list012) auto

lemma feed_line_length:
  assumes "wire_callsign src" "wire_callsign to" "\<forall>w\<in>set (dst # path). wire_callsign w"
    and "length path \<le> 8" "length body \<le> 67"
  shows "length (feed_line src dst path (radio_info to body)) \<le> 1024"
proof -
  have "length (join_with '','' (dst # path)) \<le> 10 * length (dst # path)"
    by (rule length_join_path) (use assms(3) pad_field_wire(2) in blast)
  moreover have "length (pad_field 9 to) = 9" using pad_field_wire [OF assms(2)] by simp
  moreover have "length src \<le> 9" by (rule pad_field_wire(2) [OF assms(1)])
  ultimately show ?thesis
    using assms(4,5) by (simp add: feed_line_def radio_info_normal [OF assms(2)])
qed

lemma encode_addresses_length: "encode_addresses as = Inr bytes \<Longrightarrow> length bytes = 7 * length as"
proof (induction as arbitrary: bytes)
  case (Cons a as)
  then obtain f r where "encodeAddress a 0 (as = []) = Inr f" "encode_addresses as = Inr r" "bytes = f @ r"
    by (auto simp: and_then_Inr_iff)
  moreover from this(1) have "length f = 7"
    by (auto simp: encodeAddress_def Let_def split: prod.splits if_splits)
  ultimately show ?case using Cons.IH by simp
qed simp

section \<open>The radio\<close>

text \<open>What one backend writes is what the other one reads, in the chunks of \<open>chop\<close>.\<close>

definition radio_carry :: "radio_config \<Rightarrow> radio_config \<Rightarrow> (byte list \<Rightarrow> byte list list) \<Rightarrow> parse_env \<Rightarrow> time \<Rightarrow>
    string \<Rightarrow> string \<Rightarrow> string \<Rightarrow> hub \<Rightarrow> panic + hub" where
  "radio_carry sender receiver chop env now src to body h =
     and_then (radio_reads env receiver
                (map (TncBytes now) (chop (snd (SendRadio True (\<lambda>_. None) src sender to body))))
                \<lparr>rs_decoder = new_decoder, rs_last_rx = now, rs_packets = 0, rs_hub = h\<rparr>)
       (\<lambda>(e, s). Inr (rs_hub s))"

definition radio_reaches :: "radio_config \<Rightarrow> radio_config \<Rightarrow> (byte list \<Rightarrow> byte list list) \<Rightarrow>
    string \<Rightarrow> string \<Rightarrow> string \<Rightarrow> bool" where
  "radio_reaches sender receiver chop src to body \<longleftrightarrow>
     wire_callsign src \<and> wire_callsign to \<and> (\<forall>w\<in>set (rc_path sender). wire_callsign w) \<and>
     length (rc_path sender) \<le> 8 \<and> (\<forall>bs. concat (chop bs) = bs) \<and> rc_max_frame receiver \<ge> 150"

text \<open>A session reads the frames of the whole stream, whatever the chunks.\<close>

lemma handle_frames_append:
  "handle_frames env cap now (fs @ gs) s = and_then (handle_frames env cap now fs s) (handle_frames env cap now gs)"
proof (induction fs arbitrary: s)
  case (Cons f fs)
  have "handle_frames env cap now (fs @ gs) =
      (\<lambda>s. and_then (handle_frames env cap now fs s) (handle_frames env cap now gs))"
    by (rule ext) (rule Cons.IH)
  then show ?case by (simp add: and_then_assoc)
qed simp

lemma handleFrame_decoder:
  "handleFrame env now f (s\<lparr>rs_decoder := d, rs_last_rx := t\<rparr>) =
     and_then (handleFrame env now f s) (\<lambda>s. Inr (s\<lparr>rs_decoder := d, rs_last_rx := t\<rparr>))"
  by (auto simp: handleFrame_def and_then_def split: option.split sum.split)

lemma handle_frames_decoder:
  "handle_frames env cap now fs (s\<lparr>rs_decoder := d, rs_last_rx := t\<rparr>) =
     and_then (handle_frames env cap now fs s) (\<lambda>s. Inr (s\<lparr>rs_decoder := d, rs_last_rx := t\<rparr>))"
proof (induction fs arbitrary: s)
  case (Cons f fs)
  have "and_then (and_then (handleFrame env now f s) (\<lambda>s. Inr (s\<lparr>rs_decoder := d, rs_last_rx := t\<rparr>)))
      (handle_frames env cap now fs) =
    and_then (handleFrame env now f s) (\<lambda>s. and_then (handle_frames env cap now fs s)
      (\<lambda>s. Inr (s\<lparr>rs_decoder := d, rs_last_rx := t\<rparr>)))"
    by (simp add: and_then_assoc Cons.IH)
  then show ?case by (simp add: Cons.IH handleFrame_decoder and_then_assoc)
qed simp

lemma radio_reads_stream:
  assumes "rs_last_rx s = now"
  shows "radio_reads env cfg (map (TncBytes now) cs) s =
    (case Feed (concat cs) (rs_decoder s) of
       (frames, d) \<Rightarrow> and_then (handle_frames env (rc_max_frame cfg) now frames s)
         (\<lambda>s. Inr (None, s\<lparr>rs_decoder := d, rs_last_rx := now\<rparr>)))"
  using assms
proof (induction cs arbitrary: s)
  case (Cons c cs)
  obtain f1 d1 where f1: "Feed c (rs_decoder s) = (f1, d1)" by fastforce
  obtain f2 d2 where f2: "Feed (concat cs) d1 = (f2, d2)" by fastforce
  have "radio_reads env cfg (map (TncBytes now) (c # cs)) s =
      and_then (handle_frames env (rc_max_frame cfg) now f1 s)
        (\<lambda>s. radio_reads env cfg (map (TncBytes now) cs) (s\<lparr>rs_decoder := d1, rs_last_rx := now\<rparr>))"
    by (simp add: f1 Cons.prems handle_frames_decoder and_then_assoc)
  also have "\<dots> = and_then (handle_frames env (rc_max_frame cfg) now f1 s)
        (\<lambda>s. and_then (handle_frames env (rc_max_frame cfg) now f2 s)
          (\<lambda>s. Inr (None, s\<lparr>rs_decoder := d2, rs_last_rx := now\<rparr>)))"
    by (simp add: Cons.IH f2 handle_frames_decoder and_then_assoc)
  finally show ?case
    by (simp add: Feed_append f1 f2 handle_frames_append and_then_assoc)
qed simp

text \<open>The frame of a message, as it is sent and as it is read.\<close>

lemma message_frame:
  assumes "wire_callsign src" "wire_callsign to" "\<forall>w\<in>set (rc_path cfg). wire_callsign w"
  shows "\<exists>frame. SendRadio True (\<lambda>_. None) src cfg to body = (None, EncodeKISS frame) \<and>
    length frame = 7 * (2 + length (rc_path cfg)) + 2 + length (radio_info to body) \<and>
    DecodeUIFrame frame = Some \<lparr>ui_src = src, ui_dst = to, ui_digis = rc_path cfg,
      ui_info = bytes_of (radio_info to body)\<rparr>"
proof -
  obtain frame where f: "BuildUIFrame src to (rc_path cfg) (bytes_of (radio_info to body)) = Inr frame"
    "DecodeUIFrame frame = Some \<lparr>ui_src = src, ui_dst = to, ui_digis = rc_path cfg,
      ui_info = bytes_of (radio_info to body)\<rparr>"
    using build_decode_frame [OF assms] by blast
  then obtain addrs where "encode_addresses ([to, src] @ rc_path cfg) = Inr addrs"
    "frame = addrs @ [ax25ControlUI, ax25PIDNoL3] @ bytes_of (radio_info to body)"
    by (auto simp: BuildUIFrame_def and_then_Inr_iff)
  moreover from this(1) have "length addrs = 7 * length ([to, src] @ rc_path cfg)"
    by (rule encode_addresses_length)
  ultimately have "length frame = 7 * (2 + length (rc_path cfg)) + 2 + length (radio_info to body)" by simp
  then show ?thesis using f by (intro exI [of _ frame]) (simp add: SendRadio_def write_all_def)
qed

lemma radio_carried:
  assumes "radio_reaches sender receiver chop src to body" "plain_text body"
  shows "\<exists>p. radio_carry sender receiver chop env now src to body h = Inr (Observe p BackendRadio h) \<and>
    carries p src to body"
proof -
  have w: "wire_callsign src" "wire_callsign to" "\<forall>w\<in>set (rc_path sender). wire_callsign w"
    "length (rc_path sender) \<le> 8" "\<forall>bs. concat (chop bs) = bs" "rc_max_frame receiver \<ge> 150"
    using assms(1) by (simp_all add: radio_reaches_def)
  obtain frame where f: "SendRadio True (\<lambda>_. None) src sender to body = (None, EncodeKISS frame)"
    "length frame = 7 * (2 + length (rc_path sender)) + 2 + length (radio_info to body)"
    "DecodeUIFrame frame = Some \<lparr>ui_src = src, ui_dst = to, ui_digis = rc_path sender,
      ui_info = bytes_of (radio_info to body)\<rparr>"
    using message_frame [OF w(1-3)] by blast
  have len: "length (radio_info to body) \<le> 78" "radio_info to body \<noteq> []"
    using assms(2) pad_field_wire [OF w(2)] by (simp_all add: radio_info_normal [OF w(2)] plain_text_def)
  have line: "FrameToFeedLine \<lparr>ui_src = src, ui_dst = to, ui_digis = rc_path sender,
      ui_info = bytes_of (radio_info to body)\<rparr> = feed_line src to (rc_path sender) (radio_info to body)"
    by (cases "rc_path sender") (simp_all add: FrameToFeedLine_def feed_line_def)
  have "header_ok src to (rc_path sender)"
    by (rule wire_path_header [OF w(1)]) (use w(2,3) in simp)
  moreover have "length (feed_line src to (rc_path sender) (radio_info to body)) \<le> 1024"
    by (rule feed_line_length [OF w(1,2) _ w(4)]) (use w(2,3) assms(2) in \<open>simp_all add: plain_text_def\<close>)
  ultimately obtain p where p: "ParseFeedLine env (feed_line src to (rc_path sender) (radio_info to body)) now = Inr p"
    "carries p src to body"
    using parse_message_line [OF _ w(2) assms(2)] by blast
  have ne: "frame \<noteq> []" "\<not> int (length frame) > rc_max_frame receiver"
    using f(2) len(1) w(4,6) by auto
  have src: "src \<noteq> []" by (rule wire_callsign_nonempty [OF w(1)])
  have "handle_frames env (rc_max_frame receiver) now [frame]
      \<lparr>rs_decoder = new_decoder, rs_last_rx = now, rs_packets = 0, rs_hub = h\<rparr> =
    Inr \<lparr>rs_decoder = new_decoder, rs_last_rx = now, rs_packets = 1, rs_hub = Observe p BackendRadio h\<rparr>"
    using ne f(3) p src len(2) by (simp add: handleFrame_def line carries_def)
  moreover have "Feed (EncodeKISS frame) new_decoder = ([frame], after_end)"
    by (rule feed_frame) (use ne in simp_all)
  ultimately have "radio_carry sender receiver chop env now src to body h = Inr (Observe p BackendRadio h)"
    using w(5) f(1) by (simp add: radio_carry_def radio_reads_stream)
  with p(2) show ?thesis by blast
qed

interpretation radio: message_transport "radio_carry sender receiver chop" BackendRadio
    "radio_reaches sender receiver chop" for sender receiver chop
  by unfold_locales
    (auto simp: radio_reaches_def dest: wire_valid wire_callsign_nonempty intro!: radio_carried)

section \<open>APRS-IS\<close>

text \<open>The network passes a line on to the other instance, among the server's comment lines.\<close>

definition inet_carry :: "inet_source \<Rightarrow> parse_env \<Rightarrow> time \<Rightarrow> string \<Rightarrow> string \<Rightarrow> string \<Rightarrow> hub \<Rightarrow> panic + hub" where
  "inet_carry source env now src to body h =
     and_then (inet_lines env
                (map (\<lambda>l. (now, l)) (fst (scan_lines (snd (SendInet True (\<lambda>_. None) source to body)))))
                \<lparr>in_packets = 0, in_messages = 0, in_positions = 0, in_hub = h\<rparr>)
       (\<lambda>s. Inr (in_hub s))"

definition inet_reaches :: "inet_source \<Rightarrow> string \<Rightarrow> string \<Rightarrow> string \<Rightarrow> bool" where
  "inet_reaches source src to body \<longleftrightarrow>
     is_login source = src \<and> wire_callsign src \<and> wire_callsign to \<and>
     CHR 0x0A \<notin> set body \<and> CHR 0x0D \<notin> set body"

lemma scan_one_line:
  assumes "CHR 0x0A \<notin> set l" "CHR 0x0D \<notin> set l" "length l < 65535"
  shows "scan_lines (l @ [CHR 0x0D, CHR 0x0A]) = ([l], False)"
proof -
  have "CHR 0x0A \<notin> set (l @ [CHR 0x0D])" using assms(1) by simp
  from split_on_append [OF this, of "[]"]
  have "split_on (CHR 0x0A) (l @ [CHR 0x0D, CHR 0x0A]) = [l @ [CHR 0x0D], []]" by simp
  then show ?thesis using assms(3) by (simp add: scan_lines_def scan_limit_def drop_cr_def Let_def)
qed

lemma inet_carried:
  assumes "inet_reaches source src to body" "plain_text body"
  shows "\<exists>p. inet_carry source env now src to body h = Inr (Observe p BackendInternet h) \<and> carries p src to body"
proof -
  have w: "is_login source = src" "wire_callsign src" "wire_callsign to" "CHR 0x0A \<notin> set body" "CHR 0x0D \<notin> set body"
    using assms(1) by (simp_all add: inet_reaches_def)
  have body: "body \<noteq> []" "length body \<le> 67" using assms(2) by (simp_all add: plain_text_def)
  note pad = pad_field_wire [OF w(3)]
  let ?l = "feed_line src ''APRS'' [''TCPIP*''] (radio_info to body)"
  have l: "EncodeMessageLine src to body = ?l"
    by (simp add: EncodeMessageLine_feed [OF w(2,3)] radio_info_normal [OF w(3)])
  have hd: "header_ok src ''APRS'' [''TCPIP*'']" by (rule wire_header [OF w(2)])
  have len: "length ?l \<le> 1024"
    using pad_field_wire(2) [OF w(2)] pad body by (simp add: feed_line_def radio_info_normal [OF w(3)])
  obtain p where p: "ParseFeedLine env ?l now = Inr p" "carries p src to body"
    using parse_message_line [OF hd w(3) assms(2) len] by blast
  have free: "x \<notin> set ?l" if "x = CHR 0x0A \<or> x = CHR 0x0D" for x
    using that w(4,5) wire_callsign_chars [OF w(2), of x] wire_callsign_chars [OF w(3), of x] pad(1)
    by (auto simp: feed_line_def radio_info_normal [OF w(3)] callsign_char_def is_upper_ascii_def is_digit_def
        byte_range_def)
  have scan: "scan_lines (?l @ [CHR 0x0D, CHR 0x0A]) = ([?l], False)"
    by (rule scan_one_line) (use free len in auto)
  have ends: "?l \<noteq> []" "hd ?l \<noteq> CHR ''#''" "trim_right [CHR 0x0D] ?l = ?l"
  proof -
    show ne: "?l \<noteq> []" by (simp add: feed_line_def)
    have "hd ?l = hd src" using wire_callsign_nonempty [OF w(2)] by (simp add: feed_line_def)
    moreover have "hd src \<in> set src" by (rule hd_in_set [OF wire_callsign_nonempty [OF w(2)]])
    ultimately show "hd ?l \<noteq> CHR ''#''"
      using wire_callsign_chars [OF w(2), of "CHR ''#''"]
      by (auto simp: callsign_char_def is_upper_ascii_def is_digit_def byte_range_def)
    show "trim_right [CHR 0x0D] ?l = ?l"
      using last_in_set [OF ne] free by (intro trim_right_id) auto
  qed
  have "inet_line env now ?l \<lparr>in_packets = 0, in_messages = 0, in_positions = 0, in_hub = h\<rparr> =
      Inr \<lparr>in_packets = 1, in_messages = 1, in_positions = 0, in_hub = Observe p BackendInternet h\<rparr>"
    using p ends by (simp add: inet_line_def carries_def)
  then have "inet_carry source env now src to body h = Inr (Observe p BackendInternet h)"
    by (simp add: inet_carry_def SendInet_def write_all_def w(1) l scan)
  with p(2) show ?thesis by blast
qed

interpretation inet: message_transport "inet_carry source" BackendInternet "inet_reaches source" for source
  by unfold_locales
    (auto simp: inet_reaches_def dest: wire_valid wire_callsign_nonempty intro!: inet_carried)

section \<open>From hub to hub\<close>


text \<open>the same holds of a line that is injected into APRS-IS and passed on by the network.\<close>

theorem inet_message_delivered:
  assumes "inet_reaches source src to body" "plain_text body" "hu_ops h = []"
    and "hk_callsign (hu_cfg h) = to" "map_of (hu_stations h) src = None" "hu_sink h" "\<forall>t. net t = PubOk"
    and "\<forall>d. av_message env d \<noteq> None"
  shows "\<exists>h1 h2 k2 d payload. inet_carry source (av_parse env) now src to body h = Inr h1 \<and>
    take_op env net now (h1, k) = (h2, k2) \<and> last (hu_recent h2) = d \<and>
    md_from d = src \<and> md_to d = to \<and> md_text d = body \<and> md_via d = BackendInternet \<and>
    av_message env d = Some payload \<and> (MessagesTopic, payload) \<in> set (sk_sent k2)"
  by (rule inet.received [OF assms])


definition sample_radio :: radio_config where
  "sample_radio = \<lparr>rc_server = ''tnc:8001'', rc_path = [''SP9XYZ''], rc_connect = 15 * second_ns,
     rc_read = 600 * second_ns, rc_max_frame = 2048\<rparr>"

lemma sample_wire: "wire_callsign ''SP9MOA''"
  unfolding wire_callsign_def
  by (rule exI [of _ "''SP9MOA''"], rule exI [of _ 0])
    (simp add: callsign_char_def is_upper_ascii_def is_digit_def byte_range_def)

lemma sample_hub: "hu_ops (SetSink (fresh_hub sample_config)) = []"
  "hk_callsign (hu_cfg (SetSink (fresh_hub sample_config))) = ''SP9MOA''"
  "map_of (hu_stations (SetSink (fresh_hub sample_config))) c = None" "hu_sink (SetSink (fresh_hub sample_config))"
  "\<forall>t. calm_net t = PubOk" "\<forall>d. av_message sample_env d \<noteq> None" "plain_text ''hello''"
  by (simp_all add: SetSink_def fresh_hub_def sample_config_def calm_net_def sample_env_def plain_text_def)


definition sample_inet :: inet_source where
  "sample_inet = \<lparr>is_cfg = \<lparr>ic_callsign = [], ic_passcode = ''12345'', ic_passcode_file = [], ic_server = ''aprs:14580'',
     ic_filter = [], ic_connect = 15 * second_ns, ic_read = 600 * second_ns\<rparr>, is_login = ''SP9ABC'',
     is_pass = ''12345'', is_filter = []\<rparr>"

theorem inet_message_delivered_witness:
  "\<exists>h2. md_text (last (hu_recent h2)) = ''hello'' \<and> md_via (last (hu_recent h2)) = BackendInternet \<and>
    (\<exists>h1 k2. inet_carry sample_inet (av_parse sample_env) 0 ''SP9ABC'' ''SP9MOA'' ''hello''
        (SetSink (fresh_hub sample_config)) = Inr h1 \<and> take_op sample_env calm_net 0 (h1, no_sink) = (h2, k2))"
proof -
  have "inet_reaches sample_inet ''SP9ABC'' ''SP9MOA'' ''hello''"
    using sample_callsigns sample_wire by (simp add: inet_reaches_def sample_inet_def)
  from inet_message_delivered [OF this sample_hub(7,1,2,3,4,5,6), of 0 no_sink] show ?thesis by blast
qed

end
