(* ===== verification/Aprs_Backends.thy ===== *)
theory Aprs_Backends
  imports Aprs_Transport
begin

text \<open>
  Start-up and recovery of the APRS side: what a locator means and which one stops the program, the
  reconnect delays of the backends, and the server that APRS-IS is really dialled at.
\<close>

section \<open>Locators\<close>

lemma letter_rat_bounds:
  "field_letter c \<Longrightarrow> 0 \<le> letter_rat c \<and> letter_rat c \<le> 17"
  "square_letter c \<Longrightarrow> 0 \<le> letter_rat c \<and> letter_rat c \<le> 23"
  by (auto simp: field_letter_def square_letter_def letter_rat_def less_eq_char_def)

lemma digit_rat_bounds: "is_digit c \<Longrightarrow> 0 \<le> digit_rat c \<and> digit_rat c \<le> 9"
  by (auto simp: is_digit_def byte_range_def digit_rat_def digit_value_def)

lemma grid_tail_chars:
  "grid_tail t = Some (l, d) \<Longrightarrow>
     (l = [] \<or> length l = 2 \<and> list_all square_letter l) \<and> (d = [] \<or> length d = 2 \<and> list_all is_digit d)"
  by (auto simp: grid_tail_def split: if_splits)

lemma pair_chars: "length l = 2 \<Longrightarrow> list_all P l \<Longrightarrow> P (l ! 0) \<and> P (l ! 1)"
  by (simp add: list_all_length)

lemma grid_groups_chars:
  assumes "grid_groups s = Some (m, l, d)"
  shows "field_letter (m ! 0)" "field_letter (m ! 1)" "is_digit (m ! 2)" "is_digit (m ! 3)"
    "l \<noteq> [] \<Longrightarrow> square_letter (l ! 0) \<and> square_letter (l ! 1)"
    "d \<noteq> [] \<Longrightarrow> is_digit (d ! 0) \<and> is_digit (d ! 1)"
    "length l = 0 \<or> length l = 2" "length d = 0 \<or> length d = 2"
proof -
  have g: "length s \<ge> 4" "list_all field_letter (take 2 s)" "list_all is_digit (slice 2 4 s)" "m = take 4 s"
    "grid_tail (drop 4 s) = Some (l, d)"
    using assms by (auto simp: grid_groups_def split: if_splits)
  then show "field_letter (m ! 0)" "field_letter (m ! 1)"
    by (auto simp: list_all_length)
  have "is_digit (m ! (2 + i))" if "i < 2" for i
    using g(1,3,4) that by (simp add: list_all_length slice_def)
  from this [of 0] this [of 1] show "is_digit (m ! 2)" "is_digit (m ! 3)"
    by (simp_all add: numeral_2_eq_2 numeral_3_eq_3)
  show "l \<noteq> [] \<Longrightarrow> square_letter (l ! 0) \<and> square_letter (l ! 1)"
    "d \<noteq> [] \<Longrightarrow> is_digit (d ! 0) \<and> is_digit (d ! 1)"
    "length l = 0 \<or> length l = 2" "length d = 0 \<or> length d = 2"
    using grid_tail_chars [OF g(5)] pair_chars by blast+
qed

text \<open>
  a locator is a place on the globe.  Whatever the configured locator, the position that comes of it
  lies strictly inside the ranges of latitude and longitude.
\<close>

theorem locator_bounds:
  assumes "ParseGridSquare locator = Inr (Some (lat, lon))"
  shows "- 90 < lat \<and> lat < 90 \<and> - 180 < lon \<and> lon < 180"
proof -
  obtain m l d where g: "grid_groups (to_upper (trim_space locator)) = Some (m, l, d)"
    using assms by (auto simp: ParseGridSquare_def split: option.splits)
  note c = grid_groups_chars [OF g]
  note b = letter_rat_bounds(1) [OF c(1)] letter_rat_bounds(1) [OF c(2)] digit_rat_bounds [OF c(3)]
    digit_rat_bounds [OF c(4)]
  consider "l = []" "d = []" | "l \<noteq> []" "d = []" "length l = 2" | "l \<noteq> []" "d \<noteq> []" "length l = 2" "length d = 2"
    using assms g c(7,8) by (cases "l = []"; cases "d = []") (auto simp: ParseGridSquare_def Let_def)
  then show ?thesis
  proof cases
    case 1
    then show ?thesis using assms g b by (auto simp: ParseGridSquare_def Let_def)
  next
    case 2
    then have "square_letter (l ! 0)" "square_letter (l ! 1)" using c(5) by blast+
    with letter_rat_bounds(2) have "0 \<le> letter_rat (l ! 0)" "letter_rat (l ! 0) \<le> 23"
      "0 \<le> letter_rat (l ! 1)" "letter_rat (l ! 1) \<le> 23" by blast+
    with 2 assms g b show ?thesis by (auto simp: ParseGridSquare_def Let_def)
  next
    case 3
    then have "square_letter (l ! 0)" "square_letter (l ! 1)" "is_digit (d ! 0)" "is_digit (d ! 1)"
      using c(5,6) by blast+
    with letter_rat_bounds(2) digit_rat_bounds have "0 \<le> letter_rat (l ! 0)" "letter_rat (l ! 0) \<le> 23"
      "0 \<le> letter_rat (l ! 1)" "letter_rat (l ! 1) \<le> 23" "0 \<le> digit_rat (d ! 0)" "digit_rat (d ! 0) \<le> 9"
      "0 \<le> digit_rat (d ! 1)" "digit_rat (d ! 1) \<le> 9" by blast+
    with 3 assms g b show ?thesis by (auto simp: ParseGridSquare_def Let_def)
  qed
qed

theorem locator_bounds_witness: "- 90 < (101 / 2 :: rat) \<and> (101 / 2 :: rat) < 90 \<and> - 180 < (19 :: rat) \<and> (19 :: rat) < 180"
proof -
  have "ParseGridSquare ''JO90'' = Inr (Some (101 / 2, 19))" by code_simp
  from locator_bounds [OF this] show ?thesis .
qed

text \<open>
  a locator with a forgotten subsquare stops the program.  Two letters and four digits match the
  pattern, whose groups are optional one by one, and the letters that the length promises are not
  there: the creation of an enabled hub panics instead of reporting the locator.
\<close>

theorem six_byte_locator_panics:
  assumes "hk_enabled cfg" "ValidCallsign (NormalizeCallsign (hk_callsign cfg))"
    and "to_upper (trim_space (hk_grid cfg)) = [a, b, c, d, e, f]" "field_letter a" "field_letter b"
    and "list_all is_digit [c, d, e, f]"
  shows "NewHub cfg = Inl IndexOutOfRange"
proof -
  have "\<not> square_letter e"
    using assms(6) by (auto simp: square_letter_def is_digit_def byte_range_def less_eq_char_def)
  then have "grid_groups [a, b, c, d, e, f] = Some ([a, b, c, d], [], [e, f])"
    using assms(4-6) by (simp add: grid_groups_def grid_tail_def slice_def)
  then show ?thesis
    using assms(1-3) by (simp add: NewHub_def hub_defaults_def ParseGridSquare_def Let_def)
qed

theorem six_byte_locator_panics_witness:
  "NewHub (sample_config\<lparr>hk_grid := ''JO9022''\<rparr>) = Inl IndexOutOfRange"
proof (rule six_byte_locator_panics)
  show "to_upper (trim_space (hk_grid (sample_config\<lparr>hk_grid := ''JO9022''\<rparr>))) =
      [CHR ''J'', CHR ''O'', CHR ''9'', CHR ''0'', CHR ''2'', CHR ''2'']"
    by (simp add: sample_config_def) code_simp
  show "ValidCallsign (NormalizeCallsign (hk_callsign (sample_config\<lparr>hk_grid := ''JO9022''\<rparr>)))"
    by (simp add: sample_config_def normalize_wire_callsign [OF sample_wire] wire_valid [OF sample_wire])
qed (simp_all add: sample_config_def field_letter_def less_eq_char_def is_digit_def byte_range_def)

section \<open>Reconnecting\<close>

lemma reconnect_range:
  assumes "minReconnectDelay \<le> delay" "delay \<le> maxReconnectDelay"
  shows "\<forall>w\<in>set (reconnect_delays delay ds). minReconnectDelay \<le> w \<and> w \<le> maxReconnectDelay"
  using assms
proof (induction ds arbitrary: delay)
  case (Cons d ds)
  let ?w = "resetBackoff delay d"
  have w: "minReconnectDelay \<le> ?w" "?w \<le> maxReconnectDelay" "0 \<le> ?w"
    using Cons.prems by (simp_all add: resetBackoff_def minReconnectDelay_def maxReconnectDelay_def second_ns_def)
  let ?n = "if ?w * 2 > maxReconnectDelay then maxReconnectDelay else ?w * 2"
  have "minReconnectDelay \<le> ?n" "?n \<le> maxReconnectDelay"
    using w by (auto simp: minReconnectDelay_def maxReconnectDelay_def second_ns_def)
  from Cons.IH [OF this] w show ?case by (simp add: Let_def)
qed simp

lemma reconnect_nth:
  "i < length ds \<Longrightarrow> ds ! i \<ge> healthySessionReset \<Longrightarrow> reconnect_delays delay ds ! i = minReconnectDelay"
proof (induction ds arbitrary: delay i)
  case (Cons d ds)
  then show ?case by (cases i) (auto simp: Let_def resetBackoff_def)
qed simp

lemma reconnect_growth:
  "Suc i < length ds \<Longrightarrow> ds ! Suc i < healthySessionReset \<Longrightarrow>
     reconnect_delays delay ds ! Suc i = min maxReconnectDelay (2 * reconnect_delays delay ds ! i)"
proof (induction ds arbitrary: delay i)
  case (Cons d ds)
  show ?case
  proof (cases i)
    case 0
    then show ?thesis using Cons.prems by (cases ds) (auto simp: Let_def resetBackoff_def)
  next
    case (Suc j)
    then show ?thesis using Cons by (auto simp: Let_def)
  qed
qed simp

text \<open>
  reconnecting backs off and recovers.  Every delay of a backend is between two seconds and two
  minutes; after a session of a minute or more it is two seconds, after a shorter one twice the
  delay before, up to the maximum.
\<close>

theorem reconnect_backoff:
  fixes ds :: "int list"
  defines "ws \<equiv> reconnect_delays minReconnectDelay ds"
  shows "(\<forall>w\<in>set ws. 2000000000 \<le> w \<and> w \<le> 120000000000) \<and>
    (\<forall>i<length ds. ds ! i \<ge> healthySessionReset \<longrightarrow> ws ! i = 2000000000) \<and>
    (\<forall>i. Suc i < length ds \<and> ds ! Suc i < healthySessionReset \<longrightarrow> ws ! Suc i = min 120000000000 (2 * ws ! i))"
  using reconnect_range [of minReconnectDelay ds] reconnect_nth [of _ ds minReconnectDelay]
    reconnect_growth [of _ ds minReconnectDelay]
  by (simp add: ws_def minReconnectDelay_def maxReconnectDelay_def second_ns_def)

theorem reconnect_backoff_witness:
  "reconnect_delays minReconnectDelay [61000000000, 1000000000] ! 1 = 4000000000"
  using reconnect_backoff [of "[61000000000, 1000000000]"] by (simp add: healthySessionReset_def second_ns_def)

lemma trim_space_solid:
  assumes "s \<noteq> []" "is_ascii (hd s)" "\<not> blank (hd s)" "is_ascii (last s)" "\<not> blank (last s)"
  shows "trim_space s = s"
proof -
  have "trim_by space_runes s = s"
    using assms by (intro trim_by_ascii match_len_ascii) simp_all
  moreover have "trim_by (map rev space_runes) (rev s) = rev s"
    using assms by (intro trim_by_ascii match_len_ascii) (simp_all add: hd_rev)
  ultimately show ?thesis by (simp add: trim_space_def)
qed

section \<open>The server of APRS-IS\<close>

text \<open>
  the default server is never dialled.  Without a configured server the default is what is
  validated, but the session dials the empty address of the configuration, on which \<open>net.Dial\<close> fails.
\<close>

theorem default_server_undialled:
  assumes "NewInet env fs hub cfg = Inr source" "trim_space (ic_server cfg) = []"
  shows "split_host_port DefaultServer \<noteq> None \<and> dial_address source = ic_server cfg \<and>
    split_host_port (trim_space (dial_address source)) = None"
proof -
  have "dial_address source = ic_server cfg" "split_host_port DefaultServer \<noteq> None"
    using assms by (auto simp: NewInet_def Let_def and_then_Inr_iff guard_err_Inr_iff dial_address_def inet_defaults_def)
  then show ?thesis using assms(2) by (simp add: split_host_port_def)
qed

definition bare_inet :: inet_config where
  "bare_inet = \<lparr>ic_callsign = [], ic_passcode = ''12345'', ic_passcode_file = [], ic_server = [], ic_filter = ''r/50/19/60'',
     ic_connect = 0, ic_read = 0\<rparr>"

theorem default_server_undialled_witness:
  "\<exists>source. NewInet sample_env (\<lambda>_. (Inl [], Inl [])) sample_config bare_inet = Inr source \<and> dial_address source = []"
proof -
  have t: "trim_space ''12345'' = ''12345''" "trim_space ''r/50/19/60'' = ''r/50/19/60''"
    by (rule trim_space_solid; simp add: is_ascii_def blank_def)+
  have s: "split_host_port DefaultServer = Some (''rotate.aprs2.net'', ''14580'')" by code_simp
  have n: "NormalizeCallsign [] = []" by (simp add: NormalizeCallsign_def to_upper_def)
  obtain source where "NewInet sample_env (\<lambda>_. (Inl [], Inl [])) sample_config bare_inet = Inr source"
    using s by (simp add: NewInet_def bare_inet_def inet_defaults_def inet_login_def sample_config_def second_ns_def
        defaultConnectTimeout_def defaultReadTimeout_def guard_err_def n wire_valid [OF sample_wire]
        resolve_passcode_def t maxFilterBytes_def Let_def)
  from default_server_undialled [OF this] this show ?thesis by (simp add: bare_inet_def)
qed

end
