(* ===== verification/Aprs_Actions.thy ===== *)
theory Aprs_Actions
  imports Action_Instance Aprs_Hub
begin

text \<open>
  The two actions that send APRS messages: \<open>internal/actions/aprs\<close>, which sends at once, and
  \<open>internal/actions/aprsout\<close>, which paces its transmissions and can wait for acknowledgements.
\<close>

definition maxRecipients :: nat where "maxRecipients = 32"

datatype aprs_action_error =
  ActionHubDisabled | NoCallsigns | TooManyCallsigns nat | BadActionCallsign string
| CooldownTooLong int | BadAckTimeout int | TxIntervalTooLong int

section \<open>What both do\<close>

fun normal_callsigns :: "string list \<Rightarrow> aprs_action_error + string list" where
  "normal_callsigns [] = Inr []"
| "normal_callsigns (c # cs) =
     (if ValidCallsign (NormalizeCallsign c)
      then and_then (normal_callsigns cs) (\<lambda>ds. Inr (NormalizeCallsign c # ds))
      else Inl (BadActionCallsign c))"

definition add_recipient :: "string \<Rightarrow> string list \<Rightarrow> string list" where
  "add_recipient c out =
     (let n = NormalizeCallsign c in if n = [] \<or> n \<in> set out then out else out @ [n])"

text \<open>The callsigns of the configuration, then those of the members of the group.\<close>

definition aprs_recipients :: "string list \<Rightarrow> string list \<Rightarrow> string list" where
  "aprs_recipients configured members = fold add_recipient members (fold add_recipient configured [])"

definition aprs_text :: "string \<Rightarrow> int \<Rightarrow> action_request \<Rightarrow> string" where
  "aprs_text pre reserve req =
     (let p = (if trim_space pre = [] then trim_space (ai_header (ar_app req)) else trim_space pre) in
      case de_hazard (ar_event req) of
        Some m \<Rightarrow> BuildAlertMessage p (hz_severity (ht_hazard m)) (hz_event (ht_hazard m))
                    (hz_headline (ht_hazard m)) reserve
      | None \<Rightarrow> LimitMessageText (join_with '' '' [p, ''WarnFlux notification'']) reserve)"

text \<open>The end of \<open>Execute\<close>: how many failed, of how many, and the first error.\<close>

type_synonym send_failure = "nat \<times> nat \<times> send_error"

definition count_failure :: "send_error option \<Rightarrow> nat \<times> send_error option \<Rightarrow> nat \<times> send_error option" where
  "count_failure e s =
     (case e of
        None \<Rightarrow> s
      | Some x \<Rightarrow> (fst s + 1, case snd s of None \<Rightarrow> Some x | Some y \<Rightarrow> Some y))"

definition execute_result :: "nat \<Rightarrow> nat \<times> send_error option \<Rightarrow> send_failure option" where
  "execute_result n s = map_option (\<lambda>e. (fst s, n, e)) (snd s)"

section \<open>Sending at once\<close>

record aprs_config =
  ac_callsigns :: "string list"
  ac_prefix :: string

definition NewAprs :: "bool \<Rightarrow> aprs_config \<Rightarrow> aprs_action_error + aprs_config" where
  "NewAprs hub_enabled cfg =
     and_then (guard_err hub_enabled ActionHubDisabled) (\<lambda>_.
     and_then (guard_err (ac_callsigns cfg \<noteq> []) NoCallsigns) (\<lambda>_.
     and_then (guard_err (length (ac_callsigns cfg) \<le> maxRecipients)
       (TooManyCallsigns (length (ac_callsigns cfg)))) (\<lambda>_.
     and_then (normal_callsigns (ac_callsigns cfg)) (\<lambda>cs. Inr (cfg\<lparr>ac_callsigns := cs\<rparr>)))))"

text \<open>The messages go out one after the other; the hub and the broker are threaded through.\<close>

fun aprs_sends :: "aprs_env \<Rightarrow> net \<Rightarrow> radio \<Rightarrow> time \<Rightarrow> string \<Rightarrow> string list \<Rightarrow>
    (nat \<times> send_error option) \<times> hub \<times> sink \<Rightarrow> (nat \<times> send_error option) \<times> hub \<times> sink" where
  "aprs_sends env net send now body [] s = s"
| "aprs_sends env net send now body (c # cs) s =
     (case SendMessage env net send now c body (snd s) of
        (r, s') \<Rightarrow> aprs_sends env net send now body cs
          (count_failure (case r of Inl e \<Rightarrow> Some e | Inr _ \<Rightarrow> None) (fst s), s'))"

definition ExecuteAprs :: "aprs_env \<Rightarrow> net \<Rightarrow> radio \<Rightarrow> time \<Rightarrow> aprs_config \<Rightarrow> action_request \<Rightarrow>
    hub \<times> sink \<Rightarrow> send_failure option \<times> hub \<times> sink" where
  "ExecuteAprs env net send now cfg req s =
     (let cs = aprs_recipients (ac_callsigns cfg) (ar_callsigns req);
          (f, s') = aprs_sends env net send now (aprs_text (ac_prefix cfg) 0 req) cs ((0, None), s)
      in (execute_result (length cs) f, s'))"

section \<open>Paced sending\<close>

record aprsout_config =
  oc_callsigns :: "string list"
  oc_prefix :: string
  oc_cooldown :: int
  oc_ack_timeout :: int
  oc_require_ack :: bool
  oc_interval :: int

definition aprsout_defaults :: "aprsout_config \<Rightarrow> aprsout_config" where
  "aprsout_defaults cfg =
     cfg\<lparr>oc_cooldown := (if oc_cooldown cfg = 0 then 2 * minute_ns else oc_cooldown cfg),
         oc_ack_timeout := (if oc_ack_timeout cfg = 0 then 30 * 1000000000 else oc_ack_timeout cfg),
         oc_interval := (if oc_interval cfg = 0 then 5 * 1000000000 else oc_interval cfg)\<rparr>"

definition NewAprsOut :: "bool \<Rightarrow> aprsout_config \<Rightarrow> aprs_action_error + aprsout_config" where
  "NewAprsOut hub_enabled cfg0 =
     (let cfg = aprsout_defaults cfg0 in
      and_then (guard_err hub_enabled ActionHubDisabled) (\<lambda>_.
      and_then (guard_err (oc_cooldown cfg \<le> 60 * minute_ns) (CooldownTooLong (oc_cooldown cfg))) (\<lambda>_.
      and_then (guard_err (0 < oc_ack_timeout cfg \<and> oc_ack_timeout cfg \<le> 5 * minute_ns)
        (BadAckTimeout (oc_ack_timeout cfg))) (\<lambda>_.
      and_then (guard_err (oc_interval cfg \<le> minute_ns) (TxIntervalTooLong (oc_interval cfg))) (\<lambda>_.
      and_then (guard_err (length (oc_callsigns cfg) \<le> maxRecipients)
        (TooManyCallsigns (length (oc_callsigns cfg)))) (\<lambda>_.
      and_then (normal_callsigns (oc_callsigns cfg)) (\<lambda>cs. Inr (cfg\<lparr>oc_callsigns := cs\<rparr>))))))))"

record pacing =
  pc_last :: "(string \<times> time) list"
  pc_next :: time

definition fresh_pacing :: pacing where
  "fresh_pacing = \<lparr>pc_last = [], pc_next = 0\<rparr>"

definition nextSlot :: "aprsout_config \<Rightarrow> time \<Rightarrow> string \<Rightarrow> pacing \<Rightarrow> time" where
  "nextSlot cfg now c st =
     (let t = (if oc_cooldown cfg > 0
               then (case map_of (pc_last st) c of
                       Some l \<Rightarrow> if l + oc_cooldown cfg > now then l + oc_cooldown cfg else now
                     | None \<Rightarrow> now)
               else now)
      in if pc_next st > t then pc_next st else t)"

text \<open>
  One turn of the loop: the clock at its start, when the wait ended (or that it was cancelled), when
  the send returned and with what; an acknowledged or plain send returns without an error.
\<close>

record attempt =
  at_to :: string
  at_start :: time
  at_woke :: "time option"
  at_done :: time
  at_error :: "send_error option"

definition attempt_step :: "aprsout_config \<Rightarrow> attempt \<Rightarrow> pacing \<Rightarrow> pacing" where
  "attempt_step cfg a st =
     (if at_woke a = None \<or> at_error a \<noteq> None then st
      else st\<lparr>pc_last := AList.update (at_to a) (at_done a) (pc_last st),
              pc_next := (if oc_interval cfg > 0 then at_done a + oc_interval cfg else pc_next st)\<rparr>)"

definition attempt_failure :: "attempt \<Rightarrow> send_error option" where
  "attempt_failure a = (if at_woke a = None then Some Cancelled else at_error a)"

text \<open>\<open>waitUntil\<close> ends without an error only when the slot has come.\<close>

definition attempt_timed :: "aprsout_config \<Rightarrow> pacing \<Rightarrow> attempt \<Rightarrow> bool" where
  "attempt_timed cfg st a \<longleftrightarrow>
     (case at_woke a of
        None \<Rightarrow> at_start a \<le> at_done a
      | Some w \<Rightarrow> at_start a \<le> w \<and> nextSlot cfg (at_start a) (at_to a) st \<le> w \<and> w \<le> at_done a)"

fun attempts_timed :: "aprsout_config \<Rightarrow> time \<Rightarrow> pacing \<Rightarrow> attempt list \<Rightarrow> bool" where
  "attempts_timed cfg now st [] = True"
| "attempts_timed cfg now st (a # as) \<longleftrightarrow>
     now \<le> at_start a \<and> attempt_timed cfg st a \<and> attempts_timed cfg (at_done a) (attempt_step cfg a st) as"

definition ExecuteAprsOut :: "aprsout_config \<Rightarrow> action_request \<Rightarrow> (string \<Rightarrow> attempt) \<Rightarrow> pacing \<Rightarrow>
    send_failure option \<times> attempt list \<times> pacing" where
  "ExecuteAprsOut cfg req world st =
     (let as = map (\<lambda>c. (world c)\<lparr>at_to := c\<rparr>) (aprs_recipients (oc_callsigns cfg) (ar_callsigns req)) in
      if as = [] then (None, [], st)
      else (execute_result (length as) (fold (count_failure \<circ> attempt_failure) as (0, None)), as,
            fold (attempt_step cfg) as st))"

end
