(* ===== verification/Aprs_Pacing.thy ===== *)
theory Aprs_Pacing
  imports Aprs_Actions Aprs_Bounds
begin

text \<open>
  What the paced action keeps between its transmissions, and what it does not; who gets a message;
  how long the texts on the air are.
\<close>

section \<open>Recipients\<close>

lemma add_recipient_ok:
  "distinct out \<Longrightarrow> [] \<notin> set out \<Longrightarrow>
     distinct (add_recipient c out) \<and> [] \<notin> set (add_recipient c out) \<and>
     set (add_recipient c out) = set out \<union> ({NormalizeCallsign c} - {[]})"
  by (auto simp: add_recipient_def Let_def)

lemma add_recipients_ok:
  "distinct out \<Longrightarrow> [] \<notin> set out \<Longrightarrow>
     distinct (fold add_recipient cs out) \<and> [] \<notin> set (fold add_recipient cs out) \<and>
     set (fold add_recipient cs out) = set out \<union> (NormalizeCallsign ` set cs - {[]})"
proof (induction cs arbitrary: out)
  case (Cons c cs)
  note a = add_recipient_ok [OF Cons.prems, of c]
  with Cons.IH [of "add_recipient c out"] show ?case by auto
qed simp

lemma add_recipient_suffix: "\<exists>ys. add_recipient c out = out @ ys"
  by (simp add: add_recipient_def Let_def)

lemma add_recipients_suffix: "\<exists>ys. fold add_recipient cs out = out @ ys"
proof (induction cs arbitrary: out)
  case (Cons c cs)
  obtain ys where "add_recipient c out = out @ ys" using add_recipient_suffix by blast
  with Cons.IH [of "out @ ys"] show ?case by (metis append_assoc fold_simps(2))
qed simp

text \<open>
  everybody once.  A notification goes to each callsign of the configuration and of the members of
  the group, compared without regard to case and surrounding space: nobody is left out, nobody gets
  it twice, and the configured stations come first.
\<close>

theorem recipients_exact:
  "distinct (aprs_recipients configured members) \<and>
   set (aprs_recipients configured members) = NormalizeCallsign ` (set configured \<union> set members) - {[]} \<and>
   (\<exists>ys. aprs_recipients configured members = aprs_recipients configured [] @ ys)"
proof -
  note a = add_recipients_ok [of "[]" configured, simplified]
  then show ?thesis
    using add_recipients_ok [of "fold add_recipient configured []" members]
      add_recipients_suffix [of members "fold add_recipient configured []"]
    by (auto simp: aprs_recipients_def)
qed

section \<open>Pacing\<close>

definition went_out :: "attempt \<Rightarrow> bool" where
  "went_out a \<longleftrightarrow> at_woke a \<noteq> None \<and> at_error a = None"

text \<open>What a successful transmission leaves behind: nothing before \<open>T\<close>, nothing to \<open>c\<close> before \<open>L\<close>.\<close>

definition held :: "aprsout_config \<Rightarrow> time \<Rightarrow> string \<Rightarrow> pacing \<Rightarrow> bool" where
  "held cfg t c st \<longleftrightarrow>
     (oc_interval cfg > 0 \<longrightarrow> t + oc_interval cfg \<le> pc_next st) \<and>
     (\<exists>l. map_of (pc_last st) c = Some l \<and> t \<le> l)"

lemma nextSlot_bounds:
  "now \<le> nextSlot cfg now c st" "pc_next st \<le> nextSlot cfg now c st"
  "oc_cooldown cfg > 0 \<Longrightarrow> map_of (pc_last st) c = Some l \<Longrightarrow> l + oc_cooldown cfg \<le> nextSlot cfg now c st"
  by (auto simp: nextSlot_def Let_def split: option.split)

lemma held_step:
  assumes "held cfg t c st" "attempt_timed cfg st a" "t \<le> at_start a"
  shows "held cfg t c (attempt_step cfg a st)"
proof (cases "at_woke a = None \<or> at_error a \<noteq> None")
  case False
  then obtain w where w: "at_woke a = Some w" "at_error a = None" by auto
  have d: "at_start a \<le> at_done a" "pc_next st \<le> at_done a"
    using assms(2) w nextSlot_bounds(2) [of st cfg "at_start a" "at_to a"] by (auto simp: attempt_timed_def)
  then show ?thesis
    using assms(1,3) w by (auto simp: held_def attempt_step_def update_conv')
qed (use assms in \<open>simp add: attempt_step_def\<close>)

lemma held_run:
  assumes "held cfg t c st" "attempts_timed cfg now st as" "t \<le> now" "b \<in> set as" "at_woke b = Some w"
  shows "(oc_interval cfg > 0 \<longrightarrow> t + oc_interval cfg \<le> w) \<and>
    (oc_cooldown cfg > 0 \<and> at_to b = c \<longrightarrow> t + oc_cooldown cfg \<le> w)"
  using assms
proof (induction as arbitrary: st now)
  case (Cons a as)
  have a: "now \<le> at_start a" "attempt_timed cfg st a" "attempts_timed cfg (at_done a) (attempt_step cfg a st) as"
    using Cons.prems(2) by simp_all
  show ?case
  proof (cases "b = a")
    case True
    have "nextSlot cfg (at_start a) (at_to a) st \<le> w" using a(2) True Cons.prems(5) by (simp add: attempt_timed_def)
    with nextSlot_bounds(2) [of st cfg "at_start a" "at_to a"]
      nextSlot_bounds(3) [of cfg st "at_to a" _ "at_start a"] Cons.prems(1) True show ?thesis
      by (fastforce simp: held_def)
  next
    case False
    have "t \<le> at_done a" using a(1,2) Cons.prems(3) by (auto simp: attempt_timed_def split: option.splits)
    with Cons.IH [OF held_step [OF Cons.prems(1) a(2)] a(3) this] Cons.prems a(1) False show ?thesis by auto
  qed
qed simp

lemma step_held: "went_out a \<Longrightarrow> held cfg (at_done a) (at_to a) (attempt_step cfg a st)"
  by (auto simp: went_out_def held_def attempt_step_def update_conv')

text \<open>
  the shared channel is spared.  After a transmission that went out, and for as long as the action
  lives, the next one waits for the interval between transmissions, and the next one to the same
  station for the cooldown, whatever failed or was cancelled in between.
\<close>

theorem transmissions_spaced:
  assumes "attempts_timed cfg now st (as @ a # bs)" "went_out a" "b \<in> set bs" "at_woke b = Some w"
  shows "(oc_interval cfg > 0 \<longrightarrow> at_done a + oc_interval cfg \<le> w) \<and>
    (oc_cooldown cfg > 0 \<and> at_to b = at_to a \<longrightarrow> at_done a + oc_cooldown cfg \<le> w)"
  using assms(1)
proof (induction as arbitrary: now st)
  case Nil
  then have "attempts_timed cfg (at_done a) (attempt_step cfg a st) bs" by simp
  from held_run [OF step_held [OF assms(2)] this order_refl assms(3,4)] show ?case .
qed auto

text \<open>
  messages without an acknowledgement are not paced.  A transmission that went out and timed out
  unacknowledged leaves no trace, so that the action may send to the same station again the moment
  it is called, and to the next recipient at once: the attempts below keep all its waits.
\<close>

theorem unacknowledged_unpaced:
  fixes c :: string and now :: time and cfg :: aprsout_config
  assumes "oc_ack_timeout cfg < oc_cooldown cfg" "0 \<le> now" "0 < oc_ack_timeout cfg"
  defines "a \<equiv> \<lparr>at_to = c, at_start = now, at_woke = Some now, at_done = now + oc_ack_timeout cfg,
    at_error = Some NoAck\<rparr>"
  defines "b \<equiv> \<lparr>at_to = c, at_start = now + oc_ack_timeout cfg, at_woke = Some (now + oc_ack_timeout cfg),
    at_done = now + 2 * oc_ack_timeout cfg, at_error = Some NoAck\<rparr>"
  shows "attempts_timed cfg now fresh_pacing [a, b] \<and> at_to b = at_to a \<and>
    the (at_woke b) < the (at_woke a) + oc_cooldown cfg"
  using assms(1-3)
  by (simp add: a_def b_def attempt_timed_def nextSlot_def fresh_pacing_def attempt_step_def Let_def)

theorem transmissions_spaced_witness:
  "(3::int) * 1000000000 + 5 * 1000000000 \<le> 8 * 1000000000"
proof -
  let ?cfg = "\<lparr>oc_callsigns = [], oc_prefix = [], oc_cooldown = 2 * minute_ns, oc_ack_timeout = 1000000000,
    oc_require_ack = False, oc_interval = 5 * 1000000000\<rparr>"
  let ?a = "\<lparr>at_to = ''SP9ABC'', at_start = 2 * 1000000000, at_woke = Some (2 * 1000000000),
    at_done = 3 * 1000000000, at_error = None\<rparr>"
  let ?b = "\<lparr>at_to = ''SP9XYZ'', at_start = 3 * 1000000000, at_woke = Some (8 * 1000000000),
    at_done = 9 * 1000000000, at_error = None\<rparr>"
  have t: "attempts_timed ?cfg 0 fresh_pacing ([] @ ?a # [?b])"
    by (simp add: attempt_timed_def nextSlot_def fresh_pacing_def attempt_step_def Let_def)
  from transmissions_spaced [OF t, of ?b "8 * 1000000000"] show ?thesis by (simp add: went_out_def)
qed

theorem unacknowledged_unpaced_witness:
  "attempts_timed \<lparr>oc_callsigns = [], oc_prefix = [], oc_cooldown = 2 * minute_ns,
      oc_ack_timeout = 30 * 1000000000, oc_require_ack = True, oc_interval = 5 * 1000000000\<rparr> 0 fresh_pacing
    [\<lparr>at_to = ''SP9ABC'', at_start = 0, at_woke = Some 0, at_done = 30 * 1000000000, at_error = Some NoAck\<rparr>,
     \<lparr>at_to = ''SP9ABC'', at_start = 30 * 1000000000, at_woke = Some (30 * 1000000000),
       at_done = 60 * 1000000000, at_error = Some NoAck\<rparr>]"
  using unacknowledged_unpaced [of "\<lparr>oc_callsigns = [], oc_prefix = [], oc_cooldown = 2 * minute_ns,
      oc_ack_timeout = 30 * 1000000000, oc_require_ack = True, oc_interval = 5 * 1000000000\<rparr>" 0 "''SP9ABC''"]
  by (simp add: minute_ns_def)

section \<open>Texts on the air\<close>

lemma dec_nat_bound: "n < 10 ^ Suc k \<Longrightarrow> length (dec_nat n) \<le> Suc k"
proof (induction k arbitrary: n)
  case (Suc k)
  have "n div 10 < 10 ^ Suc k" using Suc.prems by (simp add: less_mult_imp_div_less mult.commute)
  from Suc.IH [OF this] show ?case by (subst dec_nat.simps) simp
qed (subst dec_nat.simps, simp)

lemma msg_number_length: "length (msg_number n) = 5"
proof -
  have "nat (n mod 100000) < 10 ^ Suc 4" by simp
  moreover have "\<not> n mod 100000 < 0" by simp
  ultimately have "length (dec_int (n mod 100000)) \<le> 5"
    using dec_nat_bound [of "nat (n mod 100000)" 4] by (simp only: dec_int_def if_False) simp
  then show ?thesis by (simp add: msg_number_def Let_def)
qed

lemma prepare_text_length: "length (prepare_text reserve body) \<le> nat (max 10 (67 - reserve))"
  unfolding prepare_text_def using limit_text_fits by blast

lemma transmit_text:
  "transmit env net send now to body i h k = (Inr (tx, full), k') \<Longrightarrow>
     full = (if i = [] then body else body @ ''{'' @ i @ ''}'') \<and> readyTransmitterFor h to = Some tx"
  by (auto simp: transmit_def Let_def split: option.splits)

text \<open>
  the line limit holds with the number.  What the transmitter is handed is at most 67 bytes for a
  plain message and for a numbered one alike: the room of the number is reserved before it is added,
  although the two are made in different places.
\<close>

theorem sent_text_fits:
  "(\<forall>tx full s'. SendMessage env net send now to body s = (Inr (tx, full), s') \<longrightarrow> length full \<le> 67) \<and>
   (\<forall>w s'. wait_begin env net send now to body s = (Inr w, s') \<longrightarrow> length (aw_text w) \<le> 67)"
proof (intro conjI allI impI)
  fix tx full s' assume "SendMessage env net send now to body s = (Inr (tx, full), s')"
  then have "full = prepare_text 0 body"
    using transmit_text [where i = "[]"] by (auto simp: SendMessage_def Let_def split: if_splits prod.splits)
  then show "length full \<le> 67" using prepare_text_length [of 0 body] by simp
next
  fix w s' assume w: "wait_begin env net send now to body s = (Inr w, s')"
  obtain h k h' k' where s: "s = (h, k)" "s' = (h', k')" by fastforce
  from w show "length (aw_text w) \<le> 67"
    unfolding s
  proof (cases rule: wait_begin_cases)
    case (sent v tx)
    then have "aw_text w = prepare_text AckSuffixLen body @ ''{'' @ msg_number (hu_msg_seq h + 1) @ ''}''"
      using transmit_text msg_number_nonempty by force
    then show ?thesis
      using prepare_text_length [of AckSuffixLen body] by (simp add: msg_number_length AckSuffixLen_def)
  qed simp_all
qed

theorem sent_text_fits_witness:
  "length (aw_text first_wait) \<le> 67"
  using sent_text_fits [of sample_env calm_net silent_radio "second 100" "''SP9ABC''" "''hello''"
      "(fst radio_hub, snd radio_hub)"] asked_wait by blast

end
