(* ===== verification/Plugin_Manager.thy ===== *)
theory Plugin_Manager
  imports Output_Worker Ingest_Pipeline
begin

text \<open>
  The plugin manager (\<open>internal/plugin/manager.go\<close>) and the registry of plugin types
  (\<open>registry.go\<close>): construction from the configuration, the emitter that a source gets, the
  fan-out of information messages and the health snapshot.  The event intake is in
  \<open>Manager_Intake\<close>.
\<close>

section \<open>Plugin types\<close>

text \<open>
  What a factory makes of a configuration: an error, or a plugin, of which the manager needs to
  know only whether it publishes information messages.
\<close>

type_synonym plugin_factory = "string \<Rightarrow> string + bool"

record plugin_types =
  pt_sources :: "(string \<times> plugin_factory) list"
  pt_outputs :: "(string \<times> plugin_factory) list"

definition NewRegistry :: plugin_types where
  "NewRegistry = \<lparr>pt_sources = [], pt_outputs = []\<rparr>"

datatype type_error = TypeEmpty | FactoryNil string | TypeTaken string | TypeUnknown string

definition register_type ::
    "string \<Rightarrow> plugin_factory option \<Rightarrow> (string \<times> plugin_factory) list \<Rightarrow>
      type_error + (string \<times> plugin_factory) list" where
  "register_type name factory t =
     (if name = [] then Inl TypeEmpty
      else (case factory of
              None \<Rightarrow> Inl (FactoryNil name)
            | Some f \<Rightarrow> if map_of t name \<noteq> None then Inl (TypeTaken name) else Inr (AList.update name f t)))"

definition RegisterSource :: "string \<Rightarrow> plugin_factory option \<Rightarrow> plugin_types \<Rightarrow> type_error + plugin_types" where
  "RegisterSource name factory r = map_sum id (\<lambda>t. r\<lparr>pt_sources := t\<rparr>) (register_type name factory (pt_sources r))"

definition RegisterOutput :: "string \<Rightarrow> plugin_factory option \<Rightarrow> plugin_types \<Rightarrow> type_error + plugin_types" where
  "RegisterOutput name factory r = map_sum id (\<lambda>t. r\<lparr>pt_outputs := t\<rparr>) (register_type name factory (pt_outputs r))"

definition find_type :: "string \<Rightarrow> (string \<times> plugin_factory) list \<Rightarrow> type_error + plugin_factory" where
  "find_type name t = (case map_of t name of None \<Rightarrow> Inl (TypeUnknown name) | Some f \<Rightarrow> Inr f)"

section \<open>Construction\<close>

record plugin_cfg =
  pc_id :: string
  pc_type :: string
  pc_enabled :: bool
  pc_config :: string
  pc_threshold :: int
  pc_timeout :: time

datatype startup_error = BadType string type_error | BadConfig string string string

record manager =
  pm_statuses :: status_registry
  pm_sources :: "plugin_cfg list"
  pm_outputs :: "output_worker list"

definition empty_manager :: manager where
  "empty_manager = \<lparr>pm_statuses = \<lparr>sr_trackers = [], sr_order = []\<rparr>, pm_sources = [], pm_outputs = []\<rparr>"

definition change_tracker :: "string \<Rightarrow> (plugin_status \<Rightarrow> plugin_status) \<Rightarrow> status_registry \<Rightarrow> status_registry" where
  "change_tracker i f r =
     (case map_of (sr_trackers r) i of
        None \<Rightarrow> r | Some t \<Rightarrow> r\<lparr>sr_trackers := AList.update i (f t) (sr_trackers r)\<rparr>)"

definition add_source :: "plugin_types \<Rightarrow> plugin_cfg \<Rightarrow> manager \<Rightarrow> startup_error + manager" where
  "add_source reg cfg m =
     (let st = registry_add (pc_id cfg) (pc_type cfg) KindSource (pm_statuses m); m1 = m\<lparr>pm_statuses := st\<rparr>
      in (case find_type (pc_type cfg) (pt_sources reg) of
            Inl e \<Rightarrow> Inl (BadType (pc_id cfg) e)
          | Inr factory \<Rightarrow>
              if \<not> pc_enabled cfg
              then Inr (m1\<lparr>pm_statuses := change_tracker (pc_id cfg) (set_state StateDisabled) st\<rparr>)
              else (case factory (pc_config cfg) of
                      Inl e \<Rightarrow> Inl (BadConfig (pc_id cfg) (pc_type cfg) e)
                    | Inr p \<Rightarrow> Inr (m1\<lparr>pm_sources := pm_sources m @ [cfg]\<rparr>))))"

definition add_output :: "plugin_types \<Rightarrow> plugin_cfg \<Rightarrow> manager \<Rightarrow> startup_error + manager" where
  "add_output reg cfg m =
     (let st = registry_add (pc_id cfg) (pc_type cfg) KindOutput (pm_statuses m); m1 = m\<lparr>pm_statuses := st\<rparr>
      in (case find_type (pc_type cfg) (pt_outputs reg) of
            Inl e \<Rightarrow> Inl (BadType (pc_id cfg) e)
          | Inr factory \<Rightarrow>
              if \<not> pc_enabled cfg
              then Inr (m1\<lparr>pm_statuses := change_tracker (pc_id cfg) (set_state StateDisabled) st\<rparr>)
              else (case factory (pc_config cfg) of
                      Inl e \<Rightarrow> Inl (BadConfig (pc_id cfg) (pc_type cfg) e)
                    | Inr info \<Rightarrow>
                        Inr (m1\<lparr>pm_outputs := pm_outputs m @
                          [newOutputWorker (pc_id cfg) (pc_threshold cfg) info
                             (new_status_tracker (pc_id cfg) (pc_type cfg) KindOutput)]\<rparr>))))"

primrec add_all ::
    "(plugin_cfg \<Rightarrow> manager \<Rightarrow> startup_error + manager) \<Rightarrow> plugin_cfg list \<Rightarrow> manager \<Rightarrow> startup_error + manager" where
  "add_all f [] m = Inr m"
| "add_all f (c # cs) m = (case f c m of Inl e \<Rightarrow> Inl e | Inr m' \<Rightarrow> add_all f cs m')"

definition NewPluginManager ::
    "plugin_types \<Rightarrow> plugin_cfg list \<Rightarrow> plugin_cfg list \<Rightarrow> startup_error + manager" where
  "NewPluginManager reg sources outputs =
     (case add_all (add_source reg) sources empty_manager of
        Inl e \<Rightarrow> Inl e
      | Inr m \<Rightarrow> add_all (add_output reg) outputs m)"

definition infoOuts :: "manager \<Rightarrow> output_worker list" where
  "infoOuts m = filter ow_info_capable (pm_outputs m)"

definition maxSourceShutdownTimeout :: "plugin_cfg list \<Rightarrow> time" where
  "maxSourceShutdownTimeout sources = fold (\<lambda>s m. if pc_timeout s > m then pc_timeout s else m) sources 0"

section \<open>The emitter of a source\<close>

definition ReportSourceHealthy :: "time \<Rightarrow> plugin_status \<Rightarrow> plugin_status" where
  "ReportSourceHealthy now t = tracker_success now (count_poll t)"

definition ReportSourceDegraded :: "string \<Rightarrow> time \<Rightarrow> plugin_status \<Rightarrow> plugin_status" where
  "ReportSourceDegraded err now t = fst (tracker_failure err 0 now (count_poll_error t))"

definition ReportSourceStats :: "string \<Rightarrow> plugin_status \<Rightarrow> plugin_status" where
  "ReportSourceStats summary t = set_summary summary t"

definition ReportSourceFiltered :: "int \<Rightarrow> plugin_status \<Rightarrow> plugin_status" where
  "ReportSourceFiltered n t = count_filtered n t"

definition activeReadPageSize :: int where
  "activeReadPageSize = 256"

text \<open>The page loop of \<open>ListSourceActiveEvents\<close> over one state of the database; \<open>None\<close> is fuel that ran out.\<close>

fun read_pages :: "nat \<Rightarrow> store \<Rightarrow> string \<Rightarrow> string \<Rightarrow> hazard_event list option" where
  "read_pages 0 s source after = None"
| "read_pages (Suc fuel) s source after =
     (case ListActiveEvents s after activeReadPageSize of
        None \<Rightarrow> Some []
      | Some page \<Rightarrow>
          let out = filter (\<lambda>e. he_source e = source) page
          in if int (length page) < activeReadPageSize then Some out
             else (case read_pages fuel s source (he_key (last page)) of
                     None \<Rightarrow> None | Some rest \<Rightarrow> Some (out @ rest)))"

definition ListSourceActiveEvents :: "store \<Rightarrow> string \<Rightarrow> event_error + hazard_event list option" where
  "ListSourceActiveEvents s source =
     (case ValidateSource source of
        Some e \<Rightarrow> Inl e
      | None \<Rightarrow> Inr (read_pages (Suc (length (st_events s))) s source []))"

section \<open>Information messages\<close>

datatype information_error = InfoShuttingDown | InfoCancelled | InfoInvalid info_error | NoInfoOutputs | NotQueued enqueue_error

definition offer_info :: "info_message \<Rightarrow> output_worker \<Rightarrow> enqueue_error option \<times> output_worker" where
  "offer_info m w = (case enqueueInfo m w of Inl e \<Rightarrow> (Some e, w) | Inr w' \<Rightarrow> (None, w'))"

definition first_some :: "'a option list \<Rightarrow> 'a option" where
  "first_some xs = (case List.map_filter id xs of [] \<Rightarrow> None | x # _ \<Rightarrow> Some x)"

text \<open>\<open>emitInformation\<close> over the workers of \<open>infoOuts\<close>: every one is offered the message.\<close>

definition emitInformation ::
    "(string \<Rightarrow> bool) \<Rightarrow> bool \<Rightarrow> bool \<Rightarrow> string \<Rightarrow> info_message \<Rightarrow> output_worker list \<Rightarrow>
      information_error option \<times> output_worker list" where
  "emitInformation json_valid accepting cancelled producer message ws =
     (if \<not> accepting then (Some InfoShuttingDown, ws)
      else if cancelled then (Some InfoCancelled, ws)
      else
        let m = message\<lparr>im_producer := producer\<rparr>
        in (case validate_info json_valid m of
              Some e \<Rightarrow> (Some (InfoInvalid e), ws)
            | None \<Rightarrow>
                if ws = [] then (Some NoInfoOutputs, ws)
                else let rs = map (offer_info m) ws
                     in (map_option NotQueued (first_some (map fst rs)), map snd rs)))"

section \<open>Health\<close>

record health_status =
  hs_version :: string
  hs_uptime :: time
  hs_sources :: "plugin_status list"
  hs_outputs :: "plugin_status list"
  hs_database :: bool
  hs_pending :: nat
  hs_oldest :: time

definition manager_health :: "string \<Rightarrow> time \<Rightarrow> time \<Rightarrow> db_call \<Rightarrow> manager \<Rightarrow> store \<Rightarrow> health_status" where
  "manager_health version started now db m s =
     (let all = registry_snapshot (pm_statuses m);
          h = \<lparr> hs_version = version, hs_uptime = now - started,
                hs_sources = filter (\<lambda>p. ps_kind p = KindSource) all,
                hs_outputs = filter (\<lambda>p. ps_kind p \<noteq> KindSource) all,
                hs_database = False, hs_pending = 0, hs_oldest = 0 \<rparr>
      in (case db of
            DbFails e \<Rightarrow> h
          | DbOk \<Rightarrow> h\<lparr>hs_database := True, hs_pending := fst (PendingStats now s), hs_oldest := snd (PendingStats now s)\<rparr>))"

section \<open>Properties\<close>

text \<open>What of a configured plugin decides whether the manager starts.\<close>

definition startable :: "(string \<times> plugin_factory) list \<Rightarrow> plugin_cfg \<Rightarrow> bool" where
  "startable t cfg \<longleftrightarrow>
     (case map_of t (pc_type cfg) of
        None \<Rightarrow> False
      | Some f \<Rightarrow> pc_enabled cfg \<longrightarrow> (\<exists>p. f (pc_config cfg) = Inr p))"

definition plugin_state_of :: "manager \<Rightarrow> string \<Rightarrow> plugin_state option" where
  "plugin_state_of m i = map_option ps_state (map_of (sr_trackers (pm_statuses m)) i)"

lemma startable_cases:
  "startable (pt_sources reg) cfg \<longleftrightarrow> (\<exists>m'. add_source reg cfg m = Inr m')"
  "startable (pt_outputs reg) cfg \<longleftrightarrow> (\<exists>m'. add_output reg cfg m = Inr m')"
  by (auto simp: startable_def add_source_def add_output_def find_type_def Let_def split: option.splits sum.splits)

definition fresh_state :: "plugin_cfg \<Rightarrow> plugin_state" where
  "fresh_state cfg = (if pc_enabled cfg then StateStopped else StateDisabled)"

lemma add_source_Inr:
  assumes "add_source reg cfg m = Inr m'"
  shows "sr_order (pm_statuses m') = sr_order (pm_statuses m) @ [pc_id cfg]"
    and "pm_sources m' = pm_sources m @ (if pc_enabled cfg then [cfg] else [])"
    and "pm_outputs m' = pm_outputs m"
    and "plugin_state_of m' i = (if i = pc_id cfg then Some (fresh_state cfg) else plugin_state_of m i)"
  using assms
  by (auto simp: add_source_def find_type_def Let_def registry_add_def change_tracker_def plugin_state_of_def
      fresh_state_def new_status_tracker_def set_state_def update_conv' split: if_splits option.splits sum.splits)

lemma add_output_Inr:
  assumes "add_output reg cfg m = Inr m'"
  shows "sr_order (pm_statuses m') = sr_order (pm_statuses m) @ [pc_id cfg]"
    and "map ow_id (pm_outputs m') = map ow_id (pm_outputs m) @ (if pc_enabled cfg then [pc_id cfg] else [])"
    and "pm_sources m' = pm_sources m"
    and "plugin_state_of m' i = (if i = pc_id cfg then Some (fresh_state cfg) else plugin_state_of m i)"
  using assms
  by (auto simp: add_output_def find_type_def Let_def registry_add_def change_tracker_def plugin_state_of_def
      fresh_state_def new_status_tracker_def set_state_def newOutputWorker_def update_conv'
      split: if_splits option.splits sum.splits)

lemma add_all_starts:
  assumes f: "\<And>c m. startable t c \<longleftrightarrow> (\<exists>m'. f c m = Inr m')"
  shows "(\<exists>m'. add_all f cs m = Inr m') \<longleftrightarrow> list_all (startable t) cs"
proof (induction cs arbitrary: m)
  case (Cons c cs)
  show ?case
  proof (cases "f c m")
    case (Inl e)
    then have "\<not> startable t c" using f [of c m] by simp
    then show ?thesis using Inl by simp
  next
    case (Inr m1)
    then have "startable t c" using f [of c m] by simp
    then show ?thesis using Inr Cons.IH [of m1] by simp
  qed
qed simp

lemma add_sources_Inr:
  "add_all (add_source reg) cs m = Inr m' \<Longrightarrow>
    sr_order (pm_statuses m') = sr_order (pm_statuses m) @ map pc_id cs \<and>
    pm_sources m' = pm_sources m @ filter pc_enabled cs \<and> pm_outputs m' = pm_outputs m \<and>
    (distinct (map pc_id cs) \<longrightarrow> (\<forall>c\<in>set cs. plugin_state_of m' (pc_id c) = Some (fresh_state c)) \<and>
      (\<forall>i. i \<notin> pc_id ` set cs \<longrightarrow> plugin_state_of m' i = plugin_state_of m i))"
proof (induction cs arbitrary: m)
  case (Cons c cs)
  then obtain m1 where m1: "add_source reg c m = Inr m1" "add_all (add_source reg) cs m1 = Inr m'"
    by (auto split: sum.splits)
  show ?case using Cons.IH [OF m1(2)] add_source_Inr [OF m1(1)] by auto
qed simp

lemma add_outputs_Inr:
  "add_all (add_output reg) cs m = Inr m' \<Longrightarrow>
    sr_order (pm_statuses m') = sr_order (pm_statuses m) @ map pc_id cs \<and>
    map ow_id (pm_outputs m') = map ow_id (pm_outputs m) @ map pc_id (filter pc_enabled cs) \<and>
    pm_sources m' = pm_sources m \<and>
    (distinct (map pc_id cs) \<longrightarrow> (\<forall>c\<in>set cs. plugin_state_of m' (pc_id c) = Some (fresh_state c)) \<and>
      (\<forall>i. i \<notin> pc_id ` set cs \<longrightarrow> plugin_state_of m' i = plugin_state_of m i))"
proof (induction cs arbitrary: m)
  case (Cons c cs)
  then obtain m1 where m1: "add_output reg c m = Inr m1" "add_all (add_output reg) cs m1 = Inr m'"
    by (auto split: sum.splits)
  show ?case using Cons.IH [OF m1(2)] add_output_Inr [OF m1(1)] by auto
qed simp

text \<open>
  the manager starts exactly when every configured type is registered, disabled instances
  included, and every enabled instance accepts its configuration; then every instance has one
  status in configuration order, disabled exactly when it is not enabled, and the enabled ones are
  the supervisors and workers.
\<close>

theorem manager_starts_exactly:
  fixes reg sources outputs
  assumes ids: "distinct (map pc_id (sources @ outputs))"
  defines "fine \<equiv> list_all (startable (pt_sources reg)) sources \<and> list_all (startable (pt_outputs reg)) outputs"
  shows "case NewPluginManager reg sources outputs of
      Inl e \<Rightarrow> \<not> fine
    | Inr m \<Rightarrow> fine \<and>
        sr_order (pm_statuses m) = map pc_id (sources @ outputs) \<and>
        pm_sources m = filter pc_enabled sources \<and>
        map ow_id (pm_outputs m) = map pc_id (filter pc_enabled outputs) \<and>
        list_all (\<lambda>c. plugin_state_of m (pc_id c) =
          Some (if pc_enabled c then StateStopped else StateDisabled)) (sources @ outputs)"
proof -
  note src = add_all_starts [where f = "add_source reg", OF startable_cases(1), of sources empty_manager]
    and out = add_all_starts [where f = "add_output reg", OF startable_cases(2), of outputs]
  show ?thesis
  proof (cases "add_all (add_source reg) sources empty_manager")
    case (Inl e)
    then show ?thesis using src by (simp add: NewPluginManager_def fine_def)
  next
    case m1: (Inr m1)
    show ?thesis
    proof (cases "add_all (add_output reg) outputs m1")
      case (Inl e)
      then show ?thesis using m1 out [of m1] by (simp add: NewPluginManager_def fine_def)
    next
      case (Inr m)
      then have "fine" "NewPluginManager reg sources outputs = Inr m"
        using m1 src out [of m1] by (simp_all add: NewPluginManager_def fine_def)
      moreover have "plugin_state_of m (pc_id c) = Some (fresh_state c)" if c: "c \<in> set (sources @ outputs)" for c
      proof (cases "c \<in> set outputs")
        case True
        then show ?thesis using add_outputs_Inr [OF Inr] ids by simp
      next
        case False
        with c ids have "pc_id c \<notin> pc_id ` set outputs" "c \<in> set sources" by auto
        then show ?thesis using add_sources_Inr [OF m1] add_outputs_Inr [OF Inr] ids by simp
      qed
      ultimately show ?thesis
        using add_sources_Inr [OF m1] add_outputs_Inr [OF Inr]
        by (simp add: empty_manager_def fresh_state_def list_all_iff)
    qed
  qed
qed

section \<open>Active events of one source\<close>

lemma read_pages_seed:
  "read_pages fuel s source after =
    map_option (filter (\<lambda>e. he_source e = source)) (seed_pages fuel (\<lambda>_. CallOk) s after)"
proof (induction fuel arbitrary: after)
  case (Suc fuel)
  have "seed_page (\<lambda>_. CallOk) es = (es, False)" for es by (rule seed_page_ok) simp
  then show ?case
    by (simp add: Suc.IH activeReadPageSize_def activeSyncPageSize_def Let_def split: option.split)
qed simp

text \<open>
  a snapshot source that asks for its active events gets all of them, once and in key order,
  and no event of another source, however many pages the table takes.
\<close>

theorem source_events_complete:
  assumes "events_ok s" "ValidateSource source = None"
  shows "ListSourceActiveEvents s source =
    Inr (Some (filter (\<lambda>e. he_source e = source) (map (scan_event \<circ> snd) (active_rows s))))"
proof -
  have "seedActiveState (\<lambda>_. CallOk) s = Some (map (scan_event \<circ> snd) (active_rows s))"
  proof -
    have "[] < fst x" if "x \<in> set (active_rows s)" for x
      using active_rows_key [OF assms(1) that] by (cases "fst x") (auto simp: he_key_def event_key_def)
    then have "filter (\<lambda>x. [] < fst x) (active_rows s) = active_rows s" by (simp add: filter_id_conv)
    moreover have "length (active_rows s) \<le> length (st_events s)" by (simp add: active_rows_def)
    ultimately show ?thesis
      using seed_pages_all [OF assms(1), of "\<lambda>_. CallOk" "[]" "Suc (length (st_events s))"]
      by (simp add: seedActiveState_def)
  qed
  then show ?thesis
    using assms(2) by (simp add: ListSourceActiveEvents_def read_pages_seed seedActiveState_def)
qed

section \<open>Fan-out\<close>

lemma first_some_None: "first_some xs = None \<longleftrightarrow> (\<forall>x\<in>set xs. x = None)"
proof -
  have "List.map_filter id xs = [] \<longleftrightarrow> (\<forall>x\<in>set xs. x = None)"
    by (induction xs) (auto simp: List.map_filter_def)
  then show ?thesis by (auto simp: first_some_def split: list.split)
qed

text \<open>
  an information message carries the configured producer whatever the plugin wrote, a message
  that is not valid reaches no queue, and a valid one is offered to every output independently: a
  full or disabled queue keeps its content and takes nothing from the others; the emission reports
  success exactly when every queue took the message.
\<close>

theorem information_fanout:
  fixes message producer
  defines "m \<equiv> message\<lparr>im_producer := producer\<rparr>"
  assumes run: "emitInformation json_valid True False producer message ws = (err, ws')" and ne: "ws \<noteq> []"
  shows "(case validate_info json_valid m of
      Some e \<Rightarrow> err = Some (InfoInvalid e) \<and> ws' = ws
    | None \<Rightarrow>
        list_all2 (\<lambda>w w'. w' = (case enqueueInfo m w of Inl e \<Rightarrow> w | Inr v \<Rightarrow> v)) ws ws' \<and>
        (err = None \<longleftrightarrow> list_all (\<lambda>w. \<exists>v. enqueueInfo m w = Inr v) ws))"
proof (cases "validate_info json_valid m")
  case None
  then have ws': "ws' = map (\<lambda>w. snd (offer_info m w)) ws"
    and err: "err = map_option NotQueued (first_some (map fst (map (offer_info m) ws)))"
    using run ne by (auto simp: emitInformation_def m_def Let_def)
  have "snd (offer_info m w) = (case enqueueInfo m w of Inl e \<Rightarrow> w | Inr v \<Rightarrow> v)"
    and "fst (offer_info m w) = None \<longleftrightarrow> (\<exists>v. enqueueInfo m w = Inr v)" for w
    by (auto simp: offer_info_def split: sum.split)
  then show ?thesis
    using None by (simp add: ws' err first_some_None list_all2_map2 list_all_iff list.rel_refl)
next
  case (Some e)
  then show ?thesis using run by (auto simp: emitInformation_def m_def Let_def)
qed

section \<open>Examples\<close>

definition sample_types :: plugin_types where
  "sample_types = \<lparr> pt_sources = [(''rso'', \<lambda>c. if c = [] then Inl ''empty'' else Inr False)],
     pt_outputs = [(''mqtt'', \<lambda>c. Inr True)] \<rparr>"

definition sample_cfg :: "string \<Rightarrow> string \<Rightarrow> bool \<Rightarrow> plugin_cfg" where
  "sample_cfg i t on = \<lparr> pc_id = i, pc_type = t, pc_enabled = on, pc_config = ''x'', pc_threshold = 3, pc_timeout = 5 \<rparr>"

theorem manager_starts_exactly_witness:
  "\<exists>m. NewPluginManager sample_types [sample_cfg ''a'' ''rso'' True, sample_cfg ''b'' ''rso'' False]
      [sample_cfg ''c'' ''mqtt'' True] = Inr m \<and> plugin_state_of m ''b'' = Some StateDisabled"
proof -
  have "distinct (map pc_id ([sample_cfg ''a'' ''rso'' True, sample_cfg ''b'' ''rso'' False] @
      [sample_cfg ''c'' ''mqtt'' True]))"
    by (simp add: sample_cfg_def)
  moreover have "(\<forall>x. x) = False" by blast
  ultimately show ?thesis
    using manager_starts_exactly [of "[sample_cfg ''a'' ''rso'' True, sample_cfg ''b'' ''rso'' False]"
        "[sample_cfg ''c'' ''mqtt'' True]" sample_types]
    by (auto simp: startable_def sample_types_def sample_cfg_def split: sum.splits)
qed

theorem source_events_complete_witness:
  "ListSourceActiveEvents sample_store ''rso'' =
    Inr (Some (filter (\<lambda>e. he_source e = ''rso'') (map (scan_event \<circ> snd) (active_rows sample_store))))"
proof -
  have "ValidateSource ''rso'' = None" by code_simp
  then show ?thesis using source_events_complete [of sample_store "''rso''"] sample_store_inv
    by (simp add: store_inv_def)
qed

theorem information_fanout_witness:
  "\<exists>err ws'. emitInformation (\<lambda>_. True) True False ''home'' (sample_info\<lparr>im_source := []\<rparr>) [sample_worker] = (err, ws') \<and>
    ws' = [sample_worker] \<and> err \<noteq> None"
proof -
  let ?m = "sample_info\<lparr>im_source := []\<rparr>"
  obtain err ws' where run: "emitInformation (\<lambda>_. True) True False ''home'' ?m [sample_worker] = (err, ws')"
    by (cases "emitInformation (\<lambda>_. True) True False ''home'' ?m [sample_worker]")
  have "\<not> slug_match []" by code_simp
  then have "validate_info (\<lambda>_. True) (?m\<lparr>im_producer := ''home''\<rparr>) = Some BadInfoSource"
    by (simp add: validate_info_def)
  then show ?thesis using information_fanout [OF run] run by simp
qed

end
