(* ===== verification/Manager_Intake.thy ===== *)
theory Manager_Intake
  imports Plugin_Manager
begin

text \<open>
  The event intake of the plugin manager (\<open>emit\<close>, \<open>ingestLoop\<close>, \<open>drainQueue\<close> and the shutdown of
  \<open>Run\<close> in \<open>internal/plugin/manager.go\<close>) as a step relation: any number of concurrent \<open>Emit\<close>
  calls, the mutex \<open>queueMu\<close>, the bounded queue, the one ingest worker, the maintenance of the
  database and the shutdown interleave freely.  Emissions are numbered; a \<open>select\<close> with several ready
  branches may take any of them.
\<close>

section \<open>State\<close>

text \<open>\<open>Persisted\<close> is the answer \<open>nil\<close>.\<close>

datatype emit_reply =
    Persisted | NotValid pipeline_error | IngestFailed string | EmitCancelled | IntakeFull | ShuttingDown

datatype emit_phase = AwaitLock | Admitted | Queued | Answered emit_reply

record emission =
  em_event :: hazard_event
  em_phase :: emit_phase

text \<open>
  The worker: before \<open>Run\<close>, in its loop, at the first check of \<open>drainQueue\<close>, in the drain loop,
  after an event there, past the deadline, returned.
\<close>

datatype worker_phase = NotRunning | Looping | Entering | Draining | Checking | Sweeping | Returned

record intake =
  nk_accepting :: bool
  nk_stop :: bool
  nk_lock :: "nat option"
  nk_queue :: "(nat \<times> hazard_event) list"
  nk_emits :: "nat \<Rightarrow> emission option"
  nk_worker :: worker_phase
  nk_ingester :: ingester

definition defaultEventQueueSize :: nat where
  "defaultEventQueueSize = 256"

definition new_intake :: "ingester \<Rightarrow> intake" where
  "new_intake g = \<lparr> nk_accepting = False, nk_stop = False, nk_lock = None, nk_queue = [], nk_emits = Map.empty,
     nk_worker = NotRunning, nk_ingester = g \<rparr>"

section \<open>Emissions\<close>

definition set_phase :: "nat \<Rightarrow> emit_phase \<Rightarrow> intake \<Rightarrow> intake" where
  "set_phase i p s = s\<lparr>nk_emits := (nk_emits s)(i := map_option (\<lambda>e. e\<lparr>em_phase := p\<rparr>) (nk_emits s i))\<rparr>"

definition emit_begin :: "nat \<Rightarrow> hazard_event \<Rightarrow> bool \<Rightarrow> intake \<Rightarrow> intake" where
  "emit_begin i ev cancelled s =
     s\<lparr>nk_emits := (nk_emits s)(i \<mapsto> \<lparr>em_event = ev, em_phase = if cancelled then Answered EmitCancelled else AwaitLock\<rparr>)\<rparr>"

text \<open>The mutex is taken and the flag read; a refusal gives the mutex back at once.\<close>

definition emit_enter :: "nat \<Rightarrow> intake \<Rightarrow> intake" where
  "emit_enter i s =
     (if \<not> nk_accepting s then set_phase i (Answered ShuttingDown) s
      else (set_phase i Admitted s)\<lparr>nk_lock := Some i\<rparr>)"

definition emit_send :: "nat \<Rightarrow> hazard_event \<Rightarrow> intake \<Rightarrow> intake" where
  "emit_send i ev s = (set_phase i Queued s)\<lparr>nk_queue := nk_queue s @ [(i, ev)], nk_lock := None\<rparr>"

definition emit_give_up :: "nat \<Rightarrow> emit_reply \<Rightarrow> intake \<Rightarrow> intake" where
  "emit_give_up i r s = (set_phase i (Answered r) s)\<lparr>nk_lock := None\<rparr>"

section \<open>The worker\<close>

text \<open>What the database does with one event, at three readings of the clock.\<close>

datatype ingest_call = IngestRuns time time time | IngestIoFails string

definition processEvent ::
    "(fingerprint_payload \<Rightarrow> string) \<Rightarrow> ingest_call \<Rightarrow> nat \<times> hazard_event \<Rightarrow> intake \<Rightarrow> intake" where
  "processEvent digest call qe s =
     (case qe of (i, ev) \<Rightarrow>
        (case call of
           IngestIoFails e \<Rightarrow> set_phase i (Answered (IngestFailed e)) s
         | IngestRuns now1 now2 now3 \<Rightarrow>
             (case IngestEvent digest now1 now2 now3 ev (nk_ingester s) of
                Inl e \<Rightarrow> set_phase i (Answered (NotValid e)) s
              | Inr (g, res, ch) \<Rightarrow> (set_phase i (Answered Persisted) s)\<lparr>nk_ingester := g\<rparr>)))"

definition take_next :: "(fingerprint_payload \<Rightarrow> string) \<Rightarrow> ingest_call \<Rightarrow> intake \<Rightarrow> intake" where
  "take_next digest call s =
     (case nk_queue s of
        [] \<Rightarrow> s
      | qe # q \<Rightarrow>
          processEvent digest call qe
            (s\<lparr>nk_queue := q, nk_worker := (if nk_worker s = Draining then Checking else nk_worker s)\<rparr>))"

definition drain_check :: "intake \<Rightarrow> intake" where
  "drain_check s = s\<lparr>nk_worker := (if nk_queue s = [] then Returned else Draining)\<rparr>"

primrec failQueued :: "(nat \<times> hazard_event) list \<Rightarrow> intake \<Rightarrow> intake" where
  "failQueued [] s = s\<lparr>nk_queue := []\<rparr>"
| "failQueued (qe # q) s = failQueued q (set_phase (fst qe) (Answered ShuttingDown) s)"

definition sweep :: "intake \<Rightarrow> intake" where
  "sweep s = (failQueued (nk_queue s) s)\<lparr>nk_worker := Returned\<rparr>"

text \<open>One tick of \<open>maintenance\<close> on the database; a statement that fails changes nothing.\<close>

datatype upkeep = UpkeepExpire time | UpkeepChanges time | UpkeepEvents time

definition maintain :: "upkeep \<Rightarrow> ingester \<Rightarrow> ingester" where
  "maintain u g =
     (case u of
        UpkeepExpire now \<Rightarrow> (case ExpireEvents now g of Inl e \<Rightarrow> g | Inr (g', cs) \<Rightarrow> g')
      | UpkeepChanges t \<Rightarrow> g\<lparr>ig_store := fst (CleanupChanges t (ig_store g))\<rparr>
      | UpkeepEvents t \<Rightarrow> g\<lparr>ig_store := fst (CleanupEvents t (ig_store g))\<rparr>)"

section \<open>Steps\<close>

definition in_phase :: "intake \<Rightarrow> nat \<Rightarrow> emit_phase \<Rightarrow> bool" where
  "in_phase s i p \<longleftrightarrow> (\<exists>e. nk_emits s i = Some e \<and> em_phase e = p)"

inductive intake_step :: "(fingerprint_payload \<Rightarrow> string) \<Rightarrow> intake \<Rightarrow> intake \<Rightarrow> bool" for digest where
  begin_emit: "nk_emits s i = None \<Longrightarrow> intake_step digest s (emit_begin i ev cancelled s)"
| enter_emit: "in_phase s i AwaitLock \<Longrightarrow> nk_lock s = None \<Longrightarrow> intake_step digest s (emit_enter i s)"
| send_emit: "nk_lock s = Some i \<Longrightarrow> nk_emits s i = Some e \<Longrightarrow> length (nk_queue s) < defaultEventQueueSize \<Longrightarrow>
    intake_step digest s (emit_send i (em_event e) s)"
| cancel_emit: "nk_lock s = Some i \<Longrightarrow> intake_step digest s (emit_give_up i EmitCancelled s)"
| timeout_emit: "nk_lock s = Some i \<Longrightarrow> intake_step digest s (emit_give_up i IntakeFull s)"
| run_manager: "nk_worker s = NotRunning \<Longrightarrow> intake_step digest s (s\<lparr>nk_accepting := True, nk_worker := Looping\<rparr>)"
| begin_shutdown: "nk_worker s \<noteq> NotRunning \<Longrightarrow> intake_step digest s (s\<lparr>nk_accepting := False\<rparr>)"
| stop_ingest: "nk_worker s \<noteq> NotRunning \<Longrightarrow> \<not> nk_accepting s \<Longrightarrow> intake_step digest s (s\<lparr>nk_stop := True\<rparr>)"
| take_event: "nk_worker s \<in> {Looping, Draining} \<Longrightarrow> nk_queue s \<noteq> [] \<Longrightarrow> intake_step digest s (take_next digest call s)"
| enter_drain: "nk_worker s = Looping \<Longrightarrow> nk_stop s \<Longrightarrow> intake_step digest s (s\<lparr>nk_worker := Entering\<rparr>)"
| check_drain: "nk_worker s \<in> {Entering, Checking} \<Longrightarrow> nk_lock s = None \<Longrightarrow> intake_step digest s (drain_check s)"
| drain_deadline: "nk_worker s = Draining \<Longrightarrow> intake_step digest s (s\<lparr>nk_worker := Sweeping\<rparr>)"
| sweep_queue: "nk_worker s = Sweeping \<Longrightarrow> nk_lock s = None \<Longrightarrow> intake_step digest s (sweep s)"
| upkeep_step: "intake_step digest s (s\<lparr>nk_ingester := maintain u (nk_ingester s)\<rparr>)"

definition intake_reach :: "(fingerprint_payload \<Rightarrow> string) \<Rightarrow> ingester \<Rightarrow> intake \<Rightarrow> bool" where
  "intake_reach digest g s \<longleftrightarrow> (intake_step digest)\<^sup>*\<^sup>* (new_intake g) s"

section \<open>The invariant\<close>

text \<open>The emissions that wait for the worker are the queued ones, and the mutex is with the admitted one.\<close>

definition emits_ok :: "intake \<Rightarrow> bool" where
  "emits_ok s \<longleftrightarrow>
     distinct (map fst (nk_queue s)) \<and> length (nk_queue s) \<le> defaultEventQueueSize \<and>
     (\<forall>x\<in>set (nk_queue s). nk_emits s (fst x) = Some \<lparr>em_event = snd x, em_phase = Queued\<rparr>) \<and>
     (\<forall>i. in_phase s i Queued \<longrightarrow> i \<in> fst ` set (nk_queue s)) \<and>
     (\<forall>i. in_phase s i Admitted \<longleftrightarrow> nk_lock s = Some i)"

definition phases_ok :: "intake \<Rightarrow> bool" where
  "phases_ok s \<longleftrightarrow>
     (nk_worker s = NotRunning \<or> nk_stop s \<longrightarrow> \<not> nk_accepting s) \<and>
     (nk_worker s \<in> {Entering, Draining, Checking, Sweeping, Returned} \<longrightarrow> nk_stop s) \<and>
     (nk_worker s = NotRunning \<longrightarrow> nk_lock s = None \<and> nk_queue s = [] \<and> \<not> nk_stop s) \<and>
     (nk_worker s = Returned \<longrightarrow> nk_lock s = None \<and> nk_queue s = [])"

definition intake_ok :: "intake \<Rightarrow> bool" where
  "intake_ok s \<longleftrightarrow> emits_ok s \<and> phases_ok s \<and> store_inv (ig_store (nk_ingester s))"

lemma set_phase_simps [simp]:
  "nk_accepting (set_phase i p s) = nk_accepting s" "nk_stop (set_phase i p s) = nk_stop s"
  "nk_lock (set_phase i p s) = nk_lock s" "nk_queue (set_phase i p s) = nk_queue s"
  "nk_worker (set_phase i p s) = nk_worker s" "nk_ingester (set_phase i p s) = nk_ingester s"
  "in_phase (set_phase i p s) j q \<longleftrightarrow> (if j = i then nk_emits s i \<noteq> None \<and> p = q else in_phase s j q)"
  "nk_emits (set_phase i p s) j =
    (if j = i then map_option (\<lambda>e. e\<lparr>em_phase := p\<rparr>) (nk_emits s i) else nk_emits s j)"
  by (auto simp: set_phase_def in_phase_def)

lemma in_phase_update [simp]:
  "in_phase (s\<lparr>nk_accepting := b\<rparr>) i p = in_phase s i p" "in_phase (s\<lparr>nk_stop := b\<rparr>) i p = in_phase s i p"
  "in_phase (s\<lparr>nk_lock := l\<rparr>) i p = in_phase s i p" "in_phase (s\<lparr>nk_queue := q\<rparr>) i p = in_phase s i p"
  "in_phase (s\<lparr>nk_worker := w\<rparr>) i p = in_phase s i p" "in_phase (s\<lparr>nk_ingester := g\<rparr>) i p = in_phase s i p"
  by (simp_all add: in_phase_def)

lemma in_phase_unique: "in_phase s i p \<Longrightarrow> in_phase s i q \<longleftrightarrow> p = q"
  by (auto simp: in_phase_def)

lemma in_phase_Some: "in_phase s i p \<Longrightarrow> nk_emits s i \<noteq> None"
  by (auto simp: in_phase_def)

lemma emits_ok_frame:
  "nk_queue t = nk_queue s \<Longrightarrow> nk_emits t = nk_emits s \<Longrightarrow> nk_lock t = nk_lock s \<Longrightarrow> emits_ok t = emits_ok s"
  by (simp add: emits_ok_def in_phase_def)

lemma locked_phase: "emits_ok s \<Longrightarrow> nk_lock s = Some i \<Longrightarrow> in_phase s i Admitted"
  by (simp add: emits_ok_def)

lemma queued_phase: "emits_ok s \<Longrightarrow> x \<in> set (nk_queue s) \<Longrightarrow> in_phase s (fst x) Queued"
  by (simp add: emits_ok_def in_phase_def)

text \<open>An emission that is not queued changes to a phase that is neither queued nor admitted.\<close>

lemma emits_ok_answer:
  assumes ok: "emits_ok s" and i: "i \<notin> fst ` set (nk_queue s)" "nk_lock s \<noteq> Some i" and p: "p \<noteq> Queued" "p \<noteq> Admitted"
  shows "emits_ok (set_phase i p s)"
  using assms by (auto simp: emits_ok_def)

lemma emits_ok_begin:
  assumes "emits_ok s" "nk_emits s i = None"
  shows "emits_ok (emit_begin i ev c s)"
proof -
  have "i \<notin> fst ` set (nk_queue s)" using assms by (force simp: emits_ok_def)
  moreover have "\<not> in_phase s i p" for p using assms(2) by (simp add: in_phase_def)
  moreover from this have "nk_lock s \<noteq> Some i" using assms(1) by (auto simp: emits_ok_def)
  ultimately show ?thesis
    using assms by (auto simp: emits_ok_def emit_begin_def in_phase_def split: if_splits)
qed

lemma emits_ok_enter:
  assumes ok: "emits_ok s" and i: "in_phase s i AwaitLock" and l: "nk_lock s = None"
  shows "emits_ok (emit_enter i s)"
proof -
  have q: "i \<notin> fst ` set (nk_queue s)" using queued_phase [OF ok] i in_phase_unique by fastforce
  show ?thesis
  proof (cases "nk_accepting s")
    case True
    then show ?thesis using ok q l in_phase_Some [OF i] by (auto simp: emits_ok_def emit_enter_def)
  next
    case False
    then show ?thesis using emits_ok_answer [OF ok q] l by (simp add: emit_enter_def)
  qed
qed

lemma emits_ok_send:
  assumes ok: "emits_ok s" and l: "nk_lock s = Some i" "nk_emits s i = Some e"
    and room: "length (nk_queue s) < defaultEventQueueSize"
  shows "emits_ok (emit_send i (em_event e) s)"
proof -
  have q: "i \<notin> fst ` set (nk_queue s)"
    using queued_phase [OF ok] locked_phase [OF ok l(1)] in_phase_unique by fastforce
  have only: "in_phase s j Admitted \<longleftrightarrow> j = i" for j using ok l(1) by (auto simp: emits_ok_def)
  show ?thesis using ok q l room only by (auto simp: emits_ok_def emit_send_def)
qed

lemma emits_ok_give_up:
  assumes ok: "emits_ok s" and l: "nk_lock s = Some i"
  shows "emits_ok (emit_give_up i r s)"
proof -
  have q: "i \<notin> fst ` set (nk_queue s)"
    using queued_phase [OF ok] locked_phase [OF ok l(1)] in_phase_unique by fastforce
  have only: "in_phase s j Admitted \<longleftrightarrow> j = i" for j using ok l(1) by (auto simp: emits_ok_def)
  show ?thesis using ok q l only by (auto simp: emits_ok_def emit_give_up_def)
qed

lemma processEvent_simps [simp]:
  "nk_accepting (processEvent d c x s) = nk_accepting s" "nk_stop (processEvent d c x s) = nk_stop s"
  "nk_lock (processEvent d c x s) = nk_lock s" "nk_queue (processEvent d c x s) = nk_queue s"
  "nk_worker (processEvent d c x s) = nk_worker s"
  by (simp_all add: processEvent_def split: prod.split ingest_call.split sum.split)

lemma processEvent_emits:
  "\<exists>r. nk_emits (processEvent d c x s) = nk_emits (set_phase (fst x) (Answered r) s)"
  by (cases x) (auto simp: processEvent_def split: ingest_call.split sum.split)

lemma emits_ok_dequeue:
  assumes ok: "emits_ok s" and q: "nk_queue s = x # xs"
  shows "emits_ok ((set_phase (fst x) (Answered r) s)\<lparr>nk_queue := xs\<rparr>)"
proof -
  have x: "in_phase s (fst x) Queued" using queued_phase [OF ok] q by simp
  then have "nk_lock s \<noteq> Some (fst x)" using locked_phase [OF ok] in_phase_unique by fastforce
  moreover have "fst x \<notin> fst ` set xs" using ok q by (simp add: emits_ok_def)
  then have "fst y \<noteq> fst x" if "y \<in> set xs" for y using that by (metis image_eqI)
  ultimately show ?thesis using ok q by (auto simp: emits_ok_def)
qed

lemma emits_ok_take:
  assumes ok: "emits_ok s"
  shows "emits_ok (take_next d c s)"
proof (cases "nk_queue s")
  case (Cons x xs)
  let ?s = "s\<lparr>nk_queue := xs, nk_worker := (if nk_worker s = Draining then Checking else nk_worker s)\<rparr>"
  obtain r where "nk_emits (processEvent d c x ?s) = nk_emits (set_phase (fst x) (Answered r) ?s)"
    using processEvent_emits [of d c x ?s] by blast
  then have "nk_emits (take_next d c s) = nk_emits ((set_phase (fst x) (Answered r) s)\<lparr>nk_queue := xs\<rparr>)"
    by (simp add: take_next_def Cons set_phase_def)
  then show ?thesis
    using emits_ok_dequeue [OF ok Cons, of r]
    by (subst emits_ok_frame [of _ "(set_phase (fst x) (Answered r) s)\<lparr>nk_queue := xs\<rparr>"])
      (simp_all add: take_next_def Cons)
qed (simp add: take_next_def ok)

lemma failQueued_simps [simp]:
  "nk_accepting (failQueued q s) = nk_accepting s" "nk_stop (failQueued q s) = nk_stop s"
  "nk_lock (failQueued q s) = nk_lock s" "nk_queue (failQueued q s) = []"
  "nk_worker (failQueued q s) = nk_worker s" "nk_ingester (failQueued q s) = nk_ingester s"
  by (induction q arbitrary: s) simp_all

lemma failQueued_emits:
  "nk_emits (failQueued q s) i =
    (if i \<in> fst ` set q then map_option (\<lambda>e. e\<lparr>em_phase := Answered ShuttingDown\<rparr>) (nk_emits s i) else nk_emits s i)"
  by (induction q arbitrary: s) (auto simp: option.map_comp comp_def)

lemma emits_ok_sweep:
  assumes ok: "emits_ok s" and l: "nk_lock s = None"
  shows "emits_ok (sweep s)"
proof -
  have "\<not> in_phase (sweep s) i p" if "p = Queued \<or> p = Admitted" for i p
    using ok l that by (auto simp: emits_ok_def sweep_def in_phase_def failQueued_emits split: if_splits)
  then show ?thesis using l by (simp add: emits_ok_def sweep_def [of s])
qed

lemma maintain_inv: "store_inv (ig_store g) \<Longrightarrow> store_inv (ig_store (maintain u g))"
  by (cases u) (auto simp: maintain_def ExpireEvents_def CleanupChanges_inv CleanupEvents_inv
      split: sum.splits dest: Expire_inv)

lemma processEvent_inv:
  "store_inv (ig_store (nk_ingester s)) \<Longrightarrow> store_inv (ig_store (nk_ingester (processEvent d c x s)))"
  by (auto simp: processEvent_def split: prod.split ingest_call.split sum.split
      elim!: IngestEvent_Inr intro: Ingest_inv accepted_ingestible)

lemma take_next_simps [simp]:
  "nk_accepting (take_next d c s) = nk_accepting s" "nk_stop (take_next d c s) = nk_stop s"
  "nk_lock (take_next d c s) = nk_lock s" "nk_queue (take_next d c s) = tl (nk_queue s)"
  by (simp_all add: take_next_def split: list.split)

lemma take_next_worker:
  "nk_queue s \<noteq> [] \<Longrightarrow> nk_worker (take_next d c s) = (if nk_worker s = Draining then Checking else nk_worker s)"
  by (cases "nk_queue s") (simp_all add: take_next_def)

lemma intake_step_ok: "intake_step digest s t \<Longrightarrow> intake_ok s \<Longrightarrow> intake_ok t"
proof (induction rule: intake_step.induct)
  case (begin_emit s i ev cancelled)
  then show ?case using emits_ok_begin [of s i ev cancelled]
    by (simp add: intake_ok_def phases_ok_def emit_begin_def)
next
  case (enter_emit s i)
  then show ?case using emits_ok_enter [of s i]
    by (auto simp: intake_ok_def phases_ok_def emit_enter_def)
next
  case (send_emit s i e)
  then show ?case using emits_ok_send [of s i e]
    by (auto simp: intake_ok_def phases_ok_def emit_send_def)
next
  case (cancel_emit s i)
  then show ?case using emits_ok_give_up [of s i] by (auto simp: intake_ok_def phases_ok_def emit_give_up_def)
next
  case (timeout_emit s i)
  then show ?case using emits_ok_give_up [of s i] by (auto simp: intake_ok_def phases_ok_def emit_give_up_def)
next
  case (take_event s call)
  then show ?case using emits_ok_take [of s digest call] processEvent_inv
    by (auto simp: intake_ok_def phases_ok_def take_next_worker)
      (auto simp: take_next_def split: list.split)
next
  case (check_drain s)
  then show ?case by (auto simp: intake_ok_def phases_ok_def drain_check_def emits_ok_def)
next
  case (sweep_queue s)
  then show ?case using emits_ok_sweep [of s] by (auto simp: intake_ok_def phases_ok_def sweep_def)
next
  case (upkeep_step s u)
  then show ?case using maintain_inv by (simp add: intake_ok_def phases_ok_def emits_ok_def)
qed (auto simp: intake_ok_def phases_ok_def emits_ok_def)

lemma intake_reach_ok:
  assumes "store_inv (ig_store g)" "intake_reach digest g s"
  shows "intake_ok s"
  using assms(2) unfolding intake_reach_def
proof (induction rule: rtranclp_induct)
  case base
  then show ?case using assms(1) by (simp add: new_intake_def intake_ok_def emits_ok_def phases_ok_def in_phase_def)
qed (rule intake_step_ok)

section \<open>Answers\<close>

lemma persisted_step:
  assumes st: "intake_step digest s t" and ok: "emits_ok s"
    and new: "in_phase t i (Answered Persisted)" "\<not> in_phase s i (Answered Persisted)"
  shows "\<exists>x q call. nk_queue s = x # q \<and> fst x = i \<and> t = take_next digest call s"
  using st
proof cases
  case (begin_emit j ev c)
  then show ?thesis using new by (auto simp: in_phase_def emit_begin_def split: if_splits)
next
  case (enter_emit j)
  then show ?thesis using new by (auto simp: emit_enter_def split: if_splits)
next
  case (send_emit j e)
  then show ?thesis using new by (auto simp: emit_send_def split: if_splits)
next
  case (cancel_emit j)
  then show ?thesis using new by (auto simp: emit_give_up_def split: if_splits)
next
  case (timeout_emit j)
  then show ?thesis using new by (auto simp: emit_give_up_def split: if_splits)
next
  case (take_event call)
  then obtain x q where q: "nk_queue s = x # q" by (cases "nk_queue s") auto
  obtain r where "nk_emits (take_next digest call s) = nk_emits (set_phase (fst x) (Answered r) s)"
    using processEvent_emits [of digest call x "s\<lparr>nk_queue := q, nk_worker := (if nk_worker s = Draining then Checking else nk_worker s)\<rparr>"]
    by (auto simp: take_next_def q set_phase_def)
  then have "in_phase (take_next digest call s) i p = in_phase (set_phase (fst x) (Answered r) s) i p" for p
    by (simp add: in_phase_def)
  then have "fst x = i" using new take_event by (auto split: if_splits)
  then show ?thesis using q take_event by auto
next
  case sweep_queue
  then show ?thesis using new by (auto simp: in_phase_def sweep_def failQueued_emits split: if_splits)
qed (use new in \<open>auto simp: drain_check_def\<close>)

text \<open>
  C26: a source that is answered \<open>nil\<close> can rely on the database: in every interleaving of any
  number of emitters, the worker, the maintenance and the shutdown, the step that gives the answer
  is the ingestion of exactly that event, which was at the head of the queue, and it leaves the
  store in order with one more journal entry, or none for a duplicate.
\<close>

theorem durable_ack:
  assumes inv: "store_inv (ig_store g)" and reach: "intake_reach digest g s" and st: "intake_step digest s t"
    and new: "in_phase t i (Answered Persisted)" "\<not> in_phase s i (Answered Persisted)"
  shows "\<exists>ev q now1 now2 now3 res ch.
    nk_queue s = (i, ev) # q \<and> nk_emits s i = Some \<lparr>em_event = ev, em_phase = Queued\<rparr> \<and>
    IngestEvent digest now1 now2 now3 ev (nk_ingester s) = Inr (nk_ingester t, res, ch) \<and>
    store_inv (ig_store (nk_ingester t)) \<and>
    st_seq (ig_store (nk_ingester t)) = st_seq (ig_store (nk_ingester s)) + (if res = ResultDuplicate then 0 else 1)"
proof -
  have ok: "intake_ok s" "intake_ok t"
    using intake_reach_ok [OF inv reach] intake_step_ok [OF st] by blast+
  then obtain x q call where x: "nk_queue s = x # q" "fst x = i" "t = take_next digest call s"
    using persisted_step [OF st _ new] by (auto simp: intake_ok_def)
  obtain ev where ev: "x = (i, ev)" using x(2) by (cases x) simp
  have em: "nk_emits s i = Some \<lparr>em_event = ev, em_phase = Queued\<rparr>"
    using ok(1) x(1) ev by (simp add: intake_ok_def emits_ok_def)
  obtain now1 now2 now3 g' res ch where call: "call = IngestRuns now1 now2 now3"
    and run: "IngestEvent digest now1 now2 now3 ev (nk_ingester s) = Inr (g', res, ch)"
    using new(1) em
    by (auto simp: x(3) x(1) ev take_next_def processEvent_def split: ingest_call.splits sum.splits)
  have t: "nk_ingester t = g'" by (simp add: x(3) x(1) ev take_next_def processEvent_def call run)
  have "st_seq (ig_store g') = st_seq (ig_store (nk_ingester s)) + (if res = ResultDuplicate then 0 else 1)"
    using run
  proof (rule IngestEvent_Inr)
    fix oc ch0
    assume "Ingest now3 (stamped now1 now2 ev) (Fingerprint digest (stamped now1 now2 ev))
        (ig_store (nk_ingester s)) = Inr (ig_store g', oc, ch0)"
      and "res = (case oc of OutcomeNew \<Rightarrow> ResultNew | OutcomeDuplicate \<Rightarrow> ResultDuplicate
        | OutcomeUpdated \<Rightarrow> ResultUpdated | OutcomeCancelled \<Rightarrow> ResultCancelled)"
    then show ?thesis using Ingest_change_iff [of now3] by (auto split: outcome.splits)
  qed
  then have "nk_queue s = (i, ev) # q \<and> nk_emits s i = Some \<lparr>em_event = ev, em_phase = Queued\<rparr> \<and>
    IngestEvent digest now1 now2 now3 ev (nk_ingester s) = Inr (nk_ingester t, res, ch) \<and>
    store_inv (ig_store (nk_ingester t)) \<and>
    st_seq (ig_store (nk_ingester t)) = st_seq (ig_store (nk_ingester s)) + (if res = ResultDuplicate then 0 else 1)"
    using x(1) ev em run t ok(2) by (simp add: intake_ok_def)
  then show ?thesis by blast
qed

text \<open>
  C18: no emitter is left waiting: once the worker has returned, every emission has its answer or
  stands before the mutex, which is free; the only answer those can still get is that the program
  is shutting down, nothing is in the queue, and an answer that was given never changes.
\<close>

theorem no_emit_left_behind:
  assumes inv: "store_inv (ig_store g)" and reach: "intake_reach digest g s"
    and ret: "nk_worker s = Returned" and e: "nk_emits s i = Some e"
  shows "nk_queue s = [] \<and>
    (case em_phase e of
       Answered r \<Rightarrow> True
     | AwaitLock \<Rightarrow> intake_step digest s (emit_enter i s) \<and> in_phase (emit_enter i s) i (Answered ShuttingDown)
     | _ \<Rightarrow> False)"
proof -
  have ok: "emits_ok s" "phases_ok s" using intake_reach_ok [OF inv reach] by (simp_all add: intake_ok_def)
  then have st: "nk_queue s = []" "nk_lock s = None" "\<not> nk_accepting s"
    using ret by (auto simp: phases_ok_def)
  have i: "in_phase s i (em_phase e)" using e by (simp add: in_phase_def)
  have "em_phase e \<noteq> Queued" "em_phase e \<noteq> Admitted" using ok(1) st i by (auto simp: emits_ok_def)
  then show ?thesis
    using st e i enter_emit [of s i digest] by (cases "em_phase e") (auto simp: emit_enter_def)
qed

section \<open>Shutdown ends\<close>

definition phase_load :: "worker_phase \<Rightarrow> nat" where
  "phase_load w = (case w of Looping \<Rightarrow> 5 | Entering \<Rightarrow> 4 | Checking \<Rightarrow> 3 | Draining \<Rightarrow> 2 | Sweeping \<Rightarrow> 1 | _ \<Rightarrow> 0)"

definition intake_load :: "intake \<Rightarrow> nat" where
  "intake_load s = 3 * length (nk_queue s) + phase_load (nk_worker s) + (if nk_lock s = None then 0 else 4)"

definition shutting :: "intake \<Rightarrow> bool" where
  "shutting s \<longleftrightarrow> nk_worker s \<noteq> NotRunning \<and> nk_stop s \<and> \<not> nk_accepting s"

text \<open>What a step changes of the queue, the worker and the mutex.\<close>

lemma shutting_step:
  assumes st: "intake_step digest s t" and ok: "emits_ok s" and sh: "shutting s"
  shows "shutting t \<and> (nk_worker t = nk_worker s \<and> nk_queue t = nk_queue s \<and> nk_lock t = nk_lock s \<or>
    intake_load t < intake_load s)"
  using st
proof cases
  case (begin_emit i ev c)
  then show ?thesis using sh by (simp add: shutting_def emit_begin_def)
next
  case (enter_emit i)
  then show ?thesis using sh by (simp add: shutting_def emit_enter_def)
next
  case (send_emit i e)
  then show ?thesis using sh by (simp add: shutting_def emit_send_def intake_load_def)
next
  case (cancel_emit i)
  then show ?thesis using sh by (simp add: shutting_def emit_give_up_def intake_load_def)
next
  case (timeout_emit i)
  then show ?thesis using sh by (simp add: shutting_def emit_give_up_def intake_load_def)
next
  case (take_event call)
  then obtain x q where q: "nk_queue s = x # q" by (cases "nk_queue s") auto
  show ?thesis
    using take_event sh take_next_worker [of s digest call] q
    by (auto simp: shutting_def intake_load_def phase_load_def)
next
  case enter_drain
  then show ?thesis using sh by (simp add: shutting_def intake_load_def phase_load_def)
next
  case check_drain
  then show ?thesis using sh by (auto simp: shutting_def drain_check_def intake_load_def phase_load_def)
next
  case drain_deadline
  then show ?thesis using sh by (simp add: shutting_def intake_load_def phase_load_def)
next
  case sweep_queue
  then show ?thesis using sh by (simp add: shutting_def sweep_def intake_load_def phase_load_def)
qed (use sh in \<open>auto simp: shutting_def\<close>)

lemma shutting_progress:
  assumes ok: "emits_ok s" and sh: "shutting s" and w: "nk_worker s \<noteq> Returned"
  shows "\<exists>t. intake_step digest s t \<and> intake_load t < intake_load s"
proof (cases "nk_lock s")
  case (Some i)
  then have "intake_step digest s (emit_give_up i IntakeFull s)" by (rule timeout_emit)
  moreover have "intake_load (emit_give_up i IntakeFull s) < intake_load s"
    using Some by (simp add: emit_give_up_def intake_load_def)
  ultimately show ?thesis by blast
next
  case None
  have "\<exists>t. intake_step digest s t \<and> nk_worker t \<noteq> nk_worker s"
  proof (cases "nk_worker s")
    case Looping
    then show ?thesis using enter_drain [of s digest] sh by (auto simp: shutting_def)
  next
    case Draining
    then show ?thesis using drain_deadline [of s digest] by auto
  next
    case Sweeping
    then show ?thesis using sweep_queue [of s digest] None by (auto simp: sweep_def)
  next
    case Entering
    then show ?thesis using check_drain [of s digest] None by (intro exI [of _ "drain_check s"]) (simp add: drain_check_def)
  next
    case Checking
    then show ?thesis using check_drain [of s digest] None by (intro exI [of _ "drain_check s"]) (simp add: drain_check_def)
  qed (use sh w in \<open>auto simp: shutting_def\<close>)
  then show ?thesis using shutting_step [OF _ ok sh] by blast
qed

text \<open>
  C39: the shutdown of the intake always ends: once ingestion was told to stop, every step either
  leaves the queue, the worker and the mutex alone or takes from a load that is at most $3 q + 9$ for
  $q$ queued events, no emission adds to it, and as long as the worker has not returned a step that
  takes from it is possible.
\<close>

theorem drain_ends:
  assumes inv: "store_inv (ig_store g)" and reach: "intake_reach digest g s" and sh: "shutting s"
  shows "(\<forall>t. intake_step digest s t \<longrightarrow> shutting t \<and>
      (nk_worker t = nk_worker s \<and> nk_queue t = nk_queue s \<and> nk_lock t = nk_lock s \<or> intake_load t < intake_load s)) \<and>
    (nk_worker s \<noteq> Returned \<longrightarrow> (\<exists>t. intake_step digest s t \<and> intake_load t < intake_load s)) \<and>
    intake_load s \<le> 3 * length (nk_queue s) + 9"
proof -
  have ok: "emits_ok s" using intake_reach_ok [OF inv reach] by (simp add: intake_ok_def)
  have "intake_load s \<le> 3 * length (nk_queue s) + 9"
    by (cases "nk_worker s") (auto simp: intake_load_def phase_load_def)
  then show ?thesis using shutting_step [OF _ ok sh] shutting_progress [OF ok sh] by blast
qed

section \<open>Examples\<close>

text \<open>One event is emitted, the worker takes it and the intake is shut down.\<close>

definition intake_a :: intake where
  "intake_a = (new_intake sample_ingester)\<lparr>nk_accepting := True, nk_worker := Looping\<rparr>"

definition intake_b :: intake where
  "intake_b = emit_send 0 sample_event (emit_enter 0 (emit_begin 0 sample_event False intake_a))"

definition intake_c :: intake where
  "intake_c = take_next (\<lambda>_. ''f'') (IngestRuns 1 1 1000000) intake_b"

definition intake_d :: intake where
  "intake_d = intake_b\<lparr>nk_accepting := False, nk_stop := True\<rparr>"

lemma sample_ingester_inv: "store_inv (ig_store sample_ingester)"
  by (simp add: sample_ingester_def store_inv_empty)

lemma reach_extend: "intake_reach digest g s \<Longrightarrow> intake_step digest s t \<Longrightarrow> intake_reach digest g t"
  unfolding intake_reach_def by (rule rtranclp.rtrancl_into_rtrancl)

lemma intake_b_reached: "intake_reach digest sample_ingester intake_b"
proof -
  let ?b = "emit_begin 0 sample_event False intake_a" and ?e = "emit_enter 0 (emit_begin 0 sample_event False intake_a)"
  have "intake_reach digest sample_ingester (new_intake sample_ingester)" by (simp add: intake_reach_def)
  then have "intake_reach digest sample_ingester intake_a"
    unfolding intake_a_def by (rule reach_extend [OF _ run_manager]) (simp add: new_intake_def)
  then have "intake_reach digest sample_ingester ?b"
    by (rule reach_extend [OF _ begin_emit]) (simp add: intake_a_def new_intake_def)
  then have "intake_reach digest sample_ingester ?e"
    by (rule reach_extend [OF _ enter_emit]) (simp_all add: intake_a_def new_intake_def emit_begin_def in_phase_def)
  moreover have "intake_step digest ?e (emit_send 0 (em_event \<lparr>em_event = sample_event, em_phase = Admitted\<rparr>) ?e)"
    by (rule send_emit) (simp_all add: intake_a_def new_intake_def emit_begin_def emit_enter_def
        defaultEventQueueSize_def)
  ultimately show ?thesis unfolding intake_b_def by (simp add: reach_extend)
qed

lemma intake_b_fields: "nk_queue intake_b = [(0, sample_event)]" "nk_worker intake_b = Looping"
  "nk_lock intake_b = None" "nk_emits intake_b 0 = Some \<lparr>em_event = sample_event, em_phase = Queued\<rparr>"
  "nk_ingester intake_b = sample_ingester" "nk_accepting intake_b"
  by (simp_all add: intake_b_def intake_a_def new_intake_def emit_begin_def emit_enter_def emit_send_def)

lemma intake_d_reached: "intake_reach digest sample_ingester intake_d"
proof -
  have "intake_reach digest sample_ingester (intake_b\<lparr>nk_accepting := False\<rparr>)"
    by (rule reach_extend [OF intake_b_reached begin_shutdown]) (simp add: intake_b_fields)
  then show ?thesis
    unfolding intake_d_def using reach_extend [OF _ stop_ingest, of digest sample_ingester "intake_b\<lparr>nk_accepting := False\<rparr>"]
    by (simp add: intake_b_fields)
qed

theorem durable_ack_witness:
  "\<exists>now1 now2 now3 res ch.
    IngestEvent (\<lambda>_. ''f'') now1 now2 now3 sample_event sample_ingester = Inr (nk_ingester intake_c, res, ch)"
proof -
  have st: "intake_step (\<lambda>_. ''f'') intake_b intake_c"
    unfolding intake_c_def by (rule take_event) (simp_all add: intake_b_fields)
  obtain g' res ch where "IngestEvent (\<lambda>_. ''f'') 1 1 1000000 sample_event sample_ingester = Inr (g', res, ch)"
    using sample_pipeline_ok by blast
  then have "in_phase intake_c 0 (Answered Persisted)"
    by (simp add: intake_c_def take_next_def processEvent_def intake_b_fields)
  moreover have "\<not> in_phase intake_b 0 (Answered Persisted)" by (simp add: in_phase_def intake_b_fields)
  ultimately show ?thesis
    using durable_ack [OF sample_ingester_inv intake_b_reached st, of 0]
    by (simp add: intake_b_fields) blast
qed

theorem drain_ends_witness:
  "\<exists>t. intake_step (\<lambda>_. []) intake_d t \<and> intake_load t < intake_load intake_d"
  using drain_ends [OF sample_ingester_inv intake_d_reached, of "\<lambda>_. []"]
  by (simp add: shutting_def intake_d_def intake_b_fields)

theorem no_emit_left_behind_witness:
  "\<exists>s. intake_reach (\<lambda>_. []) sample_ingester s \<and> nk_queue s = [] \<and> in_phase s 0 (Answered ShuttingDown)"
proof -
  let ?e = "intake_d\<lparr>nk_worker := Entering\<rparr>" and ?f = "drain_check (intake_d\<lparr>nk_worker := Entering\<rparr>)"
  have "intake_reach (\<lambda>_. []) sample_ingester ?e"
    by (rule reach_extend [OF intake_d_reached enter_drain]) (simp_all add: intake_d_def intake_b_fields)
  then have "intake_reach (\<lambda>_. []) sample_ingester ?f"
    by (rule reach_extend [OF _ check_drain]) (simp_all add: intake_d_def intake_b_fields)
  then have "intake_reach (\<lambda>_. []) sample_ingester (?f\<lparr>nk_worker := Sweeping\<rparr>)"
    by (rule reach_extend [OF _ drain_deadline]) (simp add: drain_check_def intake_d_def intake_b_fields)
  then have r: "intake_reach (\<lambda>_. []) sample_ingester (sweep (?f\<lparr>nk_worker := Sweeping\<rparr>))"
    by (rule reach_extend [OF _ sweep_queue]) (simp_all add: drain_check_def intake_d_def intake_b_fields)
  let ?s = "sweep (?f\<lparr>nk_worker := Sweeping\<rparr>)"
  have e: "nk_emits ?s 0 = Some \<lparr>em_event = sample_event, em_phase = Answered ShuttingDown\<rparr>"
    and w: "nk_worker ?s = Returned"
    by (simp_all add: sweep_def failQueued_emits) (simp_all add: drain_check_def intake_d_def intake_b_fields)
  show ?thesis using no_emit_left_behind [OF sample_ingester_inv r w e] r e by (auto simp: in_phase_def)
qed

end
