(* ===== verification/Passwords.thy ===== *)
theory Passwords
  imports Prelude "HOL-Library.Word"
begin

text \<open>
  The password hashing of \<open>internal/storage/sqlite/users.go\<close>: PBKDF2 (RFC 8018) over an HMAC
  that is a parameter, and the hex texts of \<open>encoding/hex\<close> in which salt and key are stored.
  \<open>crypto/hmac\<close> and \<open>crypto/sha256\<close> are the functions of the record \<open>crypto\<close>; the bytes that
  \<open>crypto/rand\<close> delivers are arguments of the operations.
\<close>

unbundle bit_operations_syntax

section \<open>Hex texts\<close>

definition hex_digit :: "nat \<Rightarrow> char" where
  "hex_digit n = char_of (if n < 10 then 48 + n else 87 + n)"

text \<open>\<open>hex.EncodeToString\<close>: two lower-case digits per byte.\<close>

primrec hex_encode :: "string \<Rightarrow> string" where
  "hex_encode [] = []"
| "hex_encode (c # cs) = hex_digit (of_char c div 16) # hex_digit (of_char c mod 16) # hex_encode cs"

definition hex_value :: "char \<Rightarrow> nat option" where
  "hex_value c =
     (if is_digit c then Some (of_char c - 48)
      else if byte_range 97 102 c then Some (of_char c - 87)
      else if byte_range 65 70 c then Some (of_char c - 55)
      else None)"

text \<open>\<open>hex.DecodeString\<close>: an odd length or a byte that is no digit is an error.\<close>

fun hex_decode :: "string \<Rightarrow> string option" where
  "hex_decode [] = Some []"
| "hex_decode [c] = None"
| "hex_decode (c # d # s) =
     (case (hex_value c, hex_value d, hex_decode s) of
        (Some h, Some l, Some bs) \<Rightarrow> Some (char_of (16 * h + l) # bs)
      | _ \<Rightarrow> None)"

lemma of_char_less: "(of_char c :: nat) < 256"
proof -
  have "(of_char c :: nat) = of_char c mod 256" using of_char_mod_256 [where 'a=nat] by simp
  then show ?thesis by (metis mod_less_divisor zero_less_numeral)
qed

lemma of_char_small: "n < 256 \<Longrightarrow> of_char (char_of (n :: nat)) = n"
  by (simp add: of_char_mod_256 take_bit_eq_mod)

lemma hex_value_digit: "n < 16 \<Longrightarrow> hex_value (hex_digit n) = Some n"
  by (cases "n < 10") (auto simp: hex_value_def hex_digit_def is_digit_def byte_range_def of_char_small)

lemma length_hex_encode [simp]: "length (hex_encode s) = 2 * length s"
  by (induction s) auto

lemma hex_roundtrip [simp]: "hex_decode (hex_encode s) = Some s"
proof (induction s)
  case (Cons c s)
  have "(of_char c :: nat) div 16 < 16" using of_char_less [of c] by linarith
  then show ?case using Cons by (simp add: hex_value_digit)
qed simp

lemma hex_encode_inj: "hex_encode s = hex_encode t \<longleftrightarrow> s = t"
  by (metis hex_roundtrip option.inject)

section \<open>PBKDF2\<close>

record crypto =
  cr_hmac :: "string \<Rightarrow> string \<Rightarrow> string"
  cr_sha256 :: "string \<Rightarrow> string"

definition passwordIterations :: nat where
  "passwordIterations = 120000"

definition passwordSaltBytes :: nat where
  "passwordSaltBytes = 16"

definition sha256_size :: nat where
  "sha256_size = 32"

definition xor_byte :: "char \<Rightarrow> char \<Rightarrow> char" where
  "xor_byte a b = char_of ((of_char a :: nat) XOR of_char b)"

text \<open>\<open>for k := range t { t[k] ^= u[k] }\<close>: both are one hash long.\<close>

definition xor_bytes :: "string \<Rightarrow> string \<Rightarrow> string" where
  "xor_bytes t u = map2 xor_byte t u"

text \<open>\<open>block\<close>: the index of the block as four bytes, the highest first.\<close>

definition block_bytes :: "nat \<Rightarrow> string" where
  "block_bytes i =
     [char_of (drop_bit 24 i mod 256), char_of (drop_bit 16 i mod 256), char_of (drop_bit 8 i mod 256),
      char_of (i mod 256)]"

text \<open>The inner loop: \<open>n\<close> further rounds on the pair \<open>(u, t)\<close>.\<close>

fun pbkdf2_rounds :: "(string \<Rightarrow> string) \<Rightarrow> nat \<Rightarrow> string \<Rightarrow> string \<Rightarrow> string" where
  "pbkdf2_rounds prf 0 u t = t"
| "pbkdf2_rounds prf (Suc n) u t = (let u' = prf u in pbkdf2_rounds prf n u' (xor_bytes t u'))"

definition pbkdf2_block :: "crypto \<Rightarrow> string \<Rightarrow> string \<Rightarrow> nat \<Rightarrow> nat \<Rightarrow> string" where
  "pbkdf2_block c password salt iterations i =
     (let u = cr_hmac c password (salt @ block_bytes i)
      in pbkdf2_rounds (cr_hmac c password) (iterations - 1) u u)"

definition pbkdf2Key :: "crypto \<Rightarrow> string \<Rightarrow> string \<Rightarrow> nat \<Rightarrow> nat \<Rightarrow> string" where
  "pbkdf2Key c password salt iterations keyLen =
     (let numBlocks = (keyLen + sha256_size - 1) div sha256_size
      in take keyLen (concat (map (pbkdf2_block c password salt iterations) [1..<numBlocks + 1])))"

definition hashPassword :: "crypto \<Rightarrow> string \<Rightarrow> string \<Rightarrow> string option" where
  "hashPassword c password saltHex =
     (case hex_decode saltHex of
        None \<Rightarrow> None
      | Some salt \<Rightarrow> Some (hex_encode (pbkdf2Key c password salt passwordIterations 32)))"

text \<open>\<open>ConstantTimeCompare\<close> is 1 exactly on equal texts.\<close>

definition verifyPassword :: "crypto \<Rightarrow> string \<Rightarrow> string \<Rightarrow> string \<Rightarrow> bool" where
  "verifyPassword c password saltHex wantHex \<longleftrightarrow> hashPassword c password saltHex = Some wantHex"

text \<open>\<open>passwordFields\<close> on the random salt, \<open>None\<close> when \<open>rand.Read\<close> fails.\<close>

definition passwordFields :: "crypto \<Rightarrow> string option \<Rightarrow> string \<Rightarrow> (string \<times> string) option" where
  "passwordFields c rnd password =
     (case rnd of
        None \<Rightarrow> None
      | Some saltBytes \<Rightarrow>
          let salt = hex_encode saltBytes
          in map_option (\<lambda>hash. (salt, hash)) (hashPassword c password salt))"

section \<open>The reference\<close>

text \<open>
  RFC 8018, section 5.2, as a specification: \<open>U\<^sub>1 = PRF (P, S || INT (i))\<close>,
  \<open>U\<^sub>j = PRF (P, U\<^sub>j\<^sub>-\<^sub>1)\<close>, \<open>T\<^sub>i = U\<^sub>1 xor ... xor U\<^sub>c\<close>.
\<close>

definition rfc_U :: "crypto \<Rightarrow> string \<Rightarrow> string \<Rightarrow> nat \<Rightarrow> nat \<Rightarrow> string" where
  "rfc_U c p s i j = (cr_hmac c p ^^ j) (s @ block_bytes i)"

definition rfc_T :: "crypto \<Rightarrow> string \<Rightarrow> string \<Rightarrow> nat \<Rightarrow> nat \<Rightarrow> string" where
  "rfc_T c p s n i = foldl xor_bytes (rfc_U c p s i 1) (map (rfc_U c p s i) [2..<n + 1])"

lemma rounds_rfc:
  "pbkdf2_rounds f n ((f ^^ k) x) t = foldl xor_bytes t (map (\<lambda>j. (f ^^ j) x) [k + 1..<k + n + 1])"
proof (induction n arbitrary: k t)
  case (Suc n)
  have "[k + 1..<k + Suc n + 1] = (k + 1) # [Suc k + 1..<Suc k + n + 1]"
    by (simp add: upt_conv_Cons)
  with Suc [of "Suc k"] show ?case by (simp add: Let_def)
qed simp

lemma block_rfc:
  assumes "0 < n"
  shows "pbkdf2_block c p s n i = rfc_T c p s n i"
proof -
  let ?f = "cr_hmac c p" and ?x = "s @ block_bytes i"
  have U: "rfc_U c p s i = (\<lambda>j. (?f ^^ j) ?x)" by (simp add: rfc_U_def fun_eq_iff)
  have "1 + 1 = (2::nat)" "1 + (n - 1) + 1 = n + 1" using assms by simp_all
  then have "[1 + 1..<1 + (n - 1) + 1] = [2..<n + 1]" by (simp only:)
  then have "pbkdf2_rounds ?f (n - 1) ((?f ^^ 1) ?x) t = foldl xor_bytes t (map (rfc_U c p s i) [2..<n + 1])" for t
    using rounds_rfc [of ?f "n - 1" 1 ?x t] unfolding U by (simp only:)
  then show ?thesis by (simp add: pbkdf2_block_def rfc_T_def Let_def U)
qed

lemma length_xor_bytes [simp]: "length (xor_bytes t u) = min (length t) (length u)"
  by (simp add: xor_bytes_def)

lemma length_rounds:
  "\<lbrakk>\<And>m. length (f m) = h; length t = h\<rbrakk> \<Longrightarrow> length (pbkdf2_rounds f n u t) = h"
  by (induction n arbitrary: u t) (auto simp: Let_def)

lemma length_block:
  "(\<And>k m. length (cr_hmac c k m) = h) \<Longrightarrow> length (pbkdf2_block c p s n i) = h"
  by (simp add: pbkdf2_block_def Let_def length_rounds)

text \<open>The stored key is the first block of the RFC's derivation, hex encoded.\<close>

lemma hash_rfc:
  assumes "\<And>k m. length (cr_hmac c k m) = sha256_size"
  shows "hashPassword c p (hex_encode salt) = Some (hex_encode (rfc_T c p salt 120000 1))"
proof -
  have "length (rfc_T c p salt 120000 1) = 32"
    using length_block [OF assms, of p salt 120000 1] by (simp add: block_rfc sha256_size_def)
  then show ?thesis
    by (simp add: hashPassword_def pbkdf2Key_def sha256_size_def passwordIterations_def block_rfc)
qed

text \<open>
  C34: for every password, salt, iteration count and key length, \<open>pbkdf2Key\<close> is the derivation of
  RFC 8018 over the same HMAC, and with a 32-byte HMAC the key has the length asked for.
\<close>

theorem pbkdf2_is_rfc8018:
  assumes "0 < n" "\<And>k m. length (cr_hmac c k m) = sha256_size"
  shows "pbkdf2Key c p s n len = take len (concat (map (rfc_T c p s n) [1..<(len + 31) div 32 + 1])) \<and>
    length (pbkdf2Key c p s n len) = len"
proof -
  let ?is = "[1..<(len + 31) div 32 + 1]"
  have key: "pbkdf2Key c p s n len = take len (concat (map (rfc_T c p s n) ?is))"
    using block_rfc [OF assms(1), of c p s]
    by (simp add: pbkdf2Key_def sha256_size_def Let_def add.commute cong: map_cong del: upt_Suc)
  have "length (rfc_T c p s n i) = 32" for i
    using length_block [OF assms(2), of p s n i] block_rfc [OF assms(1)] by (simp add: sha256_size_def)
  then have "length (concat (map (rfc_T c p s n) is)) = 32 * length is" for "is" by (induction "is") auto
  then have "length (concat (map (rfc_T c p s n) ?is)) = 32 * length ?is" .
  moreover have "len \<le> 32 * ((len + 31) div 32)" by presburger
  ultimately show ?thesis unfolding key by (simp del: upt_Suc)
qed

text \<open>A 32-byte keyed function that is easy to follow through all rounds.\<close>

definition pad32 :: "string \<Rightarrow> string" where
  "pad32 s = take 32 (s @ replicate 32 (CHR 0x00))"

definition sample_crypto :: crypto where
  "sample_crypto =
     \<lparr> cr_hmac = (\<lambda>k m. if length m = 32 then replicate 32 (CHR 0x00) else pad32 k), cr_sha256 = pad32 \<rparr>"

lemma length_pad32 [simp]: "length (pad32 s) = 32"
  by (simp add: pad32_def)

lemma sample_hmac: "length (cr_hmac sample_crypto k m) = sha256_size"
  by (simp add: sample_crypto_def sha256_size_def)

theorem pbkdf2_is_rfc8018_witness:
  "pbkdf2Key sample_crypto ''pw'' ''salt'' 2 40 =
     take 40 (concat (map (rfc_T sample_crypto ''pw'' ''salt'' 2) [1..<(40 + 31) div 32 + 1])) \<and>
   length (pbkdf2Key sample_crypto ''pw'' ''salt'' 2 40) = 40"
  by (rule pbkdf2_is_rfc8018) (simp_all only: sample_hmac zero_less_numeral)

lemma xor_zero: "length t = n \<Longrightarrow> xor_bytes t (replicate n (CHR 0x00)) = t"
  by (rule nth_equalityI) (simp_all add: xor_bytes_def xor_byte_def)

lemma sample_rounds:
  "\<lbrakk>length u = 32; length t = 32\<rbrakk> \<Longrightarrow> pbkdf2_rounds (cr_hmac sample_crypto p) n u t = t"
  by (induction n arbitrary: u) (simp_all add: Let_def sample_crypto_def xor_zero)

lemma sample_hash:
  assumes "length salt = 16"
  shows "hashPassword sample_crypto p (hex_encode salt) = Some (hex_encode (pad32 p))"
proof -
  have "cr_hmac sample_crypto p (salt @ block_bytes 1) = pad32 p"
    using assms by (simp add: sample_crypto_def block_bytes_def)
  then have "pbkdf2_block sample_crypto p salt n 1 = pad32 p" for n
    by (simp add: pbkdf2_block_def Let_def sample_rounds)
  then show ?thesis by (simp add: hashPassword_def pbkdf2Key_def sha256_size_def)
qed

end
