(* ===== verification/Accounts.thy ===== *)
theory Accounts
  imports Directory Passwords
begin

text \<open>
  The user side of the SQLite store: accounts, call signs, channel opt-outs, password-reset tokens
  (\<open>internal/storage/sqlite/users.go\<close>) and the audit log (\<open>audit.go\<close>), on top of the tables of
  \<open>Directory\<close>.  The store has one connection, so every statement runs alone; a password salt and
  a token are the bytes of \<open>crypto/rand\<close>, \<open>None\<close> when the generator fails.
\<close>

section \<open>Tables\<close>

record account_row =
  ar_username :: string
  ar_phone :: string
  ar_email :: string
  ar_discord :: string
  ar_admin :: bool
  ar_role :: string
  ar_salt :: string
  ar_hash :: string
  ar_created_ms :: int
  ar_updated_ms :: int

record reset_row =
  rs_user :: int
  rs_hash :: string
  rs_expires_ms :: int
  rs_used_ms :: int
  rs_created_ms :: int

record audit_row =
  au_seq :: int
  au_at_ms :: int
  au_user :: string
  au_action :: string
  au_detail :: string

record accounts =
  ac_users :: "(int \<times> account_row) list"
  ac_seq :: int
  ac_resets :: "reset_row list"
  ac_audit :: "audit_row list"
  ac_audit_seq :: int
  ac_dir :: directory

datatype account_error =
  UserNotFound | UserProtected | UsernameTaken | BadCredentials | PasswordResetInvalid | RandFailed

text \<open>
  The columns that routing reads are the part \<open>dr_users\<close> of the directory; every write of the
  users table goes through \<open>put_users\<close>, which keeps the two in step.
\<close>

definition contact_of :: "account_row \<Rightarrow> contact_row" where
  "contact_of r = \<lparr>ct_email = ar_email r, ct_discord = ar_discord r\<rparr>"

definition put_users :: "(int \<times> account_row) list \<Rightarrow> accounts \<Rightarrow> accounts" where
  "put_users us a =
     a\<lparr>ac_users := us, ac_dir := (ac_dir a)\<lparr>dr_users := map (\<lambda>(i, r). (i, contact_of r)) us\<rparr>\<rparr>"

definition nocase :: "string \<Rightarrow> string \<Rightarrow> bool" where
  "nocase s t \<longleftrightarrow> to_lower s = to_lower t"

text \<open>\<open>WHERE username = ? COLLATE NOCASE\<close>; the column is unique.\<close>

definition row_by_name :: "accounts \<Rightarrow> string \<Rightarrow> (int \<times> account_row) option" where
  "row_by_name a name = find (\<lambda>(i, r). nocase (ar_username r) name) (ac_users a)"

definition row_by_id :: "accounts \<Rightarrow> int \<Rightarrow> account_row option" where
  "row_by_id a i = map_of (ac_users a) i"

section \<open>Reading\<close>

record user_view =
  uv_id :: int
  uv_username :: string
  uv_phone :: string
  uv_email :: string
  uv_discord :: string
  uv_admin :: bool
  uv_role :: string
  uv_callsigns :: "string list"
  uv_created :: time
  uv_updated :: time

text \<open>\<open>scanUser\<close> without, and \<open>attachAPRS\<close> with the call signs.\<close>

definition scanUser :: "int \<times> account_row \<Rightarrow> user_view" where
  "scanUser x =
     (let r = snd x
      in \<lparr> uv_id = fst x, uv_username = ar_username r, uv_phone = ar_phone r, uv_email = ar_email r,
           uv_discord = ar_discord r, uv_admin = ar_admin r, uv_role = ar_role r, uv_callsigns = [],
           uv_created = of_unix_milli (ar_created_ms r), uv_updated = of_unix_milli (ar_updated_ms r) \<rparr>)"

definition user_callsigns :: "accounts \<Rightarrow> int \<Rightarrow> string list" where
  "user_callsigns a i =
     map snd (filter (\<lambda>(u, c). u = i) (sort_key (\<lambda>x. to_lower (snd x)) (dr_callsigns (ac_dir a))))"

definition attachAPRS :: "accounts \<Rightarrow> user_view list \<Rightarrow> user_view list" where
  "attachAPRS a us = map (\<lambda>u. u\<lparr>uv_callsigns := uv_callsigns u @ user_callsigns a (uv_id u)\<rparr>) us"

definition view_user :: "accounts \<Rightarrow> int \<times> account_row \<Rightarrow> user_view" where
  "view_user a x = hd (attachAPRS a [scanUser x])"

definition userByID :: "accounts \<Rightarrow> int \<Rightarrow> user_view option" where
  "userByID a i = map_option (\<lambda>r. view_user a (i, r)) (row_by_id a i)"

definition GetUser :: "accounts \<Rightarrow> int \<Rightarrow> account_error + user_view" where
  "GetUser a i = (case userByID a i of None \<Rightarrow> Inl UserNotFound | Some u \<Rightarrow> Inr u)"

definition GetUserByUsername :: "accounts \<Rightarrow> string \<Rightarrow> account_error + user_view" where
  "GetUserByUsername a name =
     (case row_by_name a name of
        None \<Rightarrow> Inl UserNotFound
      | Some x \<Rightarrow> GetUser a (fst x))"

text \<open>\<open>ORDER BY is_admin DESC, username COLLATE NOCASE\<close>.\<close>

definition users_by_name :: "accounts \<Rightarrow> (int \<times> account_row) list" where
  "users_by_name a = sort_key (\<lambda>x. (\<not> ar_admin (snd x), to_lower (ar_username (snd x)))) (ac_users a)"

definition ListUsers :: "accounts \<Rightarrow> int \<Rightarrow> int \<Rightarrow> user_view list \<times> nat" where
  "ListUsers a page perPage =
     (let pp = (if perPage < 1 then 1 else perPage);
          tot = length (ac_users a);
          p = clamp_page page (page_count tot pp)
      in (attachAPRS a (map scanUser (take (nat pp) (drop (nat ((p - 1) * pp)) (users_by_name a)))), tot))"

definition usernameTaken :: "accounts \<Rightarrow> string \<Rightarrow> int \<Rightarrow> bool" where
  "usernameTaken a name excludeID \<longleftrightarrow>
     list_ex (\<lambda>(i, r). nocase (ar_username r) name \<and> i \<noteq> excludeID) (ac_users a)"

text \<open>The check that most operations make first.\<close>

definition inspect_user :: "accounts \<Rightarrow> int \<Rightarrow> account_error + account_row" where
  "inspect_user a i =
     (case row_by_id a i of
        None \<Rightarrow> Inl UserNotFound
      | Some r \<Rightarrow> if ar_admin r then Inl UserProtected else Inr r)"

definition missingOrProtected :: "accounts \<Rightarrow> int \<Rightarrow> account_error" where
  "missingOrProtected a i = (case row_by_id a i of None \<Rightarrow> UserNotFound | Some r \<Rightarrow> UserProtected)"

section \<open>Writing\<close>

definition set_row :: "int \<Rightarrow> account_row \<Rightarrow> accounts \<Rightarrow> accounts" where
  "set_row i r a = put_users (AList.update i r (ac_users a)) a"

text \<open>\<open>INSERT INTO users\<close> with the next row ID.\<close>

definition insert_user :: "account_row \<Rightarrow> accounts \<Rightarrow> accounts" where
  "insert_user r a = put_users (ac_users a @ [(ac_seq a + 1, r)]) (a\<lparr>ac_seq := ac_seq a + 1\<rparr>)"

text \<open>
  \<open>EnsureAdminUser\<close>: \<open>gap\<close> is how far an insert that hits \<open>ON CONFLICT DO NOTHING\<close> moves the
  \<open>AUTOINCREMENT\<close> counter.  The inserted row has the default role, salt and hash.
\<close>

definition insert_admin :: "time \<Rightarrow> nat \<Rightarrow> string \<Rightarrow> accounts \<Rightarrow> accounts" where
  "insert_admin now gap username a =
     (if row_by_name a username \<noteq> None then a\<lparr>ac_seq := ac_seq a + int gap\<rparr>
      else insert_user
             \<lparr> ar_username = username, ar_phone = [], ar_email = [], ar_discord = [],
               ar_admin = True, ar_role = [], ar_salt = [], ar_hash = [],
               ar_created_ms = unix_milli now, ar_updated_ms = unix_milli now \<rparr> a)"

definition sync_admin ::
    "crypto \<Rightarrow> time \<Rightarrow> string option \<Rightarrow> string \<Rightarrow> string \<Rightarrow> accounts \<Rightarrow> accounts \<times> account_error option" where
  "sync_admin c now rnd username password a =
     (case row_by_name a username of
        None \<Rightarrow> (a, Some UserNotFound)
      | Some (i, r) \<Rightarrow>
          if password \<noteq> [] \<and> \<not> verifyPassword c password (ar_salt r) (ar_hash r)
          then (case passwordFields c rnd password of
                  None \<Rightarrow> (a, Some RandFailed)
                | Some (salt, hash) \<Rightarrow>
                    (if ar_admin r
                     then set_row i (r\<lparr>ar_salt := salt, ar_hash := hash, ar_updated_ms := unix_milli now\<rparr>) a
                     else a, None))
          else (a, None))"

definition EnsureAdminUser ::
    "crypto \<Rightarrow> time \<Rightarrow> nat \<Rightarrow> string option \<Rightarrow> string \<Rightarrow> string \<Rightarrow> accounts \<Rightarrow>
      accounts \<times> account_error option" where
  "EnsureAdminUser c now gap rnd username password a =
     sync_admin c now rnd username password (insert_admin now gap username a)"

text \<open>\<open>INSERT INTO user_groups SELECT ?, id FROM groups\<close>.\<close>

definition subscribe_all :: "int \<Rightarrow> accounts \<Rightarrow> accounts" where
  "subscribe_all i a =
     a\<lparr>ac_dir := (ac_dir a)\<lparr>dr_members := dr_members (ac_dir a) @ map (\<lambda>g. (i, fst g)) (dr_groups (ac_dir a))\<rparr>\<rparr>"

definition regular_row ::
    "time \<Rightarrow> string \<Rightarrow> string \<Rightarrow> string \<Rightarrow> string \<Rightarrow> string \<Rightarrow> string \<times> string \<Rightarrow> account_row" where
  "regular_row now username phone email discord role cred =
     \<lparr> ar_username = username, ar_phone = phone, ar_email = email, ar_discord = discord,
       ar_admin = False, ar_role = role, ar_salt = fst cred, ar_hash = snd cred,
       ar_created_ms = unix_milli now, ar_updated_ms = unix_milli now \<rparr>"

definition CreateUser ::
    "crypto \<Rightarrow> time \<Rightarrow> string option \<Rightarrow> string \<Rightarrow> string \<Rightarrow> string \<Rightarrow> string \<Rightarrow> string \<Rightarrow> string \<Rightarrow>
      accounts \<Rightarrow> account_error + accounts \<times> user_view" where
  "CreateUser c now rnd username phone email discord role password a =
     (if usernameTaken a username 0 then Inl UsernameTaken
      else (case passwordFields c rnd password of
              None \<Rightarrow> Inl RandFailed
            | Some cred \<Rightarrow>
                let i = ac_seq a + 1;
                    r = regular_row now username phone email discord role cred;
                    a' = subscribe_all i (insert_user r a)
                in Inr (a', view_user a' (i, r))))"

text \<open>\<open>afterUpdate\<close> on the row that \<open>UPDATE ... WHERE id = ? AND is_admin = 0\<close> changed, if any.\<close>

definition update_regular ::
    "int \<Rightarrow> (account_row \<Rightarrow> account_row) \<Rightarrow> accounts \<Rightarrow> account_error + accounts \<times> user_view" where
  "update_regular i f a =
     (case row_by_id a i of
        Some r \<Rightarrow>
          if ar_admin r then Inl (missingOrProtected a i)
          else let a' = set_row i (f r) a in Inr (a', view_user a' (i, f r))
      | None \<Rightarrow> Inl (missingOrProtected a i))"

text \<open>The columns that \<open>UpdateUser\<close> sets, with the credentials when a password is given.\<close>

definition edit_row ::
    "time \<Rightarrow> string \<Rightarrow> string \<Rightarrow> string \<Rightarrow> string \<Rightarrow> string \<Rightarrow> (string \<times> string) option \<Rightarrow>
      account_row \<Rightarrow> account_row" where
  "edit_row now username phone email discord role cred r =
     (let s = r\<lparr> ar_username := username, ar_phone := phone, ar_email := email,
                 ar_discord := discord, ar_role := role, ar_updated_ms := unix_milli now \<rparr>
      in case cred of None \<Rightarrow> s | Some (salt, hash) \<Rightarrow> s\<lparr>ar_salt := salt, ar_hash := hash\<rparr>)"

definition UpdateUser ::
    "crypto \<Rightarrow> time \<Rightarrow> string option \<Rightarrow> int \<Rightarrow> string \<Rightarrow> string \<Rightarrow> string \<Rightarrow> string \<Rightarrow> string \<Rightarrow>
      string \<Rightarrow> accounts \<Rightarrow> account_error + accounts \<times> user_view" where
  "UpdateUser c now rnd i username phone email discord role password a =
     (if usernameTaken a username i then Inl UsernameTaken
      else if password \<noteq> []
      then (case passwordFields c rnd password of
              None \<Rightarrow> Inl RandFailed
            | Some cred \<Rightarrow>
                update_regular i (edit_row now username phone email discord role (Some cred)) a)
      else update_regular i (edit_row now username phone email discord role None) a)"

definition Authenticate :: "crypto \<Rightarrow> accounts \<Rightarrow> string \<Rightarrow> string \<Rightarrow> account_error + user_view" where
  "Authenticate c a username password =
     (case row_by_name a username of
        None \<Rightarrow> Inl BadCredentials
      | Some (i, r) \<Rightarrow>
          if ar_admin r \<or> ar_role r = [] \<or> ar_salt r = [] \<or> ar_hash r = [] \<or>
             \<not> verifyPassword c password (ar_salt r) (ar_hash r)
          then Inl BadCredentials
          else GetUser a i)"

text \<open>The foreign keys cascade to memberships, call signs, opt-outs and reset tokens.\<close>

definition DeleteUser :: "int \<Rightarrow> accounts \<Rightarrow> account_error + accounts" where
  "DeleteUser i a =
     (case row_by_id a i of
        Some r \<Rightarrow>
          if ar_admin r then Inl (missingOrProtected a i)
          else let b = put_users (AList.delete i (ac_users a)) a;
                   d = ac_dir b
               in Inr (b\<lparr> ac_resets := filter (\<lambda>x. rs_user x \<noteq> i) (ac_resets b),
                          ac_dir := d\<lparr> dr_members := filter (\<lambda>(u, g). u \<noteq> i) (dr_members d),
                                       dr_callsigns := filter (\<lambda>(u, c). u \<noteq> i) (dr_callsigns d),
                                       dr_optouts := filter (\<lambda>(u, k). u \<noteq> i) (dr_optouts d) \<rparr> \<rparr>)
      | None \<Rightarrow> Inl (missingOrProtected a i))"

text \<open>The loop that normalizes, skips empty entries and keeps the first of each.\<close>

fun clean_from :: "(string \<Rightarrow> string) \<Rightarrow> string list \<Rightarrow> string list \<Rightarrow> string list" where
  "clean_from f seen [] = []"
| "clean_from f seen (x # xs) =
     (let y = f (trim_space x)
      in if y = [] \<or> y \<in> set seen then clean_from f seen xs
         else y # clean_from f (y # seen) xs)"

definition touch :: "time \<Rightarrow> int \<Rightarrow> account_row \<Rightarrow> accounts \<Rightarrow> accounts" where
  "touch now i r a = set_row i (r\<lparr>ar_updated_ms := unix_milli now\<rparr>) a"

definition SetUserAPRS :: "time \<Rightarrow> int \<Rightarrow> string list \<Rightarrow> accounts \<Rightarrow> account_error + accounts" where
  "SetUserAPRS now i callsigns a =
     (case inspect_user a i of
        Inl e \<Rightarrow> Inl e
      | Inr r \<Rightarrow>
          let b = touch now i r a; d = ac_dir b
          in Inr (b\<lparr>ac_dir := d\<lparr>dr_callsigns := filter (\<lambda>(u, c). u \<noteq> i) (dr_callsigns d) @
                                  map (Pair i) (clean_from to_upper [] callsigns)\<rparr>\<rparr>))"

definition UserChannelOptOuts :: "accounts \<Rightarrow> int \<Rightarrow> string set" where
  "UserChannelOptOuts a i = set (map snd (filter (\<lambda>(u, k). u = i) (dr_optouts (ac_dir a))))"

definition SetUserChannelOptOuts :: "time \<Rightarrow> int \<Rightarrow> string list \<Rightarrow> accounts \<Rightarrow> account_error + accounts"
  where
  "SetUserChannelOptOuts now i kinds a =
     (case inspect_user a i of
        Inl e \<Rightarrow> Inl e
      | Inr r \<Rightarrow>
          let b = touch now i r a; d = ac_dir b
          in Inr (b\<lparr>ac_dir := d\<lparr>dr_optouts := filter (\<lambda>(u, k). u \<noteq> i) (dr_optouts d) @
                                  map (Pair i) (clean_from to_lower [] kinds)\<rparr>\<rparr>))"

text \<open>\<open>AllAPRSCallsigns\<close>: \<open>SELECT DISTINCT\<close> on the \<open>NOCASE\<close> column, then the bases.\<close>

definition base_callsign :: "string \<Rightarrow> string" where
  "base_callsign raw = to_upper (case cut_at (CHR ''-'') raw of None \<Rightarrow> raw | Some (b, _) \<Rightarrow> b)"

fun bases_from :: "string list \<Rightarrow> string list \<Rightarrow> string list" where
  "bases_from seen [] = []"
| "bases_from seen (raw # raws) =
     (let b = base_callsign raw
      in if b = [] \<or> b \<in> set seen then bases_from seen raws else b # bases_from (b # seen) raws)"

definition AllAPRSCallsigns :: "accounts \<Rightarrow> string list" where
  "AllAPRSCallsigns a =
     bases_from [] (dedupe_nocase [] (sort_key to_lower (map snd (dr_callsigns (ac_dir a)))))"

definition SetUserPassword ::
    "crypto \<Rightarrow> time \<Rightarrow> string option \<Rightarrow> int \<Rightarrow> string \<Rightarrow> accounts \<Rightarrow> account_error + accounts" where
  "SetUserPassword c now rnd i password a =
     (case inspect_user a i of
        Inl e \<Rightarrow> Inl e
      | Inr r \<Rightarrow>
          (case passwordFields c rnd password of
             None \<Rightarrow> Inl RandFailed
           | Some (salt, hash) \<Rightarrow>
               Inr (set_row i (r\<lparr>ar_salt := salt, ar_hash := hash, ar_updated_ms := unix_milli now\<rparr>) a)))"

section \<open>Reset tokens\<close>

definition tokenHashHex :: "crypto \<Rightarrow> string \<Rightarrow> string" where
  "tokenHashHex c token = hex_encode (cr_sha256 c token)"

definition reset_hour_ms :: int where
  "reset_hour_ms = 3600000"

definition CreatePasswordReset ::
    "crypto \<Rightarrow> time \<Rightarrow> string option \<Rightarrow> int \<Rightarrow> accounts \<Rightarrow> account_error + accounts \<times> string" where
  "CreatePasswordReset c now rnd i a =
     (case inspect_user a i of
        Inl e \<Rightarrow> Inl e
      | Inr r \<Rightarrow>
          (case rnd of
             None \<Rightarrow> Inl RandFailed
           | Some raw \<Rightarrow>
               let token = hex_encode raw;
                   ms = unix_milli now;
                   kept = filter (\<lambda>x. \<not> (rs_user x = i \<or> rs_expires_ms x < ms)) (ac_resets a);
                   x = \<lparr> rs_user = i, rs_hash = tokenHashHex c token, rs_expires_ms = ms + reset_hour_ms,
                         rs_used_ms = 0, rs_created_ms = ms \<rparr>
               in Inr (a\<lparr>ac_resets := kept @ [x]\<rparr>, token)))"

text \<open>The row that \<open>WHERE token_hash = ?\<close> finds, and the check on it.\<close>

definition reset_row_of :: "crypto \<Rightarrow> accounts \<Rightarrow> string \<Rightarrow> reset_row option" where
  "reset_row_of c a token = find (\<lambda>x. rs_hash x = tokenHashHex c token) (ac_resets a)"

definition reset_valid :: "time \<Rightarrow> reset_row \<Rightarrow> bool" where
  "reset_valid now x \<longleftrightarrow> \<not> (rs_used_ms x \<noteq> 0 \<or> rs_expires_ms x < unix_milli now)"

text \<open>
  \<open>ConsumePasswordReset\<close> is two statements: the lookup with its check, and the \<open>UPDATE\<close>, which
  names the hash only.
\<close>

definition consume_lookup :: "crypto \<Rightarrow> time \<Rightarrow> accounts \<Rightarrow> string \<Rightarrow> account_error + reset_row" where
  "consume_lookup c now a token =
     (case reset_row_of c a token of
        None \<Rightarrow> Inl PasswordResetInvalid
      | Some x \<Rightarrow> if reset_valid now x then Inr x else Inl PasswordResetInvalid)"

definition consume_mark :: "time \<Rightarrow> string \<Rightarrow> accounts \<Rightarrow> accounts" where
  "consume_mark now hash a =
     a\<lparr>ac_resets := map (\<lambda>x. if rs_hash x = hash then x\<lparr>rs_used_ms := unix_milli now\<rparr> else x) (ac_resets a)\<rparr>"

definition ConsumePasswordReset ::
    "crypto \<Rightarrow> time \<Rightarrow> string \<Rightarrow> accounts \<Rightarrow> account_error + accounts \<times> int" where
  "ConsumePasswordReset c now token a =
     (case consume_lookup c now a token of
        Inl e \<Rightarrow> Inl e
      | Inr x \<Rightarrow> Inr (consume_mark now (rs_hash x) a, rs_user x))"

definition PeekPasswordReset :: "crypto \<Rightarrow> time \<Rightarrow> accounts \<Rightarrow> string \<Rightarrow> account_error option" where
  "PeekPasswordReset c now a token =
     (case reset_row_of c a token of
        None \<Rightarrow> Some PasswordResetInvalid
      | Some x \<Rightarrow> if reset_valid now x then None else Some PasswordResetInvalid)"

section \<open>Audit log\<close>

definition AuditRetentionEntries :: int where
  "AuditRetentionEntries = 10000"

definition RecordAudit :: "string \<Rightarrow> string \<Rightarrow> string \<Rightarrow> time \<Rightarrow> accounts \<Rightarrow> accounts" where
  "RecordAudit user action detail now a =
     (let n = ac_audit_seq a + 1;
          x = \<lparr> au_seq = n, au_at_ms = unix_milli now, au_user = user, au_action = action, au_detail = detail \<rparr>;
          xs = ac_audit a @ [x];
          top = Max (set (map au_seq xs))
      in a\<lparr>ac_audit_seq := n, ac_audit := filter (\<lambda>y. \<not> au_seq y \<le> top - AuditRetentionEntries) xs\<rparr>)"

definition ListAudit :: "accounts \<Rightarrow> int \<Rightarrow> int \<Rightarrow> audit_row list" where
  "ListAudit a after limit =
     (let xs = sort_key au_seq (filter (\<lambda>x. au_seq x > after) (ac_audit a))
      in if limit > 0 then take (nat limit) xs else xs)"

end
