(* ===== verification/Account_Laws.thy ===== *)
theory Account_Laws
  imports Accounts
begin

text \<open>
  The invariant of the user tables and its preservation by every operation of the store, the
  operations as one step function, and what holds along every history of them: the admin row,
  references, tokens and the audit log.
\<close>

section \<open>The invariant\<close>

definition users_ok :: "accounts \<Rightarrow> bool" where
  "users_ok a \<longleftrightarrow>
     0 \<le> ac_seq a \<and> table_ok (ac_users a) \<and>
     distinct (map (\<lambda>x. to_lower (ar_username (snd x))) (ac_users a)) \<and>
     (\<forall>x\<in>set (ac_users a). 0 < fst x \<and> fst x \<le> ac_seq a) \<and>
     dr_users (ac_dir a) = map (\<lambda>(i, r). (i, contact_of r)) (ac_users a)"

definition groups_ok :: "directory \<Rightarrow> bool" where
  "groups_ok d \<longleftrightarrow>
     0 \<le> dr_group_seq d \<and> table_ok (dr_groups d) \<and>
     distinct (map (\<lambda>x. to_lower (gw_name (snd x))) (dr_groups d)) \<and>
     (\<forall>x\<in>set (dr_groups d). 0 < fst x \<and> fst x \<le> dr_group_seq d)"

definition user_ids :: "accounts \<Rightarrow> int set" where
  "user_ids a = fst ` set (ac_users a)"

definition group_ids :: "directory \<Rightarrow> int set" where
  "group_ids d = fst ` set (dr_groups d)"

definition refs_ok :: "accounts \<Rightarrow> bool" where
  "refs_ok a \<longleftrightarrow>
     (let d = ac_dir a
      in distinct (dr_members d) \<and> set (dr_members d) \<subseteq> user_ids a \<times> group_ids d \<and>
         distinct (dr_callsigns d) \<and> fst ` set (dr_callsigns d) \<subseteq> user_ids a \<and>
         distinct (dr_optouts d) \<and> fst ` set (dr_optouts d) \<subseteq> user_ids a \<and>
         distinct (map rs_user (ac_resets a)) \<and> rs_user ` set (ac_resets a) \<subseteq> user_ids a)"

definition audit_ok :: "accounts \<Rightarrow> bool" where
  "audit_ok a \<longleftrightarrow>
     sorted_wrt (<) (map au_seq (ac_audit a)) \<and>
     (\<forall>x\<in>set (ac_audit a). ac_audit_seq a - AuditRetentionEntries < au_seq x \<and> au_seq x \<le> ac_audit_seq a)"

definition accounts_ok :: "accounts \<Rightarrow> bool" where
  "accounts_ok a \<longleftrightarrow> users_ok a \<and> groups_ok (ac_dir a) \<and> refs_ok a \<and> audit_ok a"

lemmas accounts_ok_defs = accounts_ok_def users_ok_def groups_ok_def refs_ok_def audit_ok_def
  Let_def user_ids_def group_ids_def

section \<open>Rows\<close>

lemma put_users_simps [simp]:
  "ac_users (put_users us a) = us" "ac_seq (put_users us a) = ac_seq a"
  "ac_resets (put_users us a) = ac_resets a" "ac_audit (put_users us a) = ac_audit a"
  "ac_audit_seq (put_users us a) = ac_audit_seq a"
  "ac_dir (put_users us a) = (ac_dir a)\<lparr>dr_users := map (\<lambda>(i, r). (i, contact_of r)) us\<rparr>"
  by (simp_all add: put_users_def)

lemma set_row_simps [simp]:
  "ac_users (set_row i r a) = AList.update i r (ac_users a)" "ac_seq (set_row i r a) = ac_seq a"
  "ac_resets (set_row i r a) = ac_resets a" "ac_audit (set_row i r a) = ac_audit a"
  "ac_audit_seq (set_row i r a) = ac_audit_seq a"
  "ac_dir (set_row i r a) =
     (ac_dir a)\<lparr>dr_users := map (\<lambda>(i, r). (i, contact_of r)) (AList.update i r (ac_users a))\<rparr>"
  by (simp_all add: set_row_def)

lemma row_by_id_in: "row_by_id a i = Some r \<Longrightarrow> i \<in> user_ids a"
  by (force simp: row_by_id_def user_ids_def dest: map_of_SomeD)

lemma user_ids_set_row [simp]:
  "row_by_id a i = Some r \<Longrightarrow> user_ids (set_row i s a) = user_ids a"
  using row_by_id_in [of a i r] by (auto simp: user_ids_def dom_update)

lemma row_by_id_set_row [simp]:
  "row_by_id (set_row i s a) k = (if k = i then Some s else row_by_id a k)"
  by (simp add: row_by_id_def)

text \<open>A unique column along an update of one row.\<close>

lemma set_update_iff:
  "table_ok t \<Longrightarrow> (k, v) \<in> set (AList.update i s t) \<longleftrightarrow> k = i \<and> v = s \<or> k \<noteq> i \<and> (k, v) \<in> set t"
  using table_lookup_iff [of "AList.update i s t" k v] table_lookup_iff [of t k v]
  by (auto split: if_splits)

lemma distinct_column:
  assumes t: "table_ok t"
  shows "distinct (map (\<lambda>x. f (snd x)) t) \<longleftrightarrow>
    (\<forall>k v l w. (k, v) \<in> set t \<longrightarrow> (l, w) \<in> set t \<longrightarrow> f v = f w \<longrightarrow> k = l)"
proof -
  have "distinct t" using t by (auto simp: table_ok_def distinct_map)
  moreover have "inj_on (\<lambda>x. f (snd x)) (set t) \<longleftrightarrow>
      (\<forall>k v l w. (k, v) \<in> set t \<longrightarrow> (l, w) \<in> set t \<longrightarrow> f v = f w \<longrightarrow> k = l)"
  proof
    assume R: "\<forall>k v l w. (k, v) \<in> set t \<longrightarrow> (l, w) \<in> set t \<longrightarrow> f v = f w \<longrightarrow> k = l"
    have "x = y" if "x \<in> set t" "y \<in> set t" "f (snd x) = f (snd y)" for x y
    proof -
      have "fst x = fst y" using R that by (cases x, cases y) auto
      moreover have "map_of t (fst x) = Some (snd x)" "map_of t (fst y) = Some (snd y)"
        using that t by (simp_all add: table_lookup_iff)
      ultimately show ?thesis by (simp add: prod_eq_iff)
    qed
    then show "inj_on (\<lambda>x. f (snd x)) (set t)" by (simp add: inj_on_def)
  next
    assume I: "inj_on (\<lambda>x. f (snd x)) (set t)"
    show "\<forall>k v l w. (k, v) \<in> set t \<longrightarrow> (l, w) \<in> set t \<longrightarrow> f v = f w \<longrightarrow> k = l"
      using inj_onD [OF I] by (metis prod.inject snd_conv)
  qed
  ultimately show ?thesis by (simp add: distinct_map)
qed

lemma distinct_columnD:
  "\<lbrakk>table_ok t; distinct (map (\<lambda>x. f (snd x)) t); (k, v) \<in> set t; (l, w) \<in> set t; f v = f w\<rbrakk> \<Longrightarrow> k = l"
  by (simp only: distinct_column)

lemma distinct_update_key:
  assumes t: "table_ok t" and d: "distinct (map (\<lambda>x. f (snd x)) t)"
    and new: "\<And>k v. (k, v) \<in> set t \<Longrightarrow> f v = f s \<Longrightarrow> k = i"
  shows "distinct (map (\<lambda>x. f (snd x)) (AList.update i s t))"
  unfolding distinct_column [OF table_ok_update [OF t]] set_update_iff [OF t]
proof (intro allI impI)
  fix k v l w
  assume A: "k = i \<and> v = s \<or> k \<noteq> i \<and> (k, v) \<in> set t" "l = i \<and> w = s \<or> l \<noteq> i \<and> (l, w) \<in> set t"
    "f v = f w"
  show "k = l"
  proof (cases "k = i"; cases "l = i")
    assume "k = i" "l \<noteq> i"
    with A new [of l w] show ?thesis by simp
  next
    assume "k \<noteq> i" "l = i"
    with A new [of k v] show ?thesis by simp
  next
    assume "k \<noteq> i" "l \<noteq> i"
    with A distinct_columnD [OF t d, of k v l w] show ?thesis by simp
  qed simp
qed

lemma usernameTaken_iff:
  "usernameTaken a name k \<longleftrightarrow> (\<exists>(i, r)\<in>set (ac_users a). nocase (ar_username r) name \<and> i \<noteq> k)"
  by (force simp: usernameTaken_def list_ex_iff)

lemma set_update_subset: "set (AList.update i s t) \<subseteq> insert (i, s) (set t)"
  by (induction t) auto

lemma users_ok_set_row:
  assumes ok: "users_ok a" and i: "row_by_id a i = Some r"
    and free: "nocase (ar_username s) (ar_username r) \<or> \<not> usernameTaken a (ar_username s) i"
  shows "users_ok (set_row i s a)"
proof -
  have t: "table_ok (ac_users a)" and d: "distinct (map (\<lambda>x. to_lower (ar_username (snd x))) (ac_users a))"
    and b: "0 \<le> ac_seq a" "\<forall>x\<in>set (ac_users a). 0 < fst x \<and> fst x \<le> ac_seq a"
    using ok by (auto simp: users_ok_def)
  have ir: "(i, r) \<in> set (ac_users a)" using i t by (simp add: row_by_id_def table_lookup_iff)
  have other: "k = i" if "(k, v) \<in> set (ac_users a)" "to_lower (ar_username v) = to_lower (ar_username s)" for k v
  proof (cases "nocase (ar_username s) (ar_username r)")
    case True
    with that have "to_lower (ar_username v) = to_lower (ar_username r)" by (simp add: nocase_def)
    with d that(1) ir have "(k, v) = (i, r)" by (force simp: distinct_map inj_on_def)
    then show ?thesis by simp
  next
    case False
    with free that show ?thesis by (force simp: usernameTaken_iff nocase_def)
  qed
  have "distinct (map (\<lambda>x. to_lower (ar_username (snd x))) (AList.update i s (ac_users a)))"
    using distinct_update_key [of "ac_users a" "\<lambda>r. to_lower (ar_username r)" s i] t d other by simp
  moreover have "\<forall>x\<in>set (AList.update i s (ac_users a)). 0 < fst x \<and> fst x \<le> ac_seq a"
    using set_update_subset [of i s "ac_users a"] b ir by fastforce
  ultimately show ?thesis using t b(1) by (simp add: users_ok_def)
qed

lemma refs_ok_set_row: "refs_ok a \<Longrightarrow> row_by_id a i = Some r \<Longrightarrow> refs_ok (set_row i s a)"
  by (simp add: refs_ok_def group_ids_def Let_def)

lemma accounts_ok_set_row:
  assumes "accounts_ok a" "row_by_id a i = Some r"
    and "nocase (ar_username s) (ar_username r) \<or> \<not> usernameTaken a (ar_username s) i"
  shows "accounts_ok (set_row i s a)"
  using assms users_ok_set_row [OF _ assms(2,3)] refs_ok_set_row [OF _ assms(2), of s]
  by (simp add: accounts_ok_def groups_ok_def audit_ok_def)

lemma nocase_refl [simp]: "nocase s s"
  by (simp add: nocase_def)

lemma accounts_ok_touch:
  "accounts_ok a \<Longrightarrow> row_by_id a i = Some r \<Longrightarrow> accounts_ok (touch now i r a)"
  unfolding touch_def by (rule accounts_ok_set_row) auto

lemma inspect_user_Inr:
  "inspect_user a i = Inr r \<longleftrightarrow> row_by_id a i = Some r \<and> \<not> ar_admin r"
  by (auto simp: inspect_user_def split: option.splits)

text \<open>The row that an insert appends.\<close>

lemma insert_user_simps [simp]:
  "ac_users (insert_user r a) = ac_users a @ [(ac_seq a + 1, r)]"
  "ac_seq (insert_user r a) = ac_seq a + 1" "ac_resets (insert_user r a) = ac_resets a"
  "ac_audit (insert_user r a) = ac_audit a" "ac_audit_seq (insert_user r a) = ac_audit_seq a"
  "ac_dir (insert_user r a) =
     (ac_dir a)\<lparr>dr_users := map (\<lambda>(i, r). (i, contact_of r)) (ac_users a @ [(ac_seq a + 1, r)])\<rparr>"
  by (simp_all add: insert_user_def)

lemma user_ids_insert_user [simp]: "user_ids (insert_user r a) = insert (ac_seq a + 1) (user_ids a)"
  by (auto simp: user_ids_def)

lemma fresh_id: "users_ok a \<Longrightarrow> ac_seq a + 1 \<notin> user_ids a"
  by (force simp: users_ok_def user_ids_def)

lemma users_ok_seq: "users_ok a \<Longrightarrow> ac_seq a \<le> n \<Longrightarrow> users_ok (a\<lparr>ac_seq := n\<rparr>)"
  by (force simp: users_ok_def)

lemma not_taken_iff:
  assumes "users_ok a"
  shows "\<not> usernameTaken a name 0 \<longleftrightarrow>
    to_lower name \<notin> (\<lambda>x. to_lower (ar_username (snd x))) ` set (ac_users a)"
proof -
  have "fst x \<noteq> 0" if "x \<in> set (ac_users a)" for x
    using assms that by (auto simp: users_ok_def)
  then have "usernameTaken a name 0 \<longleftrightarrow> (\<exists>x\<in>set (ac_users a). to_lower (ar_username (snd x)) = to_lower name)"
    unfolding usernameTaken_iff nocase_def by (force simp: case_prod_beta)
  then show ?thesis by (auto simp: image_iff eq_commute)
qed

lemma users_ok_insert_user:
  assumes ok: "users_ok a" and new: "\<not> usernameTaken a (ar_username r) 0"
  shows "users_ok (insert_user r a)"
proof -
  have "table_ok (ac_users a @ [(ac_seq a + 1, r)])"
    using ok fresh_id [OF ok] by (simp add: users_ok_def table_ok_def user_ids_def)
  moreover have "\<forall>x\<in>set (ac_users a). 0 < fst x \<and> fst x \<le> ac_seq a + 1"
    using ok by (force simp: users_ok_def)
  ultimately show ?thesis
    using ok new not_taken_iff [OF ok] by (simp add: users_ok_def)
qed

lemma refs_ok_mono:
  assumes "refs_ok a" "user_ids a \<subseteq> user_ids b" "ac_resets b = ac_resets a"
    and "dr_members (ac_dir b) = dr_members (ac_dir a)" "dr_groups (ac_dir b) = dr_groups (ac_dir a)"
    and "dr_callsigns (ac_dir b) = dr_callsigns (ac_dir a)" "dr_optouts (ac_dir b) = dr_optouts (ac_dir a)"
  shows "refs_ok b"
proof -
  have "user_ids a \<times> group_ids (ac_dir a) \<subseteq> user_ids b \<times> group_ids (ac_dir a)"
    using assms(2) by blast
  note up = order_trans [OF _ assms(2)] order_trans [OF _ this]
  have "group_ids (ac_dir b) = group_ids (ac_dir a)" by (simp add: group_ids_def assms(5))
  then show ?thesis
    using assms(1) unfolding refs_ok_def Let_def assms(3,4,6,7) by (simp add: up)
qed

lemma accounts_ok_insert_user:
  assumes "accounts_ok a" "\<not> usernameTaken a (ar_username r) 0"
  shows "accounts_ok (insert_user r a)"
proof -
  have "refs_ok (insert_user r a)"
    by (rule refs_ok_mono [of a]) (use assms(1) in \<open>auto simp: accounts_ok_def\<close>)
  then show ?thesis
    using assms users_ok_insert_user [OF _ assms(2)]
    by (simp add: accounts_ok_def groups_ok_def audit_ok_def)
qed

lemma find_append_one:
  "find P (xs @ [y]) = (case find P xs of Some x \<Rightarrow> Some x | None \<Rightarrow> if P y then Some y else None)"
  by (induction xs) auto

lemma row_by_name_Some:
  assumes "row_by_name a name = Some (i, r)"
  shows "(i, r) \<in> set (ac_users a)" "nocase (ar_username r) name"
  using assms by (auto simp: row_by_name_def find_Some_iff in_set_conv_nth)

lemma row_by_name_None: "row_by_name a name = None \<longleftrightarrow> (\<forall>(i, r)\<in>set (ac_users a). \<not> nocase (ar_username r) name)"
  by (auto simp: row_by_name_def find_None_iff)

lemma row_by_name_id:
  "users_ok a \<Longrightarrow> row_by_name a name = Some (i, r) \<Longrightarrow> row_by_id a i = Some r"
  by (drule row_by_name_Some(1)) (simp add: users_ok_def row_by_id_def table_lookup_iff)

text \<open>A name finds the one row that carries it.\<close>

lemma row_by_name_iff:
  assumes "users_ok a"
  shows "row_by_name a name = Some (i, r) \<longleftrightarrow> row_by_id a i = Some r \<and> nocase (ar_username r) name"
proof
  assume "row_by_id a i = Some r \<and> nocase (ar_username r) name"
  then have ir: "(i, r) \<in> set (ac_users a)" and n: "nocase (ar_username r) name"
    using assms by (auto simp: users_ok_def row_by_id_def table_lookup_iff)
  then obtain j s where js: "row_by_name a name = Some (j, s)"
    using row_by_name_None [of a name] by (cases "row_by_name a name") fastforce+
  have "j = i"
    using assms distinct_columnD [of "ac_users a" "\<lambda>r. to_lower (ar_username r)" j s i r]
      row_by_name_Some [OF js] ir n by (simp add: users_ok_def nocase_def)
  moreover have "s = r"
    using row_by_name_id [OF assms js] row_by_name_Some(1) [OF js] ir assms calculation
    by (simp add: users_ok_def row_by_id_def table_lookup_iff [symmetric])
  ultimately show "row_by_name a name = Some (i, r)" using js by simp
qed (simp add: row_by_name_id [OF assms] row_by_name_Some(2))

section \<open>Every operation keeps the invariant\<close>

lemma passwordFields_SomeD:
  "passwordFields c rnd p = Some (salt, hash) \<Longrightarrow>
    \<exists>raw. rnd = Some raw \<and> salt = hex_encode raw \<and> hashPassword c p salt = Some hash"
  by (auto simp: passwordFields_def Let_def split: option.splits)

lemma sync_admin_ok:
  assumes ok: "accounts_ok a"
  shows "accounts_ok (fst (sync_admin c now rnd name p a))"
proof (cases "row_by_name a name")
  case (Some x)
  obtain i r where x: "x = (i, r)" by (cases x)
  have "row_by_id a i = Some r" using row_by_name_id Some x ok by (simp add: accounts_ok_def)
  then have "accounts_ok (set_row i (r\<lparr>ar_salt := s, ar_hash := h, ar_updated_ms := t\<rparr>) a)" for s h t
    using ok by (intro accounts_ok_set_row) auto
  with Some x ok show ?thesis by (simp add: sync_admin_def split: option.split prod.split)
qed (simp add: sync_admin_def ok)

lemma EnsureAdminUser_ok: "accounts_ok a \<Longrightarrow> accounts_ok (fst (EnsureAdminUser c now gap rnd name p a))"
proof -
  assume ok: "accounts_ok a"
  have "accounts_ok (insert_admin now gap name a)"
  proof (cases "row_by_name a name")
    case None
    then have "\<not> usernameTaken a name 0"
      by (fastforce simp: row_by_name_None usernameTaken_iff)
    then show ?thesis
      using accounts_ok_insert_user [OF ok] None unfolding insert_admin_def Let_def
      by (simp add: insert_user_def)
  next
    case (Some x)
    have "accounts_ok (a\<lparr>ac_seq := ac_seq a + int gap\<rparr>)"
      using ok users_ok_seq [of a "ac_seq a + int gap"]
      by (simp add: accounts_ok_def refs_ok_def audit_ok_def user_ids_def)
    with Some show ?thesis by (simp add: insert_admin_def)
  qed
  then show ?thesis
    unfolding EnsureAdminUser_def by (rule sync_admin_ok)
qed

lemma accounts_ok_subscribe:
  assumes ok: "accounts_ok a" and i: "i \<in> user_ids a" and new: "\<And>g. (i, g) \<notin> set (dr_members (ac_dir a))"
  shows "accounts_ok (subscribe_all i a)"
proof -
  have "distinct (map fst (dr_groups (ac_dir a)))"
    using ok by (simp add: accounts_ok_def groups_ok_def table_ok_def)
  then have "distinct (map (\<lambda>g. (i, fst g)) (dr_groups (ac_dir a)))"
    by (simp add: distinct_map inj_on_def)
  moreover have "set (map (\<lambda>g. (i, fst g)) (dr_groups (ac_dir a))) \<subseteq> user_ids a \<times> group_ids (ac_dir a)"
    using i by (auto simp: group_ids_def)
  moreover have "user_ids (subscribe_all i a) = user_ids a" "group_ids (ac_dir (subscribe_all i a)) = group_ids (ac_dir a)"
    by (simp_all add: subscribe_all_def user_ids_def group_ids_def)
  ultimately have "refs_ok (subscribe_all i a)"
    using ok new by (auto simp: accounts_ok_def refs_ok_def Let_def subscribe_all_def)
  then show ?thesis
    using ok by (simp add: accounts_ok_def users_ok_def groups_ok_def audit_ok_def subscribe_all_def)
qed

lemma regular_row_simps [simp]:
  "ar_username (regular_row now n ph em di ro cr) = n" "ar_role (regular_row now n ph em di ro cr) = ro"
  "ar_admin (regular_row now n ph em di ro cr) \<longleftrightarrow> False"
  "ar_salt (regular_row now n ph em di ro cr) = fst cr" "ar_hash (regular_row now n ph em di ro cr) = snd cr"
  by (simp_all add: regular_row_def)

lemma edit_row_simps [simp]:
  "ar_username (edit_row now n ph em di ro cr r) = n" "ar_role (edit_row now n ph em di ro cr r) = ro"
  "ar_admin (edit_row now n ph em di ro cr r) = ar_admin r"
  "ar_salt (edit_row now n ph em di ro cr r) = (case cr of None \<Rightarrow> ar_salt r | Some x \<Rightarrow> fst x)"
  "ar_hash (edit_row now n ph em di ro cr r) = (case cr of None \<Rightarrow> ar_hash r | Some x \<Rightarrow> snd x)"
  by (simp_all add: edit_row_def Let_def split: option.splits prod.splits)

lemma CreateUser_Inr:
  "CreateUser c now rnd name phone email discord role p a = Inr (a', u) \<longleftrightarrow>
    \<not> usernameTaken a name 0 \<and>
    (\<exists>cred. passwordFields c rnd p = Some cred \<and>
      a' = subscribe_all (ac_seq a + 1) (insert_user (regular_row now name phone email discord role cred) a) \<and>
      u = view_user a' (ac_seq a + 1, regular_row now name phone email discord role cred))"
  by (auto simp: CreateUser_def Let_def split: option.splits)

lemma CreateUser_ok:
  assumes ok: "accounts_ok a" and cr: "CreateUser c now rnd name phone email discord role p a = Inr (a', u)"
  shows "accounts_ok a'"
proof -
  obtain r where new: "\<not> usernameTaken a (ar_username r) 0" and a': "a' = subscribe_all (ac_seq a + 1) (insert_user r a)"
    using cr unfolding CreateUser_Inr by (metis regular_row_simps(1))
  have "accounts_ok (insert_user r a)" using ok new by (rule accounts_ok_insert_user)
  moreover have "(ac_seq a + 1, g) \<notin> set (dr_members (ac_dir a))" for g
    using ok fresh_id [of a] by (auto simp: accounts_ok_def refs_ok_def Let_def)
  ultimately show ?thesis unfolding a' by (intro accounts_ok_subscribe) auto
qed

lemma update_regular_Inr:
  "update_regular i f a = Inr (a', u) \<longleftrightarrow>
    (\<exists>r. row_by_id a i = Some r \<and> \<not> ar_admin r \<and> a' = set_row i (f r) a \<and> u = view_user a' (i, f r))"
  by (auto simp: update_regular_def Let_def split: option.splits if_splits)

lemma UpdateUser_Inr:
  "UpdateUser c now rnd i name phone email discord role p a = Inr (a', u) \<longleftrightarrow>
    \<not> usernameTaken a name i \<and>
    (\<exists>r cred. row_by_id a i = Some r \<and> \<not> ar_admin r \<and>
      (if p = [] then cred = None else cred \<noteq> None \<and> passwordFields c rnd p = cred) \<and>
      a' = set_row i (edit_row now name phone email discord role cred r) a \<and>
      u = view_user a' (i, edit_row now name phone email discord role cred r))"
  by (auto simp: UpdateUser_def update_regular_Inr split: option.splits)

lemma UpdateUser_ok:
  "accounts_ok a \<Longrightarrow> UpdateUser c now rnd i name phone email discord role p a = Inr (a', u) \<Longrightarrow> accounts_ok a'"
  unfolding UpdateUser_Inr by (elim exE conjE) (simp add: accounts_ok_set_row)

lemma DeleteUser_Inr:
  "DeleteUser i a = Inr a' \<longleftrightarrow> (\<exists>r. row_by_id a i = Some r \<and> \<not> ar_admin r \<and>
    ac_users a' = AList.delete i (ac_users a) \<and> ac_seq a' = ac_seq a \<and>
    ac_resets a' = filter (\<lambda>x. rs_user x \<noteq> i) (ac_resets a) \<and>
    ac_audit a' = ac_audit a \<and> ac_audit_seq a' = ac_audit_seq a \<and>
    ac_dir a' = (ac_dir a)\<lparr> dr_users := map (\<lambda>(i, r). (i, contact_of r)) (AList.delete i (ac_users a)),
      dr_members := filter (\<lambda>(u, g). u \<noteq> i) (dr_members (ac_dir a)),
      dr_callsigns := filter (\<lambda>(u, c). u \<noteq> i) (dr_callsigns (ac_dir a)),
      dr_optouts := filter (\<lambda>(u, k). u \<noteq> i) (dr_optouts (ac_dir a)) \<rparr>)"
proof -
  have eq: "(x :: accounts) = y \<longleftrightarrow> ac_users x = ac_users y \<and> ac_seq x = ac_seq y \<and>
      ac_resets x = ac_resets y \<and> ac_audit x = ac_audit y \<and> ac_audit_seq x = ac_audit_seq y \<and>
      ac_dir x = ac_dir y" for x y
    by auto
  show ?thesis unfolding DeleteUser_def Let_def eq
    by (auto split: option.splits)
qed

lemma DeleteUser_ok:
  assumes ok: "accounts_ok a" and del: "DeleteUser i a = Inr a'"
  shows "accounts_ok a'"
proof -
  note D = del [unfolded DeleteUser_Inr]
  from D have us: "ac_users a' = AList.delete i (ac_users a)" by (elim exE conjE)
  have f: "AList.delete i t = filter (\<lambda>x. fst x \<noteq> i) t" for t :: "(int \<times> account_row) list"
    by (induction t) auto
  have ids: "user_ids a' = user_ids a - {i}" by (auto simp: user_ids_def us f)
  have "ac_seq a' = ac_seq a" "dr_users (ac_dir a') = map (\<lambda>(i, r). (i, contact_of r)) (ac_users a')"
    using D by auto
  then have "users_ok a'"
    using ok unfolding accounts_ok_def users_ok_def us f
    by (simp add: distinct_map_filter)
  moreover have "groups_ok (ac_dir a')" "audit_ok a'"
    using D ok by (elim exE conjE; simp add: accounts_ok_def groups_ok_def audit_ok_def)+
  moreover have "refs_ok a'"
  proof -
    let ?f = "\<lambda>(u, k). u \<noteq> i"
    have E: "group_ids (ac_dir a') = group_ids (ac_dir a)"
      "dr_members (ac_dir a') = filter ?f (dr_members (ac_dir a))"
      "dr_callsigns (ac_dir a') = filter ?f (dr_callsigns (ac_dir a))"
      "dr_optouts (ac_dir a') = filter ?f (dr_optouts (ac_dir a))"
      "ac_resets a' = filter (\<lambda>x. rs_user x \<noteq> i) (ac_resets a)"
      using D by (auto simp: group_ids_def)
    have R: "refs_ok a" using ok by (simp add: accounts_ok_def)
    show ?thesis
      unfolding refs_ok_def Let_def ids E
      using R unfolding refs_ok_def Let_def
      by (elim conjE, intro conjI) (auto simp: distinct_map_filter)
  qed
  ultimately show ?thesis by (simp add: accounts_ok_def)
qed

text \<open>The loop that cleans a list of texts: no empty entry, none twice, and every input is there.\<close>

lemma clean_from_set:
  "set (clean_from f seen xs) = (\<lambda>x. f (trim_space x)) ` set xs - insert [] (set seen)"
  by (induction f seen xs rule: clean_from.induct) (auto simp: Let_def)

lemma clean_from_distinct: "distinct (clean_from f seen xs)"
  by (induction f seen xs rule: clean_from.induct) (auto simp: Let_def clean_from_set)

lemma replace_rows:
  assumes "distinct xs" "fst ` set xs \<subseteq> A" "i \<in> A" "distinct ys"
  shows "distinct (filter (\<lambda>(u, k). u \<noteq> i) xs @ map (Pair i) ys)"
    "fst ` set (filter (\<lambda>(u, k). u \<noteq> i) xs @ map (Pair i) ys) \<subseteq> A"
  using assms by (auto simp: distinct_map inj_on_def)

lemma SetUserAPRS_Inr:
  "SetUserAPRS now i cs a = Inr a' \<longleftrightarrow> (\<exists>r. row_by_id a i = Some r \<and> \<not> ar_admin r \<and>
    a' = (touch now i r a)\<lparr>ac_dir := (ac_dir (touch now i r a))\<lparr>dr_callsigns :=
      filter (\<lambda>(u, c). u \<noteq> i) (dr_callsigns (ac_dir a)) @ map (Pair i) (clean_from to_upper [] cs)\<rparr>\<rparr>)"
  unfolding SetUserAPRS_def Let_def
  by (auto simp: inspect_user_def touch_def split: option.splits)

lemma SetUserChannelOptOuts_Inr:
  "SetUserChannelOptOuts now i ks a = Inr a' \<longleftrightarrow> (\<exists>r. row_by_id a i = Some r \<and> \<not> ar_admin r \<and>
    a' = (touch now i r a)\<lparr>ac_dir := (ac_dir (touch now i r a))\<lparr>dr_optouts :=
      filter (\<lambda>(u, c). u \<noteq> i) (dr_optouts (ac_dir a)) @ map (Pair i) (clean_from to_lower [] ks)\<rparr>\<rparr>)"
  unfolding SetUserChannelOptOuts_def Let_def
  by (auto simp: inspect_user_def touch_def split: option.splits)

lemma refs_ok_callsigns:
  assumes "refs_ok a" "i \<in> user_ids a"
  shows "refs_ok (a\<lparr>ac_dir := (ac_dir a)\<lparr>dr_callsigns :=
      filter (\<lambda>(u, c). u \<noteq> i) (dr_callsigns (ac_dir a)) @ map (Pair i) (clean_from f [] cs)\<rparr>\<rparr>)"
  using assms replace_rows [OF _ _ assms(2) clean_from_distinct, of "dr_callsigns (ac_dir a)" f "[]" cs]
  by (simp add: refs_ok_def user_ids_def group_ids_def Let_def)

lemma refs_ok_optouts:
  assumes "refs_ok a" "i \<in> user_ids a"
  shows "refs_ok (a\<lparr>ac_dir := (ac_dir a)\<lparr>dr_optouts :=
      filter (\<lambda>(u, c). u \<noteq> i) (dr_optouts (ac_dir a)) @ map (Pair i) (clean_from f [] cs)\<rparr>\<rparr>)"
  using assms replace_rows [OF _ _ assms(2) clean_from_distinct, of "dr_optouts (ac_dir a)" f "[]" cs]
  by (simp add: refs_ok_def user_ids_def group_ids_def Let_def)

lemma preferences_ok:
  assumes ok: "accounts_ok a" and r: "row_by_id a i = Some r"
  shows "accounts_ok ((touch now i r a)\<lparr>ac_dir := (ac_dir (touch now i r a))\<lparr>dr_callsigns :=
      filter (\<lambda>(u, c). u \<noteq> i) (dr_callsigns (ac_dir (touch now i r a))) @ map (Pair i) (clean_from f [] cs)\<rparr>\<rparr>)"
    and "accounts_ok ((touch now i r a)\<lparr>ac_dir := (ac_dir (touch now i r a))\<lparr>dr_optouts :=
      filter (\<lambda>(u, c). u \<noteq> i) (dr_optouts (ac_dir (touch now i r a))) @ map (Pair i) (clean_from f [] cs)\<rparr>\<rparr>)"
proof -
  let ?b = "touch now i r a"
  have b: "accounts_ok ?b" using ok r by (rule accounts_ok_touch)
  then have R: "refs_ok ?b" by (simp add: accounts_ok_def)
  have i: "i \<in> user_ids ?b" using row_by_id_in [OF r] r by (simp add: touch_def)
  note refs_ok_callsigns [OF R i, of f cs] refs_ok_optouts [OF R i, of f cs]
  with b show
    "accounts_ok (?b\<lparr>ac_dir := (ac_dir ?b)\<lparr>dr_callsigns :=
      filter (\<lambda>(u, c). u \<noteq> i) (dr_callsigns (ac_dir ?b)) @ map (Pair i) (clean_from f [] cs)\<rparr>\<rparr>)"
    "accounts_ok (?b\<lparr>ac_dir := (ac_dir ?b)\<lparr>dr_optouts :=
      filter (\<lambda>(u, c). u \<noteq> i) (dr_optouts (ac_dir ?b)) @ map (Pair i) (clean_from f [] cs)\<rparr>\<rparr>)"
    by (simp_all add: accounts_ok_def users_ok_def groups_ok_def audit_ok_def)
qed

lemma SetUserAPRS_ok: "accounts_ok a \<Longrightarrow> SetUserAPRS now i cs a = Inr a' \<Longrightarrow> accounts_ok a'"
  unfolding SetUserAPRS_Inr using preferences_ok(1) by (fastforce simp: touch_def)

lemma SetUserChannelOptOuts_ok: "accounts_ok a \<Longrightarrow> SetUserChannelOptOuts now i ks a = Inr a' \<Longrightarrow> accounts_ok a'"
  unfolding SetUserChannelOptOuts_Inr using preferences_ok(2) by (fastforce simp: touch_def)

lemma SetUserPassword_Inr:
  "SetUserPassword c now rnd i p a = Inr a' \<longleftrightarrow> (\<exists>r salt hash. row_by_id a i = Some r \<and> \<not> ar_admin r \<and>
    passwordFields c rnd p = Some (salt, hash) \<and>
    a' = set_row i (r\<lparr>ar_salt := salt, ar_hash := hash, ar_updated_ms := unix_milli now\<rparr>) a)"
  by (auto simp: SetUserPassword_def inspect_user_def split: option.splits)

lemma SetUserPassword_ok: "accounts_ok a \<Longrightarrow> SetUserPassword c now rnd i p a = Inr a' \<Longrightarrow> accounts_ok a'"
  unfolding SetUserPassword_Inr by (elim exE conjE) (simp add: accounts_ok_set_row)

lemma CreatePasswordReset_Inr:
  "CreatePasswordReset c now rnd i a = Inr (a', token) \<longleftrightarrow> (\<exists>r raw. row_by_id a i = Some r \<and> \<not> ar_admin r \<and>
    rnd = Some raw \<and> token = hex_encode raw \<and>
    a' = a\<lparr>ac_resets := filter (\<lambda>x. \<not> (rs_user x = i \<or> rs_expires_ms x < unix_milli now)) (ac_resets a) @
      [\<lparr> rs_user = i, rs_hash = tokenHashHex c token, rs_expires_ms = unix_milli now + reset_hour_ms,
         rs_used_ms = 0, rs_created_ms = unix_milli now \<rparr>]\<rparr>)"
  by (auto simp: CreatePasswordReset_def inspect_user_def Let_def split: option.splits)

lemma resets_ok:
  assumes "accounts_ok a" "distinct (map rs_user rs)" "rs_user ` set rs \<subseteq> user_ids a"
  shows "accounts_ok (a\<lparr>ac_resets := rs\<rparr>)"
  using assms by (simp add: accounts_ok_def users_ok_def refs_ok_def audit_ok_def user_ids_def Let_def)

lemma accounts_ok_resets:
  "accounts_ok a \<Longrightarrow> distinct (map rs_user (ac_resets a)) \<and> rs_user ` set (ac_resets a) \<subseteq> user_ids a"
  by (simp add: accounts_ok_def refs_ok_def Let_def)

lemma CreatePasswordReset_ok:
  assumes ok: "accounts_ok a" and cr: "CreatePasswordReset c now rnd i a = Inr (a', token)"
  shows "accounts_ok a'"
proof -
  from cr obtain r rs x where "row_by_id a i = Some r" "rs_user x = i"
    and rs: "rs = filter (\<lambda>x. \<not> (rs_user x = i \<or> rs_expires_ms x < unix_milli now)) (ac_resets a)"
    and a': "a' = a\<lparr>ac_resets := rs @ [x]\<rparr>"
    unfolding CreatePasswordReset_Inr by force
  then have "distinct (map rs_user (rs @ [x]))" "rs_user ` set (rs @ [x]) \<subseteq> user_ids a"
    using accounts_ok_resets [OF ok] row_by_id_in [of a i r] by (auto simp: distinct_map_filter)
  then show ?thesis unfolding a' by (rule resets_ok [OF ok])
qed

lemma consume_mark_ok: "accounts_ok a \<Longrightarrow> accounts_ok (consume_mark now h a)"
proof -
  assume ok: "accounts_ok a"
  let ?f = "\<lambda>x. if rs_hash x = h then x\<lparr>rs_used_ms := unix_milli now\<rparr> else x"
  have m: "map rs_user (map ?f (ac_resets a)) = map rs_user (ac_resets a)" by simp
  have "distinct (map rs_user (map ?f (ac_resets a)))" "rs_user ` set (map ?f (ac_resets a)) \<subseteq> user_ids a"
    using accounts_ok_resets [OF ok] arg_cong [OF m, of set] unfolding m by auto
  then show ?thesis unfolding consume_mark_def by (rule resets_ok [OF ok])
qed

lemma ConsumePasswordReset_Inr:
  "ConsumePasswordReset c now token a = Inr (a', u) \<longleftrightarrow> (\<exists>x. reset_row_of c a token = Some x \<and>
    reset_valid now x \<and> u = rs_user x \<and> a' = consume_mark now (rs_hash x) a)"
  by (auto simp: ConsumePasswordReset_def consume_lookup_def split: option.splits)

text \<open>The log keeps the entries of the last sequence numbers.\<close>

lemma RecordAudit_simp:
  assumes "audit_ok a"
  shows "ac_audit (RecordAudit u act det now a) =
    filter (\<lambda>y. ac_audit_seq a + 1 - AuditRetentionEntries < au_seq y)
      (ac_audit a @ [\<lparr>au_seq = ac_audit_seq a + 1, au_at_ms = unix_milli now, au_user = u, au_action = act, au_detail = det\<rparr>])"
    and "ac_audit_seq (RecordAudit u act det now a) = ac_audit_seq a + 1"
proof -
  let ?x = "\<lparr>au_seq = ac_audit_seq a + 1, au_at_ms = unix_milli now, au_user = u, au_action = act, au_detail = det\<rparr>"
  have "Max (set (map au_seq (ac_audit a @ [?x]))) = ac_audit_seq a + 1"
    by (rule Max_eqI) (use assms in \<open>auto simp: audit_ok_def\<close>)
  then show "ac_audit (RecordAudit u act det now a) =
      filter (\<lambda>y. ac_audit_seq a + 1 - AuditRetentionEntries < au_seq y) (ac_audit a @ [?x])"
    "ac_audit_seq (RecordAudit u act det now a) = ac_audit_seq a + 1"
    by (simp_all add: RecordAudit_def Let_def not_le)
qed

lemma RecordAudit_simps [simp]:
  "ac_users (RecordAudit u act det now a) = ac_users a" "ac_seq (RecordAudit u act det now a) = ac_seq a"
  "ac_resets (RecordAudit u act det now a) = ac_resets a" "ac_dir (RecordAudit u act det now a) = ac_dir a"
  by (simp_all add: RecordAudit_def Let_def)

lemma RecordAudit_ok:
  assumes ok: "accounts_ok a"
  shows "accounts_ok (RecordAudit u act det now a)"
proof -
  have A: "audit_ok a" using ok by (simp add: accounts_ok_def)
  have "audit_ok (RecordAudit u act det now a)"
    using A unfolding audit_ok_def RecordAudit_simp [OF A]
    by (auto simp: sorted_wrt_append sorted_wrt_map intro: sorted_wrt_filter)
  then show ?thesis
    using ok by (simp add: accounts_ok_def users_ok_def refs_ok_def user_ids_def)
qed

end
