(* ===== verification/Account_Safety.thy ===== *)
theory Account_Safety
  imports Account_History
begin

text \<open>
  What every history of the account store guarantees: a consistent database, an untouched admin
  row, credentials that admit one password, tokens that are used at most once by one request after
  another, and complete pages.
\<close>

section \<open>Consistency\<close>

lemma audit_length:
  assumes "audit_ok a"
  shows "length (ac_audit a) \<le> nat AuditRetentionEntries"
proof -
  have "distinct (map au_seq (ac_audit a))"
    using assms by (auto simp: audit_ok_def strict_sorted_iff)
  then have "length (ac_audit a) = card (set (map au_seq (ac_audit a)))"
    using distinct_card by fastforce
  also have "\<dots> \<le> card {ac_audit_seq a - AuditRetentionEntries + 1..ac_audit_seq a}"
    using assms by (intro card_mono) (auto simp: audit_ok_def)
  finally show ?thesis by (simp add: AuditRetentionEntries_def)
qed


section \<open>The admin row\<close>

fun admin_op :: "account_op \<Rightarrow> bool" where
  "admin_op (OpEnsureAdmin g rnd n p) \<longleftrightarrow> True"
| "admin_op _ \<longleftrightarrow> False"

lemma row_by_id_insert: "accounts_ok a \<Longrightarrow> row_by_id a i = Some r \<Longrightarrow> row_by_id (insert_user s a) i = Some r"
  by (simp add: row_by_id_def)

lemma row_by_id_subscribe [simp]: "row_by_id (subscribe_all k a) i = row_by_id a i"
  by (simp add: row_by_id_def subscribe_all_def)

lemma row_by_id_mark [simp]: "row_by_id (consume_mark now h a) i = row_by_id a i"
  by (simp add: row_by_id_def consume_mark_def)

lemma row_by_id_audit [simp]: "row_by_id (RecordAudit u x d now a) i = row_by_id a i"
  by (simp add: row_by_id_def)

lemma row_by_id_dir [simp]: "row_by_id (a\<lparr>ac_dir := d\<rparr>) i = row_by_id a i"
  by (simp add: row_by_id_def)

lemma row_by_id_resets [simp]: "row_by_id (a\<lparr>ac_resets := rs\<rparr>) i = row_by_id a i"
  by (simp add: row_by_id_def)

lemma row_by_id_touch [simp]:
  "row_by_id (touch now k s a) i = (if i = k then Some (s\<lparr>ar_updated_ms := unix_milli now\<rparr>) else row_by_id a i)"
  by (simp add: touch_def)

lemma row_by_id_delete:
  "DeleteUser k a = Inr a' \<Longrightarrow> row_by_id a' i = (if i = k then None else row_by_id a i)"
  by (auto simp: DeleteUser_Inr row_by_id_def delete_conv')

text \<open>An admin row is no target of the operations on regular users.\<close>

lemma admin_row_step:
  assumes ok: "accounts_ok a" and r: "row_by_id a i = Some r" and ad: "ar_admin r" and op: "\<not> admin_op op"
  shows "row_by_id (apply_account c now op a) i = Some r"
proof (cases op)
  case OpCreate
  then show ?thesis
    by (auto intro!: settle_fst_ok [where P = "\<lambda>b. row_by_id b i = Some r"]
        simp: r CreateUser_Inr row_by_id_insert [OF ok])
next
  case OpUpdate
  then show ?thesis
    using r ad by (auto intro!: settle_fst_ok [where P = "\<lambda>b. row_by_id b i = Some r"] simp: UpdateUser_Inr)
next
  case OpDelete
  then show ?thesis
    using r ad by (auto intro!: settle_ok [where P = "\<lambda>b. row_by_id b i = Some r"]
        simp: row_by_id_delete) (auto simp: DeleteUser_Inr)
next
  case OpSetAPRS
  then show ?thesis
    using r ad by (auto intro!: settle_ok [where P = "\<lambda>b. row_by_id b i = Some r"] simp: SetUserAPRS_Inr)
next
  case OpSetOptOuts
  then show ?thesis
    using r ad by (auto intro!: settle_ok [where P = "\<lambda>b. row_by_id b i = Some r"] simp: SetUserChannelOptOuts_Inr)
next
  case OpSetPassword
  then show ?thesis
    using r ad by (auto intro!: settle_ok [where P = "\<lambda>b. row_by_id b i = Some r"] simp: SetUserPassword_Inr)
next
  case OpIssueReset
  then show ?thesis
    using r ad by (auto intro!: settle_fst_ok [where P = "\<lambda>b. row_by_id b i = Some r"] simp: CreatePasswordReset_Inr)
next
  case OpConsumeReset
  then show ?thesis
    using r ad by (auto intro!: settle_fst_ok [where P = "\<lambda>b. row_by_id b i = Some r"] simp: ConsumePasswordReset_Inr)
qed (use r op in simp_all)

text \<open>What \<open>EnsureAdminUser\<close> keeps of an admin row: all but the password.\<close>

definition same_identity :: "account_row \<Rightarrow> account_row \<Rightarrow> bool" where
  "same_identity r s \<longleftrightarrow>
     ar_username s = ar_username r \<and> ar_admin s = ar_admin r \<and> ar_role s = ar_role r \<and>
     ar_phone s = ar_phone r \<and> ar_email s = ar_email r \<and> ar_discord s = ar_discord r"

lemma ensure_admin_step:
  assumes ok: "accounts_ok a" and r: "row_by_id a i = Some r"
  shows "\<exists>s. row_by_id (fst (EnsureAdminUser c now gap rnd n p a)) i = Some s \<and> same_identity r s"
proof -
  let ?b = "insert_admin now gap n a"
  have b: "row_by_id ?b i = Some r"
    using r row_by_id_insert [OF ok r] by (simp add: insert_admin_def) (simp add: row_by_id_def)
  show ?thesis
  proof (cases "row_by_name ?b n")
    case None
    then show ?thesis using b by (simp add: EnsureAdminUser_def sync_admin_def same_identity_def)
  next
    case (Some x)
    have "accounts_ok ?b"
      using EnsureAdminUser_ok [OF ok, of c now gap rnd n "[]"] Some
      by (simp add: EnsureAdminUser_def sync_admin_def split: prod.splits)
    then have "row_by_id ?b (fst x) = Some (snd x)"
      using Some by (intro row_by_name_id) (auto simp: accounts_ok_def)
    then show ?thesis
      using Some b by (auto simp: EnsureAdminUser_def sync_admin_def same_identity_def
          split: prod.split option.split)
  qed
qed

lemma same_identity_trans: "same_identity r s \<Longrightarrow> same_identity s t \<Longrightarrow> same_identity r t"
  by (simp add: same_identity_def)

text \<open>
  C15: no history of operations removes the admin row, renames it, or changes its contact data,
  its role or that it is the admin row; and without \<open>EnsureAdminUser\<close> among them, nothing in
  the row changes at all.
\<close>

theorem admin_row_protected:
  assumes "accounts_ok a" "row_by_id a i = Some r" "ar_admin r"
  shows "\<exists>s. row_by_id (run_accounts c xs a) i = Some s \<and> same_identity r s \<and>
    (list_all (\<lambda>x. \<not> admin_op (snd x)) xs \<longrightarrow> s = r)"
  using assms
proof (induction xs arbitrary: a r)
  case (Cons x xs)
  let ?a = "apply_account c (fst x) (snd x) a"
  obtain s where s: "row_by_id ?a i = Some s" "same_identity r s" "\<not> admin_op (snd x) \<longrightarrow> s = r"
  proof (cases "admin_op (snd x)")
    case True
    then obtain g rnd n p where "snd x = OpEnsureAdmin g rnd n p" by (cases "snd x") auto
    then have "\<exists>s. row_by_id ?a i = Some s \<and> same_identity r s"
      using ensure_admin_step [OF Cons.prems(1,2)] by simp
    then show ?thesis using that True by blast
  next
    case False
    then show ?thesis using that admin_row_step [OF Cons.prems False] by (auto simp: same_identity_def)
  qed
  moreover have "accounts_ok ?a" using Cons.prems(1) by (rule apply_account_ok)
  moreover have "ar_admin s" using s(2) Cons.prems(3) by (simp add: same_identity_def)
  ultimately obtain t where "row_by_id (run_accounts c xs ?a) i = Some t" "same_identity s t"
    "list_all (\<lambda>x. \<not> admin_op (snd x)) xs \<longrightarrow> t = s"
    using Cons.IH by blast
  then show ?case using s same_identity_trans by auto
qed (simp add: same_identity_def)

section \<open>Credentials\<close>

text \<open>The operations that may set the credentials, the name or the role of user \<open>i\<close>.\<close>

fun credential_op :: "int \<Rightarrow> account_op \<Rightarrow> bool" where
  "credential_op i (OpUpdate rnd k n ph em di ro p) \<longleftrightarrow> k = i"
| "credential_op i (OpDelete k) \<longleftrightarrow> k = i"
| "credential_op i (OpSetPassword rnd k p) \<longleftrightarrow> k = i"
| "credential_op i _ \<longleftrightarrow> False"

definition same_login :: "account_row \<Rightarrow> account_row \<Rightarrow> bool" where
  "same_login r s \<longleftrightarrow>
     ar_username s = ar_username r \<and> ar_admin s = ar_admin r \<and> ar_role s = ar_role r \<and>
     ar_salt s = ar_salt r \<and> ar_hash s = ar_hash r"

lemma same_login_refl [simp]: "same_login r r" "same_login r (r\<lparr>ar_updated_ms := t\<rparr>)"
  by (simp_all add: same_login_def)

abbreviation keeps_login :: "int \<Rightarrow> account_row \<Rightarrow> accounts \<Rightarrow> bool" where
  "keeps_login i r b \<equiv> \<exists>s. row_by_id b i = Some s \<and> same_login r s"

lemma sync_admin_login:
  assumes ok: "accounts_ok a" and r: "row_by_id a i = Some r" and reg: "\<not> ar_admin r"
  shows "row_by_id (fst (sync_admin c now rnd n p a)) i = Some r"
proof (cases "row_by_name a n")
  case (Some x)
  then have "row_by_id a (fst x) = Some (snd x)"
    using ok by (intro row_by_name_id) (auto simp: accounts_ok_def)
  then show ?thesis
    using Some r reg by (auto simp: sync_admin_def split: prod.split option.split)
qed (simp add: sync_admin_def r)

lemma login_step:
  assumes ok: "accounts_ok a" and r: "row_by_id a i = Some r" and reg: "\<not> ar_admin r"
    and op: "\<not> credential_op i op"
  shows "keeps_login i r (apply_account c now op a)"
proof (cases op)
  case (OpEnsureAdmin g rnd n p)
  let ?b = "insert_admin now g n a"
  have "row_by_id ?b i = Some r"
    using r row_by_id_insert [OF ok r] by (simp add: insert_admin_def) (simp add: row_by_id_def)
  moreover have "accounts_ok ?b"
    using EnsureAdminUser_ok [OF ok, of c now g rnd n "[]"]
    by (simp add: EnsureAdminUser_def sync_admin_def split: prod.splits option.splits)
  ultimately show ?thesis using OpEnsureAdmin sync_admin_login reg by (simp add: EnsureAdminUser_def)
next
  case OpCreate
  then show ?thesis
    by (auto intro!: settle_fst_ok [where P = "keeps_login i r"] simp: r CreateUser_Inr row_by_id_insert [OF ok])
next
  case OpUpdate
  then show ?thesis using r op
    by (auto intro!: settle_fst_ok [where P = "keeps_login i r"] simp: UpdateUser_Inr)
next
  case OpDelete
  then show ?thesis using r op by (auto intro!: settle_ok [where P = "keeps_login i r"] simp: row_by_id_delete)
next
  case OpSetAPRS
  then show ?thesis
    using r by (auto intro!: settle_ok [where P = "keeps_login i r"] simp: SetUserAPRS_Inr)
next
  case OpSetOptOuts
  then show ?thesis
    using r by (auto intro!: settle_ok [where P = "keeps_login i r"] simp: SetUserChannelOptOuts_Inr)
next
  case OpSetPassword
  then show ?thesis using r op by (auto intro!: settle_ok [where P = "keeps_login i r"] simp: SetUserPassword_Inr)
next
  case OpIssueReset
  then show ?thesis
    using r by (auto intro!: settle_fst_ok [where P = "keeps_login i r"] simp: CreatePasswordReset_Inr)
next
  case OpConsumeReset
  then show ?thesis
    using r by (auto intro!: settle_fst_ok [where P = "keeps_login i r"] simp: ConsumePasswordReset_Inr)
qed (use r in simp_all)

lemma login_history:
  assumes "accounts_ok a" "row_by_id a i = Some r" "\<not> ar_admin r" "list_all (\<lambda>x. \<not> credential_op i (snd x)) xs"
  shows "keeps_login i r (run_accounts c xs a)"
  using assms
proof (induction xs arbitrary: a r)
  case (Cons x xs)
  then obtain s where s: "row_by_id (apply_account c (fst x) (snd x) a) i = Some s" "same_login r s"
    using login_step [of a i r "snd x" c "fst x"] by auto
  then have "keeps_login i s (run_accounts c xs (apply_account c (fst x) (snd x) a))"
    using Cons.prems by (intro Cons.IH apply_account_ok) (auto simp: same_login_def)
  then show ?case using s(2) by (auto simp: same_login_def)
qed simp

lemma Authenticate_row:
  assumes "accounts_ok a" "row_by_id a i = Some r" "nocase (ar_username r) name"
  shows "Authenticate c a name q =
    (if ar_admin r \<or> ar_role r = [] \<or> ar_salt r = [] \<or> ar_hash r = [] \<or>
        hashPassword c q (ar_salt r) \<noteq> Some (ar_hash r)
     then Inl BadCredentials else Inr (view_user a (i, r)))"
proof -
  have "row_by_name a name = Some (i, r)"
    using assms row_by_name_iff by (simp add: accounts_ok_def)
  then show ?thesis using assms(2)
    by (simp add: Authenticate_def verifyPassword_def GetUser_def userByID_def)
qed

lemma uv_id_view [simp]: "uv_id (view_user a x) = fst x"
  by (simp add: view_user_def attachAPRS_def scanUser_def Let_def)

lemma hash_nonempty:
  assumes "\<And>k m. length (cr_hmac c k m) = sha256_size" "hashPassword c p salt = Some h"
  shows "length h = 64"
proof -
  obtain raw where "hex_decode salt = Some raw" using assms(2) by (auto simp: hashPassword_def split: option.splits)
  moreover have "length (pbkdf2_block c p raw 120000 1) = 32"
    using length_block [OF assms(1), of p raw 120000 1] by (simp add: sha256_size_def)
  ultimately show ?thesis
    using assms(2) by (auto simp: hashPassword_def pbkdf2Key_def sha256_size_def passwordIterations_def)
qed

text \<open>
  C14: after \<open>SetUserPassword\<close> for a user with a role, and any further history that does not set
  that user's credentials, a sign-in under the user's name in any letter case succeeds exactly with
  the passwords whose PBKDF2 key is that of the password set, and is refused as bad credentials
  otherwise.
\<close>

theorem sign_in_exact:
  assumes "accounts_ok a" "row_by_id a i = Some r" "ar_role r \<noteq> []"
    and "SetUserPassword c now (Some salt) i p a = Inr a'" "salt \<noteq> []"
    and "list_all (\<lambda>x. \<not> credential_op i (snd x)) xs" "nocase (ar_username r) name"
    and hmac: "\<And>k m. length (cr_hmac c k m) = sha256_size"
  defines "b \<equiv> run_accounts c xs a'"
  shows "if hashPassword c q (hex_encode salt) = hashPassword c p (hex_encode salt)
    then \<exists>u. Authenticate c b name q = Inr u \<and> uv_id u = i
    else Authenticate c b name q = Inl BadCredentials"
proof -
  from assms(4,2) obtain h where h: "hashPassword c p (hex_encode salt) = Some h" and reg: "\<not> ar_admin r"
    and a': "a' = set_row i (r\<lparr>ar_salt := hex_encode salt, ar_hash := h, ar_updated_ms := unix_milli now\<rparr>) a"
    by (auto simp: SetUserPassword_Inr passwordFields_def Let_def)
  have ok: "accounts_ok a'" using assms(1,4) by (rule SetUserPassword_ok)
  then have okb: "accounts_ok b" unfolding b_def by (rule run_accounts_ok)
  obtain s where s: "row_by_id b i = Some s" "ar_username s = ar_username r" "\<not> ar_admin s"
    "ar_role s = ar_role r" "ar_salt s = hex_encode salt" "ar_hash s = h"
    using login_history [OF ok _ _ assms(6), of _ c] reg unfolding a' b_def by (auto simp: same_login_def)
  have "hex_encode salt \<noteq> []" "h \<noteq> []"
    using assms(5) hash_nonempty [OF hmac h] by (auto simp flip: length_greater_0_conv)
  then show ?thesis
    using Authenticate_row [OF okb s(1), of name c q] s assms(3,7) h by simp
qed

end
