(* ===== verification/Account_Tokens.thy ===== *)
theory Account_Tokens
  imports Account_Safety
begin

text \<open>
  Password-reset tokens over histories and under interleaved requests, the pages of the user list,
  the call signs that may send messages, and concrete stores that show the theorems at work.
\<close>

section \<open>One token, one use\<close>

definition spent :: "crypto \<Rightarrow> string \<Rightarrow> accounts \<Rightarrow> bool" where
  "spent c token a \<longleftrightarrow>
     (\<forall>x\<in>set (ac_resets a). rs_hash x = tokenHashHex c token \<longrightarrow> rs_used_ms x \<noteq> 0)"

lemma reset_row_of_hash: "reset_row_of c a token = Some x \<Longrightarrow> x \<in> set (ac_resets a) \<and> rs_hash x = tokenHashHex c token"
  by (auto simp: reset_row_of_def find_Some_iff in_set_conv_nth)

lemma spent_lookup: "spent c token a \<Longrightarrow> consume_lookup c now a token = Inl PasswordResetInvalid"
  by (auto simp: consume_lookup_def spent_def reset_valid_def dest!: reset_row_of_hash split: option.split)

lemma spent_invalid: "spent c token a \<Longrightarrow> ConsumePasswordReset c now token a = Inl PasswordResetInvalid"
  by (simp add: ConsumePasswordReset_def spent_lookup)

lemma spent_consume:
  assumes "ConsumePasswordReset c now token a = Inr (a', u)" "unix_milli now \<noteq> 0"
  shows "spent c token a'"
proof -
  obtain x where x: "reset_row_of c a token = Some x" and a': "a' = consume_mark now (rs_hash x) a"
    using assms(1) by (auto simp: ConsumePasswordReset_Inr)
  have "rs_hash x = tokenHashHex c token" using reset_row_of_hash [OF x] by blast
  then show ?thesis using assms(2) by (auto simp: spent_def a' consume_mark_def)
qed

text \<open>An operation that issues a token whose hash is that of \<open>token\<close>.\<close>

fun issues :: "crypto \<Rightarrow> string \<Rightarrow> account_op \<Rightarrow> bool" where
  "issues c token (OpIssueReset (Some raw) i) \<longleftrightarrow> tokenHashHex c (hex_encode raw) = tokenHashHex c token"
| "issues c token _ \<longleftrightarrow> False"

lemma resets_EnsureAdmin [simp]: "ac_resets (fst (EnsureAdminUser c now g rnd n p a)) = ac_resets a"
  by (simp add: EnsureAdminUser_def sync_admin_def insert_admin_def split: option.split prod.split)

lemma resets_simps [simp]:
  "ac_resets (subscribe_all i a) = ac_resets a" "ac_resets (touch now i r a) = ac_resets a"
  by (simp_all add: subscribe_all_def touch_def)

lemma spent_frame [simp]:
  "spent c token (subscribe_all i a) = spent c token a" "spent c token (insert_user r a) = spent c token a"
  "spent c token (set_row i r a) = spent c token a" "spent c token (touch now i r a) = spent c token a"
  "spent c token (fst (EnsureAdminUser c now g rnd n p a)) = spent c token a"
  "spent c token (on_dir f a) = spent c token a" "spent c token (RecordAudit u x e now a) = spent c token a"
  "spent c token (a\<lparr>ac_dir := d\<rparr>) = spent c token a"
  by (simp_all add: spent_def)

lemma spent_step:
  assumes s: "spent c token a" and op: "\<not> issues c token op"
  shows "spent c token (apply_account c now op a)"
proof (cases op)
  case OpCreate
  then show ?thesis using s
    by (auto intro!: settle_fst_ok [where P = "spent c token"] simp: CreateUser_Inr)
next
  case OpUpdate
  then show ?thesis using s
    by (auto intro!: settle_fst_ok [where P = "spent c token"] simp: UpdateUser_Inr)
next
  case OpDelete
  then show ?thesis using s
    by (auto intro!: settle_ok [where P = "spent c token"] simp: DeleteUser_Inr)
      (simp add: spent_def)
next
  case OpSetAPRS
  then show ?thesis using s
    by (auto intro!: settle_ok [where P = "spent c token"] simp: SetUserAPRS_Inr)
next
  case OpSetOptOuts
  then show ?thesis using s
    by (auto intro!: settle_ok [where P = "spent c token"] simp: SetUserChannelOptOuts_Inr)
next
  case OpSetPassword
  then show ?thesis using s
    by (auto intro!: settle_ok [where P = "spent c token"] simp: SetUserPassword_Inr)
next
  case (OpIssueReset rnd i)
  have "spent c token a'" if "CreatePasswordReset c now rnd i a = Inr (a', t)" for a' t
    using that s op OpIssueReset by (auto simp: CreatePasswordReset_Inr spent_def)
  then show ?thesis using OpIssueReset s by (auto intro!: settle_fst_ok [where P = "spent c token"])
next
  case (OpConsumeReset t)
  have "spent c token a'" if con: "ConsumePasswordReset c now t a = Inr (a', u)" for a' u
  proof -
    obtain x where x: "reset_row_of c a t = Some x" "reset_valid now x" and a': "a' = consume_mark now (rs_hash x) a"
      using con by (auto simp: ConsumePasswordReset_Inr)
    have "rs_hash x \<noteq> tokenHashHex c token"
      using reset_row_of_hash [OF x(1)] x(2) s by (auto simp: spent_def reset_valid_def)
    then show ?thesis using s by (auto simp: spent_def a' consume_mark_def)
  qed
  then show ?thesis using OpConsumeReset s by (auto intro!: settle_fst_ok [where P = "spent c token"])
qed (use s in simp_all)

lemma spent_run:
  "spent c token a \<Longrightarrow> list_all (\<lambda>x. \<not> issues c token (snd x)) xs \<Longrightarrow> spent c token (run_accounts c xs a)"
  by (induction xs arbitrary: a) (auto intro: spent_step)

text \<open>
  C17: a reset token that was consumed is refused for ever after, whatever operations follow, as
  long as no new token with the same hash is issued.
\<close>

theorem reset_token_once:
  assumes "ConsumePasswordReset c now token a = Inr (a', u)" "1000000 \<le> now"
    and "list_all (\<lambda>x. \<not> issues c token (snd x)) xs"
  shows "ConsumePasswordReset c later token (run_accounts c xs a') = Inl PasswordResetInvalid"
proof -
  have "unix_milli now \<noteq> 0" using assms(2) by (simp add: unix_milli_def)
  then show ?thesis using spent_invalid spent_run [OF spent_consume [OF assms(1)] assms(3)] by blast
qed

section \<open>Interleaved requests\<close>

text \<open>
  Two requests share the database between the two statements of \<open>ConsumePasswordReset\<close>; a
  schedule names the request that runs its next statement.
\<close>

datatype request = Fresh | Looked reset_row | Granted int | Refused

fun request_step :: "crypto \<Rightarrow> time \<Rightarrow> string \<Rightarrow> request \<Rightarrow> accounts \<Rightarrow> request \<times> accounts" where
  "request_step c now token Fresh a =
     (case consume_lookup c now a token of Inl e \<Rightarrow> (Refused, a) | Inr x \<Rightarrow> (Looked x, a))"
| "request_step c now token (Looked x) a = (Granted (rs_user x), consume_mark now (rs_hash x) a)"
| "request_step c now token q a = (q, a)"

primrec run_schedule ::
    "crypto \<Rightarrow> time \<Rightarrow> string \<Rightarrow> nat list \<Rightarrow> request list \<times> accounts \<Rightarrow> request list \<times> accounts" where
  "run_schedule c now token [] s = s"
| "run_schedule c now token (k # ks) s =
     (let (q, a) = request_step c now token (fst s ! k) (snd s)
      in run_schedule c now token ks ((fst s)[k := q], a))"

text \<open>A request that is alone does what \<open>ConsumePasswordReset\<close> does.\<close>

lemma alone_consumes:
  "run_schedule c now token [0, 0] ([Fresh], a) =
    (case ConsumePasswordReset c now token a of
       Inl e \<Rightarrow> ([Refused], a) | Inr (b, u) \<Rightarrow> ([Granted u], b))"
  by (auto simp: ConsumePasswordReset_def split: sum.split)

text \<open>
  one valid token serves two requests that both look it up before either marks it, while the
  same two requests one after the other are served once.
\<close>

theorem reset_token_race:
  assumes "consume_lookup c now a token = Inr x" "1000000 \<le> now"
  shows "fst (run_schedule c now token [0, 1, 0, 1] ([Fresh, Fresh], a)) =
      [Granted (rs_user x), Granted (rs_user x)] \<and>
    fst (run_schedule c now token [0, 0, 1, 1] ([Fresh, Fresh], a)) = [Granted (rs_user x), Refused]"
proof -
  have con: "ConsumePasswordReset c now token a = Inr (consume_mark now (rs_hash x) a, rs_user x)"
    using assms(1) by (simp add: ConsumePasswordReset_def)
  have "spent c token (consume_mark now (rs_hash x) a)"
    using spent_consume [OF con] assms(2) by (simp add: unix_milli_def)
  then have "consume_lookup c now (consume_mark now (rs_hash x) a) token = Inl PasswordResetInvalid"
    by (rule spent_lookup)
  then show ?thesis using assms(1) by simp
qed

definition issued_row :: "crypto \<Rightarrow> time \<Rightarrow> int \<Rightarrow> string \<Rightarrow> reset_row" where
  "issued_row c now i token =
     \<lparr> rs_user = i, rs_hash = tokenHashHex c token, rs_expires_ms = unix_milli now + reset_hour_ms,
       rs_used_ms = 0, rs_created_ms = unix_milli now \<rparr>"

lemma issued_simps [simp]: "rs_user (issued_row c now i t) = i" "rs_hash (issued_row c now i t) = tokenHashHex c t"
  by (simp_all add: issued_row_def)

lemma issued_rows:
  "CreatePasswordReset c now rnd i a = Inr (a', token) \<Longrightarrow>
    ac_resets a' = filter (\<lambda>x. \<not> (rs_user x = i \<or> rs_expires_ms x < unix_milli now)) (ac_resets a) @
      [issued_row c now i token]"
  by (auto simp: CreatePasswordReset_Inr issued_row_def)

lemma issued_lookup:
  assumes "CreatePasswordReset c now rnd i a = Inr (a', token)"
    "\<forall>x\<in>set (ac_resets a). rs_hash x \<noteq> tokenHashHex c token"
  shows "reset_row_of c a' token = Some (issued_row c now i token)"
proof -
  have "find (\<lambda>x. rs_hash x = tokenHashHex c token)
      (filter (\<lambda>x. \<not> (rs_user x = i \<or> rs_expires_ms x < unix_milli now)) (ac_resets a)) = None"
    using assms(2) by (auto simp: find_None_iff)
  then show ?thesis unfolding reset_row_of_def issued_rows [OF assms(1)] find_append_one by simp
qed

lemma issued_valid: "reset_valid later (issued_row c now i token) \<longleftrightarrow> unix_milli later \<le> unix_milli now + 3600000"
  by (simp add: reset_valid_def issued_row_def reset_hour_ms_def not_less)

text \<open>
  a new token is valid for its user up to and including one hour after it was issued, to the
  millisecond, and issuing it ends every older token of that user.
\<close>

theorem reset_token_lifetime:
  assumes cr: "CreatePasswordReset c now (Some raw) i a = Inr (a', token)"
    and new: "\<forall>x\<in>set (ac_resets a). rs_hash x \<noteq> tokenHashHex c token"
    and old: "tokenHashHex c old \<noteq> tokenHashHex c token"
      "\<forall>x\<in>set (ac_resets a). rs_hash x = tokenHashHex c old \<longrightarrow> rs_user x = i"
  shows "ConsumePasswordReset c later token a' =
      (if unix_milli later \<le> unix_milli now + 3600000
       then Inr (consume_mark later (tokenHashHex c token) a', i) else Inl PasswordResetInvalid) \<and>
    ConsumePasswordReset c later old a' = Inl PasswordResetInvalid"
proof -
  have "find (\<lambda>x. rs_hash x = tokenHashHex c old)
      (filter (\<lambda>x. \<not> (rs_user x = i \<or> rs_expires_ms x < unix_milli now)) (ac_resets a)) = None"
    using old(2) by (auto simp: find_None_iff)
  then have "reset_row_of c a' old = None"
    using old(1) unfolding reset_row_of_def issued_rows [OF cr] find_append_one by simp
  then show ?thesis
    by (simp add: ConsumePasswordReset_def consume_lookup_def issued_lookup [OF cr new] issued_valid)
qed

section \<open>Pages\<close>

lemma concat_pages:
  "concat (map (\<lambda>k. map f (take n (drop (k * n) xs))) [0..<m]) = map f (take (m * n) xs)"
proof (induction m)
  case (Suc m)
  then show ?case using take_add [of "m * n" n xs] by (simp add: add.commute)
qed simp

lemma ListUsers_page:
  assumes "1 \<le> n" "1 \<le> p" "p \<le> page_count (length (ac_users a)) n"
  shows "fst (ListUsers a p n) =
    map (view_user a) (take (nat n) (drop (nat (p - 1) * nat n) (users_by_name a)))"
proof -
  have "clamp_page p (page_count (length (ac_users a)) n) = p"
    using assms by (simp add: clamp_page_def)
  moreover have "nat ((p - 1) * n) = nat (p - 1) * nat n"
    using assms by (simp add: nat_mult_distrib)
  ultimately show ?thesis
    using assms by (simp add: ListUsers_def Let_def attachAPRS_def view_user_def)
qed

lemma length_users_by_name [simp]: "length (users_by_name a) = length (ac_users a)"
  by (simp add: users_by_name_def)

text \<open>
  the pages of the user list, put together, are all users once each, administrators first and
  then by name; a page number outside the range shows the first or the last page.
\<close>

theorem user_pages_complete:
  fixes a :: accounts and n p :: int
  assumes "1 \<le> n"
  defines "pages \<equiv> page_count (length (ac_users a)) n"
  shows "concat (map (\<lambda>p. fst (ListUsers a p n)) [1..pages]) = map (view_user a) (users_by_name a) \<and>
    mset (users_by_name a) = mset (ac_users a) \<and>
    sorted_wrt (\<lambda>x y. ar_admin (snd y) \<longrightarrow> ar_admin (snd x)) (users_by_name a) \<and>
    (p < 1 \<longrightarrow> ListUsers a p n = ListUsers a 1 n) \<and> (pages < p \<longrightarrow> ListUsers a p n = ListUsers a pages n)"
proof -
  have pos: "1 \<le> pages" by (simp add: pages_def page_count_def)
  have all: "length (users_by_name a) \<le> nat pages * nat n"
  proof -
    have "int (length (ac_users a)) \<le> ((int (length (ac_users a)) + n - 1) div n) * n"
      using assms(1) by (smt (verit) div_mult_mod_eq pos_mod_bound)
    also have "\<dots> \<le> pages * n" using assms(1) by (intro mult_right_mono) (auto simp: pages_def page_count_def)
    finally show ?thesis using pos assms(1) by (simp flip: nat_mult_distrib)
  qed
  have idx: "[1..pages] = map (\<lambda>k. int k + 1) [0..<nat pages]"
    by (rule nth_equalityI) (auto simp: nth_upto)
  have "concat (map (\<lambda>p. fst (ListUsers a p n)) [1..pages]) =
      concat (map (\<lambda>k. map (view_user a) (take (nat n) (drop (k * nat n) (users_by_name a)))) [0..<nat pages])"
    unfolding idx map_map comp_def
    by (rule arg_cong [where f = concat], rule map_cong)
      (auto simp: ListUsers_page [OF assms(1)] pages_def)
  also have "\<dots> = map (view_user a) (take (nat pages * nat n) (users_by_name a))"
    by (rule concat_pages)
  finally have "concat (map (\<lambda>p. fst (ListUsers a p n)) [1..pages]) = map (view_user a) (users_by_name a)"
    using all by simp
  moreover have "sorted (map (\<lambda>x. (\<not> ar_admin (snd x), to_lower (ar_username (snd x)))) (users_by_name a))"
    by (simp add: users_by_name_def)
  then have "sorted_wrt (\<lambda>x y. ar_admin (snd y) \<longrightarrow> ar_admin (snd x)) (users_by_name a)"
    unfolding sorted_map by (rule sorted_wrt_mono_rel [rotated]) (auto simp: less_eq_prod_def)
  moreover have "p < 1 \<longrightarrow> ListUsers a p n = ListUsers a 1 n" "pages < p \<longrightarrow> ListUsers a p n = ListUsers a pages n"
    using assms(1) pos by (simp_all add: ListUsers_def Let_def clamp_page_def pages_def)
  ultimately show ?thesis by (simp add: users_by_name_def)
qed

section \<open>The call signs that may send\<close>

lemma upper_lower_char: "upper_char (lower_char c) = upper_char c"
proof (cases "is_upper_ascii c")
  case True
  then have b: "65 \<le> (of_char c :: nat)" "(of_char c :: nat) \<le> 90"
    by (auto simp: is_upper_ascii_def byte_range_def)
  then have o: "(of_char (char_of (of_char c + 32 :: nat) :: char) :: nat) = of_char c + 32"
    by (simp add: of_char_mod_256 take_bit_eq_mod)
  have "\<not> is_lower_ascii c" using b by (simp add: is_lower_ascii_def byte_range_def)
  with o b True show ?thesis
    by (simp add: lower_char_def upper_char_def is_lower_ascii_def byte_range_def)
qed (simp add: lower_char_def)

lemma to_upper_nocase: "to_lower s = to_lower t \<Longrightarrow> to_upper s = to_upper t"
  by (metis (no_types, lifting) list.map_comp list.map_cong0 comp_apply to_lower_def to_upper_def upper_lower_char)

lemma lower_dash: "lower_char c = CHR ''-'' \<longleftrightarrow> c = CHR ''-''"
  by (rule lower_char_eq_iff) (simp_all add: is_upper_ascii_def is_lower_ascii_def byte_range_def)

lemma cut_at_lower:
  "cut_at (CHR ''-'') (to_lower s) = map_option (map_prod to_lower to_lower) (cut_at (CHR ''-'') s)"
proof (induction s)
  case (Cons c cs)
  then show ?case by (auto simp: to_lower_def lower_dash split: option.split)
qed (simp add: to_lower_def)

lemma base_callsign_nocase: "to_lower s = to_lower t \<Longrightarrow> base_callsign s = base_callsign t"
proof -
  assume e: "to_lower s = to_lower t"
  then have "map_option (map_prod to_lower to_lower) (cut_at (CHR ''-'') s) =
      map_option (map_prod to_lower to_lower) (cut_at (CHR ''-'') t)"
    by (metis cut_at_lower)
  then show ?thesis using e
    by (auto simp: base_callsign_def intro: to_upper_nocase split: option.splits)
qed

lemma dedupe_nocase_cover:
  "x \<in> set xs \<Longrightarrow> to_lower x \<in> set seen \<or> (\<exists>y\<in>set (dedupe_nocase seen xs). to_lower y = to_lower x)"
  by (induction seen xs rule: dedupe_nocase.induct) auto

lemma dedupe_nocase_subset: "set (dedupe_nocase seen xs) \<subseteq> set xs"
  by (induction seen xs rule: dedupe_nocase.induct) auto

lemma bases_from_set: "set (bases_from seen xs) = base_callsign ` set xs - insert [] (set seen)"
  by (induction seen xs rule: bases_from.induct) (auto simp: Let_def)

lemma bases_from_distinct: "distinct (bases_from seen xs)"
  by (induction seen xs rule: bases_from.induct) (auto simp: Let_def bases_from_set)

text \<open>
  \<open>AllAPRSCallsigns\<close> lists every registered call sign's base, in upper case, without its
  SSID, each once, and nothing else.
\<close>

theorem callsign_allow_list:
  "distinct (AllAPRSCallsigns a) \<and>
   set (AllAPRSCallsigns a) = {base_callsign c |u c. (u, c) \<in> set (dr_callsigns (ac_dir a))} - {[]}"
proof -
  let ?raw = "sort_key to_lower (map snd (dr_callsigns (ac_dir a)))"
  have "base_callsign ` set (dedupe_nocase [] ?raw) = base_callsign ` set ?raw"
  proof
    show "base_callsign ` set (dedupe_nocase [] ?raw) \<subseteq> base_callsign ` set ?raw"
      using dedupe_nocase_subset by (rule image_mono)
    show "base_callsign ` set ?raw \<subseteq> base_callsign ` set (dedupe_nocase [] ?raw)"
    proof
      fix b assume "b \<in> base_callsign ` set ?raw"
      then obtain x where x: "x \<in> set ?raw" "b = base_callsign x" by blast
      then obtain y where "y \<in> set (dedupe_nocase [] ?raw)" "to_lower y = to_lower x"
        using dedupe_nocase_cover [of x ?raw "[]"] by auto
      then show "b \<in> base_callsign ` set (dedupe_nocase [] ?raw)"
        using base_callsign_nocase x(2) by (metis image_eqI)
    qed
  qed
  then show ?thesis
    unfolding AllAPRSCallsigns_def bases_from_set by (auto simp: bases_from_distinct image_iff) force+
qed

section \<open>A password that nobody set\<close>

text \<open>
  C35: a user created without role and without password, to whom an administrator later gives a
  role while leaving the password field empty, signs in with the empty password.
\<close>

theorem empty_password_signs_in:
  assumes ok: "accounts_ok a" and role: "role \<noteq> []" "salt \<noteq> []"
    and cr: "CreateUser c t1 (Some salt) name ph em di [] [] a = Inr (a1, u)"
    and up: "UpdateUser c t2 rnd (uv_id u) name ph em di role [] a1 = Inr (a2, v)"
    and hmac: "\<And>k m. length (cr_hmac c k m) = sha256_size"
  shows "\<exists>w. Authenticate c a2 name [] = Inr w \<and> uv_id w = uv_id u \<and> uv_role w = role"
proof -
  from cr obtain h where h: "hashPassword c [] (hex_encode salt) = Some h"
    and a1: "row_by_id a1 (uv_id u) = Some (regular_row t1 name ph em di [] (hex_encode salt, h))"
  proof -
    from cr obtain h where "hashPassword c [] (hex_encode salt) = Some h"
      and a1: "a1 = subscribe_all (ac_seq a + 1) (insert_user (regular_row t1 name ph em di [] (hex_encode salt, h)) a)"
      and "uv_id u = ac_seq a + 1"
      by (auto simp: CreateUser_Inr passwordFields_def Let_def)
    moreover have "row_by_id a1 (ac_seq a + 1) = Some (regular_row t1 name ph em di [] (hex_encode salt, h))"
      using fresh_id [of a] ok
      by (simp add: a1 row_by_id_def accounts_ok_def user_ids_def subscribe_all_def map_add_def
          split: option.split) (force dest: map_of_SomeD)
    ultimately show ?thesis using that by simp
  qed
  from up a1 have a2: "a2 = set_row (uv_id u)
      (edit_row t2 name ph em di role None (regular_row t1 name ph em di [] (hex_encode salt, h))) a1"
    by (auto simp: UpdateUser_Inr)
  have "accounts_ok a2" using CreateUser_ok [OF ok cr] up by (rule UpdateUser_ok)
  moreover have "hex_encode salt \<noteq> []" "h \<noteq> []"
    using role(2) hash_nonempty [OF hmac h] by (auto simp flip: length_greater_0_conv)
  moreover have "uv_role (view_user b (i, r)) = ar_role r" for b i r
    by (simp add: view_user_def attachAPRS_def scanUser_def Let_def)
  ultimately show ?thesis
    using Authenticate_row [of a2 "uv_id u" _ name c "[]"] h role(1) by (simp add: a2)
qed

end
