(* ===== verification/Account_Examples.thy ===== *)
theory Account_Examples
  imports Account_Tokens
begin

text \<open>
  The seeding of the admin row, and concrete stores at which the theorems about accounts apply.
\<close>

section \<open>The admin row at start-up\<close>

text \<open>
  \<open>EnsureAdminUser\<close> leaves an admin row whose stored key verifies the configured password;
  but when a regular user already has the configured name, it reports success and there is still
  no admin row of that name.
\<close>

theorem admin_seeded:
  assumes ok: "accounts_ok a" and p: "p \<noteq> []"
    and run: "EnsureAdminUser c now gap (Some salt) name p a = (a', None)"
  shows "(case row_by_name a name of
      Some (i, r) \<Rightarrow>
        (if ar_admin r then \<exists>s. row_by_name a' name = Some (i, s) \<and> ar_admin s \<and>
           verifyPassword c p (ar_salt s) (ar_hash s)
         else row_by_name a' name = Some (i, r))
    | None \<Rightarrow> \<exists>i s. row_by_name a' name = Some (i, s) \<and> ar_admin s \<and>
        verifyPassword c p (ar_salt s) (ar_hash s))"
proof -
  let ?b = "insert_admin now gap name a"
  have okb: "accounts_ok ?b"
    using EnsureAdminUser_ok [OF ok, of c now gap None name "[]"]
    by (simp add: EnsureAdminUser_def sync_admin_def split: prod.splits option.splits)
  have ok': "accounts_ok a'"
    using EnsureAdminUser_ok [OF ok, of c now gap "Some salt" name p] run by simp
  have sync: "\<exists>s. row_by_name a' name = Some (i, s) \<and> ar_admin s \<and> verifyPassword c p (ar_salt s) (ar_hash s)"
    if b: "row_by_name ?b name = Some (i, r)" "ar_admin r" for i r
  proof (cases "verifyPassword c p (ar_salt r) (ar_hash r)")
    case True
    then have "a' = ?b" using run b by (simp add: EnsureAdminUser_def sync_admin_def)
    then show ?thesis using b True by simp
  next
    case False
    then obtain h where h: "hashPassword c p (hex_encode salt) = Some h"
      and a': "a' = set_row i (r\<lparr>ar_salt := hex_encode salt, ar_hash := h, ar_updated_ms := unix_milli now\<rparr>) ?b"
      using run b p by (auto simp: EnsureAdminUser_def sync_admin_def passwordFields_def Let_def split: option.splits)
    have "nocase (ar_username r) name" using row_by_name_Some(2) [OF b(1)] .
    then have "row_by_name a' name =
        Some (i, r\<lparr>ar_salt := hex_encode salt, ar_hash := h, ar_updated_ms := unix_milli now\<rparr>)"
      using ok' by (subst row_by_name_iff) (simp_all add: accounts_ok_def a')
    then show ?thesis using b(2) h by (simp add: verifyPassword_def)
  qed
  show ?thesis
  proof (cases "row_by_name a name")
    case None
    then obtain r where "?b = insert_user r a" "ar_admin r" "ar_username r = name"
      by (simp add: insert_admin_def)
    moreover have "row_by_name (insert_user r a) name = Some (ac_seq a + 1, r)" if "ar_username r = name" for r
      using None that by (simp add: row_by_name_def find_append_one)
    ultimately show ?thesis using None sync by auto
  next
    case (Some x)
    then have "row_by_name ?b name = Some x" by (simp add: insert_admin_def row_by_name_def)
    moreover have "a' = ?b" if "\<not> ar_admin (snd x)"
      using run that Some calculation
      by (auto simp: EnsureAdminUser_def sync_admin_def split: if_splits option.splits prod.splits)
    ultimately show ?thesis using Some sync by (cases x) auto
  qed
qed

section \<open>Concrete stores\<close>

definition ann :: account_row where
  "ann = regular_row 0 ''ann'' [] [] [] ''member'' ([], [])"

definition ann_store :: accounts where
  "ann_store = insert_user ann empty_accounts"

lemma ann_simps: "ar_username ann = ''ann''" "ar_role ann = ''member''" "\<not> ar_admin ann"
  by (simp_all add: ann_def)

lemma ann_store_ok: "accounts_ok ann_store"
  unfolding ann_store_def
  by (rule accounts_ok_insert_user [OF empty_accounts_ok]) (simp add: usernameTaken_def empty_accounts_def)

lemma ann_row: "row_by_id ann_store 1 = Some ann"
  by (simp add: ann_store_def row_by_id_def empty_accounts_def)

definition salt16 :: string where
  "salt16 = replicate 16 (CHR ''s'')"

lemma salt16_hash: "hashPassword sample_crypto p (hex_encode salt16) = Some (hex_encode (pad32 p))"
  by (rule sample_hash) (simp add: salt16_def)

lemma salt16_fields: "passwordFields sample_crypto (Some salt16) p = Some (hex_encode salt16, hex_encode (pad32 p))"
  by (simp add: passwordFields_def Let_def salt16_hash)

theorem admin_row_protected_witness:
  "\<exists>s. row_by_id (run_accounts sample_crypto [(5, OpDelete 1), (6, OpSetPassword (Some salt16) 1 ''x'')]
      (insert_admin 0 0 ''root'' empty_accounts)) 1 = Some s \<and> ar_admin s"
proof -
  let ?a = "insert_admin 0 0 ''root'' empty_accounts"
  have "accounts_ok ?a"
    using EnsureAdminUser_ok [OF empty_accounts_ok, of sample_crypto 0 0 None "''root''" "[]"]
    by (simp add: EnsureAdminUser_def sync_admin_def split: prod.splits option.splits)
  moreover obtain r where "row_by_id ?a 1 = Some r" "ar_admin r"
    by (simp add: insert_admin_def row_by_name_def row_by_id_def empty_accounts_def)
  ultimately show ?thesis
    using admin_row_protected [of ?a 1 r sample_crypto] by (meson same_identity_def)
qed

theorem sign_in_exact_witness:
  "\<exists>a'. SetUserPassword sample_crypto 5 (Some salt16) 1 ''secret12'' ann_store = Inr a' \<and>
    (\<exists>u. Authenticate sample_crypto (run_accounts sample_crypto [(7, OpAudit ''x'' ''y'' [])] a') ''ANN'' ''secret12''
      = Inr u \<and> uv_id u = 1) \<and>
    Authenticate sample_crypto (run_accounts sample_crypto [(7, OpAudit ''x'' ''y'' [])] a') ''ann'' ''other''
      = Inl BadCredentials"
proof -
  obtain a' where a': "SetUserPassword sample_crypto 5 (Some salt16) 1 ''secret12'' ann_store = Inr a'"
    by (simp add: SetUserPassword_def inspect_user_def ann_row ann_simps salt16_fields)
  have "nocase ''ann'' ''ANN''" by code_simp
  then have n: "nocase (ar_username ann) ''ANN''" "nocase (ar_username ann) ''ann''"
    by (simp_all add: ann_simps)
  have ne: "salt16 \<noteq> []" "ar_role ann \<noteq> []" by (simp_all add: salt16_def ann_simps)
  have x: "list_all (\<lambda>x. \<not> credential_op 1 (snd x)) [(7, OpAudit ''x'' ''y'' [])]" by simp
  have d: "hex_encode (pad32 ''other'') \<noteq> hex_encode (pad32 ''secret12'')"
    unfolding hex_encode_inj by (simp add: pad32_def)
  note S = sign_in_exact [OF ann_store_ok ann_row ne(2) a' ne(1) x]
  show ?thesis
    using S [OF n(1) sample_hmac, of "''secret12''"] S [OF n(2) sample_hmac, of "''other''"] a' d
    by (simp add: salt16_hash)
qed

text \<open>A store in which Ann holds a reset token.\<close>

definition token_row :: reset_row where
  "token_row =
     \<lparr> rs_user = 1, rs_hash = tokenHashHex sample_crypto (hex_encode salt16), rs_expires_ms = 3600005,
       rs_used_ms = 0, rs_created_ms = 5 \<rparr>"

definition token_store :: accounts where
  "token_store = ann_store\<lparr>ac_resets := [token_row]\<rparr>"

lemma ann_token:
  "CreatePasswordReset sample_crypto 5000000 (Some salt16) 1 ann_store = Inr (token_store, hex_encode salt16)"
proof -
  have "ac_resets ann_store = []" by (simp add: ann_store_def empty_accounts_def)
  then show ?thesis
    by (simp add: CreatePasswordReset_def inspect_user_def ann_row ann_simps Let_def token_store_def
        token_row_def unix_milli_def reset_hour_ms_def)
qed

lemma token_lookup: "consume_lookup sample_crypto 6000000 token_store (hex_encode salt16) = Inr token_row"
  by (simp add: consume_lookup_def reset_row_of_def token_store_def token_row_def reset_valid_def unix_milli_def)

theorem reset_token_once_witness:
  "\<exists>a' u. ConsumePasswordReset sample_crypto 6000000 (hex_encode salt16) token_store = Inr (a', u) \<and>
    ConsumePasswordReset sample_crypto 7000000 (hex_encode salt16)
      (run_accounts sample_crypto [(6000000, OpAudit ''ann'' ''password-reset'' [])] a') = Inl PasswordResetInvalid"
proof -
  obtain a' where a': "ConsumePasswordReset sample_crypto 6000000 (hex_encode salt16) token_store = Inr (a', 1)"
    by (simp add: ConsumePasswordReset_def token_lookup token_row_def)
  then show ?thesis
    using reset_token_once [OF a', of "[(6000000, OpAudit ''ann'' ''password-reset'' [])]" 7000000] by auto
qed

theorem reset_token_race_witness:
  "fst (run_schedule sample_crypto 6000000 (hex_encode salt16) [0, 1, 0, 1] ([Fresh, Fresh], token_store)) =
    [Granted 1, Granted 1]"
  using reset_token_race [OF token_lookup] by (simp add: token_row_def)

theorem reset_token_lifetime_witness:
  "ConsumePasswordReset sample_crypto 3700000000000 (hex_encode salt16) token_store = Inl PasswordResetInvalid"
proof -
  have "tokenHashHex sample_crypto ''old'' \<noteq> tokenHashHex sample_crypto (hex_encode salt16)"
  proof -
    have "take 1 (hex_encode salt16) = ''7''" by code_simp
    then have "pad32 ''old'' \<noteq> pad32 (hex_encode salt16)"
      by (cases "hex_encode salt16") (auto simp: pad32_def)
    then show ?thesis by (simp add: tokenHashHex_def hex_encode_inj sample_crypto_def)
  qed
  moreover have "ac_resets ann_store = []" by (simp add: ann_store_def empty_accounts_def)
  ultimately show ?thesis
    using reset_token_lifetime [OF ann_token, of "''old''" 3700000000000] by (simp add: unix_milli_def)
qed

theorem user_pages_complete_witness:
  "concat (map (\<lambda>p. fst (ListUsers ann_store p 10)) [1..page_count (length (ac_users ann_store)) 10]) =
    [view_user ann_store (1, ann)]"
proof -
  have "users_by_name ann_store = [(1, ann)]"
    by (simp add: users_by_name_def ann_store_def empty_accounts_def)
  then have "map (view_user ann_store) (users_by_name ann_store) = [view_user ann_store (1, ann)]" by simp
  moreover have "1 \<le> (10 :: int)" by simp
  ultimately show ?thesis using user_pages_complete [of 10 ann_store 1] by metis
qed

theorem admin_seeded_witness:
  "\<exists>a' i s. EnsureAdminUser sample_crypto 5 0 (Some salt16) ''root'' ''secret12'' ann_store = (a', None) \<and>
    row_by_name a' ''root'' = Some (i, s) \<and> ar_admin s"
proof -
  have none: "row_by_name ann_store ''root'' = None"
  proof -
    have "\<not> nocase ''ann'' ''root''" by code_simp
    then show ?thesis by (simp add: row_by_name_def ann_store_def empty_accounts_def ann_simps)
  qed
  obtain a' e where run: "EnsureAdminUser sample_crypto 5 0 (Some salt16) ''root'' ''secret12'' ann_store = (a', e)"
    by (cases "EnsureAdminUser sample_crypto 5 0 (Some salt16) ''root'' ''secret12'' ann_store")
  have "e = None"
  proof -
    obtain r where b: "insert_admin 5 0 ''root'' ann_store = insert_user r ann_store" "ar_username r = ''root''"
      "ar_hash r = []" "ar_salt r = []"
      using none by (simp add: insert_admin_def)
    have "row_by_name (insert_user r ann_store) ''root'' \<noteq> None"
      using b(2) by (auto simp: row_by_name_None)
    then show ?thesis
      using run by (auto simp: EnsureAdminUser_def sync_admin_def b salt16_fields split: if_splits option.splits)
  qed
  then show ?thesis
    using admin_seeded [OF ann_store_ok _ run [unfolded \<open>e = None\<close>]] run none by auto
qed

theorem empty_password_signs_in_witness:
  "\<exists>a1 u a2 v w.
    CreateUser sample_crypto 5 (Some salt16) ''bob'' [] [] [] [] [] empty_accounts = Inr (a1, u) \<and>
    UpdateUser sample_crypto 6 None (uv_id u) ''bob'' [] [] [] ''member'' [] a1 = Inr (a2, v) \<and>
    Authenticate sample_crypto a2 ''bob'' [] = Inr w \<and> uv_role w = ''member''"
proof -
  obtain a1 u where cr: "CreateUser sample_crypto 5 (Some salt16) ''bob'' [] [] [] [] [] empty_accounts = Inr (a1, u)"
    by (simp add: CreateUser_def usernameTaken_def salt16_fields Let_def empty_accounts_def)
  then have u: "uv_id u = 1" and a1: "ac_users a1 = [(1, regular_row 5 ''bob'' [] [] [] []
      (hex_encode salt16, hex_encode (pad32 [])))]"
    by (auto simp: CreateUser_Inr salt16_fields empty_accounts_def subscribe_all_def)
  obtain a2 v where up: "UpdateUser sample_crypto 6 None (uv_id u) ''bob'' [] [] [] ''member'' [] a1 = Inr (a2, v)"
    by (simp add: UpdateUser_def usernameTaken_def u a1 update_regular_def row_by_id_def Let_def)
  have ne: "''member'' \<noteq> []" "salt16 \<noteq> []" by (simp_all add: salt16_def)
  from empty_password_signs_in [OF empty_accounts_ok ne cr up sample_hmac] cr up show ?thesis by blast
qed

end
