(* ===== verification/Web_Auth.thy ===== *)
theory Web_Auth
  imports Account_Tokens Audit_Buffers
begin

text \<open>
  Sign-in to the dashboard: the in-memory sessions, the login limiter, the CSRF checks and the
  route guards of \<open>internal/web/auth.go\<close> and \<open>server.go\<close>, the audit buffer (\<open>auditlog.go\<close>) and the
  login and logout handlers (\<open>handlers.go\<close>).  Random tokens and the clock are arguments; a request
  is read at one instant.  Of a response the model keeps the redirect, error or page and what it
  does to the session cookie.
\<close>

section \<open>Requests and responses\<close>

record request =
  rq_form_ok :: bool
  rq_form :: "(string \<times> string) list"
  rq_session :: "string option"
  rq_csrf :: "string option"
  rq_remote :: string
  rq_path_id :: string
  rq_host :: string
  rq_query :: "(string \<times> string) list"

datatype reply =
    Redirect string
  | HttpError nat string
  | Rendered nat string string string

record response =
  rp_reply :: reply
  rp_cookie :: "string option"

definition plain_response :: "reply \<Rightarrow> response" where
  "plain_response r = \<lparr>rp_reply = r, rp_cookie = None\<rparr>"

text \<open>\<open>PostFormValue\<close> is the first value or empty; \<open>r.PostForm[k]\<close> are all of them.\<close>

definition form_value :: "request \<Rightarrow> string \<Rightarrow> string" where
  "form_value rq k = (case map_of (rq_form rq) k of None \<Rightarrow> [] | Some v \<Rightarrow> v)"

definition form_values :: "request \<Rightarrow> string \<Rightarrow> string list" where
  "form_values rq k = map snd (filter (\<lambda>x. fst x = k) (rq_form rq))"

section \<open>Sessions\<close>

record session =
  se_username :: string
  se_role :: string
  se_csrf :: string
  se_expires :: time

definition sessionTTL :: time where
  "sessionTTL = 24 * 3600 * 1000000000"

definition maxSessions :: nat where
  "maxSessions = 4096"

definition sweepLocked :: "time \<Rightarrow> (string \<times> session) list \<Rightarrow> (string \<times> session) list" where
  "sweepLocked now m = filter (\<lambda>x. \<not> now > se_expires (snd x)) m"

text \<open>\<open>newSession\<close> with the two random tokens, \<open>None\<close> when \<open>rand.Read\<close> fails.\<close>

definition newSession ::
    "time \<Rightarrow> string option \<Rightarrow> string option \<Rightarrow> string \<Rightarrow> string \<Rightarrow> (string \<times> session) list \<Rightarrow>
      (string \<times> (string \<times> session) list) option" where
  "newSession now tok csrf username role m =
     (case (tok, csrf) of
        (Some t, Some c) \<Rightarrow>
          let s = \<lparr>se_username = username, se_role = role, se_csrf = c, se_expires = now + sessionTTL\<rparr>;
              base = (if length m \<ge> maxSessions then sweepLocked now m else m)
          in Some (t, AList.update t s base)
      | _ \<Rightarrow> None)"

definition get_session ::
    "time \<Rightarrow> string \<Rightarrow> (string \<times> session) list \<Rightarrow> session option \<times> (string \<times> session) list" where
  "get_session now token m =
     (if token = [] then (None, m)
      else (case map_of m token of
              None \<Rightarrow> (None, m)
            | Some s \<Rightarrow> if now > se_expires s then (None, AList.delete token m) else (Some s, m)))"

definition delete_session :: "string \<Rightarrow> (string \<times> session) list \<Rightarrow> (string \<times> session) list" where
  "delete_session token m = AList.delete token m"

definition currentSession ::
    "time \<Rightarrow> request \<Rightarrow> (string \<times> session) list \<Rightarrow> session option \<times> (string \<times> session) list" where
  "currentSession now rq m =
     (case rq_session rq of None \<Rightarrow> (None, m) | Some v \<Rightarrow> get_session now v m)"

text \<open>Constant-time comparisons of texts, which are equality.\<close>

definition checkPassword :: "string \<Rightarrow> string \<Rightarrow> bool" where
  "checkPassword got want \<longleftrightarrow> (if length got \<noteq> length want then False else got = want)"

definition checkUsername :: "string \<Rightarrow> string \<Rightarrow> bool" where
  "checkUsername got want \<longleftrightarrow> (if length got \<noteq> length want then False else got = want)"

definition csrfOK :: "string \<Rightarrow> string \<Rightarrow> bool" where
  "csrfOK got want \<longleftrightarrow> (if got = [] \<or> want = [] then False else got = want)"

lemma check_eq [simp]: "checkPassword got want \<longleftrightarrow> got = want" "checkUsername got want \<longleftrightarrow> got = want"
  by (auto simp: checkPassword_def checkUsername_def)

section \<open>The login limiter\<close>

record login_fail =
  lf_count :: nat
  lf_locked :: time

type_synonym fails = "(string \<times> login_fail) list"

definition second :: time where
  "second = 1000000000"

definition loginBackoff :: "nat \<Rightarrow> time" where
  "loginBackoff n =
     (if n < 5 then 0
      else let d = (int n - 4) * 30 * second in if d > 5 * 60 * second then 5 * 60 * second else d)"

definition retryIn :: "time \<Rightarrow> string \<Rightarrow> fails \<Rightarrow> time \<times> fails" where
  "retryIn now key l =
     (case map_of l key of
        None \<Rightarrow> (0, l)
      | Some f \<Rightarrow>
          if lf_locked f - now > 0 then (lf_locked f - now, l)
          else if lf_count f \<ge> 5 then (0, AList.delete key l) else (0, l))"

definition record_attempt :: "time \<Rightarrow> string \<Rightarrow> bool \<Rightarrow> fails \<Rightarrow> fails" where
  "record_attempt now key ok l =
     (if ok then AList.delete key l
      else let n = (case map_of l key of None \<Rightarrow> 0 | Some f \<Rightarrow> lf_count f) + 1;
               l' = AList.update key \<lparr>lf_count = n, lf_locked = now + loginBackoff n\<rparr> l
           in if length l' > 1024 then filter (\<lambda>x. \<not> now > lf_locked (snd x)) l' else l')"

section \<open>The audit buffer\<close>

record audit_entry =
  ae_seq :: int
  ae_at :: time
  ae_user :: string
  ae_action :: string
  ae_detail :: string

record audit_buffer =
  ab_max :: nat
  ab_next_seq :: int
  ab_entries :: "audit_entry list"

definition DefaultAuditEntries :: nat where
  "DefaultAuditEntries = 500"

definition NewAuditBuffer :: "int \<Rightarrow> audit_buffer" where
  "NewAuditBuffer mx =
     \<lparr>ab_max = (if mx < 1 then DefaultAuditEntries else nat mx), ab_next_seq = 0, ab_entries = []\<rparr>"

definition audit_add :: "time \<Rightarrow> string \<Rightarrow> string \<Rightarrow> string \<Rightarrow> audit_buffer \<Rightarrow> audit_buffer" where
  "audit_add now user action detail b =
     b\<lparr> ab_next_seq := ab_next_seq b + 1,
        ab_entries := keep_last (ab_max b) (ab_entries b @
          [\<lparr>ae_seq = ab_next_seq b + 1, ae_at = now, ae_user = user, ae_action = action, ae_detail = detail\<rparr>]) \<rparr>"

definition audit_snapshot :: "int \<Rightarrow> audit_buffer \<Rightarrow> audit_entry list" where
  "audit_snapshot after b = filter (\<lambda>e. ae_seq e > after) (ab_entries b)"

section \<open>The server\<close>

text \<open>\<open>wc_quote\<close> is the verb \<open>%q\<close> of \<open>fmt\<close>.\<close>

record web_config =
  wc_username :: string
  wc_password :: string
  wc_secure :: bool
  wc_domain :: string
  wc_name :: string
  wc_title :: string
  wc_quote :: "string \<Rightarrow> string"

definition displayName :: "web_config \<Rightarrow> string" where
  "displayName cfg = (if wc_name cfg \<noteq> [] then wc_name cfg else wc_title cfg)"

record web =
  wb_sessions :: "(string \<times> session) list"
  wb_fails :: fails
  wb_audit :: audit_buffer
  wb_accounts :: accounts

definition audit :: "time \<Rightarrow> string \<Rightarrow> string \<Rightarrow> string \<Rightarrow> web \<Rightarrow> web" where
  "audit now user action detail w =
     w\<lparr> wb_audit := audit_add now user action detail (wb_audit w),
        wb_accounts := RecordAudit user action detail now (wb_accounts w) \<rparr>"

text \<open>The session of the request, with the expired one removed.\<close>

definition with_session :: "time \<Rightarrow> request \<Rightarrow> web \<Rightarrow> (session option \<Rightarrow> web \<Rightarrow> response \<times> web) \<Rightarrow> response \<times> web"
  where
  "with_session now rq w k =
     (case currentSession now rq (wb_sessions w) of (s, m) \<Rightarrow> k s (w\<lparr>wb_sessions := m\<rparr>))"

definition landingForRole :: "string \<Rightarrow> string" where
  "landingForRole role = ''/dashboard''"

definition limiter_key :: "request \<Rightarrow> string" where
  "limiter_key rq = to_lower (trim_space (form_value rq ''username'')) @ CHR 0x00 # rq_remote rq"

text \<open>The role that a pair of credentials gets, empty when it gets none.\<close>

definition login_role :: "web_config \<Rightarrow> crypto \<Rightarrow> accounts \<Rightarrow> string \<Rightarrow> string \<Rightarrow> string" where
  "login_role cfg c a username password =
     (if checkUsername username (wc_username cfg) \<and> checkPassword password (wc_password cfg) then ''admin''
      else (case Authenticate c a username password of
              Inr u \<Rightarrow> if uv_role u \<noteq> [] then uv_role u else []
            | Inl e \<Rightarrow> []))"

definition csrf_cookie_ok :: "request \<Rightarrow> bool" where
  "csrf_cookie_ok rq \<longleftrightarrow>
     (case rq_csrf rq of None \<Rightarrow> False | Some v \<Rightarrow> csrfOK (form_value rq ''csrf'') v)"

definition handleLoginSubmit ::
    "web_config \<Rightarrow> crypto \<Rightarrow> time \<Rightarrow> string option \<Rightarrow> string option \<Rightarrow> request \<Rightarrow> web \<Rightarrow> response \<times> web" where
  "handleLoginSubmit cfg c now tok csrf rq w =
     (if \<not> rq_form_ok rq then (plain_response (HttpError 400 ''bad request''), w)
      else if \<not> csrf_cookie_ok rq then (plain_response (HttpError 403 ''invalid csrf token''), w)
      else
        let username = form_value rq ''username''; password = form_value rq ''password'';
            key = limiter_key rq; (wait, l) = retryIn now key (wb_fails w); w1 = w\<lparr>wb_fails := l\<rparr>
        in if wait > 0 then (plain_response (HttpError 429 ''too many attempts, retry later''), w1)
           else
             let role = login_role cfg c (wb_accounts w1) username password
             in if role = []
                then (plain_response (Rendered 401 ''login'' ''login.error'' []),
                      audit now username ''login-failed'' (rq_remote rq)
                        (w1\<lparr>wb_fails := record_attempt now key False l\<rparr>))
                else let w2 = w1\<lparr>wb_fails := record_attempt now key True l\<rparr>
                     in (case newSession now tok csrf username role (wb_sessions w2) of
                           None \<Rightarrow> (plain_response (HttpError 500 ''internal error''), w2)
                         | Some (t, m) \<Rightarrow>
                             (\<lparr>rp_reply = Redirect (landingForRole role), rp_cookie = Some t\<rparr>,
                              audit now username ''login'' (''role='' @ role) (w2\<lparr>wb_sessions := m\<rparr>))))"

definition handleLogout :: "time \<Rightarrow> request \<Rightarrow> web \<Rightarrow> response \<times> web" where
  "handleLogout now rq w =
     with_session now rq w (\<lambda>s w.
       case s of
         None \<Rightarrow> (plain_response (Redirect ''/login''), w)
       | Some se \<Rightarrow>
           if \<not> rq_form_ok rq then (plain_response (HttpError 400 ''bad request''), w)
           else if \<not> csrfOK (form_value rq ''csrf'') (se_csrf se)
           then (plain_response (HttpError 403 ''invalid csrf token''), w)
           else
             let m = (case rq_session rq of None \<Rightarrow> wb_sessions w | Some v \<Rightarrow> delete_session v (wb_sessions w))
             in (\<lparr>rp_reply = Redirect ''/login'', rp_cookie = Some []\<rparr>,
                 audit now (se_username se) ''logout'' [] (w\<lparr>wb_sessions := m\<rparr>)))"

section \<open>Guards\<close>

datatype guard = Open | Page | PagePartial | Compose | Admin | AdminPartial

definition run_guard ::
    "time \<Rightarrow> guard \<Rightarrow> request \<Rightarrow> (request \<Rightarrow> web \<Rightarrow> response \<times> web) \<Rightarrow> web \<Rightarrow> response \<times> web" where
  "run_guard now g rq body w =
     (if g = Open then body rq w
      else with_session now rq w (\<lambda>s w.
        case (g, s) of
          (PagePartial, None) \<Rightarrow> (plain_response (HttpError 401 ''unauthorized''), w)
        | (AdminPartial, None) \<Rightarrow> (plain_response (HttpError 401 ''unauthorized''), w)
        | (_, None) \<Rightarrow> (plain_response (Redirect ''/login''), w)
        | (Compose, Some se) \<Rightarrow>
            if se_role se = ''member'' then (plain_response (Redirect (landingForRole (se_role se))), w)
            else body rq w
        | (Admin, Some se) \<Rightarrow>
            if se_role se \<noteq> ''admin'' then (plain_response (Redirect (landingForRole (se_role se))), w)
            else body rq w
        | (AdminPartial, Some se) \<Rightarrow>
            if se_role se \<noteq> ''admin'' then (plain_response (HttpError 401 ''unauthorized''), w)
            else body rq w
        | (_, Some se) \<Rightarrow> body rq w))"

text \<open>\<open>routes\<close>: method, pattern and guard of every route with a handler of the server.\<close>

definition route_table :: "(string \<times> string \<times> guard) list" where
  "route_table =
    [(''GET'', ''/login'', Open), (''POST'', ''/login'', Open), (''POST'', ''/logout'', Open),
     (''GET'', ''/forgot'', Open), (''POST'', ''/forgot'', Open), (''GET'', ''/reset'', Open),
     (''POST'', ''/reset'', Open), (''GET'', ''/{$}'', Open), (''GET'', ''/partials/home'', Open),
     (''GET'', ''/archive'', Open), (''GET'', ''/lang/{code}'', Open),
     (''GET'', ''/api/aprs/stations'', Open), (''GET'', ''/api/events'', Open),
     (''GET'', ''/api/weather'', Open), (''GET'', ''/api/aircraft'', Open), (''GET'', ''/api/airquality'', Open),
     (''GET'', ''/healthz'', Open), (''GET'', ''/readyz'', Open),
     (''GET'', ''/logs'', Admin), (''GET'', ''/partials/logs'', AdminPartial),
     (''GET'', ''/audit'', Admin), (''GET'', ''/partials/audit'', AdminPartial),
     (''GET'', ''/traffic'', Admin), (''GET'', ''/partials/traffic'', AdminPartial),
     (''GET'', ''/api/mqtt/browse'', Admin),
     (''GET'', ''/notifications'', Admin), (''GET'', ''/partials/notifications'', AdminPartial),
     (''GET'', ''/health'', Admin), (''GET'', ''/partials/health'', AdminPartial),
     (''GET'', ''/metrics'', Open), (''POST'', ''/api/v1/ingest/{id}'', Open),
     (''GET'', ''/dashboard'', Page),
     (''GET'', ''/compose'', Compose), (''POST'', ''/compose'', Compose), (''POST'', ''/compose/expire'', Compose),
     (''GET'', ''/emcom'', Compose), (''POST'', ''/emcom'', Compose),
     (''POST'', ''/emcom/{slug}/level'', Compose), (''POST'', ''/emcom/{slug}/delete'', Compose),
     (''GET'', ''/account'', Page), (''POST'', ''/account'', Page),
     (''GET'', ''/users'', Admin), (''POST'', ''/users'', Admin),
     (''POST'', ''/users/{id}/delete'', Admin), (''POST'', ''/users/{id}/prefs'', Admin),
     (''POST'', ''/users/{id}/reset'', Admin),
     (''GET'', ''/groups'', Admin), (''POST'', ''/groups'', Admin), (''POST'', ''/groups/{id}/delete'', Admin),
     (''GET'', ''/groups/{id}/routing'', Admin), (''POST'', ''/groups/{id}/routing'', Admin),
     (''GET'', ''/partials/status'', PagePartial), (''GET'', ''/partials/mqtt'', PagePartial),
     (''GET'', ''/partials/weather'', PagePartial), (''GET'', ''/partials/warnings'', PagePartial),
     (''GET'', ''/partials/plugins'', PagePartial), (''GET'', ''/partials/actions'', PagePartial)]"

definition guard_of :: "string \<Rightarrow> string \<Rightarrow> guard option" where
  "guard_of method pattern =
     map_option (\<lambda>x. snd (snd x)) (find (\<lambda>x. fst x = method \<and> fst (snd x) = pattern) route_table)"

end
