(* ===== verification/Web_Login.thy ===== *)
theory Web_Login
  imports Web_Auth
begin

text \<open>
  What sign-in guarantees: the session table is a map with expiry, it is not bounded by its
  constant, the limiter locks a key and not an attacker who changes the connection, and the audit
  buffer keeps the last entries.
\<close>

section \<open>Sessions as a map with expiry\<close>

datatype session_op = NewSession string string string string | GetSession string | DropSession string

text \<open>The table, and the map that only remembers the last write of every token.\<close>

fun session_step :: "time \<Rightarrow> session_op \<Rightarrow> (string \<times> session) list \<Rightarrow> (string \<times> session) list" where
  "session_step now (NewSession t c u r) m =
     (case newSession now (Some t) (Some c) u r m of None \<Rightarrow> m | Some (_, m') \<Rightarrow> m')"
| "session_step now (GetSession t) m = snd (get_session now t m)"
| "session_step now (DropSession t) m = delete_session t m"

fun ghost_step :: "time \<Rightarrow> session_op \<Rightarrow> (string \<Rightarrow> session option) \<Rightarrow> string \<Rightarrow> session option" where
  "ghost_step now (NewSession t c u r) g =
     g(t \<mapsto> \<lparr>se_username = u, se_role = r, se_csrf = c, se_expires = now + sessionTTL\<rparr>)"
| "ghost_step now (GetSession t) g = g"
| "ghost_step now (DropSession t) g = g(t := None)"

fun run_sessions :: "(time \<times> session_op) list \<Rightarrow> (string \<times> session) list \<Rightarrow> (string \<times> session) list" where
  "run_sessions [] m = m"
| "run_sessions (x # xs) m = run_sessions xs (session_step (fst x) (snd x) m)"

fun run_ghost :: "(time \<times> session_op) list \<Rightarrow> (string \<Rightarrow> session option) \<Rightarrow> string \<Rightarrow> session option" where
  "run_ghost [] g = g"
| "run_ghost (x # xs) g = run_ghost xs (ghost_step (fst x) (snd x) g)"

definition live :: "time \<Rightarrow> session option \<Rightarrow> session option" where
  "live now s = (case s of None \<Rightarrow> None | Some x \<Rightarrow> if now > se_expires x then None else Some x)"

text \<open>From time \<open>t\<close> on, table and map agree on what is still live.\<close>

definition sessions_agree :: "time \<Rightarrow> (string \<times> session) list \<Rightarrow> (string \<Rightarrow> session option) \<Rightarrow> bool" where
  "sessions_agree t m g \<longleftrightarrow> table_ok m \<and> (\<forall>now k. t \<le> now \<longrightarrow> live now (map_of m k) = live now (g k))"

lemma live_mono: "live t x = live t y \<Longrightarrow> live t x = None \<Longrightarrow> t \<le> now \<Longrightarrow> live now x = None"
  by (auto simp: live_def split: option.splits if_splits)

lemma table_ok_delete_key: "table_ok m \<Longrightarrow> table_ok (AList.delete k m)"
  by (simp add: table_ok_def distinct_delete)

lemma map_of_sweep:
  "table_ok m \<Longrightarrow> map_of (sweepLocked now m) k = live now (map_of m k)"
  by (simp add: sweepLocked_def map_of_filter_table live_def split: option.split)

lemma live_live: "t \<le> now \<Longrightarrow> live now (live t x) = live now x"
  by (auto simp: live_def split: option.split)

lemma session_step_agree:
  assumes ag: "sessions_agree t m g" and t: "t \<le> now"
  shows "sessions_agree now (session_step now op m) (ghost_step now op g)"
proof (cases op)
  case (NewSession k c u r)
  let ?base = "if length m \<ge> maxSessions then sweepLocked now m else m"
  have "table_ok ?base" using ag by (simp add: sessions_agree_def sweepLocked_def)
  moreover have "live n (map_of ?base j) = live n (g j)" if "now \<le> n" for n j
    using ag t that by (simp add: sessions_agree_def map_of_sweep live_live)
  ultimately show ?thesis
    by (auto simp: NewSession newSession_def Let_def sessions_agree_def)
next
  case (GetSession k)
  have tab: "table_ok m" using ag by (simp add: sessions_agree_def)
  have "live n (map_of (snd (get_session now k m)) j) = live n (map_of m j)" if "now \<le> n" for n j
    using that by (auto simp: get_session_def delete_conv' live_def split: option.split)
  moreover have "table_ok (snd (get_session now k m))"
    using tab by (simp add: get_session_def table_ok_delete_key split: option.split)
  ultimately show ?thesis using ag t by (simp add: GetSession sessions_agree_def)
next
  case (DropSession k)
  then show ?thesis
    using ag t by (auto simp: sessions_agree_def delete_session_def delete_conv' table_ok_delete_key live_def)
qed

lemma run_sessions_agree:
  "\<lbrakk>sessions_agree t m g; sorted (t # map fst xs); \<forall>x\<in>set xs. fst x \<le> now; t \<le> now\<rbrakk> \<Longrightarrow>
    sessions_agree now (run_sessions xs m) (run_ghost xs g)"
proof (induction xs arbitrary: t m g)
  case Nil
  then show ?case by (auto simp: sessions_agree_def)
next
  case (Cons x xs)
  then have "sessions_agree (fst x) (session_step (fst x) (snd x) m) (ghost_step (fst x) (snd x) g)"
    by (intro session_step_agree) auto
  then show ?case using Cons by simp
qed

text \<open>
  C33: at any moment a token gets exactly the session that was last created under it, unless it was
  deleted since or its 24 hours are over; sweeping and the removal of expired sessions are never
  visible.
\<close>

theorem session_lookup_exact:
  assumes "sorted (map fst xs)" "\<forall>x\<in>set xs. fst x \<le> now" "token \<noteq> []"
  shows "fst (get_session now token (run_sessions xs [])) = live now (run_ghost xs (\<lambda>_. None) token)"
proof -
  let ?t = "case xs of [] \<Rightarrow> now | x # _ \<Rightarrow> fst x"
  have srt: "sorted (?t # map fst xs)" and le: "?t \<le> now" using assms by (cases xs; simp)+
  have "sessions_agree ?t [] (\<lambda>_. None)" by (simp add: sessions_agree_def)
  then have "sessions_agree now (run_sessions xs []) (run_ghost xs (\<lambda>_. None))"
    by (rule run_sessions_agree [OF _ srt assms(2) le])
  then have "live now (map_of (run_sessions xs []) token) = live now (run_ghost xs (\<lambda>_. None) token)"
    by (simp add: sessions_agree_def)
  moreover have "fst (get_session now token m) = live now (map_of m token)" for m
    using assms(3) by (simp add: get_session_def live_def split: option.split)
  ultimately show ?thesis by simp
qed

theorem session_lookup_exact_witness:
  "map_option se_role (fst (get_session 9 ''a'' (run_sessions
     [(1, NewSession ''a'' ''x'' ''ann'' ''member''), (2, NewSession ''b'' ''y'' ''bob'' ''emcom''),
      (3, GetSession ''b''), (4, DropSession ''b'')] []))) = Some ''member''"
  using session_lookup_exact [of "[(1, NewSession ''a'' ''x'' ''ann'' ''member''),
      (2, NewSession ''b'' ''y'' ''bob'' ''emcom''), (3, GetSession ''b''), (4, DropSession ''b'')]" 9 "''a''"]
  by (simp add: live_def sessionTTL_def)

text \<open>
  \<open>maxSessions\<close> is no bound: any number of sign-ins within a day leaves as many sessions.
\<close>

theorem sessions_unbounded:
  "length (run_sessions (map (\<lambda>k. (now, NewSession (replicate (k + 1) (CHR ''t'')) ''c'' u r)) [0..<n]) []) = n"
proof -
  let ?tok = "\<lambda>k. replicate (k + 1) (CHR ''t'')"
  have "length (run_sessions (map (\<lambda>k. (now, NewSession (?tok k) ''c'' u r)) [i..<i + d]) m) = length m + d"
    if "\<forall>x\<in>set m. \<not> now > se_expires (snd x)" "\<forall>x\<in>set m. length (fst x) \<le> i" for i d and m :: "(string \<times> session) list"
    using that
  proof (induction d arbitrary: i m)
    case (Suc d)
    let ?s = "\<lparr>se_username = u, se_role = r, se_csrf = ''c'', se_expires = now + sessionTTL\<rparr>"
    have "?tok i \<notin> fst ` set m" using Suc.prems(2) by force
    then have up: "AList.update (?tok i) ?s m = m @ [(?tok i, ?s)]" by (induction m) auto
    have "sweepLocked now m = m" using Suc.prems(1) by (simp add: sweepLocked_def)
    then have st: "session_step now (NewSession (?tok i) ''c'' u r) m = m @ [(?tok i, ?s)]"
      using up by (simp add: newSession_def Let_def)
    have "[i..<i + Suc d] = i # [Suc i..<Suc i + d]" by (simp add: upt_conv_Cons)
    moreover have "length (run_sessions (map (\<lambda>k. (now, NewSession (?tok k) ''c'' u r)) [Suc i..<Suc i + d])
        (m @ [(?tok i, ?s)])) = length (m @ [(?tok i, ?s)]) + d"
      using Suc.prems by (intro Suc.IH) (auto simp: sessionTTL_def)
    ultimately show ?case using st by (simp only: list.map run_sessions.simps fst_conv snd_conv) simp
  qed simp
  from this [of "[]" 0 n] show ?thesis by simp
qed

section \<open>The limiter\<close>

text \<open>The responses of a series of login requests.\<close>

record attempt =
  at_time :: time
  at_request :: request
  at_token :: "string option"
  at_csrf :: "string option"

fun run_logins :: "web_config \<Rightarrow> crypto \<Rightarrow> attempt list \<Rightarrow> web \<Rightarrow> response list \<times> web" where
  "run_logins cfg c [] w = ([], w)"
| "run_logins cfg c (x # xs) w =
     (let (r, w1) = handleLoginSubmit cfg c (at_time x) (at_token x) (at_csrf x) (at_request x) w;
          (rs, w2) = run_logins cfg c xs w1
      in (r # rs, w2))"

definition throttled :: "response \<Rightarrow> bool" where
  "throttled r \<longleftrightarrow> (case rp_reply r of HttpError n s \<Rightarrow> n = 429 | _ \<Rightarrow> False)"

lemma locked_login:
  assumes "map_of (wb_fails w) (limiter_key rq) = Some f" "now < lf_locked f"
    and "rq_form_ok rq" "csrf_cookie_ok rq"
  shows "handleLoginSubmit cfg c now tok csrf rq w =
    (plain_response (HttpError 429 ''too many attempts, retry later''), w)"
  using assms by (simp add: handleLoginSubmit_def retryIn_def)

text \<open>
  once five or more failures have locked a user name and address, every well-formed sign-in
  with them is turned away until the lock ends, with the right password too, and nothing changes.
\<close>

theorem lockout_holds:
  assumes "map_of l key = Some f" "4 \<le> lf_count f" "lf_locked f \<le> now"
    and "wb_fails w = record_attempt now key False l"
    and "\<forall>x\<in>set xs. limiter_key (at_request x) = key \<and> rq_form_ok (at_request x) \<and>
      csrf_cookie_ok (at_request x) \<and> at_time x < now + loginBackoff (lf_count f + 1)"
  shows "list_all throttled (fst (run_logins cfg c xs w)) \<and> snd (run_logins cfg c xs w) = w \<and>
    30 * second \<le> loginBackoff (lf_count f + 1) \<and> loginBackoff (lf_count f + 1) \<le> 300 * second"
proof -
  let ?n = "lf_count f + 1" and ?g = "\<lparr>lf_count = lf_count f + 1, lf_locked = now + loginBackoff (lf_count f + 1)\<rparr>"
  have b: "30 * second \<le> loginBackoff ?n" "loginBackoff ?n \<le> 300 * second"
    using assms(2) by (auto simp: loginBackoff_def Let_def second_def)
  let ?l = "AList.update key ?g l"
  have keep: "map_of (filter (\<lambda>x. \<not> now > lf_locked (snd x)) ?l) key = Some ?g"
  proof -
    have "\<not> now > lf_locked ?g" using b(1) by (simp add: second_def)
    then show ?thesis by (induction l) auto
  qed
  have w: "map_of (wb_fails w) key = Some ?g"
    unfolding assms(4) record_attempt_def using assms(1) keep by (simp add: Let_def)
  have "list_all throttled (fst (run_logins cfg c xs w)) \<and> snd (run_logins cfg c xs w) = w"
    using assms(5)
  proof (induction xs)
    case (Cons x xs)
    then have "handleLoginSubmit cfg c (at_time x) (at_token x) (at_csrf x) (at_request x) w =
        (plain_response (HttpError 429 ''too many attempts, retry later''), w)"
      using w by (intro locked_login) auto
    with Cons show ?case by (simp add: case_prod_beta Let_def throttled_def plain_response_def)
  qed simp
  with b show ?thesis by simp
qed

text \<open>A web server with no state, and a failing sign-in from an address.\<close>

definition fresh_web :: "accounts \<Rightarrow> web" where
  "fresh_web a = \<lparr>wb_sessions = [], wb_fails = [], wb_audit = NewAuditBuffer 500, wb_accounts = a\<rparr>"

definition login_request :: "string \<Rightarrow> string \<Rightarrow> string \<Rightarrow> request" where
  "login_request username password remote =
     \<lparr> rq_form_ok = True,
       rq_form = [(''csrf'', ''c''), (''username'', username), (''password'', password)],
       rq_session = None, rq_csrf = Some ''c'', rq_remote = remote, rq_path_id = [], rq_host = [], rq_query = [] \<rparr>"

lemma login_request_simps [simp]:
  "rq_form_ok (login_request u p r)" "csrf_cookie_ok (login_request u p r)"
  "rq_remote (login_request u p r) = r" "form_value (login_request u p r) ''username'' = u"
  "form_value (login_request u p r) ''password'' = p"
  "limiter_key (login_request u p r) = to_lower (trim_space u) @ CHR 0x00 # r"
  by (simp_all add: login_request_def csrf_cookie_ok_def csrfOK_def form_value_def limiter_key_def)

theorem lockout_holds_witness:
  defines "key \<equiv> limiter_key (login_request ''ann'' ''p'' ''10.0.0.1:5000'')"
  shows "list_all throttled (fst (run_logins cfg c
      [\<lparr>at_time = 20 * second, at_request = login_request ''ann'' ''right'' ''10.0.0.1:5000'',
        at_token = Some ''t'', at_csrf = Some ''x''\<rparr>]
      ((fresh_web a)\<lparr>wb_fails := record_attempt second key False [(key, \<lparr>lf_count = 4, lf_locked = 0\<rparr>)]\<rparr>)))"
proof -
  let ?l = "[(key, \<lparr>lf_count = 4, lf_locked = 0\<rparr>)]"
  have f: "map_of ?l key = Some \<lparr>lf_count = 4, lf_locked = 0\<rparr>" by simp
  show ?thesis
    using lockout_holds [OF f, of second "(fresh_web a)\<lparr>wb_fails := record_attempt second key False ?l\<rparr>"
        "[\<lparr>at_time = 20 * second, at_request = login_request ''ann'' ''right'' ''10.0.0.1:5000'',
        at_token = Some ''t'', at_csrf = Some ''x''\<rparr>]" cfg c]
    by (simp add: second_def loginBackoff_def key_def)
qed

section \<open>What the limiter does not stop\<close>

text \<open>
  \<open>RemoteAddr\<close> is the address with the port of the connection, so requests on different connections
  have different keys.
\<close>

lemma limiter_key_remote:
  assumes "limiter_key rq = limiter_key rq'" "CHR 0x00 \<notin> set (rq_remote rq)" "CHR 0x00 \<notin> set (rq_remote rq')"
  shows "rq_remote rq = rq_remote rq'"
proof -
  have "rev (rq_remote rq) @ CHR 0x00 # rev (to_lower (trim_space (form_value rq ''username''))) =
      rev (rq_remote rq') @ CHR 0x00 # rev (to_lower (trim_space (form_value rq' ''username'')))"
    using arg_cong [OF assms(1), of rev] by (simp add: limiter_key_def)
  then have "rev (rq_remote rq) = rev (rq_remote rq')"
    using assms(2,3) append_sep_eq [of "CHR 0x00" "rev (rq_remote rq)" "rev (rq_remote rq')"] by simp
  then show ?thesis by simp
qed

lemma record_attempt_dom: "fst ` set (record_attempt now key ok l) \<subseteq> insert key (fst ` set l)"
proof -
  have "fst ` set (AList.delete key l) \<subseteq> fst ` set l" by (induction l) auto
  moreover have "fst ` set (filter P (AList.update key v l)) \<subseteq> insert key (fst ` set l)" for P v
    using dom_update [of key v l] by auto
  moreover have "fst ` set (AList.update key v l) \<subseteq> insert key (fst ` set l)" for v
    using dom_update [of key v l] by auto
  ultimately show ?thesis unfolding record_attempt_def Let_def by (simp split: if_split) blast
qed

lemma audit_fails [simp]: "wb_fails (audit now u x d w) = wb_fails w"
  by (simp add: audit_def)

text \<open>
  sign-in attempts that each come over a connection of their own are never throttled, however
  many have failed before, for one user name as for many.
\<close>

theorem limiter_evaded_by_ports:
  assumes "distinct (map (\<lambda>x. rq_remote (at_request x)) xs)"
    and "\<forall>x\<in>set xs. CHR 0x00 \<notin> set (rq_remote (at_request x))" and "wb_fails w = []"
  shows "list_all (\<lambda>r. \<not> throttled r) (fst (run_logins cfg c xs w))"
proof -
  have "list_all (\<lambda>r. \<not> throttled r) (fst (run_logins cfg c xs w))"
    if "\<forall>x\<in>set xs. limiter_key (at_request x) \<notin> fst ` set (wb_fails w)"
      "distinct (map (\<lambda>x. limiter_key (at_request x)) xs)" for xs w
    using that
  proof (induction xs arbitrary: w)
    case (Cons x xs)
    let ?r = "handleLoginSubmit cfg c (at_time x) (at_token x) (at_csrf x) (at_request x) w"
    have new: "map_of (wb_fails w) (limiter_key (at_request x)) = None"
      using Cons.prems(1) by (simp add: map_of_eq_None_iff)
    have "\<not> throttled (fst ?r)"
      using new by (auto simp: handleLoginSubmit_def retryIn_def throttled_def plain_response_def Let_def split: option.split)
    have "fst ` set (wb_fails (snd ?r)) \<subseteq> insert (limiter_key (at_request x)) (fst ` set (wb_fails w))"
      using new record_attempt_dom [of "at_time x" "limiter_key (at_request x)" _ "wb_fails w"]
      by (auto simp: handleLoginSubmit_def retryIn_def Let_def split: option.split)
    then have "\<forall>y\<in>set xs. limiter_key (at_request y) \<notin> fst ` set (wb_fails (snd ?r))"
    proof (intro ballI notI)
      fix y assume y: "y \<in> set xs" "limiter_key (at_request y) \<in> fst ` set (wb_fails (snd ?r))"
      then have "limiter_key (at_request y) = limiter_key (at_request x) \<or>
          limiter_key (at_request y) \<in> fst ` set (wb_fails w)"
        using \<open>fst ` set (wb_fails (snd ?r)) \<subseteq> _\<close> by blast
      moreover have "limiter_key (at_request y) \<noteq> limiter_key (at_request x)"
        using Cons.prems(2) imageI [OF y(1), of "\<lambda>x. limiter_key (at_request x)"] by auto
      ultimately show False using Cons.prems(1) y(1) by simp
    qed
    then have "list_all (\<lambda>r. \<not> throttled r) (fst (run_logins cfg c xs (snd ?r)))"
      using Cons.prems(2) by (intro Cons.IH) auto
    moreover note \<open>\<not> throttled (fst ?r)\<close>
    ultimately show ?case by (simp add: case_prod_beta Let_def)
  qed simp
  moreover have "distinct (map (\<lambda>x. limiter_key (at_request x)) xs)"
    using assms(1,2) by (auto simp: distinct_map inj_on_def dest: limiter_key_remote)
  ultimately show ?thesis using assms(3) by simp
qed

theorem limiter_evaded_by_ports_witness:
  "list_all (\<lambda>r. \<not> throttled r) (fst (run_logins cfg c
     (map (\<lambda>k. \<lparr>at_time = 0, at_request = login_request ''ann'' ''guess'' (''10.0.0.1:'' @ replicate k (CHR ''1'')),
        at_token = None, at_csrf = None\<rparr>) [0..<40]) (fresh_web a)))"
  by (rule limiter_evaded_by_ports) (auto simp: distinct_map inj_on_def fresh_web_def)

section \<open>The audit buffer\<close>

text \<open>It is the ring of the traffic viewer with other columns.\<close>

definition as_traffic :: "audit_buffer \<Rightarrow> traffic_buffer" where
  "as_traffic b =
     \<lparr> tb_max = ab_max b, tb_next_seq = ab_next_seq b,
       tb_entries = map (\<lambda>e. \<lparr> te_seq = ae_seq e, te_at = ae_at e, te_receiver = ae_user e, te_kind = ae_action e,
         te_topic = ae_detail e, te_qos = 0, te_retained = False, te_size = 0 \<rparr>) (ab_entries b) \<rparr>"

lemma keep_last_map: "keep_last n (map f xs) = map f (keep_last n xs)"
  by (simp add: keep_last_def drop_map)

lemma as_traffic_add: "as_traffic (audit_add now u x d b) = traffic_add now u x d 0 False 0 (as_traffic b)"
  by (simp add: as_traffic_def audit_add_def traffic_add_def keep_last_map [symmetric])

text \<open>
  from an empty buffer on, the audit page shows the last entries with consecutive numbers, at
  most the capacity, and a poll from a number on misses none that is retained.
\<close>

theorem audit_buffer_ring:
  "\<exists>b. b = fold (\<lambda>(now, u, x, d). audit_add now u x d) es (NewAuditBuffer mx) \<and>
     map ae_seq (ab_entries b) = [max 0 (ab_next_seq b - int (ab_max b)) + 1..ab_next_seq b] \<and>
     ab_next_seq b = int (length es) \<and> length (ab_entries b) \<le> ab_max b \<and>
     map ae_seq (audit_snapshot after b) = filter (\<lambda>i. after < i) (map ae_seq (ab_entries b))"
proof -
  let ?f = "\<lambda>(now, u, x, d). audit_add now u x d"
  have inv: "traffic_inv (as_traffic (fold ?f es b))" if "traffic_inv (as_traffic b)" for es b
    using that by (induction es arbitrary: b) (auto simp: as_traffic_add traffic_add_inv)
  have n: "ab_next_seq (fold ?f es b) = ab_next_seq b + int (length es)" for es b
    by (induction es arbitrary: b) (auto simp: audit_add_def)
  let ?b = "fold ?f es (NewAuditBuffer mx)"
  have "traffic_inv (as_traffic (NewAuditBuffer mx))"
    by (simp add: traffic_inv_def as_traffic_def NewAuditBuffer_def DefaultAuditEntries_def)
  then have "traffic_inv (as_traffic ?b)" by (rule inv)
  then have m: "map ae_seq (ab_entries ?b) = [max 0 (ab_next_seq ?b - int (ab_max ?b)) + 1..ab_next_seq ?b]"
    by (simp add: traffic_inv_def as_traffic_def comp_def)
  moreover have "length (ab_entries ?b) \<le> ab_max ?b" using arg_cong [OF m, of length] by simp
  moreover have "ab_next_seq ?b = int (length es)" by (simp add: n NewAuditBuffer_def)
  moreover have "map ae_seq (audit_snapshot after ?b) = filter (\<lambda>i. after < i) (map ae_seq (ab_entries ?b))"
    by (simp add: audit_snapshot_def filter_map comp_def)
  ultimately show ?thesis by blast
qed

end
