(* ===== verification/Web_Accounts.thy ===== *)
theory Web_Accounts
  imports Web_Login Aprs_Frame Decimal Results
begin

text \<open>
  The account pages: user administration (\<open>internal/web/users.go\<close>), groups and routing
  (\<open>groups.go\<close>), self-service (\<open>account.go\<close>) and password recovery (\<open>forgot.go\<close>), with the
  channels of \<open>internal/notify\<close>.  A page that is rendered is its template, status and message;
  texts of the catalogue stand as their keys.
\<close>

section \<open>Forms\<close>

text \<open>\<open>notify.Channels\<close> and \<open>Known\<close>.\<close>

definition channel_kinds :: "string list" where
  "channel_kinds = [''aprs'', ''smtp'', ''discord'']"

definition Known :: "string \<Rightarrow> bool" where
  "Known kind \<longleftrightarrow> kind \<in> set channel_kinds"

definition opt_outs :: "string list \<Rightarrow> string list" where
  "opt_outs checked = filter (\<lambda>k. k \<notin> set checked) channel_kinds"

record user_form =
  uf_username :: string
  uf_phone :: string
  uf_email :: string
  uf_discord :: string
  uf_role :: string
  uf_password :: string
  uf_callsigns :: string
  uf_groups :: "int list"
  uf_channels :: "string list"

text \<open>The set of the positive group IDs, in the order of the form, and of the known channels.\<close>

definition first_only :: "'a list \<Rightarrow> 'a list" where
  "first_only xs = rev (remdups (rev xs))"

definition groupSetFromForm :: "string list \<Rightarrow> int list" where
  "groupSetFromForm values = first_only (filter (\<lambda>i. i > 0) (List.map_filter Atoi values))"

definition channelSetFromForm :: "string list \<Rightarrow> string list" where
  "channelSetFromForm values = first_only (filter Known values)"

definition read_user_form :: "request \<Rightarrow> user_form" where
  "read_user_form rq =
     \<lparr> uf_username = trim_space (form_value rq ''username''), uf_phone = trim_space (form_value rq ''phone''),
       uf_email = trim_space (form_value rq ''email''), uf_discord = trim_space (form_value rq ''discord''),
       uf_role = to_lower (trim_space (form_value rq ''role'')), uf_password = form_value rq ''password'',
       uf_callsigns = trim_space (form_value rq ''aprs_callsigns''),
       uf_groups = groupSetFromForm (form_values rq ''groups''),
       uf_channels = channelSetFromForm (form_values rq ''channels'') \<rparr>"

text \<open>The hidden \<open>edit_id\<close>: 0 when empty, \<open>None\<close> when it is no number.\<close>

definition read_edit_id :: "request \<Rightarrow> int option" where
  "read_edit_id rq =
     (let raw = trim_space (form_value rq ''edit_id'') in if raw = [] then Some 0 else Atoi raw)"

fun fields_where :: "(char \<Rightarrow> bool) \<Rightarrow> string \<Rightarrow> string \<Rightarrow> string list" where
  "fields_where p w [] = emit_field w"
| "fields_where p w (c # cs) = (if p c then emit_field w @ fields_where p [] cs else fields_where p (w @ [c]) cs)"

fun callsigns_from :: "string list \<Rightarrow> string list \<Rightarrow> string list" where
  "callsigns_from seen [] = []"
| "callsigns_from seen (f # fs) =
     (let c = NormalizeCallsign f
      in if c \<noteq> [] \<and> c \<notin> set seen then c # callsigns_from (c # seen) fs else callsigns_from seen fs)"

definition parseAPRSCallsigns :: "string \<Rightarrow> string list" where
  "parseAPRSCallsigns raw =
     callsigns_from [] (fields_where (\<lambda>c. c \<in> {CHR '' '', CHR 0x09, CHR '','', CHR '';'', CHR 0x0A}) [] raw)"

definition maxAPRSCallsignsPerUser :: nat where
  "maxAPRSCallsignsPerUser = 8"

definition validateAPRSCallsigns :: "web_config \<Rightarrow> string \<Rightarrow> string" where
  "validateAPRSCallsigns cfg raw =
     (let cs = parseAPRSCallsigns raw
      in if length cs > maxAPRSCallsignsPerUser then ''at most 8 APRS callsigns per user''
         else (case find (\<lambda>c. \<not> ValidCallsign c) cs of
                 None \<Rightarrow> []
               | Some c \<Rightarrow> wc_quote cfg c @ '' is not a valid APRS callsign (e.g. SP9XXX or SP9XXX-16)''))"

definition contact_problem :: "string \<Rightarrow> string \<Rightarrow> string \<Rightarrow> string" where
  "contact_problem phone email discord =
     (if length phone > 32 \<or> contains_any [CHR 0x0D, CHR 0x0A] phone then ''phone must be at most 32 characters''
      else if length email > 128 \<or> contains_any [CHR '' '', CHR 0x0D, CHR 0x0A] email
      then ''email must be at most 128 characters and contain no spaces''
      else if email \<noteq> [] \<and> CHR ''@'' \<notin> set email then ''email must contain '' @ [CHR 0x27] @ ''@'' @ [CHR 0x27]
      else if length discord > 128 \<or> contains_any [CHR 0x0D, CHR 0x0A] discord
      then ''discord must be at most 128 characters''
      else [])"

definition password_length_bad :: "string \<Rightarrow> bool" where
  "password_length_bad p \<longleftrightarrow> p \<noteq> [] \<and> (length p < 8 \<or> length p > 72)"

definition validateUserForm :: "web_config \<Rightarrow> user_form \<Rightarrow> bool \<Rightarrow> string" where
  "validateUserForm cfg f requirePassword =
     (if \<not> slug_match (uf_username f)
      then ''username must be 1-64 lowercase letters, digits, dots, dashes or underscores''
      else if uf_role f \<noteq> [] \<and> uf_role f \<noteq> ''member'' \<and> uf_role f \<noteq> ''emcom''
      then ''role must be empty, member or emcom''
      else if requirePassword \<and> uf_role f \<noteq> [] \<and> uf_password f = []
      then ''a password is required for users with a role (they sign in with it)''
      else if password_length_bad (uf_password f) then ''password must be 8-72 characters''
      else if contact_problem (uf_phone f) (uf_email f) (uf_discord f) \<noteq> []
      then contact_problem (uf_phone f) (uf_email f) (uf_discord f)
      else validateAPRSCallsigns cfg (uf_callsigns f))"

definition validateAccountForm :: "string \<Rightarrow> string \<Rightarrow> string \<Rightarrow> string \<Rightarrow> string" where
  "validateAccountForm phone email discord password =
     (if contact_problem phone email discord \<noteq> [] then contact_problem phone email discord
      else if password_length_bad password then ''password must be 8-72 characters'' else [])"

definition userErrorStatus :: "account_error \<Rightarrow> nat" where
  "userErrorStatus e =
     (case e of UserProtected \<Rightarrow> 403 | UserNotFound \<Rightarrow> 404 | UsernameTaken \<Rightarrow> 409 | _ \<Rightarrow> 500)"

definition userErrorMessage :: "account_error \<Rightarrow> string" where
  "userErrorMessage e =
     (case e of
        UserProtected \<Rightarrow> ''the admin user is read-only and cannot be changed''
      | UserNotFound \<Rightarrow> ''user not found''
      | UsernameTaken \<Rightarrow> ''username already exists''
      | _ \<Rightarrow> ''user operation failed'')"

section \<open>User administration\<close>

definition users_error :: "account_error \<Rightarrow> response" where
  "users_error e = plain_response (Rendered (userErrorStatus e) ''users'' (userErrorMessage e) [])"

text \<open>The check that opens every state-changing page behind a guard.\<close>

definition with_csrf ::
    "time \<Rightarrow> request \<Rightarrow> web \<Rightarrow> (session \<Rightarrow> web \<Rightarrow> response \<times> web) \<Rightarrow> response \<times> web" where
  "with_csrf now rq w k =
     with_session now rq w (\<lambda>s w.
       case s of
         None \<Rightarrow> (plain_response (HttpError 403 ''invalid csrf token''), w)
       | Some se \<Rightarrow>
           if \<not> rq_form_ok rq \<or> \<not> csrfOK (form_value rq ''csrf'') (se_csrf se)
           then (plain_response (HttpError 403 ''invalid csrf token''), w)
           else k se w)"

definition put_accounts :: "accounts \<Rightarrow> web \<Rightarrow> web" where
  "put_accounts a w = w\<lparr>wb_accounts := a\<rparr>"

text \<open>\<open>SetUserGroups\<close> of the store, on the accounts.\<close>

definition set_groups :: "int \<Rightarrow> int list \<Rightarrow> accounts \<Rightarrow> directory_error + accounts" where
  "set_groups u gs a = map_sum id (\<lambda>d. a\<lparr>ac_dir := d\<rparr>) (SetUserGroups u gs (ac_dir a))"

definition prefs_detail :: "int \<Rightarrow> nat \<Rightarrow> nat \<Rightarrow> string" where
  "prefs_detail u g k = dec_int u @ '' groups='' @ dec_nat g @ '' channels='' @ dec_nat k"

text \<open>\<open>applyUserPrefs\<close>: the error page, if any, and the server.\<close>

definition applyUserPrefs ::
    "time \<Rightarrow> int \<Rightarrow> user_form \<Rightarrow> string \<Rightarrow> web \<Rightarrow> response option \<times> web" where
  "applyUserPrefs now u f actor w =
     (case set_groups u (uf_groups f) (wb_accounts w) of
        Inl e \<Rightarrow> (Some (plain_response (Rendered 500 ''users'' ''could not update group membership'' [])), w)
      | Inr a \<Rightarrow>
          let w1 = put_accounts a w
          in (case SetUserChannelOptOuts now u (opt_outs (uf_channels f)) (wb_accounts w1) of
                Inl e \<Rightarrow> (Some (plain_response (Rendered 500 ''users'' ''could not update delivery channels'' [])), w1)
              | Inr b \<Rightarrow>
                  (None, audit now actor ''user-prefs''
                     (prefs_detail u (length (uf_groups f)) (length (uf_channels f))) (put_accounts b w1))))"

definition save_user ::
    "crypto \<Rightarrow> time \<Rightarrow> string option \<Rightarrow> user_form \<Rightarrow> int \<Rightarrow> accounts \<Rightarrow> account_error + accounts \<times> user_view" where
  "save_user c now rnd f editID a =
     (if editID = 0
      then CreateUser c now rnd (uf_username f) (uf_phone f) (uf_email f) (uf_discord f) (uf_role f) (uf_password f) a
      else UpdateUser c now rnd editID (uf_username f) (uf_phone f) (uf_email f) (uf_discord f) (uf_role f)
             (uf_password f) a)"

definition handleUserSave ::
    "web_config \<Rightarrow> crypto \<Rightarrow> time \<Rightarrow> string option \<Rightarrow> request \<Rightarrow> web \<Rightarrow> response \<times> web" where
  "handleUserSave cfg c now rnd rq w =
     with_csrf now rq w (\<lambda>se w.
       let f = read_user_form rq
       in (case read_edit_id rq of
             None \<Rightarrow> (plain_response (HttpError 400 ''invalid user id''), w)
           | Some editID \<Rightarrow>
               let msg = validateUserForm cfg f (editID = 0)
               in if msg \<noteq> [] then (plain_response (Rendered 422 ''users'' msg []), w)
                  else (case save_user c now rnd f editID (wb_accounts w) of
                          Inl e \<Rightarrow> (users_error e, w)
                        | Inr (a, u) \<Rightarrow>
                            let w1 = audit now (se_username se)
                                       (if editID = 0 then ''user-create'' else ''user-update'') (uf_username f)
                                       (put_accounts a w)
                            in (case SetUserAPRS now (uv_id u) (parseAPRSCallsigns (uf_callsigns f)) (wb_accounts w1) of
                                  Inl e \<Rightarrow> (users_error e, w1)
                                | Inr b \<Rightarrow>
                                    let w2 = put_accounts b w1
                                    in if form_value rq ''prefs'' \<noteq> []
                                       then (case applyUserPrefs now (uv_id u) f (se_username se) w2 of
                                               (Some r, w3) \<Rightarrow> (r, w3)
                                             | (None, w3) \<Rightarrow> (plain_response (Redirect ''/users''), w3))
                                       else (plain_response (Redirect ''/users''), w2)))))"

definition handleUserDelete :: "time \<Rightarrow> request \<Rightarrow> web \<Rightarrow> response \<times> web" where
  "handleUserDelete now rq w =
     with_csrf now rq w (\<lambda>se w.
       case Atoi (rq_path_id rq) of
         None \<Rightarrow> (plain_response (HttpError 400 ''invalid user id''), w)
       | Some i \<Rightarrow>
           let name = (case GetUser (wb_accounts w) i of Inl e \<Rightarrow> [] | Inr u \<Rightarrow> uv_username u)
           in (case DeleteUser i (wb_accounts w) of
                 Inl e \<Rightarrow> (users_error e, w)
               | Inr a \<Rightarrow> (plain_response (Redirect ''/users''),
                           audit now (se_username se) ''user-delete'' name (put_accounts a w))))"

definition handleUserPrefs :: "time \<Rightarrow> request \<Rightarrow> web \<Rightarrow> response \<times> web" where
  "handleUserPrefs now rq w =
     with_csrf now rq w (\<lambda>se w.
       case Atoi (rq_path_id rq) of
         None \<Rightarrow> (plain_response (HttpError 400 ''invalid user id''), w)
       | Some i \<Rightarrow>
           let ids = map Atoi (form_values rq ''groups'');
               checked = channelSetFromForm (form_values rq ''channels'')
           in if list_ex (\<lambda>x. case x of None \<Rightarrow> True | Some g \<Rightarrow> g < 1) ids
              then (plain_response (HttpError 400 ''invalid group id''), w)
              else (case set_groups i (map the ids) (wb_accounts w) of
                      Inl e \<Rightarrow> (plain_response (HttpError 500 ''could not update group membership''), w)
                    | Inr a \<Rightarrow>
                        let w1 = put_accounts a w
                        in (case SetUserChannelOptOuts now i (opt_outs checked) (wb_accounts w1) of
                              Inl e \<Rightarrow> (plain_response (HttpError 500 ''could not update delivery channels''), w1)
                            | Inr b \<Rightarrow>
                                let page = (case map_of (rq_query rq) ''page'' of None \<Rightarrow> [] | Some p \<Rightarrow> p)
                                in (plain_response (Redirect (''/users?page='' @ (if page = [] then ''1'' else page))),
                                    audit now (se_username se) ''user-prefs''
                                      (prefs_detail i (length ids) (length checked)) (put_accounts b w1)))))"

definition resetPasswordAlphabet :: string where
  "resetPasswordAlphabet = ''abcdefghjkmnpqrstuvwxyzABCDEFGHJKMNPQRSTUVWXYZ23456789''"

definition newRandomPassword :: "string option \<Rightarrow> string option" where
  "newRandomPassword rnd =
     map_option (map (\<lambda>b. resetPasswordAlphabet ! (of_char b mod length resetPasswordAlphabet))) rnd"

definition handleUserResetPassword ::
    "crypto \<Rightarrow> time \<Rightarrow> string option \<Rightarrow> string option \<Rightarrow> request \<Rightarrow> web \<Rightarrow> response \<times> web" where
  "handleUserResetPassword c now rnd salt rq w =
     with_csrf now rq w (\<lambda>se w.
       case Atoi (rq_path_id rq) of
         None \<Rightarrow> (plain_response (HttpError 400 ''invalid user id''), w)
       | Some i \<Rightarrow>
           (case GetUser (wb_accounts w) i of
              Inl e \<Rightarrow> (users_error e, w)
            | Inr u \<Rightarrow>
                if uv_admin u
                then (plain_response (Rendered 403 ''users'' ''admin pass is defined in the configuration file'' []), w)
                else (case newRandomPassword rnd of
                        None \<Rightarrow> (plain_response (HttpError 500 ''internal error''), w)
                      | Some password \<Rightarrow>
                          (case SetUserPassword c now salt i password (wb_accounts w) of
                             Inl e \<Rightarrow> (plain_response (HttpError 500 ''could not reset the password''), w)
                           | Inr a \<Rightarrow>
                               (plain_response (Rendered 200 ''users'' [] (uv_username u @ '' '' @ password)),
                                audit now (se_username se) ''user-reset'' (dec_int i) (put_accounts a w))))))"

section \<open>Groups\<close>

definition validateGroupForm :: "string \<Rightarrow> string" where
  "validateGroupForm name =
     (if name = [] then ''groups.err.empty'' else if length name > 64 then ''groups.err.long'' else [])"

definition groupErrorStatus :: "directory_error \<Rightarrow> nat" where
  "groupErrorStatus e = (case e of GroupNameTaken \<Rightarrow> 409 | GroupNotFound \<Rightarrow> 404 | _ \<Rightarrow> 500)"

definition groupErrorMessage :: "directory_error \<Rightarrow> string" where
  "groupErrorMessage e =
     (case e of GroupNameTaken \<Rightarrow> ''groups.err.taken'' | GroupNotFound \<Rightarrow> ''groups.err.not_found''
      | _ \<Rightarrow> ''groups.err.internal'')"

definition groups_error :: "directory_error \<Rightarrow> response" where
  "groups_error e = plain_response (Rendered (groupErrorStatus e) ''groups'' (groupErrorMessage e) [])"

definition put_dir :: "directory \<Rightarrow> web \<Rightarrow> web" where
  "put_dir d w = put_accounts ((wb_accounts w)\<lparr>ac_dir := d\<rparr>) w"

definition handleGroupSave :: "time \<Rightarrow> request \<Rightarrow> web \<Rightarrow> response \<times> web" where
  "handleGroupSave now rq w =
     with_csrf now rq w (\<lambda>se w.
       let name = trim_space (form_value rq ''name''); d = ac_dir (wb_accounts w)
       in (case read_edit_id rq of
             None \<Rightarrow> (plain_response (HttpError 400 ''invalid group id''), w)
           | Some editID \<Rightarrow>
               if validateGroupForm name \<noteq> []
               then (plain_response (Rendered 422 ''groups'' (validateGroupForm name) []), w)
               else (case (if editID = 0 then CreateGroup now name d else UpdateGroup now editID name d) of
                       Inl e \<Rightarrow> (groups_error e, w)
                     | Inr (d', g) \<Rightarrow>
                         (plain_response (Redirect ''/groups''),
                          audit now (se_username se) (if editID = 0 then ''group-create'' else ''group-update'') name
                            (put_dir d' w)))))"

definition handleGroupDelete :: "time \<Rightarrow> request \<Rightarrow> web \<Rightarrow> response \<times> web" where
  "handleGroupDelete now rq w =
     with_csrf now rq w (\<lambda>se w.
       case Atoi (rq_path_id rq) of
         None \<Rightarrow> (plain_response (HttpError 400 ''invalid group id''), w)
       | Some g \<Rightarrow>
           (case DeleteGroup g (ac_dir (wb_accounts w)) of
              Inl e \<Rightarrow> (groups_error e, w)
            | Inr d \<Rightarrow> (plain_response (Redirect ''/groups''),
                        audit now (se_username se) ''group-delete'' (dec_int g) (put_dir d w))))"

text \<open>
  \<open>parseMatrixCells\<close>: the cells of the form, one per field name, in form order (Go's order of a
  map is open); of several values of a name the last counts.
\<close>

definition base_sources :: "string list" where
  "base_sources = [[], ''imgw-meteo'', ''imgw-hydro'', ''rso'', ''aprs'', ''giosaq'', ''compose'', ''emcom'']"

definition routing_sources :: "string list \<Rightarrow> string list" where
  "routing_sources ingest_ids = base_sources @ sort ingest_ids"

definition parse_cell ::
    "web_config \<Rightarrow> string list \<Rightarrow> string list \<Rightarrow> request \<Rightarrow> string \<Rightarrow> string + assignment option" where
  "parse_cell cfg sources actions rq key =
     (case cut_prefix ''cell:'' key of
        None \<Rightarrow> Inr None
      | Some rest \<Rightarrow>
          (case cut_at (CHR ''|'') rest of
             None \<Rightarrow> Inl (''malformed routing cell '' @ wc_quote cfg key @ '' in routing form'')
           | Some (src, i) \<Rightarrow>
               if src \<notin> set sources then Inl (''unknown source '' @ wc_quote cfg src @ '' in routing form'')
               else if i \<notin> set actions
               then Inl (''unknown action or output id '' @ wc_quote cfg i @ '' in routing form'')
               else let sev = to_lower (trim_space (last (form_values rq key)))
                    in if sev = [] then Inr None
                       else if \<not> severity_valid sev then Inl (''invalid severity for cell '' @ wc_quote cfg key)
                       else Inr (Some \<lparr>asg_source = src, asg_id = i, asg_min = sev\<rparr>)))"

fun parse_cells ::
    "web_config \<Rightarrow> string list \<Rightarrow> string list \<Rightarrow> request \<Rightarrow> string list \<Rightarrow> string + assignment list" where
  "parse_cells cfg sources actions rq [] = Inr []"
| "parse_cells cfg sources actions rq (k # ks) =
     (case parse_cell cfg sources actions rq k of
        Inl e \<Rightarrow> Inl e
      | Inr x \<Rightarrow>
          (case parse_cells cfg sources actions rq ks of
             Inl e \<Rightarrow> Inl e
           | Inr xs \<Rightarrow> Inr (case x of None \<Rightarrow> xs | Some a \<Rightarrow> a # xs)))"

definition parseMatrixCells :: "web_config \<Rightarrow> string list \<Rightarrow> string list \<Rightarrow> request \<Rightarrow> string + assignment list" where
  "parseMatrixCells cfg sources actions rq =
     parse_cells cfg sources actions rq (first_only (map fst (rq_form rq)))"

definition handleGroupRouting ::
    "web_config \<Rightarrow> string list \<Rightarrow> string list \<Rightarrow> time \<Rightarrow> request \<Rightarrow> web \<Rightarrow> response \<times> web" where
  "handleGroupRouting cfg ingest_ids actions now rq w =
     with_csrf now rq w (\<lambda>se w.
       case Atoi (rq_path_id rq) of
         None \<Rightarrow> (plain_response (HttpError 400 ''invalid group id''), w)
       | Some g \<Rightarrow>
           (case parseMatrixCells cfg (routing_sources ingest_ids) actions rq of
              Inl msg \<Rightarrow> (plain_response (Rendered 422 ''groups'' msg []), w)
            | Inr cells \<Rightarrow>
                (case SetGroupRouting now g cells (ac_dir (wb_accounts w)) of
                   Inl e \<Rightarrow> (groups_error e, w)
                 | Inr d \<Rightarrow> (plain_response (Redirect ''/groups''),
                             audit now (se_username se) ''group-routing''
                               (dec_int g @ '' cells='' @ dec_nat (length cells)) (put_dir d w)))))"

section \<open>Self-service\<close>

definition handleAccountSave :: "crypto \<Rightarrow> time \<Rightarrow> string option \<Rightarrow> request \<Rightarrow> web \<Rightarrow> response \<times> web" where
  "handleAccountSave c now rnd rq w =
     with_session now rq w (\<lambda>s w.
       case s of
         None \<Rightarrow> (plain_response (Redirect ''/login''), w)
       | Some se \<Rightarrow>
           if \<not> rq_form_ok rq then (plain_response (HttpError 400 ''bad request''), w)
           else if \<not> csrfOK (form_value rq ''csrf'') (se_csrf se)
           then (plain_response (HttpError 403 ''invalid csrf token''), w)
           else if se_role se = ''admin''
           then (plain_response (HttpError 403
                  ''the configured admin account is managed in configuration and cannot be edited here''), w)
           else
             (case GetUserByUsername (wb_accounts w) (se_username se) of
                Inl e \<Rightarrow> (plain_response (Redirect ''/users''), w)
              | Inr u \<Rightarrow>
                  let phone = trim_space (form_value rq ''phone'');
                      email = trim_space (form_value rq ''email'');
                      discord = trim_space (form_value rq ''discord'');
                      password = form_value rq ''password'';
                      groups = groupSetFromForm (form_values rq ''groups'');
                      checked = channelSetFromForm (form_values rq ''channels'');
                      msg = validateAccountForm phone email discord password
                  in if msg \<noteq> [] then (plain_response (Rendered 400 ''account'' msg []), w)
                     else (case UpdateUser c now rnd (uv_id u) (uv_username u) phone email discord (uv_role u) password
                              (wb_accounts w) of
                             Inl e \<Rightarrow> (plain_response (HttpError 500 ''internal error''), w)
                           | Inr (a, v) \<Rightarrow>
                               let w1 = put_accounts a w
                               in (case set_groups (uv_id u) groups (wb_accounts w1) of
                                     Inl e \<Rightarrow> (plain_response (HttpError 500 ''internal error''), w1)
                                   | Inr b \<Rightarrow>
                                       let w2 = put_accounts b w1
                                       in (case SetUserChannelOptOuts now (uv_id u) (opt_outs checked) (wb_accounts w2) of
                                             Inl e \<Rightarrow> (plain_response (HttpError 500 ''internal error''), w2)
                                           | Inr d \<Rightarrow>
                                               (plain_response (Redirect ''/account?msg=saved''),
                                                audit now (se_username se) ''account-update'' []
                                                  (put_accounts d w2)))))))"

section \<open>Password recovery\<close>

record mail =
  ml_to :: string
  ml_subject :: string
  ml_link :: string

definition resetLink :: "web_config \<Rightarrow> request \<Rightarrow> string" where
  "resetLink cfg rq =
     (let scheme = (if wc_secure cfg then ''https'' else ''http''); d = trim_space (wc_domain cfg)
      in scheme @ ''://'' @ (if d \<noteq> [] then d else rq_host rq))"

definition forgot_key :: "string \<Rightarrow> request \<Rightarrow> string" where
  "forgot_key username rq = ''forgot'' @ CHR 0x00 # username @ CHR 0x00 # rq_remote rq"

text \<open>
  \<open>handleForgotSubmit\<close>.  The mailer is \<open>None\<close> when none is installed, else whether it will succeed.
  Of the mail the model keeps the link; a token is hex, so \<open>QueryEscape\<close> leaves it as it is.  The
  fresh CSRF cookie of the page is left out.
\<close>

definition handleForgotSubmit ::
    "web_config \<Rightarrow> crypto \<Rightarrow> time \<Rightarrow> string option \<Rightarrow> bool option \<Rightarrow> request \<Rightarrow> web \<Rightarrow>
      response \<times> web \<times> mail list" where
  "handleForgotSubmit cfg c now rnd mailer rq w =
     (if \<not> rq_form_ok rq then (plain_response (HttpError 400 ''bad request''), w, [])
      else if \<not> csrf_cookie_ok rq then (plain_response (HttpError 403 ''invalid csrf token''), w, [])
      else
        let username = to_lower (trim_space (form_value rq ''username''));
            email = trim_space (form_value rq ''email'');
            key = forgot_key username rq; (wait, l) = retryIn now key (wb_fails w);
            note = (\<lambda>ok w. w\<lparr>wb_fails := record_attempt now key ok l\<rparr>);
            sent = plain_response (Rendered 200 ''forgot'' [] ''forgot.sent'')
        in if wait > 0
           then (plain_response (HttpError 429 ''too many attempts, retry later''), w\<lparr>wb_fails := l\<rparr>, [])
           else if checkUsername username (wc_username cfg)
           then (plain_response (Rendered 200 ''forgot'' ''forgot.admin_pass'' []), note False w, [])
           else (case GetUserByUsername (wb_accounts w) username of
                   Inl e \<Rightarrow> (sent, note False w, [])
                 | Inr u \<Rightarrow>
                     if uv_admin u \<or> trim_space (uv_email u) = [] \<or> \<not> nocase (trim_space (uv_email u)) email
                     then (sent, note False w, [])
                     else (case CreatePasswordReset c now rnd (uv_id u) (wb_accounts w) of
                             Inl e \<Rightarrow> (sent, note False w, [])
                           | Inr (a, token) \<Rightarrow>
                               let w1 = put_accounts a w;
                                   m = \<lparr> ml_to = trim_space (uv_email u),
                                         ml_subject = displayName cfg @ '' '' @ [CHR 0xE2, CHR 0x80, CHR 0x94] @ '' password reset'',
                                         ml_link = resetLink cfg rq @ ''/reset?token='' @ token \<rparr>
                               in (case mailer of
                                     None \<Rightarrow> (sent, note True w1, [])
                                   | Some ok \<Rightarrow>
                                       if ok then (sent, note True w1, [m])
                                       else (plain_response (Rendered 200 ''forgot'' ''forgot.mail_failed'' []),
                                             note False w1, [m])))))"

definition expired_link :: string where
  "expired_link =
     ''This link is invalid or has expired '' @ [CHR 0xE2, CHR 0x80, CHR 0x94] @ '' request a new one.''"

text \<open>\<open>handleResetPage\<close>: the message is empty when the form is shown.\<close>

definition handleResetPage :: "crypto \<Rightarrow> time \<Rightarrow> request \<Rightarrow> web \<Rightarrow> response" where
  "handleResetPage c now rq w =
     (let token = trim_space (case map_of (rq_query rq) ''token'' of None \<Rightarrow> [] | Some t \<Rightarrow> t)
      in plain_response (Rendered 200 ''reset''
           (if token = [] \<or> PeekPasswordReset c now (wb_accounts w) token \<noteq> None then expired_link else []) token))"

definition handleResetSubmit :: "crypto \<Rightarrow> time \<Rightarrow> string option \<Rightarrow> request \<Rightarrow> web \<Rightarrow> response \<times> web" where
  "handleResetSubmit c now rnd rq w =
     (if \<not> rq_form_ok rq then (plain_response (HttpError 400 ''bad request''), w)
      else if \<not> csrf_cookie_ok rq then (plain_response (HttpError 403 ''invalid csrf token''), w)
      else
        let token = trim_space (form_value rq ''token''); password = form_value rq ''password''
        in if password = [] \<or> length password < 8 \<or> length password > 72
           then (plain_response (Rendered 422 ''reset'' ''password must be 8-72 characters'' token), w)
           else (case ConsumePasswordReset c now token (wb_accounts w) of
                   Inl e \<Rightarrow> (plain_response (Rendered 422 ''reset'' expired_link token), w)
                 | Inr (a, i) \<Rightarrow>
                     let w1 = put_accounts a w
                     in (case GetUser (wb_accounts w1) i of
                           Inl e \<Rightarrow> (plain_response (HttpError 500 ''internal error''), w1)
                         | Inr u \<Rightarrow>
                             (case SetUserPassword c now rnd i password (wb_accounts w1) of
                                Inl UserProtected \<Rightarrow>
                                  (plain_response (Rendered 422 ''reset''
                                     ''admin pass is defined in the configuration file'' token), w1)
                              | Inl e \<Rightarrow> (plain_response (HttpError 500 ''internal error''), w1)
                              | Inr b \<Rightarrow> (plain_response (Redirect ''/login?reset=1''),
                                          audit now (uv_username u) ''password-reset'' [] (put_accounts b w1))))))"

section \<open>The server as one step\<close>

datatype route =
    RLogin | RLogout | RForgot | RReset | RAccount | RUserSave | RUserDelete | RUserPrefs | RUserReset
  | RGroupSave | RGroupDelete | RGroupRouting

text \<open>What one request finds in its environment: random bytes, the mailer, the configured names.\<close>

record surroundings =
  su_token :: "string option"
  su_csrf :: "string option"
  su_salt :: "string option"
  su_reset :: "string option"
  su_password :: "string option"
  su_mailer :: "bool option"
  su_ingest :: "string list"
  su_actions :: "string list"

definition route_guard :: "route \<Rightarrow> guard" where
  "route_guard r =
     (case r of
        RLogin \<Rightarrow> Open | RLogout \<Rightarrow> Open | RForgot \<Rightarrow> Open | RReset \<Rightarrow> Open | RAccount \<Rightarrow> Page
      | _ \<Rightarrow> Admin)"

text \<open>The method and pattern of each route; its guard is that of the table of the server.\<close>

definition route_pattern :: "route \<Rightarrow> string \<times> string" where
  "route_pattern r =
     (case r of
        RLogin \<Rightarrow> (''POST'', ''/login'') | RLogout \<Rightarrow> (''POST'', ''/logout'') | RForgot \<Rightarrow> (''POST'', ''/forgot'')
      | RReset \<Rightarrow> (''POST'', ''/reset'') | RAccount \<Rightarrow> (''POST'', ''/account'') | RUserSave \<Rightarrow> (''POST'', ''/users'')
      | RUserDelete \<Rightarrow> (''POST'', ''/users/{id}/delete'') | RUserPrefs \<Rightarrow> (''POST'', ''/users/{id}/prefs'')
      | RUserReset \<Rightarrow> (''POST'', ''/users/{id}/reset'') | RGroupSave \<Rightarrow> (''POST'', ''/groups'')
      | RGroupDelete \<Rightarrow> (''POST'', ''/groups/{id}/delete'')
      | RGroupRouting \<Rightarrow> (''POST'', ''/groups/{id}/routing''))"

lemma route_guard_in_table: "guard_of (fst (route_pattern r)) (snd (route_pattern r)) = Some (route_guard r)"
proof -
  have "list_all (\<lambda>r. guard_of (fst (route_pattern r)) (snd (route_pattern r)) = Some (route_guard r))
      [RLogin, RLogout, RForgot, RReset, RAccount, RUserSave, RUserDelete, RUserPrefs, RUserReset,
       RGroupSave, RGroupDelete, RGroupRouting]"
    by code_simp
  then show ?thesis by (cases r) simp_all
qed

definition route_handler ::
    "web_config \<Rightarrow> crypto \<Rightarrow> time \<Rightarrow> surroundings \<Rightarrow> route \<Rightarrow> request \<Rightarrow> web \<Rightarrow> response \<times> web" where
  "route_handler cfg c now su r rq w =
     (case r of
        RLogin \<Rightarrow> handleLoginSubmit cfg c now (su_token su) (su_csrf su) rq w
      | RLogout \<Rightarrow> handleLogout now rq w
      | RForgot \<Rightarrow> (case handleForgotSubmit cfg c now (su_reset su) (su_mailer su) rq w of (p, w', ms) \<Rightarrow> (p, w'))
      | RReset \<Rightarrow> handleResetSubmit c now (su_salt su) rq w
      | RAccount \<Rightarrow> handleAccountSave c now (su_salt su) rq w
      | RUserSave \<Rightarrow> handleUserSave cfg c now (su_salt su) rq w
      | RUserDelete \<Rightarrow> handleUserDelete now rq w
      | RUserPrefs \<Rightarrow> handleUserPrefs now rq w
      | RUserReset \<Rightarrow> handleUserResetPassword c now (su_password su) (su_salt su) rq w
      | RGroupSave \<Rightarrow> handleGroupSave now rq w
      | RGroupDelete \<Rightarrow> handleGroupDelete now rq w
      | RGroupRouting \<Rightarrow> handleGroupRouting cfg (su_ingest su) (su_actions su) now rq w)"

definition serve ::
    "web_config \<Rightarrow> crypto \<Rightarrow> time \<Rightarrow> surroundings \<Rightarrow> route \<Rightarrow> request \<Rightarrow> web \<Rightarrow> response \<times> web" where
  "serve cfg c now su r rq w =
     run_guard now (route_guard r) rq (\<lambda>rq w. route_handler cfg c now su r rq w) w"

primrec run_web ::
    "web_config \<Rightarrow> crypto \<Rightarrow> (time \<times> surroundings \<times> route \<times> request) list \<Rightarrow> web \<Rightarrow> web" where
  "run_web cfg c [] w = w"
| "run_web cfg c (x # xs) w =
     (case x of (now, su, r, rq) \<Rightarrow> run_web cfg c xs (snd (serve cfg c now su r rq w)))"

end
