(* ===== verification/Web_Safety.thy ===== *)
theory Web_Safety
  imports Web_Accounts Account_Examples
begin

text \<open>
  Access control over any history of requests: each request acts on the store as a sequence of its
  operations (a refinement), an admin session always stems from the configured credentials, what a
  page behind the admin guard does for anybody else, and what self-service can change.
\<close>

section \<open>Requests as store operations\<close>

definition directory_roles :: "string set" where
  "directory_roles = {[], ''member'', ''emcom''}"

text \<open>The operations that the pages use, with the roles they may give.\<close>

fun web_op :: "accounts \<Rightarrow> account_op \<Rightarrow> bool" where
  "web_op a (OpCreate rnd n ph em di ro p) = (ro \<in> directory_roles)"
| "web_op a (OpUpdate rnd i n ph em di ro p) =
     (ro \<in> directory_roles \<or> (\<exists>r. row_by_id a i = Some r \<and> ro = ar_role r))"
| "web_op a (OpEnsureAdmin gap rnd n p) = False"
| "web_op a (OpClaimFire g x k dk) = False"
| "web_op a (OpPruneFires cutoff) = False"
| "web_op a op = True"

inductive store_steps :: "crypto \<Rightarrow> time \<Rightarrow> accounts \<Rightarrow> accounts \<Rightarrow> bool" for c now a where
  store_refl: "store_steps c now a a"
| store_step: "store_steps c now a b \<Longrightarrow> web_op b op \<Longrightarrow> store_steps c now a (apply_account c now op b)"

definition reach :: "crypto \<Rightarrow> time \<Rightarrow> web \<Rightarrow> web \<Rightarrow> bool" where
  "reach c now w v \<longleftrightarrow>
     set (wb_sessions v) \<subseteq> set (wb_sessions w) \<and> store_steps c now (wb_accounts w) (wb_accounts v)"

text \<open>\<open>after Q x\<close>: \<open>Q\<close> holds of the server that a handler leaves; one rule per construct of the handlers.\<close>

definition after :: "(web \<Rightarrow> bool) \<Rightarrow> response \<times> web \<Rightarrow> bool" where
  "after Q x \<longleftrightarrow> Q (snd x)"

lemma after_pair: "Q v \<Longrightarrow> after Q (r, v)"
  by (simp add: after_def)

lemma after_if: "(b \<Longrightarrow> after Q x) \<Longrightarrow> (\<not> b \<Longrightarrow> after Q y) \<Longrightarrow> after Q (if b then x else y)"
  by simp

lemma after_option:
  "(m = None \<Longrightarrow> after Q x) \<Longrightarrow> (\<And>t. m = Some t \<Longrightarrow> after Q (f t)) \<Longrightarrow>
    after Q (case m of None \<Rightarrow> x | Some t \<Rightarrow> f t)"
  by (simp split: option.split)

lemma after_sum:
  "(\<And>e. m = Inl e \<Longrightarrow> after Q (f e)) \<Longrightarrow> (\<And>t. m = Inr t \<Longrightarrow> after Q (g t)) \<Longrightarrow>
    after Q (case m of Inl e \<Rightarrow> f e | Inr t \<Rightarrow> g t)"
  by (simp split: sum.split)

lemma after_prod: "(\<And>x y. p = (x, y) \<Longrightarrow> after Q (f x y)) \<Longrightarrow> after Q (case p of (x, y) \<Rightarrow> f x y)"
  by (simp split: prod.split)

lemma after_Let: "after Q (f x) \<Longrightarrow> after Q (Let x f)"
  by (simp add: Let_def)

lemma after_protected:
  "after Q x \<Longrightarrow> after Q y \<Longrightarrow> after Q (case e of UserProtected \<Rightarrow> x | _ \<Rightarrow> y)"
  by (cases e) simp_all

lemma after_with_session:
  "(\<And>s v. currentSession now rq (wb_sessions w) = (s, wb_sessions v) \<Longrightarrow> wb_accounts v = wb_accounts w \<Longrightarrow>
      after Q (k s v)) \<Longrightarrow>
    after Q (with_session now rq w k)"
  by (cases "currentSession now rq (wb_sessions w)") (simp add: with_session_def)

lemmas after_rules = after_if after_option after_sum after_prod after_Let after_pair after_protected

lemma reach_refl: "reach c now w w"
  by (simp add: reach_def store_refl)

lemma reach_step:
  "apply_account c now op (wb_accounts v) = a \<Longrightarrow> web_op (wb_accounts v) op \<Longrightarrow> reach c now w v \<Longrightarrow>
    reach c now w (put_accounts a v)"
  by (auto simp: reach_def put_accounts_def intro: store_step)

lemma reach_audit: "reach c now w v \<Longrightarrow> reach c now w (audit now u x d v)"
  using store_step [of c now "wb_accounts w" "wb_accounts v" "OpAudit u x d"]
  by (simp add: reach_def audit_def)

lemma reach_fails: "reach c now w v \<Longrightarrow> reach c now w (v\<lparr>wb_fails := l\<rparr>)"
  by (simp add: reach_def)

lemma reach_sessions:
  "set m \<subseteq> set (wb_sessions v) \<Longrightarrow> reach c now w v \<Longrightarrow> reach c now w (v\<lparr>wb_sessions := m\<rparr>)"
  by (auto simp: reach_def)

text \<open>One rule per operation that succeeded.\<close>

lemma reach_user_ops:
  "CreateUser c now rnd n ph em di ro p (wb_accounts v) = Inr (a, u) \<Longrightarrow> ro \<in> directory_roles \<Longrightarrow>
    reach c now w v \<Longrightarrow> reach c now w (put_accounts a v)"
  "UpdateUser c now rnd i n ph em di ro p (wb_accounts v) = Inr (a, u) \<Longrightarrow>
    ro \<in> directory_roles \<or> (\<exists>r. row_by_id (wb_accounts v) i = Some r \<and> ro = ar_role r) \<Longrightarrow>
    reach c now w v \<Longrightarrow> reach c now w (put_accounts a v)"
  by (rule reach_step [where op = "OpCreate rnd n ph em di ro p"]; simp)
    (rule reach_step [where op = "OpUpdate rnd i n ph em di ro p"]; simp)

lemma reach_ops:
  "DeleteUser i (wb_accounts v) = Inr a \<Longrightarrow> reach c now w v \<Longrightarrow> reach c now w (put_accounts a v)"
  "SetUserAPRS now i cs (wb_accounts v) = Inr a \<Longrightarrow> reach c now w v \<Longrightarrow> reach c now w (put_accounts a v)"
  "SetUserChannelOptOuts now i ks (wb_accounts v) = Inr a \<Longrightarrow> reach c now w v \<Longrightarrow> reach c now w (put_accounts a v)"
  "SetUserPassword c now salt i p (wb_accounts v) = Inr a \<Longrightarrow> reach c now w v \<Longrightarrow> reach c now w (put_accounts a v)"
  "CreatePasswordReset c now rnd i (wb_accounts v) = Inr (a, t) \<Longrightarrow> reach c now w v \<Longrightarrow>
    reach c now w (put_accounts a v)"
  "ConsumePasswordReset c now t (wb_accounts v) = Inr (a, i) \<Longrightarrow> reach c now w v \<Longrightarrow>
    reach c now w (put_accounts a v)"
  by (rule reach_step [where op = "OpDelete i"]; simp)
    (rule reach_step [where op = "OpSetAPRS i cs"] reach_step [where op = "OpSetOptOuts i ks"]
      reach_step [where op = "OpSetPassword salt i p"] reach_step [where op = "OpIssueReset rnd i"]
      reach_step [where op = "OpConsumeReset t"]; simp; fail)+

lemma reach_dir_ops:
  "SetUserGroups u gs (ac_dir (wb_accounts v)) = Inr d \<Longrightarrow> reach c now w v \<Longrightarrow> reach c now w (put_dir d v)"
  "CreateGroup now n (ac_dir (wb_accounts v)) = Inr (d, g) \<Longrightarrow> reach c now w v \<Longrightarrow> reach c now w (put_dir d v)"
  "UpdateGroup now i n (ac_dir (wb_accounts v)) = Inr (d, g) \<Longrightarrow> reach c now w v \<Longrightarrow> reach c now w (put_dir d v)"
  "DeleteGroup i (ac_dir (wb_accounts v)) = Inr d \<Longrightarrow> reach c now w v \<Longrightarrow> reach c now w (put_dir d v)"
  "SetGroupRouting now i cells (ac_dir (wb_accounts v)) = Inr d \<Longrightarrow> reach c now w v \<Longrightarrow> reach c now w (put_dir d v)"
  unfolding put_dir_def
  by (rule reach_step [where op = "OpSetUserGroups u gs"] reach_step [where op = "OpCreateGroup n"]
      reach_step [where op = "OpUpdateGroup i n"] reach_step [where op = "OpDeleteGroup i"]
      reach_step [where op = "OpSetRouting i cells"]; simp add: on_dir_def; fail)+

lemma reach_set_groups:
  "set_groups u gs (wb_accounts v) = Inr a \<Longrightarrow> reach c now w v \<Longrightarrow> reach c now w (put_accounts a v)"
  using reach_dir_ops(1) [of u gs v]
  by (auto simp: set_groups_def map_sum_def put_dir_def split: sum.splits)

section \<open>Every handler\<close>

lemma get_session_subset: "set (snd (get_session now t m)) \<subseteq> set m"
proof -
  have "set (AList.delete t m) \<subseteq> set m" by (induction m) auto
  then show ?thesis by (auto simp: get_session_def split: option.split)
qed

lemma currentSession_subset: "set (snd (currentSession now rq m)) \<subseteq> set m"
  using get_session_subset by (auto simp: currentSession_def split: option.split)

lemma delete_session_subset: "set (delete_session t m) \<subseteq> set m"
  unfolding delete_session_def by (induction m) auto

lemma reach_session:
  "currentSession now rq (wb_sessions w) = (s, wb_sessions v) \<Longrightarrow> wb_accounts v = wb_accounts w \<Longrightarrow> reach c now w v"
  using currentSession_subset [of now rq "wb_sessions w"] by (simp add: reach_def store_refl)

lemma after_with_csrf:
  "(\<And>se v. reach c now w v \<Longrightarrow> after (reach c now w) (k se v)) \<Longrightarrow>
    after (reach c now w) (with_csrf now rq w k)"
  unfolding with_csrf_def
  by (rule after_with_session, drule (1) reach_session [where c = c])
    (auto intro: after_pair split: option.split)

text \<open>A form that is accepted names a directory role; self-service keeps the role of the row.\<close>

lemma validateUserForm_role: "validateUserForm cfg f b = [] \<Longrightarrow> uf_role f \<in> directory_roles"
  by (auto simp: validateUserForm_def directory_roles_def split: if_splits)

lemma uv_role_view [simp]: "uv_role (view_user a (i, r)) = ar_role r" "uv_admin (view_user a (i, r)) = ar_admin r"
  "uv_username (view_user a (i, r)) = ar_username r" "uv_email (view_user a (i, r)) = ar_email r"
  "uv_id (view_user a (i, r)) = i"
  by (simp_all add: view_user_def attachAPRS_def scanUser_def Let_def)

lemma GetUser_Inr: "GetUser a i = Inr u \<longleftrightarrow> (\<exists>r. row_by_id a i = Some r \<and> u = view_user a (i, r))"
  by (auto simp: GetUser_def userByID_def split: option.splits)

lemma GetUserByUsername_Inr:
  "GetUserByUsername a name = Inr u \<longleftrightarrow>
    (\<exists>i r s. row_by_name a name = Some (i, s) \<and> row_by_id a i = Some r \<and> u = view_user a (i, r))"
  by (auto simp: GetUserByUsername_def GetUser_Inr split: option.splits)

lemma self_role: "GetUserByUsername a n = Inr u \<Longrightarrow>
    uv_role u \<in> directory_roles \<or> (\<exists>r. row_by_id a (uv_id u) = Some r \<and> uv_role u = ar_role r)"
  by (auto simp: GetUserByUsername_Inr)

lemma reach_save_user:
  "save_user c now rnd f e (wb_accounts v) = Inr (a, u) \<Longrightarrow> \<not> validateUserForm cfg f b \<noteq> [] \<Longrightarrow>
    reach c now w v \<Longrightarrow> reach c now w (put_accounts a v)"
  using validateUserForm_role [of cfg f b]
  by (cases "e = 0") (auto simp: save_user_def intro: reach_user_ops)

lemma reach_group_save:
  "(if e = 0 then CreateGroup now n (ac_dir (wb_accounts v)) else UpdateGroup now e n (ac_dir (wb_accounts v))) = Inr (d, g) \<Longrightarrow>
    reach c now w v \<Longrightarrow> reach c now w (put_dir d v)"
  by (cases "e = 0") (auto intro: reach_dir_ops)

lemma reach_prefs:
  "applyUserPrefs now u f n v = (r, v') \<Longrightarrow> reach c now w v \<Longrightarrow> reach c now w v'"
  unfolding applyUserPrefs_def Let_def
  by (auto split: sum.splits intro!: reach_audit intro: reach_ops(3) reach_set_groups)

lemmas reach_results = reach_ops reach_set_groups reach_dir_ops reach_save_user reach_group_save reach_prefs

lemma reached_pages:
  "after (reach c now w) (handleUserSave cfg c now rnd rq w)"
  "after (reach c now w) (handleUserDelete now rq w)"
  "after (reach c now w) (handleUserPrefs now rq w)"
  "after (reach c now w) (handleUserResetPassword c now rnd salt rq w)"
  "after (reach c now w) (handleGroupSave now rq w)"
  "after (reach c now w) (handleGroupDelete now rq w)"
  "after (reach c now w) (handleGroupRouting cfg ids acts now rq w)"
  "after (reach c now w) (handleResetSubmit c now rnd rq w)"
  unfolding handleUserSave_def handleUserDelete_def handleUserPrefs_def handleUserResetPassword_def
    handleGroupSave_def handleGroupDelete_def handleGroupRouting_def handleResetSubmit_def
  by (hypsubst | intro after_with_csrf after_rules reach_audit reach_refl | erule reach_results | assumption)+

lemma reached_account_save: "after (reach c now w) (handleAccountSave c now rnd rq w)"
  unfolding handleAccountSave_def
  by (rule after_with_session, drule (1) reach_session [where c = c])
    (hypsubst | intro after_rules reach_audit | erule reach_results
      | (erule reach_user_ops(2), erule self_role) | assumption)+

lemma reached_logout: "after (reach c now w) (handleLogout now rq w)"
  unfolding handleLogout_def
  by (rule after_with_session, drule (1) reach_session [where c = c])
    (hypsubst | intro after_rules reach_audit reach_sessions | assumption
      | (simp add: delete_session_subset split: option.split; fail))+

lemma reached_forgot: "reach c now w (fst (snd (handleForgotSubmit cfg c now rnd mailer rq w)))"
  unfolding handleForgotSubmit_def Let_def
  by (auto intro: reach_fails reach_refl reach_ops(5) split: sum.split option.split prod.split)

section \<open>The whole server\<close>

lemma reached_guard:
  "after (reach c now w) (run_guard now g rq body w)" if body: "\<And>v. reach c now w v \<Longrightarrow> after (reach c now w) (body rq v)"
  unfolding run_guard_def
  by (cases g)
    (auto intro!: after_with_session after_pair body reach_refl reach_session split: option.split)

lemma reach_trans: "reach c now w v \<Longrightarrow> reach c now v u \<Longrightarrow> reach c now w u"
proof -
  have "store_steps c now b d \<Longrightarrow> store_steps c now a b \<Longrightarrow> store_steps c now a d" for a b d
    by (induction rule: store_steps.induct) (auto intro: store_step)
  then show "reach c now w v \<Longrightarrow> reach c now v u \<Longrightarrow> reach c now w u" by (auto simp: reach_def)
qed

lemma reached_after: "reach c now w v \<Longrightarrow> after (reach c now v) x \<Longrightarrow> after (reach c now w) x"
  by (auto simp: after_def intro: reach_trans)

lemma reached_serve: "r \<noteq> RLogin \<Longrightarrow> after (reach c now w) (serve cfg c now su r rq w)"
  unfolding serve_def
proof (rule reached_guard, erule reached_after)
  fix v
  assume "r \<noteq> RLogin"
  then show "after (reach c now v) (route_handler cfg c now su r rq v)"
    using reached_forgot [of c now v cfg "su_reset su" "su_mailer su" rq]
    by (cases r) (auto simp: route_handler_def after_def reached_pages [unfolded after_def]
        reached_account_save [unfolded after_def] reached_logout [unfolded after_def] split: prod.splits)
qed

text \<open>The login adds at most one session, for the role that the credentials get.\<close>

lemma newSession_Some:
  "newSession now tok csrf u role m = Some (t, m') \<Longrightarrow>
    tok = Some t \<and> (\<exists>s. se_username s = u \<and> se_role s = role \<and> set m' \<subseteq> insert (t, s) (set m))"
proof -
  assume n: "newSession now tok csrf u role m = Some (t, m')"
  define base where "base = (if length m \<ge> maxSessions then sweepLocked now m else m)"
  obtain d where "csrf = Some d" "tok = Some t"
    using n by (auto simp: newSession_def Let_def split: option.splits)
  moreover define s where "s = \<lparr>se_username = u, se_role = role, se_csrf = d, se_expires = now + sessionTTL\<rparr>"
  ultimately have "m' = AList.update t s base" "tok = Some t"
    using n by (simp_all add: newSession_def Let_def base_def)
  moreover have "set base \<subseteq> set m" by (auto simp: base_def sweepLocked_def)
  ultimately have "set m' \<subseteq> insert (t, s) (set m)" using set_update_subset [of t s base] by auto
  then show ?thesis using \<open>tok = Some t\<close> by (intro conjI exI [of _ s]) (simp_all add: s_def)
qed

lemma login_outcome:
  fixes cfg c now tok csrf rq w
  defines "v \<equiv> snd (handleLoginSubmit cfg c now tok csrf rq w)"
    and "role \<equiv> login_role cfg c (wb_accounts w) (form_value rq ''username'') (form_value rq ''password'')"
  shows "wb_sessions v = wb_sessions w \<or>
      (\<exists>t m. newSession now tok csrf (form_value rq ''username'') role (wb_sessions w) = Some (t, m) \<and>
        wb_sessions v = m)"
    and "wb_accounts v = wb_accounts w \<or> (\<exists>u x d. wb_accounts v = RecordAudit u x d now (wb_accounts w))"
  unfolding v_def role_def
  by (cases "retryIn now (limiter_key rq) (wb_fails w)";
      simp add: handleLoginSubmit_def Let_def audit_def split: option.split; blast)+

lemma login_reach:
  "\<lbrakk>(t, s) \<in> set (wb_sessions (snd (handleLoginSubmit cfg c now tok csrf rq w))); (t, s) \<notin> set (wb_sessions w)\<rbrakk> \<Longrightarrow>
    tok = Some t \<and> se_role s = login_role cfg c (wb_accounts w) (form_value rq ''username'') (form_value rq ''password'')"
  using login_outcome(1) [of cfg c now tok csrf rq w] newSession_Some by fastforce

lemma login_accounts:
  "store_steps c now (wb_accounts w) (wb_accounts (snd (handleLoginSubmit cfg c now tok csrf rq w)))"
proof -
  have "store_steps c now a (RecordAudit u x d now a)" for u x d a
    using store_step [OF store_refl, where op = "OpAudit u x d"] by simp
  then show ?thesis using login_outcome(2) [of cfg c now tok csrf rq w] store_refl by metis
qed

lemma serve_login: "serve cfg c now su RLogin rq w = handleLoginSubmit cfg c now (su_token su) (su_csrf su) rq w"
  by (simp add: serve_def run_guard_def route_guard_def route_handler_def)

lemma serve_steps: "store_steps c now (wb_accounts w) (wb_accounts (snd (serve cfg c now su r rq w)))"
  using reached_serve [of r c now w cfg su rq] login_accounts
  by (cases "r = RLogin") (simp_all add: serve_login after_def reach_def)

lemma run_web_append [simp]: "run_web cfg c (xs @ ys) w = run_web cfg c ys (run_web cfg c xs w)"
  by (induction xs arbitrary: w) (auto split: prod.split)

section \<open>Valid roles\<close>

definition roles_ok :: "accounts \<Rightarrow> bool" where
  "roles_ok a \<longleftrightarrow> (\<forall>x\<in>set (ac_users a). \<not> ar_admin (snd x) \<longrightarrow> ar_role (snd x) \<in> directory_roles)"

lemma roles_ok_set_row:
  "roles_ok a \<Longrightarrow> ar_role s \<in> directory_roles \<or> ar_admin s \<Longrightarrow> roles_ok (set_row i s a)"
  using set_update_subset [of i s "ac_users a"] by (fastforce simp: roles_ok_def)

lemma roles_ok_row: "roles_ok a \<Longrightarrow> row_by_id a i = Some r \<Longrightarrow> \<not> ar_admin r \<Longrightarrow> ar_role r \<in> directory_roles"
  by (force simp: roles_ok_def row_by_id_def dest: map_of_SomeD)

lemma roles_ok_frame [simp]:
  "roles_ok (RecordAudit u x e now a) = roles_ok a" "roles_ok (a\<lparr>ac_dir := d\<rparr>) = roles_ok a"
  "roles_ok (a\<lparr>ac_resets := rs\<rparr>) = roles_ok a" "roles_ok (consume_mark now h a) = roles_ok a"
  "roles_ok (on_dir f a) = roles_ok a"
  by (simp_all add: roles_ok_def consume_mark_def)

lemma roles_ok_CreateUser:
  "roles_ok a \<Longrightarrow> role \<in> directory_roles \<Longrightarrow>
    CreateUser c now rnd n ph em di role p a = Inr (a', u) \<Longrightarrow> roles_ok a'"
  by (auto simp: CreateUser_Inr roles_ok_def subscribe_all_def)

lemma roles_ok_UpdateUser:
  assumes "roles_ok a" "role \<in> directory_roles \<or> (\<exists>r. row_by_id a i = Some r \<and> role = ar_role r)"
    "UpdateUser c now rnd i n ph em di role p a = Inr (a', u)"
  shows "roles_ok a'"
proof -
  obtain r cred where r: "row_by_id a i = Some r" "\<not> ar_admin r"
    and a': "a' = set_row i (edit_row now n ph em di role cred r) a"
    using assms(3) unfolding UpdateUser_Inr by blast
  then have "role \<in> directory_roles" using assms(1,2) roles_ok_row by force
  with assms(1) show ?thesis unfolding a' by (intro roles_ok_set_row) simp_all
qed

lemma roles_ok_regular_update:
  "roles_ok a \<Longrightarrow> SetUserAPRS now i cs a = Inr a' \<Longrightarrow> roles_ok a'"
  "roles_ok a \<Longrightarrow> SetUserChannelOptOuts now i ks a = Inr a' \<Longrightarrow> roles_ok a'"
  "roles_ok a \<Longrightarrow> SetUserPassword c now rnd i p a = Inr a' \<Longrightarrow> roles_ok a'"
  by (auto simp: SetUserAPRS_Inr SetUserChannelOptOuts_Inr SetUserPassword_Inr touch_def
      intro!: roles_ok_set_row) (erule (2) roles_ok_row)+

lemma roles_ok_DeleteUser:
  assumes "roles_ok a" "DeleteUser i a = Inr a'"
  shows "roles_ok a'"
proof -
  have "set (AList.delete i t) \<subseteq> set t" for t :: "(int \<times> account_row) list" by (induction t) auto
  moreover have "ac_users a' = AList.delete i (ac_users a)"
    using assms(2) unfolding DeleteUser_Inr by (elim exE conjE)
  ultimately have "set (ac_users a') \<subseteq> set (ac_users a)" by simp
  then show ?thesis using assms(1) by (simp add: roles_ok_def Ball_def subset_iff del: split_paired_All)
qed

lemma roles_ok_resets:
  "roles_ok a \<Longrightarrow> CreatePasswordReset c now rnd i a = Inr (a', t) \<Longrightarrow> roles_ok a'"
  "roles_ok a \<Longrightarrow> ConsumePasswordReset c now t a = Inr (a', i) \<Longrightarrow> roles_ok a'"
  by (auto simp: CreatePasswordReset_Inr ConsumePasswordReset_Inr)

lemmas settled_roles = settle_ok [where P = roles_ok] settle_fst_ok [where P = roles_ok]

lemma roles_ok_step: "roles_ok a \<Longrightarrow> web_op a op \<Longrightarrow> roles_ok (apply_account c now op a)"
proof -
  assume ok: "roles_ok a" and op: "web_op a op"
  show ?thesis
  proof (cases op)
    case OpCreate
    then show ?thesis using op by simp (rule settled_roles(2) [OF ok roles_ok_CreateUser [OF ok]], simp_all)
  next
    case OpUpdate
    then show ?thesis using op by simp (rule settled_roles(2) [OF ok roles_ok_UpdateUser [OF ok]], simp_all)
  next
    case OpDelete then show ?thesis by simp (rule settled_roles(1) [OF ok roles_ok_DeleteUser [OF ok]])
  next
    case OpSetAPRS
    then show ?thesis by simp (rule settled_roles(1) [OF ok roles_ok_regular_update(1) [OF ok]])
  next
    case OpSetOptOuts
    then show ?thesis by simp (rule settled_roles(1) [OF ok roles_ok_regular_update(2) [OF ok]])
  next
    case OpSetPassword
    then show ?thesis by simp (rule settled_roles(1) [OF ok roles_ok_regular_update(3) [OF ok]])
  next
    case OpIssueReset
    then show ?thesis by simp (rule settled_roles(2) [OF ok roles_ok_resets(1) [OF ok]])
  next
    case OpConsumeReset
    then show ?thesis by simp (rule settled_roles(2) [OF ok roles_ok_resets(2) [OF ok]])
  qed (use ok op in simp_all)
qed

definition store_ok :: "accounts \<Rightarrow> bool" where
  "store_ok a \<longleftrightarrow> accounts_ok a \<and> roles_ok a"

lemma store_steps_ok: "store_steps c now a b \<Longrightarrow> store_ok a \<Longrightarrow> store_ok b"
  by (induction rule: store_steps.induct) (auto simp: store_ok_def apply_account_ok roles_ok_step)

lemma run_web_ok: "store_ok (wb_accounts w) \<Longrightarrow> store_ok (wb_accounts (run_web cfg c xs w))"
  by (induction xs arbitrary: w) (auto intro: store_steps_ok [OF serve_steps] split: prod.split)

section \<open>Admin sessions\<close>

lemma Authenticate_role:
  assumes ok: "store_ok a" and u: "Authenticate c a name p = Inr u"
  shows "uv_role u \<in> directory_roles"
proof -
  obtain i r where n: "row_by_name a name = Some (i, r)" "\<not> ar_admin r" "GetUser a i = Inr u"
    using u by (auto simp: Authenticate_def split: option.splits if_splits)
  then have "row_by_id a i = Some r" using ok row_by_name_id by (auto simp: store_ok_def accounts_ok_def)
  with n show ?thesis using ok roles_ok_row [of a i r] by (auto simp: GetUser_Inr store_ok_def)
qed

lemma login_role_admin:
  "store_ok a \<Longrightarrow> login_role cfg c a u p = ''admin'' \<Longrightarrow> u = wc_username cfg \<and> p = wc_password cfg"
  using Authenticate_role [of a c u p]
  by (auto simp: login_role_def directory_roles_def split: if_splits sum.splits)

text \<open>The request of a history that signs in with the configured credentials and gets the token.\<close>

definition configured_login :: "web_config \<Rightarrow> string \<Rightarrow> time \<times> surroundings \<times> route \<times> request \<Rightarrow> bool" where
  "configured_login cfg t x \<longleftrightarrow>
     (case x of (now, su, r, rq) \<Rightarrow>
        r = RLogin \<and> su_token su = Some t \<and>
        form_value rq ''username'' = wc_username cfg \<and> form_value rq ''password'' = wc_password cfg)"

lemma serve_admin_session:
  assumes ok: "store_ok (wb_accounts w)"
    and s: "(t, s) \<in> set (wb_sessions (snd (serve cfg c now su r rq w)))" "se_role s = ''admin''"
  shows "(t, s) \<in> set (wb_sessions w) \<or> configured_login cfg t (now, su, r, rq)"
proof (cases "r = RLogin")
  case True
  then show ?thesis
    using login_reach [of t s cfg c now "su_token su" "su_csrf su" rq w] login_role_admin [OF ok] s
    by (auto simp: serve_login configured_login_def)
next
  case False
  then show ?thesis using reached_serve [of r c now w cfg su rq] s(1) by (auto simp: after_def reach_def)
qed

text \<open>
  C13: from a start without sessions on a valid store, every admin session that any history of
  requests leaves was opened by a login of that history with exactly the configured user name and
  password, under the token that login got; no form, self-service, recovery or directory account
  leads to one.  The store stays valid throughout.
\<close>

theorem admin_sessions_configured:
  assumes start: "wb_sessions w = []" "store_ok (wb_accounts w)"
    and s: "(t, s) \<in> set (wb_sessions (run_web cfg c xs w))" "se_role s = ''admin''"
  shows "list_ex (configured_login cfg t) xs \<and> store_ok (wb_accounts (run_web cfg c xs w))"
proof -
  have "list_ex (configured_login cfg t) xs"
    using s(1)
  proof (induction xs rule: rev_induct)
    case Nil
    then show ?case using start(1) by simp
  next
    case (snoc x xs)
    obtain now su r rq where x: "x = (now, su, r, rq)" by (cases x)
    have "store_ok (wb_accounts (run_web cfg c xs w))" using start(2) by (rule run_web_ok)
    with snoc.prems s(2) have "(t, s) \<in> set (wb_sessions (run_web cfg c xs w)) \<or> configured_login cfg t x"
      unfolding x by (intro serve_admin_session) simp_all
    then show ?case using snoc.IH by auto
  qed
  then show ?thesis using run_web_ok [OF start(2)] by simp
qed

section \<open>Guards\<close>

text \<open>
  a request for a page behind the admin guard whose session is missing, expired or of another
  role runs no handler: it is redirected, and the only change of the server is that the expired
  session is gone.
\<close>

theorem admin_pages_guarded:
  assumes g: "route_guard r = Admin"
    and s: "fst (currentSession now rq (wb_sessions w)) = None \<or>
      (\<exists>se. fst (currentSession now rq (wb_sessions w)) = Some se \<and> se_role se \<noteq> ''admin'')"
  shows "(\<exists>u. rp_reply (fst (serve cfg c now su r rq w)) = Redirect u) \<and>
    snd (serve cfg c now su r rq w) = w\<lparr>wb_sessions := snd (currentSession now rq (wb_sessions w))\<rparr>"
  using s by (cases "currentSession now rq (wb_sessions w)")
    (auto simp: serve_def run_guard_def g with_session_def plain_response_def)

text \<open>
  a session outlives its account: deleting a user changes no session, so the deleted user's
  token still answers, with the old role, until the day is over.
\<close>

theorem session_outlives_account:
  assumes live: "map_of (wb_sessions w) t = Some s" "t \<noteq> []" "now \<le> se_expires s"
    and admin: "currentSession now rq (wb_sessions w) = (Some ad, wb_sessions w)" "se_role ad = ''admin''"
    and form: "rq_form_ok rq" "csrfOK (form_value rq ''csrf'') (se_csrf ad)"
    and del: "Atoi (rq_path_id rq) = Some i" "DeleteUser i (wb_accounts w) = Inr a"
  shows "(case serve cfg c now su RUserDelete rq w of (p, w') \<Rightarrow>
    rp_reply p = Redirect ''/users'' \<and> row_by_id (wb_accounts w') i = None \<and>
    fst (get_session now t (wb_sessions w')) = Some s)"
proof -
  have gone: "row_by_id a i = None"
  proof -
    have "ac_users a = AList.delete i (ac_users (wb_accounts w))"
      using del(2) unfolding DeleteUser_Inr by (elim exE conjE)
    then show ?thesis by (simp add: row_by_id_def delete_conv)
  qed
  show ?thesis
    using live admin form del gone
    by (simp add: serve_def run_guard_def route_guard_def route_handler_def handleUserDelete_def with_csrf_def
        with_session_def plain_response_def audit_def put_accounts_def get_session_def Let_def)
qed

text \<open>\<open>only k a b\<close>: from \<open>a\<close> to \<open>b\<close> no row goes, only row \<open>k\<close> changes, and not in name, role or admin flag.\<close>

definition only :: "int \<Rightarrow> accounts \<Rightarrow> accounts \<Rightarrow> bool" where
  "only k a b \<longleftrightarrow> (\<forall>i r. row_by_id a i = Some r \<longrightarrow> (\<exists>s. row_by_id b i = Some s \<and> (i \<noteq> k \<longrightarrow> s = r) \<and>
     ar_username s = ar_username r \<and> ar_role s = ar_role r \<and> ar_admin s = ar_admin r))"

lemma only_rows: "(\<And>i. row_by_id b i = row_by_id a i) \<Longrightarrow> only k a b"
  by (simp add: only_def)

lemma only_trans: "only k a b \<Longrightarrow> only k b d \<Longrightarrow> only k a d"
  unfolding only_def by (metis (no_types, lifting))

lemma only_self:
  assumes u: "GetUserByUsername a n = Inr u"
    and up: "UpdateUser c now rnd (uv_id u) (uv_username u) ph em di (uv_role u) p a = Inr (b, x)"
  shows "only (uv_id u) a b"
proof -
  obtain r where r: "row_by_id a (uv_id u) = Some r" "uv_username u = ar_username r" "uv_role u = ar_role r"
    using u by (auto simp: GetUserByUsername_Inr)
  obtain cred where "b = set_row (uv_id u) (edit_row now (ar_username r) ph em di (ar_role r) cred r) a"
    using up r unfolding UpdateUser_Inr by auto
  then show ?thesis using r(1) by (simp add: only_def)
qed

lemma only_set_groups: "set_groups k gs a = Inr b \<Longrightarrow> only k a b"
  by (rule only_rows) (auto simp: set_groups_def map_sum_def split: sum.splits)

lemma only_opt_outs: "SetUserChannelOptOuts now k ks a = Inr b \<Longrightarrow> only k a b"
  by (auto simp: SetUserChannelOptOuts_Inr only_def touch_def)

text \<open>The request has the session of \<open>u\<close>, not as admin and with its CSRF token, and changed only \<open>u\<close>'s row.\<close>

definition edited :: "time \<Rightarrow> request \<Rightarrow> web \<Rightarrow> user_view \<Rightarrow> web \<Rightarrow> bool" where
  "edited now rq w u v \<longleftrightarrow>
     (\<exists>se. fst (currentSession now rq (wb_sessions w)) = Some se \<and> se_role se \<noteq> ''admin'' \<and>
        csrfOK (form_value rq ''csrf'') (se_csrf se) \<and> GetUserByUsername (wb_accounts w) (se_username se) = Inr u) \<and>
     only (uv_id u) (wb_accounts w) (wb_accounts v)"

lemma edited_update:
  "\<lbrakk>UpdateUser c now rnd (uv_id u) (uv_username u) ph em di (uv_role u) p (wb_accounts v) = Inr (a, x);
    wb_accounts v = wb_accounts w; currentSession now rq (wb_sessions w) = (Some se, m);
    \<not> \<not> csrfOK (form_value rq ''csrf'') (se_csrf se); \<not> se_role se = ''admin'';
    GetUserByUsername (wb_accounts v) (se_username se) = Inr u\<rbrakk> \<Longrightarrow> edited now rq w u (put_accounts a v)"
  using only_self [of "wb_accounts w" "se_username se" u] by (simp add: edited_def put_accounts_def)

lemma edited_groups:
  "set_groups (uv_id u) gs (wb_accounts v) = Inr b \<Longrightarrow> edited now rq w u v \<Longrightarrow> edited now rq w u (put_accounts b v)"
  using only_set_groups [of "uv_id u" gs "wb_accounts v" b] by (auto simp: edited_def put_accounts_def intro: only_trans)

lemma edited_opt_outs:
  "SetUserChannelOptOuts now (uv_id u) ks (wb_accounts v) = Inr b \<Longrightarrow> edited now rq w u v \<Longrightarrow>
    edited now rq w u (put_accounts b v)"
  using only_opt_outs [of now "uv_id u" ks "wb_accounts v" b] by (auto simp: edited_def put_accounts_def intro: only_trans)

lemma edited_audit: "edited now rq w u v \<Longrightarrow> edited now rq w u (audit now n x d v)"
  using only_rows [of "RecordAudit n x d now (wb_accounts v)" "wb_accounts v"]
  by (auto simp: edited_def audit_def intro: only_trans)

lemma self_service_only:
  "after (\<lambda>v. wb_accounts v = wb_accounts w \<or> (\<exists>u. edited now rq w u v)) (handleAccountSave c now rnd rq w)"
  unfolding handleAccountSave_def
  by (rule after_with_session)
    (hypsubst | intro after_rules | (rule disjI1, assumption)
      | (intro disjI2 exI edited_audit, (erule edited_opt_outs | erule edited_groups | (erule edited_update, assumption+))+))+

text \<open>
  C20: self-service changes nobody else and no privilege: whatever the form says, no row goes and
  every row keeps its name, role and admin flag; a row changes at all only when the request carries
  the live session of that user, not as admin, with the session's CSRF token.
\<close>

theorem self_service_confined:
  assumes ok: "store_ok (wb_accounts w)" and r: "row_by_id (wb_accounts w) i = Some r"
  shows "\<exists>s. row_by_id (wb_accounts (snd (handleAccountSave c now rnd rq w))) i = Some s \<and>
    ar_username s = ar_username r \<and> ar_role s = ar_role r \<and> ar_admin s = ar_admin r \<and>
    (s = r \<or> (\<exists>se. fst (currentSession now rq (wb_sessions w)) = Some se \<and>
       nocase (ar_username r) (se_username se) \<and> se_role se \<noteq> ''admin'' \<and>
       csrfOK (form_value rq ''csrf'') (se_csrf se)))"
proof -
  let ?v = "snd (handleAccountSave c now rnd rq w)"
  consider "wb_accounts ?v = wb_accounts w" | u where "edited now rq w u ?v"
    using self_service_only [of w now rq c rnd] by (auto simp: after_def)
  then show ?thesis
  proof cases
    case 1
    then show ?thesis using r by simp
  next
    case (2 u)
    then obtain se where se: "fst (currentSession now rq (wb_sessions w)) = Some se" "se_role se \<noteq> ''admin''"
      "csrfOK (form_value rq ''csrf'') (se_csrf se)" "GetUserByUsername (wb_accounts w) (se_username se) = Inr u"
      and only: "only (uv_id u) (wb_accounts w) (wb_accounts ?v)"
      by (auto simp: edited_def)
    obtain s where s: "row_by_name (wb_accounts w) (se_username se) = Some (uv_id u, s)"
      using se(4) by (auto simp: GetUserByUsername_Inr)
    then have "row_by_id (wb_accounts w) (uv_id u) = Some s"
      using ok row_by_name_id by (auto simp: store_ok_def accounts_ok_def)
    then have "nocase (ar_username r) (se_username se)" if "i = uv_id u"
      using row_by_name_Some(2) [OF s] r that by simp
    moreover obtain t where "row_by_id (wb_accounts ?v) i = Some t" "i \<noteq> uv_id u \<longrightarrow> t = r"
      "ar_username t = ar_username r" "ar_role t = ar_role r" "ar_admin t = ar_admin r"
      using only r unfolding only_def by blast
    ultimately show ?thesis using se(1-3) by (intro exI [of _ t]) auto
  qed
qed

section \<open>Examples\<close>

definition sample_web :: web_config where
  "sample_web = \<lparr> wc_username = ''root'', wc_password = ''pw'', wc_secure = False, wc_domain = [],
     wc_name = [], wc_title = ''Hazard'', wc_quote = id \<rparr>"

definition sample_surroundings :: surroundings where
  "sample_surroundings = \<lparr> su_token = Some ''t'', su_csrf = Some ''x'', su_salt = None, su_reset = None,
     su_password = None, su_mailer = None, su_ingest = [], su_actions = [] \<rparr>"

lemma ann_store_valid: "store_ok ann_store"
proof -
  have "roles_ok ann_store"
    by (simp add: roles_ok_def ann_store_def ann_def regular_row_def empty_accounts_def directory_roles_def)
  then show ?thesis by (simp add: store_ok_def ann_store_ok)
qed

theorem admin_sessions_configured_witness:
  "list_ex (configured_login sample_web ''t'')
     [(0, sample_surroundings, RLogin, login_request ''root'' ''pw'' ''10.0.0.1:5000'')]"
proof -
  let ?xs = "[(0, sample_surroundings, RLogin, login_request ''root'' ''pw'' ''10.0.0.1:5000'')]"
  let ?s = "\<lparr>se_username = ''root'', se_role = ''admin'', se_csrf = ''x'', se_expires = sessionTTL\<rparr>"
  have "(''t'', ?s) \<in> set (wb_sessions (run_web sample_web c ?xs (fresh_web ann_store)))" for c
    by (simp add: serve_login handleLoginSubmit_def Let_def fresh_web_def retryIn_def
        login_role_def newSession_def audit_def sample_web_def sample_surroundings_def maxSessions_def)
  then show ?thesis
    using admin_sessions_configured [of "fresh_web ann_store" "''t''" ?s sample_web _ ?xs] ann_store_valid
    by (simp add: fresh_web_def)
qed

theorem admin_pages_guarded_witness:
  "snd (serve sample_web sample_crypto 0 sample_surroundings RUserDelete (login_request ''ann'' ''p'' ''x'')
      (fresh_web ann_store)) = fresh_web ann_store"
  using admin_pages_guarded [of RUserDelete 0 "login_request ''ann'' ''p'' ''x''" "fresh_web ann_store"
    sample_web sample_crypto sample_surroundings]
  by (simp add: route_guard_def currentSession_def login_request_def fresh_web_def)

definition delete_request :: request where
  "delete_request = \<lparr> rq_form_ok = True, rq_form = [(''csrf'', ''x'')], rq_session = Some ''adm'', rq_csrf = None,
     rq_remote = [], rq_path_id = ''1'', rq_host = [], rq_query = [] \<rparr>"

definition two_sessions :: web where
  "two_sessions = (fresh_web ann_store)\<lparr>wb_sessions :=
     [(''adm'', \<lparr>se_username = ''root'', se_role = ''admin'', se_csrf = ''x'', se_expires = 50\<rparr>),
      (''usr'', \<lparr>se_username = ''ann'', se_role = ''member'', se_csrf = ''y'', se_expires = 60\<rparr>)]\<rparr>"

theorem session_outlives_account_witness:
  "(case serve sample_web sample_crypto 7 sample_surroundings RUserDelete delete_request two_sessions of (p, w') \<Rightarrow>
    row_by_id (wb_accounts w') 1 = None \<and>
    fst (get_session 7 ''usr'' (wb_sessions w')) =
      Some \<lparr>se_username = ''ann'', se_role = ''member'', se_csrf = ''y'', se_expires = 60\<rparr>)"
proof -
  obtain a where a: "DeleteUser 1 ann_store = Inr a"
    by (simp add: DeleteUser_def ann_row ann_simps Let_def)
  have "Atoi ''1'' = Some 1" by code_simp
  then show ?thesis
    using session_outlives_account [of two_sessions "''usr''"
        "\<lparr>se_username = ''ann'', se_role = ''member'', se_csrf = ''y'', se_expires = 60\<rparr>" 7 delete_request
        "\<lparr>se_username = ''root'', se_role = ''admin'', se_csrf = ''x'', se_expires = 50\<rparr>" 1 a sample_web sample_crypto sample_surroundings] a
    by (simp add: two_sessions_def delete_request_def currentSession_def get_session_def csrfOK_def form_value_def
        fresh_web_def split: prod.splits)
qed

theorem self_service_confined_witness:
  "\<exists>s. row_by_id (wb_accounts (snd (handleAccountSave sample_crypto 7 None delete_request two_sessions))) 1 = Some s \<and>
    ar_role s = ''member'' \<and> \<not> ar_admin s"
  using self_service_confined [of two_sessions 1 ann sample_crypto 7 None delete_request] ann_store_valid ann_row ann_simps
  by (auto simp: two_sessions_def fresh_web_def)

end
