(* ===== verification/Web_Recovery.thy ===== *)
theory Web_Recovery
  imports Web_Safety
begin

text \<open>
  Password recovery as the user sees it, over the handlers of \<open>internal/web/forgot.go\<close>: from the
  form through the mailed link to the working sign-in, and what the answers tell a stranger.
\<close>

section \<open>The request for a link\<close>

text \<open>The user whose link a request gets: a regular user with this name and this e-mail address.\<close>

definition link_user :: "accounts \<Rightarrow> request \<Rightarrow> user_view option" where
  "link_user a rq =
     (case GetUserByUsername a (to_lower (trim_space (form_value rq ''username''))) of
        Inl e \<Rightarrow> None
      | Inr u \<Rightarrow>
          if uv_admin u \<or> trim_space (uv_email u) = [] \<or>
             \<not> nocase (trim_space (uv_email u)) (trim_space (form_value rq ''email'')) then None else Some u)"

definition forgot_sent :: response where
  "forgot_sent = plain_response (Rendered 200 ''forgot'' [] ''forgot.sent'')"

text \<open>A well-formed request that is not throttled and not for the configured admin.\<close>

definition fair_request :: "web_config \<Rightarrow> time \<Rightarrow> request \<Rightarrow> web \<Rightarrow> bool" where
  "fair_request cfg now rq w \<longleftrightarrow>
     (let name = to_lower (trim_space (form_value rq ''username''))
      in rq_form_ok rq \<and> csrf_cookie_ok rq \<and> name \<noteq> wc_username cfg \<and>
         fst (retryIn now (forgot_key name rq) (wb_fails w)) \<le> 0)"

lemma GetUserByUsername_row:
  assumes "accounts_ok a" "GetUserByUsername a name = Inr u"
  shows "\<exists>r. row_by_id a (uv_id u) = Some r \<and> u = view_user a (uv_id u, r) \<and> nocase (ar_username r) name"
proof -
  obtain r s where rs: "row_by_name a name = Some (uv_id u, s)" "row_by_id a (uv_id u) = Some r"
    "u = view_user a (uv_id u, r)"
    using assms(2) by (auto simp: GetUserByUsername_Inr)
  then have "row_by_id a (uv_id u) = Some s" using assms(1) row_by_name_id by (auto simp: accounts_ok_def)
  then show ?thesis using rs row_by_name_Some(2) [OF rs(1)] by simp
qed

lemma token_for_link_user:
  assumes "accounts_ok a" "link_user a rq = Some u"
  shows "\<exists>b. CreatePasswordReset c now (Some raw) (uv_id u) a = Inr (b, hex_encode raw)"
proof -
  obtain name where "GetUserByUsername a name = Inr u" "\<not> uv_admin u"
    using assms(2) by (auto simp: link_user_def split: sum.splits if_splits)
  then obtain r where "row_by_id a (uv_id u) = Some r" "\<not> ar_admin r"
    using GetUserByUsername_row [OF assms(1)] by (metis uv_role_view(2))
  then show ?thesis by (auto simp: CreatePasswordReset_Inr)
qed

lemma forgot_cases:
  assumes "fair_request cfg now rq w"
  shows "\<exists>l l'. handleForgotSubmit cfg c now rnd mailer rq w =
    (case link_user (wb_accounts w) rq of
       None \<Rightarrow> (forgot_sent, w\<lparr>wb_fails := l\<rparr>, [])
     | Some u \<Rightarrow>
         (case CreatePasswordReset c now rnd (uv_id u) (wb_accounts w) of
            Inl e \<Rightarrow> (forgot_sent, w\<lparr>wb_fails := l\<rparr>, [])
          | Inr (a, token) \<Rightarrow>
              let m = \<lparr> ml_to = trim_space (uv_email u),
                        ml_subject = displayName cfg @ '' '' @ [CHR 0xE2, CHR 0x80, CHR 0x94] @ '' password reset'',
                        ml_link = resetLink cfg rq @ ''/reset?token='' @ token \<rparr>
              in (case mailer of
                    None \<Rightarrow> (forgot_sent, w\<lparr>wb_fails := l', wb_accounts := a\<rparr>, [])
                  | Some ok \<Rightarrow>
                      if ok then (forgot_sent, w\<lparr>wb_fails := l', wb_accounts := a\<rparr>, [m])
                      else (plain_response (Rendered 200 ''forgot'' ''forgot.mail_failed'' []),
                            w\<lparr>wb_fails := l, wb_accounts := a\<rparr>, [m]))))"
proof -
  let ?key = "forgot_key (to_lower (trim_space (form_value rq ''username''))) rq"
  obtain wait l where r: "retryIn now ?key (wb_fails w) = (wait, l)" by (cases "retryIn now ?key (wb_fails w)")
  with assms have f: "rq_form_ok rq" "csrf_cookie_ok rq" "\<not> wait > 0"
    "to_lower (trim_space (form_value rq ''username'')) \<noteq> wc_username cfg"
    by (simp_all add: fair_request_def Let_def)
  show ?thesis
    by (rule exI [of _ "record_attempt now ?key False l"], rule exI [of _ "record_attempt now ?key True l"])
      (simp add: handleForgotSubmit_def r f link_user_def forgot_sent_def put_accounts_def Let_def
        split: sum.split option.split)
qed

text \<open>
  the answer to a fair request is the same page whether or not the name and address belong to
  an account, as long as mail goes out; when sending fails, the page tells exactly the requests
  that named an account with its address.
\<close>

theorem forgot_answers:
  assumes "fair_request cfg now rq w" "accounts_ok (wb_accounts w)"
  shows "fst (handleForgotSubmit cfg c now (Some raw) mailer rq w) =
    (if mailer = Some False \<and> link_user (wb_accounts w) rq \<noteq> None
     then plain_response (Rendered 200 ''forgot'' ''forgot.mail_failed'' []) else forgot_sent)"
proof -
  show ?thesis
    using forgot_cases [OF assms(1), of c "Some raw" mailer] token_for_link_user [OF assms(2), of rq _ c now raw]
    by (fastforce simp: Let_def split: option.splits)
qed

section \<open>From the link to the sign-in\<close>

lemma hex_char_plain: "n < 16 \<Longrightarrow> plain_char (hex_digit n)"
proof -
  assume "n < 16"
  then have "n \<in> set [0..<16]" by simp
  moreover have "list_all (\<lambda>n. plain_char (hex_digit n)) [0..<16]" by code_simp
  ultimately show ?thesis by (simp add: list_all_iff)
qed

lemma hex_encode_plain: "\<forall>x\<in>set (hex_encode s). plain_char x"
proof (induction s)
  case (Cons c s)
  have "(of_char c :: nat) div 16 < 16" using of_char_less [of c] by linarith
  then show ?case using Cons by (simp add: hex_char_plain)
qed simp

lemma trim_hex [simp]: "trim_space (hex_encode s) = hex_encode s"
  using hex_encode_plain [of s] by (cases "hex_encode s = []") (auto intro!: trim_space_plain)

lemma reset_submit_runs:
  assumes "rq_form_ok rq" "csrf_cookie_ok rq" "trim_space (form_value rq ''token'') = token"
    and "8 \<le> length (form_value rq ''password'')" "length (form_value rq ''password'') \<le> 72"
    and "ConsumePasswordReset c now token (wb_accounts w) = Inr (a, i)" "GetUser a i = Inr u"
    and "SetUserPassword c now rnd i (form_value rq ''password'') a = Inr b"
  shows "handleResetSubmit c now rnd rq w =
    (plain_response (Redirect ''/login?reset=1''), audit now (uv_username u) ''password-reset'' [] (put_accounts b w))"
  using assms by (auto simp: handleResetSubmit_def put_accounts_def Let_def)

text \<open>
  C19: recovery works from end to end: for a regular user with a role and an e-mail address, a fair
  request mails one link with a fresh token, and the reset form submitted with that token within
  the hour and a password of 8 to 72 bytes redirects to the login, after which the new password
  signs that user in, with the same ID and role.
\<close>

theorem recovery_end_to_end:
  assumes ok: "accounts_ok (wb_accounts w)" and fair: "fair_request cfg t1 rq w"
    and who: "link_user (wb_accounts w) rq = Some u" "uv_role u \<noteq> []"
    and new: "\<forall>x\<in>set (ac_resets (wb_accounts w)). rs_hash x \<noteq> tokenHashHex c (hex_encode raw)"
    and form: "rq_form_ok rq2" "csrf_cookie_ok rq2" "form_value rq2 ''token'' = hex_encode raw"
      "8 \<le> length (form_value rq2 ''password'')" "length (form_value rq2 ''password'') \<le> 72"
    and time: "unix_milli t2 \<le> unix_milli t1 + 3600000"
    and salt: "salt \<noteq> []" and hmac: "\<And>k m. length (cr_hmac c k m) = sha256_size"
  shows "case handleForgotSubmit cfg c t1 (Some raw) (Some True) rq w of (r1, w1, ms) \<Rightarrow>
    map ml_link ms = [resetLink cfg rq @ ''/reset?token='' @ hex_encode raw] \<and>
    (case handleResetSubmit c t2 (Some salt) rq2 w1 of (r2, w2) \<Rightarrow>
       rp_reply r2 = Redirect ''/login?reset=1'' \<and>
       (\<exists>v. Authenticate c (wb_accounts w2) (uv_username u) (form_value rq2 ''password'') = Inr v \<and>
          uv_id v = uv_id u \<and> uv_role v = uv_role u))"
proof -
  let ?i = "uv_id u" and ?p = "form_value rq2 ''password''" and ?t = "hex_encode raw"
  obtain a where a: "CreatePasswordReset c t1 (Some raw) ?i (wb_accounts w) = Inr (a, ?t)"
    using token_for_link_user [OF ok who(1)] by blast
  obtain name r where r: "row_by_id (wb_accounts w) ?i = Some r" "\<not> ar_admin r" "u = view_user (wb_accounts w) (?i, r)"
    using GetUserByUsername_row [OF ok] who(1)
    by (auto simp: link_user_def split: sum.splits if_splits) (metis uv_role_view(2))
  have row: "row_by_id a ?i = Some r" and oka: "accounts_ok a"
    using a r(1) CreatePasswordReset_ok [OF ok a] by (auto simp: CreatePasswordReset_Inr)
  define d where "d = consume_mark t2 (tokenHashHex c ?t) a"
  have con: "ConsumePasswordReset c t2 ?t a = Inr (d, ?i)"
    using issued_lookup [OF a new] time
    by (simp add: ConsumePasswordReset_def consume_lookup_def issued_valid d_def)
  have rowd: "row_by_id d ?i = Some r" and okd: "accounts_ok d"
    using row oka by (simp_all add: d_def consume_mark_ok)
  obtain h where h: "hashPassword c ?p (hex_encode salt) = Some h"
    by (simp add: hashPassword_def)
  define s where "s = r\<lparr>ar_salt := hex_encode salt, ar_hash := h, ar_updated_ms := unix_milli t2\<rparr>"
  have set: "SetUserPassword c t2 (Some salt) ?i ?p d = Inr (set_row ?i s d)"
    using rowd r(2) h by (simp add: SetUserPassword_Inr passwordFields_def Let_def s_def)
  have get: "GetUser d ?i = Inr (view_user d (?i, r))" using rowd by (simp add: GetUser_Inr)
  obtain l where forgot: "handleForgotSubmit cfg c t1 (Some raw) (Some True) rq w =
      (forgot_sent, w\<lparr>wb_fails := l, wb_accounts := a\<rparr>,
       [\<lparr> ml_to = trim_space (uv_email u),
          ml_subject = displayName cfg @ '' '' @ [CHR 0xE2, CHR 0x80, CHR 0x94] @ '' password reset'',
          ml_link = resetLink cfg rq @ ''/reset?token='' @ ?t \<rparr>])"
    using forgot_cases [OF fair, of c "Some raw" "Some True"] who(1) a by (auto simp: Let_def)
  let ?w1 = "w\<lparr>wb_fails := l, wb_accounts := a\<rparr>"
  have reset: "handleResetSubmit c t2 (Some salt) rq2 ?w1 =
      (plain_response (Redirect ''/login?reset=1''),
       audit t2 (uv_username (view_user d (?i, r))) ''password-reset'' [] (put_accounts (set_row ?i s d) ?w1))"
    by (rule reset_submit_runs [OF form(1,2) _ form(4,5) _ get set, where token = ?t])
      (simp add: form(3), use con in simp)
  let ?b = "RecordAudit (ar_username r) ''password-reset'' [] t2 (set_row ?i s d)"
  have "accounts_ok ?b" using SetUserPassword_ok [OF okd set] by (rule RecordAudit_ok)
  moreover have "row_by_id ?b ?i = Some s" using rowd by simp
  moreover have ur: "uv_username u = ar_username r" "uv_role u = ar_role r"
    using arg_cong [OF r(3), of uv_username] arg_cong [OF r(3), of uv_role] by simp_all
  then have "nocase (ar_username s) (uv_username u)" by (simp add: s_def)
  moreover have "hex_encode salt \<noteq> []" "h \<noteq> []"
    using salt hash_nonempty [OF hmac h] by (auto simp flip: length_greater_0_conv)
  moreover have "ar_role r \<noteq> []" using who(2) ur(2) by simp
  ultimately have "Authenticate c ?b (uv_username u) ?p = Inr (view_user ?b (?i, s))"
    using Authenticate_row [of ?b ?i s "uv_username u" c ?p] r(2) h by (simp add: s_def)
  then show ?thesis using ur(2)
    by (simp add: forgot reset plain_response_def audit_def put_accounts_def s_def)
qed

section \<open>Examples\<close>

definition bob :: account_row where
  "bob = regular_row 0 ''bob'' [] ''bob@x'' [] ''member'' ([], [])"

definition bob_store :: accounts where
  "bob_store = insert_user bob empty_accounts"

definition bob_view :: user_view where
  "bob_view = view_user bob_store (1, bob)"

lemma bob_store_ok: "accounts_ok bob_store"
  unfolding bob_store_def
  by (rule accounts_ok_insert_user [OF empty_accounts_ok]) (simp add: usernameTaken_def empty_accounts_def)

lemma bob_row: "row_by_id bob_store 1 = Some bob" "ac_resets bob_store = []"
  by (simp_all add: bob_store_def row_by_id_def empty_accounts_def)

definition recovery_form :: "string \<Rightarrow> string \<Rightarrow> request" where
  "recovery_form token password =
     \<lparr> rq_form_ok = True,
       rq_form = [(''csrf'', ''c''), (''username'', ''bob''), (''email'', ''bob@x''), (''token'', token),
         (''password'', password)],
       rq_session = None, rq_csrf = Some ''c'', rq_remote = ''10.0.0.1:5000'', rq_path_id = [],
       rq_host = ''h'', rq_query = [] \<rparr>"

lemma recovery_form_simps [simp]:
  "rq_form_ok (recovery_form t p)" "csrf_cookie_ok (recovery_form t p)"
  "form_value (recovery_form t p) ''username'' = ''bob''" "form_value (recovery_form t p) ''email'' = ''bob@x''"
  "form_value (recovery_form t p) ''token'' = t" "form_value (recovery_form t p) ''password'' = p"
  by (simp_all add: recovery_form_def csrf_cookie_ok_def csrfOK_def form_value_def)

lemma bob_words: "trim_space ''bob'' = ''bob''" "trim_space ''bob@x'' = ''bob@x''" "to_lower ''bob'' = ''bob''"
  by (simp_all add: trim_space_plain plain_char_def byte_range_def) code_simp

lemma bob_fair: "fair_request sample_web now (recovery_form t p) (fresh_web bob_store)"
  by (simp add: fair_request_def sample_web_def retryIn_def fresh_web_def Let_def bob_words)

lemma bob_link: "link_user bob_store (recovery_form t p) = Some bob_view"
proof -
  have "row_by_name bob_store ''bob'' = Some (1, bob)"
    using row_by_name_iff [of bob_store "''bob''" 1 bob] bob_row(1) bob_store_ok
    by (simp add: accounts_ok_def bob_def regular_row_def)
  then show ?thesis using bob_row(1)
    by (simp add: bob_words link_user_def GetUserByUsername_def GetUser_def userByID_def bob_view_def)
      (simp add: bob_def regular_row_def bob_words)
qed

theorem forgot_answers_witness:
  "fst (handleForgotSubmit sample_web sample_crypto 0 (Some salt16) (Some False) (recovery_form [] []) (fresh_web bob_store)) =
    plain_response (Rendered 200 ''forgot'' ''forgot.mail_failed'' [])"
  using forgot_answers [OF bob_fair, where c = sample_crypto and raw = salt16 and mailer = "Some False"] bob_store_ok bob_link
  by (simp add: fresh_web_def)

theorem recovery_end_to_end_witness:
  "case handleForgotSubmit sample_web sample_crypto 0 (Some salt16) (Some True) (recovery_form [] [])
      (fresh_web bob_store) of (r1, w1, ms) \<Rightarrow>
    (case handleResetSubmit sample_crypto 3600000000000 (Some salt16)
        (recovery_form (hex_encode salt16) ''new secret'') w1 of (r2, w2) \<Rightarrow>
       \<exists>v. Authenticate sample_crypto (wb_accounts w2) ''bob'' ''new secret'' = Inr v \<and> uv_id v = 1)"
proof -
  let ?rq = "recovery_form (hex_encode salt16) ''new secret''"
  have acc: "wb_accounts (fresh_web a) = a" for a by (simp add: fresh_web_def)
  have v: "uv_role bob_view \<noteq> []" "uv_username bob_view = ''bob''" "uv_id bob_view = 1"
    by (simp_all add: bob_view_def) (simp_all add: bob_def regular_row_def)
  have form: "8 \<le> length (form_value ?rq ''password'')" "length (form_value ?rq ''password'') \<le> 72" by simp_all
  have ok: "accounts_ok (wb_accounts (fresh_web bob_store))"
    and link: "link_user (wb_accounts (fresh_web bob_store)) (recovery_form [] []) = Some bob_view"
    and new: "\<forall>x\<in>set (ac_resets (wb_accounts (fresh_web bob_store))).
      rs_hash x \<noteq> tokenHashHex sample_crypto (hex_encode salt16)"
    by (simp_all add: acc bob_store_ok bob_link bob_row)
  have time: "unix_milli 3600000000000 \<le> unix_milli 0 + 3600000" by (simp add: unix_milli_def)
  have salt: "salt16 \<noteq> []" by (simp add: salt16_def)
  show ?thesis
    using recovery_end_to_end [OF ok bob_fair link v(1) new recovery_form_simps(1,2,5) form time salt sample_hmac] v
    by (auto split: prod.splits)
qed

end
