(* ===== verification/Spec2Isabelle.thy ===== *)
theory Spec2Isabelle
  imports Severity Hazard_Event Event_Store Store_Invariant Store_Lifecycle Store_Journal
    Delivery_Contract Ingest_Pipeline Plugin_Status Source_Supervisor Bounded_Contract
    Output_Worker Delivery_System Messages Dispatch Mirror_State Action_Instance Directory
    Decimal Ledger_Contract Routing Mqtt_Topics Audit_Buffers Mqtt_Ingestor
    Results Mqtt_Output Mqtt_Active Mqtt_Race Mqtt_Roundtrip
    Ingest_Http Ingest_Endpoint Ingest_Delivery
    Aprs_Frame Aprs_Link Aprs_Message Aprs_Text Aprs_Parse Aprs_Receive
    Sanity Sanity_Laws Aprs_Geo Aprs_Weather Aprs_Hub Aprs_Stations Aprs_Expiry Aprs_Acks
    Aprs_Bounds Aprs_Radio Aprs_Transport Aprs_Backends Aprs_Actions Aprs_Pacing
    Plugin_Manager Manager_Intake
    Passwords Accounts Account_Laws Account_History Account_Safety Account_Tokens Account_Examples
    Web_Auth Web_Login Web_Accounts Web_Safety Web_Recovery
begin

text \<open>
  WarnFlux (HazardRouter), a router of hazard warnings: source plugins poll public services and
  emit hazard events; the core normalizes them, stores them with a change journal in SQLite and
  delivers the journal to output plugins; MQTT receivers feed the retained state of other
  instances into a mirror and hazard transitions into a rule engine, which starts notification
  actions.  This library models that core (the Go packages under \<open>src/internal/\<close>) as HOL
  functions and step relations and proves what each part promises to the next.

  \<^bold>\<open>How the parts interact.\<close>  A source runs under \<open>Source_Supervisor\<close> and hands its
  events to the intake of the plugin manager (\<open>Manager_Intake\<close>), whose one worker passes them to
  \<open>Ingest_Pipeline\<close> (normalize, stamp, validate, fingerprint: \<open>Hazard_Event\<close>) into the store
  (\<open>Event_Store\<close>), one transaction per event.  An \<open>Output_Worker\<close> polls the journal, hands changes
  to its plugin and acknowledges them; \<open>Delivery_System\<close> interleaves it with everything else that
  writes the store.  An MQTT receiver (\<open>Mqtt_Ingestor\<close>, over \<open>Mqtt_Topics\<close>) updates
  \<open>Mirror_State\<close> or offers an event to the bounded ingress (\<open>Dispatch\<close>), from which \<open>Routing\<close>
  takes it, consults the tables of \<open>Directory\<close> and submits to \<open>Action_Instance\<close>.  Beside
  this chain stands the APRS side: the backends of \<open>Aprs_Radio\<close> feed received frames to the hub
  (\<open>Aprs_Hub\<close>), which publishes the stations around and the messages to the operator's callsign,
  and carry the texts that the actions of \<open>Aprs_Actions\<close> hand to the hub.  The dashboard signs
  people in (\<open>Web_Auth\<close>) and edits users, groups and routing cells (\<open>Web_Accounts\<close>) in the tables
  (\<open>Accounts\<close>, \<open>Directory\<close>) from which the rule engine reads its rules and recipients.

  \<^bold>\<open>Theories.\<close>
  \<^item> \<open>Prelude\<close>, \<open>Utf8\<close>, \<open>Decimal\<close>: Go strings as byte lists, the functions of \<open>strings\<close>,
    \<open>unicode/utf8\<close> and \<open>strconv\<close> the program calls, tables as association lists, times.
  \<^item> \<open>Severity\<close>, \<open>Hazard_Event\<close>, \<open>Messages\<close> (\<open>severity\<close>, \<open>core\<close>): the data model.
  \<^item> \<open>Event_Store\<close>, \<open>Store_Invariant\<close>, \<open>Store_Lifecycle\<close>, \<open>Store_Journal\<close>
    (\<open>storage/sqlite/sqlite.go\<close>): the operations; the invariant they keep; the lifecycle automaton
    ingestion and expiry refine; journal, cursors and retention.
  \<^item> \<open>Plugin_Status\<close>, \<open>Source_Supervisor\<close>, \<open>Output_Worker\<close>, \<open>Delivery_System\<close>, \<open>Plugin_Manager\<close>,
    \<open>Manager_Intake\<close> (\<open>plugin\<close>): supervision, delivery, construction and fan-out, and the intake of
    events with every interleaving of emitters, worker, maintenance and shutdown.
  \<^item> \<open>Dispatch\<close>, \<open>Mirror_State\<close> (\<open>dispatch\<close>), \<open>Mqtt_Topics\<close>, \<open>Mqtt_Ingestor\<close>
    (\<open>mqttreceiver\<close>), \<open>Audit_Buffers\<close> (\<open>mqttreceiver/traffic.go\<close>, \<open>trail\<close>).
  \<^item> \<open>Directory\<close> (\<open>storage/sqlite/groups.go\<close>, \<open>routing.go\<close>), \<open>Routing\<close> (\<open>routing/engine.go\<close>),
    \<open>Action_Instance\<close> (\<open>action\<close>).
  \<^item> \<open>Mqtt_Output\<close> (\<open>plugins/outputs/mqtt/mqtt.go\<close>): the publisher, over a broker that keeps
    retained documents; \<open>Mqtt_Active\<close>: its retained view of active hazards agrees with what the
    journal delivered; \<open>Mqtt_Race\<close>: the delivery worker interleaved with rehydration after a
    reconnect; \<open>Mqtt_Roundtrip\<close>: what it publishes is what \<open>Mqtt_Ingestor\<close> reads.
  \<^item> \<open>Ingest_Http\<close> (\<open>ingesthttp\<close>): the HTTP endpoint that accepts hazards over the web and
    publishes them like the MQTT output; \<open>Ingest_Endpoint\<close>: what holds over any history of requests
    (rate limit, metrics); \<open>Ingest_Delivery\<close>: who gets through, and what a receiver makes of it.
  \<^item> \<open>Aprs_Frame\<close>, \<open>Aprs_Message\<close>, \<open>Aprs_Parse\<close> (\<open>aprs\<close>): KISS and AX.25 framing, outbound texts,
    the parser of received frames; \<open>Aprs_Link\<close>, \<open>Aprs_Text\<close>, \<open>Aprs_Receive\<close> hold their theorems:
    transparency of the link, bounds of the texts, round trips and the inputs that are misread.
  \<^item> \<open>Sanity\<close> (\<open>sanity\<close>): the text stage in front of every outbound channel; \<open>Sanity_Laws\<close>: it
    changes nothing on the air and gives e-mail bodies their layout.
  \<^item> \<open>Aprs_Geo\<close>, \<open>Aprs_Weather\<close>, \<open>Aprs_Hub\<close> (\<open>aprs\<close>): locators and distances, weather reports, the
    hub with its stations, documents, messages and acknowledgements.  Over any history of calls:
    \<open>Aprs_Stations\<close> (the retained view agrees with the registry), \<open>Aprs_Expiry\<close> (where it does
    not), \<open>Aprs_Acks\<close> (what an acknowledgement proves), \<open>Aprs_Bounds\<close> (queues and records).
  \<^item> \<open>Aprs_Radio\<close> (\<open>plugins/sources/aprsradio\<close>, \<open>aprsinet\<close>): the backends; \<open>Aprs_Transport\<close>: a
    message from one hub to another over either; \<open>Aprs_Backends\<close>: locators, reconnect delays.
  \<^item> \<open>Aprs_Actions\<close> (\<open>actions/aprs\<close>, \<open>actions/aprsout\<close>) with \<open>Aprs_Pacing\<close>: recipients, spacing of
    the transmissions, length of the texts.
  \<^item> \<open>Passwords\<close>, \<open>Accounts\<close> (\<open>storage/sqlite/users.go\<close>, \<open>audit.go\<close>): hashing, the user tables, the
    admin row, sign-in, reset tokens, the audit log.  \<open>Account_Laws\<close>: the invariant and that every
    operation keeps it; \<open>Account_History\<close>: histories of operations; \<open>Account_Safety\<close> and
    \<open>Account_Tokens\<close>: what no history can do; \<open>Account_Examples\<close>: the seeding, concrete stores.
  \<^item> \<open>Web_Auth\<close> (\<open>web/auth.go\<close>, \<open>auditlog.go\<close>, \<open>server.go\<close>, \<open>handlers.go\<close>), \<open>Web_Accounts\<close>
    (\<open>web/users.go\<close>, \<open>groups.go\<close>, \<open>account.go\<close>, \<open>forgot.go\<close>): the handlers as one server step
    (\<open>serve\<close>).  \<open>Web_Login\<close>: sessions, lockout, the audit ring; \<open>Web_Safety\<close>: each request is a
    sequence of store operations, admin sessions, guards, self-service; \<open>Web_Recovery\<close>: password
    recovery from the form to the sign-in.
  \<^item> \<open>Results\<close>: chains of fallible steps.
  \<^item> Interfaces as locales: \<open>Delivery_Contract\<close> (what a worker may rely on in the journal,
    interpreted by the store in \<open>Store_Journal\<close>), \<open>Bounded_Contract\<close> (bounded tables and queues,
    interpreted by the information queue, the mirror, the ingress, the action queue and the hub's
    queue), \<open>Ledger_Contract\<close> (interpreted by the fired-action ledger in \<open>Routing\<close>),
    \<open>record_invariant\<close> in \<open>Aprs_Bounds\<close> (what every change to a station record keeps, interpreted
    by the movement tails and by the well-formed records) and \<open>message_transport\<close> in
    \<open>Aprs_Transport\<close> (what the hub relies on in a backend, interpreted by the radio and APRS-IS).

  \<^bold>\<open>Conventions.\<close>  A string is a list of bytes; \<open>ToLower\<close> and \<open>ToUpper\<close> fold ASCII letters, as
  SQLite's \<open>NOCASE\<close> does.  A time is an integer of nanoseconds since 1970.  A Go \<open>error\<close> is an
  option whose \<open>None\<close> is \<open>nil\<close>, a result with an error a sum.  A table is an association list in
  row order; a map iterates in list order, and no property depends on it unless it says so.
  A transaction that fails leaves the store; whether a statement reaches the database is an
  argument where the caller's reaction matters.  SHA-256, HMAC, JSON decoding and time parsing are
  parameters, as are the functions of \<open>math\<close>, \<open>fmt\<close> for floating-point numbers and the files read
  at start-up; floating-point values are exact rationals beside the infinities and NaN.  Random bytes and the clock are arguments.  What the
  broker or a connection does with a write is an argument.  A panic is a value.  What a plugin call does, and when, is an argument or a choice of the step relation.
  Logging, metrics and audit notes are left out where they decide nothing.

  \<^bold>\<open>Bounds and fuel.\<close>  Retry loops recurse on the number of retries left, the drain of the
  ingress on the number of events its time allows, seeding and the reading of a source's active
  events on fuel for the pages, one more than there are rows; the properties on both show that this
  always suffices.

  \<^bold>\<open>Not modelled.\<close>  HTML and the pages that only show state, the compose and EMCOM forms, HTTP clients, SMTP, the paho client, YAML decoding, dialling and
  deadlines of connections, the timers of the hub's loop, the information text of weather reports,
  schema migrations, goroutine scheduling below the granularity of one lock or one transaction.
\<close>

end
